(* ===== verification/PPC_Prelude.thy ===== *)
theory PPC_Prelude
  imports Main "HOL-Library.Word"
begin

unbundle bit_operations_syntax

text \<open>
  Shared vocabulary of the development: the C++ fixed-width integer types as
  word types, the theorem collections the component theories extend, and the
  generic facts on words that the component proofs use again and again.
\<close>

type_synonym u8 = "8 word"
type_synonym u16 = "16 word"
type_synonym u32 = "32 word"
type_synonym u64 = "64 word"

named_theorems field_defs \<open>definitions of the instruction and register bit fields\<close>
named_theorems op_defs \<open>definitions of the op_* semantic operations\<close>
named_theorems handler_defs \<open>definitions of the execute_* instruction handlers\<close>
named_theorems byte_simps \<open>the bytes of shifted, masked and combined words\<close>
named_theorems wf_intros \<open>preservation of the register-file invariant\<close>

text \<open>C++ converts a bool to the integers 0 and 1.\<close>

definition of_flag :: "bool \<Rightarrow> 'a::len word" where
  "of_flag b = (if b then 1 else 0)"

lemma of_flag_simps [simp]: "of_flag True = 1" "of_flag False = 0"
  by (simp_all add: of_flag_def)

lemma of_flag_eq_0_iff [simp]: "(of_flag b :: 'a::len word) = 0 \<longleftrightarrow> \<not> b"
  by (simp add: of_flag_def)

lemma of_flag_le_1 [simp]: "(of_flag b :: 'a::len word) \<le> 1"
  by (cases b) (simp_all add: of_flag_def)

section \<open>Bits of words\<close>

lemma bit_of_flag_iff [bit_simps]: "bit (of_flag b :: 'a::len word) n \<longleftrightarrow> b \<and> n = 0"
  by (auto simp: of_flag_def bit_simps)

lemma word_and_eq_0_iff_bits:
  fixes x y :: "'a::len word"
  shows "x AND y = 0 \<longleftrightarrow> (\<forall>n < LENGTH('a). \<not> (bit x n \<and> bit y n))"
  by (auto simp: bit_eq_iff bit_simps dest: bit_imp_le_length)

lemma ones32_eq_mask: "(0xffffffff :: u32) = mask 32"
  by (simp add: mask_eq_exp_minus_1)

lemma bit_drop_ones32: "bit (drop_bit k (0xffffffff :: u32)) n \<longleftrightarrow> k + n < 32"
  unfolding ones32_eq_mask bit_drop_bit_eq bit_mask_iff comp_def
  by auto

lemma unat_less_2p_bits:
  fixes w :: "'a::len word"
  assumes "\<And>n. k \<le> n \<Longrightarrow> \<not> bit w n"
  shows "unat w < 2 ^ k"
proof -
  have "take_bit k w = w"
    using assms by (intro bit_word_eqI) (auto simp: bit_take_bit_iff not_le[symmetric])
  then have "take_bit k (unat w) = unat w"
    by (metis unsigned_take_bit_eq)
  then show ?thesis
    by (simp add: take_bit_nat_eq_self_iff)
qed

lemma bit_less_2p:
  fixes w :: "'a::len word"
  assumes "unat w < 2 ^ k" "bit w m"
  shows "m < k"
proof (rule ccontr)
  assume "\<not> m < k"
  then have "unat w < 2 ^ m"
    using assms(1) power_increasing[of k m "2::nat"] by linarith
  then have "\<not> bit (unat w) m"
    by (simp add: bit_iff_odd)
  with assms(2) show False
    by (simp add: bit_unsigned_iff)
qed

section \<open>Words as bytes\<close>

lemma word_eq_by_bits:
  fixes x y :: "'a::len word"
  shows "(\<And>n. n < LENGTH('a) \<Longrightarrow> bit x n = bit y n) \<Longrightarrow> x = y"
  by (rule bit_word_eqI) simp
lemmas bit_rules = bit_or_iff bit_and_iff bit_xor_iff bit_push_bit_iff bit_take_bit_iff bit_drop_bit_eq bit_unsigned_iff bit_mask_iff possible_bit_word comp_def

lemma byte_push_ge [byte_simps]:
  fixes y :: "'a::len word"
  assumes "j \<le> k" "k + 8 \<le> LENGTH('a)"
  shows "(ucast (drop_bit k (push_bit j y)) :: u8) = ucast (drop_bit (k - j) y)"
  using assms by (intro word_eq_by_bits) (auto simp: bit_rules)

lemma byte_push_lt [byte_simps]:
  fixes y :: "'a::len word"
  assumes "k + 8 \<le> j"
  shows "(ucast (drop_bit k (push_bit j y)) :: u8) = 0"
  using assms by (intro word_eq_by_bits) (auto simp: bit_rules)

lemma byte_push_lt0 [byte_simps]:
  fixes y :: "'a::len word"
  assumes "8 \<le> j"
  shows "(ucast (push_bit j y) :: u8) = 0"
  using assms by (intro word_eq_by_bits) (auto simp: bit_rules)

lemma byte_of_byte [byte_simps]:
  fixes b :: "u8"
  shows "8 \<le> LENGTH('a::len) \<Longrightarrow> (ucast (ucast b :: 'a word) :: u8) = b"
    and "8 \<le> m \<Longrightarrow> (ucast (drop_bit m (ucast b :: 'a word)) :: u8) = 0"
  by (intro word_eq_by_bits; auto simp: bit_rules dest: bit_imp_le_length)+

lemma byte_and_255 [byte_simps]: "(b :: u8) AND 255 = b"
proof -
  have "(255 :: u8) = - 1" by simp
  then show ?thesis by (metis and.right_neutral)
qed

lemma byte_numerals [byte_simps]:
  "(0xff00 :: u8) = 0" "(0xff0000 :: u8) = 0" "(0xff000000 :: u8) = 0"
  "(0xff00000000 :: u8) = 0" "(0xff0000000000 :: u8) = 0" "(0xff000000000000 :: u8) = 0"
  "(0xff00000000000000 :: u8) = 0"
  by simp_all

lemma byte_logic [byte_simps]:
  fixes x y :: "'a::len word"
  shows "(ucast (drop_bit k (x OR y)) :: u8) = ucast (drop_bit k x) OR ucast (drop_bit k y)"
   "(ucast (drop_bit k (x AND y)) :: u8) = ucast (drop_bit k x) AND ucast (drop_bit k y)"
   "(ucast (x OR y) :: u8) = ucast x OR ucast y"
   "(ucast (x AND y) :: u8) = ucast x AND ucast y"
  by (intro word_eq_by_bits; auto simp: bit_rules)+

lemma bit_byte:
  fixes x :: "'a::len word"
  shows "bit x n = bit (ucast (drop_bit (8 * (n div 8)) x) :: u8) (n mod 8)"
  by (simp add: bit_rules)

lemma word32_byte_eqI:
  fixes x y :: "u32"
  assumes "(ucast x :: u8) = ucast y" "(ucast (drop_bit 8 x) :: u8) = ucast (drop_bit 8 y)"
    "(ucast (drop_bit 16 x) :: u8) = ucast (drop_bit 16 y)"
    "(ucast (drop_bit 24 x) :: u8) = ucast (drop_bit 24 y)"
  shows "x = y"
proof (rule word_eq_by_bits)
  fix n assume "n < LENGTH(32)"
  then have "n div 8 < 4" by simp
  then have "n div 8 = 0 \<or> n div 8 = 1 \<or> n div 8 = 2 \<or> n div 8 = 3" by arith
  then show "bit x n = bit y n"
    using assms by (subst (1 2) bit_byte) auto
qed

lemma word16_byte_eqI:
  fixes x y :: u16
  assumes "(ucast x :: u8) = ucast y" "(ucast (drop_bit 8 x) :: u8) = ucast (drop_bit 8 y)"
  shows "x = y"
proof (rule word_eq_by_bits)
  fix n assume "n < LENGTH(16)"
  then have "n div 8 < 2" by simp
  then have "n div 8 = 0 \<or> n div 8 = 1" by arith
  then show "bit x n = bit y n"
    using assms by (subst (1 2) bit_byte) auto
qed

lemma word64_byte_eqI:
  fixes x y :: u64
  assumes "(ucast x :: u8) = ucast y" "(ucast (drop_bit 8 x) :: u8) = ucast (drop_bit 8 y)"
    "(ucast (drop_bit 16 x) :: u8) = ucast (drop_bit 16 y)"
    "(ucast (drop_bit 24 x) :: u8) = ucast (drop_bit 24 y)"
    "(ucast (drop_bit 32 x) :: u8) = ucast (drop_bit 32 y)"
    "(ucast (drop_bit 40 x) :: u8) = ucast (drop_bit 40 y)"
    "(ucast (drop_bit 48 x) :: u8) = ucast (drop_bit 48 y)"
    "(ucast (drop_bit 56 x) :: u8) = ucast (drop_bit 56 y)"
  shows "x = y"
proof (rule word_eq_by_bits)
  fix n assume "n < LENGTH(64)"
  then have "n div 8 < 8" by simp
  then have "n div 8 = 0 \<or> n div 8 = 1 \<or> n div 8 = 2 \<or> n div 8 = 3 \<or>
      n div 8 = 4 \<or> n div 8 = 5 \<or> n div 8 = 6 \<or> n div 8 = 7" by arith
  then show "bit x n = bit y n"
    using assms by (subst (1 2) bit_byte) auto
qed

section \<open>Small bounded quantifiers\<close>

lemma all_less_small:
  "(\<forall>i<Suc 0. P i) \<longleftrightarrow> P 0"
  "(\<forall>i<1. P i) \<longleftrightarrow> P (0::nat)"
  "(\<forall>i<2. P i) \<longleftrightarrow> P 0 \<and> P (1::nat)"
  "(\<forall>i<4. P i) \<longleftrightarrow> P 0 \<and> P 1 \<and> P 2 \<and> P (3::nat)"
  "(\<forall>i<8. P i) \<longleftrightarrow> P 0 \<and> P 1 \<and> P 2 \<and> P 3 \<and> P 4 \<and> P 5 \<and> P 6 \<and> P (7::nat)"
  by (simp_all add: numeral_eq_Suc All_less_Suc2)

end
