(* ===== verification/PPC_Bitfields.thy ===== *)
theory PPC_Bitfields
  imports PPC_Prelude
begin

unbundle bit_operations_syntax

text \<open>
  The bit-field templates of \<^verbatim>\<open>ppc-bitfields.hpp\<close>. Bits are numbered as
  the PowerPC manuals do: bit 0 is the most significant one. A field is given by
  its first and last bit; \<open>field_mask\<close>, \<open>field_test\<close>, \<open>field_extract\<close> and
  \<open>field_insert\<close> are the four static members of \<^verbatim>\<open>bit_field<FB, FE>\<close>.
\<close>

datatype bit_field = BitField (FB: nat) (FE: nat)

fun static_mask :: "nat \<Rightarrow> nat \<Rightarrow> u32" where
  "static_mask fb fe =
     (if fe = 31 then drop_bit fb 0xffffffff
      else drop_bit fb 0xffffffff XOR drop_bit (fe + 1) 0xffffffff)"

definition field_mask :: "bit_field \<Rightarrow> u32" where
  "field_mask f = static_mask (FB f) (FE f)"

definition field_test :: "bit_field \<Rightarrow> u32 \<Rightarrow> bool" where
  "field_test f v \<longleftrightarrow> v AND field_mask f \<noteq> 0"

definition field_extract :: "bit_field \<Rightarrow> u32 \<Rightarrow> u32" where
  "field_extract f v =
     (let m = drop_bit (31 - FE f) (field_mask f)
      in drop_bit (31 - FE f) v AND m)"

definition field_insert :: "bit_field \<Rightarrow> u32 \<Rightarrow> u32 \<Rightarrow> u32" where
  "field_insert f d v =
     (let m = field_mask f
      in (d AND NOT m) OR (push_bit (31 - FE f) v AND m))"

definition wf_field :: "bit_field \<Rightarrow> bool" where
  "wf_field f \<longleftrightarrow> FB f \<le> FE f \<and> FE f < 32"

definition field_width :: "bit_field \<Rightarrow> nat" where
  "field_width f = FE f - FB f + 1"

section \<open>Laws of the field templates\<close>

lemma bit_static_mask_iff:
  assumes "fb \<le> fe" "fe < 32"
  shows "bit (static_mask fb fe) n \<longleftrightarrow> 31 - fe \<le> n \<and> n \<le> 31 - fb"
proof (cases "fe = 31")
  case True
  have "bit (static_mask fb fe) n \<longleftrightarrow> fb + n < 32"
    unfolding static_mask.simps by (simp only: True refl if_True bit_drop_ones32)
  with True assms show ?thesis by auto
next
  case False
  have "bit (static_mask fb fe) n \<longleftrightarrow> (fb + n < 32) \<noteq> (fe + 1 + n < 32)"
    unfolding static_mask.simps by (simp only: False if_False bit_xor_iff bit_drop_ones32)
  with False assms show ?thesis by auto
qed

lemma bit_field_mask_iff:
  assumes "wf_field f"
  shows "bit (field_mask f) n \<longleftrightarrow> 31 - FE f \<le> n \<and> n \<le> 31 - FB f"
  using assms unfolding field_mask_def wf_field_def by (intro bit_static_mask_iff) auto

lemma bit_field_extract_iff:
  assumes "wf_field f"
  shows "bit (field_extract f v) n \<longleftrightarrow> n < field_width f \<and> bit v (31 - FE f + n)"
proof -
  have "bit (field_extract f v) n \<longleftrightarrow>
      bit v (31 - FE f + n) \<and> n \<le> FE f - FB f"
    using assms bit_field_mask_iff[OF assms, of "31 - FE f + n"]
    by (auto simp: field_extract_def wf_field_def Let_def bit_and_iff bit_drop_bit_eq)
  then show ?thesis
    by (auto simp: field_width_def)
qed

lemma bit_field_insert_iff:
  assumes "wf_field f"
  shows "bit (field_insert f d v) n \<longleftrightarrow>
     (if 31 - FE f \<le> n \<and> n \<le> 31 - FB f then bit v (n - (31 - FE f)) else bit d n)"
  using assms bit_field_mask_iff[OF assms, of n] bit_imp_le_length[of d n]
  by (auto simp: field_insert_def wf_field_def Let_def bit_or_iff bit_and_iff bit_not_iff
      bit_push_bit_iff)

lemma field_extract_bound:
  assumes "wf_field f"
  shows "unat (field_extract f v) < 2 ^ field_width f"
  by (rule unat_less_2p_bits) (simp add: bit_field_extract_iff[OF assms])

lemma field_extract_insert:
  assumes "wf_field f"
  shows "field_extract f (field_insert f d v) = take_bit (field_width f) v"
  using assms
  by (intro bit_word_eqI)
     (auto simp: bit_field_extract_iff bit_field_insert_iff bit_take_bit_iff
        field_width_def wf_field_def)

lemma field_insert_extract:
  assumes "wf_field f"
  shows "field_insert f d (field_extract f d) = d"
  using assms
  by (intro bit_word_eqI)
     (auto simp: bit_field_extract_iff bit_field_insert_iff field_width_def wf_field_def)

definition disjoint_fields :: "bit_field \<Rightarrow> bit_field \<Rightarrow> bool" where
  "disjoint_fields f g \<longleftrightarrow> FE f < FB g \<or> FE g < FB f"

lemma field_extract_insert_disjoint:
  assumes "wf_field f" "wf_field g" "disjoint_fields f g"
  shows "field_extract g (field_insert f d v) = field_extract g d"
  using assms
  by (intro bit_word_eqI)
     (auto simp: bit_field_extract_iff bit_field_insert_iff field_width_def wf_field_def
        disjoint_fields_def)

lemma field_test_iff_extract:
  assumes "wf_field f"
  shows "field_test f v \<longleftrightarrow> field_extract f v \<noteq> 0"
proof -
  have "field_test f v \<longleftrightarrow> (\<exists>n. bit v n \<and> 31 - FE f \<le> n \<and> n \<le> 31 - FB f)"
    using bit_imp_le_length[of v] bit_field_mask_iff[OF assms]
    by (auto simp: field_test_def bit_eq_iff bit_and_iff)
  also have "\<dots> \<longleftrightarrow> (\<exists>n. bit (field_extract f v) n)"
  proof safe
    fix n assume "bit v n" "31 - FE f \<le> n" "n \<le> 31 - FB f"
    then have "bit (field_extract f v) (n - (31 - FE f))"
      using assms by (simp add: bit_field_extract_iff wf_field_def field_width_def) arith
    then show "\<exists>n. bit (field_extract f v) n" ..
  next
    fix n assume "bit (field_extract f v) n"
    then have "bit v (31 - FE f + n)" "31 - FE f + n \<le> 31 - FB f"
      using assms by (auto simp: bit_field_extract_iff wf_field_def field_width_def)
    then show "\<exists>n. bit v n \<and> 31 - FE f \<le> n \<and> n \<le> 31 - FB f"
      by (intro exI[of _ "31 - FE f + n"]) simp
  qed
  also have "\<dots> \<longleftrightarrow> field_extract f v \<noteq> 0"
    using bit_imp_le_length[of "field_extract f v"] by (fastforce simp: bit_eq_iff)
  finally show ?thesis .
qed

section \<open>The fields of instructions and registers\<close>

text \<open>The \<^verbatim>\<open>typedef bit_field<FB, FE>\<close> aliases, with their source names.\<close>

abbreviation OPCD_field :: bit_field where "OPCD_field \<equiv> BitField 0 5"
abbreviation XO_10_field :: bit_field where "XO_10_field \<equiv> BitField 21 30"
abbreviation XO_9_field :: bit_field where "XO_9_field \<equiv> BitField 22 30"
abbreviation XO_5_field :: bit_field where "XO_5_field \<equiv> BitField 26 30"
abbreviation rA_field :: bit_field where "rA_field \<equiv> BitField 11 15"
abbreviation rB_field :: bit_field where "rB_field \<equiv> BitField 16 20"
abbreviation rD_field :: bit_field where "rD_field \<equiv> BitField 6 10"
abbreviation rS_field :: bit_field where "rS_field \<equiv> BitField 6 10"
abbreviation frA_field :: bit_field where "frA_field \<equiv> BitField 11 15"
abbreviation frB_field :: bit_field where "frB_field \<equiv> BitField 16 20"
abbreviation frC_field :: bit_field where "frC_field \<equiv> BitField 21 25"
abbreviation frD_field :: bit_field where "frD_field \<equiv> BitField 6 10"
abbreviation frS_field :: bit_field where "frS_field \<equiv> BitField 6 10"
abbreviation vA_field :: bit_field where "vA_field \<equiv> BitField 11 15"
abbreviation vB_field :: bit_field where "vB_field \<equiv> BitField 16 20"
abbreviation vC_field :: bit_field where "vC_field \<equiv> BitField 21 25"
abbreviation vD_field :: bit_field where "vD_field \<equiv> BitField 6 10"
abbreviation vS_field :: bit_field where "vS_field \<equiv> BitField 6 10"
abbreviation vRc_field :: bit_field where "vRc_field \<equiv> BitField 21 21"
abbreviation vUIMM_field :: bit_field where "vUIMM_field \<equiv> BitField 11 15"
abbreviation vSH_field :: bit_field where "vSH_field \<equiv> BitField 22 25"
abbreviation crbA_field :: bit_field where "crbA_field \<equiv> BitField 11 15"
abbreviation crbB_field :: bit_field where "crbB_field \<equiv> BitField 16 20"
abbreviation crbD_field :: bit_field where "crbD_field \<equiv> BitField 6 10"
abbreviation crfD_field :: bit_field where "crfD_field \<equiv> BitField 6 8"
abbreviation crfS_field :: bit_field where "crfS_field \<equiv> BitField 11 13"
abbreviation CRM_field :: bit_field where "CRM_field \<equiv> BitField 12 19"
abbreviation FM_field :: bit_field where "FM_field \<equiv> BitField 7 14"
abbreviation XER_SO_field :: bit_field where "XER_SO_field \<equiv> BitField 0 0"
abbreviation XER_OV_field :: bit_field where "XER_OV_field \<equiv> BitField 1 1"
abbreviation XER_CA_field :: bit_field where "XER_CA_field \<equiv> BitField 2 2"
abbreviation XER_COUNT_field :: bit_field where "XER_COUNT_field \<equiv> BitField 25 31"
abbreviation FPSCR_FX_field :: bit_field where "FPSCR_FX_field \<equiv> BitField 0 0"
abbreviation FPSCR_FEX_field :: bit_field where "FPSCR_FEX_field \<equiv> BitField 1 1"
abbreviation FPSCR_VX_field :: bit_field where "FPSCR_VX_field \<equiv> BitField 2 2"
abbreviation FPSCR_OX_field :: bit_field where "FPSCR_OX_field \<equiv> BitField 3 3"
abbreviation FPSCR_UX_field :: bit_field where "FPSCR_UX_field \<equiv> BitField 4 4"
abbreviation FPSCR_ZX_field :: bit_field where "FPSCR_ZX_field \<equiv> BitField 5 5"
abbreviation FPSCR_XX_field :: bit_field where "FPSCR_XX_field \<equiv> BitField 6 6"
abbreviation FPSCR_VXSNAN_field :: bit_field where "FPSCR_VXSNAN_field \<equiv> BitField 7 7"
abbreviation FPSCR_VXISI_field :: bit_field where "FPSCR_VXISI_field \<equiv> BitField 8 8"
abbreviation FPSCR_VXIDI_field :: bit_field where "FPSCR_VXIDI_field \<equiv> BitField 9 9"
abbreviation FPSCR_VXZDZ_field :: bit_field where "FPSCR_VXZDZ_field \<equiv> BitField 10 10"
abbreviation FPSCR_VXIMZ_field :: bit_field where "FPSCR_VXIMZ_field \<equiv> BitField 11 11"
abbreviation FPSCR_VXVC_field :: bit_field where "FPSCR_VXVC_field \<equiv> BitField 12 12"
abbreviation FPSCR_FR_field :: bit_field where "FPSCR_FR_field \<equiv> BitField 13 13"
abbreviation FPSCR_FI_field :: bit_field where "FPSCR_FI_field \<equiv> BitField 14 14"
abbreviation FPSCR_FPRF_field :: bit_field where "FPSCR_FPRF_field \<equiv> BitField 15 19"
abbreviation FPSCR_VXSOFT_field :: bit_field where "FPSCR_VXSOFT_field \<equiv> BitField 21 21"
abbreviation FPSCR_VXSQRT_field :: bit_field where "FPSCR_VXSQRT_field \<equiv> BitField 22 22"
abbreviation FPSCR_VXCVI_field :: bit_field where "FPSCR_VXCVI_field \<equiv> BitField 23 23"
abbreviation FPSCR_VE_field :: bit_field where "FPSCR_VE_field \<equiv> BitField 24 24"
abbreviation FPSCR_OE_field :: bit_field where "FPSCR_OE_field \<equiv> BitField 25 25"
abbreviation FPSCR_UE_field :: bit_field where "FPSCR_UE_field \<equiv> BitField 26 26"
abbreviation FPSCR_ZE_field :: bit_field where "FPSCR_ZE_field \<equiv> BitField 27 27"
abbreviation FPSCR_XE_field :: bit_field where "FPSCR_XE_field \<equiv> BitField 28 28"
abbreviation FPSCR_NI_field :: bit_field where "FPSCR_NI_field \<equiv> BitField 29 29"
abbreviation FPSCR_RN_field :: bit_field where "FPSCR_RN_field \<equiv> BitField 30 31"
abbreviation FPSCR_FPCC_field :: bit_field where "FPSCR_FPCC_field \<equiv> BitField 16 19"
abbreviation FPSCR_FPRF_C_field :: bit_field where "FPSCR_FPRF_C_field \<equiv> BitField 15 15"
abbreviation FPSCR_FPRF_FL_field :: bit_field where "FPSCR_FPRF_FL_field \<equiv> BitField 16 16"
abbreviation FPSCR_FPRF_FG_field :: bit_field where "FPSCR_FPRF_FG_field \<equiv> BitField 17 17"
abbreviation FPSCR_FPRF_FE_field :: bit_field where "FPSCR_FPRF_FE_field \<equiv> BitField 18 18"
abbreviation FPSCR_FPRF_FU_field :: bit_field where "FPSCR_FPRF_FU_field \<equiv> BitField 19 19"
abbreviation VSCR_NJ_field :: bit_field where "VSCR_NJ_field \<equiv> BitField 15 15"
abbreviation VSCR_SAT_field :: bit_field where "VSCR_SAT_field \<equiv> BitField 31 31"
abbreviation AA_field :: bit_field where "AA_field \<equiv> BitField 30 30"
abbreviation LK_field :: bit_field where "LK_field \<equiv> BitField 31 31"
abbreviation BD_field :: bit_field where "BD_field \<equiv> BitField 16 29"
abbreviation BI_field :: bit_field where "BI_field \<equiv> BitField 11 15"
abbreviation BO_field :: bit_field where "BO_field \<equiv> BitField 6 10"
abbreviation Rc_field :: bit_field where "Rc_field \<equiv> BitField 31 31"
abbreviation OE_field :: bit_field where "OE_field \<equiv> BitField 21 21"
abbreviation MB_field :: bit_field where "MB_field \<equiv> BitField 21 25"
abbreviation ME_field :: bit_field where "ME_field \<equiv> BitField 26 30"
abbreviation NB_field :: bit_field where "NB_field \<equiv> BitField 16 20"
abbreviation SH_field :: bit_field where "SH_field \<equiv> BitField 16 20"
abbreviation IMM_field :: bit_field where "IMM_field \<equiv> BitField 16 19"
abbreviation d_field :: bit_field where "d_field \<equiv> BitField 16 31"
abbreviation LI_field :: bit_field where "LI_field \<equiv> BitField 6 29"
abbreviation SIMM_field :: bit_field where "SIMM_field \<equiv> BitField 16 31"
abbreviation UIMM_field :: bit_field where "UIMM_field \<equiv> BitField 16 31"
abbreviation SR_field :: bit_field where "SR_field \<equiv> BitField 12 15"
abbreviation TO_field :: bit_field where "TO_field \<equiv> BitField 6 10"
abbreviation SPR_field :: bit_field where "SPR_field \<equiv> BitField 11 20"
abbreviation TBR_field :: bit_field where "TBR_field \<equiv> BitField 11 20"

text \<open>The parametric condition-register fields, and their standalone aliases
  (field 7 sits in the low four bits, so its masks are the 4-bit codes).\<close>

definition CR_field :: "nat \<Rightarrow> bit_field" where
  "CR_field n = BitField (4 * n) (4 * n + 3)"

definition CR_LT_field :: "nat \<Rightarrow> bit_field" where
  "CR_LT_field n = BitField (4 * n) (4 * n)"

definition CR_GT_field :: "nat \<Rightarrow> bit_field" where
  "CR_GT_field n = BitField (4 * n + 1) (4 * n + 1)"

definition CR_EQ_field :: "nat \<Rightarrow> bit_field" where
  "CR_EQ_field n = BitField (4 * n + 2) (4 * n + 2)"

definition CR_SO_field :: "nat \<Rightarrow> bit_field" where
  "CR_SO_field n = BitField (4 * n + 3) (4 * n + 3)"

abbreviation standalone_CR_LT_field :: bit_field where "standalone_CR_LT_field \<equiv> CR_LT_field 7"
abbreviation standalone_CR_GT_field :: bit_field where "standalone_CR_GT_field \<equiv> CR_GT_field 7"
abbreviation standalone_CR_EQ_field :: bit_field where "standalone_CR_EQ_field \<equiv> CR_EQ_field 7"
abbreviation standalone_CR_SO_field :: bit_field where "standalone_CR_SO_field \<equiv> CR_SO_field 7"

lemma standalone_CR_masks:
  "field_mask standalone_CR_LT_field = 8"
  "field_mask standalone_CR_GT_field = 4"
  "field_mask standalone_CR_EQ_field = 2"
  "field_mask standalone_CR_SO_field = 1"
  by (simp_all add: field_mask_def CR_LT_field_def CR_GT_field_def CR_EQ_field_def CR_SO_field_def)

section \<open>Predicates on the opcode\<close>

text \<open>
  A template argument such as \<^verbatim>\<open>RC_BIT_G\<close> is either a real one-bit field of
  the opcode or a \<^verbatim>\<open>fake_bit_field<bool, value>\<close>, whose test is a constant.
\<close>

datatype opcode_pred = Real_field bit_field | Fake_field bool

fun pred_test :: "opcode_pred \<Rightarrow> u32 \<Rightarrow> bool" where
  "pred_test (Real_field f) opcode = field_test f opcode"
| "pred_test (Fake_field b) opcode = b"

abbreviation CA_BIT_0 :: opcode_pred where "CA_BIT_0 \<equiv> Fake_field False"
abbreviation CA_BIT_1 :: opcode_pred where "CA_BIT_1 \<equiv> Fake_field True"
abbreviation RC_BIT_G :: opcode_pred where "RC_BIT_G \<equiv> Real_field Rc_field"
abbreviation RC_BIT_0 :: opcode_pred where "RC_BIT_0 \<equiv> Fake_field False"
abbreviation RC_BIT_1 :: opcode_pred where "RC_BIT_1 \<equiv> Fake_field True"
abbreviation OE_BIT_G :: opcode_pred where "OE_BIT_G \<equiv> Real_field OE_field"
abbreviation OE_BIT_0 :: opcode_pred where "OE_BIT_0 \<equiv> Fake_field False"
abbreviation OE_BIT_1 :: opcode_pred where "OE_BIT_1 \<equiv> Fake_field True"
abbreviation AA_BIT_G :: opcode_pred where "AA_BIT_G \<equiv> Real_field AA_field"
abbreviation AA_BIT_0 :: opcode_pred where "AA_BIT_0 \<equiv> Fake_field False"
abbreviation AA_BIT_1 :: opcode_pred where "AA_BIT_1 \<equiv> Fake_field True"
abbreviation LK_BIT_G :: opcode_pred where "LK_BIT_G \<equiv> Real_field LK_field"
abbreviation LK_BIT_0 :: opcode_pred where "LK_BIT_0 \<equiv> Fake_field False"
abbreviation LK_BIT_1 :: opcode_pred where "LK_BIT_1 \<equiv> Fake_field True"
abbreviation BO_BIT_G :: opcode_pred where "BO_BIT_G \<equiv> Real_field BO_field"
abbreviation BO_BIT_0 :: opcode_pred where "BO_BIT_0 \<equiv> Fake_field False"
abbreviation BO_BIT_1 :: opcode_pred where "BO_BIT_1 \<equiv> Fake_field True"
abbreviation BI_BIT_G :: opcode_pred where "BI_BIT_G \<equiv> Real_field BI_field"
abbreviation BI_BIT_0 :: opcode_pred where "BI_BIT_0 \<equiv> Fake_field False"
abbreviation BI_BIT_1 :: opcode_pred where "BI_BIT_1 \<equiv> Fake_field True"
abbreviation vRC_BIT_G :: opcode_pred where "vRC_BIT_G \<equiv> Real_field vRc_field"
abbreviation vRC_BIT_0 :: opcode_pred where "vRC_BIT_0 \<equiv> Fake_field False"
abbreviation vRC_BIT_1 :: opcode_pred where "vRC_BIT_1 \<equiv> Fake_field True"

section \<open>The BO operand of branch instructions\<close>

definition BO_MAKE :: "bool \<Rightarrow> bool \<Rightarrow> bool \<Rightarrow> bool \<Rightarrow> u32" where
  "BO_MAKE cond tr dctr ctr0 =
     (if cond then 0 else 16) OR (if tr then 8 else 0) OR (if dctr then 0 else 4)
       OR (if ctr0 then 2 else 0)"

definition BO_DECREMENT_CTR :: "u32 \<Rightarrow> bool" where
  "BO_DECREMENT_CTR bo \<longleftrightarrow> bo AND 0x04 = 0"

definition BO_BRANCH_IF_CTR_ZERO :: "u32 \<Rightarrow> bool" where
  "BO_BRANCH_IF_CTR_ZERO bo \<longleftrightarrow> bo AND 0x02 \<noteq> 0"

definition BO_CONDITIONAL_BRANCH :: "u32 \<Rightarrow> bool" where
  "BO_CONDITIONAL_BRANCH bo \<longleftrightarrow> bo AND 0x10 = 0"

definition BO_BRANCH_IF_TRUE :: "u32 \<Rightarrow> bool" where
  "BO_BRANCH_IF_TRUE bo \<longleftrightarrow> bo AND 0x08 \<noteq> 0"

lemma BO_MAKE_decodes:
  "BO_CONDITIONAL_BRANCH (BO_MAKE c t d z) = c"
  "BO_BRANCH_IF_TRUE (BO_MAKE c t d z) = t"
  "BO_DECREMENT_CTR (BO_MAKE c t d z) = d"
  "BO_BRANCH_IF_CTR_ZERO (BO_MAKE c t d z) = z"
  by (cases c; cases t; cases d; cases z;
      simp add: BO_MAKE_def BO_CONDITIONAL_BRANCH_def BO_BRANCH_IF_TRUE_def
        BO_DECREMENT_CTR_def BO_BRANCH_IF_CTR_ZERO_def)+

lemma reg_field_bound [simp]:
  "unat (field_extract (BitField 6 10) v) < 32"
  "unat (field_extract (BitField 11 15) v) < 32"
  "unat (field_extract (BitField 16 20) v) < 32"
  "unat (field_extract (BitField 21 25) v) < 32"
  using field_extract_bound[of "BitField 6 10" v] field_extract_bound[of "BitField 11 15" v]
    field_extract_bound[of "BitField 16 20" v] field_extract_bound[of "BitField 21 25" v]
  by (simp_all add: wf_field_def field_width_def)

end
