(* ===== verification/PPC_Memory.thy ===== *)
theory PPC_Memory
  imports PPC_Prelude
begin

unbundle bit_operations_syntax

text \<open>
  The memory accessors of \<^verbatim>\<open>vm.hpp\<close> in the \<^verbatim>\<open>REAL_ADDRESSING\<close>
  configuration on a 64-bit little-endian host. Host memory is a map from 64-bit
  host addresses to bytes; an emulated 32-bit address is zero-extended to the host
  address (\<^verbatim>\<open>VMBaseDiff = 0\<close>). Each access exists twice in the source: a
  generic byte-by-byte routine and an optimised one that loads a host word and
  swaps its bytes. Both are modelled and proved equal.
\<close>

type_synonym host_mem = "u64 \<Rightarrow> u8"

definition vm_do_get_real_address :: "u32 \<Rightarrow> u64" where
  "vm_do_get_real_address addr = ucast addr"

section \<open>Generic core accessors\<close>

definition vm_do_read_memory_1 :: "host_mem \<Rightarrow> u64 \<Rightarrow> u32" where
  "vm_do_read_memory_1 b a = ucast (b a)"

definition vm_do_write_memory_1 :: "host_mem \<Rightarrow> u64 \<Rightarrow> u32 \<Rightarrow> host_mem" where
  "vm_do_write_memory_1 b a v = b(a := ucast v)"

definition vm_do_read_memory_2 :: "host_mem \<Rightarrow> u64 \<Rightarrow> u32" where
  "vm_do_read_memory_2 b a = push_bit 8 (ucast (b a)) OR ucast (b (a + 1))"

definition vm_do_write_memory_2 :: "host_mem \<Rightarrow> u64 \<Rightarrow> u32 \<Rightarrow> host_mem" where
  "vm_do_write_memory_2 b a v = b(a := ucast (drop_bit 8 v), a + 1 := ucast v)"

definition vm_do_read_memory_4 :: "host_mem \<Rightarrow> u64 \<Rightarrow> u32" where
  "vm_do_read_memory_4 b a =
     push_bit 24 (ucast (b a)) OR push_bit 16 (ucast (b (a + 1))) OR
     push_bit 8 (ucast (b (a + 2))) OR ucast (b (a + 3))"

definition vm_do_write_memory_4 :: "host_mem \<Rightarrow> u64 \<Rightarrow> u32 \<Rightarrow> host_mem" where
  "vm_do_write_memory_4 b a v =
     b(a := ucast (drop_bit 24 v), a + 1 := ucast (drop_bit 16 v),
       a + 2 := ucast (drop_bit 8 v), a + 3 := ucast v)"

definition vm_do_read_memory_8 :: "host_mem \<Rightarrow> u64 \<Rightarrow> u64" where
  "vm_do_read_memory_8 b a =
     push_bit 56 (ucast (b a)) OR push_bit 48 (ucast (b (a + 1))) OR
     push_bit 40 (ucast (b (a + 2))) OR push_bit 32 (ucast (b (a + 3))) OR
     push_bit 24 (ucast (b (a + 4))) OR push_bit 16 (ucast (b (a + 5))) OR
     push_bit 8 (ucast (b (a + 6))) OR ucast (b (a + 7))"

definition vm_do_write_memory_8 :: "host_mem \<Rightarrow> u64 \<Rightarrow> u64 \<Rightarrow> host_mem" where
  "vm_do_write_memory_8 b a v =
     b(a := ucast (drop_bit 56 v), a + 1 := ucast (drop_bit 48 v),
       a + 2 := ucast (drop_bit 40 v), a + 3 := ucast (drop_bit 32 v),
       a + 4 := ucast (drop_bit 24 v), a + 5 := ucast (drop_bit 16 v),
       a + 6 := ucast (drop_bit 8 v), a + 7 := ucast v)"

definition vm_do_read_memory_2_reversed :: "host_mem \<Rightarrow> u64 \<Rightarrow> u32" where
  "vm_do_read_memory_2_reversed b a = ucast (b a) OR push_bit 8 (ucast (b (a + 1)))"

definition vm_do_write_memory_2_reversed :: "host_mem \<Rightarrow> u64 \<Rightarrow> u32 \<Rightarrow> host_mem" where
  "vm_do_write_memory_2_reversed b a v = b(a := ucast v, a + 1 := ucast (drop_bit 8 v))"

definition vm_do_read_memory_4_reversed :: "host_mem \<Rightarrow> u64 \<Rightarrow> u32" where
  "vm_do_read_memory_4_reversed b a =
     ucast (b a) OR push_bit 8 (ucast (b (a + 1))) OR
     push_bit 16 (ucast (b (a + 2))) OR push_bit 24 (ucast (b (a + 3)))"

definition vm_do_write_memory_4_reversed :: "host_mem \<Rightarrow> u64 \<Rightarrow> u32 \<Rightarrow> host_mem" where
  "vm_do_write_memory_4_reversed b a v =
     b(a := ucast v, a + 1 := ucast (drop_bit 8 v),
       a + 2 := ucast (drop_bit 16 v), a + 3 := ucast (drop_bit 24 v))"

section \<open>Optimised accessors of a little-endian host\<close>

text \<open>\<open>host_load_N\<close> and \<open>host_store_N\<close> are the C++ dereferences \<^verbatim>\<open>*a\<close> of a
  16-, 32- or 64-bit pointer on a little-endian machine.\<close>

definition host_load_16 :: "host_mem \<Rightarrow> u64 \<Rightarrow> u16" where
  "host_load_16 b a = ucast (b a) OR push_bit 8 (ucast (b (a + 1)))"

definition host_store_16 :: "host_mem \<Rightarrow> u64 \<Rightarrow> u16 \<Rightarrow> host_mem" where
  "host_store_16 b a v = b(a := ucast v, a + 1 := ucast (drop_bit 8 v))"

definition host_load_32 :: "host_mem \<Rightarrow> u64 \<Rightarrow> u32" where
  "host_load_32 b a =
     ucast (b a) OR push_bit 8 (ucast (b (a + 1))) OR
     push_bit 16 (ucast (b (a + 2))) OR push_bit 24 (ucast (b (a + 3)))"

definition host_store_32 :: "host_mem \<Rightarrow> u64 \<Rightarrow> u32 \<Rightarrow> host_mem" where
  "host_store_32 b a v =
     b(a := ucast v, a + 1 := ucast (drop_bit 8 v),
       a + 2 := ucast (drop_bit 16 v), a + 3 := ucast (drop_bit 24 v))"

definition host_load_64 :: "host_mem \<Rightarrow> u64 \<Rightarrow> u64" where
  "host_load_64 b a =
     ucast (b a) OR push_bit 8 (ucast (b (a + 1))) OR
     push_bit 16 (ucast (b (a + 2))) OR push_bit 24 (ucast (b (a + 3))) OR
     push_bit 32 (ucast (b (a + 4))) OR push_bit 40 (ucast (b (a + 5))) OR
     push_bit 48 (ucast (b (a + 6))) OR push_bit 56 (ucast (b (a + 7)))"

definition host_store_64 :: "host_mem \<Rightarrow> u64 \<Rightarrow> u64 \<Rightarrow> host_mem" where
  "host_store_64 b a v =
     b(a := ucast v, a + 1 := ucast (drop_bit 8 v),
       a + 2 := ucast (drop_bit 16 v), a + 3 := ucast (drop_bit 24 v),
       a + 4 := ucast (drop_bit 32 v), a + 5 := ucast (drop_bit 40 v),
       a + 6 := ucast (drop_bit 48 v), a + 7 := ucast (drop_bit 56 v))"

definition generic_bswap_16 :: "u16 \<Rightarrow> u16" where
  "generic_bswap_16 x = push_bit 8 (x AND 0xff) OR (drop_bit 8 x AND 0xff)"

definition generic_bswap_32 :: "u32 \<Rightarrow> u32" where
  "generic_bswap_32 x =
     drop_bit 24 (x AND 0xff000000) OR drop_bit 8 (x AND 0x00ff0000) OR
     push_bit 8 (x AND 0x0000ff00) OR push_bit 24 (x AND 0x000000ff)"

definition generic_bswap_64 :: "u64 \<Rightarrow> u64" where
  "generic_bswap_64 x =
     drop_bit 56 (x AND 0xff00000000000000) OR drop_bit 40 (x AND 0x00ff000000000000) OR
     drop_bit 24 (x AND 0x0000ff0000000000) OR drop_bit 8 (x AND 0x000000ff00000000) OR
     push_bit 8 (x AND 0x00000000ff000000) OR push_bit 24 (x AND 0x0000000000ff0000) OR
     push_bit 40 (x AND 0x000000000000ff00) OR push_bit 56 (x AND 0x00000000000000ff)"

definition opt_read_memory_2 :: "host_mem \<Rightarrow> u64 \<Rightarrow> u32" where
  "opt_read_memory_2 b a = ucast (generic_bswap_16 (host_load_16 b a))"

definition opt_write_memory_2 :: "host_mem \<Rightarrow> u64 \<Rightarrow> u32 \<Rightarrow> host_mem" where
  "opt_write_memory_2 b a v = host_store_16 b a (generic_bswap_16 (ucast v))"

definition opt_read_memory_4 :: "host_mem \<Rightarrow> u64 \<Rightarrow> u32" where
  "opt_read_memory_4 b a = generic_bswap_32 (host_load_32 b a)"

definition opt_write_memory_4 :: "host_mem \<Rightarrow> u64 \<Rightarrow> u32 \<Rightarrow> host_mem" where
  "opt_write_memory_4 b a v = host_store_32 b a (generic_bswap_32 v)"

definition opt_read_memory_8 :: "host_mem \<Rightarrow> u64 \<Rightarrow> u64" where
  "opt_read_memory_8 b a = generic_bswap_64 (host_load_64 b a)"

definition opt_write_memory_8 :: "host_mem \<Rightarrow> u64 \<Rightarrow> u64 \<Rightarrow> host_mem" where
  "opt_write_memory_8 b a v = host_store_64 b a (generic_bswap_64 v)"

section \<open>Accessors visible to the CPU\<close>

definition vm_read_memory_1 :: "host_mem \<Rightarrow> u32 \<Rightarrow> u32" where
  "vm_read_memory_1 m addr = vm_do_read_memory_1 m (vm_do_get_real_address addr)"

definition vm_read_memory_2 :: "host_mem \<Rightarrow> u32 \<Rightarrow> u32" where
  "vm_read_memory_2 m addr = vm_do_read_memory_2 m (vm_do_get_real_address addr)"

definition vm_read_memory_4 :: "host_mem \<Rightarrow> u32 \<Rightarrow> u32" where
  "vm_read_memory_4 m addr = vm_do_read_memory_4 m (vm_do_get_real_address addr)"

definition vm_read_memory_8 :: "host_mem \<Rightarrow> u32 \<Rightarrow> u64" where
  "vm_read_memory_8 m addr = vm_do_read_memory_8 m (vm_do_get_real_address addr)"

definition vm_read_memory_2_reversed :: "host_mem \<Rightarrow> u32 \<Rightarrow> u32" where
  "vm_read_memory_2_reversed m addr = vm_do_read_memory_2_reversed m (vm_do_get_real_address addr)"

definition vm_read_memory_4_reversed :: "host_mem \<Rightarrow> u32 \<Rightarrow> u32" where
  "vm_read_memory_4_reversed m addr = vm_do_read_memory_4_reversed m (vm_do_get_real_address addr)"

definition vm_write_memory_1 :: "host_mem \<Rightarrow> u32 \<Rightarrow> u32 \<Rightarrow> host_mem" where
  "vm_write_memory_1 m addr v = vm_do_write_memory_1 m (vm_do_get_real_address addr) v"

definition vm_write_memory_2 :: "host_mem \<Rightarrow> u32 \<Rightarrow> u32 \<Rightarrow> host_mem" where
  "vm_write_memory_2 m addr v = vm_do_write_memory_2 m (vm_do_get_real_address addr) v"

definition vm_write_memory_4 :: "host_mem \<Rightarrow> u32 \<Rightarrow> u32 \<Rightarrow> host_mem" where
  "vm_write_memory_4 m addr v = vm_do_write_memory_4 m (vm_do_get_real_address addr) v"

definition vm_write_memory_8 :: "host_mem \<Rightarrow> u32 \<Rightarrow> u64 \<Rightarrow> host_mem" where
  "vm_write_memory_8 m addr v = vm_do_write_memory_8 m (vm_do_get_real_address addr) v"

definition vm_write_memory_2_reversed :: "host_mem \<Rightarrow> u32 \<Rightarrow> u32 \<Rightarrow> host_mem" where
  "vm_write_memory_2_reversed m addr v = vm_do_write_memory_2_reversed m (vm_do_get_real_address addr) v"

definition vm_write_memory_4_reversed :: "host_mem \<Rightarrow> u32 \<Rightarrow> u32 \<Rightarrow> host_mem" where
  "vm_write_memory_4_reversed m addr v = vm_do_write_memory_4_reversed m (vm_do_get_real_address addr) v"

fun host_memset :: "host_mem \<Rightarrow> u64 \<Rightarrow> u8 \<Rightarrow> nat \<Rightarrow> host_mem" where
  "host_memset m a c 0 = m"
| "host_memset m a c (Suc n) = host_memset (m(a := c)) (a + 1) c n"

definition vm_memset :: "host_mem \<Rightarrow> u32 \<Rightarrow> u32 \<Rightarrow> nat \<Rightarrow> host_mem" where
  "vm_memset m addr c n = host_memset m (vm_do_get_real_address addr) (ucast c) n"

section \<open>The optimised accessors equal the generic ones\<close>

lemma bytes_of_ucast16 [byte_simps]:
  "(ucast (ucast (w :: u16) :: u32) :: u8) = ucast w"
  "(ucast (drop_bit 8 (ucast (w :: u16) :: u32)) :: u8) = ucast (drop_bit 8 w)"
  "16 \<le> k \<Longrightarrow> (ucast (drop_bit k (ucast (w :: u16) :: u32)) :: u8) = 0"
  "(ucast (ucast (v :: u32) :: u16) :: u8) = ucast v"
  "(ucast (drop_bit 8 (ucast (v :: u32) :: u16)) :: u8) = ucast (drop_bit 8 v)"
  by (intro word_eq_by_bits; auto simp: bit_rules dest: bit_imp_le_length)+

lemmas opt_defs =
  opt_read_memory_2_def opt_read_memory_4_def opt_read_memory_8_def
  opt_write_memory_2_def opt_write_memory_4_def opt_write_memory_8_def
  generic_bswap_16_def generic_bswap_32_def generic_bswap_64_def
  host_load_16_def host_load_32_def host_load_64_def
  host_store_16_def host_store_32_def host_store_64_def

lemmas vm_do_read_defs =
  vm_do_read_memory_1_def vm_do_read_memory_2_def vm_do_read_memory_4_def vm_do_read_memory_8_def
  vm_do_read_memory_2_reversed_def vm_do_read_memory_4_reversed_def

lemmas vm_do_write_defs =
  vm_do_write_memory_1_def vm_do_write_memory_2_def vm_do_write_memory_4_def
  vm_do_write_memory_8_def vm_do_write_memory_2_reversed_def vm_do_write_memory_4_reversed_def

lemma opt_read_memory_2_eq: "opt_read_memory_2 b a = vm_do_read_memory_2 b a"
  unfolding opt_defs vm_do_read_defs
  by (rule word32_byte_eqI) (simp_all add: byte_simps)

lemma opt_read_memory_4_eq: "opt_read_memory_4 b a = vm_do_read_memory_4 b a"
  unfolding opt_defs vm_do_read_defs
  by (rule word32_byte_eqI) (simp_all add: byte_simps)

lemma opt_read_memory_8_eq: "opt_read_memory_8 b a = vm_do_read_memory_8 b a"
  unfolding opt_defs vm_do_read_defs
  by (rule word64_byte_eqI) (simp_all add: byte_simps)

lemma opt_write_memory_2_eq: "opt_write_memory_2 b a v = vm_do_write_memory_2 b a v"
  unfolding opt_defs vm_do_write_defs by (simp add: byte_simps)

lemma opt_write_memory_4_eq: "opt_write_memory_4 b a v = vm_do_write_memory_4 b a v"
  unfolding opt_defs vm_do_write_defs by (simp add: byte_simps)

lemma opt_write_memory_8_eq: "opt_write_memory_8 b a v = vm_do_write_memory_8 b a v"
  unfolding opt_defs vm_do_write_defs by (simp add: byte_simps)

section \<open>The interface of a memory cell\<close>

text \<open>
  What the CPU relies on for an access of \<open>sz\<close> bytes: a load returns what the last
  store at the same address wrote (truncated to the access size), a store changes the
  \<open>sz\<close> bytes of its cell and nothing else, and the bytes a load depends on are those
  of its cell. The derived laws (disjoint accesses commute, the last store wins) are
  proved once here and hold for every access size and byte order.
\<close>

locale memory_cell =
  fixes rd :: "host_mem \<Rightarrow> u64 \<Rightarrow> 'v::len word"
    and wr :: "host_mem \<Rightarrow> u64 \<Rightarrow> 'v word \<Rightarrow> host_mem"
    and sz :: nat
  assumes rd_wr: "rd (wr m a v) a = take_bit (8 * sz) v"
    and wr_rd: "wr m a (rd m a) = m"
    and wr_outside: "\<forall>i < sz. x \<noteq> a + of_nat i \<Longrightarrow> wr m a v x = m x"
    and wr_inside: "\<forall>i < sz. wr m a v (a + of_nat i) = wr m' a v (a + of_nat i)"
    and rd_local: "\<forall>i < sz. m (a + of_nat i) = m' (a + of_nat i) \<Longrightarrow> rd m a = rd m' a"
begin

definition cell :: "u64 \<Rightarrow> u64 set" where
  "cell a = {a + of_nat i | i. i < sz}"

lemma in_cell: "i < sz \<Longrightarrow> a + of_nat i \<in> cell a"
  by (auto simp: cell_def)

lemma wr_frame: "x \<notin> cell a \<Longrightarrow> wr m a v x = m x"
  by (rule wr_outside) (auto simp: cell_def)

lemma rd_wr_disjoint:
  assumes "cell a \<inter> cell a' = {}"
  shows "rd (wr m a v) a' = rd m a'"
proof (rule rd_local, intro allI impI)
  fix i assume "i < sz"
  then have "a' + of_nat i \<notin> cell a"
    using assms in_cell[of i a'] by auto
  then show "wr m a v (a' + of_nat i) = m (a' + of_nat i)"
    by (rule wr_frame)
qed

lemma wr_wr: "wr (wr m a u) a v = wr m a v"
proof
  fix x
  show "wr (wr m a u) a v x = wr m a v x"
  proof (cases "x \<in> cell a")
    case True
    then obtain i where "x = a + of_nat i" "i < sz"
      by (auto simp: cell_def)
    then show ?thesis
      using wr_inside[of "wr m a u" a v m] by simp
  next
    case False
    then show ?thesis by (simp add: wr_frame)
  qed
qed

lemma wr_commute:
  assumes "cell a \<inter> cell a' = {}"
  shows "wr (wr m a u) a' v = wr (wr m a' v) a u"
proof
  fix x
  consider "x \<in> cell a" | "x \<in> cell a'" | "x \<notin> cell a" "x \<notin> cell a'" by blast
  then show "wr (wr m a u) a' v x = wr (wr m a' v) a u x"
  proof cases
    case 1
    then obtain i where "x = a + of_nat i" "i < sz" by (auto simp: cell_def)
    with 1 assms show ?thesis
      using wr_inside[of m a u "wr m a' v"] by (subst wr_frame) auto
  next
    case 2
    then obtain i where "x = a' + of_nat i" "i < sz" by (auto simp: cell_def)
    with 2 assms show ?thesis
      using wr_inside[of m a' v "wr m a u"] by (subst (2) wr_frame) auto
  next
    case 3
    then show ?thesis by (simp add: wr_frame)
  qed
qed

end

lemma take_bit_by_bytes:
  "(take_bit 8 (v :: u32)) = ucast (ucast v :: u8)"
  "(take_bit 16 (v :: u32)) = ucast (ucast v :: u16)"
  "(take_bit 32 (v :: u32)) = v" "(take_bit 64 (w :: u64)) = w"
  by (intro word_eq_by_bits; auto simp: bit_rules)+

lemmas cell_simps = vm_do_read_defs vm_do_write_defs all_less_small byte_simps take_bit_by_bytes

interpretation cell1: memory_cell vm_do_read_memory_1 vm_do_write_memory_1 1
  by unfold_locales (auto simp: cell_simps)

interpretation cell2: memory_cell vm_do_read_memory_2 vm_do_write_memory_2 2
proof unfold_locales
  fix m a v
  show "vm_do_read_memory_2 (vm_do_write_memory_2 m a v) a = take_bit (8 * 2) v"
    by (rule word32_byte_eqI) (simp_all add: cell_simps)
qed (auto simp: cell_simps fun_upd_idem_iff)

interpretation cell4: memory_cell vm_do_read_memory_4 vm_do_write_memory_4 4
proof unfold_locales
  fix m a v
  show "vm_do_read_memory_4 (vm_do_write_memory_4 m a v) a = take_bit (8 * 4) v"
    by (rule word32_byte_eqI) (simp_all add: cell_simps)
qed (auto simp: cell_simps fun_upd_idem_iff)

interpretation cell8: memory_cell vm_do_read_memory_8 vm_do_write_memory_8 8
proof unfold_locales
  fix m a v
  show "vm_do_read_memory_8 (vm_do_write_memory_8 m a v) a = take_bit (8 * 8) v"
    by (rule word64_byte_eqI) (simp_all add: cell_simps)
qed (auto simp: cell_simps fun_upd_idem_iff)

interpretation cell2r: memory_cell vm_do_read_memory_2_reversed vm_do_write_memory_2_reversed 2
proof unfold_locales
  fix m a v
  show "vm_do_read_memory_2_reversed (vm_do_write_memory_2_reversed m a v) a = take_bit (8 * 2) v"
    by (rule word32_byte_eqI) (simp_all add: cell_simps)
qed (auto simp: cell_simps fun_upd_idem_iff)

interpretation cell4r: memory_cell vm_do_read_memory_4_reversed vm_do_write_memory_4_reversed 4
proof unfold_locales
  fix m a v
  show "vm_do_read_memory_4_reversed (vm_do_write_memory_4_reversed m a v) a = take_bit (8 * 4) v"
    by (rule word32_byte_eqI) (simp_all add: cell_simps)
qed (auto simp: cell_simps fun_upd_idem_iff)

end
