(* ===== verification/PPC_Registers.thy ===== *)
theory PPC_Registers
  imports PPC_Bitfields PPC_Memory
begin

unbundle bit_operations_syntax

text \<open>
  The register classes of \<^verbatim>\<open>ppc-registers.hpp\<close> (condition register, XER,
  vector status register, vector registers), the special CPU flags of
  \<^verbatim>\<open>spcflags.hpp\<close>, the register file and the CPU state, and the recording of
  condition codes of \<^verbatim>\<open>ppc-cpu.hpp\<close>.
\<close>

section \<open>Condition register\<close>

definition cr_clear :: "u32 \<Rightarrow> nat \<Rightarrow> u32" where
  "cr_clear c crfd = c AND NOT (push_bit (28 - 4 * crfd) 0xf)"

definition cr_set_field :: "u32 \<Rightarrow> nat \<Rightarrow> u32 \<Rightarrow> u32" where
  "cr_set_field c crfd v = cr_clear c crfd OR push_bit (28 - 4 * crfd) v"

definition cr_get_field :: "u32 \<Rightarrow> nat \<Rightarrow> u32" where
  "cr_get_field c crfd = drop_bit (28 - 4 * crfd) c AND 0xf"

definition cr_set_so :: "u32 \<Rightarrow> nat \<Rightarrow> bool \<Rightarrow> u32" where
  "cr_set_so c crfd v =
     (let m = push_bit (28 - 4 * crfd) (field_mask standalone_CR_SO_field)
      in (c AND NOT m) OR (if v then m else 0))"

definition cr_compute :: "u32 \<Rightarrow> nat \<Rightarrow> int \<Rightarrow> u32" where
  "cr_compute c crfd v =
     (let m = push_bit (28 - 4 * crfd)
                (field_mask standalone_CR_LT_field OR field_mask standalone_CR_GT_field OR
                 field_mask standalone_CR_EQ_field);
          c' = c AND NOT m
      in if v < 0 then c' OR push_bit (28 - 4 * crfd) (field_mask standalone_CR_LT_field)
         else if v > 0 then c' OR push_bit (28 - 4 * crfd) (field_mask standalone_CR_GT_field)
         else c' OR push_bit (28 - 4 * crfd) (field_mask standalone_CR_EQ_field))"

definition cr_test :: "u32 \<Rightarrow> nat \<Rightarrow> bool" where
  "cr_test c condition \<longleftrightarrow> push_bit condition c AND 0x80000000 \<noteq> 0"

section \<open>XER\<close>

record powerpc_xer =
  xer_so :: u8
  xer_ov :: u8
  xer_ca :: u8
  xer_byte_count :: u8

definition xer_init :: powerpc_xer where
  "xer_init = \<lparr>xer_so = 0, xer_ov = 0, xer_ca = 0, xer_byte_count = 0\<rparr>"

definition xer_get :: "powerpc_xer \<Rightarrow> u32" where
  "xer_get x =
     push_bit 31 (ucast (xer_so x)) OR push_bit 30 (ucast (xer_ov x)) OR
     push_bit 29 (ucast (xer_ca x)) OR ucast (xer_byte_count x)"

definition xer_set :: "u32 \<Rightarrow> powerpc_xer \<Rightarrow> powerpc_xer" where
  "xer_set v x =
     x\<lparr>xer_so := ucast (field_extract XER_SO_field v),
       xer_ov := ucast (field_extract XER_OV_field v),
       xer_ca := ucast (field_extract XER_CA_field v),
       xer_byte_count := ucast (field_extract XER_COUNT_field v)\<rparr>"

definition xer_set_so :: "bool \<Rightarrow> powerpc_xer \<Rightarrow> powerpc_xer" where
  "xer_set_so v x = x\<lparr>xer_so := of_flag v\<rparr>"

definition xer_set_ov :: "bool \<Rightarrow> powerpc_xer \<Rightarrow> powerpc_xer" where
  "xer_set_ov v x = x\<lparr>xer_ov := of_flag v, xer_so := xer_so x OR of_flag v\<rparr>"

definition xer_set_ca :: "bool \<Rightarrow> powerpc_xer \<Rightarrow> powerpc_xer" where
  "xer_set_ca v x = x\<lparr>xer_ca := of_flag v\<rparr>"

definition xer_set_count :: "u32 \<Rightarrow> powerpc_xer \<Rightarrow> powerpc_xer" where
  "xer_set_count v x = x\<lparr>xer_byte_count := ucast v\<rparr>"

text \<open>The invariant of the class: three flags of one bit, a 7-bit byte count.\<close>

definition wf_xer :: "powerpc_xer \<Rightarrow> bool" where
  "wf_xer x \<longleftrightarrow> xer_so x \<le> 1 \<and> xer_ov x \<le> 1 \<and> xer_ca x \<le> 1 \<and> xer_byte_count x < 128"

section \<open>Special CPU flags\<close>

definition SPCFLAG_CPU_EXEC_RETURN :: u32 where "SPCFLAG_CPU_EXEC_RETURN = push_bit 0 1"
definition SPCFLAG_CPU_TRIGGER_INTERRUPT :: u32 where "SPCFLAG_CPU_TRIGGER_INTERRUPT = push_bit 1 1"
definition SPCFLAG_CPU_HANDLE_INTERRUPT :: u32 where "SPCFLAG_CPU_HANDLE_INTERRUPT = push_bit 2 1"
definition SPCFLAG_CPU_ENTER_MON :: u32 where "SPCFLAG_CPU_ENTER_MON = push_bit 3 1"
definition SPCFLAG_JIT_EXEC_RETURN :: u32 where "SPCFLAG_JIT_EXEC_RETURN = push_bit 4 1"

lemmas spcflag_defs =
  SPCFLAG_CPU_EXEC_RETURN_def SPCFLAG_CPU_TRIGGER_INTERRUPT_def SPCFLAG_CPU_HANDLE_INTERRUPT_def
  SPCFLAG_CPU_ENTER_MON_def SPCFLAG_JIT_EXEC_RETURN_def

definition spcflags_empty :: "u32 \<Rightarrow> bool" where
  "spcflags_empty mk \<longleftrightarrow> mk = 0"

definition spcflags_test :: "u32 \<Rightarrow> u32 \<Rightarrow> bool" where
  "spcflags_test mk v \<longleftrightarrow> mk AND v \<noteq> 0"

definition spcflags_set :: "u32 \<Rightarrow> u32 \<Rightarrow> u32" where
  "spcflags_set mk v = mk OR v"

definition spcflags_clear :: "u32 \<Rightarrow> u32 \<Rightarrow> u32" where
  "spcflags_clear mk v = mk AND NOT v"

section \<open>Vector registers\<close>

text \<open>
  The union \<^verbatim>\<open>powerpc_vr\<close> is its sixteen bytes \<open>b[0]\<close> to \<open>b[15]\<close> in host order;
  the members \<open>h\<close>, \<open>w\<close> and \<open>j\<close> overlay them as a little-endian host does.
\<close>

type_synonym powerpc_vr = "nat \<Rightarrow> u8"

definition vr_h :: "powerpc_vr \<Rightarrow> nat \<Rightarrow> u16" where
  "vr_h v i = ucast (v (2 * i)) OR push_bit 8 (ucast (v (2 * i + 1)))"

definition vr_w :: "powerpc_vr \<Rightarrow> nat \<Rightarrow> u32" where
  "vr_w v i =
     ucast (v (4 * i)) OR push_bit 8 (ucast (v (4 * i + 1))) OR
     push_bit 16 (ucast (v (4 * i + 2))) OR push_bit 24 (ucast (v (4 * i + 3)))"

definition vr_j :: "powerpc_vr \<Rightarrow> nat \<Rightarrow> u64" where
  "vr_j v i = ucast (vr_w v (2 * i)) OR push_bit 32 (ucast (vr_w v (2 * i + 1)))"

definition vr_set_b :: "powerpc_vr \<Rightarrow> nat \<Rightarrow> u8 \<Rightarrow> powerpc_vr" where
  "vr_set_b v i x = v(i := x)"

definition vr_set_h :: "powerpc_vr \<Rightarrow> nat \<Rightarrow> u16 \<Rightarrow> powerpc_vr" where
  "vr_set_h v i x = v(2 * i := ucast x, 2 * i + 1 := ucast (drop_bit 8 x))"

definition vr_set_w :: "powerpc_vr \<Rightarrow> nat \<Rightarrow> u32 \<Rightarrow> powerpc_vr" where
  "vr_set_w v i x =
     v(4 * i := ucast x, 4 * i + 1 := ucast (drop_bit 8 x),
       4 * i + 2 := ucast (drop_bit 16 x), 4 * i + 3 := ucast (drop_bit 24 x))"

definition vr_set_j :: "powerpc_vr \<Rightarrow> nat \<Rightarrow> u64 \<Rightarrow> powerpc_vr" where
  "vr_set_j v i x = vr_set_w (vr_set_w v (2 * i) (ucast x)) (2 * i + 1) (ucast (drop_bit 32 x))"

definition vscr_set_sat :: "bool \<Rightarrow> u32 \<Rightarrow> u32" where
  "vscr_set_sat b v = field_insert VSCR_SAT_field v (of_flag b)"

section \<open>The CPU state\<close>

text \<open>
  \<^verbatim>\<open>powerpc_registers\<close>, together with what the handlers change besides: the
  range of instruction-cache lines waiting to be invalidated
  (\<^verbatim>\<open>cache_range\<close>), the calls made to \<^verbatim>\<open>my_block_cache.clear_range\<close> in
  order, the host rounding mode set by \<^verbatim>\<open>fesetround\<close> and the memory.
\<close>

datatype fe_round = FE_TONEAREST | FE_TOWARDZERO | FE_UPWARD | FE_DOWNWARD

record powerpc_cpu =
  gpr :: "nat \<Rightarrow> u32"
  fpr :: "nat \<Rightarrow> u64"
  vr :: "nat \<Rightarrow> powerpc_vr"
  cr :: u32
  xer :: powerpc_xer
  vscr :: u32
  vrsave :: u32
  fpscr :: u32
  lr :: u32
  ctr :: u32
  pc :: u32
  spcflags :: u32
  reserve_valid :: u32
  reserve_addr :: u32
  cache_start :: u64
  cache_end :: u64
  clear_range_calls :: "(u64 \<times> u64) list"
  host_round :: fe_round
  mem :: host_mem

definition increment_pc :: "u32 \<Rightarrow> powerpc_cpu \<Rightarrow> powerpc_cpu" where
  "increment_pc n s = s\<lparr>pc := pc s + n\<rparr>"

definition set_gpr :: "nat \<Rightarrow> u32 \<Rightarrow> powerpc_cpu \<Rightarrow> powerpc_cpu" where
  "set_gpr i v s = s\<lparr>gpr := (gpr s)(i := v)\<rparr>"

definition set_fpr :: "nat \<Rightarrow> u64 \<Rightarrow> powerpc_cpu \<Rightarrow> powerpc_cpu" where
  "set_fpr i v s = s\<lparr>fpr := (fpr s)(i := v)\<rparr>"

definition set_vr :: "nat \<Rightarrow> powerpc_vr \<Rightarrow> powerpc_cpu \<Rightarrow> powerpc_cpu" where
  "set_vr i v s = s\<lparr>vr := (vr s)(i := v)\<rparr>"

definition record_cr :: "nat \<Rightarrow> int \<Rightarrow> powerpc_cpu \<Rightarrow> powerpc_cpu" where
  "record_cr crfd v s =
     s\<lparr>cr := cr_set_so (cr_compute (cr s) crfd v) crfd (xer_so (xer s) \<noteq> 0)\<rparr>"

definition record_cr0 :: "u32 \<Rightarrow> powerpc_cpu \<Rightarrow> powerpc_cpu" where
  "record_cr0 v s = record_cr 0 (sint v) s"

definition record_cr1 :: "powerpc_cpu \<Rightarrow> powerpc_cpu" where
  "record_cr1 s =
     s\<lparr>cr := (cr s AND NOT (field_mask (CR_field 1))) OR (drop_bit 4 (fpscr s) AND 0x0f000000)\<rparr>"

definition record_cr6 :: "powerpc_vr \<Rightarrow> bool \<Rightarrow> powerpc_cpu \<Rightarrow> powerpc_cpu" where
  "record_cr6 vS check_one s =
     (if check_one \<and> vr_j vS 0 = 0xffffffffffffffff \<and> vr_j vS 1 = 0xffffffffffffffff
      then s\<lparr>cr := cr_set_field (cr s) 6 8\<rparr>
      else if vr_j vS 0 = 0 \<and> vr_j vS 1 = 0
      then s\<lparr>cr := cr_set_field (cr s) 6 2\<rparr>
      else s\<lparr>cr := cr_set_field (cr s) 6 0\<rparr>)"

definition init_registers :: "powerpc_cpu \<Rightarrow> powerpc_cpu" where
  "init_registers s =
     (fold (\<lambda>i s. set_fpr i 0 (set_gpr i 0 s)) [0..<32] s)
       \<lparr>cr := 0, fpscr := 0, xer := xer_set 0 (xer s), lr := 0, ctr := 0, pc := 0\<rparr>"

text \<open>A state with every part cleared, for the examples.\<close>

definition zero_cpu :: powerpc_cpu where
  "zero_cpu =
     \<lparr>gpr = \<lambda>_. 0, fpr = \<lambda>_. 0, vr = \<lambda>_ _. 0, cr = 0, xer = xer_init, vscr = 0, vrsave = 0, fpscr = 0,
      lr = 0, ctr = 0, pc = 0, spcflags = 0, reserve_valid = 0, reserve_addr = 0,
      cache_start = 0, cache_end = 0, clear_range_calls = [], host_round = FE_TONEAREST, mem = \<lambda>_. 0\<rparr>"

text \<open>
  The invariant of the register file that every handler keeps: the XER flags are
  single bits and its byte count has seven bits, the program counter is aligned to
  instruction words, the reservation flag is a bit, and the pending range of cache
  lines is an interval of the 32-bit address space.
\<close>

definition wf_cpu :: "powerpc_cpu \<Rightarrow> bool" where
  "wf_cpu s \<longleftrightarrow>
     wf_xer (xer s) \<and> pc s AND 3 = 0 \<and> reserve_valid s \<le> 1 \<and>
     cache_start s \<le> cache_end s \<and> cache_end s \<le> 0x100000000"

section \<open>Banks of elements\<close>

text \<open>
  Several parts of the register file are banks: an indexed \<open>set\<close> that changes one
  element and leaves the others alone. The law is the same for the condition-register
  fields and for the byte, halfword, word and doubleword views of a vector register,
  and so are its consequences for the loops that fill a bank.
\<close>

locale element_bank =
  fixes get :: "'r \<Rightarrow> nat \<Rightarrow> 'v"
    and set :: "'r \<Rightarrow> nat \<Rightarrow> 'v \<Rightarrow> 'r"
    and size :: nat
    and valid :: "'v \<Rightarrow> bool"
  assumes get_set_same: "i < size \<Longrightarrow> valid v \<Longrightarrow> get (set r i v) i = v"
    and get_set_other: "i < size \<Longrightarrow> j < size \<Longrightarrow> i \<noteq> j \<Longrightarrow> valid v \<Longrightarrow> get (set r i v) j = get r j"
begin

lemma get_set: "i < size \<Longrightarrow> j < size \<Longrightarrow> valid v \<Longrightarrow>
    get (set r i v) j = (if i = j then v else get r j)"
  using get_set_same get_set_other by auto

lemma get_fill:
  assumes "\<forall>i. valid (f i)" "distinct is" "\<forall>i \<in> List.set is. i < size" "j < size"
  shows "get (fold (\<lambda>i r. set r i (f i)) is r) j = (if j \<in> List.set is then f j else get r j)"
  using assms by (induction "is" arbitrary: r) (auto simp: get_set)

lemma get_fill_upt:
  assumes "\<forall>i. valid (f i)" "n \<le> size" "j < size"
  shows "get (fold (\<lambda>i r. set r i (f i)) [0..<n] r) j = (if j < n then f j else get r j)"
  using assms get_fill[of f "[0..<n]" j r] by auto

end

section \<open>Condition register: laws\<close>

lemma nibble_mask: "(0xf :: u32) = mask 4"
  by (simp add: mask_eq_exp_minus_1)

lemma bit_nibble_at: "bit (push_bit k (0xf :: u32)) n \<longleftrightarrow> k \<le> n \<and> n < k + 4 \<and> n < 32"
  unfolding nibble_mask bit_push_bit_iff bit_mask_iff by auto

lemma bit_cr_get_field:
  "f < 8 \<Longrightarrow> bit (cr_get_field c f) n \<longleftrightarrow> n < 4 \<and> bit c (28 - 4 * f + n)"
  unfolding cr_get_field_def nibble_mask bit_and_iff bit_drop_bit_eq bit_mask_iff by auto

lemma bit_less_16: "(v :: u32) < 16 \<Longrightarrow> bit v m \<Longrightarrow> m < 4"
  by (rule bit_less_2p) (simp_all add: word_less_nat_alt)

lemma bit_cr_set_field:
  assumes "f < 8" "v < 16"
  shows "bit (cr_set_field c f v) n \<longleftrightarrow>
    (if 28 - 4 * f \<le> n \<and> n < 32 - 4 * f then bit v (n - (28 - 4 * f)) else bit c n)"
  using assms(1) bit_imp_le_length[of c n] bit_less_16[OF assms(2), of "n - (28 - 4 * f)"]
  unfolding cr_set_field_def cr_clear_def bit_or_iff bit_and_iff bit_not_iff bit_nibble_at
  by (auto simp: bit_push_bit_iff)

interpretation cr_bank: element_bank cr_get_field cr_set_field 8 "\<lambda>v. v < 16"
proof unfold_locales
  fix i :: nat and v r :: u32 assume "i < 8" "v < 16"
  then show "cr_get_field (cr_set_field r i v) i = v"
    by (intro bit_word_eqI) (auto simp: bit_cr_get_field bit_cr_set_field dest: bit_less_16)
next
  fix i j :: nat and v r :: u32 assume "i < 8" "j < 8" "i \<noteq> j" "v < 16"
  then show "cr_get_field (cr_set_field r i v) j = cr_get_field r j"
    by (intro bit_word_eqI) (auto simp: bit_cr_get_field bit_cr_set_field)
qed

text \<open>The 4-bit code that \<open>record_cr\<close> leaves in its field.\<close>

definition cr_code :: "int \<Rightarrow> bool \<Rightarrow> u32" where
  "cr_code v so = (if v < 0 then 8 else if v > 0 then 4 else 2) OR of_flag so"

lemma bit_push_codes:
  "bit (push_bit k (8 :: u32)) n \<longleftrightarrow> n = k + 3 \<and> n < 32"
  "bit (push_bit k (4 :: u32)) n \<longleftrightarrow> n = k + 2 \<and> n < 32"
  "bit (push_bit k (2 :: u32)) n \<longleftrightarrow> n = k + 1 \<and> n < 32"
  "bit (push_bit k (1 :: u32)) n \<longleftrightarrow> n = k \<and> n < 32"
proof -
  have c: "(8 :: u32) = push_bit 3 1" "(4 :: u32) = push_bit 2 1" "(2 :: u32) = push_bit 1 1"
    by (simp_all add: push_bit_eq_mult)
  show "bit (push_bit k (8 :: u32)) n \<longleftrightarrow> n = k + 3 \<and> n < 32"
    "bit (push_bit k (4 :: u32)) n \<longleftrightarrow> n = k + 2 \<and> n < 32"
    "bit (push_bit k (2 :: u32)) n \<longleftrightarrow> n = k + 1 \<and> n < 32"
    "bit (push_bit k (1 :: u32)) n \<longleftrightarrow> n = k \<and> n < 32"
    unfolding c push_bit_push_bit bit_push_bit_iff bit_1_iff by auto
qed

lemma cr_code_less: "cr_code v so < 16"
  by (cases so) (simp_all add: cr_code_def)

lemma cr_code_word:
  fixes c x :: u32
  assumes "x = 8 \<or> x = 4 \<or> x = 2"
  shows "(c AND NOT (push_bit k (8 OR 4 OR 2)) OR push_bit k x) AND NOT (push_bit k 1) OR
      (if so then push_bit k 1 else 0) =
    (c AND NOT (push_bit k 0xf)) OR push_bit k (x OR of_flag so)"
proof (rule bit_word_eqI)
  fix n assume n: "n < LENGTH(32)"
  have or15: "(0xf :: u32) = 8 OR 4 OR 2 OR 1" by simp
  have disj: "bit (push_bit k x) n \<Longrightarrow> \<not> bit (push_bit k (1 :: u32)) n"
    using assms by (auto simp only: bit_push_codes)
  have "bit (push_bit k (of_flag so :: u32)) n \<longleftrightarrow> so \<and> bit (push_bit k (1 :: u32)) n"
    by (cases so) simp_all
  with disj n show "bit ((c AND NOT (push_bit k (8 OR 4 OR 2)) OR push_bit k x) AND NOT (push_bit k 1) OR
      (if so then push_bit k 1 else 0)) n =
    bit ((c AND NOT (push_bit k 0xf)) OR push_bit k (x OR of_flag so)) n"
    unfolding or15 push_bit_or bit_or_iff bit_and_iff bit_not_iff possible_bit_word
    by (cases so) (simp_all only: if_True if_False bit_0_eq bot_apply bot_bool_def, blast+)
qed

lemma record_cr_field:
  "cr (record_cr crfd v s) = cr_set_field (cr s) crfd (cr_code v (xer_so (xer s) \<noteq> 0))"
proof -
  let ?k = "28 - 4 * crfd" and ?so = "xer_so (xer s) \<noteq> 0"
  define x :: u32 where "x = (if v < 0 then 8 else if v > 0 then 4 else 2)"
  have "cr (record_cr crfd v s) =
      (cr s AND NOT (push_bit ?k (8 OR 4 OR 2)) OR push_bit ?k x) AND NOT (push_bit ?k 1) OR
      (if ?so then push_bit ?k 1 else 0)"
    unfolding record_cr_def cr_set_so_def cr_compute_def Let_def standalone_CR_masks x_def
    by (simp only: powerpc_cpu.simps split: if_split) simp
  also have "\<dots> = (cr s AND NOT (push_bit ?k 0xf)) OR push_bit ?k (x OR of_flag ?so)"
    by (rule cr_code_word) (auto simp: x_def)
  also have "\<dots> = cr_set_field (cr s) crfd (cr_code v ?so)"
    by (simp only: cr_set_field_def cr_clear_def cr_code_def x_def)
  finally show ?thesis .
qed

section \<open>XER: laws\<close>

lemma u8_le_1_cases: "(x :: u8) \<le> 1 \<Longrightarrow> x = 0 \<or> x = 1"
  using word_unat_eq_iff[of x 0] word_unat_eq_iff[of x 1] by (auto simp: word_le_nat_alt)

lemma drop_ucast_u8: "8 \<le> k \<Longrightarrow> drop_bit k (ucast (b :: u8) :: u32) = 0"
  by (intro word_eq_by_bits) (auto simp: bit_rules dest: bit_imp_le_length)

lemma u8_and_127: "(c :: u8) < 128 \<Longrightarrow> c AND 127 = c"
proof -
  assume "c < 128"
  then have "bit c m \<Longrightarrow> m < 7" for m
    using bit_less_2p[of c 7 m] by (simp add: word_less_nat_alt)
  moreover have "(127 :: u8) = mask 7"
    by (simp add: mask_eq_exp_minus_1)
  ultimately show ?thesis
    by (intro bit_word_eqI) (auto simp only: bit_and_iff bit_mask_iff possible_bit_word)
qed

lemma xer_fields_extract:
  "field_extract XER_SO_field v = drop_bit 31 v"
  "field_extract XER_OV_field v = drop_bit 30 v AND 1"
  "field_extract XER_CA_field v = drop_bit 29 v AND 1"
  "field_extract XER_COUNT_field v = v AND 127"
proof -
  show "field_extract XER_SO_field v = drop_bit 31 v"
    by (intro bit_word_eqI)
       (auto simp: bit_field_extract_iff wf_field_def field_width_def bit_drop_bit_eq
          dest: bit_imp_le_length)
qed (simp_all add: field_extract_def field_mask_def)

lemma xer_set_get:
  assumes "wf_xer x"
  shows "xer_set (xer_get x) y = x"
proof -
  obtain a b c d where x: "x = \<lparr>xer_so = a, xer_ov = b, xer_ca = c, xer_byte_count = d\<rparr>"
    by (cases x)
  have "a = 0 \<or> a = 1" "b = 0 \<or> b = 1" "c = 0 \<or> c = 1" "d AND 127 = d"
    using assms u8_and_127 by (auto simp: x wf_xer_def u8_le_1_cases)
  then show ?thesis
    unfolding xer_set_def xer_fields_extract xer_get_def x
    by (auto simp: drop_ucast_u8 byte_simps)
qed

lemma bit_flag_at:
  fixes v :: u32
  assumes "n < 32"
  shows "bit (push_bit k (ucast (ucast (drop_bit k v AND 1) :: u8) :: u32)) n \<longleftrightarrow> n = k \<and> bit v k"
  using assms by (cases "k \<le> n") (auto simp: bit_rules bit_1_iff)

lemma bit_count_at:
  fixes v :: u32
  shows "bit (ucast (ucast (v AND 127) :: u8) :: u32) n \<longleftrightarrow> n < 7 \<and> bit v n"
proof -
  have m: "(127 :: u32) = mask 7" by (simp add: mask_eq_exp_minus_1)
  show ?thesis unfolding m by (auto simp only: bit_rules) simp_all
qed

lemma bit_xer_mask: "bit (0xe000007f :: u32) n \<longleftrightarrow> n < 7 \<or> (29 \<le> n \<and> n < 32)"
proof -
  have "(0xe000007f :: u32) = push_bit 29 (mask 3) OR mask 7"
    by (simp add: mask_eq_exp_minus_1 push_bit_eq_mult)
  then show ?thesis by (simp only: bit_rules) auto
qed

lemma xer_get_set: "xer_get (xer_set v x) = v AND 0xe000007f"
proof (rule word_eq_by_bits)
  fix n assume n: "n < LENGTH(32)"
  have so: "field_extract XER_SO_field v = drop_bit 31 v AND 1"
    unfolding xer_fields_extract
    by (intro bit_word_eqI) (auto simp: bit_and_iff bit_drop_bit_eq bit_1_iff dest: bit_imp_le_length)
  have "29 \<le> n \<and> n < 32 \<longleftrightarrow> n = 29 \<or> n = 30 \<or> n = 31" by arith
  with n show "bit (xer_get (xer_set v x)) n = bit (v AND 0xe000007f) n"
    unfolding xer_get_def xer_set_def so xer_fields_extract(2-4) bit_and_iff bit_xer_mask
    by (simp add: bit_or_iff bit_flag_at bit_count_at del: bit_push_bit_iff) auto
qed

lemma u8_of_field_bound:
  assumes "wf_field f" "field_width f \<le> 8"
  shows "unat (ucast (field_extract f v) :: u8) < 2 ^ field_width f"
proof -
  have "unat (ucast (field_extract f v) :: u8) \<le> unat (field_extract f v)"
    by (simp add: unsigned_ucast_eq take_bit_nat_less_eq_self)
  also have "\<dots> < 2 ^ field_width f"
    by (rule field_extract_bound[OF assms(1)])
  finally show ?thesis .
qed

lemma wf_xer_set [wf_intros]: "wf_xer (xer_set v x)"
  using u8_of_field_bound[of XER_SO_field v] u8_of_field_bound[of XER_OV_field v]
    u8_of_field_bound[of XER_CA_field v] u8_of_field_bound[of XER_COUNT_field v]
  by (simp add: xer_set_def wf_xer_def word_le_nat_alt word_less_nat_alt wf_field_def field_width_def)

lemma wf_xer_flags [wf_intros]:
  assumes "wf_xer x"
  shows "wf_xer (xer_set_ca b x)" "wf_xer (xer_set_ov b x)" "wf_xer (xer_set_so b x)"
  using assms u8_le_1_cases[of "xer_so x"]
  by (auto simp: wf_xer_def xer_set_ca_def xer_set_ov_def xer_set_so_def of_flag_def)

lemma wf_xer_init [wf_intros]: "wf_xer xer_init"
  by (simp add: wf_xer_def xer_init_def)

section \<open>Vector registers: laws\<close>

interpretation vr_b_bank: element_bank "\<lambda>v i. v i" vr_set_b 16 "\<lambda>_. True"
  by unfold_locales (auto simp: vr_set_b_def)

interpretation vr_h_bank: element_bank vr_h vr_set_h 8 "\<lambda>_. True"
proof unfold_locales
  fix i :: nat and v r show "vr_h (vr_set_h r i v) i = v"
    by (rule word16_byte_eqI) (simp_all add: vr_h_def vr_set_h_def byte_simps)
next
  fix i j :: nat and v r assume "i \<noteq> j"
  moreover from this have "2 * j + 1 \<noteq> 2 * i" "2 * i + 1 \<noteq> 2 * j" by presburger+
  ultimately show "vr_h (vr_set_h r i v) j = vr_h r j"
    by (simp add: vr_h_def vr_set_h_def)
qed

interpretation vr_w_bank: element_bank vr_w vr_set_w 4 "\<lambda>_. True"
proof unfold_locales
  fix i :: nat and v r show "vr_w (vr_set_w r i v) i = v"
    by (rule word32_byte_eqI) (simp_all add: vr_w_def vr_set_w_def byte_simps)
next
  fix i j :: nat and v r assume "i \<noteq> j"
  then have "4 * j + a \<noteq> 4 * i + b" if "a < 4" "b < 4" for a b :: nat
    using that by presburger
  from this[of 0 0] this[of 0 1] this[of 0 2] this[of 0 3] this[of 1 0] this[of 1 1] this[of 1 2] this[of 1 3]
    this[of 2 0] this[of 2 1] this[of 2 2] this[of 2 3] this[of 3 0] this[of 3 1] this[of 3 2] this[of 3 3]
  show "vr_w (vr_set_w r i v) j = vr_w r j"
    by (simp add: vr_w_def vr_set_w_def)
qed

section \<open>The initial register file\<close>

lemma wf_zero_cpu [simp]: "wf_cpu zero_cpu"
  by (simp add: wf_cpu_def zero_cpu_def wf_xer_init)

lemma zero_cpu_simps [simp]:
  "gpr zero_cpu = (\<lambda>_. 0)" "fpr zero_cpu = (\<lambda>_. 0)" "vr zero_cpu = (\<lambda>_ _. 0)" "cr zero_cpu = 0"
  "xer zero_cpu = xer_init" "vscr zero_cpu = 0" "fpscr zero_cpu = 0" "lr zero_cpu = 0" "ctr zero_cpu = 0"
  "pc zero_cpu = 0" "spcflags zero_cpu = 0" "reserve_valid zero_cpu = 0" "reserve_addr zero_cpu = 0"
  "cache_start zero_cpu = 0" "cache_end zero_cpu = 0" "clear_range_calls zero_cpu = []" "mem zero_cpu = (\<lambda>_. 0)"
  by (simp_all add: zero_cpu_def)

lemma fold_clear_registers:
  fixes s :: powerpc_cpu
  shows "fold (\<lambda>i s. set_fpr i 0 (set_gpr i 0 s)) [0..<n] s =
    s\<lparr>gpr := \<lambda>i. if i < n then 0 else gpr s i, fpr := \<lambda>i. if i < n then 0 else fpr s i\<rparr>"
  by (induction n) (auto simp: set_fpr_def set_gpr_def fun_eq_iff intro!: powerpc_cpu.equality)

end
