(* ===== verification/PPC_Operations.thy ===== *)
theory PPC_Operations
  imports PPC_Prelude
begin

unbundle bit_operations_syntax

text \<open>
  The integer operations of \<^verbatim>\<open>ppc-operations.hpp\<close>: each operation is a class
  with a static \<^verbatim>\<open>apply\<close>. The classes are passed as template arguments and some
  helper templates are specialised on them, so they are constructors here, one type
  per arity. A shift count is only applied below the width by the instructions that
  use it; \<open>op_rotl\<close> with count 0 shifts by the whole width in its second half, which
  contributes no bit here and the operand itself on the usual hosts: the disjunction
  is the operand either way.
\<close>

section \<open>Sign and zero extension\<close>

definition op_sign_extend_5_32_apply :: "u32 \<Rightarrow> u32" where
  "op_sign_extend_5_32_apply v = (if v AND 0x10 \<noteq> 0 then v - 0x20 else v)"

definition op_sign_extend_16_32_apply :: "u32 \<Rightarrow> u32" where
  "op_sign_extend_16_32_apply v = scast (ucast v :: u16)"

definition op_sign_extend_8_32_apply :: "u32 \<Rightarrow> u32" where
  "op_sign_extend_8_32_apply v = scast (ucast v :: u8)"

definition op_zero_extend_16_32_apply :: "u32 \<Rightarrow> u32" where
  "op_zero_extend_16_32_apply v = ucast (ucast v :: u16)"

definition op_zero_extend_8_32_apply :: "u32 \<Rightarrow> u32" where
  "op_zero_extend_8_32_apply v = ucast (ucast v :: u8)"

definition op_sign_extend_16_32_shifted_apply :: "u32 \<Rightarrow> u32" where
  "op_sign_extend_16_32_shifted_apply v = push_bit 16 (op_sign_extend_16_32_apply v)"

definition op_zero_extend_16_32_shifted_apply :: "u32 \<Rightarrow> u32" where
  "op_zero_extend_16_32_shifted_apply v = push_bit 16 (op_zero_extend_16_32_apply v)"

definition op_sign_extend_BD_32_apply :: "u32 \<Rightarrow> u32" where
  "op_sign_extend_BD_32_apply v = op_sign_extend_16_32_apply (push_bit 2 v)"

definition op_sign_extend_LI_32_apply :: "u32 \<Rightarrow> u32" where
  "op_sign_extend_LI_32_apply v =
     (let v = (if v AND 0x800000 \<noteq> 0 then v OR 0xff000000 else v) in push_bit 2 v)"

section \<open>Count leading zeros\<close>

function cntlzw_loop :: "u32 \<Rightarrow> nat \<Rightarrow> u32 \<Rightarrow> nat" where
  "cntlzw_loop x n m =
     (if n < 32 then if x AND m \<noteq> 0 then n else cntlzw_loop x (n + 1) (drop_bit 1 m) else n)"
  by pat_completeness auto
termination
  by (relation "measure (\<lambda>(x, n, m). 32 - n)") auto

declare cntlzw_loop.simps [simp del]

definition op_cntlzw_apply :: "u32 \<Rightarrow> u32" where
  "op_cntlzw_apply x = of_nat (cntlzw_loop x 0 0x80000000)"

section \<open>Operations by arity\<close>

definition op_rotl_apply :: "u32 \<Rightarrow> u32 \<Rightarrow> u32" where
  "op_rotl_apply x y = push_bit (unat y) x OR drop_bit (unat (32 - y)) x"

definition op_shra_apply :: "u32 \<Rightarrow> u32 \<Rightarrow> u32" where
  "op_shra_apply x y = signed_drop_bit (unat y) x"

datatype op1 =
  op_nop | op_neg | op_compl | op_cntlzw
| op_sign_extend_5_32 | op_sign_extend_8_32 | op_sign_extend_16_32
| op_zero_extend_16_32 | op_zero_extend_8_32
| op_sign_extend_16_32_shifted | op_zero_extend_16_32_shifted
| op_sign_extend_BD_32 | op_sign_extend_LI_32
| op_andi u32

primrec op1_apply :: "op1 \<Rightarrow> u32 \<Rightarrow> u32" where
  "op1_apply op_nop x = x"
| "op1_apply op_neg x = - x"
| "op1_apply op_compl x = NOT x"
| "op1_apply op_cntlzw x = op_cntlzw_apply x"
| "op1_apply op_sign_extend_5_32 x = op_sign_extend_5_32_apply x"
| "op1_apply op_sign_extend_8_32 x = op_sign_extend_8_32_apply x"
| "op1_apply op_sign_extend_16_32 x = op_sign_extend_16_32_apply x"
| "op1_apply op_zero_extend_16_32 x = op_zero_extend_16_32_apply x"
| "op1_apply op_zero_extend_8_32 x = op_zero_extend_8_32_apply x"
| "op1_apply op_sign_extend_16_32_shifted x = op_sign_extend_16_32_shifted_apply x"
| "op1_apply op_zero_extend_16_32_shifted x = op_zero_extend_16_32_shifted_apply x"
| "op1_apply op_sign_extend_BD_32 x = op_sign_extend_BD_32_apply x"
| "op1_apply op_sign_extend_LI_32 x = op_sign_extend_LI_32_apply x"
| "op1_apply (op_andi v) x = x AND v"

datatype op2 =
  op_add | op_sub | op_mul | op_smul | op_and | op_or | op_xor | op_orc | op_andc
| op_nand | op_nor | op_eqv | op_shll | op_shrl | op_shra | op_rotl

primrec op2_apply :: "op2 \<Rightarrow> u32 \<Rightarrow> u32 \<Rightarrow> u32" where
  "op2_apply op_add x y = x + y"
| "op2_apply op_sub x y = x - y"
| "op2_apply op_mul x y = x * y"
| "op2_apply op_smul x y = x * y"
| "op2_apply op_and x y = x AND y"
| "op2_apply op_or x y = x OR y"
| "op2_apply op_xor x y = x XOR y"
| "op2_apply op_orc x y = x OR NOT y"
| "op2_apply op_andc x y = x AND NOT y"
| "op2_apply op_nand x y = NOT (x AND y)"
| "op2_apply op_nor x y = NOT (x OR y)"
| "op2_apply op_eqv x y = NOT (x XOR y)"
| "op2_apply op_shll x y = push_bit (unat y) x"
| "op2_apply op_shrl x y = drop_bit (unat y) x"
| "op2_apply op_shra x y = op_shra_apply x y"
| "op2_apply op_rotl x y = op_rotl_apply x y"

datatype op3 = op_ppc_rlwinm | op_ppc_rlwnm

primrec op3_apply :: "op3 \<Rightarrow> u32 \<Rightarrow> u32 \<Rightarrow> u32 \<Rightarrow> u32" where
  "op3_apply op_ppc_rlwinm x y z = op_rotl_apply x y AND z"
| "op3_apply op_ppc_rlwnm x y z = op_rotl_apply x (y AND 0x1f) AND z"

definition op_ppc_rlwimi_apply :: "u32 \<Rightarrow> u32 \<Rightarrow> u32 \<Rightarrow> u32 \<Rightarrow> u32" where
  "op_ppc_rlwimi_apply x y z t = (op_rotl_apply x y AND z) OR (t AND NOT z)"

datatype int_op = OP1 op1 | OP2 op2 | OP3 op3

primrec op_arity :: "int_op \<Rightarrow> nat" where
  "op_arity (OP1 f) = 1" | "op_arity (OP2 f) = 2" | "op_arity (OP3 f) = 3"

primrec int_op_apply :: "int_op \<Rightarrow> u32 \<Rightarrow> u32 \<Rightarrow> u32 \<Rightarrow> u32" where
  "int_op_apply (OP1 f) a b c = op1_apply f a"
| "int_op_apply (OP2 f) a b c = op2_apply f a b"
| "int_op_apply (OP3 f) a b c = op3_apply f a b c"

section \<open>Correctness of the operations\<close>


lemma sint_scast_narrow:
  fixes w :: "'a::len word"
  assumes "LENGTH('a) \<le> LENGTH('b::len)"
  shows "sint (scast w :: 'b word) = sint w"
proof -
  have "(2::int) ^ (LENGTH('a) - 1) \<le> 2 ^ (LENGTH('b) - 1)"
    using assms by (intro power_increasing) auto
  then have "- (2 ^ (LENGTH('b) - 1)) \<le> sint w" "sint w < 2 ^ (LENGTH('b) - 1)"
    using sint_greater_eq[of w] sint_less[of w] by (simp_all only: One_nat_def)
  then show ?thesis
    by (simp add: signed_scast_eq signed_take_bit_int_eq_self_iff)
qed

lemma sint_sign_extend_16: "sint (op_sign_extend_16_32_apply v) = sint (ucast v :: u16)"
  by (simp add: op_sign_extend_16_32_apply_def sint_scast_narrow)

lemma sint_sign_extend_8: "sint (op_sign_extend_8_32_apply v) = sint (ucast v :: u8)"
  by (simp add: op_sign_extend_8_32_apply_def sint_scast_narrow)

lemma op_rotl_is_rotation:
  assumes "y < 32"
  shows "op_rotl_apply x y = word_rotl (unat y) x"
proof (rule bit_word_eqI)
  fix n assume n: "n < LENGTH(32)"
  have y: "unat y < 32" using assms by (simp add: word_less_nat_alt)
  have c: "unat (32 - y) = 32 - unat y"
    using assms by (subst unat_sub) (auto simp: word_le_nat_alt word_less_nat_alt)
  have r: "(n + (32 - unat y)) mod 32 = (if unat y \<le> n then n - unat y else n + (32 - unat y))"
    using n y by (auto simp: mod_if)
  have "bit (op_rotl_apply x y) n \<longleftrightarrow>
      unat y \<le> n \<and> bit x (n - unat y) \<or> bit x (32 - unat y + n)"
    using n unfolding op_rotl_apply_def c by (simp add: bit_or_iff bit_push_bit_iff bit_drop_bit_eq)
  moreover have "bit (word_rotl (unat y) x) n \<longleftrightarrow>
      bit x (if unat y \<le> n then n - unat y else n + (32 - unat y))"
    unfolding bit_word_rotl_iff using n y r by simp
  ultimately show "bit (op_rotl_apply x y) n = bit (word_rotl (unat y) x) n"
    using n y bit_imp_le_length[of x "32 - unat y + n"] by (auto simp: add.commute)
qed

lemma one_hot_step: "n < 31 \<Longrightarrow> drop_bit 1 (2 ^ (31 - n) :: u32) = 2 ^ (31 - (n + 1))"
  by (intro bit_word_eqI) (auto simp: bit_drop_bit_eq bit_exp_iff)

lemma and_one_hot: "n < 32 \<Longrightarrow> (x :: u32) AND 2 ^ (31 - n) = 0 \<longleftrightarrow> \<not> bit x (31 - n)"
  by (simp add: bit_iff_and_push_bit_not_eq_0)

lemma cntlzw_loop_spec:
  assumes "n \<le> 32" "n < 32 \<Longrightarrow> m = 2 ^ (31 - n)"
  shows "n \<le> cntlzw_loop x n m \<and> cntlzw_loop x n m \<le> 32 \<and>
    (\<forall>i. n \<le> i \<and> i < cntlzw_loop x n m \<longrightarrow> \<not> bit x (31 - i)) \<and>
    (cntlzw_loop x n m < 32 \<longrightarrow> bit x (31 - cntlzw_loop x n m))"
  using assms
proof (induction x n m rule: cntlzw_loop.induct)
  case (1 x n m)
  show ?case
  proof (cases "n < 32 \<and> \<not> bit x (31 - n)")
    case True
    with 1 have step: "cntlzw_loop x n m = cntlzw_loop x (n + 1) (drop_bit 1 m)"
      by (subst cntlzw_loop.simps) (simp add: and_one_hot)
    have "n + 1 < 32 \<Longrightarrow> drop_bit 1 m = 2 ^ (31 - (n + 1))"
      using 1(3) one_hot_step[of n] by simp
    with True 1 have IH: "n + 1 \<le> cntlzw_loop x (n + 1) (drop_bit 1 m) \<and>
        cntlzw_loop x (n + 1) (drop_bit 1 m) \<le> 32 \<and>
        (\<forall>i. n + 1 \<le> i \<and> i < cntlzw_loop x (n + 1) (drop_bit 1 m) \<longrightarrow> \<not> bit x (31 - i)) \<and>
        (cntlzw_loop x (n + 1) (drop_bit 1 m) < 32 \<longrightarrow>
          bit x (31 - cntlzw_loop x (n + 1) (drop_bit 1 m)))"
      by (intro 1(1)) (auto simp: and_one_hot)
    have "\<not> bit x (31 - i)" if "n \<le> i" "i < cntlzw_loop x (n + 1) (drop_bit 1 m)" for i
      using True IH that by (cases "i = n") auto
    with IH show ?thesis unfolding step by auto
  next
    case False
    with 1 have "cntlzw_loop x n m = n"
      by (subst cntlzw_loop.simps) (auto simp: and_one_hot)
    with False 1 show ?thesis by auto
  qed
qed

lemma op_cntlzw_bounds:
  shows "unat (op_cntlzw_apply x) \<le> 32"
    and "i < unat (op_cntlzw_apply x) \<Longrightarrow> \<not> bit x (31 - i)"
    and "unat (op_cntlzw_apply x) < 32 \<Longrightarrow> bit x (31 - unat (op_cntlzw_apply x))"
proof -
  have "(0x80000000 :: u32) = 2 ^ (31 - 0)" by simp
  from cntlzw_loop_spec[of 0 "0x80000000" x, OF _ this]
  have "cntlzw_loop x 0 0x80000000 \<le> 32 \<and> (\<forall>i < cntlzw_loop x 0 0x80000000. \<not> bit x (31 - i)) \<and>
      (cntlzw_loop x 0 0x80000000 < 32 \<longrightarrow> bit x (31 - cntlzw_loop x 0 0x80000000))"
    by auto
  moreover from this have "unat (op_cntlzw_apply x) = cntlzw_loop x 0 0x80000000"
    by (simp add: op_cntlzw_apply_def unsigned_of_nat take_bit_nat_eq_self)
  ultimately show "unat (op_cntlzw_apply x) \<le> 32"
    "i < unat (op_cntlzw_apply x) \<Longrightarrow> \<not> bit x (31 - i)"
    "unat (op_cntlzw_apply x) < 32 \<Longrightarrow> bit x (31 - unat (op_cntlzw_apply x))"
    by auto
qed

text \<open>The operations that differ only in a complement on their second operand or result.\<close>

lemma logic_op_complements:
  "op2_apply op_andc x y = op2_apply op_and x (NOT y)"
  "op2_apply op_orc x y = op2_apply op_or x (NOT y)"
  "op2_apply op_eqv x y = op2_apply op_xor x (NOT y)"
  "op2_apply op_nand x y = op2_apply op_or (NOT x) (NOT y)"
  "op2_apply op_nor x y = op2_apply op_and (NOT x) (NOT y)"
  by (simp_all add: bit.de_Morgan_conj bit.de_Morgan_disj bit_eq_iff bit_simps) 

end
