(* ===== verification/PPC_Operands.thy ===== *)
theory PPC_Operands
  imports PPC_Registers PPC_Operations
begin

unbundle bit_operations_syntax

text \<open>
  The integer operand templates of \<^verbatim>\<open>ppc-operands.hpp\<close>. A template with its
  arguments is a constructor; \<open>operand_get\<close> and \<open>operand_set\<close> are the static members
  \<^verbatim>\<open>get\<close> and \<^verbatim>\<open>set\<close>. Only the classes derived from \<^verbatim>\<open>output_gpr\<close> and
  \<^verbatim>\<open>input_gpr_except\<close> have a \<^verbatim>\<open>set\<close>; naming another class as an output does not
  compile, which is the value \<open>No_set_member\<close> here and shown never to happen for the
  instruction table.
\<close>

section \<open>Results of the handlers\<close>

datatype abort_reason =
  Illegal_instruction u32
| Abort_set_except_register
| Abort_bad_syscall
| Abort_register_id int
| Assertion_failed
| Quit_emulator
| No_set_member

type_synonym result = "abort_reason + powerpc_cpu"

primrec and_then :: "result \<Rightarrow> (powerpc_cpu \<Rightarrow> result) \<Rightarrow> result" where
  "and_then (Inl e) f = Inl e"
| "and_then (Inr s) f = f s"

primrec wf_result :: "result \<Rightarrow> bool" where
  "wf_result (Inl e) = True"
| "wf_result (Inr s) = wf_cpu s"

lemma wf_result_and_then [wf_intros]:
  "wf_result r \<Longrightarrow> (\<And>s. r = Inr s \<Longrightarrow> wf_cpu s \<Longrightarrow> wf_result (f s)) \<Longrightarrow> wf_result (and_then r f)"
  by (cases r) simp_all

lemma and_then_eq_Inr: "and_then r f = Inr t \<longleftrightarrow> (\<exists>s. r = Inr s \<and> f s = Inr t)"
  by (cases r) simp_all

section \<open>Operands\<close>

datatype operand =
  null_operand
| gpr_operand bit_field
| input_gpr_op bit_field op1
| input_gpr_except bit_field nat
| immediate_operand bit_field op1
| immediate_value int
| mask_operand
| pc_operand
| lr_operand
| ctr_operand
| cr_operand
| xer_operand bit_field
| fpscr_operand bit_field
| spr_operand
| tbr_operand
| vSH_operand bit_field

definition mask_operand_compute :: "u32 \<Rightarrow> u32 \<Rightarrow> u32" where
  "mask_operand_compute mb me =
     (if mb > me
      then NOT (drop_bit (unat mb) 0xffffffff XOR
                (if me \<ge> 31 then 0 else drop_bit (unat (me + 1)) 0xffffffff))
      else drop_bit (unat mb) 0xffffffff XOR
                (if me \<ge> 31 then 0 else drop_bit (unat (me + 1)) 0xffffffff))"

definition ev_mixed_byte_element :: "nat \<Rightarrow> nat" where
  "ev_mixed_byte_element i = [3, 2, 1, 0, 7, 6, 5, 4, 11, 10, 9, 8, 15, 14, 13, 12] ! i"

definition ev_mixed_half_element :: "nat \<Rightarrow> nat" where
  "ev_mixed_half_element i = [1, 0, 3, 2, 5, 4, 7, 6] ! i"

definition spr_operand_get :: "u32 \<Rightarrow> u32" where
  "spr_operand_get opcode =
     (let spr = field_extract SPR_field opcode
      in push_bit 5 (spr AND 0x1f) OR (drop_bit 5 spr AND 0x1f))"

definition tbr_operand_get :: "u32 \<Rightarrow> u32" where
  "tbr_operand_get opcode =
     (let tbr = field_extract TBR_field opcode
      in push_bit 5 (tbr AND 0x1f) OR (drop_bit 5 tbr AND 0x1f))"

definition xer_operand_get :: "bit_field \<Rightarrow> powerpc_cpu \<Rightarrow> u32" where
  "xer_operand_get f s =
     (if f = XER_CA_field then ucast (xer_ca (xer s))
      else if f = XER_COUNT_field then ucast (xer_byte_count (xer s))
      else field_extract f (xer_get (xer s)))"

definition regno :: "bit_field \<Rightarrow> u32 \<Rightarrow> nat" where
  "regno f opcode = unat (field_extract f opcode)"

fun operand_get :: "operand \<Rightarrow> powerpc_cpu \<Rightarrow> u32 \<Rightarrow> u32" where
  "operand_get null_operand s opcode = 0"
| "operand_get (gpr_operand f) s opcode = gpr s (regno f opcode)"
| "operand_get (input_gpr_op f p) s opcode = op1_apply p (gpr s (regno f opcode))"
| "operand_get (input_gpr_except f n) s opcode =
     (if regno f opcode \<noteq> n then gpr s (regno f opcode) else 0)"
| "operand_get (immediate_operand f p) s opcode = op1_apply p (field_extract f opcode)"
| "operand_get (immediate_value n) s opcode = of_int n"
| "operand_get mask_operand s opcode =
     mask_operand_compute (field_extract MB_field opcode) (field_extract ME_field opcode)"
| "operand_get pc_operand s opcode = pc s"
| "operand_get lr_operand s opcode = lr s"
| "operand_get ctr_operand s opcode = ctr s"
| "operand_get cr_operand s opcode = cr s"
| "operand_get (xer_operand f) s opcode = xer_operand_get f s"
| "operand_get (fpscr_operand f) s opcode = field_extract f (fpscr s)"
| "operand_get spr_operand s opcode = spr_operand_get opcode"
| "operand_get tbr_operand s opcode = tbr_operand_get opcode"
| "operand_get (vSH_operand f) s opcode =
     ucast (drop_bit 3 (vr s (regno f opcode) (ev_mixed_byte_element 15)) AND 15)"

fun operand_set :: "operand \<Rightarrow> u32 \<Rightarrow> u32 \<Rightarrow> powerpc_cpu \<Rightarrow> result" where
  "operand_set (gpr_operand f) opcode v s = Inr (set_gpr (regno f opcode) v s)"
| "operand_set (input_gpr_except f n) opcode v s =
     (if regno f opcode = n then Inl Abort_set_except_register
      else Inr (set_gpr (regno f opcode) v s))"
| "operand_set _ opcode v s = Inl No_set_member"

definition has_set :: "operand \<Rightarrow> bool" where
  "has_set x = (case x of gpr_operand f \<Rightarrow> True | input_gpr_except f n \<Rightarrow> True | _ \<Rightarrow> False)"

section \<open>The operand names of the instruction table\<close>

abbreviation operand_NONE :: operand where "operand_NONE \<equiv> null_operand"
abbreviation operand_CR :: operand where "operand_CR \<equiv> cr_operand"
abbreviation operand_PC :: operand where "operand_PC \<equiv> pc_operand"
abbreviation operand_LR :: operand where "operand_LR \<equiv> lr_operand"
abbreviation operand_CTR :: operand where "operand_CTR \<equiv> ctr_operand"
abbreviation operand_RA_compl :: operand where "operand_RA_compl \<equiv> input_gpr_op rA_field op_compl"
abbreviation operand_RA :: operand where "operand_RA \<equiv> gpr_operand rA_field"
abbreviation operand_RB :: operand where "operand_RB \<equiv> gpr_operand rB_field"
abbreviation operand_RS :: operand where "operand_RS \<equiv> gpr_operand rS_field"
abbreviation operand_RD :: operand where "operand_RD \<equiv> gpr_operand rD_field"
abbreviation operand_RA_or_0 :: operand where "operand_RA_or_0 \<equiv> input_gpr_except rA_field 0"
abbreviation operand_RA_is_0 :: operand where "operand_RA_is_0 \<equiv> immediate_value 0"
abbreviation operand_ONE :: operand where "operand_ONE \<equiv> immediate_value 1"
abbreviation operand_ZERO :: operand where "operand_ZERO \<equiv> immediate_value 0"
abbreviation operand_MINUS_ONE :: operand where "operand_MINUS_ONE \<equiv> immediate_value (- 1)"
abbreviation operand_XER_CA :: operand where "operand_XER_CA \<equiv> xer_operand XER_CA_field"
abbreviation operand_XER_COUNT :: operand where "operand_XER_COUNT \<equiv> xer_operand XER_COUNT_field"
abbreviation operand_FPSCR_RN :: operand where "operand_FPSCR_RN \<equiv> fpscr_operand FPSCR_RN_field"
abbreviation operand_SPR :: operand where "operand_SPR \<equiv> spr_operand"
abbreviation operand_TBR :: operand where "operand_TBR \<equiv> tbr_operand"
abbreviation operand_MASK :: operand where "operand_MASK \<equiv> mask_operand"
abbreviation operand_LI :: operand where "operand_LI \<equiv> immediate_operand LI_field op_sign_extend_LI_32"
abbreviation operand_BO :: operand where "operand_BO \<equiv> immediate_operand BO_field op_nop"
abbreviation operand_BD :: operand where "operand_BD \<equiv> immediate_operand BD_field op_sign_extend_BD_32"
abbreviation operand_IMM :: operand where "operand_IMM \<equiv> immediate_operand IMM_field op_nop"
abbreviation operand_UIMM :: operand where "operand_UIMM \<equiv> immediate_operand UIMM_field op_zero_extend_16_32"
abbreviation operand_UIMM_shifted :: operand where "operand_UIMM_shifted \<equiv> immediate_operand UIMM_field op_zero_extend_16_32_shifted"
abbreviation operand_SIMM :: operand where "operand_SIMM \<equiv> immediate_operand SIMM_field op_sign_extend_16_32"
abbreviation operand_SIMM_shifted :: operand where "operand_SIMM_shifted \<equiv> immediate_operand SIMM_field op_sign_extend_16_32_shifted"
abbreviation operand_D :: operand where "operand_D \<equiv> immediate_operand d_field op_sign_extend_16_32"
abbreviation operand_NB :: operand where "operand_NB \<equiv> immediate_operand NB_field op_nop"
abbreviation operand_SH :: operand where "operand_SH \<equiv> immediate_operand SH_field op_nop"
abbreviation operand_FM :: operand where "operand_FM \<equiv> immediate_operand FM_field op_nop"
abbreviation operand_SHB :: operand where "operand_SHB \<equiv> immediate_operand vSH_field op_nop"
abbreviation operand_SHBO :: operand where "operand_SHBO \<equiv> vSH_operand vB_field"

section \<open>Laws of the operands\<close>

lemma regno_bound:
  "wf_field f \<Longrightarrow> regno f opcode < 2 ^ field_width f"
  unfolding regno_def by (rule field_extract_bound)

lemma regno_less_32: "wf_field f \<Longrightarrow> field_width f = 5 \<Longrightarrow> regno f opcode < 32"
  using regno_bound[of f opcode] by simp

text \<open>
  The mask of the rotate instructions, in PowerPC bit numbers: the bits \<open>mb\<close> to \<open>me\<close>,
  wrapping around when \<open>mb\<close> is beyond \<open>me\<close>.
\<close>

lemma bit_mask_operand_compute:
  assumes "mb < 32" "me < 32" "p < 32"
  shows "bit (mask_operand_compute mb me) (31 - p) \<longleftrightarrow>
    (if mb \<le> me then unat mb \<le> p \<and> p \<le> unat me else unat mb \<le> p \<or> p \<le> unat me)"
proof -
  have b: "unat mb < 32" "unat me < 32"
    using assms by (simp_all add: word_less_nat_alt)
  have m1: "unat (me + 1) = unat me + 1"
    using b by (simp add: unat_word_ariths)
  define x where "x = drop_bit (unat mb) (0xffffffff :: u32)"
  define y where "y = (if me \<ge> 31 then 0 else drop_bit (unat (me + 1)) (0xffffffff :: u32))"
  have bx: "bit x (31 - p) \<longleftrightarrow> unat mb \<le> p"
    unfolding x_def bit_drop_ones32 using assms by auto
  have by': "bit y (31 - p) \<longleftrightarrow> unat me < p"
  proof (cases "me \<ge> 31")
    case True then show ?thesis using b assms(3) by (simp add: y_def word_le_nat_alt)
  next
    case False
    then show ?thesis
      unfolding y_def m1 using assms(3) by (simp only: if_False bit_drop_ones32) auto
  qed
  have "mask_operand_compute mb me = (if mb > me then NOT (x XOR y) else x XOR y)"
    unfolding mask_operand_compute_def x_def y_def by simp
  moreover have "mb > me \<longleftrightarrow> unat mb > unat me" by (simp add: word_less_nat_alt)
  ultimately show ?thesis
    using bx by' assms(3)
    by (auto simp: bit_not_iff bit_xor_iff word_le_nat_alt)
qed

text \<open>Evaluation of operand fields at a concrete instruction word.\<close>

lemmas eval_simps = regno_def field_extract_def field_test_def field_mask_def Let_def

section \<open>The register-file invariant\<close>

lemma and_3_iff: "(x :: u32) AND 3 = 0 \<longleftrightarrow> 4 dvd unat x"
proof -
  have "x AND 3 = take_bit 2 x" by (simp add: take_bit_eq_mask mask_eq_exp_minus_1)
  moreover have "take_bit 2 x = 0 \<longleftrightarrow> take_bit 2 (unat x) = 0"
    by (metis unat_eq_0 unsigned_take_bit_eq)
  ultimately show ?thesis by (simp add: take_bit_eq_mod dvd_eq_mod_eq_0)
qed
lemma pc_add_4: "(x :: u32) AND 3 = 0 \<Longrightarrow> (x + 4) AND 3 = 0"
  unfolding and_3_iff by (simp add: unat_word_ariths dvd_mod)

lemma pc_aligned_mask: "(x AND - 4) AND 3 = (0 :: u32)"
proof -
  have "(- 4 :: u32) = NOT 3" by simp
  then show ?thesis by (metis and.assoc bit.conj_cancel_left bit.conj_zero_right)
qed

lemma wf_cpu_updates [wf_intros]:
  assumes "wf_cpu s"
  shows "wf_cpu (set_gpr i v s)" "wf_cpu (set_fpr i w s)" "wf_cpu (set_vr i x s)"
    "wf_cpu (record_cr crfd n s)" "wf_cpu (record_cr0 v s)" "wf_cpu (record_cr1 s)"
    "wf_cpu (record_cr6 x b s)" "wf_cpu (increment_pc 4 s)"
  using assms
  by (simp_all add: wf_cpu_def set_gpr_def set_fpr_def set_vr_def record_cr_def record_cr0_def
      record_cr1_def record_cr6_def increment_pc_def pc_add_4)

lemma wf_cpu_fields [wf_intros]:
  assumes "wf_cpu s"
  shows "wf_xer x \<Longrightarrow> wf_cpu (s\<lparr>xer := x\<rparr>)" "wf_cpu (s\<lparr>cr := c\<rparr>)" "wf_cpu (s\<lparr>lr := l\<rparr>)"
    "wf_cpu (s\<lparr>ctr := c'\<rparr>)" "wf_cpu (s\<lparr>fpscr := f\<rparr>)" "wf_cpu (s\<lparr>vscr := v\<rparr>)"
    "wf_cpu (s\<lparr>vrsave := v\<rparr>)" "wf_cpu (s\<lparr>mem := m\<rparr>)" "wf_cpu (s\<lparr>host_round := r\<rparr>)"
    "wf_cpu (s\<lparr>gpr := g\<rparr>)" "wf_cpu (s\<lparr>vr := w\<rparr>)" "wf_cpu (s\<lparr>fpr := fp\<rparr>)"
    "wf_cpu (s\<lparr>spcflags := sf\<rparr>)"
  using assms by (simp_all add: wf_cpu_def)

lemma wf_cpu_xer: "wf_cpu s \<Longrightarrow> wf_xer (xer s)"
  by (simp add: wf_cpu_def)

lemma wf_operand_set [wf_intros]: "wf_cpu s \<Longrightarrow> wf_result (operand_set x opcode v s)"
  by (cases x) (simp_all add: wf_intros)

text \<open>What an instruction leaves alone when it writes one general register.\<close>

lemma operand_set_gpr_simps [simp]:
  "gpr (set_gpr i v s) = (gpr s)(i := v)" "pc (set_gpr i v s) = pc s" "cr (set_gpr i v s) = cr s"
  "xer (set_gpr i v s) = xer s" "mem (set_gpr i v s) = mem s" "lr (set_gpr i v s) = lr s"
  "ctr (set_gpr i v s) = ctr s"
  by (simp_all add: set_gpr_def)

lemma increment_pc_simps [simp]:
  "gpr (increment_pc n s) = gpr s" "pc (increment_pc n s) = pc s + n" "cr (increment_pc n s) = cr s"
  "xer (increment_pc n s) = xer s" "mem (increment_pc n s) = mem s" "lr (increment_pc n s) = lr s"
  "ctr (increment_pc n s) = ctr s" "vr (increment_pc n s) = vr s" "fpr (increment_pc n s) = fpr s"
  "fpscr (increment_pc n s) = fpscr s" "vscr (increment_pc n s) = vscr s"
  "reserve_valid (increment_pc n s) = reserve_valid s" "reserve_addr (increment_pc n s) = reserve_addr s"
  "cache_start (increment_pc n s) = cache_start s" "cache_end (increment_pc n s) = cache_end s"
  "spcflags (increment_pc n s) = spcflags s" "clear_range_calls (increment_pc n s) = clear_range_calls s"
  "vrsave (increment_pc n s) = vrsave s" "host_round (increment_pc n s) = host_round s"
  by (simp_all add: increment_pc_def)

lemma record_cr_simps [simp]:
  "gpr (record_cr f v s) = gpr s" "pc (record_cr f v s) = pc s" "xer (record_cr f v s) = xer s"
  "mem (record_cr f v s) = mem s" "lr (record_cr f v s) = lr s" "ctr (record_cr f v s) = ctr s"
  by (simp_all add: record_cr_def)

lemma record_cr0_simps [simp]:
  "gpr (record_cr0 v s) = gpr s" "pc (record_cr0 v s) = pc s" "xer (record_cr0 v s) = xer s"
  "mem (record_cr0 v s) = mem s"
  by (simp_all add: record_cr0_def)

end
