(* ===== verification/PPC_Word_Arith.thy ===== *)
theory PPC_Word_Arith
  imports PPC_Prelude "HOL-Library.Signed_Division"
begin

unbundle bit_operations_syntax

text \<open>
  Generic facts that relate 32-bit and 64-bit words with the integers they stand for:
  sign bits, carries out of sums and products, and right shifts as divisions.
\<close>

lemma bit31_iff: "bit (x :: u32) 31 \<longleftrightarrow> 2 ^ 31 \<le> uint x"
proof -
  have "bit x 31 \<longleftrightarrow> odd (uint x div 2 ^ 31)"
    using bit_uint_iff[of x 31] bit_iff_odd[of "uint x" 31] by simp
  moreover have "uint x div 2 ^ 31 = (if 2 ^ 31 \<le> uint x then 1 else 0)"
    using uint_lt2p[of x] uint_ge_0[of x] by auto
  ultimately show ?thesis by auto
qed

lemma sint_u32: "sint (x :: u32) = (if 2 ^ 31 \<le> uint x then uint x - 2 ^ 32 else uint x)"
proof -
  have "take_bit 32 (uint x) = uint x" using uint_lt2p[of x] by (simp add: take_bit_int_eq_self)
  then show ?thesis
  using bit31_iff[of x] 
  by (simp add: sint_uint signed_take_bit_eq_take_bit_minus  bit_uint_iff) 
qed

lemma drop_neq_0: "drop_bit n (w :: 'a::len word) \<noteq> 0 \<longleftrightarrow> 2 ^ n \<le> uint w"
proof -
  have "drop_bit n w = 0 \<longleftrightarrow> uint (drop_bit n w) = 0" by (simp only: uint_0_iff)
  also have "uint (drop_bit n w) = uint w div 2 ^ n" 
    by (simp add: unsigned_drop_bit_eq drop_bit_eq_div[of n "uint w"] take_bit_int_eq_self uint_lt2p)
  finally show ?thesis
    using uint_ge_0[of w] pos_imp_zdiv_pos_iff[of "2 ^ n" "uint w"] pos_imp_zdiv_nonneg_iff[of "2 ^ n" "uint w"]
    by (auto simp: order.order_iff_strict)
qed

lemma bit_signed_range:
  fixes v :: int
  assumes "- (2 ^ 32) \<le> v" "v < 2 ^ 32"
  shows "(bit v 63 \<noteq> bit v 31) \<longleftrightarrow> v < - (2 ^ 31) \<or> 2 ^ 31 \<le> v"
proof -
  have "bit v 63 \<longleftrightarrow> odd (v div 2 ^ 63)" "bit v 31 \<longleftrightarrow> odd (v div 2 ^ 31)"
    by (simp_all only: bit_iff_odd)
  moreover have "v div 2 ^ 63 = (if v < 0 then - 1 else 0)" using assms by auto
  moreover have "v div 2 ^ 31 = (if v < - (2 ^ 31) then - 2 else if v < 0 then - 1 else if v < 2 ^ 31 then 0 else 1)" using assms by auto
  ultimately show ?thesis by auto
qed

lemma drop_top_bit: "Suc n = LENGTH('a) \<Longrightarrow> drop_bit n (x :: 'a::len word) = of_flag (bit x n)"
proof (rule bit_word_eqI)
  fix k assume "Suc n = LENGTH('a)"
  then have "bit x (n + k) \<Longrightarrow> k = 0" using bit_imp_le_length[of x "n + k"] by auto
  then show "bit (drop_bit n x) k = bit (of_flag (bit x n) :: 'a word) k"
    by (auto simp: bit_drop_bit_eq bit_of_flag_iff)
qed

lemma of_flag_xor: "(of_flag p XOR of_flag q :: 'a::len word) \<noteq> 0 \<longleftrightarrow> p \<noteq> q"
  by (cases p; cases q) simp_all

lemma ucast_of_flag [simp]: "(ucast (of_flag b :: 'a::len word) :: 'b::len word) = of_flag b"
  by (cases b) simp_all

lemma uint_ucast_up: "LENGTH('a) \<le> LENGTH('b) \<Longrightarrow> uint (ucast (a :: 'a::len word) :: 'b::len word) = uint a"
  using uint_lt2p[of a] uint_ge_0[of a] power_increasing[of "LENGTH('a)" "LENGTH('b)" "2 :: int"]
  by (subst unsigned_ucast_eq, intro take_bit_int_eq_self) linarith+

lemma uint_mult_cast:
  fixes a b :: u32
  shows "uint ((ucast a :: u64) * ucast b) = uint a * uint b"
proof -
  have "uint a * uint b < 2 ^ 32 * 2 ^ 32"
    using uint_lt2p[of a] uint_lt2p[of b] uint_ge_0[of b] by (intro mult_strict_mono) auto
  then show ?thesis
    by (simp add: uint_word_ariths uint_ucast_up)
qed

lemma sint_mult_cast:
  fixes a b :: u32
  shows "sint ((scast a :: u64) * scast b) = sint a * sint b"
proof -
  have r: "\<bar>sint x\<bar> \<le> 2 ^ 31" for x :: u32
    using sint_greater_eq[of x] sint_less[of x] by simp
  have "\<bar>sint a * sint b\<bar> \<le> 2 ^ 31 * 2 ^ 31"
    unfolding abs_mult by (intro mult_mono r) auto
  then have "signed_take_bit 63 (sint a * sint b) = sint a * sint b"
    by (intro signed_take_bit_int_eq_self) (simp_all add: abs_le_iff)
  moreover have "(scast a :: u64) * scast b = word_of_int (sint a * sint b)"
    by (simp only: scast_eq of_int_mult)
  moreover have "sint (word_of_int v :: u64) = signed_take_bit 63 v" for v
    by (simp add: signed_of_int)
  ultimately show ?thesis by (simp only:)
qed

lemma sint_u64: "sint (x :: u64) = (if 2 ^ 63 \<le> uint x then uint x - 2 ^ 64 else uint x)"
proof -
  have "bit x 63 \<longleftrightarrow> odd (uint x div 2 ^ 63)"
    using bit_uint_iff[of x 63] bit_iff_odd[of "uint x" 63] by simp
  moreover have "uint x div 2 ^ 63 = (if 2 ^ 63 \<le> uint x then 1 else 0)"
    using uint_lt2p[of x] uint_ge_0[of x] by auto
  moreover have "take_bit 64 (uint x) = uint x" using uint_lt2p[of x] by (simp add: take_bit_int_eq_self)
  ultimately show ?thesis
    by (simp add: sint_uint signed_take_bit_eq_take_bit_minus bit_uint_iff)
qed

lemma high_bits_zero: "(w :: u64) AND 0xffffffff80000000 = 0 \<longleftrightarrow> uint w < 2 ^ 31"
proof -
  have m: "(0xffffffff80000000 :: u64) = push_bit 31 (mask 33)"
    by (simp add: mask_eq_exp_minus_1 push_bit_eq_mult)
  have "w AND push_bit 31 (mask 33) = push_bit 31 (drop_bit 31 w)"
    by (rule bit_word_eqI) (auto simp: bit_and_iff bit_push_bit_iff bit_mask_iff bit_drop_bit_eq dest: bit_imp_le_length)
  moreover have "push_bit 31 (drop_bit 31 w) = 0 \<longleftrightarrow> drop_bit 31 w = 0"
  proof safe
    assume z: "push_bit 31 (drop_bit 31 w) = 0"
    have "\<not> bit w (31 + n)" for n
      using z bit_imp_le_length[of w "31 + n"] unfolding bit_eq_iff[of "push_bit 31 (drop_bit 31 w)"]
      by (auto simp: bit_push_bit_iff bit_drop_bit_eq)
    then show "drop_bit 31 w = 0" by (intro bit_word_eqI) (simp add: bit_drop_bit_eq)
  qed simp
  ultimately show ?thesis unfolding m using drop_neq_0[of 31 w] by auto
qed

lemma u64_range: "0 \<le> uint (w :: u64)" "uint (w :: u64) < 18446744073709551616"
  using uint_lt2p[of w] by simp_all

lemma u64_cases:
  fixes w :: u64
  obtains x where "uint w = x" "0 \<le> x" "x < 18446744073709551616"
  using u64_range[of w] by blast

lemma u32_cases:
  fixes w :: u32
  obtains x where "uint w = x" "0 \<le> x" "x < 4294967296"
  using uint_lt2p[of w] that[of "uint w"] by simp

lemma uint_not_u64: "uint (NOT (w :: u64)) = 2 ^ 64 - 1 - uint w"
proof -
  have "NOT w = - 1 - w" by (simp add: not_eq_complement)
  then have "uint (NOT w) = (2 ^ 64 - 1 - uint w) mod 2 ^ 64" by (simp add: uint_word_ariths)
  also have "\<dots> = 2 ^ 64 - 1 - uint w"
    by (rule u64_cases[of w]) simp
  finally show ?thesis .
qed

lemma sign_bit_iff: "(r :: u32) AND 0x80000000 \<noteq> 0 \<longleftrightarrow> sint r < 0"
proof -
  have "(0x80000000 :: u32) = push_bit 31 1" by (simp add: push_bit_eq_mult)
  then have "r AND 0x80000000 \<noteq> 0 \<longleftrightarrow> bit r 31"
    by (simp only: bit_iff_and_push_bit_not_eq_0)
  then show ?thesis unfolding bit31_iff sint_u32 by - (rule u32_cases[of r], auto)
qed

lemma low_bits_iff: "n < 32 \<Longrightarrow> (r :: u32) AND NOT (push_bit n 0xffffffff) \<noteq> 0 \<longleftrightarrow> sint r mod 2 ^ n \<noteq> 0"
proof -
  assume n: "n < 32"
  have "r AND NOT (push_bit n 0xffffffff) = take_bit n r"
    unfolding ones32_eq_mask
    by (rule bit_word_eqI) (auto simp: bit_and_iff bit_not_iff bit_push_bit_iff bit_mask_iff bit_take_bit_iff)
  moreover have "take_bit n r = 0 \<longleftrightarrow> take_bit n (sint r) = 0"
  proof -
    have "take_bit n (sint r) = take_bit n (uint r)"
      using n by (simp add: sint_uint take_bit_signed_take_bit)
    moreover have "uint (take_bit n r) = take_bit n (uint r)" by (simp add: unsigned_take_bit_eq)
    ultimately show ?thesis by (metis uint_0_iff)
  qed
  ultimately show ?thesis by (simp add: take_bit_eq_mod)
qed

lemma shift_right_carry_truncates:
  fixes k l :: int
  assumes "0 < l"
  shows "k div l + (if k < 0 \<and> k mod l \<noteq> 0 then 1 else 0) = k sdiv l"
proof (cases "k < 0")
  case True
  then have "k sdiv l = - ((- k) div l)" using assms by (simp add: signed_divide_int_def)
  also have "\<dots> = k div l + (if k mod l = 0 then 0 else 1)"
    using zdiv_zminus1_eq_if[of l k] assms by simp
  finally show ?thesis using True by simp
next
  case False
  then show ?thesis using assms by (cases "k = 0") (simp_all add: signed_divide_int_def)
qed

lemma sdiv_small: "\<bar>k\<bar> < l \<Longrightarrow> (k :: int) sdiv l = 0"
  by (simp add: signed_divide_int_def)

lemma bit5_iff: "n < 64 \<Longrightarrow> (n :: u32) AND 0x20 \<noteq> 0 \<longleftrightarrow> 32 \<le> n"
proof -
  assume n: "n < 64"
  have c: "(0x20 :: u32) = push_bit 5 1" by (simp add: push_bit_eq_mult)
  have "n AND 0x20 \<noteq> 0 \<longleftrightarrow> bit n 5" unfolding c by (simp only: bit_iff_and_push_bit_not_eq_0)
  also have "\<dots> \<longleftrightarrow> odd (unat n div 32)" 
  proof -
    have "bit (unat n) 5 = bit n 5" by (simp add: bit_unsigned_iff)
    then show ?thesis using bit_iff_odd[of "unat n" 5] by simp
  qed
  also have "unat n div 32 = (if 32 \<le> unat n then 1 else 0)" using n by (auto simp: word_less_nat_alt)
  finally show ?thesis by (auto simp: word_le_nat_alt)
qed

lemma uint_add3:
  fixes a b c :: u32
  shows "uint (a + b + c) = (uint a + uint b + uint c) mod 2 ^ 32"
  by (simp add: uint_word_ariths mod_simps)

lemma sum3_mod:
  fixes a b c :: int
  assumes "0 \<le> a" "a < 4294967296" "0 \<le> b" "b < 4294967296" "0 \<le> c" "c \<le> 1"
  shows "(a + b + c) mod 4294967296 = (if a + b + c < 4294967296 then a + b + c else a + b + c - 4294967296)"
proof (cases "a + b + c < 4294967296")
  case True then show ?thesis using assms by simp
next
  case False
  then have "(a + b + c - 4294967296) mod 4294967296 = a + b + c - 4294967296" using assms by (intro mod_pos_pos_trivial) linarith+
  then show ?thesis using False by simp
qed

lemma sint_neg_iff: "sint (x :: u32) < 0 \<longleftrightarrow> 2147483648 \<le> uint x"
  unfolding sint_u32 by (rule u32_cases[of x]) auto

lemma uint_not_u32: "uint (NOT (w :: u32)) = 4294967295 - uint w"
proof -
  have "NOT w = - 1 - w" by (simp add: not_eq_complement)
  then have "uint (NOT w) = (4294967295 - uint w) mod 4294967296" by (simp add: uint_word_ariths)
  also have "\<dots> = 4294967295 - uint w" by (rule u32_cases[of w]) simp
  finally show ?thesis .
qed

lemma not_sign: "(sint (NOT a) < 0) \<longleftrightarrow> \<not> sint (a :: u32) < 0"
  unfolding sint_neg_iff uint_not_u32 by (rule u32_cases[of a]) auto

end
