(* ===== verification/PPC_Integer.thy ===== *)
theory PPC_Integer
  imports PPC_Operands PPC_Word_Arith
begin

unbundle bit_operations_syntax

text \<open>
  The integer instruction handlers of \<^verbatim>\<open>ppc-execute.cpp\<close>: addition and
  subtraction, generic arithmetic, rotates, shifts, compares, condition-register
  logic, division and multiplication, with the arithmetic helpers of
  \<^verbatim>\<open>ppc-execute.hpp\<close>. Template arguments are ordinary arguments.
\<close>

definition update_xer :: "(powerpc_xer \<Rightarrow> powerpc_xer) \<Rightarrow> powerpc_cpu \<Rightarrow> powerpc_cpu" where
  "update_xer f s = s\<lparr>xer := f (xer s)\<rparr>"

definition upd_if :: "bool \<Rightarrow> ('a \<Rightarrow> 'a) \<Rightarrow> 'a \<Rightarrow> 'a" where
  "upd_if b f s = (if b then f s else s)"

section \<open>Carry and overflow\<close>

definition op_carry_add :: "u32 \<Rightarrow> u32 \<Rightarrow> u32 \<Rightarrow> bool" where
  "op_carry_add a b c \<longleftrightarrow>
     (let carry = (ucast a :: u64) + ucast b + ucast c in drop_bit 32 carry \<noteq> 0)"

definition op_overflow_add :: "u32 \<Rightarrow> u32 \<Rightarrow> u32 \<Rightarrow> bool" where
  "op_overflow_add a b c \<longleftrightarrow>
     (let overflow = (scast a :: u64) + scast b + scast c
      in drop_bit 63 overflow XOR ucast (drop_bit 31 (ucast overflow :: u32)) \<noteq> 0)"

fun op_overflow :: "int_op \<Rightarrow> u32 \<Rightarrow> u32 \<Rightarrow> u32 \<Rightarrow> bool" where
  "op_overflow (OP1 op_neg) a b c \<longleftrightarrow> a = 0x80000000"
| "op_overflow (OP2 op_add) a b c \<longleftrightarrow> op_overflow_add a b c"
| "op_overflow _ a b c \<longleftrightarrow> False"

section \<open>The handlers\<close>

definition execute_addition ::
  "operand \<Rightarrow> operand \<Rightarrow> operand \<Rightarrow> opcode_pred \<Rightarrow> opcode_pred \<Rightarrow> opcode_pred \<Rightarrow>
   u32 \<Rightarrow> powerpc_cpu \<Rightarrow> result" where
  "execute_addition RA RB RC CA OE Rc opcode s =
     (let a = operand_get RA s opcode;
          b = operand_get RB s opcode;
          c = operand_get RC s opcode;
          d = a + b + c;
          s = upd_if (pred_test CA opcode) (update_xer (xer_set_ca (op_carry_add a b c))) s;
          s = upd_if (pred_test OE opcode) (update_xer (xer_set_ov (op_overflow_add a b c))) s;
          s = upd_if (pred_test Rc opcode) (record_cr0 d) s
      in and_then (operand_set operand_RD opcode d s) (\<lambda>s. Inr (increment_pc 4 s)))"

definition execute_generic_arith ::
  "int_op \<Rightarrow> operand \<Rightarrow> operand \<Rightarrow> operand \<Rightarrow> operand \<Rightarrow> opcode_pred \<Rightarrow> opcode_pred \<Rightarrow>
   u32 \<Rightarrow> powerpc_cpu \<Rightarrow> result" where
  "execute_generic_arith OP RD RA RB RC OE Rc opcode s =
     (let a = operand_get RA s opcode;
          b = operand_get RB s opcode;
          c = operand_get RC s opcode;
          d = int_op_apply OP a b c;
          s = upd_if (pred_test OE opcode) (update_xer (xer_set_ov (op_overflow OP a b c))) s;
          s = upd_if (pred_test Rc opcode) (record_cr0 d) s
      in and_then (operand_set RD opcode d s) (\<lambda>s. Inr (increment_pc 4 s)))"

definition execute_rlwimi :: "operand \<Rightarrow> operand \<Rightarrow> opcode_pred \<Rightarrow> u32 \<Rightarrow> powerpc_cpu \<Rightarrow> result" where
  "execute_rlwimi SH MA Rc opcode s =
     (let n = operand_get SH s opcode;
          m = operand_get MA s opcode;
          rs = operand_get operand_RS s opcode;
          ra = operand_get operand_RA s opcode;
          d = op_ppc_rlwimi_apply rs n m ra;
          s = upd_if (pred_test Rc opcode) (record_cr0 d) s
      in and_then (operand_set operand_RA opcode d s) (\<lambda>s. Inr (increment_pc 4 s)))"

fun invalid_shift_value :: "op2 \<Rightarrow> u32 \<Rightarrow> u32" where
  "invalid_shift_value op_shra r = 0 - drop_bit 31 r"
| "invalid_shift_value _ r = 0"

definition shift_value :: "op2 \<Rightarrow> u32 \<Rightarrow> u32 \<Rightarrow> u32 \<times> bool" where
  "shift_value OP r n =
     (if n AND 0x20 \<noteq> 0
      then (let d = invalid_shift_value OP r in (d, drop_bit 31 d \<noteq> 0))
      else (op2_apply OP r n,
            r AND 0x80000000 \<noteq> 0 \<and> r AND NOT (push_bit (unat n) 0xffffffff) \<noteq> 0))"

definition execute_shift ::
  "op2 \<Rightarrow> operand \<Rightarrow> operand \<Rightarrow> operand \<Rightarrow> op1 \<Rightarrow> opcode_pred \<Rightarrow> opcode_pred \<Rightarrow>
   u32 \<Rightarrow> powerpc_cpu \<Rightarrow> result" where
  "execute_shift OP RD RA SH SO CA Rc opcode s =
     (let n = op1_apply SO (operand_get SH s opcode);
          r = operand_get RA s opcode;
          (d, ca) = shift_value OP r n;
          s = upd_if (pred_test CA opcode) (update_xer (xer_set_ca ca)) s;
          s = upd_if (pred_test Rc opcode) (record_cr0 d) s
      in and_then (operand_set RD opcode d s) (\<lambda>s. Inr (increment_pc 4 s)))"

datatype compare_type = CT_int32 | CT_uint32

primrec ct_value :: "compare_type \<Rightarrow> u32 \<Rightarrow> int" where
  "ct_value CT_int32 x = sint x"
| "ct_value CT_uint32 x = uint x"

definition execute_compare :: "operand \<Rightarrow> compare_type \<Rightarrow> u32 \<Rightarrow> powerpc_cpu \<Rightarrow> result" where
  "execute_compare RB CT opcode s =
     (let a = operand_get operand_RA s opcode;
          b = operand_get RB s opcode;
          crfd = regno crfD_field opcode;
          v = (if ct_value CT a < ct_value CT b then - 1
               else if ct_value CT a > ct_value CT b then 1 else 0)
      in Inr (increment_pc 4 (record_cr crfd v s)))"

definition execute_cr_op :: "op2 \<Rightarrow> u32 \<Rightarrow> powerpc_cpu \<Rightarrow> result" where
  "execute_cr_op OP opcode s =
     (let crbA = regno crbA_field opcode;
          a = drop_bit (31 - crbA) (cr s) AND 1;
          crbB = regno crbB_field opcode;
          b = drop_bit (31 - crbB) (cr s) AND 1;
          crbD = regno crbD_field opcode;
          d = op2_apply OP a b AND 1;
          s = s\<lparr>cr := (cr s AND NOT (push_bit (31 - crbD) 1)) OR push_bit (31 - crbD) d\<rparr>
      in Inr (increment_pc 4 s))"

definition do_execute_divide :: "bool \<Rightarrow> bool \<Rightarrow> u32 \<Rightarrow> u32 \<Rightarrow> powerpc_cpu \<Rightarrow> u32 \<times> powerpc_cpu" where
  "do_execute_divide SB OE RA RB s =
     (if RB = 0 \<or> (SB \<and> RA = 0x80000000 \<and> RB = - 1)
      then (if SB then signed_drop_bit 31 RA else 0, upd_if OE (update_xer (xer_set_ov True)) s)
      else (if SB then word_of_int (sint RA sdiv sint RB) else RA div RB,
            upd_if OE (update_xer (xer_set_ov False)) s))"

definition execute_divide :: "bool \<Rightarrow> opcode_pred \<Rightarrow> opcode_pred \<Rightarrow> u32 \<Rightarrow> powerpc_cpu \<Rightarrow> result" where
  "execute_divide SB OE Rc opcode s =
     (let a = operand_get operand_RA s opcode;
          b = operand_get operand_RB s opcode;
          (d, s) = (if pred_test OE opcode then do_execute_divide SB True a b s
                    else do_execute_divide SB False a b s);
          s = upd_if (pred_test Rc opcode) (record_cr0 d) s
      in and_then (operand_set operand_RD opcode d s) (\<lambda>s. Inr (increment_pc 4 s)))"

definition multiply_product :: "bool \<Rightarrow> u32 \<Rightarrow> u32 \<Rightarrow> u64" where
  "multiply_product SB a b = (if SB then scast a * scast b else ucast a * ucast b)"

definition multiply_overflow :: "u64 \<Rightarrow> bool" where
  "multiply_overflow d \<longleftrightarrow>
     d AND 0xffffffff80000000 \<noteq> 0 \<and> d AND 0xffffffff80000000 \<noteq> 0xffffffff80000000"

definition execute_multiply ::
  "bool \<Rightarrow> bool \<Rightarrow> opcode_pred \<Rightarrow> opcode_pred \<Rightarrow> u32 \<Rightarrow> powerpc_cpu \<Rightarrow> result" where
  "execute_multiply HI SB OE Rc opcode s =
     (let a = operand_get operand_RA s opcode;
          b = operand_get operand_RB s opcode;
          d = multiply_product SB a b;
          s = upd_if (pred_test OE opcode) (update_xer (xer_set_ov (multiply_overflow d))) s;
          d = (if HI then drop_bit 32 d else d);
          s = upd_if (pred_test Rc opcode) (record_cr0 (ucast d)) s
      in and_then (operand_set operand_RD opcode (ucast d) s) (\<lambda>s. Inr (increment_pc 4 s)))"

section \<open>The arithmetic helpers shared with the code generator\<close>

definition do_execute_addition ::
  "bool \<Rightarrow> bool \<Rightarrow> bool \<Rightarrow> u32 \<Rightarrow> u32 \<Rightarrow> powerpc_cpu \<Rightarrow> u32 \<times> powerpc_cpu" where
  "do_execute_addition ext CA OE RA RB s =
     (let RD = RA + RB + (if ext then ucast (xer_ca (xer s)) else 0);
          sA = sint RA < 0; sB = sint RB < 0; sD = sint RD < 0;
          s = (if ext then update_xer (xer_set_ca (sB \<noteq> ((sB \<noteq> sA) \<and> (sA \<noteq> sD)))) s
               else if CA then update_xer (xer_set_ca (RD < RA)) s
               else s);
          s = upd_if OE (update_xer (xer_set_ov ((sB \<noteq> sD) \<and> (sA \<noteq> sD)))) s
      in (RD, s))"

definition do_execute_subtract ::
  "bool \<Rightarrow> bool \<Rightarrow> u32 \<Rightarrow> u32 \<Rightarrow> powerpc_cpu \<Rightarrow> u32 \<times> powerpc_cpu" where
  "do_execute_subtract CA OE RA RB s =
     (let RD = RB - RA;
          sA = sint RA < 0; sB = sint RB < 0; sD = sint RD < 0;
          s = upd_if CA (update_xer (xer_set_ca (RD \<le> RB))) s;
          s = upd_if OE (update_xer (xer_set_ov ((sA \<noteq> sB) \<and> (sD \<noteq> sB)))) s
      in (RD, s))"

definition do_execute_subtract_extended ::
  "bool \<Rightarrow> u32 \<Rightarrow> u32 \<Rightarrow> powerpc_cpu \<Rightarrow> u32 \<times> powerpc_cpu" where
  "do_execute_subtract_extended OE RA RB s =
     (let RD = NOT RA + RB + ucast (xer_ca (xer s));
          sA = sint RA < 0; sB = sint RB < 0; sD = sint RD < 0;
          s = update_xer (xer_set_ca ((\<not> sA) \<noteq> ((sA \<noteq> sD) \<and> (sB \<noteq> sD)))) s;
          s = upd_if OE (update_xer (xer_set_ov ((sA \<noteq> sB) \<and> (sD \<noteq> sB)))) s
      in (RD, s))"

section \<open>Correctness of the arithmetic\<close>

lemma op_carry_add_iff: "op_carry_add a b c \<longleftrightarrow> 2 ^ 32 \<le> uint a + uint b + uint c"
proof -
  have "uint ((ucast a :: u64) + ucast b + ucast c) = uint a + uint b + uint c"
    using uint_lt2p[of a] uint_lt2p[of b] uint_lt2p[of c] 
    by (simp add: uint_word_ariths unsigned_ucast_eq take_bit_int_eq_self)
  then show ?thesis
    unfolding op_carry_add_def Let_def
    by (simp only: drop_neq_0)
qed

lemma op_overflow_add_bits:
  fixes w :: u64
  shows "drop_bit 63 w XOR ucast (drop_bit 31 (ucast w :: u32)) \<noteq> 0 \<longleftrightarrow> bit w 63 \<noteq> bit w 31"
proof -
  have a: "drop_bit 63 w = of_flag (bit w 63)" by (rule drop_top_bit) simp
  have b: "drop_bit 31 (ucast w :: u32) = of_flag (bit w 31)"
    by (subst drop_top_bit) (simp_all add: bit_unsigned_iff)
  show ?thesis unfolding a b ucast_of_flag of_flag_xor ..
qed

lemma op_overflow_add_iff: 
  assumes "- (2 ^ 32) \<le> sint a + sint b + sint c" "sint a + sint b + sint c < 2 ^ 32"
  shows "op_overflow_add a b c \<longleftrightarrow> sint a + sint b + sint c < - (2 ^ 31) \<or> 2 ^ 31 \<le> sint a + sint b + sint c"
proof -
  have w: "(scast a + scast b + scast c :: u64) = word_of_int (sint a + sint b + sint c)"
    by (simp only: scast_eq of_int_add)
  have b: "bit (word_of_int v :: u64) 63 = bit v 63" "bit (word_of_int v :: u64) 31 = bit v 31" for v
    by (simp_all add: bit_word_of_int_iff)
  show ?thesis
    unfolding op_overflow_add_def Let_def op_overflow_add_bits w b by (rule bit_signed_range[OF assms])
qed

lemma multiply_overflow_iff:
  "multiply_overflow w \<longleftrightarrow> sint w < - (2 ^ 31) \<or> 2 ^ 31 \<le> sint w"
proof -
  have h: "w AND h = h \<longleftrightarrow> NOT w AND h = 0" for h :: u64
    by (auto simp: bit_eq_iff bit_and_iff bit_not_iff dest: bit_imp_le_length)
  have "multiply_overflow w \<longleftrightarrow> 2 ^ 31 \<le> uint w \<and> uint w < 2 ^ 64 - 2 ^ 31"
    unfolding multiply_overflow_def h high_bits_zero uint_not_u64 by auto
  then show ?thesis unfolding sint_u64 by - (rule u64_cases[of w], auto)
qed

lemma shift_value_shra:
  assumes "n < 64"
  shows "case shift_value op_shra r n of (d, ca) \<Rightarrow>
     sint d = sint r div 2 ^ unat n \<and> sint d + (if ca then 1 else 0) = sint r sdiv 2 ^ unat n"
proof (cases "32 \<le> n")
  case True
  have r: "- 2147483648 \<le> sint r" "sint r < 2147483648" using sint_greater_eq[of r] sint_less[of r] by simp_all
  have "32 \<le> unat n" using True by (simp add: word_le_nat_alt)
  then have p: "(4294967296 :: int) \<le> 2 ^ unat n" using power_increasing[of 32 "unat n" "2::int"] by simp
  have d: "drop_bit 31 r = of_flag (sint r < 0)"
    using drop_top_bit[of 31 r] sign_bit_iff[of r] bit31_iff[of r] sint_u32[of r] 
    by (simp) (rule u32_cases[of r], auto)
  have "sint r div 2 ^ unat n = (if sint r < 0 then - 1 else 0)"
  proof (cases "sint r < 0")
    case True
    then have "(sint r + 2 ^ unat n) div 2 ^ unat n = 0"
      using r p by (intro div_pos_pos_trivial) linarith+
    then show ?thesis using True by (simp add: div_add_self2)
  qed (use r p in simp)
  moreover have "sint r sdiv 2 ^ unat n = 0" using r p by (intro sdiv_small) auto
  ultimately show ?thesis using bit5_iff[OF assms] True 
    by (simp add: shift_value_def d Let_def)
next
  case False
  then have n: "unat n < 32" by (simp add: word_le_nat_alt)
  have "sint (op_shra_apply r n) = sint r div 2 ^ unat n"
    by (simp add: op_shra_apply_def sint_signed_drop_bit_eq drop_bit_eq_div)
  then show ?thesis using bit5_iff[OF assms] False sign_bit_iff[of r] low_bits_iff[OF n, of r]
     shift_right_carry_truncates[of "2 ^ unat n" "sint r"]
    by (simp add: shift_value_def)
qed

section \<open>The code generator helpers agree with the interpreter\<close>

lemma signs_carry:
  fixes a b c :: u32
  assumes "uint c \<le> 1"
  shows "(sint b < 0) \<noteq> (((sint b < 0) \<noteq> (sint a < 0)) \<and> ((sint a < 0) \<noteq> (sint (a + b + c) < 0))) \<longleftrightarrow> op_carry_add a b c"
  unfolding op_carry_add_iff sint_u32 uint_add3
  using assms sum3_mod[of "uint a" "uint b" "uint c"]
  by - (rule u32_cases[of a]; rule u32_cases[of b]; rule u32_cases[of c]; auto split: if_splits)

lemma signs_overflow:
  fixes a b c :: u32
  assumes "uint c \<le> 1"
  shows "((sint b < 0) \<noteq> (sint (a + b + c) < 0)) \<and> ((sint a < 0) \<noteq> (sint (a + b + c) < 0)) \<longleftrightarrow> op_overflow_add a b c"
proof -
  have c: "sint c = uint c" using assms unfolding sint_u32 by simp
  show ?thesis
  unfolding sint_neg_iff uint_add3
    using assms sum3_mod[of "uint a" "uint b" "uint c"]
    by (subst op_overflow_add_iff; unfold c sint_u32)
       (rule u32_cases[of a]; rule u32_cases[of b]; rule u32_cases[of c]; auto split: if_splits)+
qed

lemma do_execute_addition_eq:
  assumes "wf_cpu s"
  defines "c \<equiv> \<lambda>ext. if ext then ucast (xer_ca (xer s)) else 0"
  shows "do_execute_addition ext CA OE a b s =
    (a + b + c ext,
     upd_if OE (update_xer (xer_set_ov (op_overflow_add a b (c ext))))
       (upd_if (ext \<or> CA) (update_xer (xer_set_ca (op_carry_add a b (c ext)))) s))"
proof -
  have "xer_ca (xer s) = 0 \<or> xer_ca (xer s) = 1"
    using assms by (auto simp: wf_cpu_def wf_xer_def u8_le_1_cases)
  then have c1: "uint (c ext) \<le> 1" by (auto simp: c_def)
  have cc: "(if ext then ucast (xer_ca (xer s)) else 0) = c ext" by (simp add: c_def)
  have "a + b < a \<longleftrightarrow> op_carry_add a b 0"
    unfolding op_carry_add_iff word_less_def using sum3_mod[of "uint a" "uint b" 0] uint_add3[of a b 0]
    by - (rule u32_cases[of a]; rule u32_cases[of b]; auto split: if_splits)
  then have ca: "\<not> ext \<Longrightarrow> a + b + c ext < a \<longleftrightarrow> op_carry_add a b (c ext)"
    by (simp add: c_def)
  show ?thesis
    using ca unfolding do_execute_addition_def Let_def cc signs_carry[OF c1] signs_overflow[OF c1]
    by (cases ext) (simp_all add: upd_if_def)
qed

lemma do_execute_subtract_extended_eq:
  assumes "wf_cpu s"
  defines "c \<equiv> ucast (xer_ca (xer s))"
  shows "do_execute_subtract_extended OE a b s =
    (NOT a + b + c,
     upd_if OE (update_xer (xer_set_ov (op_overflow_add (NOT a) b c)))
       (update_xer (xer_set_ca (op_carry_add (NOT a) b c)) s))"
proof -
  have "xer_ca (xer s) = 0 \<or> xer_ca (xer s) = 1"
    using assms by (auto simp: wf_cpu_def wf_xer_def u8_le_1_cases)
  then have c1: "uint c \<le> 1" by (auto simp: c_def)
  show ?thesis
    unfolding do_execute_subtract_extended_def Let_def c_def[symmetric] signs_carry[OF c1, symmetric] signs_overflow[OF c1, symmetric] not_sign
    by (cases "sint a < 0"; cases "sint b < 0"; cases "sint (NOT a + b + c) < 0"; simp)
qed

lemma do_execute_subtract_eq:
  "do_execute_subtract CA OE a b s =
    (NOT a + b + 1,
     upd_if OE (update_xer (xer_set_ov (op_overflow_add (NOT a) b 1)))
       (upd_if CA (update_xer (xer_set_ca (op_carry_add (NOT a) b 1))) s))"
proof -
  have c1: "uint (1 :: u32) \<le> 1" by simp
  have d: "b - a = NOT a + b + 1" by (simp add: not_eq_complement)
  note n = uint_not_u32[of a]
  have "NOT a + b + 1 \<le> b \<longleftrightarrow> op_carry_add (NOT a) b 1"
    unfolding op_carry_add_iff word_le_def n uint_add3 using sum3_mod[of "uint (NOT a)" "uint b" 1] 
    by - (rule u32_cases[of a]; rule u32_cases[of b]; auto simp: n split: if_splits)
  then show ?thesis
    unfolding do_execute_subtract_def Let_def d signs_overflow[OF c1, symmetric] not_sign
    by (cases "sint a < 0"; cases "sint b < 0"; cases "sint (NOT a + b + 1) < 0"; simp)
qed

section \<open>The handlers keep the register-file invariant\<close>

lemma wf_upd_if [wf_intros]: "wf_cpu s \<Longrightarrow> (wf_cpu s \<Longrightarrow> wf_cpu (f s)) \<Longrightarrow> wf_cpu (upd_if b f s)"
  by (simp add: upd_if_def)

lemma wf_update_xer [wf_intros]:
  assumes "wf_cpu s"
  shows "wf_cpu (update_xer (xer_set_ca b) s)" "wf_cpu (update_xer (xer_set_ov b) s)"
  unfolding update_xer_def using assms by (auto intro!: wf_intros dest: wf_cpu_xer)

lemma wf_commit [wf_intros]:
  "wf_cpu s \<Longrightarrow> wf_result (and_then (operand_set RD opcode d s) (\<lambda>s. Inr (increment_pc 4 s)))"
  by (auto intro!: wf_intros)

lemma wf_execute_addition: "wf_cpu s \<Longrightarrow> wf_result (execute_addition RA RB RC CA OE Rc opcode s)"
  unfolding execute_addition_def Let_def by (intro wf_intros)

lemma wf_execute_generic_arith:
  "wf_cpu s \<Longrightarrow> wf_result (execute_generic_arith OP RD RA RB RC OE Rc opcode s)"
  unfolding execute_generic_arith_def Let_def by (intro wf_intros)

lemma wf_execute_rlwimi: "wf_cpu s \<Longrightarrow> wf_result (execute_rlwimi SH MA Rc opcode s)"
  unfolding execute_rlwimi_def Let_def by (intro wf_intros)

lemma wf_execute_shift: "wf_cpu s \<Longrightarrow> wf_result (execute_shift OP RD RA SH SO CA Rc opcode s)"
  unfolding execute_shift_def Let_def by (auto split: prod.split intro!: wf_intros)

lemma wf_execute_compare: "wf_cpu s \<Longrightarrow> wf_result (execute_compare RB CT opcode s)"
  unfolding execute_compare_def Let_def wf_result.simps by (intro wf_intros)

lemma wf_execute_cr_op: "wf_cpu s \<Longrightarrow> wf_result (execute_cr_op OP opcode s)"
  unfolding execute_cr_op_def Let_def wf_result.simps by (intro wf_intros)

lemma wf_do_execute_divide: "wf_cpu s \<Longrightarrow> wf_cpu (snd (do_execute_divide SB OE a b s))"
  unfolding do_execute_divide_def by (auto intro!: wf_intros)

lemma wf_execute_divide: "wf_cpu s \<Longrightarrow> wf_result (execute_divide SB OE Rc opcode s)"
  unfolding execute_divide_def Let_def
  by (auto split: prod.split intro!: wf_intros dest!: arg_cong[of _ _ snd] intro: wf_do_execute_divide)

lemma wf_execute_multiply: "wf_cpu s \<Longrightarrow> wf_result (execute_multiply HI SB OE Rc opcode s)"
  unfolding execute_multiply_def Let_def by (intro wf_intros)

section \<open>Functional behaviour of the handlers\<close>

lemma update_xer_simps [simp]:
  "gpr (update_xer f s) = gpr s" "pc (update_xer f s) = pc s" "cr (update_xer f s) = cr s"
  "mem (update_xer f s) = mem s" "xer (update_xer f s) = f (xer s)" "lr (update_xer f s) = lr s"
  "ctr (update_xer f s) = ctr s"
  by (simp_all add: update_xer_def)

lemma xer_flag_simps [simp]:
  "xer_ca (xer_set_ca b x) = of_flag b" "xer_ov (xer_set_ca b x) = xer_ov x" "xer_so (xer_set_ca b x) = xer_so x"
  "xer_ov (xer_set_ov b x) = of_flag b" "xer_ca (xer_set_ov b x) = xer_ca x"
  "xer_so (xer_set_ov b x) = xer_so x OR of_flag b"
  by (simp_all add: xer_set_ca_def xer_set_ov_def)

lemma record_cr0_cr:
  "cr (record_cr0 v s) = cr_set_field (cr s) 0 (cr_code (sint v) (xer_so (xer s) \<noteq> 0))"
  by (simp add: record_cr0_def record_cr_field)

lemma flag_eq_1: "(of_flag b :: 'a::len word) = 1 \<longleftrightarrow> b"
  by (simp add: of_flag_def)

text \<open>
  C6: The addition handler, whatever its operands and predicates: the destination gets the
  wrapped sum of the three operands and no other register changes; CA is the carry out of
  the unsigned sum, OV tells that the signed sum does not fit 32 bits and SO accumulates
  it, each only when its predicate selects it; CR0 records the signed result with the new
  SO; the program counter advances by one instruction and memory is untouched. The bound
  on the signed sum excludes operand triples that no table entry can produce.
\<close>

theorem addition_correct:
  assumes "a = operand_get RA s opcode" "b = operand_get RB s opcode" "c = operand_get RC s opcode"
    and "- (2 ^ 32) \<le> sint a + sint b + sint c" "sint a + sint b + sint c < 2 ^ 32"
  shows "\<exists>t. execute_addition RA RB RC CA OE Rc opcode s = Inr t \<and>
    gpr t = (gpr s)(regno rD_field opcode := a + b + c) \<and> pc t = pc s + 4 \<and> mem t = mem s \<and>
    (if pred_test CA opcode then xer_ca (xer t) = 1 \<longleftrightarrow> 2 ^ 32 \<le> uint a + uint b + uint c
     else xer_ca (xer t) = xer_ca (xer s)) \<and>
    (if pred_test OE opcode
     then (xer_ov (xer t) = 1 \<longleftrightarrow> \<not> (- (2 ^ 31) \<le> sint a + sint b + sint c \<and> sint a + sint b + sint c < 2 ^ 31)) \<and>
       xer_so (xer t) = xer_so (xer s) OR xer_ov (xer t)
     else xer_ov (xer t) = xer_ov (xer s) \<and> xer_so (xer t) = xer_so (xer s)) \<and>
    cr t = (if pred_test Rc opcode
      then cr_set_field (cr s) 0 (cr_code (sint (a + b + c)) (xer_so (xer t) \<noteq> 0)) else cr s)"
  using op_overflow_add_iff[OF assms(4,5)]
  by (simp add: execute_addition_def Let_def upd_if_def record_cr0_cr op_carry_add_iff flag_eq_1
      assms(1-3)[symmetric]) linarith?

theorem addition_correct_witness:
  "\<exists>t. execute_addition operand_RA operand_RB operand_NONE CA_BIT_0 OE_BIT_G RC_BIT_G 0x7c221e15
      (zero_cpu\<lparr>gpr := (\<lambda>_. 0)(2 := 0x7fffffff, 3 := 1)\<rparr>) = Inr t \<and>
    gpr t 1 = 0x80000000 \<and> xer_ov (xer t) = 1"
  using addition_correct[of "0x7fffffff" operand_RA "zero_cpu\<lparr>gpr := (\<lambda>_. 0)(2 := 0x7fffffff, 3 := 1)\<rparr>" "0x7c221e15"
      1 operand_RB 0 operand_NONE CA_BIT_0 OE_BIT_G RC_BIT_G]
  by (auto simp: eval_simps)

lemma low_word: "(ucast (word_of_int v :: u64) :: u32) = word_of_int v"
  by (rule bit_word_eqI) (simp add: bit_unsigned_iff bit_word_of_int_iff)

lemma high_word: "(ucast (drop_bit 32 (word_of_int v :: u64)) :: u32) = word_of_int (v div 2 ^ 32)"
proof (rule bit_word_eqI)
  fix n assume n: "n < LENGTH(32)"
  have "bit (v div 2 ^ 32) n = bit v (32 + n)"
    unfolding drop_bit_eq_div[symmetric] by (simp add: bit_drop_bit_eq)
  then show "bit (ucast (drop_bit 32 (word_of_int v :: u64)) :: u32) n = bit (word_of_int (v div 2 ^ 32) :: u32) n"
    using n by (simp only: bit_unsigned_iff bit_word_of_int_iff bit_drop_bit_eq comp_def possible_bit_word) simp
qed

lemma multiply_product_eq:
  "multiply_product SB a b = word_of_int (if SB then sint a * sint b else uint a * uint b)"
  unfolding multiply_product_def
  by (simp only: scast_eq ucast_eq of_int_mult split: if_split) simp

lemma product_low: "(word_of_int (if SB then sint a * sint b else uint a * uint b) :: u32) = a * b"
  by (simp only: of_int_mult of_int_sint of_int_uint split: if_split) simp

lemma multiply_product_sint: "sint (multiply_product True a b) = sint a * sint b"
  unfolding multiply_product_def using sint_mult_cast by simp

text \<open>
  The multiply handler stores the low word of the product, or its high word with the
  signedness the instruction asks for, and for the signed multiply-low with OE set the
  overflow flag says exactly that the product does not fit 32 bits.
\<close>

theorem multiply_correct:
  assumes "a = gpr s (regno rA_field opcode)" "b = gpr s (regno rB_field opcode)"
  shows "\<exists>t. execute_multiply HI SB OE Rc opcode s = Inr t \<and>
    gpr t = (gpr s)(regno rD_field opcode :=
      if HI then word_of_int ((if SB then sint a * sint b else uint a * uint b) div 2 ^ 32) else a * b) \<and>
    pc t = pc s + 4 \<and> mem t = mem s \<and>
    (SB \<and> pred_test OE opcode \<longrightarrow>
       (xer_ov (xer t) = 1 \<longleftrightarrow> \<not> (- (2 ^ 31) \<le> sint a * sint b \<and> sint a * sint b < 2 ^ 31)))"
proof -
  have o: "multiply_overflow (multiply_product True a b) \<longleftrightarrow> \<not> (- (2 ^ 31) \<le> sint a * sint b \<and> sint a * sint b < 2 ^ 31)"
    unfolding multiply_overflow_iff multiply_product_sint by linarith
  have d: "ucast (drop_bit 32 (multiply_product SB a b)) = (word_of_int ((if SB then sint a * sint b else uint a * uint b) div 2 ^ 32) :: u32)"
    "ucast (multiply_product SB a b) = a * b"
    unfolding multiply_product_eq high_word low_word product_low by (rule refl)+
  show ?thesis
    unfolding execute_multiply_def Let_def
    by (cases HI) (simp_all add: upd_if_def flag_eq_1 assms[symmetric] d o del: o_apply)
qed

theorem multiply_correct_witness:
  "\<exists>t. execute_multiply False True OE_BIT_G RC_BIT_G 0x7c221dd7
      (zero_cpu\<lparr>gpr := (\<lambda>_. 0)(2 := 0x10000, 3 := 0x10000)\<rparr>) = Inr t \<and>
    gpr t 1 = 0 \<and> xer_ov (xer t) = 1"
  using multiply_correct[of "0x10000" "zero_cpu\<lparr>gpr := (\<lambda>_. 0)(2 := 0x10000, 3 := 0x10000)\<rparr>" "0x7c221dd7"
      "0x10000" False True OE_BIT_G RC_BIT_G]
  by (auto simp: eval_simps)

lemma sdiv_remainder:
  fixes k l :: int
  assumes "l \<noteq> 0"
  shows "\<exists>r. k = l * (k sdiv l) + r \<and> \<bar>r\<bar> < \<bar>l\<bar> \<and> (r = 0 \<or> sgn r = sgn k)"
proof (intro exI conjI)
  show "k = l * (k sdiv l) + k smod l" by (simp add: mult_sdiv_smod_eq)
  show "\<bar>k smod l\<bar> < \<bar>l\<bar>" using assms by (simp add: signed_modulo_int_def abs_mult)
  have "0 \<le> \<bar>k\<bar> mod \<bar>l\<bar>" using assms by simp
  then show "k smod l = 0 \<or> sgn (k smod l) = sgn k"
    by (cases "\<bar>k\<bar> mod \<bar>l\<bar> = 0") (simp_all add: signed_modulo_int_def sgn_mult)
qed

lemma sdiv_range:
  fixes a b :: u32
  assumes "b \<noteq> 0" "\<not> (a = 0x80000000 \<and> b = - 1)"
  shows "sint (word_of_int (sint a sdiv sint b) :: u32) = sint a sdiv sint b"
proof -
  have a: "- 2147483648 \<le> sint a" "sint a < 2147483648" using sint_greater_eq[of a] sint_less[of a] by simp_all
  have a2: "sint a = - 2147483648 \<Longrightarrow> a = 0x80000000"
    by (rule signed_word_eqI) simp
  have b0: "sint b \<noteq> 0" "sint b = - 1 \<Longrightarrow> b = - 1"
    using assms(1) signed_word_eqI[of b 0] signed_word_eqI[of b "- 1"] by auto
  have l: "\<bar>sint a sdiv sint b\<bar> \<le> \<bar>sint a\<bar> div \<bar>sint b\<bar>"
  proof -
    have "0 \<le> \<bar>sint a\<bar> div \<bar>sint b\<bar>" using b0 by (simp add: pos_imp_zdiv_nonneg_iff)
    then show ?thesis
      by (simp add: signed_divide_int_def abs_mult sgn_if split: if_split del: abs_div)
  qed
  consider "sint b = 1" | "sint b = - 1" | "2 \<le> \<bar>sint b\<bar>" using b0 by linarith
  then have "- 2147483648 \<le> sint a sdiv sint b \<and> sint a sdiv sint b < 2147483648"
  proof cases
    case 3
    then have "\<bar>sint a\<bar> div \<bar>sint b\<bar> \<le> \<bar>sint a\<bar> div 2" by (intro zdiv_mono2) auto
    also have "\<dots> \<le> 1073741824" using a by simp
    finally show ?thesis using l by linarith
  qed (use a a2 b0 assms(2) in \<open>auto simp: order.order_iff_strict\<close>)
  then show ?thesis by (simp add: signed_of_int signed_take_bit_int_eq_self)
qed

text \<open>
  C34: Signed division truncates toward zero with a remainder smaller than the divisor and
  of the sign of the dividend; division by zero and the one overflowing quotient give the
  sign of the dividend in every bit and set OV and the sticky SO.
\<close>

theorem divide_signed_correct:
  assumes "a = gpr s (regno rA_field opcode)" "b = gpr s (regno rB_field opcode)"
  shows "\<exists>t. execute_divide True OE Rc opcode s = Inr t \<and>
    (\<forall>i. i \<noteq> regno rD_field opcode \<longrightarrow> gpr t i = gpr s i) \<and> pc t = pc s + 4 \<and> mem t = mem s \<and>
    (let d = gpr t (regno rD_field opcode)
     in if b = 0 \<or> sint a = - (2 ^ 31) \<and> sint b = - 1
        then d = (if sint a < 0 then - 1 else 0) \<and>
          (pred_test OE opcode \<longrightarrow> xer_ov (xer t) = 1 \<and> xer_so (xer t) \<noteq> 0)
        else (\<exists>r. sint a = sint b * sint d + r \<and> \<bar>r\<bar> < \<bar>sint b\<bar> \<and> (r = 0 \<or> sgn r = sgn (sint a))) \<and>
          (pred_test OE opcode \<longrightarrow> xer_ov (xer t) = 0 \<and> xer_so (xer t) = xer_so (xer s)))"
proof -
  have sint_range: "- 2147483648 \<le> sint a" "sint a < 2147483648" using sint_greater_eq[of a] sint_less[of a] by simp_all
  have o: "sint a = - (2 ^ 31) \<and> sint b = - 1 \<longleftrightarrow> a = 0x80000000 \<and> b = - 1"
    using signed_word_eqI[of a "0x80000000"] signed_word_eqI[of b "- 1"] by auto
  have ne: "b \<noteq> 0 \<Longrightarrow> sint b \<noteq> 0" using signed_word_eqI[of b 0] by auto
  have sd: "signed_drop_bit 31 a = (if sint a < 0 then - 1 else 0)"
    by (rule signed_word_eqI[where 'a = int]) (use sint_range in \<open>auto simp: sint_signed_drop_bit_eq drop_bit_eq_div\<close>)
  have so: "xer_so (xer s) OR 1 \<noteq> 0" by (metis bit.disj_conj_distrib or_eq_0_iff zero_neq_one) 
  show ?thesis
    unfolding execute_divide_def Let_def do_execute_divide_def assms[symmetric] operand_get.simps o
    using so sd sdiv_remainder[OF ne, of "sint a"] sdiv_range[of b a]
    by (simp add: upd_if_def split: if_split) 
qed

theorem divide_signed_correct_witness:
  "\<exists>t. execute_divide True OE_BIT_G RC_BIT_G 0x7c221fd7
      (zero_cpu\<lparr>gpr := (\<lambda>_. 0)(2 := 0xfffffff9, 3 := 0)\<rparr>) = Inr t \<and>
    gpr t 1 = 0xffffffff \<and> xer_ov (xer t) = 1"
  using divide_signed_correct[of "0xfffffff9" "zero_cpu\<lparr>gpr := (\<lambda>_. 0)(2 := 0xfffffff9, 3 := 0)\<rparr>" "0x7c221fd7"
      0 OE_BIT_G RC_BIT_G]
  by (auto simp: eval_simps)

lemma andi_3f_less: "(x :: u32) AND 0x3f < 64"
proof -
  have "(0x3f :: u32) = mask 6" by (simp add: mask_eq_exp_minus_1)
  then have "x AND 0x3f = take_bit 6 x" by (simp add: take_bit_eq_mask)
  then show ?thesis using take_bit_nat_less_exp[of 6 "unat x"] by (simp add: word_less_nat_alt unsigned_take_bit_eq)
qed

text \<open>
  \<^verbatim>\<open>sraw\<close> is the floor division by the power of two in the low six bits
  of rB, also for shift counts of 32 and more, and adding the carry it leaves in the XER
  gives the quotient truncated toward zero (the idiom \<^verbatim>\<open>sraw; addze\<close>).
\<close>

theorem shift_right_algebraic_divides:
  assumes "n = unat (gpr s (regno rB_field opcode) AND 0x3f)" "r = gpr s (regno rS_field opcode)"
  shows "\<exists>t. execute_shift op_shra operand_RA operand_RS operand_RB (op_andi 0x3f) CA_BIT_1 Rc opcode s = Inr t \<and>
    sint (gpr t (regno rA_field opcode)) = sint r div 2 ^ n \<and>
    sint (gpr t (regno rA_field opcode)) + uint (xer_ca (xer t)) = sint r sdiv 2 ^ n \<and>
    (\<forall>i. i \<noteq> regno rA_field opcode \<longrightarrow> gpr t i = gpr s i) \<and> pc t = pc s + 4"
  using shift_value_shra[OF andi_3f_less, of r "gpr s (regno rB_field opcode)"]
  by (simp add: execute_shift_def Let_def assms[symmetric] upd_if_def of_flag_def split: prod.splits if_splits)

theorem shift_right_algebraic_divides_witness:
  "\<exists>t. execute_shift op_shra operand_RA operand_RS operand_RB (op_andi 0x3f) CA_BIT_1 RC_BIT_G 0x7c221e30
      (zero_cpu\<lparr>gpr := (\<lambda>_. 0)(1 := 0xfffffff9, 3 := 1)\<rparr>) = Inr t \<and>
    sint (gpr t 2) = - 4 \<and> sint (gpr t 2) + uint (xer_ca (xer t)) = - 3"
  using shift_right_algebraic_divides[of 1 "zero_cpu\<lparr>gpr := (\<lambda>_. 0)(1 := 0xfffffff9, 3 := 1)\<rparr>" "0x7c221e30"
      "0xfffffff9" RC_BIT_G]
  by (auto simp: eval_simps)

lemma rlwinm_bit:
  assumes "n < 32" "p < 32"
  shows "bit (op_rotl_apply x n) (31 - p) \<longleftrightarrow> bit x (31 - (p + unat n) mod 32)"
proof -
  have n: "unat n < 32" using assms by (simp add: word_less_nat_alt)
  have "(31 - p + (32 - unat n mod 32)) mod 32 = 31 - (p + unat n) mod 32"
    using n assms(2) by (cases "p + unat n < 32") (auto simp: mod_if)
  then show ?thesis
    unfolding op_rotl_is_rotation[OF assms(1)] bit_word_rotl_iff using assms(2) by auto
qed

lemma field5_less_32: "wf_field f \<Longrightarrow> field_width f = 5 \<Longrightarrow> field_extract f v < 32"
  using field_extract_bound[of f v] by (simp add: word_less_nat_alt)

text \<open>
  \<^verbatim>\<open>rlwinm\<close> in PowerPC bit numbers: bit \<open>p\<close> of the result is bit
  \<open>p + SH\<close> (modulo 32) of the source inside the mask MB..ME, which wraps around when MB
  is beyond ME, and zero outside.
\<close>

theorem rlwinm_correct:
  assumes "p < 32"
  shows "\<exists>t. execute_generic_arith (OP3 op_ppc_rlwinm) operand_RA operand_RS operand_SH operand_MASK
        OE_BIT_0 Rc opcode s = Inr t \<and>
    (bit (gpr t (regno rA_field opcode)) (31 - p) \<longleftrightarrow>
       (if regno MB_field opcode \<le> regno ME_field opcode
        then regno MB_field opcode \<le> p \<and> p \<le> regno ME_field opcode
        else regno MB_field opcode \<le> p \<or> p \<le> regno ME_field opcode) \<and>
       bit (gpr s (regno rS_field opcode)) (31 - (p + regno SH_field opcode) mod 32)) \<and>
    (\<forall>i. i \<noteq> regno rA_field opcode \<longrightarrow> gpr t i = gpr s i) \<and> pc t = pc s + 4"
proof -
  have b: "field_extract MB_field opcode < 32" "field_extract ME_field opcode < 32" "field_extract SH_field opcode < 32"
    by (intro field5_less_32; simp add: wf_field_def field_width_def)+
  show ?thesis
    using bit_mask_operand_compute[OF b(1,2) assms] rlwinm_bit[OF b(3) assms]
    by (simp add: execute_generic_arith_def Let_def upd_if_def bit_and_iff regno_def word_le_nat_alt) blast
qed

theorem rlwinm_correct_witness:
  "\<exists>t. execute_generic_arith (OP3 op_ppc_rlwinm) operand_RA operand_RS operand_SH operand_MASK
        OE_BIT_0 RC_BIT_G 0x5422402e (zero_cpu\<lparr>gpr := (\<lambda>_. 0)(1 := 0x00800000)\<rparr>) = Inr t \<and> bit (gpr t 2) 31"
  using rlwinm_correct[of 0 RC_BIT_G "0x5422402e" "zero_cpu\<lparr>gpr := (\<lambda>_. 0)(1 := 0x00800000)\<rparr>"]
  by (auto simp: eval_simps)

text \<open>
  A compare writes one of LT, GT, EQ and the summary overflow into the CR field named by
  crfD, by the signed or the unsigned order, and leaves the seven other fields and all
  registers alone.
\<close>

theorem compare_correct:
  assumes "a = ct_value CT (gpr s (regno rA_field opcode))" "b = ct_value CT (operand_get RB s opcode)"
  shows "\<exists>t. execute_compare RB CT opcode s = Inr t \<and>
    cr_get_field (cr t) (regno crfD_field opcode) =
      (if a < b then 8 else if a > b then 4 else 2) OR of_flag (xer_so (xer s) \<noteq> 0) \<and>
    (\<forall>f < 8. f \<noteq> regno crfD_field opcode \<longrightarrow> cr_get_field (cr t) f = cr_get_field (cr s) f) \<and>
    gpr t = gpr s \<and> xer t = xer s \<and> pc t = pc s + 4"
proof -
  have f: "regno crfD_field opcode < 8"
    using regno_bound[of crfD_field opcode] by (simp add: wf_field_def field_width_def)
  show ?thesis
    by (auto simp: execute_compare_def Let_def record_cr_field cr_bank.get_set f cr_code_less assms cr_code_def[symmetric])
      (simp_all add: cr_code_def)
qed

theorem compare_correct_witness:
  "\<exists>t. execute_compare operand_RB CT_int32 0x7d021800
      (zero_cpu\<lparr>gpr := (\<lambda>_. 0)(2 := 0xffffffff, 3 := 1)\<rparr>) = Inr t \<and> cr_get_field (cr t) 2 = 8"
  using compare_correct[of "- 1" CT_int32 "zero_cpu\<lparr>gpr := (\<lambda>_. 0)(2 := 0xffffffff, 3 := 1)\<rparr>" "0x7d021800" 1 operand_RB]
  by (auto simp: eval_simps zero_cpu_def xer_init_def)

lemma bit_cr_bit: "k < 32 \<Longrightarrow> drop_bit (31 - k) (c :: u32) AND 1 = of_flag (bit c (31 - k))"
  by (rule bit_word_eqI) (auto simp: bit_and_iff bit_1_iff bit_drop_bit_eq bit_of_flag_iff)

lemma bit_cr_update: "k < 32 \<Longrightarrow> n < 32 \<Longrightarrow>
  bit ((c AND NOT (push_bit (31 - k) 1)) OR push_bit (31 - k) (of_flag d :: u32)) (31 - n) = (if n = k then d else bit c (31 - n))"
  by (auto simp: bit_or_iff bit_and_iff bit_not_iff bit_push_bit_iff bit_of_flag_iff bit_1_iff bit_exp_iff)

text \<open>The truth table of the condition-register operations.\<close>

fun cr_logic :: "op2 \<Rightarrow> bool \<Rightarrow> bool \<Rightarrow> bool" where
  "cr_logic op_and a b = (a \<and> b)"
| "cr_logic op_or a b = (a \<or> b)"
| "cr_logic op_xor a b = (a \<noteq> b)"
| "cr_logic op_nand a b = (\<not> (a \<and> b))"
| "cr_logic op_nor a b = (\<not> (a \<or> b))"
| "cr_logic op_eqv a b = (a = b)"
| "cr_logic op_andc a b = (a \<and> \<not> b)"
| "cr_logic op_orc a b = (a \<or> \<not> b)"
| "cr_logic _ a b = False"

definition cr_ops :: "op2 list" where
  "cr_ops = [op_and, op_andc, op_eqv, op_nand, op_nor, op_or, op_orc, op_xor]"

lemma cr_logic_apply:
  "OP \<in> set cr_ops \<Longrightarrow> op2_apply OP (of_flag a :: u32) (of_flag b) AND 1 = of_flag (cr_logic OP a b)"
  by (cases a; cases b; auto simp: cr_ops_def)

text \<open>
  Each condition-register operation sets CR bit crbD to its truth function of bits crbA
  and crbB and changes no other bit.
\<close>

theorem cr_op_correct:
  assumes "OP \<in> set cr_ops" "n < 32"
  shows "\<exists>t. execute_cr_op OP opcode s = Inr t \<and>
    bit (cr t) (31 - n) =
      (if n = regno crbD_field opcode
       then cr_logic OP (bit (cr s) (31 - regno crbA_field opcode)) (bit (cr s) (31 - regno crbB_field opcode))
       else bit (cr s) (31 - n)) \<and>
    gpr t = gpr s \<and> xer t = xer s \<and> pc t = pc s + 4"
proof -
  have r: "regno crbA_field opcode < 32" "regno crbB_field opcode < 32" "regno crbD_field opcode < 32"
    by (intro regno_less_32; simp add: wf_field_def field_width_def)+
  show ?thesis
    unfolding execute_cr_op_def Let_def bit_cr_bit[OF r(1)] bit_cr_bit[OF r(2)] cr_logic_apply[OF assms(1)]
    using bit_cr_update[OF r(3) assms(2)] by simp
qed

theorem cr_op_correct_witness:
  "\<exists>t. execute_cr_op op_nor 0x4c221842 zero_cpu = Inr t \<and> bit (cr t) 30"
  using cr_op_correct[of op_nor 1 "0x4c221842" zero_cpu]
  by (auto simp: eval_simps zero_cpu_def cr_ops_def)

text \<open>The common end of the arithmetic handlers: record CR0, store rD, advance.\<close>

definition commit_RD :: "opcode_pred \<Rightarrow> u32 \<Rightarrow> u32 \<times> powerpc_cpu \<Rightarrow> result" where
  "commit_RD Rc opcode = (\<lambda>(d, s). 
     and_then (operand_set operand_RD opcode d (upd_if (pred_test Rc opcode) (record_cr0 d) s)) (\<lambda>s. Inr (increment_pc 4 s)))"

text \<open>
  The addition and subtraction helpers that the code generator uses, which find the
  carry and the overflow with 32-bit comparisons and sign tests, have the same effect on
  the machine as the interpreter's handler, which computes them in 64 bits.
\<close>

theorem helpers_agree:
  assumes "wf_cpu s"
  shows "execute_addition operand_RA RB operand_NONE CA OE Rc opcode s =
      commit_RD Rc opcode (do_execute_addition False (pred_test CA opcode) (pred_test OE opcode)
        (operand_get operand_RA s opcode) (operand_get RB s opcode) s) \<and>
    execute_addition operand_RA RB operand_XER_CA CA_BIT_1 OE Rc opcode s =
      commit_RD Rc opcode (do_execute_addition True True (pred_test OE opcode)
        (operand_get operand_RA s opcode) (operand_get RB s opcode) s) \<and>
    execute_addition operand_RA_compl RB operand_ONE CA OE Rc opcode s =
      commit_RD Rc opcode (do_execute_subtract (pred_test CA opcode) (pred_test OE opcode)
        (operand_get operand_RA s opcode) (operand_get RB s opcode) s) \<and>
    execute_addition operand_RA_compl RB operand_XER_CA CA_BIT_1 OE Rc opcode s =
      commit_RD Rc opcode (do_execute_subtract_extended (pred_test OE opcode)
        (operand_get operand_RA s opcode) (operand_get RB s opcode) s)" 
  unfolding execute_addition_def commit_RD_def do_execute_addition_eq[OF assms] do_execute_subtract_eq
    do_execute_subtract_extended_eq[OF assms] Let_def
  by (simp_all add: xer_operand_get_def upd_if_def)

theorem helpers_agree_witness:
  "execute_addition operand_RA operand_RB operand_XER_CA CA_BIT_1 OE_BIT_0 RC_BIT_G 0x7c221914 zero_cpu =
     commit_RD RC_BIT_G 0x7c221914 (do_execute_addition True True False 0 0 zero_cpu)"
  using helpers_agree[of zero_cpu operand_RB CA_BIT_1 OE_BIT_0 RC_BIT_G "0x7c221914"]
  by simp

end
