(* ===== verification/PPC_Branch.thy ===== *)
theory PPC_Branch
  imports PPC_Integer
begin

unbundle bit_operations_syntax

text \<open>
  The branch handler of \<^verbatim>\<open>ppc-execute.cpp\<close>, one template for the four branch
  instructions: the count register is decremented before the target is read, the link
  register is written after it.
\<close>

definition branch_condition :: "u32 \<Rightarrow> u32 \<Rightarrow> powerpc_cpu \<Rightarrow> bool" where
  "branch_condition bo opcode s =
     (if BO_CONDITIONAL_BRANCH bo
      then (let cond_ok = cr_test (cr s) (regno BI_field opcode)
            in if \<not> BO_BRANCH_IF_TRUE bo then \<not> cond_ok else cond_ok)
      else True)"

definition branch_decrement :: "u32 \<Rightarrow> powerpc_cpu \<Rightarrow> bool \<times> powerpc_cpu" where
  "branch_decrement bo s =
     (if BO_DECREMENT_CTR bo
      then (let s = s\<lparr>ctr := ctr s - 1\<rparr>;
                ctr_ok = (ctr s = 0)
            in (if \<not> BO_BRANCH_IF_CTR_ZERO bo then \<not> ctr_ok else ctr_ok, s))
      else (True, s))"

definition execute_branch ::
  "operand \<Rightarrow> operand \<Rightarrow> operand \<Rightarrow> opcode_pred \<Rightarrow> opcode_pred \<Rightarrow> u32 \<Rightarrow> powerpc_cpu \<Rightarrow> result" where
  "execute_branch PC BO DP AA LK opcode s =
     (let bo = operand_get BO s opcode;
          cond_ok = branch_condition bo opcode s;
          (ctr_ok, s) = branch_decrement bo s;
          npc = pc s + 4;
          s = (if ctr_ok \<and> cond_ok
               then s\<lparr>pc := ((if pred_test AA opcode then 0 else operand_get PC s opcode) +
                               operand_get DP s opcode) AND - 4\<rparr>
               else s\<lparr>pc := npc\<rparr>);
          s = (if pred_test LK opcode then s\<lparr>lr := npc\<rparr> else s)
      in Inr s)"

section \<open>Conditions\<close>

lemma cr_test_bit: "n < 32 \<Longrightarrow> cr_test c n \<longleftrightarrow> bit c (31 - n)"
proof -
  assume n: "n < 32"
  have "(0x80000000 :: u32) = push_bit 31 1" by (simp add: push_bit_eq_mult)
  then have "cr_test c n \<longleftrightarrow> bit (push_bit n c) 31"
    unfolding cr_test_def by (simp only: bit_iff_and_push_bit_not_eq_0)
  with n show ?thesis by (simp add: bit_push_bit_iff)
qed

lemma cr_test_field:
  "f < 8 \<Longrightarrow> k < 4 \<Longrightarrow> cr_test c (4 * f + k) \<longleftrightarrow> bit (cr_get_field c f) (3 - k)"
  by (subst cr_test_bit) (auto simp: bit_cr_get_field algebra_simps intro!: arg_cong[of _ _ "bit c"])

lemma bit_cr_code:
  "bit (cr_code v so) 3 \<longleftrightarrow> v < 0" "bit (cr_code v so) 2 \<longleftrightarrow> v > 0" "bit (cr_code v so) 1 \<longleftrightarrow> v = 0"
  "bit (cr_code v so) 0 \<longleftrightarrow> so"
  by (auto simp: cr_code_def of_flag_def)

section \<open>Displacements\<close>

lemma word_of_int_4_mult: "bit (word_of_int (4 * x) :: u32) n \<longleftrightarrow> n < 32 \<and> 2 \<le> n \<and> bit x (n - 2)"
proof -
  have "4 * x = push_bit 2 x" by (simp add: push_bit_eq_mult)
  then show ?thesis by (auto simp: bit_word_of_int_iff bit_push_bit_iff)
qed

lemma LI_mask_bit: "bit (0xff000000 :: u32) n \<longleftrightarrow> 24 \<le> n \<and> n < 32"
proof -
  have "(0xff000000 :: u32) = push_bit 24 (mask 8)" by (simp add: mask_eq_exp_minus_1 push_bit_eq_mult)
  then show ?thesis by (simp only: bit_push_bit_iff bit_mask_iff) auto
qed

lemma sign_extend_LI:
  assumes "v < 2 ^ 24"
  shows "op_sign_extend_LI_32_apply v = word_of_int (4 * signed_take_bit 23 (uint v))"
proof (rule bit_word_eqI)
  fix n assume n: "n < LENGTH(32)"
  have c: "(0x800000 :: u32) = push_bit 23 1" by (simp add: push_bit_eq_mult)
  have s: "v AND 0x800000 \<noteq> 0 \<longleftrightarrow> bit v 23" unfolding c by (simp only: bit_iff_and_push_bit_not_eq_0)
  have v: "bit v k \<Longrightarrow> k < 24" for k
    using bit_less_2p[of v 24 k] assms by (simp add: word_less_nat_alt)
  define w where "w = (if bit v 23 then v OR 0xff000000 else v)"
  have w: "bit w k \<longleftrightarrow> k < 32 \<and> bit v (min 23 k)" for k
    using v[of k] unfolding w_def
    by (cases "k < 24") (auto simp only: bit_or_iff LI_mask_bit min_def split: if_splits, auto simp: not_less dest: v order.antisym)
  show "bit (op_sign_extend_LI_32_apply v) n = bit (word_of_int (4 * signed_take_bit 23 (uint v)) :: u32) n"
    unfolding word_of_int_4_mult op_sign_extend_LI_32_apply_def Let_def s w_def[symmetric]
    using n by (auto simp: bit_push_bit_iff w bit_signed_take_bit_iff bit_uint_iff)
qed

lemma sign_extend_BD:
  assumes "v < 2 ^ 14"
  shows "op_sign_extend_BD_32_apply v = word_of_int (4 * signed_take_bit 13 (uint v))"
proof (rule bit_word_eqI)
  fix n assume n: "n < LENGTH(32)"
  have v: "bit v k \<Longrightarrow> k < 14" for k
    using bit_less_2p[of v 14 k] assms by (simp add: word_less_nat_alt)
  show "bit (op_sign_extend_BD_32_apply v) n = bit (word_of_int (4 * signed_take_bit 13 (uint v)) :: u32) n"
    unfolding word_of_int_4_mult op_sign_extend_BD_32_apply_def op_sign_extend_16_32_apply_def
    using n
    by (auto simp: bit_push_bit_iff bit_signed_iff bit_unsigned_iff bit_signed_take_bit_iff bit_uint_iff min_def)
qed

lemma aligned_and_self: "(x :: u32) AND 3 = 0 \<Longrightarrow> x AND - 4 = x"
proof -
  assume z: "x AND 3 = 0"
  have m: "(3 :: u32) = mask 2" "(- 4 :: u32) = NOT (mask 2)" by (simp_all add: mask_eq_exp_minus_1)
  have "bit x k \<Longrightarrow> 2 \<le> k" for k
    using z bit_imp_le_length[of x k] unfolding m bit_eq_iff[of _ 0] bit_and_iff bit_mask_iff by auto
  then show "x AND - 4 = x"
    unfolding m by (intro bit_word_eqI) (auto simp: bit_and_iff bit_not_iff bit_mask_iff not_less)
qed

lemma and_3_iff_uint: "(x :: u32) AND 3 = 0 \<longleftrightarrow> 4 dvd uint x"
  unfolding and_3_iff uint_nat by presburger

lemma aligned_add: "(x :: u32) AND 3 = 0 \<Longrightarrow> (x + word_of_int (4 * v)) AND 3 = 0"
proof -
  assume "x AND 3 = 0"
  then have x: "4 dvd uint x" unfolding and_3_iff_uint .
  have "4 dvd (4 * v) mod 2 ^ 32" by (rule dvd_mod) simp_all
  then have "4 dvd uint (word_of_int (4 * v) :: u32)" unfolding uint_word_of_int by simp
  with x have "4 dvd (uint x + uint (word_of_int (4 * v) :: u32)) mod 2 ^ LENGTH(32)"
    by (intro dvd_mod dvd_add) simp_all
  then show ?thesis unfolding and_3_iff_uint uint_word_ariths(1) .
qed

lemma LI_less: "field_extract LI_field opcode < 2 ^ 24"
  using field_extract_bound[of LI_field opcode] by (simp add: word_less_nat_alt wf_field_def field_width_def)

lemma BD_less: "field_extract BD_field opcode < 2 ^ 14"
  using field_extract_bound[of BD_field opcode] by (simp add: word_less_nat_alt wf_field_def field_width_def)

text \<open>The signed displacements encoded in the instruction word, in bytes.\<close>

definition LI_displacement :: "u32 \<Rightarrow> int" where
  "LI_displacement opcode = 4 * signed_take_bit 23 (uint (field_extract LI_field opcode))"

definition BD_displacement :: "u32 \<Rightarrow> int" where
  "BD_displacement opcode = 4 * signed_take_bit 13 (uint (field_extract BD_field opcode))"

lemma branch_target_aligned:
  "(x :: u32) AND 3 = 0 \<Longrightarrow> (x + word_of_int (4 * v)) AND - 4 = x + word_of_int (4 * v)"
  by (intro aligned_and_self aligned_add)

lemma wf_execute_branch:
  assumes "wf_cpu s"
  shows "wf_result (execute_branch PC BO DP AA LK opcode s)"
proof -
  have "wf_cpu (snd (branch_decrement bo s))" for bo
    using assms by (simp add: branch_decrement_def Let_def wf_cpu_def)
  then have d: "branch_decrement bo s = (b, s') \<Longrightarrow> wf_cpu s'" for bo b s'
    by (metis snd_conv)
  show ?thesis
    unfolding execute_branch_def Let_def
    by (auto split: prod.split dest!: d simp: wf_cpu_def pc_aligned_mask pc_add_4)
qed

text \<open>
  \<^verbatim>\<open>b\<close>, \<^verbatim>\<open>bl\<close>, \<^verbatim>\<open>ba\<close> and \<^verbatim>\<open>bla\<close>: from an aligned
  program counter the target is the sign-extended 24-bit word displacement, relative or
  absolute as AA says, LK saves the return address, and neither the condition nor the count
  register is consulted or changed.
\<close>

theorem branch_unconditional:
  assumes "wf_cpu s"
  shows "execute_branch operand_PC (immediate_value (uint (BO_MAKE False False False False))) operand_LI AA_BIT_G LK_BIT_G opcode s =
    Inr (s\<lparr>pc := (if field_test AA_field opcode then 0 else pc s) + word_of_int (LI_displacement opcode),
            lr := if field_test LK_field opcode then pc s + 4 else lr s\<rparr>)"
proof -
  have bo: "word_of_int (uint (BO_MAKE False False False False)) = BO_MAKE False False False False" by simp
  have p: "pc s AND 3 = 0" using assms by (simp add: wf_cpu_def)
  show ?thesis
    unfolding execute_branch_def operand_get.simps bo branch_condition_def branch_decrement_def BO_MAKE_decodes Let_def
      op1_apply.simps sign_extend_LI[OF LI_less] LI_displacement_def[symmetric] 
    using branch_target_aligned[OF p] branch_target_aligned[of 0]
    by (simp add: LI_displacement_def del: of_int_mult)
qed

theorem branch_unconditional_witness:
  "execute_branch operand_PC (immediate_value (uint (BO_MAKE False False False False))) operand_LI AA_BIT_G LK_BIT_G
     0x4bfffffd (zero_cpu\<lparr>pc := 0x1000\<rparr>) = Inr (zero_cpu\<lparr>pc := 0xffc, lr := 0x1004\<rparr>)"
  using branch_unconditional[of "zero_cpu\<lparr>pc := 0x1000\<rparr>" "0x4bfffffd"]
  by (simp add: eval_simps LI_displacement_def wf_cpu_def wf_xer_init)

lemma execute_branch_bc:
  assumes "wf_cpu s" "bo = field_extract BO_field opcode"
  shows "execute_branch operand_PC operand_BO operand_BD AA_BIT_G LK_BIT_G opcode s =
    (let ctr' = (if BO_DECREMENT_CTR bo then ctr s - 1 else ctr s);
         taken = (BO_DECREMENT_CTR bo \<longrightarrow> (ctr' = 0) = BO_BRANCH_IF_CTR_ZERO bo) \<and>
                 (BO_CONDITIONAL_BRANCH bo \<longrightarrow> bit (cr s) (31 - regno BI_field opcode) = BO_BRANCH_IF_TRUE bo)
     in Inr (s\<lparr>ctr := ctr',
               pc := if taken then (if field_test AA_field opcode then 0 else pc s) + word_of_int (BD_displacement opcode)
                     else pc s + 4,
               lr := if field_test LK_field opcode then pc s + 4 else lr s\<rparr>))"
proof -
  have p: "pc s AND 3 = 0" using assms by (simp add: wf_cpu_def)
  have b: "regno BI_field opcode < 32" by (intro regno_less_32) (simp_all add: wf_field_def field_width_def)
  show ?thesis
    unfolding execute_branch_def operand_get.simps branch_condition_def branch_decrement_def Let_def
      op1_apply.simps sign_extend_BD[OF BD_less] BD_displacement_def[symmetric] cr_test_bit[OF b] assms(2)[symmetric]
    using branch_target_aligned[OF p] branch_target_aligned[of 0]
    by (cases "BO_DECREMENT_CTR bo"; cases "BO_CONDITIONAL_BRANCH bo"; cases "BO_BRANCH_IF_TRUE bo"; cases "BO_BRANCH_IF_CTR_ZERO bo"; cases "field_test AA_field opcode")
       (simp_all add: BD_displacement_def del: of_int_mult)
qed

text \<open>
  C8: \<^verbatim>\<open>bc\<close> for every BO value: the count register is decremented exactly when BO asks
  for it, the branch is taken exactly when the selected count and condition tests hold, the
  target is the sign-extended 14-bit word displacement, the link register is written whether
  or not the branch is taken, and nothing else changes.
\<close>

theorem branch_conditional:
  assumes "wf_cpu s" "bo = field_extract BO_field opcode"
  shows "execute_branch operand_PC operand_BO operand_BD AA_BIT_G LK_BIT_G opcode s =
    (let ctr' = (if BO_DECREMENT_CTR bo then ctr s - 1 else ctr s);
         taken = (BO_DECREMENT_CTR bo \<longrightarrow> (ctr' = 0) = BO_BRANCH_IF_CTR_ZERO bo) \<and>
                 (BO_CONDITIONAL_BRANCH bo \<longrightarrow> bit (cr s) (31 - regno BI_field opcode) = BO_BRANCH_IF_TRUE bo)
     in Inr (s\<lparr>ctr := ctr',
               pc := if taken then (if field_test AA_field opcode then 0 else pc s) + word_of_int (BD_displacement opcode)
                     else pc s + 4,
               lr := if field_test LK_field opcode then pc s + 4 else lr s\<rparr>))"
  using assms by (rule execute_branch_bc)

theorem branch_conditional_witness:
  "execute_branch operand_PC operand_BO operand_BD AA_BIT_G LK_BIT_G 0x41820010 (zero_cpu\<lparr>pc := 0x1000, cr := 0x20000000\<rparr>) =
    Inr (zero_cpu\<lparr>pc := 0x1010, cr := 0x20000000\<rparr>)"
  using branch_conditional[of "zero_cpu\<lparr>pc := 0x1000, cr := 0x20000000\<rparr>" 12 "0x41820010"]
  by (simp add: eval_simps BD_displacement_def wf_cpu_def wf_xer_init BO_DECREMENT_CTR_def BO_BRANCH_IF_CTR_ZERO_def BO_CONDITIONAL_BRANCH_def BO_BRANCH_IF_TRUE_def zero_cpu_def)

lemma compare_field_code:
  assumes "execute_compare RB CT opcode s = Inr t" 
  shows "cr_get_field (cr t) (regno crfD_field opcode) =
      cr_code (ct_value CT (gpr s (regno rA_field opcode)) - ct_value CT (operand_get RB s opcode)) (xer_so (xer s) \<noteq> 0)"
    and "pc t = pc s + 4" "ctr t = ctr s"
proof -
  have f: "regno crfD_field opcode < 8"
    using regno_bound[of crfD_field opcode] by (simp add: wf_field_def field_width_def)
  show "cr_get_field (cr t) (regno crfD_field opcode) =
      cr_code (ct_value CT (gpr s (regno rA_field opcode)) - ct_value CT (operand_get RB s opcode)) (xer_so (xer s) \<noteq> 0)"
    using assms
    by (auto simp: execute_compare_def Let_def record_cr_field cr_bank.get_set f cr_code_less)
      (auto simp: cr_code_def)
qed (use assms in \<open>auto simp: execute_compare_def Let_def\<close>)

text \<open>
  A compare followed by a conditional branch on the LT, GT or EQ bit of the same CR field
  branches exactly when the compared values are in that relation, in the signed or unsigned
  order of the compare.
\<close>

theorem compare_then_branch:
  assumes "execute_compare RB CT opcode s = Inr t"
    and "field_extract BO_field opcode' = BO_MAKE True sense False False"
    and "regno BI_field opcode' = 4 * regno crfD_field opcode + k" "k < 3"
    and "a = ct_value CT (gpr s (regno rA_field opcode))" "b = ct_value CT (operand_get RB s opcode)"
  shows "\<exists>u. execute_branch operand_PC operand_BO operand_BD AA_BIT_1 LK_BIT_0 opcode' t = Inr u \<and>
    pc u = (if (if k = 0 then a < b else if k = 1 then a > b else a = b) = sense
            then word_of_int (BD_displacement opcode') else pc s + 8) \<and> ctr u = ctr s"
proof -
  note c = compare_field_code[OF assms(1), folded assms(5,6)]
  have f: "regno crfD_field opcode < 8"
    using regno_bound[of crfD_field opcode] by (simp add: wf_field_def field_width_def)
  have "cr_test (cr t) (regno BI_field opcode') \<longleftrightarrow> bit (cr_code (a - b) (xer_so (xer s) \<noteq> 0)) (3 - k)"
    unfolding assms(3) cr_test_field[OF f less_trans[OF assms(4), of 4, simplified]] c(1) ..
  also have "\<dots> \<longleftrightarrow> (if k = 0 then a < b else if k = 1 then a > b else a = b)"
  proof -
    consider "k = 0" | "k = 1" | "k = 2" using assms(4) by linarith
    then show ?thesis by cases (auto simp: bit_cr_code bit_cr_code[unfolded One_nat_def])
  qed
  finally have d: "cr_test (cr t) (regno BI_field opcode') \<longleftrightarrow> (if k = 0 then a < b else if k = 1 then a > b else a = b)" .
  show ?thesis
    unfolding execute_branch_def operand_get.simps op1_apply.simps assms(2) branch_condition_def branch_decrement_def BO_MAKE_decodes Let_def
      sign_extend_BD[OF BD_less] BD_displacement_def[symmetric] d
    using branch_target_aligned[of 0 "signed_take_bit 13 (uint (field_extract BD_field opcode'))"] c(2,3)
    by (simp add: BD_displacement_def del: of_int_mult)
qed

theorem compare_then_branch_witness:
  "\<exists>t u. execute_compare operand_RB CT_int32 0x7d021800 (zero_cpu\<lparr>gpr := (\<lambda>_. 0)(2 := 0xffffffff, 3 := 1)\<rparr>) = Inr t \<and>
     execute_branch operand_PC operand_BO operand_BD AA_BIT_1 LK_BIT_0 0x41880020 t = Inr u \<and> pc u = 0x20"
proof -
  obtain t where t: "execute_compare operand_RB CT_int32 0x7d021800 (zero_cpu\<lparr>gpr := (\<lambda>_. 0)(2 := 0xffffffff, 3 := 1)\<rparr>) = Inr t"
    by (auto simp: execute_compare_def Let_def)
  have "field_extract BO_field 0x41880020 = BO_MAKE True True False False"
    by (simp add: eval_simps BO_MAKE_def)
  from compare_then_branch[OF t this, of 0 "- 1" 1] t show ?thesis
    by (auto simp: eval_simps BD_displacement_def)
qed

text \<open>Repeated execution of one handler, stopping at an abort.\<close>

primrec repeat_result :: "nat \<Rightarrow> (powerpc_cpu \<Rightarrow> result) \<Rightarrow> powerpc_cpu \<Rightarrow> result" where
  "repeat_result 0 f s = Inr s"
| "repeat_result (Suc n) f s = and_then (f s) (repeat_result n f)"

lemma bdnz_step:
  assumes "wf_cpu s"
  shows "execute_branch operand_PC operand_BO operand_BD AA_BIT_G LK_BIT_G 0x42000000 s =
    Inr (s\<lparr>ctr := ctr s - 1, pc := if ctr s = 1 then pc s + 4 else pc s\<rparr>)"
proof -
  have bo: "(16 :: u32) = field_extract BO_field 0x42000000" by (simp add: eval_simps)
  have "ctr s - 1 = 0 \<longleftrightarrow> ctr s = 1" by (metis diff_add_cancel diff_self add_0)
  then show ?thesis
    using execute_branch_bc[OF assms bo]
    by (simp add: eval_simps BO_DECREMENT_CTR_def BO_BRANCH_IF_CTR_ZERO_def BO_CONDITIONAL_BRANCH_def BD_displacement_def)
qed

text \<open>
  C26: The spin \<^verbatim>\<open>bdnz .\<close> with a nonzero count falls through after exactly as many
  executions as the count register says, leaving the count at zero.
\<close>

theorem bdnz_terminates:
  assumes "wf_cpu s" "ctr s \<noteq> 0"
  shows "repeat_result (unat (ctr s)) (execute_branch operand_PC operand_BO operand_BD AA_BIT_G LK_BIT_G 0x42000000) s =
    Inr (s\<lparr>ctr := 0, pc := pc s + 4\<rparr>)"
  using assms
proof (induction "unat (ctr s)" arbitrary: s)
  case 0
  then show ?case by (simp add: unat_eq_0)
next
  case (Suc n)
  show ?case
  proof (cases "n = 0")
    case True
    then have "ctr s = 1" using Suc.hyps(2) by (simp add: word_unat_eq_iff)
    then show ?thesis using bdnz_step[OF Suc.prems(1)] by simp
  next
    case False
    let ?t = "s\<lparr>ctr := ctr s - 1\<rparr>"
    have n: "unat (ctr s - 1) = n" using Suc.hyps(2) Suc.prems(2) by (simp add: unat_minus_one)
    then have "ctr s \<noteq> 1" "ctr ?t \<noteq> 0" using False by auto
    then have "execute_branch operand_PC operand_BO operand_BD AA_BIT_G LK_BIT_G 0x42000000 s = Inr ?t"
      using bdnz_step[OF Suc.prems(1)] by simp
    moreover have "wf_cpu ?t" using Suc.prems(1) by (simp add: wf_intros)
    ultimately show ?thesis
      using Suc.hyps(1)[of ?t] n \<open>ctr ?t \<noteq> 0\<close> unfolding Suc.hyps(2)[symmetric] by simp
  qed
qed

theorem bdnz_terminates_witness:
  "repeat_result 1000000 (execute_branch operand_PC operand_BO operand_BD AA_BIT_G LK_BIT_G 0x42000000) (zero_cpu\<lparr>ctr := 1000000\<rparr>) =
    Inr (zero_cpu\<lparr>pc := 4\<rparr>)"
  using bdnz_terminates[of "zero_cpu\<lparr>ctr := 1000000\<rparr>"]
  by (simp add: wf_intros)

end
