(* ===== verification/PPC_LoadStore.thy ===== *)
theory PPC_LoadStore
  imports PPC_Branch
begin

unbundle bit_operations_syntax

text \<open>
  The load and store handlers of \<^verbatim>\<open>ppc-execute.cpp\<close> for general registers:
  byte, halfword and word accesses with update and byte-reversed forms, load/store
  multiple, load/store string, the reservation pair \<^verbatim>\<open>lwarx\<close> / \<^verbatim>\<open>stwcx.\<close>, and the
  cache-management handlers.
\<close>

section \<open>Memory helper\<close>

datatype access_size = Size1 | Size2 | Size4

fun memory_helper_load :: "access_size \<Rightarrow> bool \<Rightarrow> host_mem \<Rightarrow> u32 \<Rightarrow> u32" where
  "memory_helper_load Size1 RX m ea = vm_read_memory_1 m ea"
| "memory_helper_load Size2 RX m ea =
     (if RX then vm_read_memory_2_reversed m ea else vm_read_memory_2 m ea)"
| "memory_helper_load Size4 RX m ea =
     (if RX then vm_read_memory_4_reversed m ea else vm_read_memory_4 m ea)"

fun memory_helper_store :: "access_size \<Rightarrow> bool \<Rightarrow> host_mem \<Rightarrow> u32 \<Rightarrow> u32 \<Rightarrow> host_mem" where
  "memory_helper_store Size1 RX m ea v = vm_write_memory_1 m ea v"
| "memory_helper_store Size2 RX m ea v =
     (if RX then vm_write_memory_2_reversed m ea v else vm_write_memory_2 m ea v)"
| "memory_helper_store Size4 RX m ea v =
     (if RX then vm_write_memory_4_reversed m ea v else vm_write_memory_4 m ea v)"

section \<open>Load and store\<close>

definition execute_loadstore ::
  "op1 \<Rightarrow> operand \<Rightarrow> operand \<Rightarrow> bool \<Rightarrow> access_size \<Rightarrow> bool \<Rightarrow> bool \<Rightarrow> u32 \<Rightarrow> powerpc_cpu \<Rightarrow> result" where
  "execute_loadstore OP RA RB LD SZ UP RX opcode s =
     (let a = operand_get RA s opcode;
          b = operand_get RB s opcode;
          ea = a + b
      in and_then
           (if LD then operand_set operand_RD opcode (op1_apply OP (memory_helper_load SZ RX (mem s) ea)) s
            else Inr (s\<lparr>mem := memory_helper_store SZ RX (mem s) ea (operand_get operand_RS s opcode)\<rparr>))
           (\<lambda>s. and_then (if UP then operand_set RA opcode ea s else Inr s)
           (\<lambda>s. Inr (increment_pc 4 s))))"

function loadstore_multiple_loop :: "bool \<Rightarrow> nat \<Rightarrow> u32 \<Rightarrow> powerpc_cpu \<Rightarrow> powerpc_cpu" where
  "loadstore_multiple_loop LD r ea s =
     (if r \<le> 31
      then loadstore_multiple_loop LD (r + 1) (ea + 4)
             (if LD then set_gpr r (vm_read_memory_4 (mem s) ea) s
              else s\<lparr>mem := vm_write_memory_4 (mem s) ea (gpr s r)\<rparr>)
      else s)"
  by pat_completeness auto
termination
  by (relation "measure (\<lambda>(LD, r, ea, s). 32 - r)") auto

declare loadstore_multiple_loop.simps [simp del]

definition execute_loadstore_multiple ::
  "operand \<Rightarrow> operand \<Rightarrow> bool \<Rightarrow> u32 \<Rightarrow> powerpc_cpu \<Rightarrow> result" where
  "execute_loadstore_multiple RA DP LD opcode s =
     (let a = operand_get RA s opcode;
          d = operand_get DP s opcode;
          ea = a + d
      in if ea AND 3 \<noteq> 0 then Inr (increment_pc 4 s)
         else (let r = (if LD then regno rD_field opcode else regno rS_field opcode)
               in Inr (increment_pc 4 (loadstore_multiple_loop LD r ea s))))"

section \<open>Strings\<close>

definition string_ea :: "operand \<Rightarrow> bool \<Rightarrow> u32 \<Rightarrow> powerpc_cpu \<Rightarrow> u32" where
  "string_ea RA IM opcode s =
     (let ea = operand_get RA s opcode in if \<not> IM then ea + operand_get operand_RB s opcode else ea)"

definition string_nb :: "bool \<Rightarrow> operand \<Rightarrow> u32 \<Rightarrow> powerpc_cpu \<Rightarrow> nat" where
  "string_nb IM NB opcode s =
     (let nb = unat (operand_get NB s opcode) in if IM \<and> nb = 0 then 32 else nb)"

function load_string_loop :: "u32 \<Rightarrow> nat \<Rightarrow> nat \<Rightarrow> nat \<Rightarrow> powerpc_cpu \<Rightarrow> nat \<times> nat \<times> powerpc_cpu" where
  "load_string_loop ea nb i rd s =
     (if i + 4 \<le> nb
      then load_string_loop ea nb (i + 4) ((rd + 1) mod 32)
             (set_gpr rd (vm_read_memory_4 (mem s) (ea + of_nat i)) s)
      else (i, rd, s))"
  by pat_completeness auto
termination
  by (relation "measure (\<lambda>(ea, nb, i, rd, s). nb - i)") auto

declare load_string_loop.simps [simp del]

definition load_string_tail :: "u32 \<Rightarrow> nat \<Rightarrow> nat \<Rightarrow> nat \<Rightarrow> powerpc_cpu \<Rightarrow> powerpc_cpu" where
  "load_string_tail ea nb i rd s =
     (let ei = ea + of_nat i; k = nb - i
      in if k = 1 then set_gpr rd (push_bit 24 (vm_read_memory_1 (mem s) ei)) s
         else if k = 2 then set_gpr rd (push_bit 16 (vm_read_memory_2 (mem s) ei)) s
         else if k = 3
         then set_gpr rd (push_bit 16 (vm_read_memory_2 (mem s) ei) +
                          push_bit 8 (vm_read_memory_1 (mem s) (ei + 2))) s
         else s)"

definition execute_load_string :: "operand \<Rightarrow> bool \<Rightarrow> operand \<Rightarrow> u32 \<Rightarrow> powerpc_cpu \<Rightarrow> result" where
  "execute_load_string RA IM NB opcode s =
     (let ea = string_ea RA IM opcode s;
          nb = string_nb IM NB opcode s;
          rd = regno rD_field opcode;
          (i, rd, s) = load_string_loop ea nb 0 rd s
      in Inr (increment_pc 4 (load_string_tail ea nb i rd s)))"

function store_string_loop :: "u32 \<Rightarrow> nat \<Rightarrow> nat \<Rightarrow> nat \<Rightarrow> int \<Rightarrow> powerpc_cpu \<Rightarrow> powerpc_cpu" where
  "store_string_loop ea nb i rs sh s =
     (if i < nb
      then (let s = s\<lparr>mem := vm_write_memory_1 (mem s) (ea + of_nat i) (drop_bit (nat sh) (gpr s rs))\<rparr>;
                sh = sh - 8
            in if sh < 0 then store_string_loop ea nb (i + 1) ((rs + 1) mod 32) 24 s
               else store_string_loop ea nb (i + 1) rs sh s)
      else s)"
  by pat_completeness auto
termination
  by (relation "measure (\<lambda>(ea, nb, i, rs, sh, s). nb - i)") auto

declare store_string_loop.simps [simp del]

definition execute_store_string :: "operand \<Rightarrow> bool \<Rightarrow> operand \<Rightarrow> u32 \<Rightarrow> powerpc_cpu \<Rightarrow> result" where
  "execute_store_string RA IM NB opcode s =
     (let ea = string_ea RA IM opcode s;
          nb = string_nb IM NB opcode s;
          rs = regno rS_field opcode
      in Inr (increment_pc 4 (store_string_loop ea nb 0 rs 24 s)))"

section \<open>Reservation\<close>

definition execute_lwarx :: "operand \<Rightarrow> u32 \<Rightarrow> powerpc_cpu \<Rightarrow> result" where
  "execute_lwarx RA opcode s =
     (let ea = operand_get RA s opcode + operand_get operand_RB s opcode;
          reserve_data = vm_read_memory_4 (mem s) ea;
          s = s\<lparr>reserve_valid := 1, reserve_addr := ea\<rparr>
      in and_then (operand_set operand_RD opcode reserve_data s) (\<lambda>s. Inr (increment_pc 4 s)))"

definition execute_stwcx :: "operand \<Rightarrow> u32 \<Rightarrow> powerpc_cpu \<Rightarrow> result" where
  "execute_stwcx RA opcode s =
     (let ea = operand_get RA s opcode + operand_get operand_RB s opcode;
          s = s\<lparr>cr := cr_clear (cr s) 0\<rparr>;
          s = (if reserve_valid s \<noteq> 0
               then (let s = (if reserve_addr s = ea
                              then s\<lparr>mem := vm_write_memory_4 (mem s) ea (operand_get operand_RS s opcode),
                                     cr := cr_set_field (cr s) 0 (field_mask standalone_CR_EQ_field)\<rparr>
                              else s)
                     in s\<lparr>reserve_valid := 0\<rparr>)
               else s);
          s = s\<lparr>cr := cr_set_so (cr s) 0 (xer_so (xer s) \<noteq> 0)\<rparr>
      in Inr (increment_pc 4 s))"

section \<open>Cache management\<close>

definition invalidate_cache_range :: "u64 \<Rightarrow> u64 \<Rightarrow> powerpc_cpu \<Rightarrow> powerpc_cpu" where
  "invalidate_cache_range start ed s =
     s\<lparr>spcflags := spcflags_set (spcflags s) SPCFLAG_JIT_EXEC_RETURN,
       clear_range_calls := clear_range_calls s @ [(start, ed)]\<rparr>"

definition execute_invalidate_cache_range :: "powerpc_cpu \<Rightarrow> powerpc_cpu" where
  "execute_invalidate_cache_range s =
     (if cache_start s \<noteq> cache_end s
      then (invalidate_cache_range (cache_start s) (cache_end s) s)\<lparr>cache_start := 0, cache_end := 0\<rparr>
      else s)"

definition execute_icbi :: "operand \<Rightarrow> operand \<Rightarrow> u32 \<Rightarrow> powerpc_cpu \<Rightarrow> result" where
  "execute_icbi RA RB opcode s =
     (let ea = operand_get RA s opcode + operand_get RB s opcode;
          block_start = ucast (ea - ea mod 32) :: u64;
          s = (if block_start = cache_end s then s\<lparr>cache_end := cache_end s + 32\<rparr>
               else (execute_invalidate_cache_range s)
                      \<lparr>cache_start := block_start, cache_end := block_start + 32\<rparr>)
      in Inr (increment_pc 4 s))"

definition execute_isync :: "u32 \<Rightarrow> powerpc_cpu \<Rightarrow> result" where
  "execute_isync opcode s = Inr (increment_pc 4 (execute_invalidate_cache_range s))"

definition execute_dcbz :: "operand \<Rightarrow> operand \<Rightarrow> u32 \<Rightarrow> powerpc_cpu \<Rightarrow> result" where
  "execute_dcbz RA RB opcode s =
     (let ea = operand_get RA s opcode + operand_get RB s opcode
      in Inr (increment_pc 4 (s\<lparr>mem := vm_memset (mem s) (ea - ea mod 32) 0 32\<rparr>)))"

section \<open>The handlers keep the register-file invariant\<close>

lemma wf_execute_loadstore:
  "wf_cpu s \<Longrightarrow> wf_result (execute_loadstore OP RA RB LD SZ UP RX opcode s)"
  unfolding execute_loadstore_def Let_def
  by (intro wf_intros) (auto intro!: wf_intros)

lemma wf_loadstore_multiple_loop: "wf_cpu s \<Longrightarrow> wf_cpu (loadstore_multiple_loop LD r ea s)"
proof (induction LD r ea s rule: loadstore_multiple_loop.induct)
  case (1 LD r ea s)
  then show ?case by (subst loadstore_multiple_loop.simps) (simp add: wf_intros)
qed

lemma wf_execute_loadstore_multiple:
  "wf_cpu s \<Longrightarrow> wf_result (execute_loadstore_multiple RA DP LD opcode s)"
  by (auto simp: execute_loadstore_multiple_def Let_def intro!: wf_intros wf_loadstore_multiple_loop)

lemma wf_load_string_loop:
  "wf_cpu s \<Longrightarrow> load_string_loop ea nb i rd s = (i', rd', s') \<Longrightarrow> wf_cpu s'"
proof (induction ea nb i rd s rule: load_string_loop.induct)
  case (1 ea nb i rd s)
  then show ?case by (cases "i + 4 \<le> nb") (simp_all add: load_string_loop.simps[of ea nb i] wf_intros)
qed

lemma wf_execute_load_string: "wf_cpu s \<Longrightarrow> wf_result (execute_load_string RA IM NB opcode s)"
  by (auto simp: execute_load_string_def load_string_tail_def Let_def split: prod.split
      intro!: wf_intros dest: wf_load_string_loop)

lemma wf_store_string_loop: "wf_cpu s \<Longrightarrow> wf_cpu (store_string_loop ea nb i rs sh s)"
proof (induction ea nb i rs sh s rule: store_string_loop.induct)
  case (1 ea nb i rs sh s)
  then show ?case by (subst store_string_loop.simps) (auto simp: Let_def intro!: wf_intros)
qed

lemma wf_execute_store_string: "wf_cpu s \<Longrightarrow> wf_result (execute_store_string RA IM NB opcode s)"
  by (auto simp: execute_store_string_def Let_def intro!: wf_intros wf_store_string_loop)

lemma wf_execute_lwarx: "wf_cpu s \<Longrightarrow> wf_result (execute_lwarx RA opcode s)"
  unfolding execute_lwarx_def Let_def by (intro wf_intros) (auto simp: wf_cpu_def)

lemma wf_execute_stwcx: "wf_cpu s \<Longrightarrow> wf_result (execute_stwcx RA opcode s)"
  by (auto simp: execute_stwcx_def Let_def wf_cpu_def pc_add_4)

lemma wf_execute_invalidate_cache_range:
  "wf_cpu s \<Longrightarrow> wf_cpu (execute_invalidate_cache_range s)"
  by (simp add: execute_invalidate_cache_range_def invalidate_cache_range_def wf_cpu_def)

lemma line_start_uint: "uint ((ucast ((ea :: u32) - ea mod 32)) :: u64) = 32 * (uint ea div 32)"
proof -
  have "uint (ea mod 32) = uint ea mod 32" by (simp add: uint_mod)
  moreover have "uint (ea - ea mod 32) = uint ea - uint (ea mod 32)"
    by (rule uint_minus_simple_alt[THEN iffD1]) (simp add: word_le_def uint_mod zmod_le_nonneg_dividend)
  ultimately show ?thesis by (simp add: uint_ucast_up minus_mod_eq_mult_div)
qed

lemma line_end_uint: "uint ((ucast ((ea :: u32) - ea mod 32)) + 32 :: u64) = 32 * (uint ea div 32) + 32"
proof -
  obtain x where x: "uint ea = x" "0 \<le> x" "x < 4294967296" by (rule u32_cases)
  then have "(32 * (x div 32) + 32) mod 2 ^ 64 = 32 * (x div 32) + 32"
    by (intro mod_pos_pos_trivial) auto
  then show ?thesis by (simp add: uint_word_ariths line_start_uint x)
qed

lemma line_bounds:
  fixes ea :: u32
  shows "ucast (ea - ea mod 32) \<le> (ucast (ea - ea mod 32) + 32 :: u64)"
    and "ucast (ea - ea mod 32) + 32 \<le> (0x100000000 :: u64)"
  unfolding word_le_def line_end_uint line_start_uint by (simp, rule u32_cases[of ea], simp)

lemma wf_execute_icbi:
  assumes "wf_cpu s"
  shows "wf_result (execute_icbi RA RB opcode s)"
proof -
  define L where "L = (ucast (operand_get RA s opcode + operand_get RB s opcode -
    (operand_get RA s opcode + operand_get RB s opcode) mod 32) :: u64)"
  have L: "L \<le> L + 32" "L + 32 \<le> 0x100000000" unfolding L_def by (rule line_bounds)+
  show ?thesis
  proof (cases "L = cache_end s")
    case True
    moreover have "cache_start s \<le> cache_end s" using assms by (simp add: wf_cpu_def)
    ultimately show ?thesis
      using assms L order.trans[of "cache_start s" L "L + 32"]
      unfolding execute_icbi_def Let_def L_def[symmetric] by (simp add: wf_cpu_def pc_add_4)
  next
    case False
    with wf_execute_invalidate_cache_range[OF assms] L show ?thesis
      unfolding execute_icbi_def Let_def L_def[symmetric] by (simp add: wf_cpu_def pc_add_4)
  qed
qed

lemma wf_execute_isync: "wf_cpu s \<Longrightarrow> wf_result (execute_isync opcode s)"
  by (simp add: execute_isync_def wf_intros wf_execute_invalidate_cache_range)

lemma wf_execute_dcbz: "wf_cpu s \<Longrightarrow> wf_result (execute_dcbz RA RB opcode s)"
  by (simp add: execute_dcbz_def Let_def wf_intros)

section \<open>Loads and stores\<close>

primrec size_bytes :: "access_size \<Rightarrow> nat" where
  "size_bytes Size1 = 1" | "size_bytes Size2 = 2" | "size_bytes Size4 = 4"

lemmas vm_read_defs = vm_read_memory_1_def vm_read_memory_2_def vm_read_memory_4_def
  vm_read_memory_2_reversed_def vm_read_memory_4_reversed_def vm_read_memory_8_def
lemmas vm_write_defs = vm_write_memory_1_def vm_write_memory_2_def vm_write_memory_4_def
  vm_write_memory_2_reversed_def vm_write_memory_4_reversed_def vm_write_memory_8_def

lemma helper_load_store:
  "memory_helper_load SZ RX (memory_helper_store SZ RX m ea v) ea = take_bit (8 * size_bytes SZ) v"
  by (cases SZ) (simp_all add: vm_read_defs vm_write_defs cell1.rd_wr cell2.rd_wr cell4.rd_wr cell2r.rd_wr cell4r.rd_wr)

lemma helper_store_frame:
  "(\<forall>i < size_bytes SZ. x \<noteq> vm_do_get_real_address ea + of_nat i) \<Longrightarrow> memory_helper_store SZ RX m ea v x = m x"
  by (cases SZ) (auto simp add: vm_write_defs cell1.wr_outside cell2.wr_outside cell4.wr_outside cell2r.wr_outside cell4r.wr_outside)

lemma helper_store_bytes:
  assumes "i < size_bytes SZ"
  shows "memory_helper_store SZ RX m ea v (vm_do_get_real_address ea + of_nat i) =
    ucast (drop_bit (8 * (if RX then i else size_bytes SZ - 1 - i)) v)"
proof (cases SZ)
  case Size1
  with assms show ?thesis by (simp add: vm_write_defs vm_do_write_defs)
next
  case Size2
  with assms have "i = 0 \<or> i = 1" by auto
  with Size2 show ?thesis by (auto simp: vm_write_defs vm_do_write_defs)
next
  case Size4
  with assms have "i = 0 \<or> i = 1 \<or> i = 2 \<or> i = 3" by auto
  with Size4 show ?thesis by (auto simp: vm_write_defs vm_do_write_defs)
qed

text \<open>
  A store writes exactly the bytes of its cell, most significant byte first (least
  significant first in the byte-reversed forms), leaves every other byte of memory alone,
  and in the update forms leaves the effective address in rA.
\<close>

theorem store_correct:
  assumes "UP \<Longrightarrow> RA = operand_RA" "ea = operand_get RA s opcode + operand_get RB s opcode"
  shows "\<exists>t. execute_loadstore OP RA RB False SZ UP RX opcode s = Inr t \<and>
    (\<forall>i < size_bytes SZ. mem t (ucast ea + of_nat i) =
       ucast (drop_bit (8 * (if RX then i else size_bytes SZ - 1 - i)) (gpr s (regno rS_field opcode)))) \<and>
    (\<forall>x. (\<forall>i < size_bytes SZ. x \<noteq> ucast ea + of_nat i) \<longrightarrow> mem t x = mem s x) \<and>
    gpr t = (if UP then (gpr s)(regno rA_field opcode := ea) else gpr s) \<and> pc t = pc s + 4"
  using assms helper_store_bytes helper_store_frame
  by (cases UP) (auto simp: execute_loadstore_def Let_def vm_do_get_real_address_def)

theorem store_correct_witness:
  "\<exists>t. execute_loadstore op_nop operand_RA operand_D False Size4 True False 0x94410008
      (zero_cpu\<lparr>gpr := (\<lambda>_. 0)(1 := 0x1000, 2 := 0x11223344)\<rparr>) = Inr t \<and>
    mem t 0x1008 = 0x11 \<and> mem t 0x100b = 0x44 \<and> gpr t 1 = 0x1008"
  using store_correct[of True operand_RA "0x1008" "zero_cpu\<lparr>gpr := (\<lambda>_. 0)(1 := 0x1000, 2 := 0x11223344)\<rparr>" "0x94410008" operand_D op_nop Size4 False]
  by (auto simp: eval_simps op_sign_extend_16_32_apply_def all_less_small)

text \<open>
  C9: A load of the same size and byte order from the address just stored returns the
  stored register truncated to the access size, extended as the load asks, for every
  combination of base, displacement, update and byte-reversal.
\<close>

theorem store_load_roundtrip:
  assumes "execute_loadstore OP RA RB False SZ UP RX opcode s = Inr t"
    and "operand_get RA' t opcode' + operand_get RB' t opcode' = operand_get RA s opcode + operand_get RB s opcode"
  shows "\<exists>u. execute_loadstore OP' RA' RB' True SZ False RX opcode' t = Inr u \<and>
    gpr u = (gpr t)(regno rD_field opcode' :=
      op1_apply OP' (take_bit (8 * size_bytes SZ) (gpr s (regno rS_field opcode)))) \<and> mem u = mem t"
proof -
  have "mem t = memory_helper_store SZ RX (mem s) (operand_get RA s opcode + operand_get RB s opcode) (gpr s (regno rS_field opcode))"
    using assms(1)
    by (cases RA) (auto simp: execute_loadstore_def Let_def split: if_splits)
  then show ?thesis
    using assms(2) by (simp add: execute_loadstore_def Let_def helper_load_store)
qed

theorem store_load_roundtrip_witness:
  "\<exists>t u. execute_loadstore op_nop operand_RA_or_0 operand_D False Size2 False True 0xb0401000
      (zero_cpu\<lparr>gpr := (\<lambda>_. 0)(2 := 0x1122fedc)\<rparr>) = Inr t \<and>
    execute_loadstore op_sign_extend_16_32 operand_RA_or_0 operand_D True Size2 False True 0xa8601000 t = Inr u \<and>
    gpr u 3 = 0xfffffedc"
proof -
  obtain t where t: "execute_loadstore op_nop operand_RA_or_0 operand_D False Size2 False True 0xb0401000
      (zero_cpu\<lparr>gpr := (\<lambda>_. 0)(2 := 0x1122fedc)\<rparr>) = Inr t"
    by (simp add: execute_loadstore_def Let_def)
  from store_load_roundtrip[OF t, of operand_RA_or_0 "0xa8601000" operand_D op_sign_extend_16_32] t
  show ?thesis by (auto simp: eval_simps op_sign_extend_16_32_apply_def)
qed

lemma standalone_EQ_mask: "field_mask standalone_CR_EQ_field = 2"
  using standalone_CR_masks by simp

lemma cr_clear_is_set: "cr_clear c f = cr_set_field c f 0"
  by (simp add: cr_set_field_def)

lemma cr_set_so_field:
  assumes "f < 8" "v < 16" 
  shows "cr_set_so (cr_set_field c f v) f b = cr_set_field c f ((v AND 14) OR of_flag b)"
proof (rule bit_word_eqI)
  fix n assume n: "n < LENGTH(32)"
  have m: "push_bit (28 - 4 * f) (field_mask standalone_CR_SO_field) = push_bit (28 - 4 * f) 1"
    using standalone_CR_masks by simp
  have e: "bit (14 :: u32) k \<longleftrightarrow> 1 \<le> k \<and> k < 4" for k
  proof -
    have "(14 :: u32) = push_bit 1 (mask 3)" by (simp add: mask_eq_exp_minus_1 push_bit_eq_mult)
    then show ?thesis by (simp only: bit_push_bit_iff bit_mask_iff) auto
  qed
  have u: "(v AND 14) OR of_flag b < 16"
  proof -
    have "unat ((v AND 14) OR of_flag b) < 2 ^ 4"
      by (rule unat_less_2p_bits) (auto simp only: bit_or_iff bit_and_iff e bit_of_flag_iff)
    then show ?thesis by (simp add: word_less_nat_alt)
  qed
  show "bit (cr_set_so (cr_set_field c f v) f b) n = bit (cr_set_field c f ((v AND 14) OR of_flag b)) n"
    unfolding cr_set_so_def Let_def m bit_cr_set_field[OF assms(1) u] 
    using n assms(1)
    by (auto simp only: bit_or_iff bit_and_iff bit_not_iff bit_cr_set_field[OF assms] bit_push_codes e bit_of_flag_iff possible_bit_word split: if_splits)
       (auto simp: bit_push_codes)
qed

lemma cr_set_set:
  assumes "f < 8" "v < 16" "w < 16"
  shows "cr_set_field (cr_set_field c f v) f w = cr_set_field c f w"
  by (rule bit_word_eqI) (simp add: bit_cr_set_field assms)

text \<open>
  \<^verbatim>\<open>stwcx.\<close> after \<^verbatim>\<open>lwarx\<close>: the store happens exactly when it names the
  reserved address, CR0 tells whether it happened (EQ) and copies SO, and the reservation is
  gone either way.
\<close>

theorem reservation_pair:
  assumes "execute_lwarx RA opcode s = Inr t" "a = operand_get RA s opcode + gpr s (regno rB_field opcode)"
    "b = operand_get RA' t opcode' + gpr t (regno rB_field opcode')"
  shows "gpr t (regno rD_field opcode) = vm_read_memory_4 (mem s) a \<and>
    (\<exists>u. execute_stwcx RA' opcode' t = Inr u \<and> reserve_valid u = 0 \<and>
      mem u = (if a = b then vm_write_memory_4 (mem t) b (gpr t (regno rS_field opcode')) else mem t) \<and>
      cr u = cr_set_field (cr t) 0 ((if a = b then 2 else 0) OR of_flag (xer_so (xer t) \<noteq> 0)) \<and>
      gpr u = gpr t \<and> pc u = pc t + 4)"
proof -
  have t: "mem t = mem s" "reserve_valid t = 1" "reserve_addr t = a" "gpr t (regno rD_field opcode) = vm_read_memory_4 (mem s) a"
    using assms(1,2) by (auto simp: execute_lwarx_def Let_def set_gpr_def)
  have c: "cr_set_so (cr_set_field (cr_clear (cr t) 0) 0 2) 0 q = cr_set_field (cr t) 0 (2 OR of_flag q)"
    "cr_set_so (cr_clear (cr t) 0) 0 q = cr_set_field (cr t) 0 (of_flag q)" for q
    unfolding cr_clear_is_set by (simp_all add: cr_set_set cr_set_so_field)
  show ?thesis
    using t assms(3) by (simp add: execute_stwcx_def Let_def standalone_EQ_mask c)
qed

theorem reservation_pair_witness:
  "\<exists>t u. execute_lwarx operand_RA_or_0 0x7c601028 (zero_cpu\<lparr>gpr := (\<lambda>_. 0)(2 := 0x1000)\<rparr>) = Inr t \<and>
    execute_stwcx operand_RA_or_0 0x7c40112d t = Inr u \<and> cr u = cr_set_field 0 0 2 \<and> reserve_valid u = 0"
proof -
  let ?s = "zero_cpu\<lparr>gpr := (\<lambda>_. 0)(2 := 0x1000)\<rparr>"
  obtain t where t: "execute_lwarx operand_RA_or_0 0x7c601028 ?s = Inr t"
    by (simp add: execute_lwarx_def Let_def)
  have f: "regno BI_field 0x7c601028 = 0" "regno BI_field 0x7c40112d = 0" "regno SH_field 0x7c601028 = 2"
    "regno SH_field 0x7c40112d = 2" "regno TO_field 0x7c601028 = 3" by (simp_all add: eval_simps)
  have c: "cr t = 0" "xer t = xer_init" "gpr t 2 = 0x1000"
    using t by (auto simp: execute_lwarx_def Let_def set_gpr_def f)
  have "0x1000 = operand_get operand_RA_or_0 ?s 0x7c601028 + gpr ?s (regno rB_field 0x7c601028)"
    "0x1000 = operand_get operand_RA_or_0 t 0x7c40112d + gpr t (regno rB_field 0x7c40112d)"
    by (simp_all add: f c)
  from reservation_pair[OF t this] obtain u where "execute_stwcx operand_RA_or_0 0x7c40112d t = Inr u"
    "reserve_valid u = 0" "cr u = cr_set_field 0 0 (2 OR of_flag (xer_so xer_init \<noteq> 0))"
    unfolding c by auto
  with t show ?thesis by (simp add: xer_init_def)
qed

section \<open>Cache lines\<close>

definition line_of :: "u32 \<Rightarrow> u64 \<Rightarrow> bool" where
  "line_of ea x \<longleftrightarrow> uint x div 32 = uint ea div 32"

definition invalidated :: "powerpc_cpu \<Rightarrow> u64 \<Rightarrow> bool" where
  "invalidated s x \<longleftrightarrow> (\<exists>(a, b) \<in> set (clear_range_calls s). a \<le> x \<and> x < b)"

definition pending :: "powerpc_cpu \<Rightarrow> u64 \<Rightarrow> bool" where
  "pending s x \<longleftrightarrow> cache_start s \<le> x \<and> x < cache_end s"

lemma line_of_iff:
  "line_of ea x \<longleftrightarrow> ucast (ea - ea mod 32) \<le> x \<and> x < ucast (ea - ea mod 32) + 32"
  unfolding line_of_def word_le_def word_less_def line_start_uint line_end_uint by auto

lemma invalidate_covers:
  "invalidated (execute_invalidate_cache_range s) x \<longleftrightarrow> invalidated s x \<or> pending s x"
  "\<not> pending (execute_invalidate_cache_range s) x"
  by (auto simp: execute_invalidate_cache_range_def invalidate_cache_range_def invalidated_def pending_def)

lemma icbi_covers:
  assumes "wf_cpu s" "ea = operand_get RA s opcode + operand_get RB s opcode"
    "execute_icbi RA RB opcode s = Inr t"
  shows "invalidated t x \<or> pending t x \<longleftrightarrow> invalidated s x \<or> pending s x \<or> line_of ea x"
proof (cases "ucast (ea - ea mod 32) = cache_end s")
  case True
  have "cache_start s \<le> cache_end s" using assms(1) by (simp add: wf_cpu_def)
  moreover have "cache_end s \<le> cache_end s + 32" using line_bounds(1)[of ea] True by simp
  moreover have "t = increment_pc 4 (s\<lparr>cache_end := cache_end s + 32\<rparr>)"
    using assms(2,3) True by (simp add: execute_icbi_def Let_def)
  ultimately show ?thesis
    unfolding line_of_iff True by (auto simp: pending_def invalidated_def)
next
  case False
  have "t = increment_pc 4 ((execute_invalidate_cache_range s)\<lparr>cache_start := ucast (ea - ea mod 32), cache_end := ucast (ea - ea mod 32) + 32\<rparr>)"
    using assms(2,3) False by (simp add: execute_icbi_def Let_def)
  then show ?thesis
    using invalidate_covers(1)[of s x] unfolding line_of_iff by (auto simp: pending_def invalidated_def)
qed

primrec run_icbi :: "u32 list \<Rightarrow> powerpc_cpu \<Rightarrow> result" where
  "run_icbi [] s = Inr s"
| "run_icbi (opcode # opcodes) s = and_then (execute_icbi operand_RA_or_0 operand_RB opcode s) (run_icbi opcodes)"

lemma execute_icbi_gpr: "execute_icbi RA RB opcode s = Inr t \<Longrightarrow> gpr t = gpr s"
  by (auto simp: execute_icbi_def execute_invalidate_cache_range_def invalidate_cache_range_def Let_def split: if_splits)

definition icbi_ea :: "powerpc_cpu \<Rightarrow> u32 \<Rightarrow> u32" where
  "icbi_ea s opcode = operand_get operand_RA_or_0 s opcode + operand_get operand_RB s opcode"

lemma run_icbi_covers:
  assumes "wf_cpu s"
  shows "\<exists>t. run_icbi opcodes s = Inr t \<and> wf_cpu t \<and> 
    (\<forall>x. invalidated t x \<or> pending t x \<longleftrightarrow> invalidated s x \<or> pending s x \<or> (\<exists>opcode \<in> set opcodes. line_of (icbi_ea s opcode) x))"
  using assms
proof (induction opcodes arbitrary: s)
  case (Cons opcode opcodes)
  obtain t where t: "execute_icbi operand_RA_or_0 operand_RB opcode s = Inr t"
    by (simp add: execute_icbi_def Let_def)
  have "wf_cpu t" using wf_execute_icbi[OF Cons.prems, of operand_RA_or_0 operand_RB opcode] t by simp
  from Cons.IH[OF this] obtain u where u: "run_icbi opcodes t = Inr u" "wf_cpu u"
    "\<forall>x. invalidated u x \<or> pending u x \<longleftrightarrow> invalidated t x \<or> pending t x \<or> (\<exists>opcode \<in> set opcodes. line_of (icbi_ea t opcode) x)"
    by blast
  have "icbi_ea t = icbi_ea s" by (rule ext) (simp add: icbi_ea_def execute_icbi_gpr[OF t])
  moreover have "\<forall>x. invalidated t x \<or> pending t x \<longleftrightarrow> invalidated s x \<or> pending s x \<or> line_of (icbi_ea s opcode) x"
    using icbi_covers[OF Cons.prems _ t] by (simp add: icbi_ea_def)
  ultimately show ?case using t u by auto
qed simp

text \<open>
  C31: A sequence of \<^verbatim>\<open>icbi\<close> instructions closed by \<^verbatim>\<open>isync\<close> asks the block cache
  to drop exactly the 32-byte lines the \<^verbatim>\<open>icbi\<close> instructions named, in whatever order
  they came and however the pending range was merged, and leaves nothing pending.
\<close>

theorem icbi_isync_invalidates:
  assumes "wf_cpu s" "\<forall>x. \<not> pending s x"
  shows "\<exists>t u. run_icbi opcodes s = Inr t \<and> execute_isync opcode t = Inr u \<and>
    (\<forall>x. invalidated u x \<longleftrightarrow> invalidated s x \<or> (\<exists>opcode \<in> set opcodes. line_of (icbi_ea s opcode) x)) \<and>
    (\<forall>x. \<not> pending u x)"
proof -
  from run_icbi_covers[OF assms(1)] obtain t where t: "run_icbi opcodes s = Inr t"
    "\<forall>x. invalidated t x \<or> pending t x \<longleftrightarrow> invalidated s x \<or> pending s x \<or> (\<exists>opcode \<in> set opcodes. line_of (icbi_ea s opcode) x)"
    by blast
  have i: "invalidated (increment_pc 4 z) = invalidated z" "pending (increment_pc 4 z) = pending z" for z
    by (auto simp: fun_eq_iff invalidated_def pending_def)
  show ?thesis
    using t assms(2) invalidate_covers[of t] by (auto simp: execute_isync_def i)
qed

theorem icbi_isync_invalidates_witness:
  "\<exists>t u. run_icbi [0x7c0017ac] (zero_cpu\<lparr>gpr := (\<lambda>_. 0)(2 := 0x1010)\<rparr>) = Inr t \<and>
     execute_isync 0x4c00012c t = Inr u \<and> invalidated u 0x1000 \<and> \<not> invalidated u 0x1020"
proof -
  have "wf_cpu (zero_cpu\<lparr>gpr := (\<lambda>_. 0)(2 := 0x1010)\<rparr>)" by (simp add: wf_intros)
  moreover have "\<not> pending (zero_cpu\<lparr>gpr := (\<lambda>_. 0)(2 := 0x1010)\<rparr>) x"
    "\<not> invalidated (zero_cpu\<lparr>gpr := (\<lambda>_. 0)(2 := 0x1010)\<rparr>) x" for x
    by (simp_all add: pending_def invalidated_def)
  ultimately show ?thesis
    using icbi_isync_invalidates[of "zero_cpu\<lparr>gpr := (\<lambda>_. 0)(2 := 0x1010)\<rparr>" "[0x7c0017ac]" "0x4c00012c"]
    by (auto simp: line_of_def icbi_ea_def eval_simps simp del: run_icbi.simps)
qed

lemma host_memset_at:
  "host_memset m a c n x = (if \<exists>i < n. x = a + of_nat i then c else m x)"
proof (induction n arbitrary: m a)
  case (Suc n)
  have "(\<exists>i < Suc n. x = a + of_nat i) \<longleftrightarrow> x = a \<or> (\<exists>i < n. x = a + 1 + of_nat i)"
    unfolding Ex_less_Suc2 by (simp add: add.assoc add.left_commute)
  then show ?case unfolding host_memset.simps Suc by (simp only: fun_upd_apply split: if_split) auto
qed simp

lemma interval_offsets:
  fixes a x :: u64
  assumes "uint a + int n < 2 ^ 64"
  shows "(\<exists>i < n. x = a + of_nat i) \<longleftrightarrow> uint a \<le> uint x \<and> uint x < uint a + int n"
proof
  assume "\<exists>i < n. x = a + of_nat i"
  then obtain i where i: "i < n" "x = a + word_of_int (int i)" by auto
  have "uint x = (uint a + int i mod 2 ^ 64) mod 2 ^ 64"
    unfolding i(2) uint_word_ariths(1) uint_word_of_int by simp
  also have "\<dots> = (uint a + int i) mod 2 ^ 64" by (rule mod_add_right_eq)
  also have "\<dots> = uint a + int i"
    using assms i(1) uint_ge_0[of a] by (intro mod_pos_pos_trivial) linarith+
  finally show "uint a \<le> uint x \<and> uint x < uint a + int n" using i(1) by simp
next
  assume r: "uint a \<le> uint x \<and> uint x < uint a + int n"
  have "x = a + word_of_int (uint x - uint a)" by simp
  also have "uint x - uint a = int (nat (uint x - uint a))" using r by simp
  finally have "x = a + of_nat (nat (uint x - uint a))" by (simp only: of_int_of_nat_eq)
  then show "\<exists>i < n. x = a + of_nat i" using r by (intro exI[of _ "nat (uint x - uint a)"]) auto
qed

text \<open>
  \<^verbatim>\<open>dcbz\<close> clears exactly the 32-byte line that contains the effective address.
\<close>

theorem dcbz_zeroes_line:
  shows "\<exists>t. execute_dcbz RA RB opcode s = Inr t \<and>
    (\<forall>x. mem t x = (if line_of (operand_get RA s opcode + operand_get RB s opcode) x then 0 else mem s x)) \<and>
    gpr t = gpr s \<and> pc t = pc s + 4"
proof -
  let ?ea = "operand_get RA s opcode + operand_get RB s opcode"
  have "(\<exists>i < 32. x = ucast (?ea - ?ea mod 32) + of_nat i) \<longleftrightarrow> line_of ?ea x" for x :: u64
  proof -
    let ?L = "ucast (?ea - ?ea mod 32) :: u64"
    have "uint ?L + int 32 < 2 ^ 64" unfolding line_start_uint by (rule u32_cases[of ?ea]) auto
    from interval_offsets[OF this, of x] show ?thesis
      unfolding line_of_def line_start_uint by auto
  qed
  then show ?thesis
    by (simp add: execute_dcbz_def Let_def vm_memset_def vm_do_get_real_address_def host_memset_at)
qed

section \<open>Load and store multiple\<close>

lemma in_cell4_iff: "z \<in> cell4.cell (ucast (x :: u32)) \<longleftrightarrow> uint x \<le> uint z \<and> uint z < uint x + 4"
proof -
  have b: "uint (ucast x :: u64) = uint x" by (simp add: uint_ucast_up)
  have "uint (ucast x :: u64) + int 4 < 2 ^ 64" unfolding b by (rule u32_cases[of x]) auto
  from interval_offsets[OF this, of z] show ?thesis by (auto simp: cell4.cell_def b)
qed

lemma cells_disjoint:
  fixes x y :: u32
  assumes "x AND 3 = 0" "y AND 3 = 0" "x \<noteq> y"
  shows "cell4.cell (ucast x) \<inter> cell4.cell (ucast y) = {}"
proof -
  have "4 dvd uint x" "4 dvd uint y" "uint x \<noteq> uint y"
    using assms word_uint_eqI[of x y] by (auto simp: and_3_iff_uint)
  then show ?thesis by (auto simp: in_cell4_iff) presburger
qed

lemma take_bit_word_32: "take_bit 32 (v :: u32) = v"
  by (rule bit_word_eqI) (simp add: bit_take_bit_iff)

lemma read_write_4_same: "vm_read_memory_4 (vm_write_memory_4 m x v) x = v"
  using cell4.rd_wr[of m "vm_do_get_real_address x" v]
  by (simp add: vm_read_defs vm_write_defs take_bit_word_32)

lemma read_write_4_other:
  "x AND 3 = 0 \<Longrightarrow> y AND 3 = 0 \<Longrightarrow> x \<noteq> y \<Longrightarrow> vm_read_memory_4 (vm_write_memory_4 m x v) y = vm_read_memory_4 m y"
  using cell4.rd_wr_disjoint[OF cells_disjoint] by (simp add: vm_read_defs vm_write_defs vm_do_get_real_address_def)

lemma load_multiple_loop:
  "r \<le> 32 \<Longrightarrow> gpr (loadstore_multiple_loop True r ea s) =
     (\<lambda>k. if r \<le> k \<and> k \<le> 31 then vm_read_memory_4 (mem s) (ea + of_nat (4 * (k - r))) else gpr s k) \<and>
   mem (loadstore_multiple_loop True r ea s) = mem s"
proof (induction "32 - r" arbitrary: r ea s)
  case 0
  then show ?case by (subst (1 2) loadstore_multiple_loop.simps) (auto simp: fun_eq_iff)
next
  case (Suc n)
  then have IH: "gpr (loadstore_multiple_loop True (r + 1) (ea + 4) (set_gpr r (vm_read_memory_4 (mem s) ea) s)) =
     (\<lambda>k. if r + 1 \<le> k \<and> k \<le> 31 then vm_read_memory_4 (mem s) (ea + 4 + of_nat (4 * (k - (r + 1)))) else 
        ((gpr s)(r := vm_read_memory_4 (mem s) ea)) k) \<and>
   mem (loadstore_multiple_loop True (r + 1) (ea + 4) (set_gpr r (vm_read_memory_4 (mem s) ea) s)) = mem s"
    by (simp cong: if_cong)
  have e: "r < k \<Longrightarrow> ea + 4 + of_nat (4 * (k - (r + 1))) = ea + of_nat (4 * (k - r))" for k
  proof -
    assume "r < k"
    then have "4 * (k - r) = 4 + 4 * (k - (r + 1))" by simp
    then have "of_nat (4 * (k - r)) = (4 + of_nat (4 * (k - (r + 1))) :: u32)" by (metis of_nat_add of_nat_numeral)
    then show ?thesis by (simp add: add.assoc)
  qed
  from Suc.hyps(2) have r: "r \<le> 31" by simp
  show ?case
    unfolding loadstore_multiple_loop.simps[of True r] using IH r e by (auto simp: fun_eq_iff)
qed

lemma store_multiple_loop_gpr: "gpr (loadstore_multiple_loop False r ea s) = gpr s"
  by (induction "32 - r" arbitrary: r ea s) (simp_all add: loadstore_multiple_loop.simps)

lemma aligned_of_nat: "(x :: u32) AND 3 = 0 \<Longrightarrow> (x + of_nat (4 * j)) AND 3 = 0"
  using aligned_add[of x "int j"] by simp

lemma store_multiple_loop_other:
  assumes "ea AND 3 = 0" "y AND 3 = 0" "\<forall>j. r + j \<le> 31 \<longrightarrow> y \<noteq> ea + of_nat (4 * j)"
  shows "vm_read_memory_4 (mem (loadstore_multiple_loop False r ea s)) y = vm_read_memory_4 (mem s) y"
  using assms
proof (induction "32 - r" arbitrary: r ea s)
  case 0
  then show ?case by (subst loadstore_multiple_loop.simps) simp
next
  case (Suc n)
  have "(ea + 4) AND 3 = 0" using Suc.prems(1) by (rule pc_add_4)
  moreover have "\<forall>j. (r + 1) + j \<le> 31 \<longrightarrow> y \<noteq> (ea + 4) + of_nat (4 * j)"
  proof (intro allI impI)
    fix j assume "r + 1 + j \<le> 31"
    then have "y \<noteq> ea + of_nat (4 * (j + 1))" using Suc.prems(3)[rule_format, of "j + 1"] by simp
    then show "y \<noteq> (ea + 4) + of_nat (4 * j)" by (simp add: algebra_simps)
  qed
  ultimately have IH: "vm_read_memory_4 (mem (loadstore_multiple_loop False (r + 1) (ea + 4) s')) y = vm_read_memory_4 (mem s') y" for s'
    using Suc.hyps Suc.prems(2) by simp
  have "r \<le> 31" using Suc.hyps(2) by simp
  then have "y \<noteq> ea" using Suc.prems(3)[rule_format, of 0] by simp
  then have "vm_read_memory_4 (vm_write_memory_4 (mem s) ea (gpr s r)) y = vm_read_memory_4 (mem s) y"
    using Suc.prems(1,2) by (intro read_write_4_other) auto
  with IH \<open>r \<le> 31\<close> show ?case unfolding loadstore_multiple_loop.simps[of False r] by simp
qed

lemma offsets_distinct: "i < 32 \<Longrightarrow> j < 32 \<Longrightarrow> (x :: u32) + of_nat (4 * i) = x + of_nat (4 * j) \<Longrightarrow> i = j"
proof -
  assume b: "i < 32" "j < 32" and e: "x + of_nat (4 * i) = x + of_nat (4 * j)"
  from e have "(of_nat (4 * i) :: u32) = of_nat (4 * j)" by (rule add_left_imp_eq)
  then have "unat (of_nat (4 * i) :: u32) = unat (of_nat (4 * j) :: u32)" by (rule arg_cong)
  then show "i = j" using b by (simp only: unsigned_of_nat) (simp add: take_bit_nat_eq_self)
qed

lemma store_multiple_loop:
  assumes "ea AND 3 = 0" "r \<le> k" "k \<le> 31"
  shows "vm_read_memory_4 (mem (loadstore_multiple_loop False r ea s)) (ea + of_nat (4 * (k - r))) = gpr s k"
  using assms
proof (induction "k - r" arbitrary: r ea s)
  case 0
  have "\<forall>j. r + 1 + j \<le> 31 \<longrightarrow> ea \<noteq> (ea + 4) + of_nat (4 * j)"
  proof (intro allI impI notI)
    fix j assume "r + 1 + j \<le> 31" "ea = ea + 4 + of_nat (4 * j)"
    then show False using offsets_distinct[of 0 "j + 1" ea] by (simp add: algebra_simps)
  qed
  then have "vm_read_memory_4 (mem (loadstore_multiple_loop False (r + 1) (ea + 4) s')) ea = vm_read_memory_4 (mem s') ea" for s'
    using 0 by (intro store_multiple_loop_other) (simp_all add: pc_add_4)
  with 0 show ?case unfolding loadstore_multiple_loop.simps[of False r] by (simp add: read_write_4_same)
next
  case (Suc n)
  from Suc.hyps(2) have k: "4 * (k - r) = 4 + 4 * (k - (r + 1))" by simp
  have "vm_read_memory_4 (mem (loadstore_multiple_loop False (r + 1) (ea + 4) s')) ((ea + 4) + of_nat (4 * (k - (r + 1)))) = gpr s' k" for s'
    using Suc by (intro Suc.hyps(1)) (simp_all add: pc_add_4)
  with Suc show ?case unfolding loadstore_multiple_loop.simps[of False r] k by (simp add: add.assoc)
qed

text \<open>
  C33: \<^verbatim>\<open>stmw\<close> followed, in any later state with the same memory, by \<^verbatim>\<open>lmw\<close> from the
  same word-aligned address restores every register from rS to r31 and changes no other.
\<close>

theorem save_restore_registers:
  assumes "execute_loadstore_multiple RA DP False opcode s = Inr t"
    and "operand_get RA s opcode + operand_get DP s opcode = ea" "ea AND 3 = 0"
    and "mem t' = mem t" "operand_get RA' t' opcode' + operand_get DP' t' opcode' = ea"
    and "regno rD_field opcode' = regno rS_field opcode"
  shows "\<exists>u. execute_loadstore_multiple RA' DP' True opcode' t' = Inr u \<and> mem u = mem t \<and>
    (\<forall>k. gpr u k = (if regno rS_field opcode \<le> k \<and> k \<le> 31 then gpr s k else gpr t' k))"
proof -
  have r: "regno rS_field opcode < 32" by (rule regno_less_32) (simp_all add: wf_field_def field_width_def)
  have "mem t = mem (loadstore_multiple_loop False (regno rS_field opcode) ea s)"
    using assms(1,2,3) by (auto simp: execute_loadstore_multiple_def Let_def)
  with assms load_multiple_loop[of "regno rS_field opcode" ea t'] store_multiple_loop[of ea "regno rS_field opcode" _ s] r
  show ?thesis by (auto simp: execute_loadstore_multiple_def Let_def)
qed

theorem save_restore_registers_witness:
  "\<exists>t u. execute_loadstore_multiple operand_RA_or_0 operand_D False 0xbfc01000
      (zero_cpu\<lparr>gpr := (\<lambda>_. 0)(30 := 7, 31 := 9)\<rparr>) = Inr t \<and>
    execute_loadstore_multiple operand_RA_or_0 operand_D True 0xbbc01000 (t\<lparr>gpr := \<lambda>_. 0\<rparr>) = Inr u \<and>
    gpr u 30 = 7 \<and> gpr u 31 = 9"
proof -
  obtain t where t: "execute_loadstore_multiple operand_RA_or_0 operand_D False 0xbfc01000
      (zero_cpu\<lparr>gpr := (\<lambda>_. 0)(30 := 7, 31 := 9)\<rparr>) = Inr t"
    by (simp add: execute_loadstore_multiple_def eval_simps op_sign_extend_16_32_apply_def)
  from save_restore_registers[OF t, of "0x1000" "t\<lparr>gpr := \<lambda>_. 0\<rparr>" operand_RA_or_0 "0xbbc01000" operand_D] t
  show ?thesis by (auto simp: eval_simps op_sign_extend_16_32_apply_def)
qed

section \<open>Strings of bytes in registers\<close>

text \<open>Byte \<open>j\<close> of the string held in consecutive registers from \<open>r\<close> on, wrapping after r31.\<close>

definition reg_byte :: "(nat \<Rightarrow> u32) \<Rightarrow> nat \<Rightarrow> nat \<Rightarrow> u8" where
  "reg_byte g r j = ucast (drop_bit (24 - 8 * (j mod 4)) (g ((r + j div 4) mod 32)))"

lemma uint_add_small:
  fixes ea :: u32
  assumes "uint ea + int i < 2 ^ 32"
  shows "uint (ea + of_nat i) = uint ea + int i"
proof -
  have "(uint ea + int i) mod 2 ^ 32 = uint ea + int i" using assms by (intro mod_pos_pos_trivial) simp_all
  then show ?thesis by (simp add: uint_word_ariths unsigned_of_nat take_bit_eq_mod mod_simps zmod_int)
qed

lemma store_string_loop_spec:
  assumes "r < 32" "uint ea + int nb \<le> 2 ^ 32" "i \<le> nb"
  shows "gpr (store_string_loop ea nb i ((r + i div 4) mod 32) (24 - 8 * int (i mod 4)) s) = gpr s \<and>
    (\<forall>x. mem (store_string_loop ea nb i ((r + i div 4) mod 32) (24 - 8 * int (i mod 4)) s) x =
      (if uint ea + int i \<le> uint x \<and> uint x < uint ea + int nb then reg_byte (gpr s) r (nat (uint x - uint ea)) else mem s x))"
  using assms(3)
proof (induction "nb - i" arbitrary: i s)
  case 0
  then have "nb = i" by simp
  then show ?case by (subst (1 2) store_string_loop.simps) auto
next
  case (Suc n)
  let ?m = "vm_write_memory_1 (mem s) (ea + of_nat i) (drop_bit (nat (24 - 8 * int (i mod 4))) (gpr s ((r + i div 4) mod 32)))"
  let ?s = "s\<lparr>mem := ?m\<rparr>"
  from Suc.hyps(2) have i: "i < nb" by simp
  have ea: "uint (ea + of_nat i) = uint ea + int i"
    using assms(2) i by (intro uint_add_small) linarith
  have x: "x = ucast (ea + of_nat i) \<longleftrightarrow> uint x = uint ea + int i" for x :: u64
    using ea by (simp add: word_uint_eq_iff[of x] uint_ucast_up)
  have m: "?m x = (if uint x = uint ea + int i then reg_byte (gpr s) r i else mem s x)" for x
    unfolding reg_byte_def
    by (simp add: vm_write_defs vm_do_write_defs vm_do_get_real_address_def x nat_diff_distrib' nat_mult_distrib)
  have "store_string_loop ea nb i ((r + i div 4) mod 32) (24 - 8 * int (i mod 4)) s =
     store_string_loop ea nb (i + 1) ((r + (i + 1) div 4) mod 32) (24 - 8 * int ((i + 1) mod 4)) ?s"
  proof (cases "i mod 4 = 3")
    case True
    then have "(i + 1) div 4 = i div 4 + 1" "(i + 1) mod 4 = 0" by presburger+
    moreover have "((r + i div 4) mod 32 + 1) mod 32 = (r + (i div 4 + 1)) mod 32" by (simp add: mod_simps)
    ultimately show ?thesis
      using i True by (subst store_string_loop.simps) (simp add: Let_def)
  next
    case False
    then have "(i + 1) div 4 = i div 4" "(i + 1) mod 4 = i mod 4 + 1" "i mod 4 \<le> 2" by presburger+
    then show ?thesis
      using i by (subst store_string_loop.simps) (simp add: Let_def algebra_simps)
  qed
  then show ?case using Suc.hyps(1)[of "i + 1" ?s] Suc.hyps(2) i m
    by auto
qed

lemma load_string_loop_spec:
  assumes "r < 32" "n = (nb - i) div 4" "n \<le> 32" "i \<le> nb"
  shows "\<exists>s'. load_string_loop ea nb i r s = (i + 4 * n, (r + n) mod 32, s') \<and> mem s' = mem s \<and> pc s' = pc s \<and>
    (\<forall>j < n. gpr s' ((r + j) mod 32) = vm_read_memory_4 (mem s) (ea + of_nat (i + 4 * j))) \<and>
    (\<forall>k < 32. (\<forall>j < n. k \<noteq> (r + j) mod 32) \<longrightarrow> gpr s' k = gpr s k)"
  using assms
proof (induction n arbitrary: i r s)
  case 0
  then have "\<not> i + 4 \<le> nb" by auto
  with 0 show ?case by (subst load_string_loop.simps) simp
next
  case (Suc n)
  then have i: "i + 4 \<le> nb" "n = (nb - (i + 4)) div 4" by auto
  let ?s = "set_gpr r (vm_read_memory_4 (mem s) (ea + of_nat i)) s"
  let ?r = "(r + 1) mod 32"
  have rj: "(?r + j) mod 32 = (r + (j + 1)) mod 32" for j by (simp add: mod_simps)
  have "?r < 32" by simp
  from Suc.IH[OF this i(2) _ i(1), of ?s] Suc.prems(3) obtain s' where
    s': "load_string_loop ea nb (i + 4) ?r ?s = (i + 4 + 4 * n, (?r + n) mod 32, s')" "mem s' = mem ?s" "pc s' = pc ?s"
      "\<forall>j < n. gpr s' ((?r + j) mod 32) = vm_read_memory_4 (mem ?s) (ea + of_nat (i + 4 + 4 * j))"
      "\<forall>k < 32. (\<forall>j < n. k \<noteq> (?r + j) mod 32) \<longrightarrow> gpr s' k = gpr ?s k" by auto
  have first: "gpr s' r = vm_read_memory_4 (mem s) (ea + of_nat i)"
  proof -
    have "r \<noteq> (r + (j + 1)) mod 32" if "j < n" for j
      using that Suc.prems(1,3) by (cases "r + (j + 1) < 32") (auto simp: mod_if)
    then show ?thesis using s'(5) Suc.prems(1) rj by simp
  qed
  have "gpr s' ((r + j) mod 32) = vm_read_memory_4 (mem s) (ea + of_nat (i + 4 * j))" if "j < Suc n" for j
  proof (cases j)
    case 0 then show ?thesis using first Suc.prems(1) by simp
  next
    case (Suc j')
    then show ?thesis using s'(4)[rule_format, of j'] that rj[of j'] by (simp add: algebra_simps)
  qed
  moreover have "gpr s' k = gpr s k" if "k < 32" "\<forall>j < Suc n. k \<noteq> (r + j) mod 32" for k
  proof -
    have "\<forall>j < n. k \<noteq> (?r + j) mod 32" using that(2) unfolding rj by auto
    moreover have "k \<noteq> r" using that(2)[rule_format, of 0] Suc.prems(1) by simp
    ultimately show ?thesis using s'(5) that(1) by simp
  qed
  moreover have "(?r + n) mod 32 = (r + Suc n) mod 32" using rj[of n] by simp
  ultimately show ?case
    using s'(1-3) i(1) by (subst load_string_loop.simps) (simp add: algebra_simps)
qed

lemma read_4_byte:
  "p < 4 \<Longrightarrow> (ucast (drop_bit (24 - 8 * p) (vm_read_memory_4 m a)) :: u8) = m (ucast a + of_nat p)"
proof -
  assume "p < 4"
  then have "p = 0 \<or> p = 1 \<or> p = 2 \<or> p = 3" by auto
  then show ?thesis
    by (auto simp: vm_read_defs vm_do_read_defs vm_do_get_real_address_def byte_simps)
qed

lemma read_tail_sum:
  "push_bit 16 (vm_read_memory_2 m a) + push_bit 8 (vm_read_memory_1 m b) =
   push_bit 16 (vm_read_memory_2 m a) OR push_bit 8 (vm_read_memory_1 m b)"
proof (rule disjunctive_add_eq_or)
  show "push_bit 16 (vm_read_memory_2 m a) AND push_bit 8 (vm_read_memory_1 m b) = 0"
    by (rule word32_byte_eqI) (simp_all add: vm_read_defs vm_do_read_defs byte_simps)
qed

lemma addr_split:
  fixes ea :: u32
  assumes "uint ea + int j < 2 ^ 32" "i + p = j"
  shows "(ucast (ea + of_nat i) :: u64) + of_nat p = ucast ea + of_nat j"
proof -
  have "uint (ea + of_nat i) = uint ea + int i" using assms by (intro uint_add_small) linarith
  then have "(ucast (ea + of_nat i) :: u64) = ucast ea + of_nat i"
    unfolding ucast_eq by (simp only: of_int_add of_int_of_nat_eq)
  then show ?thesis using assms(2) by (simp add: add.assoc flip: of_nat_add)
qed

lemma reg_offsets_distinct:
  "r < 32 \<Longrightarrow> a < b \<Longrightarrow> b < 32 \<Longrightarrow> (r + a) mod 32 \<noteq> (r + b) mod (32 :: nat)"
  by (cases "r + b < 32"; cases "r + a < 32") (auto simp: mod_if)

lemma load_string_tail_byte:
  assumes "p < nb - i" "nb - i < 4" 
    and "p = 2 \<Longrightarrow> (ucast (ea + of_nat i + 2) :: u64) = ucast (ea + of_nat i) + 2"
  shows "(ucast (drop_bit (24 - 8 * p) (gpr (load_string_tail ea nb i rd s) rd)) :: u8) =
    mem s (ucast (ea + of_nat i) + of_nat p)"
proof -
  consider "nb - i = 1" "p = 0" | "nb - i = 2" "p = 0" | "nb - i = 2" "p = 1"
    | "nb - i = 3" "p = 0" | "nb - i = 3" "p = 1" | "nb - i = 3" "p = 2"
    using assms(1,2) by linarith
  then show ?thesis
    unfolding load_string_tail_def Let_def read_tail_sum
    by cases (use assms(3) in \<open>simp_all add: vm_read_defs vm_do_read_defs vm_do_get_real_address_def byte_simps\<close>)
qed

text \<open>What \<open>load_string_loop\<close> and \<open>load_string_tail\<close> leave in the registers, byte by byte.\<close>

lemma load_string_bytes:
  assumes "r < 32" "nb \<le> 128" "uint ea + int nb \<le> 2 ^ 32" "j < nb"
    and "load_string_loop ea nb 0 r s = (i, rd, s')"
  shows "reg_byte (gpr (load_string_tail ea nb i rd s')) r j = mem s (ucast ea + of_nat j)"
proof -
  let ?n = "nb div 4"
  have n: "?n = (nb - 0) div 4" "?n \<le> 32" using assms(2) by simp_all
  from load_string_loop_spec[OF assms(1) n, of ea s] 
  have l: "i = 4 * ?n" "rd = (r + ?n) mod 32" "mem s' = mem s"
    "\<forall>k < ?n. gpr s' ((r + k) mod 32) = vm_read_memory_4 (mem s) (ea + of_nat (4 * k))"
    unfolding assms(5) add_0_left by auto
  have k: "nb - i = nb mod 4" using l(1) by (simp add: minus_mult_div_eq_mod)
  have jb: "uint ea + int j < 2 ^ 32" using assms(3,4) by linarith
  show ?thesis
  proof (cases "j div 4 < ?n")
    case True
    have "nb mod 4 = 0 \<or> (r + j div 4) mod 32 \<noteq> rd"
    proof (cases "nb mod 4 = 0")
      case False
      then have "nb < 128" using assms(2) by (cases "nb = 128") auto
      then have "?n < 32" by auto
      then show ?thesis using True reg_offsets_distinct[OF assms(1), of "j div 4" ?n] l(2) by auto
    qed simp
    then have "gpr (load_string_tail ea nb i rd s') ((r + j div 4) mod 32) = gpr s' ((r + j div 4) mod 32)"
      unfolding load_string_tail_def k Let_def by auto
    then have g: "gpr (load_string_tail ea nb i rd s') ((r + j div 4) mod 32) =
        vm_read_memory_4 (mem s) (ea + of_nat (4 * (j div 4)))"
      using l(4) True by simp
    have "4 * (j div 4) + j mod 4 = j" by simp
    from addr_split[OF jb this] show ?thesis
      unfolding reg_byte_def g using read_4_byte[of "j mod 4" "mem s" "ea + of_nat (4 * (j div 4))"] by (simp only:)
  next
    case False
    have "j div 4 \<le> ?n" using assms(4) by (simp add: div_le_mono)
    with False have jn: "j div 4 = ?n" by simp
    then have m: "j mod 4 < nb mod 4"
      using mult_div_mod_eq[of 4 j] mult_div_mod_eq[of 4 nb] assms(4) by linarith
    have s: "i + j mod 4 = j" using mult_div_mod_eq[of 4 j] jn l(1) by linarith
    have w: "(ucast (ea + of_nat i + 2) :: u64) = ucast (ea + of_nat i) + 2" if "j mod 4 = 2"
    proof -
      have "int i + 2 = int j" using that s by linarith
      with jb have i2: "uint ea + int i + 2 < 2 ^ 32" by linarith
      then have "uint (ea + of_nat i) = uint ea + int i" by (intro uint_add_small) linarith
      with i2 have "uint (ea + of_nat i) + int 2 < 2 ^ 32" by simp
      from addr_split[OF this, of 2 0] show ?thesis by simp
    qed
    have g: "(r + j div 4) mod 32 = rd" using jn l(2) by simp
    have t: "(ucast (drop_bit (24 - 8 * (j mod 4)) (gpr (load_string_tail ea nb i rd s') rd)) :: u8) =
        mem s' (ucast (ea + of_nat i) + of_nat (j mod 4))"
      using m w by (intro load_string_tail_byte) (simp_all only: k mod_less_divisor zero_less_numeral)
    show ?thesis
      unfolding reg_byte_def g t addr_split[OF jb s] l(3) ..
  qed
qed

lemma addr_uint:
  fixes ea :: u32
  assumes "uint ea + int j < 2 ^ 32"
  shows "uint (ucast ea + of_nat j :: u64) = uint ea + int j"
proof -
  have "ucast (ea + of_nat j) = (ucast ea + of_nat j :: u64)" using addr_split[OF assms, of j 0] by simp
  then show ?thesis using uint_add_small[OF assms] uint_ucast_up[of "ea + of_nat j", where 'b = 64] by simp
qed

lemma execute_store_string_mem:
  assumes "execute_store_string RA IM NB opcode s = Inr t"
    and "ea = string_ea RA IM opcode s" "nb = string_nb IM NB opcode s" "uint ea + int nb \<le> 2 ^ 32" "j < nb"
  shows "mem t (ucast ea + of_nat j) = reg_byte (gpr s) (regno rS_field opcode) j"
proof -
  have r: "regno rS_field opcode < 32"
    by (rule regno_less_32; simp add: wf_field_def field_width_def)
  have jb: "uint ea + int j < 2 ^ 32" using assms(4,5) by linarith
  have "mem t = mem (store_string_loop ea nb 0 (regno rS_field opcode) 24 s)"
    using assms(1-3) by (auto simp: execute_store_string_def Let_def)
  then show ?thesis
    using store_string_loop_spec[OF r assms(4), of 0 s] assms(5) r addr_uint[OF jb] by simp
qed

lemma load_string_mem:
  assumes "r < 32" "nb \<le> 128" "load_string_loop ea nb 0 r s = (i, rd, s')"
  shows "mem (load_string_tail ea nb i rd s') = mem s"
proof -
  have n: "nb div 4 = (nb - 0) div 4" "nb div 4 \<le> 32" using assms(2) by simp_all
  from load_string_loop_spec[OF assms(1) n, of ea s] assms(3) have "mem s' = mem s" by auto
  then show ?thesis by (simp add: load_string_tail_def Let_def)
qed

text \<open>
  \<^verbatim>\<open>stswi\<close>/\<^verbatim>\<open>stswx\<close> writes byte \<open>j\<close> of the register string (registers wrap
  from r31 to r0) to memory byte \<open>j\<close>, and \<^verbatim>\<open>lswi\<close>/\<^verbatim>\<open>lswx\<close> of the same area reads
  the same string back, for up to the 128 bytes the register file can hold and a string
  that does not run past the end of the address space.
\<close>

theorem string_roundtrip:
  assumes "execute_store_string RA IM NB opcode s = Inr t"
    and "ea = string_ea RA IM opcode s" "nb = string_nb IM NB opcode s"
    and "nb \<le> 128" "uint ea + int nb \<le> 2 ^ 32"
    and "mem t' = mem t" "string_ea RA' IM' opcode' t' = ea" "string_nb IM' NB' opcode' t' = nb"
    and "j < nb"
  shows "\<exists>u. execute_load_string RA' IM' NB' opcode' t' = Inr u \<and> mem u = mem t \<and>
    mem t (ucast ea + of_nat j) = reg_byte (gpr s) (regno rS_field opcode) j \<and>
    reg_byte (gpr u) (regno rD_field opcode') j = reg_byte (gpr s) (regno rS_field opcode) j"
proof -
  have r: "regno rD_field opcode' < 32"
    by (rule regno_less_32; simp add: wf_field_def field_width_def)
  obtain i rd s' where l: "load_string_loop ea nb 0 (regno rD_field opcode') t' = (i, rd, s')"
    by (metis prod_cases3)
  have u: "execute_load_string RA' IM' NB' opcode' t' = Inr (increment_pc 4 (load_string_tail ea nb i rd s'))"
    using assms(7,8) l by (simp add: execute_load_string_def Let_def)
  show ?thesis
    using execute_store_string_mem[OF assms(1-3,5,9)] load_string_mem[OF r assms(4) l]
      load_string_bytes[OF r assms(4,5,9) l] assms(6) u by auto
qed

theorem string_roundtrip_witness:
  "\<exists>t u. execute_store_string operand_RA_or_0 True operand_NB 0x7c4025aa
      (zero_cpu\<lparr>gpr := (\<lambda>_. 0)(2 := 0x11223344)\<rparr>) = Inr t \<and>
    execute_load_string operand_RA_or_0 True operand_NB 0x7ca024aa t = Inr u \<and>
    reg_byte (gpr u) 5 1 = 0x22"
proof -
  obtain t where t: "execute_store_string operand_RA_or_0 True operand_NB 0x7c4025aa
      (zero_cpu\<lparr>gpr := (\<lambda>_. 0)(2 := 0x11223344)\<rparr>) = Inr t"
    by (simp add: execute_store_string_def Let_def)
  have c: "string_ea operand_RA_or_0 True 0x7c4025aa (zero_cpu\<lparr>gpr := (\<lambda>_. 0)(2 := 0x11223344)\<rparr>) = 0"
    "string_nb True operand_NB 0x7c4025aa (zero_cpu\<lparr>gpr := (\<lambda>_. 0)(2 := 0x11223344)\<rparr>) = 4"
    "string_ea operand_RA_or_0 True 0x7ca024aa t = 0" "string_nb True operand_NB 0x7ca024aa t = 4"
    "regno TO_field 0x7ca024aa = 5" "regno TO_field 0x7c4025aa = 2"
    by (simp_all add: string_ea_def string_nb_def eval_simps)
  have "reg_byte ((\<lambda>_. 0)(2 := 0x11223344)) 2 1 = 0x22" by (simp add: reg_byte_def)
  with string_roundtrip[OF t c(1)[symmetric] c(2)[symmetric] _ _ refl c(3,4), of 1] t c(5,6)
  show ?thesis by auto
qed

end
