(* ===== verification/PPC_System.thy ===== *)
theory PPC_System
  imports PPC_LoadStore
begin

unbundle bit_operations_syntax

text \<open>
  The handlers of \<^verbatim>\<open>ppc-execute.cpp\<close> that deal with illegal instructions, system
  calls and the system registers (condition register moves, FPSCR moves, special-purpose
  and time-base registers). What they ask of the rest of the emulator and of the host is the
  record \<open>host\<close>: the preference \<^verbatim>\<open>ignoreillegal\<close>, the globals \<^verbatim>\<open>PVR\<close> and
  \<^verbatim>\<open>TimebaseSpeed\<close>, the clock reading \<^verbatim>\<open>GetTicks_usec()\<close> of the current step, and the
  content of the local variable that \<^verbatim>\<open>execute_mftbr\<close> leaves unassigned on one path.
  Floating-point exceptions are compiled out (\<^verbatim>\<open>PPC_ENABLE_FPU_EXCEPTIONS\<close> is 0), so
  \<^verbatim>\<open>record_fpscr\<close> does nothing.
\<close>

record host =
  ignoreillegal :: bool
  host_PVR :: u32
  TimebaseSpeed :: u32
  GetTicks_usec :: u64
  mftbr_unassigned :: u32

definition execute_illegal :: "('h) host_scheme \<Rightarrow> u32 \<Rightarrow> powerpc_cpu \<Rightarrow> result" where
  "execute_illegal H opcode s =
     (if ignoreillegal H then Inr (increment_pc 4 s) else Inl (Illegal_instruction opcode))"

definition execute_nop :: "u32 \<Rightarrow> powerpc_cpu \<Rightarrow> result" where
  "execute_nop opcode s = Inr (increment_pc 4 s)"

definition execute_syscall :: "('h) host_scheme \<Rightarrow> u32 \<Rightarrow> powerpc_cpu \<Rightarrow> result" where
  "execute_syscall H opcode s = and_then (execute_illegal H opcode s) (\<lambda>s. Inr (increment_pc 4 s))"

section \<open>Rounding modes\<close>

definition ppc_to_native_rounding_mode :: "u32 \<Rightarrow> fe_round" where
  "ppc_to_native_rounding_mode r =
     (if r = 0 then FE_TONEAREST else if r = 1 then FE_TOWARDZERO
      else if r = 2 then FE_UPWARD else if r = 3 then FE_DOWNWARD else FE_TONEAREST)"

primrec native_to_ppc_rounding_mode :: "fe_round \<Rightarrow> u32" where
  "native_to_ppc_rounding_mode FE_TONEAREST = 0"
| "native_to_ppc_rounding_mode FE_TOWARDZERO = 1"
| "native_to_ppc_rounding_mode FE_UPWARD = 2"
| "native_to_ppc_rounding_mode FE_DOWNWARD = 3"

section \<open>Condition-register moves\<close>

definition field2mask :: "u32 \<Rightarrow> u32" where
  "field2mask i =
     (if i AND 0x01 \<noteq> 0 then 0x0000000f else 0) OR (if i AND 0x02 \<noteq> 0 then 0x000000f0 else 0) OR
     (if i AND 0x04 \<noteq> 0 then 0x00000f00 else 0) OR (if i AND 0x08 \<noteq> 0 then 0x0000f000 else 0) OR
     (if i AND 0x10 \<noteq> 0 then 0x000f0000 else 0) OR (if i AND 0x20 \<noteq> 0 then 0x00f00000 else 0) OR
     (if i AND 0x40 \<noteq> 0 then 0x0f000000 else 0) OR (if i AND 0x80 \<noteq> 0 then 0xf0000000 else 0)"

definition execute_mcrf :: "u32 \<Rightarrow> powerpc_cpu \<Rightarrow> result" where
  "execute_mcrf opcode s =
     (let crfS = regno crfS_field opcode;
          crfD = regno crfD_field opcode
      in Inr (increment_pc 4 (s\<lparr>cr := cr_set_field (cr s) crfD (cr_get_field (cr s) crfS)\<rparr>)))"

definition mcrfs_exceptions :: u32 where
  "mcrfs_exceptions =
     field_mask FPSCR_FX_field OR field_mask FPSCR_OX_field OR field_mask FPSCR_UX_field OR
     field_mask FPSCR_ZX_field OR field_mask FPSCR_XX_field OR field_mask FPSCR_VXSNAN_field OR
     field_mask FPSCR_VXISI_field OR field_mask FPSCR_VXIDI_field OR field_mask FPSCR_VXZDZ_field OR
     field_mask FPSCR_VXIMZ_field OR field_mask FPSCR_VXVC_field OR field_mask FPSCR_VXSOFT_field OR
     field_mask FPSCR_VXSQRT_field OR field_mask FPSCR_VXCVI_field"

definition execute_mcrfs :: "u32 \<Rightarrow> powerpc_cpu \<Rightarrow> result" where
  "execute_mcrfs opcode s =
     (let crfS = regno crfS_field opcode;
          crfD = regno crfD_field opcode;
          m = push_bit (28 - 4 * crfS) 0xf;
          s = s\<lparr>cr := cr_set_field (cr s) crfD (drop_bit (28 - 4 * crfS) (fpscr s AND m))\<rparr>;
          s = s\<lparr>fpscr := fpscr s AND NOT (m AND mcrfs_exceptions)\<rparr>
      in Inr (increment_pc 4 s))"

definition execute_mcrxr :: "u32 \<Rightarrow> powerpc_cpu \<Rightarrow> result" where
  "execute_mcrxr opcode s =
     (let crfD = regno crfD_field opcode;
          x = xer_get (xer s);
          s = s\<lparr>cr := cr_set_field (cr s) crfD (drop_bit 28 x)\<rparr>;
          s = s\<lparr>xer := xer_set (x AND 0x0fffffff) (xer s)\<rparr>
      in Inr (increment_pc 4 s))"

definition execute_mtcrf :: "u32 \<Rightarrow> powerpc_cpu \<Rightarrow> result" where
  "execute_mtcrf opcode s =
     (let m = field2mask (field_extract CRM_field opcode)
      in Inr (increment_pc 4
           (s\<lparr>cr := (operand_get operand_RS s opcode AND m) OR (cr s AND NOT m)\<rparr>)))"

section \<open>FPSCR moves\<close>

definition FEX_VX :: u32 where
  "FEX_VX = field_mask FPSCR_FEX_field OR field_mask FPSCR_VX_field"

definition record_fpscr :: "u32 \<Rightarrow> powerpc_cpu \<Rightarrow> powerpc_cpu" where
  "record_fpscr exceptions s = s"

definition update_host_rounding :: "u32 \<Rightarrow> powerpc_cpu \<Rightarrow> powerpc_cpu" where
  "update_host_rounding m s =
     (if m AND field_mask FPSCR_RN_field \<noteq> 0
      then s\<lparr>host_round := ppc_to_native_rounding_mode (field_extract FPSCR_RN_field (fpscr s))\<rparr>
      else s)"

definition execute_mtfsf :: "operand \<Rightarrow> bit_field \<Rightarrow> opcode_pred \<Rightarrow> u32 \<Rightarrow> powerpc_cpu \<Rightarrow> result" where
  "execute_mtfsf FM RB Rc opcode s =
     (let fsf = fpr s (regno RB opcode);
          f = operand_get FM s opcode;
          m = field2mask f;
          m = (if f AND 0x80 = 0 then m AND NOT (field_mask FPSCR_FX_field) else m);
          exceptions = (ucast fsf AND m) AND NOT FEX_VX;
          s = s\<lparr>fpscr := (fpscr s AND NOT m) OR exceptions\<rparr>;
          s = record_fpscr 0 s;
          s = update_host_rounding m s;
          s = upd_if (pred_test Rc opcode) record_cr1 s
      in Inr (increment_pc 4 s))"

definition execute_mtfsfi :: "operand \<Rightarrow> opcode_pred \<Rightarrow> u32 \<Rightarrow> powerpc_cpu \<Rightarrow> result" where
  "execute_mtfsfi RB Rc opcode s =
     (let crfD = regno crfD_field opcode;
          m = push_bit (4 * (7 - crfD)) 0xf;
          m = (if crfD = 0 then m AND NOT (field_mask FPSCR_FX_field) else m);
          exceptions = (operand_get RB s opcode AND m) AND NOT FEX_VX;
          s = s\<lparr>fpscr := (fpscr s AND NOT m) OR exceptions\<rparr>;
          s = update_host_rounding m s;
          s = record_fpscr 0 s;
          s = upd_if (pred_test Rc opcode) record_cr1 s
      in Inr (increment_pc 4 s))"

definition execute_mtfsb :: "operand \<Rightarrow> opcode_pred \<Rightarrow> u32 \<Rightarrow> powerpc_cpu \<Rightarrow> result" where
  "execute_mtfsb RB Rc opcode s =
     (let set_bit = (operand_get RB s opcode \<noteq> 0);
          m = push_bit (31 - regno crbD_field opcode) 1;
          m = m AND NOT FEX_VX;
          s = s\<lparr>fpscr := fpscr s AND NOT m\<rparr>;
          s = record_fpscr (if set_bit then m else 0) s;
          s = update_host_rounding m s;
          s = upd_if (pred_test Rc opcode) record_cr1 s
      in Inr (increment_pc 4 s))"

definition execute_mffs :: "opcode_pred \<Rightarrow> u32 \<Rightarrow> powerpc_cpu \<Rightarrow> result" where
  "execute_mffs Rc opcode s =
     (let s = set_fpr (regno frD_field opcode) (ucast (fpscr s)) s;
          s = upd_if (pred_test Rc opcode) record_cr1 s
      in Inr (increment_pc 4 s))"

section \<open>Special-purpose and time-base registers\<close>

definition execute_mfmsr :: "u32 \<Rightarrow> powerpc_cpu \<Rightarrow> result" where
  "execute_mfmsr opcode s =
     and_then (operand_set operand_RD opcode 0xf072 s) (\<lambda>s. Inr (increment_pc 4 s))"

definition SPR_XER :: u32 where "SPR_XER = 1"
definition SPR_LR :: u32 where "SPR_LR = 8"
definition SPR_CTR :: u32 where "SPR_CTR = 9"
definition SPR_SDR1 :: u32 where "SPR_SDR1 = 25"
definition SPR_PVR :: u32 where "SPR_PVR = 287"
definition SPR_VRSAVE :: u32 where "SPR_VRSAVE = 256"

lemmas spr_defs = SPR_XER_def SPR_LR_def SPR_CTR_def SPR_SDR1_def SPR_PVR_def SPR_VRSAVE_def

definition execute_mfspr :: "('h) host_scheme \<Rightarrow> operand \<Rightarrow> u32 \<Rightarrow> powerpc_cpu \<Rightarrow> result" where
  "execute_mfspr H SPR opcode s =
     (let spr = operand_get SPR s opcode;
          d = (if spr = SPR_XER then xer_get (xer s) else if spr = SPR_LR then lr s
               else if spr = SPR_CTR then ctr s else if spr = SPR_VRSAVE then vrsave s
               else if spr = SPR_SDR1 then 0xdead001f else if spr = SPR_PVR then host_PVR H else 0)
      in and_then (operand_set operand_RD opcode d s) (\<lambda>s. Inr (increment_pc 4 s)))"

definition execute_mtspr :: "operand \<Rightarrow> u32 \<Rightarrow> powerpc_cpu \<Rightarrow> result" where
  "execute_mtspr SPR opcode s =
     (let spr = operand_get SPR s opcode;
          v = operand_get operand_RS s opcode;
          s = (if spr = SPR_XER then s\<lparr>xer := xer_set v (xer s)\<rparr>
               else if spr = SPR_LR then s\<lparr>lr := v\<rparr>
               else if spr = SPR_CTR then s\<lparr>ctr := v\<rparr>
               else if spr = SPR_VRSAVE then s\<lparr>vrsave := v\<rparr>
               else s)
      in Inr (increment_pc 4 s))"

definition muldiv64 :: "u64 \<Rightarrow> u32 \<Rightarrow> u32 \<Rightarrow> u64" where
  "muldiv64 a b c =
     (let u_low = ucast a :: u32;
          u_high = ucast (drop_bit 32 a) :: u32;
          rl = (ucast u_low :: u64) * ucast b;
          rh = (ucast u_high :: u64) * ucast b;
          rh = rh + drop_bit 32 rl;
          res_high = ucast (rh div ucast c) :: u32;
          res_low = ucast ((push_bit 32 (rh mod ucast c) + (rl AND 0xffffffff)) div ucast c) :: u32
      in push_bit 32 (ucast res_high) OR ucast res_low)"

definition get_tb_ticks :: "('h) host_scheme \<Rightarrow> u64" where
  "get_tb_ticks H = muldiv64 (GetTicks_usec H) (TimebaseSpeed H) 1000000"

definition execute_mftbr :: "('h) host_scheme \<Rightarrow> operand \<Rightarrow> u32 \<Rightarrow> powerpc_cpu \<Rightarrow> result" where
  "execute_mftbr H TBR opcode s =
     (let tbr = operand_get TBR s opcode
      in and_then
           (if tbr = 268 then operand_set operand_RD opcode (ucast (get_tb_ticks H)) s
            else if tbr = 269 then operand_set operand_RD opcode (ucast (drop_bit 32 (get_tb_ticks H))) s
            else and_then (execute_illegal H opcode s)
                   (\<lambda>s. operand_set operand_RD opcode (mftbr_unassigned H) s))
           (\<lambda>s. Inr (increment_pc 4 s)))"

section \<open>The handlers keep the register-file invariant\<close>

lemma wf_execute_illegal: "wf_cpu s \<Longrightarrow> wf_result (execute_illegal H opcode s)"
  by (simp add: execute_illegal_def wf_intros)

lemma wf_execute_nop: "wf_cpu s \<Longrightarrow> wf_result (execute_nop opcode s)"
  by (simp add: execute_nop_def wf_intros)

lemma wf_execute_syscall: "wf_cpu s \<Longrightarrow> wf_result (execute_syscall H opcode s)"
  by (simp add: execute_syscall_def execute_illegal_def wf_intros)

lemma wf_execute_mcr: 
  assumes "wf_cpu s"
  shows "wf_result (execute_mcrf opcode s)" "wf_result (execute_mcrfs opcode s)"
    "wf_result (execute_mcrxr opcode s)" "wf_result (execute_mtcrf opcode s)"
  using assms
  by (auto simp: execute_mcrf_def execute_mcrfs_def execute_mcrxr_def execute_mtcrf_def Let_def intro!: wf_intros)

lemma wf_update_host_rounding [wf_intros]: "wf_cpu s \<Longrightarrow> wf_cpu (update_host_rounding m s)"
  by (simp add: update_host_rounding_def wf_intros)

lemma wf_execute_mtfs:
  assumes "wf_cpu s"
  shows "wf_result (execute_mtfsf FM RBf Rc opcode s)" "wf_result (execute_mtfsfi RB Rc opcode s)"
    "wf_result (execute_mtfsb RB Rc opcode s)" "wf_result (execute_mffs Rc opcode s)"
  using assms
  by (auto simp: execute_mtfsf_def execute_mtfsfi_def execute_mtfsb_def execute_mffs_def record_fpscr_def
      Let_def intro!: wf_intros)

lemma wf_execute_mfmsr: "wf_cpu s \<Longrightarrow> wf_result (execute_mfmsr opcode s)"
  unfolding execute_mfmsr_def by (intro wf_intros)

lemma wf_execute_mfspr: "wf_cpu s \<Longrightarrow> wf_result (execute_mfspr H SPR opcode s)"
  unfolding execute_mfspr_def Let_def by (intro wf_intros)

lemma wf_execute_mtspr: "wf_cpu s \<Longrightarrow> wf_result (execute_mtspr SPR opcode s)"
  by (auto simp: execute_mtspr_def Let_def intro!: wf_intros)

lemma wf_execute_mftbr: "wf_cpu s \<Longrightarrow> wf_result (execute_mftbr H TBR opcode s)"
  unfolding execute_mftbr_def Let_def
  by (auto intro!: wf_intros simp: execute_illegal_def)

section \<open>Functional behaviour\<close>

text \<open>A concrete host, for the examples.\<close>

definition zero_host :: host where
  "zero_host = \<lparr>ignoreillegal = True, host_PVR = 0x000c0000, TimebaseSpeed = 25000000, GetTicks_usec = 0,
     mftbr_unassigned = 0\<rparr>"

lemma and_power_neq_0: "(x :: u32) AND 2 ^ k \<noteq> 0 \<longleftrightarrow> bit x k"
  by (simp add: bit_iff_and_push_bit_not_eq_0 push_bit_eq_mult)

lemma nibble_at_const: "x = push_bit k (0xf :: u32) \<Longrightarrow> k \<le> 28 \<Longrightarrow> bit x n \<longleftrightarrow> k \<le> n \<and> n < k + 4"
  using bit_nibble_at[of k n] by auto

lemma bit_if_0: "bit (if p then x else (0 :: u32)) n \<longleftrightarrow> p \<and> bit x n"
  by simp

lemma bit_nibbles:
  "bit (0x0000000f :: u32) n \<longleftrightarrow> 0 \<le> n \<and> n < 0 + 4" "bit (0x000000f0 :: u32) n \<longleftrightarrow> 4 \<le> n \<and> n < 4 + 4"
  "bit (0x00000f00 :: u32) n \<longleftrightarrow> 8 \<le> n \<and> n < 8 + 4" "bit (0x0000f000 :: u32) n \<longleftrightarrow> 12 \<le> n \<and> n < 12 + 4"
  "bit (0x000f0000 :: u32) n \<longleftrightarrow> 16 \<le> n \<and> n < 16 + 4" "bit (0x00f00000 :: u32) n \<longleftrightarrow> 20 \<le> n \<and> n < 20 + 4"
  "bit (0x0f000000 :: u32) n \<longleftrightarrow> 24 \<le> n \<and> n < 24 + 4" "bit (0xf0000000 :: u32) n \<longleftrightarrow> 28 \<le> n \<and> n < 28 + 4"
  by (rule nibble_at_const; simp add: push_bit_eq_mult)+

lemma field2mask_tests:
  fixes i :: u32
  shows "i AND 0x01 \<noteq> 0 \<longleftrightarrow> bit i 0" "i AND 0x02 \<noteq> 0 \<longleftrightarrow> bit i 1" "i AND 0x04 \<noteq> 0 \<longleftrightarrow> bit i 2"
    "i AND 0x08 \<noteq> 0 \<longleftrightarrow> bit i 3" "i AND 0x10 \<noteq> 0 \<longleftrightarrow> bit i 4" "i AND 0x20 \<noteq> 0 \<longleftrightarrow> bit i 5"
    "i AND 0x40 \<noteq> 0 \<longleftrightarrow> bit i 6" "i AND 0x80 \<noteq> 0 \<longleftrightarrow> bit i 7"
proof -
  have p: "x = 2 ^ k \<Longrightarrow> i AND x \<noteq> 0 \<longleftrightarrow> bit i k" for x k by (simp only: and_power_neq_0)
  show "i AND 0x01 \<noteq> 0 \<longleftrightarrow> bit i 0" "i AND 0x02 \<noteq> 0 \<longleftrightarrow> bit i 1" "i AND 0x04 \<noteq> 0 \<longleftrightarrow> bit i 2"
    "i AND 0x08 \<noteq> 0 \<longleftrightarrow> bit i 3" "i AND 0x10 \<noteq> 0 \<longleftrightarrow> bit i 4" "i AND 0x20 \<noteq> 0 \<longleftrightarrow> bit i 5"
    "i AND 0x40 \<noteq> 0 \<longleftrightarrow> bit i 6" "i AND 0x80 \<noteq> 0 \<longleftrightarrow> bit i 7"
    by (rule p, simp)+
qed

lemma bit_field2mask:
  assumes "f < 8" "k < 4"
  shows "bit (field2mask i) (4 * f + k) \<longleftrightarrow> bit i f"
proof -
  have "f = 0 \<or> f = 1 \<or> f = 2 \<or> f = 3 \<or> f = 4 \<or> f = 5 \<or> f = 6 \<or> f = 7" using assms(1) by auto
  then show ?thesis
    using assms(2) unfolding field2mask_def field2mask_tests bit_or_iff bit_if_0 bit_nibbles
    by (elim disjE) simp_all
qed

text \<open>
  \<^verbatim>\<open>mtcrf\<close> copies exactly the CR fields selected by the CRM mask from rS; the table
  \<^verbatim>\<open>field2mask\<close> built at start-up expands each mask bit to its four CR bits.
\<close>

theorem mtcrf_correct:
  assumes "f < 8"
  shows "\<exists>t. execute_mtcrf opcode s = Inr t \<and>
    cr_get_field (cr t) f =
      (if bit (field_extract CRM_field opcode) (7 - f)
       then cr_get_field (gpr s (regno rS_field opcode)) f else cr_get_field (cr s) f) \<and>
    gpr t = gpr s \<and> pc t = pc s + 4"
proof -
  let ?i = "field_extract CRM_field opcode" and ?g = "gpr s (regno rS_field opcode)"
  have "cr_get_field ((?g AND field2mask ?i) OR (cr s AND NOT (field2mask ?i))) f =
      (if bit ?i (7 - f) then cr_get_field ?g f else cr_get_field (cr s) f)"
  proof (rule bit_word_eqI)
    fix n assume "n < LENGTH(32)"
    have i: "28 - 4 * f + n = 4 * (7 - f) + n" using assms by simp
    show "bit (cr_get_field ((?g AND field2mask ?i) OR (cr s AND NOT (field2mask ?i))) f) n =
      bit (if bit ?i (7 - f) then cr_get_field ?g f else cr_get_field (cr s) f) n"
    proof (cases "n < 4")
      case True
      then have "bit (field2mask ?i) (28 - 4 * f + n) \<longleftrightarrow> bit ?i (7 - f)"
        unfolding i using assms by (intro bit_field2mask) auto
      moreover have "28 - 4 * f + n < 32" using True by auto
      ultimately show ?thesis using True assms
        by (cases "bit ?i (7 - f)") (auto simp: bit_cr_get_field bit_or_iff bit_and_iff bit_not_iff)
    next
      case False then show ?thesis using assms by (simp add: bit_cr_get_field)
    qed
  qed
  then show ?thesis by (simp add: execute_mtcrf_def Let_def)
qed

theorem mtcrf_correct_witness:
  "\<exists>t. execute_mtcrf 0x7c480120 (zero_cpu\<lparr>gpr := (\<lambda>_. 0)(2 := 0x12345678)\<rparr>) = Inr t \<and> cr_get_field (cr t) 0 = 1"
  using mtcrf_correct[of 0 "0x7c480120" "zero_cpu\<lparr>gpr := (\<lambda>_. 0)(2 := 0x12345678)\<rparr>"]
  by (auto simp: eval_simps cr_get_field_def)

definition writable_sprs :: "u32 list" where
  "writable_sprs = [SPR_XER, SPR_LR, SPR_CTR, SPR_VRSAVE]"

text \<open>
  \<^verbatim>\<open>mfspr\<close> reads back what \<^verbatim>\<open>mtspr\<close> wrote to LR, CTR, VRSAVE and, up to the bits
  the XER implements, XER.
\<close>

theorem spr_roundtrip:
  assumes "execute_mtspr operand_SPR opcode s = Inr t" "spr_operand_get opcode \<in> set writable_sprs"
    "spr_operand_get opcode' = spr_operand_get opcode"
  shows "\<exists>u. execute_mfspr H operand_SPR opcode' t = Inr u \<and>
    gpr u (regno rD_field opcode') =
      (if spr_operand_get opcode = SPR_XER then gpr s (regno rS_field opcode) AND 0xe000007f
       else gpr s (regno rS_field opcode))"
  using assms
  by (auto simp: execute_mtspr_def execute_mfspr_def Let_def writable_sprs_def spr_defs xer_get_set)

theorem spr_roundtrip_witness:
  "\<exists>t u. execute_mtspr operand_SPR 0x7c4803a6 (zero_cpu\<lparr>gpr := (\<lambda>_. 0)(2 := 0x1234)\<rparr>) = Inr t \<and>
     execute_mfspr zero_host operand_SPR 0x7c6802a6 t = Inr u \<and> gpr u 3 = 0x1234"
proof -
  obtain t where t: "execute_mtspr operand_SPR 0x7c4803a6 (zero_cpu\<lparr>gpr := (\<lambda>_. 0)(2 := 0x1234)\<rparr>) = Inr t"
    by (simp add: execute_mtspr_def Let_def)
  from spr_roundtrip[OF t, of "0x7c6802a6" zero_host] t show ?thesis
    by (auto simp: eval_simps spr_operand_get_def writable_sprs_def spr_defs)
qed

lemma nat_split32: "uint (a :: u64) = uint (ucast (drop_bit 32 a) :: u32) * 2 ^ 32 + uint (ucast a :: u32)"
proof -
  have "uint (ucast a :: u32) = uint a mod 2 ^ 32" by (simp add: unsigned_ucast_eq take_bit_eq_mod)
  moreover have "uint (ucast (drop_bit 32 a) :: u32) = uint a div 2 ^ 32"
  proof -
    have d: "uint (drop_bit 32 a) = uint a div 2 ^ 32"
      using drop_bit_eq_div[of 32 "uint a"] uint_lt2p[of a]
      by (simp add: unsigned_drop_bit_eq take_bit_int_eq_self)
    show ?thesis unfolding unsigned_ucast_eq d
      by (rule u64_cases[of a]) (simp add: take_bit_int_eq_self)
  qed
  ultimately show ?thesis by (simp only: div_mult_mod_eq)
qed

lemma muldiv_int:
  fixes a h l b c :: int
  assumes "0 < c" "a = h * 2 ^ 32 + l"
  defines "rh \<equiv> h * b + (l * b) div 2 ^ 32"
  shows "(a * b) div c = (rh div c) * 2 ^ 32 + ((rh mod c) * 2 ^ 32 + (l * b) mod 2 ^ 32) div c"
proof -
  have "a * b = rh * 2 ^ 32 + (l * b) mod 2 ^ 32"
    unfolding assms(2) rh_def by (simp add: algebra_simps)
  also have "\<dots> = c * ((rh div c) * 2 ^ 32) + ((rh mod c) * 2 ^ 32 + (l * b) mod 2 ^ 32)"
  proof -
    have "rh * 2 ^ 32 = (c * (rh div c) + rh mod c) * 2 ^ 32" by simp
    also have "\<dots> = c * ((rh div c) * 2 ^ 32) + (rh mod c) * 2 ^ 32" by (simp only: distrib_right mult.assoc)
    finally show ?thesis by simp
  qed
  finally show ?thesis using assms(1) by simp
qed

lemma uint_join32: "uint (push_bit 32 (ucast (H :: u32)) OR ucast (L :: u32) :: u64) = uint H * 2 ^ 32 + uint L"
proof -
  let ?w = "push_bit 32 (ucast H) OR ucast L :: u64"
  have l: "(ucast ?w :: u32) = L"
    by (rule bit_word_eqI) (auto simp: bit_rules)
  have "(ucast (drop_bit 32 ?w) :: u32) = H"
    by (rule bit_word_eqI) (auto simp: bit_rules dest: bit_imp_le_length)
  with l show ?thesis using nat_split32[of ?w] by simp
qed

text \<open>
  The 96-bit multiply-divide behind the time base is exact: it returns the floor of
  \<open>a * b / c\<close> whenever that quotient fits 64 bits, with no intermediate overflow.
\<close>

theorem muldiv64_correct:
  assumes "c \<noteq> 0" "uint a * uint b div uint c < 2 ^ 64"
  shows "uint (muldiv64 a b c) = uint a * uint b div uint c"
proof -
  define l h B C where "l = uint (ucast a :: u32)" and "h = uint (ucast (drop_bit 32 a) :: u32)"
    and "B = uint b" and "C = uint c"
  have r: "0 \<le> l" "l < 2 ^ 32" "0 \<le> h" "h < 2 ^ 32" "0 \<le> B" "B < 2 ^ 32" "0 < C" "C < 2 ^ 32"
    using assms(1) uint_lt2p[of "ucast a :: u32"] uint_lt2p[of "ucast (drop_bit 32 a) :: u32"] uint_lt2p[of b] uint_lt2p[of c]
    by (simp_all add: l_def h_def B_def C_def word_neq_0_conv word_less_def)
  have a: "uint a = h * 2 ^ 32 + l" unfolding l_def h_def by (rule nat_split32)
  define rl where "rl = (ucast (ucast a :: u32) :: u64) * ucast b"
  define rh where "rh = (ucast (ucast (drop_bit 32 a) :: u32) :: u64) * ucast b + drop_bit 32 rl"
  define R where "R = h * B + (l * B) div 2 ^ 32"
  have rl: "uint rl = l * B" unfolding rl_def l_def B_def by (rule uint_mult_cast)
  have dr: "uint (drop_bit 32 w) = uint w div 2 ^ 32" for w :: u64
    using drop_bit_eq_div[of 32 "uint w"] uint_lt2p[of w]
    by (simp add: unsigned_drop_bit_eq take_bit_int_eq_self)
  have bnd: "h * B \<le> (2 ^ 32 - 1) * (2 ^ 32 - 1)" "l * B \<le> (2 ^ 32 - 1) * (2 ^ 32 - 1)"
    using r by (intro mult_mono; simp)+
  then have R: "0 \<le> R" "R < 2 ^ 64" using r unfolding R_def by (auto simp: div_int_pos_iff)
  have rh: "uint rh = R"
    unfolding rh_def uint_word_ariths(1) dr rl uint_mult_cast h_def[symmetric] B_def[symmetric] R_def[symmetric]
    using R by simp
  have C: "uint (ucast c :: u64) = C" unfolding C_def by (rule uint_ucast_up) simp
  have q: "uint a * B div C = (R div C) * 2 ^ 32 + ((R mod C) * 2 ^ 32 + (l * B) mod 2 ^ 32) div C"
    unfolding R_def by (rule muldiv_int[OF r(7) a])
  define Lo where "Lo = ((R mod C) * 2 ^ 32 + (l * B) mod 2 ^ 32)"
  have m: "0 \<le> R mod C" "R mod C \<le> C - 1" using r(7) by (simp_all add: pos_mod_bound zle_diff1_eq[THEN iffD2])
  have Lo: "0 \<le> Lo" "Lo < C * 2 ^ 32" using m r(7) unfolding Lo_def by (auto simp: field_simps intro: add_le_less_mono)
  have qL: "uint a * B div C = (R div C) * 2 ^ 32 + Lo div C" unfolding Lo_def by (rule q)
  have lo: "0 \<le> Lo div C" "Lo div C < 2 ^ 32"
  proof -
    show "0 \<le> Lo div C" using Lo r(7) by (simp add: pos_imp_zdiv_nonneg_iff)
    have "C * (Lo div C) \<le> Lo" using r(7) mult_div_mod_eq[of C Lo] pos_mod_sign[of C Lo] by linarith
    then have "C * (Lo div C) < C * 2 ^ 32" using Lo(2) by linarith
    then show "Lo div C < 2 ^ 32" using r(7) by simp
  qed
  have hi: "0 \<le> R div C" "R div C < 2 ^ 32"
  proof -
    show "0 \<le> R div C" using R(1) r(7) by (simp add: pos_imp_zdiv_nonneg_iff)
    have "R div C * 4294967296 < 4294967296 * 4294967296"
      using qL lo(1) assms(2)[folded B_def C_def] by simp
    then show "R div C < 2 ^ 32" by simp
  qed
  have rm: "uint (rh mod ucast c) = R mod C" by (simp add: uint_mod rh C)
  have s1: "uint (push_bit 32 (rh mod ucast c)) = (R mod C) * 2 ^ 32"
  proof -
    have "(R mod C) * 2 ^ 32 < 2 ^ 64" using m r(8) by simp
    then show ?thesis using m(1)
      by (simp add: push_bit_eq_mult uint_word_ariths rm)
  qed
  have s2: "uint (rl AND 0xffffffff) = (l * B) mod 2 ^ 32"
  proof -
    have "(0xffffffff :: u64) = mask 32" by (simp add: mask_eq_exp_minus_1)
    then have "rl AND 0xffffffff = take_bit 32 rl" by (simp add: take_bit_eq_mask)
    then show ?thesis by (simp add: unsigned_take_bit_eq rl take_bit_eq_mod uint_mod)
  qed
  have s: "uint (push_bit 32 (rh mod ucast c) + (rl AND 0xffffffff)) = Lo"
  proof -
    have "Lo < 2 ^ 64" using Lo(2) r(8) by simp
    then show ?thesis unfolding uint_word_ariths(1) s1 s2 Lo_def[symmetric] using Lo(1) by simp
  qed
  have t: "uint (ucast w :: u32) = uint w" if "uint w < 2 ^ 32" for w :: u64
    using that by (simp add: unsigned_ucast_eq take_bit_int_eq_self)
  have u1: "uint (ucast (rh div ucast c) :: u32) = R div C"
    using hi by (subst t) (simp_all add: uint_div rh C)
  have u2: "uint (ucast ((push_bit 32 (rh mod ucast c) + (rl AND 0xffffffff)) div ucast c) :: u32) = Lo div C"
    using lo by (subst t) (simp_all add: uint_div s C)
  show ?thesis
    unfolding muldiv64_def Let_def rl_def[symmetric] rh_def[symmetric] uint_join32 u1 u2
    using qL by (simp add: B_def C_def)
qed

theorem muldiv64_correct_witness:
  "uint (muldiv64 0x123456789abc 25000000 1000000) = 0x123456789abc * 25"
  using muldiv64_correct[of 1000000 "0x123456789abc" 25000000] by simp

text \<open>Where the FPSCR moves and the system call differ from what their comments or the architecture say.\<close>

text \<open>
  As compiled (without FP exceptions) \<^verbatim>\<open>mtfsb1\<close> clears the FPSCR bit it is meant to
  set, because setting it is left to \<^verbatim>\<open>record_fpscr\<close>, whose body is compiled out.
\<close>

theorem mtfsb1_clears_bit:
  assumes "crbD = regno crbD_field opcode" "crbD \<noteq> 1" "crbD \<noteq> 2"
  shows "\<exists>t. execute_mtfsb operand_ONE Rc opcode s = Inr t \<and> \<not> bit (fpscr t) (31 - crbD)"
proof -
  have r: "crbD < 32" unfolding assms(1) by (rule regno_less_32) (simp_all add: wf_field_def field_width_def)
  have b: "bit FEX_VX (31 - crbD) = False"
    using assms(2,3) r by (auto simp: FEX_VX_def bit_or_iff bit_field_mask_iff wf_field_def)
  have "\<not> bit (fpscr s AND NOT (push_bit (31 - crbD) 1 AND NOT FEX_VX)) (31 - crbD)"
    using r b by (auto simp: bit_and_iff bit_or_iff bit_not_iff bit_push_bit_iff bit_exp_iff)
  moreover have "fpscr (upd_if p record_cr1 (update_host_rounding m u)) = fpscr u" for p m u
    by (simp add: upd_if_def record_cr1_def update_host_rounding_def)
  ultimately show ?thesis
    unfolding execute_mtfsb_def Let_def assms(1)[symmetric] record_fpscr_def by simp
qed

theorem mtfsb1_clears_bit_witness:
  "\<exists>t. execute_mtfsb operand_ONE RC_BIT_G 0xffe0004c (zero_cpu\<lparr>fpscr := 1\<rparr>) = Inr t \<and> \<not> bit (fpscr t) 0"
  using mtfsb1_clears_bit[of 31 "0xffe0004c" RC_BIT_G "zero_cpu\<lparr>fpscr := 1\<rparr>"] by (auto simp: eval_simps)

text \<open>
  For fields 1 to 6 \<^verbatim>\<open>mtfsfi\<close> clears the field instead of storing the immediate,
  since the immediate is masked in place without being shifted to its field.
\<close>

theorem mtfsfi_loses_immediate:
  assumes "crfD = regno crfD_field opcode" "0 < crfD" "crfD < 7"
  shows "\<exists>t. execute_mtfsfi operand_IMM Rc opcode s = Inr t \<and>
    fpscr t = fpscr s AND NOT (push_bit (28 - 4 * crfD) 0xf)"
proof -
  have i: "unat (field_extract IMM_field opcode) < 2 ^ 4"
    using field_extract_bound[of IMM_field opcode] by (simp add: wf_field_def field_width_def)
  have s: "4 * (7 - crfD) = 28 - 4 * crfD" by simp
  have z: "field_extract IMM_field opcode AND push_bit (28 - 4 * crfD) 0xf = 0"
  proof (rule bit_word_eqI)
    fix n
    have "bit (field_extract IMM_field opcode) n \<Longrightarrow> \<not> 28 - 4 * crfD \<le> n"
      using bit_less_2p[OF i, of n] assms(3) by linarith
    then show "bit (field_extract IMM_field opcode AND push_bit (28 - 4 * crfD) 0xf) n = bit 0 n"
      by (auto simp only: bit_and_iff bit_nibble_at bit_0_eq bot_apply bot_bool_def)
  qed
  moreover have "fpscr (upd_if p record_cr1 (update_host_rounding m u)) = fpscr u" for p m u
    by (simp add: upd_if_def record_cr1_def update_host_rounding_def)
  ultimately show ?thesis
    using assms(2) unfolding execute_mtfsfi_def Let_def assms(1)[symmetric] record_fpscr_def operand_get.simps op1_apply.simps s
    by simp
qed

theorem mtfsfi_loses_immediate_witness:
  "\<exists>t. execute_mtfsfi operand_IMM RC_BIT_G 0xff00f10c (zero_cpu\<lparr>fpscr := 0xf0\<rparr>) = Inr t \<and> fpscr t = 0"
  using mtfsfi_loses_immediate[of 6 "0xff00f10c" RC_BIT_G "zero_cpu\<lparr>fpscr := 0xf0\<rparr>"] by (auto simp: eval_simps)

text \<open>
  With \<^verbatim>\<open>ignoreillegal\<close> set, \<^verbatim>\<open>sc\<close> advances the program counter by two
  instructions: the illegal-instruction handler it delegates to has already advanced it.
\<close>

theorem syscall_skips_next:
  assumes "ignoreillegal H"
  shows "execute_syscall H opcode s = Inr (s\<lparr>pc := pc s + 8\<rparr>)"
  using assms by (simp add: execute_syscall_def execute_illegal_def increment_pc_def)

theorem syscall_skips_next_witness:
  "execute_syscall zero_host 0x44000002 zero_cpu = Inr (zero_cpu\<lparr>pc := 8\<rparr>)"
  using syscall_skips_next[of zero_host "0x44000002" zero_cpu] by (simp add: zero_host_def)

end
