(* ===== verification/PPC_Float.thy ===== *)
theory PPC_Float
  imports PPC_System
begin

unbundle bit_operations_syntax

text \<open>
  The floating-point handlers of \<^verbatim>\<open>ppc-execute.cpp\<close> with the classification and
  conversion helpers of \<^verbatim>\<open>ppc-execute.hpp\<close>. Floating-point values are their IEEE
  bit patterns. What only inspects or rearranges bits (classification, comparison, sign
  changes, selection) is defined here; the rounded arithmetic and the conversions of the
  host FPU are fields of the record \<open>fpu_host\<close>, functions of the host rounding mode.
\<close>

record fpu_host = host +
  f64_add :: "fe_round \<Rightarrow> u64 \<Rightarrow> u64 \<Rightarrow> u64"
  f64_sub :: "fe_round \<Rightarrow> u64 \<Rightarrow> u64 \<Rightarrow> u64"
  f64_mul :: "fe_round \<Rightarrow> u64 \<Rightarrow> u64 \<Rightarrow> u64"
  f64_div :: "fe_round \<Rightarrow> u64 \<Rightarrow> u64 \<Rightarrow> u64"
  mathlib_fmadd :: "fe_round \<Rightarrow> u64 \<Rightarrow> u64 \<Rightarrow> u64 \<Rightarrow> u64"
  mathlib_fmsub :: "fe_round \<Rightarrow> u64 \<Rightarrow> u64 \<Rightarrow> u64 \<Rightarrow> u64"
  mathlib_lrint :: "fe_round \<Rightarrow> u64 \<Rightarrow> u64"
  f64_to_f32 :: "fe_round \<Rightarrow> u64 \<Rightarrow> u32"
  f32_to_f64 :: "u32 \<Rightarrow> u64"
  f32_add :: "fe_round \<Rightarrow> u32 \<Rightarrow> u32 \<Rightarrow> u32"
  f32_sub :: "fe_round \<Rightarrow> u32 \<Rightarrow> u32 \<Rightarrow> u32"
  f32_mul :: "fe_round \<Rightarrow> u32 \<Rightarrow> u32 \<Rightarrow> u32"
  f32_div :: "fe_round \<Rightarrow> u32 \<Rightarrow> u32 \<Rightarrow> u32"
  f32_from_int :: "fe_round \<Rightarrow> int \<Rightarrow> u32"
  f32_to_int64 :: "u32 \<Rightarrow> int"
  f32_exp2 :: "fe_round \<Rightarrow> u32 \<Rightarrow> u32"
  f32_log2 :: "fe_round \<Rightarrow> u32 \<Rightarrow> u32"
  f32_rsqrt :: "fe_round \<Rightarrow> u32 \<Rightarrow> u32"
  f32_floor :: "u32 \<Rightarrow> u32"
  f32_round :: "u32 \<Rightarrow> u32"
  f32_ceil :: "u32 \<Rightarrow> u32"
  f32_trunc :: "u32 \<Rightarrow> u32"

section \<open>Classification and comparison of bit patterns\<close>

definition is_NaN :: "u64 \<Rightarrow> bool" where
  "is_NaN x \<longleftrightarrow> x AND 0x7ff0000000000000 = 0x7ff0000000000000 \<and> x AND 0x000fffffffffffff \<noteq> 0"

definition is_QNaN :: "u64 \<Rightarrow> bool" where
  "is_QNaN x \<longleftrightarrow> is_NaN x \<and> x AND 0x0008000000000000 \<noteq> 0"

definition is_SNaN :: "u64 \<Rightarrow> bool" where
  "is_SNaN x \<longleftrightarrow> is_NaN x \<and> \<not> is_QNaN x"

definition is_NaN_f :: "u32 \<Rightarrow> bool" where
  "is_NaN_f x \<longleftrightarrow> x AND 0x7f800000 = 0x7f800000 \<and> x AND 0x007fffff \<noteq> 0"

definition is_QNaN_f :: "u32 \<Rightarrow> bool" where
  "is_QNaN_f x \<longleftrightarrow> is_NaN_f x \<and> x AND 0x00400000 \<noteq> 0"

definition is_SNaN_f :: "u32 \<Rightarrow> bool" where
  "is_SNaN_f x \<longleftrightarrow> is_NaN_f x \<and> \<not> is_QNaN_f x"

datatype fp_class = FP_NAN | FP_INFINITE | FP_ZERO | FP_SUBNORMAL | FP_NORMAL

definition fpclassify_d :: "u64 \<Rightarrow> fp_class" where
  "fpclassify_d x =
     (let e = x AND 0x7ff0000000000000; m = x AND 0x000fffffffffffff
      in if e = 0x7ff0000000000000 then if m = 0 then FP_INFINITE else FP_NAN
         else if e = 0 then if m = 0 then FP_ZERO else FP_SUBNORMAL
         else FP_NORMAL)"

definition fpclassify_f :: "u32 \<Rightarrow> fp_class" where
  "fpclassify_f x =
     (let e = x AND 0x7f800000; m = x AND 0x007fffff
      in if e = 0x7f800000 then if m = 0 then FP_INFINITE else FP_NAN
         else if e = 0 then if m = 0 then FP_ZERO else FP_SUBNORMAL
         else FP_NORMAL)"

text \<open>
  The order of the C comparison macros: the magnitude bits are monotone in the value and
  both zeros are equal; a comparison with a NaN is false.
\<close>

definition fp_key_d :: "u64 \<Rightarrow> int" where
  "fp_key_d x = (if bit x 63 then - uint (x AND 0x7fffffffffffffff) else uint x)"

definition fp_key_f :: "u32 \<Rightarrow> int" where
  "fp_key_f x = (if bit x 31 then - uint (x AND 0x7fffffff) else uint x)"

definition f64_lt :: "u64 \<Rightarrow> u64 \<Rightarrow> bool" where
  "f64_lt a b \<longleftrightarrow> \<not> is_NaN a \<and> \<not> is_NaN b \<and> fp_key_d a < fp_key_d b"

definition f64_le :: "u64 \<Rightarrow> u64 \<Rightarrow> bool" where
  "f64_le a b \<longleftrightarrow> \<not> is_NaN a \<and> \<not> is_NaN b \<and> fp_key_d a \<le> fp_key_d b"

definition f32_lt :: "u32 \<Rightarrow> u32 \<Rightarrow> bool" where
  "f32_lt a b \<longleftrightarrow> \<not> is_NaN_f a \<and> \<not> is_NaN_f b \<and> fp_key_f a < fp_key_f b"

definition f32_le :: "u32 \<Rightarrow> u32 \<Rightarrow> bool" where
  "f32_le a b \<longleftrightarrow> \<not> is_NaN_f a \<and> \<not> is_NaN_f b \<and> fp_key_f a \<le> fp_key_f b"

definition f32_eq :: "u32 \<Rightarrow> u32 \<Rightarrow> bool" where
  "f32_eq a b \<longleftrightarrow> \<not> is_NaN_f a \<and> \<not> is_NaN_f b \<and> fp_key_f a = fp_key_f b"

section \<open>FPSCR result flags\<close>

definition fprf_flags :: "fp_class \<Rightarrow> bool \<Rightarrow> bool \<Rightarrow> u32" where
  "fprf_flags fc neg less0 =
     (let FL_FG = (if less0 then field_mask FPSCR_FPRF_FL_field else field_mask FPSCR_FPRF_FG_field)
      in case fc of
           FP_NAN \<Rightarrow> field_mask FPSCR_FPRF_FU_field OR field_mask FPSCR_FPRF_C_field
         | FP_ZERO \<Rightarrow> field_mask FPSCR_FPRF_FE_field OR (if neg then field_mask FPSCR_FPRF_C_field else 0)
         | FP_INFINITE \<Rightarrow> field_mask FPSCR_FPRF_FU_field OR FL_FG
         | FP_SUBNORMAL \<Rightarrow> field_mask FPSCR_FPRF_C_field OR FL_FG
         | FP_NORMAL \<Rightarrow> FL_FG)"

definition fp_classify_d :: "u64 \<Rightarrow> powerpc_cpu \<Rightarrow> powerpc_cpu" where
  "fp_classify_d x s =
     s\<lparr>fpscr := (fpscr s AND NOT (field_mask FPSCR_FPRF_field)) OR
                fprf_flags (fpclassify_d x) (bit x 63) (f64_lt x 0)\<rparr>"

definition fp_classify_f :: "u32 \<Rightarrow> powerpc_cpu \<Rightarrow> powerpc_cpu" where
  "fp_classify_f x s =
     s\<lparr>fpscr := (fpscr s AND NOT (field_mask FPSCR_FPRF_field)) OR
                fprf_flags (fpclassify_f x) (bit x 31) (f32_lt x 0)\<rparr>"

section \<open>Operations\<close>

datatype fp_op1 = op_fnop | op_fabs | op_fnabs | op_fneg
datatype fp_op2 = op_fadd | op_fsub | op_fmul | op_fdiv
datatype fp_op3 = op_fmadd | op_fmsub | op_fnmadd | op_fnmsub | op_fnmadds | op_fnmsubs | op_fsel
datatype fp_op = FOP1 fp_op1 | FOP2 fp_op2 | FOP3 fp_op3

definition fabs_bits :: "u64 \<Rightarrow> u64" where "fabs_bits x = x AND 0x7fffffffffffffff"
definition fneg_bits :: "u64 \<Rightarrow> u64" where "fneg_bits x = x XOR 0x8000000000000000"

primrec fp_op1_apply :: "fp_op1 \<Rightarrow> u64 \<Rightarrow> u64" where
  "fp_op1_apply op_fnop x = x"
| "fp_op1_apply op_fabs x = fabs_bits x"
| "fp_op1_apply op_fnabs x = fneg_bits (fabs_bits x)"
| "fp_op1_apply op_fneg x = fneg_bits x"

primrec fp_op2_apply :: "'h fpu_host_scheme \<Rightarrow> fe_round \<Rightarrow> fp_op2 \<Rightarrow> u64 \<Rightarrow> u64 \<Rightarrow> u64" where
  "fp_op2_apply H r op_fadd x y = f64_add H r x y"
| "fp_op2_apply H r op_fsub x y = f64_sub H r x y"
| "fp_op2_apply H r op_fmul x y = f64_mul H r x y"
| "fp_op2_apply H r op_fdiv x y = f64_div H r x y"

primrec fp_op3_apply :: "'h fpu_host_scheme \<Rightarrow> fe_round \<Rightarrow> fp_op3 \<Rightarrow> u64 \<Rightarrow> u64 \<Rightarrow> u64 \<Rightarrow> u64" where
  "fp_op3_apply H r op_fmadd x y z = mathlib_fmadd H r x y z"
| "fp_op3_apply H r op_fmsub x y z = mathlib_fmsub H r x y z"
| "fp_op3_apply H r op_fnmadd x y z = fneg_bits (mathlib_fmadd H r x y z)"
| "fp_op3_apply H r op_fnmsub x y z = fneg_bits (mathlib_fmsub H r x y z)"
| "fp_op3_apply H r op_fnmadds x y z = fneg_bits (f32_to_f64 H (f64_to_f32 H r (mathlib_fmadd H r x y z)))"
| "fp_op3_apply H r op_fnmsubs x y z = fneg_bits (f32_to_f64 H (f64_to_f32 H r (mathlib_fmsub H r x y z)))"
| "fp_op3_apply H r op_fsel x y z = (if f64_le 0 x then y else z)"

primrec fp_op_apply :: "'h fpu_host_scheme \<Rightarrow> fe_round \<Rightarrow> fp_op \<Rightarrow> u64 \<Rightarrow> u64 \<Rightarrow> u64 \<Rightarrow> u64" where
  "fp_op_apply H r (FOP1 f) a b c = fp_op1_apply f a"
| "fp_op_apply H r (FOP2 f) a b c = fp_op2_apply H r f a b"
| "fp_op_apply H r (FOP3 f) a b c = fp_op3_apply H r f a b c"

datatype fp_operand = fpr_operand bit_field | null_fp_operand

abbreviation operand_fp_NONE :: fp_operand where "operand_fp_NONE \<equiv> null_fp_operand"
abbreviation operand_fp_RA :: fp_operand where "operand_fp_RA \<equiv> fpr_operand frA_field"
abbreviation operand_fp_RB :: fp_operand where "operand_fp_RB \<equiv> fpr_operand frB_field"
abbreviation operand_fp_RC :: fp_operand where "operand_fp_RC \<equiv> fpr_operand frC_field"
abbreviation operand_fp_RD :: fp_operand where "operand_fp_RD \<equiv> fpr_operand frD_field"

primrec fp_operand_get :: "fp_operand \<Rightarrow> powerpc_cpu \<Rightarrow> u32 \<Rightarrow> u64" where
  "fp_operand_get (fpr_operand f) s opcode = fpr s (regno f opcode)"
| "fp_operand_get null_fp_operand s opcode = 0"

primrec fp_operand_set :: "fp_operand \<Rightarrow> u32 \<Rightarrow> u64 \<Rightarrow> powerpc_cpu \<Rightarrow> result" where
  "fp_operand_set (fpr_operand f) opcode v s = Inr (set_fpr (regno f opcode) v s)"
| "fp_operand_set null_fp_operand opcode v s = Inl No_set_member"

datatype fp_type = FP_double | FP_float

section \<open>The handlers\<close>

definition execute_fp_arith ::
  "'h fpu_host_scheme \<Rightarrow> fp_type \<Rightarrow> fp_op \<Rightarrow> fp_operand \<Rightarrow> fp_operand \<Rightarrow> fp_operand \<Rightarrow> fp_operand \<Rightarrow>
   opcode_pred \<Rightarrow> bool \<Rightarrow> u32 \<Rightarrow> powerpc_cpu \<Rightarrow> result" where
  "execute_fp_arith H FP OP RD RA RB RC Rc FPSCR opcode s =
     (let a = fp_operand_get RA s opcode;
          b = fp_operand_get RB s opcode;
          c = fp_operand_get RC s opcode;
          x = fp_op_apply H (host_round s) OP a b c;
          df = f64_to_f32 H (host_round s) x;
          classify = (FPSCR \<and> \<not> field_test FPSCR_VE_field (fpscr s));
          s = upd_if classify (case FP of FP_double \<Rightarrow> fp_classify_d x | FP_float \<Rightarrow> fp_classify_f df) s;
          s = upd_if (pred_test Rc opcode) record_cr1 s
      in and_then (fp_operand_set RD opcode (case FP of FP_double \<Rightarrow> x | FP_float \<Rightarrow> f32_to_f64 H df) s)
           (\<lambda>s. Inr (increment_pc 4 s)))"

definition execute_fp_compare :: "bool \<Rightarrow> u32 \<Rightarrow> powerpc_cpu \<Rightarrow> result" where
  "execute_fp_compare OC opcode s =
     (let a = fp_operand_get operand_fp_RA s opcode;
          b = fp_operand_get operand_fp_RB s opcode;
          crfd = regno crfD_field opcode;
          c = (if is_NaN a \<or> is_NaN b then 1 else if f64_lt a b then 8 else if f64_lt b a then 4 else 2);
          s = s\<lparr>fpscr := field_insert FPSCR_FPCC_field (fpscr s) c\<rparr>;
          s = s\<lparr>cr := cr_set_field (cr s) crfd c\<rparr>
      in Inr (increment_pc 4 s))"

definition execute_fp_int_convert ::
  "'h fpu_host_scheme \<Rightarrow> operand \<Rightarrow> opcode_pred \<Rightarrow> u32 \<Rightarrow> powerpc_cpu \<Rightarrow> result" where
  "execute_fp_int_convert H RN Rc opcode s =
     (let b = fp_operand_get operand_fp_RB s opcode;
          r = operand_get RN s opcode;
          (d, s) =
            (if f64_le 0xc1e0000000000000 b \<and> f64_le b 0x41dfffffffc00000
             then (let old_round = host_round s;
                       s = s\<lparr>host_round := ppc_to_native_rounding_mode r\<rparr>;
                       d = scast (ucast (mathlib_lrint H (host_round s) b) :: u32) :: u64;
                       s = s\<lparr>host_round := old_round\<rparr>
                   in (d, s))
             else if f64_lt 0 b then (0x7fffffff, s)
             else (0x80000000, s));
          s = upd_if (pred_test Rc opcode) record_cr1 s
      in and_then (fp_operand_set operand_fp_RD opcode d s) (\<lambda>s. Inr (increment_pc 4 s)))"

definition execute_fp_round :: "'h fpu_host_scheme \<Rightarrow> opcode_pred \<Rightarrow> u32 \<Rightarrow> powerpc_cpu \<Rightarrow> result" where
  "execute_fp_round H Rc opcode s =
     (let b = fp_operand_get operand_fp_RB s opcode;
          d = f64_to_f32 H (host_round s) b;
          s = upd_if (\<not> field_test FPSCR_VE_field (fpscr s)) (fp_classify_f d) s;
          s = upd_if (pred_test Rc opcode) record_cr1 s
      in and_then (fp_operand_set operand_fp_RD opcode (f32_to_f64 H d) s)
           (\<lambda>s. Inr (increment_pc 4 s)))"

definition fp_load_single_convert :: "'h fpu_host_scheme \<Rightarrow> u32 \<Rightarrow> u64" where
  "fp_load_single_convert H v = f32_to_f64 H v"

definition fp_store_single_convert :: "'h fpu_host_scheme \<Rightarrow> fe_round \<Rightarrow> u64 \<Rightarrow> u32" where
  "fp_store_single_convert H r v =
     (let ex = unat (drop_bit 52 v AND 0x7ff)
      in if ex < 874 \<or> ex > 896
         then ucast ((drop_bit 32 v AND 0xc0000000) OR (drop_bit 29 v AND 0x3fffffff))
         else f64_to_f32 H r v)"

definition execute_fp_loadstore ::
  "'h fpu_host_scheme \<Rightarrow> operand \<Rightarrow> operand \<Rightarrow> bool \<Rightarrow> bool \<Rightarrow> bool \<Rightarrow> u32 \<Rightarrow> powerpc_cpu \<Rightarrow> result" where
  "execute_fp_loadstore H RA RB LD DB UP opcode s =
     (let a = operand_get RA s opcode;
          b = operand_get RB s opcode;
          ea = a + b;
          s = (if LD
               then set_fpr (regno frD_field opcode)
                      (if DB then vm_read_memory_8 (mem s) ea
                       else fp_load_single_convert H (vm_read_memory_4 (mem s) ea)) s
               else (let v = fpr s (regno frS_field opcode)
                     in s\<lparr>mem := if DB then vm_write_memory_8 (mem s) ea v
                                  else vm_write_memory_4 (mem s) ea
                                         (fp_store_single_convert H (host_round s) v)\<rparr>))
      in and_then (if UP then operand_set RA opcode ea s else Inr s) (\<lambda>s. Inr (increment_pc 4 s)))"

section \<open>The handlers keep the register-file invariant\<close>

lemma wf_fp_classify [wf_intros]:
  "wf_cpu s \<Longrightarrow> wf_cpu (fp_classify_d x s)" "wf_cpu s \<Longrightarrow> wf_cpu (fp_classify_f y s)"
  by (simp_all add: fp_classify_d_def fp_classify_f_def wf_intros)

lemma wf_fp_operand_set [wf_intros]: "wf_cpu s \<Longrightarrow> wf_result (fp_operand_set x opcode v s)"
  by (cases x) (simp_all add: wf_intros)

lemma wf_fp_commit [wf_intros]:
  "wf_cpu s \<Longrightarrow> wf_result (and_then (fp_operand_set x opcode v s) (\<lambda>s. Inr (increment_pc 4 s)))"
  by (auto intro!: wf_intros)

lemma wf_execute_fp_arith: "wf_cpu s \<Longrightarrow> wf_result (execute_fp_arith H FP OP RD RA RB RC Rc FPSCR opcode s)"
  unfolding execute_fp_arith_def Let_def by (intro wf_intros) (auto split: fp_type.split intro: wf_intros)

lemma wf_execute_fp_compare: "wf_cpu s \<Longrightarrow> wf_result (execute_fp_compare OC opcode s)"
  by (simp add: execute_fp_compare_def Let_def wf_intros)

lemma wf_execute_fp_int_convert: "wf_cpu s \<Longrightarrow> wf_result (execute_fp_int_convert H RN Rc opcode s)"
  by (auto simp: execute_fp_int_convert_def Let_def intro!: wf_intros)

lemma wf_execute_fp_round: "wf_cpu s \<Longrightarrow> wf_result (execute_fp_round H Rc opcode s)"
  unfolding execute_fp_round_def Let_def by (intro wf_intros)

lemma wf_execute_fp_loadstore: "wf_cpu s \<Longrightarrow> wf_result (execute_fp_loadstore H RA RB LD DB UP opcode s)"
  unfolding execute_fp_loadstore_def Let_def by (intro wf_intros) (auto intro!: wf_intros)

section \<open>Result flags\<close>

text \<open>The FPRF codes of the architecture, by class and sign of the result.\<close>

definition fprf_code :: "fp_class \<Rightarrow> bool \<Rightarrow> u32" where
  "fprf_code fc neg =
     (case fc of FP_NAN \<Rightarrow> 0x11
      | FP_INFINITE \<Rightarrow> if neg then 0x09 else 0x05
      | FP_NORMAL \<Rightarrow> if neg then 0x08 else 0x04
      | FP_SUBNORMAL \<Rightarrow> if neg then 0x18 else 0x14
      | FP_ZERO \<Rightarrow> if neg then 0x12 else 0x02)"

lemma fprf_masks:
  "field_mask FPSCR_FPRF_C_field = push_bit 12 0x10" "field_mask FPSCR_FPRF_FL_field = push_bit 12 8"
  "field_mask FPSCR_FPRF_FG_field = push_bit 12 4" "field_mask FPSCR_FPRF_FE_field = push_bit 12 2"
  "field_mask FPSCR_FPRF_FU_field = push_bit 12 1" "field_mask FPSCR_FPRF_field = push_bit 12 0x1f"
  by (simp_all add: field_mask_def push_bit_eq_mult)

lemma fprf_flags_code:
  assumes "fc = FP_NAN \<or> fc = FP_ZERO \<or> less0 = neg"
  shows "fprf_flags fc neg less0 = push_bit 12 (fprf_code fc neg)"
  using assms by (cases fc) (auto simp: fprf_flags_def fprf_code_def fprf_masks simp flip: push_bit_or)

lemma magnitude_zero_d: "x AND 0x7fffffffffffffff = 0 \<Longrightarrow> fpclassify_d x = FP_ZERO"
proof -
  assume z: "x AND 0x7fffffffffffffff = 0"
  have "x AND 0x7ff0000000000000 = (x AND 0x7fffffffffffffff) AND 0x7ff0000000000000"
    "x AND 0x000fffffffffffff = (x AND 0x7fffffffffffffff) AND 0x000fffffffffffff"
    by (simp_all add: and.assoc)
  then show ?thesis by (simp add: z fpclassify_d_def)
qed

lemma magnitude_zero_f: "x AND 0x7fffffff = 0 \<Longrightarrow> fpclassify_f x = FP_ZERO"
proof -
  assume z: "x AND 0x7fffffff = 0"
  have "x AND 0x7f800000 = (x AND 0x7fffffff) AND 0x7f800000"
    "x AND 0x007fffff = (x AND 0x7fffffff) AND 0x007fffff"
    by (simp_all add: and.assoc)
  then show ?thesis by (simp add: z fpclassify_f_def)
qed

lemma is_NaN_class: "is_NaN x \<longleftrightarrow> fpclassify_d x = FP_NAN" "is_NaN_f y \<longleftrightarrow> fpclassify_f y = FP_NAN"
  by (auto simp: is_NaN_def fpclassify_d_def is_NaN_f_def fpclassify_f_def Let_def)

lemma less_zero_d: "fpclassify_d x \<noteq> FP_NAN \<Longrightarrow> fpclassify_d x \<noteq> FP_ZERO \<Longrightarrow> f64_lt x 0 \<longleftrightarrow> bit x 63"
proof -
  assume c: "fpclassify_d x \<noteq> FP_NAN" "fpclassify_d x \<noteq> FP_ZERO"
  then have "x AND 0x7fffffffffffffff \<noteq> 0" using magnitude_zero_d by blast
  then have "0 < uint (x AND 0x7fffffffffffffff)" by (simp add: uint_0_iff order.strict_iff_order)
  then have "fp_key_d x < 0 \<longleftrightarrow> bit x 63" by (simp add: fp_key_d_def)
  then show ?thesis using c by (simp add: f64_lt_def is_NaN_class(1)) (simp add: fp_key_d_def fpclassify_d_def)
qed

lemma less_zero_f: "fpclassify_f x \<noteq> FP_NAN \<Longrightarrow> fpclassify_f x \<noteq> FP_ZERO \<Longrightarrow> f32_lt x 0 \<longleftrightarrow> bit x 31"
proof -
  assume c: "fpclassify_f x \<noteq> FP_NAN" "fpclassify_f x \<noteq> FP_ZERO"
  then have "x AND 0x7fffffff \<noteq> 0" using magnitude_zero_f by blast
  then have "0 < uint (x AND 0x7fffffff)" by (simp add: uint_0_iff order.strict_iff_order)
  then have "fp_key_f x < 0 \<longleftrightarrow> bit x 31" by (simp add: fp_key_f_def)
  then show ?thesis using c by (simp add: f32_lt_def is_NaN_class(2)) (simp add: fp_key_f_def fpclassify_f_def)
qed

lemma fprf_code_small: "unat (fprf_code fc neg) < 32"
  by (cases fc) (simp_all add: fprf_code_def)

lemma fprf_insert:
  "(v AND NOT (field_mask FPSCR_FPRF_field)) OR push_bit 12 (fprf_code fc neg) =
   field_insert FPSCR_FPRF_field v (fprf_code fc neg)"
proof -
  have "push_bit 12 (fprf_code fc neg) AND push_bit 12 0x1f = push_bit 12 (fprf_code fc neg)"
    by (cases fc) (simp_all add: fprf_code_def push_bit_eq_mult)
  then show ?thesis by (simp add: field_insert_def Let_def fprf_masks)
qed

lemma fp_classify_d_eq:
  "fp_classify_d x s = s\<lparr>fpscr := field_insert FPSCR_FPRF_field (fpscr s) (fprf_code (fpclassify_d x) (bit x 63))\<rparr>"
proof -
  have "fprf_flags (fpclassify_d x) (bit x 63) (f64_lt x 0) = push_bit 12 (fprf_code (fpclassify_d x) (bit x 63))"
    using less_zero_d[of x] by (intro fprf_flags_code) blast
  then show ?thesis by (simp only: fp_classify_d_def fprf_insert)
qed

lemma fp_classify_f_eq:
  "fp_classify_f x s = s\<lparr>fpscr := field_insert FPSCR_FPRF_field (fpscr s) (fprf_code (fpclassify_f x) (bit x 31))\<rparr>"
proof -
  have "fprf_flags (fpclassify_f x) (bit x 31) (f32_lt x 0) = push_bit 12 (fprf_code (fpclassify_f x) (bit x 31))"
    using less_zero_f[of x] by (intro fprf_flags_code) blast
  then show ?thesis by (simp only: fp_classify_f_def fprf_insert)
qed

lemma cr1_field:
  "cr_get_field ((c AND NOT (field_mask (CR_field 1))) OR (drop_bit 4 v AND 0x0f000000)) 1 = drop_bit 28 v"
proof (rule bit_word_eqI)
  fix n assume n: "n < LENGTH(32)"
  have w: "wf_field (CR_field 1)" by (simp add: CR_field_def wf_field_def)
  have m: "bit (field_mask (CR_field 1)) k \<longleftrightarrow> 24 \<le> k \<and> k \<le> 27" for k
    unfolding bit_field_mask_iff[OF w] by (simp add: CR_field_def)
  show "bit (cr_get_field ((c AND NOT (field_mask (CR_field 1))) OR (drop_bit 4 v AND 0x0f000000)) 1) n =
    bit (drop_bit 28 v) n"
    using bit_imp_le_length[of v "28 + n"]
    by (subst bit_cr_get_field, simp)
      (auto simp only: bit_or_iff bit_and_iff bit_not_iff m bit_nibbles bit_drop_bit_eq comp_def; simp add: add.assoc[symmetric])
qed

text \<open>
  The conversion of a single to a double as the manual gives it (section C.6), for every
  operand but denormalised ones.
\<close>

definition f32_expand :: "u32 \<Rightarrow> u64" where
  "f32_expand v =
     (let t = (if fpclassify_f v = FP_NORMAL then \<not> bit v 30 else bit v 30)
      in push_bit 62 (ucast (drop_bit 30 v)) OR (if t then push_bit 59 7 else 0) OR
         push_bit 29 (ucast (take_bit 30 v)))"

text \<open>A concrete host for the examples: the conversions are exact, the arithmetic is not used.\<close>

definition example_fpu_host :: fpu_host where
  "example_fpu_host = host.extend zero_host
     (fpu_host.fields (\<lambda>_ x _. x) (\<lambda>_ x _. x) (\<lambda>_ x _. x) (\<lambda>_ x _. x) (\<lambda>_ x _ _. x) (\<lambda>_ x _ _. x) (\<lambda>_ _. 0)
       (\<lambda>_ _. 0) f32_expand
       (\<lambda>_ x _. x) (\<lambda>_ x _. x) (\<lambda>_ x _. x) (\<lambda>_ x _. x) (\<lambda>_ _. 0) (\<lambda>_. 0) (\<lambda>_ x. x) (\<lambda>_ x. x) (\<lambda>_ x. x)
       (\<lambda>x. x) (\<lambda>x. x) (\<lambda>x. x) (\<lambda>x. x))"

lemma example_fpu_host_simps [simp]: "f32_to_f64 example_fpu_host = f32_expand" "mathlib_lrint example_fpu_host = (\<lambda>_ _. 0)"
  by (simp_all add: example_fpu_host_def host.extend_def fpu_host.fields_def zero_host_def)

text \<open>
  A double-precision arithmetic instruction writes the result of the host operation to
  frD, sets the FPRF field of the FPSCR to the architecture's code for the class and the
  sign of that result and nothing else of the FPSCR, and with the record bit copies the
  exception summary of the FPSCR to CR field 1.
\<close>

theorem fp_arith_result_flags:
  assumes "\<not> field_test FPSCR_VE_field (fpscr s)"
    and "x = fp_op_apply H (host_round s) OP (fp_operand_get RA s opcode) (fp_operand_get RB s opcode) (fp_operand_get RC s opcode)"
  shows "\<exists>t. execute_fp_arith H FP_double OP operand_fp_RD RA RB RC Rc True opcode s = Inr t \<and>
    fpr t = (fpr s)(regno frD_field opcode := x) \<and>
    field_extract FPSCR_FPRF_field (fpscr t) = fprf_code (fpclassify_d x) (bit x 63) \<and>
    fpscr t AND NOT (field_mask FPSCR_FPRF_field) = fpscr s AND NOT (field_mask FPSCR_FPRF_field) \<and>
    (pred_test Rc opcode \<longrightarrow> cr_get_field (cr t) 1 = drop_bit 28 (fpscr t)) \<and> pc t = pc s + 4"
proof -
  have wf: "wf_field FPSCR_FPRF_field" "field_width FPSCR_FPRF_field = 5" by (simp_all add: wf_field_def field_width_def)
  have e: "field_extract FPSCR_FPRF_field (field_insert FPSCR_FPRF_field v (fprf_code fc neg)) = fprf_code fc neg" for v fc neg
    unfolding field_extract_insert[OF wf(1)] wf(2) 
    by (cases fc) (simp_all add: fprf_code_def)
  have k: "field_insert FPSCR_FPRF_field v y AND NOT (field_mask FPSCR_FPRF_field) = v AND NOT (field_mask FPSCR_FPRF_field)" for v y
    by (rule bit_word_eqI) (auto simp: field_insert_def Let_def bit_and_iff bit_or_iff bit_not_iff)
  have c1: "cr_get_field ((c AND NOT (field_mask (CR_field 1))) OR (drop_bit 4 v AND 0x0f000000)) 1 = drop_bit 28 v" for c v
    by (rule cr1_field)
  show ?thesis
    unfolding execute_fp_arith_def Let_def assms(2)[symmetric]
    using assms(1) by (simp add: upd_if_def fp_classify_d_eq record_cr1_def e k c1 set_fpr_def del: One_nat_def)
qed

theorem fp_arith_result_flags_witness:
  "\<exists>t. execute_fp_arith example_fpu_host FP_double (FOP1 op_fneg) operand_fp_RD operand_fp_RB null_fp_operand null_fp_operand
        RC_BIT_G True 0xfc201051 (zero_cpu\<lparr>fpr := (\<lambda>_. 0)(2 := 0x4000000000000000)\<rparr>) = Inr t \<and>
     fpr t 1 = 0xc000000000000000 \<and> field_extract FPSCR_FPRF_field (fpscr t) = 8"
  using fp_arith_result_flags[where s = "zero_cpu\<lparr>fpr := (\<lambda>_. 0)(2 := 0x4000000000000000)\<rparr>" and H = example_fpu_host
    and OP = "FOP1 op_fneg" and RA = operand_fp_RB and RB = null_fp_operand and RC = null_fp_operand and Rc = RC_BIT_G
    and opcode = "0xfc201051", OF _ refl]
  by (auto simp: eval_simps fneg_bits_def fpclassify_d_def fprf_code_def)

section \<open>Comparison and conversion\<close>

text \<open>
  \<^verbatim>\<open>fcmpu\<close> and \<^verbatim>\<open>fcmpo\<close> give, in the CR field named by the instruction and in FPCC, the
  IEEE order of the two registers: unordered when one of them is a NaN, and both zeros
  equal; the other CR fields and the registers stay.
\<close>

theorem fp_compare_correct:
  assumes "a = fpr s (regno frA_field opcode)" "b = fpr s (regno frB_field opcode)"
    and "c = (if fpclassify_d a = FP_NAN \<or> fpclassify_d b = FP_NAN then 1
              else if fp_key_d a < fp_key_d b then 8 else if fp_key_d b < fp_key_d a then 4 else 2)"
  shows "\<exists>t. execute_fp_compare OC opcode s = Inr t \<and>
    cr_get_field (cr t) (regno crfD_field opcode) = c \<and> field_extract FPSCR_FPCC_field (fpscr t) = c \<and>
    (\<forall>f < 8. f \<noteq> regno crfD_field opcode \<longrightarrow> cr_get_field (cr t) f = cr_get_field (cr s) f) \<and>
    fpr t = fpr s \<and> pc t = pc s + 4"
proof -
  have f: "regno crfD_field opcode < 8"
    using regno_bound[of crfD_field opcode] by (simp add: wf_field_def field_width_def)
  have wf: "wf_field FPSCR_FPCC_field" "field_width FPSCR_FPCC_field = 4" by (simp_all add: wf_field_def field_width_def)
  have c: "c < 16" "take_bit 4 c = c" unfolding assms(3) by (simp_all split: if_split)
  have code: "(if is_NaN a \<or> is_NaN b then 1 else if f64_lt a b then 8 else if f64_lt b a then 4 else 2) = c"
    unfolding assms(3) by (auto simp: is_NaN_class f64_lt_def)
  show ?thesis
    unfolding execute_fp_compare_def Let_def fp_operand_get.simps assms(1,2)[symmetric] code
    by (simp add: cr_bank.get_set f c field_extract_insert[OF wf(1)] wf(2))
qed

theorem fp_compare_correct_witness:
  "\<exists>t. execute_fp_compare False 0xfc011000 (zero_cpu\<lparr>fpr := (\<lambda>_. 0)(1 := 0x3ff0000000000000, 2 := 0xbff0000000000000)\<rparr>) = Inr t \<and>
     cr_get_field (cr t) 0 = 4"
  using fp_compare_correct[OF refl refl refl, of False "0xfc011000" "zero_cpu\<lparr>fpr := (\<lambda>_. 0)(1 := 0x3ff0000000000000, 2 := 0xbff0000000000000)\<rparr>"]
  by (auto simp: eval_simps fpclassify_d_def fp_key_d_def)

text \<open>
  C35: \<^verbatim>\<open>fctiw\<close> and \<^verbatim>\<open>fctiwz\<close> convert an operand within the range of a 32-bit integer in the
  rounding mode asked for and leave the host rounding mode as it was; an operand above
  the range gives the largest, one below it or a NaN the smallest integer.
\<close>

theorem fp_int_convert_saturates:
  assumes "b = fpr s (regno frB_field opcode)"
  shows "\<exists>t. execute_fp_int_convert H RN Rc opcode s = Inr t \<and> host_round t = host_round s \<and> pc t = pc s + 4 \<and>
    (let d = fpr t (regno frD_field opcode)
     in if fpclassify_d b = FP_NAN \<or> fp_key_d b < fp_key_d 0xc1e0000000000000 then d = 0x80000000
        else if fp_key_d b > fp_key_d 0x41dfffffffc00000 then d = 0x7fffffff
        else d = scast (ucast (mathlib_lrint H (ppc_to_native_rounding_mode (operand_get RN s opcode)) b) :: u32))"
proof -
  have n: "\<not> is_NaN 0xc1e0000000000000" "\<not> is_NaN 0x41dfffffffc00000" "\<not> is_NaN 0" by (simp_all add: is_NaN_def)
  have key: "fp_key_d 0xc1e0000000000000 < 0" "0 < fp_key_d 0x41dfffffffc00000" "fp_key_d 0 = 0"
    by (simp_all add: fp_key_d_def)
  show ?thesis
    unfolding execute_fp_int_convert_def Let_def fp_operand_get.simps assms(1)[symmetric]
    using key by (auto simp: f64_le_def f64_lt_def n is_NaN_class(1)[symmetric] upd_if_def record_cr1_def set_fpr_def)
qed

theorem fp_int_convert_saturates_witness:
  "\<exists>t. execute_fp_int_convert example_fpu_host operand_ONE RC_BIT_G 0xfc20101e (zero_cpu\<lparr>fpr := (\<lambda>_. 0)(2 := 0x7ff0000000000000)\<rparr>) = Inr t \<and>
     fpr t 1 = 0x7fffffff"
  using fp_int_convert_saturates[OF refl, of example_fpu_host operand_ONE RC_BIT_G "0xfc20101e" "zero_cpu\<lparr>fpr := (\<lambda>_. 0)(2 := 0x7ff0000000000000)\<rparr>"]
  by (auto simp: eval_simps fpclassify_d_def fp_key_d_def)

lemma bit_f32_expand:
  "bit (f32_expand v) n \<longleftrightarrow>
    (62 \<le> n \<and> bit v (n - 32)) \<or>
    (59 \<le> n \<and> n < 62 \<and> (if fpclassify_f v = FP_NORMAL then \<not> bit v 30 else bit v 30)) \<or>
    (29 \<le> n \<and> n < 59 \<and> bit v (n - 29))"
proof -
  have "(7 :: u64) = mask 3" by (simp add: mask_eq_exp_minus_1)
  then have b7: "bit (push_bit 59 (7 :: u64)) n \<longleftrightarrow> 59 \<le> n \<and> n < 62"
    by (simp only: bit_push_bit_iff bit_mask_iff possible_bit_word) auto
  have h: "bit (push_bit 62 (ucast (drop_bit 30 v) :: u64)) n \<longleftrightarrow> 62 \<le> n \<and> bit v (n - 32)"
    using bit_imp_le_length[of v "n - 32"]
    by (auto simp: bit_push_bit_iff bit_unsigned_iff bit_drop_bit_eq)
  have l: "bit (push_bit 29 (ucast (take_bit 30 v) :: u64)) n \<longleftrightarrow> 29 \<le> n \<and> n < 59 \<and> bit v (n - 29)"
    by (auto simp: bit_push_bit_iff bit_unsigned_iff bit_take_bit_iff)
  show ?thesis
    unfolding f32_expand_def Let_def bit_or_iff h l using b7 by auto
qed

section \<open>Floating-point loads and stores\<close>

lemma mask_words_64:
  "(0x7ff :: u64) = mask 11" "(0x3fffffff :: u64) = mask 30" "(0xc0000000 :: u64) = push_bit 30 (mask 2)"
  "(0x7f800000 :: u32) = push_bit 23 (mask 8)" "(896 :: u64) = push_bit 7 (mask 3)"
  by (simp_all add: mask_eq_exp_minus_1 push_bit_eq_mult)

lemma bit_imp_exp_le_unat: "bit (w :: 'a::len word) n \<Longrightarrow> 2 ^ n \<le> unat w"
proof (rule ccontr)
  assume b: "bit w n" and "\<not> 2 ^ n \<le> unat w"
  then have "unat w div 2 ^ n = 0" by simp
  moreover have "odd (unat w div 2 ^ n)"
    using b by (simp add: bit_iff_odd word_div_def flip: bit_unsigned_iff) (metis bit_iff_odd b bit_unsigned_iff possible_bit_nat)
  ultimately show False by simp
qed

lemma f32_exponent_bits:
  "v AND 0x7f800000 = 0 \<Longrightarrow> n < 8 \<Longrightarrow> \<not> bit (v :: u32) (23 + n)"
  "v AND 0x7f800000 \<noteq> 0 \<Longrightarrow> \<exists>n<8. bit (v :: u32) (23 + n)"
proof -
  assume z: "v AND 0x7f800000 = 0" and n: "n < 8"
  have "\<not> bit (v AND 0x7f800000) (23 + n)" by (simp add: z)
  then show "\<not> bit v (23 + n)"
    using n by (simp add: mask_words_64(4) bit_and_iff bit_push_bit_iff bit_mask_iff possible_bit_word)
next
  assume nz: "v AND 0x7f800000 \<noteq> 0"
  show "\<exists>n<8. bit v (23 + n)"
  proof (rule ccontr)
    assume a: "\<not> ?thesis"
    have "v AND 0x7f800000 = 0"
    proof (rule bit_word_eqI)
      fix n assume "n < LENGTH(32)"
      have "\<not> (23 \<le> n \<and> n < 31 \<and> bit v n)"
      proof
        assume "23 \<le> n \<and> n < 31 \<and> bit v n"
        then have "n - 23 < 8" "bit v (23 + (n - 23))" by auto
        then show False using a by blast
      qed
      then show "bit (v AND 0x7f800000) n = bit 0 n"
        by (auto simp: mask_words_64(4) bit_and_iff bit_push_bit_iff bit_mask_iff possible_bit_word)
    qed
    then show False using nz by simp
  qed
qed

lemma exponent_bound:
  assumes "bit w j" "take_bit 7 w = w"
  shows "896 < unat (896 + w :: u64)"
proof -
  have "2 ^ j \<le> unat w" using assms(1) by (rule bit_imp_exp_le_unat)
  moreover have "(0 :: nat) < 2 ^ j" by simp
  ultimately have "0 < unat w" by linarith
  moreover have "unat w < 2 ^ 7" using assms(2) by (metis unsigned_take_bit_eq take_bit_nat_less_exp)
  moreover have "unat (896 + w) = (896 + unat w) mod 2 ^ 64" by (simp add: unat_word_ariths(1))
  ultimately show ?thesis by simp
qed

lemma f32_expand_exponent:
  assumes "fpclassify_f v \<noteq> FP_SUBNORMAL"
  shows "unat (drop_bit 52 (f32_expand v) AND 0x7ff) < 874 \<or> unat (drop_bit 52 (f32_expand v) AND 0x7ff) > 896"
proof -
  let ?e = "drop_bit 52 (f32_expand v) AND 0x7ff"
  let ?w = "ucast (take_bit 7 (drop_bit 23 v)) :: u64"
  have be: "bit ?e n \<longleftrightarrow> n < 11 \<and> bit (f32_expand v) (52 + n)" for n
    by (auto simp: mask_words_64(1) bit_and_iff bit_drop_bit_eq bit_mask_iff possible_bit_word)
  have bw: "bit ?w n \<longleftrightarrow> n < 7 \<and> bit v (23 + n)" for n
    by (auto simp: bit_unsigned_iff bit_take_bit_iff bit_drop_bit_eq)
  show ?thesis
  proof (cases "v AND 0x7f800000 = 0")
    case True
    then have c: "fpclassify_f v = FP_ZERO"
      using assms by (auto simp: fpclassify_f_def Let_def split: if_splits)
    have "?e = 0"
    proof (rule bit_word_eqI)
      fix n assume "n < LENGTH(64)"
      show "bit ?e n = bit 0 n"
        using f32_exponent_bits(1)[OF True, of 7] f32_exponent_bits(1)[OF True, of n] bit_f32_expand[of v "52 + n"]
        by (cases "n = 10") (auto simp: be c)
    qed
    then show ?thesis by simp
  next
    case False
    show ?thesis
    proof (cases "bit v 30")
      case True
      then have "bit ?e 10" by (simp add: be bit_f32_expand)
      from bit_imp_exp_le_unat[OF this] show ?thesis by simp
    next
      case F30: False
      obtain j where j: "j < 8" "bit v (23 + j)" using f32_exponent_bits(2)[OF False] by blast
      then have k: "j < 7" using F30 by (cases "j = 7") auto
      have "\<not> bit (v AND 0x7f800000) 30" using F30 by (simp add: bit_and_iff)
      moreover have "bit (0x7f800000 :: u32) 30" by simp
      ultimately have "v AND 0x7f800000 \<noteq> 0x7f800000" by metis
      then have n: "fpclassify_f v = FP_NORMAL"
        using False by (simp add: fpclassify_f_def)
      have m896: "bit (896 :: u64) n \<longleftrightarrow> 7 \<le> n \<and> n < 10" for n
        unfolding mask_words_64(5) by (auto simp: bit_push_bit_iff bit_mask_iff possible_bit_word)
      have "?e = 896 OR ?w"
      proof (rule bit_word_eqI)
        fix n assume "n < LENGTH(64)"
        show "bit ?e n = bit (896 OR ?w) n"
        proof (cases "n = 10")
          case True then show ?thesis using F30 by (simp add: be bw bit_or_iff m896 bit_f32_expand)
        next
          case False
          have "(52 + n) - 29 = 23 + n" by simp
          then show ?thesis using False
            unfolding be bw bit_or_iff m896 bit_f32_expand n using F30 by auto
        qed
      qed
      also have "\<dots> = 896 + ?w"
        by (rule disjunctive_add_eq_or[symmetric], rule bit_word_eqI, unfold bit_and_iff bw m896) auto
      finally have e: "?e = 896 + ?w" .
      have b: "bit ?w j" using k j(2) unfolding bw by blast
      have w: "take_bit 7 ?w = ?w" by (rule bit_word_eqI, unfold bit_take_bit_iff bw) auto
      show ?thesis unfolding e by (rule disjI2, rule exponent_bound[OF b w])
    qed
  qed
qed

lemma fp_store_single_expand:
  assumes "fpclassify_f v \<noteq> FP_SUBNORMAL"
  shows "fp_store_single_convert H r (f32_expand v) = v"
proof -
  have "ucast ((drop_bit 32 (f32_expand v) AND 0xc0000000) OR (drop_bit 29 (f32_expand v) AND 0x3fffffff)) = v"
  proof (rule bit_word_eqI)
    fix n assume "n < LENGTH(32)"
    then have "n < 32" by simp
    then show "bit (ucast ((drop_bit 32 (f32_expand v) AND 0xc0000000) OR (drop_bit 29 (f32_expand v) AND 0x3fffffff)) :: u32) n = bit v n"
      by (cases "n = 30"; cases "n = 31")
        (auto simp: bit_unsigned_iff bit_or_iff bit_and_iff bit_drop_bit_eq mask_words_64 bit_push_bit_iff bit_mask_iff
          possible_bit_word bit_f32_expand)
  qed
  then show ?thesis
    using f32_expand_exponent[OF assms] by (simp add: fp_store_single_convert_def Let_def)
qed

lemma read_write_8_same: "vm_read_memory_8 (vm_write_memory_8 m x v) x = v"
  using cell8.rd_wr[of m "vm_do_get_real_address x" v]
  by (simp add: vm_read_memory_8_def vm_write_memory_8_def take_bit_word_eq_self)

text \<open>
  \<^verbatim>\<open>lfs\<close> followed by \<^verbatim>\<open>stfs\<close> of the same register stores the single that was loaded, bit for
  bit, for every single that is not denormalised, provided the conversion of the host from
  single to double is the architecture's (which holds for all but signalling NaNs).
\<close>

theorem fp_load_store_single:
  assumes "fpclassify_f v \<noteq> FP_SUBNORMAL" "f32_to_f64 H v = f32_expand v"
    and "vm_read_memory_4 (mem s) (operand_get RA s opcode + operand_get RB s opcode) = v"
    and "regno frS_field opcode2 = regno frD_field opcode"
  shows "\<exists>t u. execute_fp_loadstore H RA RB True False False opcode s = Inr t \<and>
    fpr t = (fpr s)(regno frD_field opcode := f32_expand v) \<and>
    execute_fp_loadstore H RA' RB' False False False opcode2 t = Inr u \<and>
    mem u = vm_write_memory_4 (mem s) (operand_get RA' t opcode2 + operand_get RB' t opcode2) v \<and>
    fpr u = fpr t \<and> pc u = pc s + 8"
  using assms by (simp add: execute_fp_loadstore_def Let_def fp_load_single_convert_def fp_store_single_expand set_fpr_def)

theorem fp_load_store_single_witness:
  "\<exists>t u. execute_fp_loadstore example_fpu_host operand_RA_or_0 operand_D True False False 0xc0200100
        (zero_cpu\<lparr>mem := vm_write_memory_4 (\<lambda>_. 0) 0x100 0x3f800000\<rparr>) = Inr t \<and>
     fpr t 1 = 0x3ff0000000000000 \<and>
     execute_fp_loadstore example_fpu_host operand_RA_or_0 operand_D False False False 0xd0200200 t = Inr u \<and>
     vm_read_memory_4 (mem u) 0x200 = 0x3f800000"
proof -
  let ?s = "zero_cpu\<lparr>mem := vm_write_memory_4 (\<lambda>_. 0) 0x100 0x3f800000\<rparr>"
  have "\<exists>t u. execute_fp_loadstore example_fpu_host operand_RA_or_0 operand_D True False False 0xc0200100 ?s = Inr t \<and>
    fpr t = (fpr ?s)(regno frD_field 0xc0200100 := f32_expand 0x3f800000) \<and>
    execute_fp_loadstore example_fpu_host operand_RA_or_0 operand_D False False False 0xd0200200 t = Inr u \<and>
    mem u = vm_write_memory_4 (mem ?s) (operand_get operand_RA_or_0 t 0xd0200200 + operand_get operand_D t 0xd0200200) 0x3f800000 \<and>
    fpr u = fpr t \<and> pc u = pc ?s + 8"
    by (rule fp_load_store_single) (simp_all add: eval_simps op_sign_extend_16_32_apply_def fpclassify_f_def read_write_4_same)
  then show ?thesis
    by (auto simp: eval_simps op_sign_extend_16_32_apply_def read_write_4_same f32_expand_def fpclassify_f_def push_bit_eq_mult Let_def)
qed

text \<open>
  \<^verbatim>\<open>lfd\<close> after \<^verbatim>\<open>stfd\<close> to the same address reloads the bits of the stored register,
  whatever they are, signalling NaNs included.
\<close>

theorem fp_store_load_double:
  assumes "operand_get RA' t opcode2 + operand_get RB' t opcode2 = operand_get RA s opcode + operand_get RB s opcode"
    and "execute_fp_loadstore H RA RB False True False opcode s = Inr t"
  shows "\<exists>u. execute_fp_loadstore H RA' RB' True True False opcode2 t = Inr u \<and>
    fpr u (regno frD_field opcode2) = fpr s (regno frS_field opcode) \<and> mem u = mem t"
  using assms by (auto simp: execute_fp_loadstore_def Let_def set_fpr_def read_write_8_same)

theorem fp_store_load_double_witness:
  "\<exists>t u. execute_fp_loadstore example_fpu_host operand_RA_or_0 operand_D False True False 0xd8200100
        (zero_cpu\<lparr>fpr := (\<lambda>_. 0)(1 := 0x7ff0000000000001)\<rparr>) = Inr t \<and>
     execute_fp_loadstore example_fpu_host operand_RA_or_0 operand_D True True False 0xc8400100 t = Inr u \<and>
     fpr u 2 = 0x7ff0000000000001"
proof -
  let ?s = "zero_cpu\<lparr>fpr := (\<lambda>_. 0)(1 := 0x7ff0000000000001)\<rparr>"
  obtain t where t: "execute_fp_loadstore example_fpu_host operand_RA_or_0 operand_D False True False 0xd8200100 ?s = Inr t"
    by (simp add: execute_fp_loadstore_def Let_def)
  have "\<exists>u. execute_fp_loadstore example_fpu_host operand_RA_or_0 operand_D True True False 0xc8400100 t = Inr u \<and>
    fpr u (regno frD_field 0xc8400100) = fpr ?s (regno frS_field 0xd8200100) \<and> mem u = mem t"
    by (rule fp_store_load_double[OF _ t]) (simp add: eval_simps)
  then show ?thesis using t by (auto simp: eval_simps)
qed

end
