(* ===== verification/PPC_Vector.thy ===== *)
theory PPC_Vector
  imports PPC_Float
begin

unbundle bit_operations_syntax

text \<open>
  The AltiVec handlers of \<^verbatim>\<open>ppc-execute.cpp\<close>, with the vector operands of
  \<^verbatim>\<open>ppc-operands.hpp\<close> and the element operations of \<^verbatim>\<open>ppc-operations.hpp\<close>. An element
  is an integer in the range of its C++ type; \<open>c_conv\<close> is the conversion to a type, which
  wraps around. Single-precision elements are their bit patterns, and no operation of the
  instruction table converts between them and integers implicitly. The loops over the
  elements read the source registers from the current state, as the references of the
  source do, so an output register that is also an input is overwritten while it is read.
\<close>

section \<open>Element types\<close>

datatype ctype = Int8 | Int16 | Int32 | Int64 | UInt8 | UInt16 | UInt32 | UInt64 | CFloat

primrec c_width :: "ctype \<Rightarrow> nat" where
  "c_width Int8 = 8" | "c_width Int16 = 16" | "c_width Int32 = 32" | "c_width Int64 = 64"
| "c_width UInt8 = 8" | "c_width UInt16 = 16" | "c_width UInt32 = 32" | "c_width UInt64 = 64"
| "c_width CFloat = 32"

definition c_signed :: "ctype \<Rightarrow> bool" where
  "c_signed t \<longleftrightarrow> t \<in> {Int8, Int16, Int32, Int64}"

definition c_conv :: "ctype \<Rightarrow> int \<Rightarrow> int" where
  "c_conv t v = (if c_signed t then signed_take_bit (c_width t - 1) v else take_bit (c_width t) v)"

definition vector_numeric_limits_min :: "ctype \<Rightarrow> int" where
  "vector_numeric_limits_min t = (if c_signed t then - (2 ^ (c_width t - 1)) else 0)"

definition vector_numeric_limits_max :: "ctype \<Rightarrow> int" where
  "vector_numeric_limits_max t = (if c_signed t then 2 ^ (c_width t - 1) - 1 else 2 ^ c_width t - 1)"

section \<open>Vector operands\<close>

datatype vshape = V_b | V_h | V_w | V_j

primrec shape_size :: "vshape \<Rightarrow> nat" where
  "shape_size V_b = 1" | "shape_size V_h = 2" | "shape_size V_w = 4" | "shape_size V_j = 8"

primrec vr_get :: "vshape \<Rightarrow> powerpc_vr \<Rightarrow> nat \<Rightarrow> int" where
  "vr_get V_b v i = uint (v i)"
| "vr_get V_h v i = uint (vr_h v i)"
| "vr_get V_w v i = uint (vr_w v i)"
| "vr_get V_j v i = uint (vr_j v i)"

primrec vr_put :: "vshape \<Rightarrow> powerpc_vr \<Rightarrow> nat \<Rightarrow> int \<Rightarrow> powerpc_vr" where
  "vr_put V_b v i x = vr_set_b v i (word_of_int x)"
| "vr_put V_h v i x = vr_set_h v i (word_of_int x)"
| "vr_put V_w v i x = vr_set_w v i (word_of_int x)"
| "vr_put V_j v i x = vr_set_j v i (word_of_int x)"

primrec ev_element :: "bool \<Rightarrow> vshape \<Rightarrow> nat \<Rightarrow> nat" where
  "ev_element mixed V_b i = (if mixed then ev_mixed_byte_element i else i)"
| "ev_element mixed V_h i = (if mixed then ev_mixed_half_element i else i)"
| "ev_element mixed V_w i = i"
| "ev_element mixed V_j i = i"

datatype vr_operand =
  vector_operand bit_field vshape ctype bool
| vector_saturate_operand bit_field vshape ctype ctype bool

datatype voperand = null_vector_operand | vimm_operand bit_field | vr_operand vr_operand

primrec vr_field :: "vr_operand \<Rightarrow> bit_field" where
  "vr_field (vector_operand f sh vt m) = f"
| "vr_field (vector_saturate_operand f sh vt st m) = f"

primrec vr_shape :: "vr_operand \<Rightarrow> vshape" where
  "vr_shape (vector_operand f sh vt m) = sh"
| "vr_shape (vector_saturate_operand f sh vt st m) = sh"

primrec vr_mixed :: "vr_operand \<Rightarrow> bool" where
  "vr_mixed (vector_operand f sh vt m) = m"
| "vr_mixed (vector_saturate_operand f sh vt st m) = m"

primrec element_type :: "vr_operand \<Rightarrow> ctype" where
  "element_type (vector_operand f sh vt m) = vt"
| "element_type (vector_saturate_operand f sh vt st m) = st"

definition element_size :: "vr_operand \<Rightarrow> nat" where
  "element_size v = shape_size (vr_shape v)"

primrec voperand_element_size :: "voperand \<Rightarrow> nat" where
  "voperand_element_size null_vector_operand = 4"
| "voperand_element_size (vimm_operand f) = 4"
| "voperand_element_size (vr_operand v) = element_size v"

primrec element_conv :: "vr_operand \<Rightarrow> int \<Rightarrow> int" where
  "element_conv (vector_operand f sh vt m) x = c_conv vt x"
| "element_conv (vector_saturate_operand f sh vt st m) x = c_conv st (c_conv vt x)"

definition vr_get_element :: "vr_operand \<Rightarrow> powerpc_vr \<Rightarrow> nat \<Rightarrow> int" where
  "vr_get_element v r i = element_conv v (vr_get (vr_shape v) r (ev_element (vr_mixed v) (vr_shape v) i))"

definition vr_set_element :: "vr_operand \<Rightarrow> powerpc_vr \<Rightarrow> nat \<Rightarrow> int \<Rightarrow> powerpc_vr" where
  "vr_set_element v r i x =
     vr_put (vr_shape v) r (ev_element (vr_mixed v) (vr_shape v) i) (c_conv (element_type v) x)"

primrec voperand_get :: "voperand \<Rightarrow> powerpc_cpu \<Rightarrow> u32 \<Rightarrow> nat \<Rightarrow> int" where
  "voperand_get null_vector_operand s opcode i = 0"
| "voperand_get (vimm_operand f) s opcode i = uint (field_extract f opcode)"
| "voperand_get (vr_operand v) s opcode i = vr_get_element v (vr s (regno (vr_field v) opcode)) i"

definition voperand_set :: "vr_operand \<Rightarrow> u32 \<Rightarrow> nat \<Rightarrow> int \<Rightarrow> powerpc_cpu \<Rightarrow> powerpc_cpu" where
  "voperand_set v opcode i x s =
     (let n = regno (vr_field v) opcode in set_vr n (vr_set_element v (vr s n) i x) s)"

primrec saturate :: "vr_operand \<Rightarrow> int \<Rightarrow> int \<times> bool" where
  "saturate (vector_operand f sh vt m) v = (v, False)"
| "saturate (vector_saturate_operand f sh vt st m) v =
     (if v > vector_numeric_limits_max vt then (c_conv st (vector_numeric_limits_max vt), True)
      else if v < vector_numeric_limits_min vt then (c_conv st (vector_numeric_limits_min vt), True)
      else (v, False))"

section \<open>Operations\<close>

datatype vop1 =
  op_exp2 | op_log2 | op_fres | op_frsqrt | op_frsim | op_frsin | op_frsip | op_frsiz

datatype vop2 =
  vop_add | vop_sub | vop_mul | vop_smul
| op_add_64 | op_sub_64 | op_smul_64 | op_and_64 | op_andc_64 | op_or_64 | op_nor_64 | op_xor_64
| op_fadds | op_fsubs
| op_vrl ctype | op_vsl ctype | op_vsr ctype
| op_cvt_fp2si | op_cvt_si2fp ctype
| op_max ctype | op_min ctype
| op_cmp_eq ctype | op_cmp_ge ctype | op_cmp_gt ctype | op_cmpbfp
| op_addcuw | op_subcuw
| op_avgsb | op_avgsh | op_avgsw | op_avgub | op_avguh | op_avguw

datatype vop3 = op_mhraddsh int | op_vsel | op_vmaddfp | op_vnmsubfp | op_mladduh

datatype vop = VOP1 vop1 | VOP2 vop2 | VOP3 vop3

abbreviation f32_of :: "int \<Rightarrow> u32" where "f32_of x \<equiv> word_of_int x"

definition f32_neg :: "u32 \<Rightarrow> u32" where "f32_neg x = x XOR 0x80000000"

primrec vop1_eval :: "'h fpu_host_scheme \<Rightarrow> fe_round \<Rightarrow> vop1 \<Rightarrow> u32 \<Rightarrow> u32" where
  "vop1_eval H r op_exp2 x = f32_exp2 H r x"
| "vop1_eval H r op_log2 x = f32_log2 H r x"
| "vop1_eval H r op_fres x = f32_div H r 0x3f800000 x"
| "vop1_eval H r op_frsqrt x = f32_rsqrt H r x"
| "vop1_eval H r op_frsim x = f32_floor H x"
| "vop1_eval H r op_frsin x = f32_round H x"
| "vop1_eval H r op_frsip x = f32_ceil H x"
| "vop1_eval H r op_frsiz x = f32_trunc H x"

text \<open>The parameter and result types of the binary operations.\<close>

primrec vop2_type :: "vop2 \<Rightarrow> ctype \<times> ctype \<times> ctype" where
  "vop2_type vop_add = (UInt32, UInt32, UInt32)"
| "vop2_type vop_sub = (UInt32, UInt32, UInt32)"
| "vop2_type vop_mul = (UInt32, UInt32, UInt32)"
| "vop2_type vop_smul = (Int32, Int32, Int32)"
| "vop2_type op_add_64 = (UInt64, UInt64, UInt64)"
| "vop2_type op_sub_64 = (UInt64, UInt64, UInt64)"
| "vop2_type op_smul_64 = (Int64, Int64, Int64)"
| "vop2_type op_and_64 = (UInt64, UInt64, UInt64)"
| "vop2_type op_andc_64 = (UInt64, UInt64, UInt64)"
| "vop2_type op_or_64 = (UInt64, UInt64, UInt64)"
| "vop2_type op_nor_64 = (UInt64, UInt64, UInt64)"
| "vop2_type op_xor_64 = (UInt64, UInt64, UInt64)"
| "vop2_type op_fadds = (CFloat, CFloat, CFloat)"
| "vop2_type op_fsubs = (CFloat, CFloat, CFloat)"
| "vop2_type (op_vrl t) = (t, t, t)"
| "vop2_type (op_vsl t) = (t, t, t)"
| "vop2_type (op_vsr t) = (t, t, t)"
| "vop2_type op_cvt_fp2si = (UInt32, CFloat, Int64)"
| "vop2_type (op_cvt_si2fp t) = (UInt32, t, CFloat)"
| "vop2_type (op_max t) = (t, t, t)"
| "vop2_type (op_min t) = (t, t, t)"
| "vop2_type (op_cmp_eq t) = (t, t, UInt32)"
| "vop2_type (op_cmp_ge t) = (t, t, UInt32)"
| "vop2_type (op_cmp_gt t) = (t, t, UInt32)"
| "vop2_type op_cmpbfp = (CFloat, CFloat, UInt32)"
| "vop2_type op_addcuw = (UInt32, UInt32, UInt32)"
| "vop2_type op_subcuw = (UInt32, UInt32, UInt32)"
| "vop2_type op_avgsb = (Int8, Int8, Int8)"
| "vop2_type op_avgsh = (Int16, Int16, Int16)"
| "vop2_type op_avgsw = (Int32, Int32, Int32)"
| "vop2_type op_avgub = (UInt8, UInt8, UInt8)"
| "vop2_type op_avguh = (UInt16, UInt16, UInt16)"
| "vop2_type op_avguw = (UInt32, UInt32, UInt32)"

definition shift_count :: "ctype \<Rightarrow> int \<Rightarrow> nat" where
  "shift_count t n = nat (n AND int (c_width t - 1))"

definition op_max_apply :: "ctype \<Rightarrow> int \<Rightarrow> int \<Rightarrow> int" where
  "op_max_apply t a b =
     (if t = CFloat
      then if is_NaN_f (f32_of a) then a else if is_NaN_f (f32_of b) then b
           else if f32_lt (f32_of b) (f32_of a) then a else b
      else if a > b then a else b)"

definition op_min_apply :: "ctype \<Rightarrow> int \<Rightarrow> int \<Rightarrow> int" where
  "op_min_apply t a b =
     (if t = CFloat
      then if is_NaN_f (f32_of a) then a else if is_NaN_f (f32_of b) then b
           else if f32_lt (f32_of a) (f32_of b) then a else b
      else if a < b then a else b)"

definition op_all_ones_value :: "ctype \<Rightarrow> int" where
  "op_all_ones_value t = (if c_width t = 32 then 0xffffffff else 2 ^ c_width t - 1)"

definition op_cmp_apply :: "(u32 \<Rightarrow> u32 \<Rightarrow> bool) \<Rightarrow> (int \<Rightarrow> int \<Rightarrow> bool) \<Rightarrow> ctype \<Rightarrow> int \<Rightarrow> int \<Rightarrow> int" where
  "op_cmp_apply ff fi t a b =
     (if (if t = CFloat then ff (f32_of a) (f32_of b) else fi a b) then op_all_ones_value t else 0)"

definition op_cmpbfp_apply :: "u32 \<Rightarrow> u32 \<Rightarrow> u32" where
  "op_cmpbfp_apply a b =
     (if f32_le a b then 0 else 0x80000000) OR (if f32_le (f32_neg b) a then 0 else 0x40000000)"

definition op_cvt_fp2si_apply :: "'h fpu_host_scheme \<Rightarrow> fe_round \<Rightarrow> int \<Rightarrow> u32 \<Rightarrow> int" where
  "op_cvt_fp2si_apply H r a b =
     (if fpclassify_f b = FP_INFINITE
      then push_bit 32 (if f32_lt b 0 then 0x80000000 else 0x7fffffff)
      else if is_NaN_f b then 0
      else f32_to_int64 H (f32_mul H r b (f32_from_int H r (push_bit (nat a) 1))))"

fun vop2_eval :: "'h fpu_host_scheme \<Rightarrow> fe_round \<Rightarrow> vop2 \<Rightarrow> int \<Rightarrow> int \<Rightarrow> int" where
  "vop2_eval H r vop_add x y = x + y"
| "vop2_eval H r vop_sub x y = x - y"
| "vop2_eval H r vop_mul x y = x * y"
| "vop2_eval H r vop_smul x y = x * y"
| "vop2_eval H r op_add_64 x y = x + y"
| "vop2_eval H r op_sub_64 x y = x - y"
| "vop2_eval H r op_smul_64 x y = x * y"
| "vop2_eval H r op_and_64 x y = x AND y"
| "vop2_eval H r op_andc_64 x y = x AND NOT y"
| "vop2_eval H r op_or_64 x y = x OR y"
| "vop2_eval H r op_nor_64 x y = NOT (x OR y)"
| "vop2_eval H r op_xor_64 x y = x XOR y"
| "vop2_eval H r op_fadds x y = uint (f32_add H r (f32_of x) (f32_of y))"
| "vop2_eval H r op_fsubs x y = uint (f32_sub H r (f32_of x) (f32_of y))"
| "vop2_eval H r (op_vrl t) x y =
     (let sh = shift_count t y in push_bit sh x OR drop_bit (c_width t - sh) x)"
| "vop2_eval H r (op_vsl t) x y = push_bit (shift_count t y) x"
| "vop2_eval H r (op_vsr t) x y = drop_bit (shift_count t y) x"
| "vop2_eval H r op_cvt_fp2si x y = op_cvt_fp2si_apply H r x (f32_of y)"
| "vop2_eval H r (op_cvt_si2fp t) x y =
     uint (f32_div H r (f32_from_int H r y) (f32_from_int H r (push_bit (nat x) 1)))"
| "vop2_eval H r (op_max t) x y = op_max_apply t x y"
| "vop2_eval H r (op_min t) x y = op_min_apply t x y"
| "vop2_eval H r (op_cmp_eq t) x y = op_cmp_apply f32_eq (=) t x y"
| "vop2_eval H r (op_cmp_ge t) x y = op_cmp_apply (\<lambda>a b. f32_le b a) (\<ge>) t x y"
| "vop2_eval H r (op_cmp_gt t) x y = op_cmp_apply (\<lambda>a b. f32_lt b a) (>) t x y"
| "vop2_eval H r op_cmpbfp x y = uint (op_cmpbfp_apply (f32_of x) (f32_of y))"
| "vop2_eval H r op_addcuw x y = drop_bit 32 (x + y)"
| "vop2_eval H r op_subcuw x y = drop_bit 32 (NOT (x - y)) AND 1"
| "vop2_eval H r op_avgsb x y = drop_bit 1 (x + y + 1)"
| "vop2_eval H r op_avgsh x y = drop_bit 1 (x + y + 1)"
| "vop2_eval H r op_avgsw x y = drop_bit 1 (x + y + 1)"
| "vop2_eval H r op_avgub x y = drop_bit 1 (x + y + 1)"
| "vop2_eval H r op_avguh x y = drop_bit 1 (x + y + 1)"
| "vop2_eval H r op_avguw x y = drop_bit 1 (x + y + 1)"

primrec vop3_type :: "vop3 \<Rightarrow> ctype" where
  "vop3_type (op_mhraddsh n) = Int32"
| "vop3_type op_vsel = UInt32"
| "vop3_type op_vmaddfp = CFloat"
| "vop3_type op_vnmsubfp = CFloat"
| "vop3_type op_mladduh = UInt32"

primrec vop3_eval :: "'h fpu_host_scheme \<Rightarrow> fe_round \<Rightarrow> vop3 \<Rightarrow> int \<Rightarrow> int \<Rightarrow> int \<Rightarrow> int" where
  "vop3_eval H r (op_mhraddsh n) x y z = drop_bit 15 (x * y + n) + z"
| "vop3_eval H r op_vsel x y z = (y AND z) OR (x AND NOT z)"
| "vop3_eval H r op_vmaddfp x y z = uint (f32_add H r (f32_mul H r (f32_of x) (f32_of z)) (f32_of y))"
| "vop3_eval H r op_vnmsubfp x y z =
     uint (f32_neg (f32_sub H r (f32_mul H r (f32_of x) (f32_of z)) (f32_of y)))"
| "vop3_eval H r op_mladduh x y z = (x * y + z) AND 0xffff"

fun vop2_apply :: "'h fpu_host_scheme \<Rightarrow> fe_round \<Rightarrow> vop2 \<Rightarrow> int \<Rightarrow> int \<Rightarrow> int" where
  "vop2_apply H r f x y =
     (case vop2_type f of (t, u, v) \<Rightarrow> c_conv v (vop2_eval H r f (c_conv t x) (c_conv u y)))"

definition vop3_apply :: "'h fpu_host_scheme \<Rightarrow> fe_round \<Rightarrow> vop3 \<Rightarrow> int \<Rightarrow> int \<Rightarrow> int \<Rightarrow> int" where
  "vop3_apply H r f x y z =
     (let t = vop3_type f in c_conv t (vop3_eval H r f (c_conv t x) (c_conv t y) (c_conv t z)))"

text \<open>
  \<^verbatim>\<open>op_apply\<close> drops the operands that are \<open>null_vector_operand\<close>: a unary operation
  takes its operand from vB when vA is absent.
\<close>

primrec vop_apply ::
  "'h fpu_host_scheme \<Rightarrow> fe_round \<Rightarrow> ctype \<Rightarrow> vop \<Rightarrow> voperand \<Rightarrow> int \<Rightarrow> int \<Rightarrow> int \<Rightarrow> int" where
  "vop_apply H r RT (VOP1 f) VA a b c =
     c_conv RT (uint (vop1_eval H r f (f32_of (if VA = null_vector_operand then b else a))))"
| "vop_apply H r RT (VOP2 f) VA a b c = c_conv RT (vop2_apply H r f a b)"
| "vop_apply H r RT (VOP3 f) VA a b c = c_conv RT (vop3_apply H r f a b c)"

section \<open>Loads and stores\<close>

definition execute_vector_load_for_shift :: "bool \<Rightarrow> u32 \<Rightarrow> powerpc_cpu \<Rightarrow> result" where
  "execute_vector_load_for_shift SL opcode s =
     (let ra = operand_get operand_RA_or_0 s opcode;
          rb = operand_get operand_RB s opcode;
          ea = ra + rb;
          vD = regno vD_field opcode;
          j = (if SL then ea AND 0xf else 0x10 - (ea AND 0xf));
          s = fold (\<lambda>i s. set_vr vD (vr_set_b (vr s vD) (ev_mixed_byte_element i) (ucast (j + of_nat i))) s)
                [0..<16] s
      in Inr (increment_pc 4 s))"

definition execute_vector_load :: "vr_operand \<Rightarrow> operand \<Rightarrow> operand \<Rightarrow> u32 \<Rightarrow> powerpc_cpu \<Rightarrow> result" where
  "execute_vector_load VD RA RB opcode s =
     (let ea = operand_get RA s opcode + operand_get RB s opcode;
          n = regno (vr_field VD) opcode;
          s = (if element_size VD = 1
               then voperand_set VD opcode (unat (ea AND 0x0f)) (uint (vm_read_memory_1 (mem s) ea)) s
               else if element_size VD = 2
               then voperand_set VD opcode (unat (drop_bit 1 ea AND 0x07))
                      (uint (vm_read_memory_2 (mem s) (ea AND NOT 1))) s
               else if element_size VD = 4
               then voperand_set VD opcode (unat (drop_bit 2 ea AND 0x03))
                      (uint (vm_read_memory_4 (mem s) (ea AND NOT 3))) s
               else if element_size VD = 8
               then (let ea = ea AND NOT 15;
                         s = set_vr n (vr_set_w (vr s n) 0 (vm_read_memory_4 (mem s) (ea + 0))) s;
                         s = set_vr n (vr_set_w (vr s n) 1 (vm_read_memory_4 (mem s) (ea + 4))) s;
                         s = set_vr n (vr_set_w (vr s n) 2 (vm_read_memory_4 (mem s) (ea + 8))) s
                     in set_vr n (vr_set_w (vr s n) 3 (vm_read_memory_4 (mem s) (ea + 12))) s)
               else s)
      in Inr (increment_pc 4 s))"

definition execute_vector_store :: "vr_operand \<Rightarrow> operand \<Rightarrow> operand \<Rightarrow> u32 \<Rightarrow> powerpc_cpu \<Rightarrow> result" where
  "execute_vector_store VS RA RB opcode s =
     (let ea = operand_get RA s opcode + operand_get RB s opcode;
          vS = vr s (regno (vr_field VS) opcode);
          m = mem s;
          m = (if element_size VS = 1
               then vm_write_memory_1 m ea (word_of_int (vr_get_element VS vS (unat (ea AND 0x0f))))
               else if element_size VS = 2
               then vm_write_memory_2 m (ea AND NOT 1) (word_of_int (vr_get_element VS vS (unat (drop_bit 1 ea AND 0x07))))
               else if element_size VS = 4
               then vm_write_memory_4 m (ea AND NOT 3) (word_of_int (vr_get_element VS vS (unat (drop_bit 2 ea AND 0x03))))
               else if element_size VS = 8
               then (let ea = ea AND NOT 15;
                         m = vm_write_memory_4 m (ea + 0) (vr_w vS 0);
                         m = vm_write_memory_4 m (ea + 4) (vr_w vS 1);
                         m = vm_write_memory_4 m (ea + 8) (vr_w vS 2)
                     in vm_write_memory_4 m (ea + 12) (vr_w vS 3))
               else m)
      in Inr (increment_pc 4 (s\<lparr>mem := m\<rparr>)))"

section \<open>Element-wise arithmetic\<close>

definition set_vscr_sat :: "bool \<Rightarrow> powerpc_cpu \<Rightarrow> powerpc_cpu" where
  "set_vscr_sat sat s = (if sat then s\<lparr>vscr := vscr_set_sat True (vscr s)\<rparr> else s)"

text \<open>The end of every element loop: saturate, record the saturation, store the element.\<close>

definition vector_commit :: "vr_operand \<Rightarrow> u32 \<Rightarrow> nat \<Rightarrow> int \<Rightarrow> powerpc_cpu \<Rightarrow> powerpc_cpu" where
  "vector_commit VD opcode i d s =
     (case saturate VD d of (d, sat) \<Rightarrow> voperand_set VD opcode i d (set_vscr_sat sat s))"

definition vector_arith_step ::
  "'h fpu_host_scheme \<Rightarrow> vop \<Rightarrow> vr_operand \<Rightarrow> voperand \<Rightarrow> voperand \<Rightarrow> voperand \<Rightarrow> u32 \<Rightarrow> nat \<Rightarrow> powerpc_cpu \<Rightarrow> powerpc_cpu" where
  "vector_arith_step H OP VD VA VB VC opcode i s =
     (let a = voperand_get VA s opcode i;
          b = voperand_get VB s opcode i;
          c = voperand_get VC s opcode i;
          d = vop_apply H (host_round s) (element_type VD) OP VA a b c
      in vector_commit VD opcode i d s)"

definition execute_vector_arith ::
  "'h fpu_host_scheme \<Rightarrow> vop \<Rightarrow> vr_operand \<Rightarrow> voperand \<Rightarrow> voperand \<Rightarrow> voperand \<Rightarrow> opcode_pred \<Rightarrow> bool \<Rightarrow>
   u32 \<Rightarrow> powerpc_cpu \<Rightarrow> result" where
  "execute_vector_arith H OP VD VA VB VC Rc C1 opcode s =
     (let n_elements = 16 div element_size VD;
          s = fold (vector_arith_step H OP VD VA VB VC opcode) [0..<n_elements] s;
          s = upd_if (pred_test Rc opcode) (\<lambda>s. record_cr6 (vr s (regno (vr_field VD) opcode)) C1 s) s
      in Inr (increment_pc 4 s))"

definition vector_arith_mixed_step ::
  "'h fpu_host_scheme \<Rightarrow> vop \<Rightarrow> vr_operand \<Rightarrow> voperand \<Rightarrow> voperand \<Rightarrow> voperand \<Rightarrow> u32 \<Rightarrow> nat \<Rightarrow> powerpc_cpu \<Rightarrow> powerpc_cpu" where
  "vector_arith_mixed_step H OP VD VA VB VC opcode i s =
     (let n_sub_elements = 4 div voperand_element_size VA;
          RT = element_type VD;
          c = voperand_get VC s opcode i;
          d = fold (\<lambda>j d.
                let a = voperand_get VA s opcode (i * n_sub_elements + j);
                    b = voperand_get VB s opcode (i * n_sub_elements + j)
                in c_conv RT (d + vop_apply H (host_round s) RT OP VA a b c))
              [0..<n_sub_elements] (c_conv RT c)
      in vector_commit VD opcode i d s)"

definition execute_vector_arith_mixed ::
  "'h fpu_host_scheme \<Rightarrow> vop \<Rightarrow> vr_operand \<Rightarrow> voperand \<Rightarrow> voperand \<Rightarrow> voperand \<Rightarrow> u32 \<Rightarrow> powerpc_cpu \<Rightarrow> result" where
  "execute_vector_arith_mixed H OP VD VA VB VC opcode s =
     (let n_elements = 16 div element_size VD
      in Inr (increment_pc 4 (fold (vector_arith_mixed_step H OP VD VA VB VC opcode) [0..<n_elements] s)))"

definition vector_arith_odd_step ::
  "nat \<Rightarrow> 'h fpu_host_scheme \<Rightarrow> vop \<Rightarrow> vr_operand \<Rightarrow> voperand \<Rightarrow> voperand \<Rightarrow> voperand \<Rightarrow> u32 \<Rightarrow> nat \<Rightarrow> powerpc_cpu \<Rightarrow> powerpc_cpu" where
  "vector_arith_odd_step ODD H OP VD VA VB VC opcode i s =
     (let a = voperand_get VA s opcode (i * 2 + ODD);
          b = voperand_get VB s opcode (i * 2 + ODD);
          c = voperand_get VC s opcode (i * 2 + ODD);
          d = vop_apply H (host_round s) (element_type VD) OP VA a b c
      in vector_commit VD opcode i d s)"

definition execute_vector_arith_odd ::
  "nat \<Rightarrow> 'h fpu_host_scheme \<Rightarrow> vop \<Rightarrow> vr_operand \<Rightarrow> voperand \<Rightarrow> voperand \<Rightarrow> voperand \<Rightarrow> u32 \<Rightarrow> powerpc_cpu \<Rightarrow> result" where
  "execute_vector_arith_odd ODD H OP VD VA VB VC opcode s =
     (let n_elements = 16 div element_size VD
      in Inr (increment_pc 4 (fold (vector_arith_odd_step ODD H OP VD VA VB VC opcode) [0..<n_elements] s)))"

section \<open>Merge, pack and unpack\<close>

definition vector_merge_step :: "vr_operand \<Rightarrow> voperand \<Rightarrow> voperand \<Rightarrow> nat \<Rightarrow> u32 \<Rightarrow> nat \<Rightarrow> powerpc_cpu \<Rightarrow> powerpc_cpu" where
  "vector_merge_step VD VA VB LO opcode k s =
     (let n_elements = 16 div element_size VD;
          i = 2 * k;
          s = voperand_set VD opcode i (voperand_get VA s opcode (i div 2 + LO * (n_elements div 2))) s
      in voperand_set VD opcode (i + 1) (voperand_get VB s opcode (i div 2 + LO * (n_elements div 2))) s)"

definition execute_vector_merge :: "vr_operand \<Rightarrow> voperand \<Rightarrow> voperand \<Rightarrow> nat \<Rightarrow> u32 \<Rightarrow> powerpc_cpu \<Rightarrow> result" where
  "execute_vector_merge VD VA VB LO opcode s =
     (let n_elements = 16 div element_size VD
      in Inr (increment_pc 4 (fold (vector_merge_step VD VA VB LO opcode) [0..<n_elements div 2] s)))"

definition vector_pack_step :: "vr_operand \<Rightarrow> voperand \<Rightarrow> voperand \<Rightarrow> u32 \<Rightarrow> nat \<Rightarrow> powerpc_cpu \<Rightarrow> powerpc_cpu" where
  "vector_pack_step VD VA VB opcode i s =
     (let n_pivot = 16 div element_size VD div 2;
          d = c_conv (element_type VD)
                (if i < n_pivot then voperand_get VA s opcode i else voperand_get VB s opcode (i - n_pivot))
      in vector_commit VD opcode i d s)"

definition execute_vector_pack :: "vr_operand \<Rightarrow> voperand \<Rightarrow> voperand \<Rightarrow> u32 \<Rightarrow> powerpc_cpu \<Rightarrow> result" where
  "execute_vector_pack VD VA VB opcode s =
     (let n_elements = 16 div element_size VD
      in Inr (increment_pc 4 (fold (vector_pack_step VD VA VB opcode) [0..<n_elements] s)))"

definition execute_vector_unpack :: "nat \<Rightarrow> vr_operand \<Rightarrow> voperand \<Rightarrow> u32 \<Rightarrow> powerpc_cpu \<Rightarrow> result" where
  "execute_vector_unpack LO VD VA opcode s =
     (let n_elements = 16 div element_size VD;
          s = fold (\<lambda>i s. voperand_set VD opcode i (voperand_get VA s opcode (i + LO * n_elements)) s) [0..<n_elements] s
      in Inr (increment_pc 4 s))"

definition pack_pixel :: "u32 \<Rightarrow> u32" where
  "pack_pixel a = (drop_bit 9 a AND 0xfc00) OR (drop_bit 6 a AND 0x03e0) OR (drop_bit 3 a AND 0x001f)"

definition execute_vector_pack_pixel :: "u32 \<Rightarrow> powerpc_cpu \<Rightarrow> result" where
  "execute_vector_pack_pixel opcode s =
     (let vA = regno vA_field opcode; vB = regno vB_field opcode; vD = regno vD_field opcode;
          s = fold (\<lambda>i s.
                let a = vr_w (vr s vA) i;
                    s = set_vr vD (vr_set_h (vr s vD) (ev_mixed_half_element i) (ucast (pack_pixel a))) s;
                    b = vr_w (vr s vB) i
                in set_vr vD (vr_set_h (vr s vD) (ev_mixed_half_element (i + 4)) (ucast (pack_pixel b))) s)
              [0..<4] s
      in Inr (increment_pc 4 s))"

definition unpack_pixel :: "u32 \<Rightarrow> u32" where
  "unpack_pixel h =
     (if h AND 0x8000 \<noteq> 0 then 0xff000000 else 0) OR push_bit 6 (h AND 0x7c00) OR
     push_bit 3 (h AND 0x03e0) OR (h AND 0x001f)"

definition execute_vector_unpack_pixel :: "nat \<Rightarrow> u32 \<Rightarrow> powerpc_cpu \<Rightarrow> result" where
  "execute_vector_unpack_pixel LO opcode s =
     (let vB = regno vB_field opcode; vD = regno vD_field opcode;
          s = fold (\<lambda>i s.
                let h = ucast (vr_h (vr s vB) (ev_mixed_half_element (i + LO * 4)))
                in set_vr vD (vr_set_w (vr s vD) i (unpack_pixel h)) s)
              [0..<4] s
      in Inr (increment_pc 4 s))"

section \<open>Shifts\<close>

definition vector_shift_left_step :: "nat \<Rightarrow> nat \<Rightarrow> nat \<Rightarrow> nat \<Rightarrow> u32 \<times> powerpc_cpu \<Rightarrow> u32 \<times> powerpc_cpu" where
  "vector_shift_left_step vA vD sh i = (\<lambda>(prev_bits, s).
     let next_bits = drop_bit (32 - sh) (vr_w (vr s vA) i);
         s = set_vr vD (vr_set_w (vr s vD) i (push_bit sh (vr_w (vr s vA) i) OR prev_bits)) s
     in (next_bits, s))"

definition vector_shift_right_step :: "nat \<Rightarrow> nat \<Rightarrow> nat \<Rightarrow> nat \<Rightarrow> u32 \<times> powerpc_cpu \<Rightarrow> u32 \<times> powerpc_cpu" where
  "vector_shift_right_step vA vD sh i = (\<lambda>(prev_bits, s).
     let next_bits = push_bit (32 - sh) (vr_w (vr s vA) i);
         s = set_vr vD (vr_set_w (vr s vD) i (drop_bit sh (vr_w (vr s vA) i) OR prev_bits)) s
     in (next_bits, s))"

definition execute_vector_shift :: "int \<Rightarrow> u32 \<Rightarrow> powerpc_cpu \<Rightarrow> result" where
  "execute_vector_shift SD opcode s =
     (let vA = regno vA_field opcode; vB = regno vB_field opcode; vD = regno vD_field opcode;
          sh = unat (vr s vB (ev_mixed_byte_element 15) AND 7);
          s = (if sh = 0
               then fold (\<lambda>i s. set_vr vD (vr_set_w (vr s vD) i (vr_w (vr s vA) i)) s) [0..<4] s
               else if SD < 0 then snd (fold (vector_shift_left_step vA vD sh) [3, 2, 1, 0] (0, s))
               else if SD > 0 then snd (fold (vector_shift_right_step vA vD sh) [0, 1, 2, 3] (0, s))
               else s)
      in Inr (increment_pc 4 s))"

definition vector_shift_octet_step ::
  "int \<Rightarrow> vr_operand \<Rightarrow> voperand \<Rightarrow> voperand \<Rightarrow> u32 \<Rightarrow> nat \<Rightarrow> nat \<Rightarrow> powerpc_cpu \<Rightarrow> powerpc_cpu" where
  "vector_shift_octet_step SD VD VA VB opcode sh i s =
     (if SD < 0
      then if i + sh < 16 then voperand_set VD opcode i (voperand_get VA s opcode (i + sh)) s
           else voperand_set VD opcode i (voperand_get VB s opcode (i - (16 - sh))) s
      else if SD > 0
      then if i < sh then voperand_set VD opcode i (voperand_get VB s opcode (16 + sh - i)) s
           else voperand_set VD opcode i (voperand_get VA s opcode (i - sh)) s
      else s)"

definition execute_vector_shift_octet ::
  "int \<Rightarrow> vr_operand \<Rightarrow> voperand \<Rightarrow> voperand \<Rightarrow> operand \<Rightarrow> u32 \<Rightarrow> powerpc_cpu \<Rightarrow> result" where
  "execute_vector_shift_octet SD VD VA VB SH opcode s =
     (let sh = unat (operand_get SH s opcode)
      in Inr (increment_pc 4 (fold (vector_shift_octet_step SD VD VA VB opcode sh) [0..<16] s)))"

section \<open>Splat and sums\<close>

definition execute_vector_splat :: "op1 \<Rightarrow> vr_operand \<Rightarrow> voperand \<Rightarrow> bool \<Rightarrow> u32 \<Rightarrow> powerpc_cpu \<Rightarrow> result" where
  "execute_vector_splat OP VD VB IM opcode s =
     (let n_elements = 16 div element_size VD;
          val = (if IM then op1_apply OP (field_extract vUIMM_field opcode)
                 else (let n = unat (field_extract vUIMM_field opcode AND of_nat (n_elements - 1))
                       in op1_apply OP (word_of_int (voperand_get VB s opcode n))));
          s = fold (\<lambda>i s. voperand_set VD opcode i (uint val) s) [0..<n_elements] s
      in Inr (increment_pc 4 s))"

definition vector_sum_elements ::
  "vr_operand \<Rightarrow> voperand \<Rightarrow> u32 \<Rightarrow> powerpc_cpu \<Rightarrow> int \<Rightarrow> nat list \<Rightarrow> int" where
  "vector_sum_elements VD VA opcode s d js =
     fold (\<lambda>j d. c_conv (element_type VD) (d + voperand_get VA s opcode j)) js (c_conv (element_type VD) d)"

definition execute_vector_sum :: "nat \<Rightarrow> vr_operand \<Rightarrow> voperand \<Rightarrow> voperand \<Rightarrow> u32 \<Rightarrow> powerpc_cpu \<Rightarrow> result" where
  "execute_vector_sum SZ VD VA VB opcode s =
     (let s =
        (if SZ = 1
         then (let d = vector_sum_elements VD VA opcode s (voperand_get VB s opcode 3) [0, 1, 2, 3];
                   (d, sat) = saturate VD d;
                   s = set_vscr_sat sat s;
                   s = voperand_set VD opcode 0 0 s;
                   s = voperand_set VD opcode 1 0 s;
                   s = voperand_set VD opcode 2 0 s
               in voperand_set VD opcode 3 d s)
         else if SZ = 2
         then fold (\<lambda>i s.
                let d = vector_sum_elements VD VA opcode s (voperand_get VB s opcode (i + 1)) [i, i + 1];
                    (d, sat) = saturate VD d;
                    s = set_vscr_sat sat s;
                    s = voperand_set VD opcode (i + 0) 0 s
                in voperand_set VD opcode (i + 1) d s) [0, 2] s
         else if SZ = 4
         then fold (\<lambda>i s.
                let n_elements = 4 div voperand_element_size VA;
                    d = vector_sum_elements VD VA opcode s (voperand_get VB s opcode i)
                          (map (\<lambda>j. i * n_elements + j) [0..<n_elements])
                in vector_commit VD opcode i d s) [0..<4] s
         else s)
      in Inr (increment_pc 4 s))"

section \<open>Permute and status register\<close>

definition vector_permute_step :: "nat \<Rightarrow> nat \<Rightarrow> nat \<Rightarrow> nat \<Rightarrow> nat \<Rightarrow> powerpc_cpu \<Rightarrow> powerpc_cpu" where
  "vector_permute_step vA vB vC vD i s =
     (let ei = ev_mixed_byte_element i;
          n = vr s vC ei AND 0x1f;
          en = ev_mixed_byte_element (unat (n AND 0xf))
      in set_vr vD (vr_set_b (vr s vD) ei (if n AND 0x10 \<noteq> 0 then vr s vB en else vr s vA en)) s)"

definition execute_vector_permute :: "u32 \<Rightarrow> powerpc_cpu \<Rightarrow> result" where
  "execute_vector_permute opcode s =
     (let vA = regno vA_field opcode; vB = regno vB_field opcode;
          vC = regno vC_field opcode; vD = regno vD_field opcode
      in Inr (increment_pc 4 (fold (vector_permute_step vA vB vC vD) [0..<16] s)))"

definition execute_mfvscr :: "u32 \<Rightarrow> powerpc_cpu \<Rightarrow> result" where
  "execute_mfvscr opcode s =
     (let vD = regno vD_field opcode;
          s = set_vr vD (vr_set_w (vr s vD) 0 0) s;
          s = set_vr vD (vr_set_w (vr s vD) 1 0) s;
          s = set_vr vD (vr_set_w (vr s vD) 2 0) s;
          s = set_vr vD (vr_set_w (vr s vD) 3 (vscr s)) s
      in Inr (increment_pc 4 s))"

definition execute_mtvscr :: "u32 \<Rightarrow> powerpc_cpu \<Rightarrow> result" where
  "execute_mtvscr opcode s =
     (let vB = regno vB_field opcode
      in Inr (increment_pc 4 (s\<lparr>vscr := vr_w (vr s vB) 3\<rparr>)))"

section \<open>The handlers keep the register-file invariant\<close>

lemma wf_set_vscr_sat [wf_intros]: "wf_cpu s \<Longrightarrow> wf_cpu (set_vscr_sat b s)"
  by (simp add: set_vscr_sat_def wf_cpu_def)

lemma wf_set_vr [wf_intros]: "wf_cpu s \<Longrightarrow> wf_cpu (set_vr n v s)"
  by (simp add: set_vr_def wf_cpu_def)

lemma wf_voperand_set [wf_intros]: "wf_cpu s \<Longrightarrow> wf_cpu (voperand_set v opcode i x s)"
  by (simp add: voperand_set_def Let_def wf_intros)

lemma wf_vector_commit [wf_intros]: "wf_cpu s \<Longrightarrow> wf_cpu (vector_commit v opcode i x s)"
  by (simp add: vector_commit_def wf_intros split: prod.split)

lemma wf_fold: "wf_cpu s \<Longrightarrow> (\<And>i s. wf_cpu s \<Longrightarrow> wf_cpu (f i s)) \<Longrightarrow> wf_cpu (fold f xs s)"
  by (induction xs arbitrary: s) simp_all

lemma wf_record_cr6 [wf_intros]: "wf_cpu s \<Longrightarrow> wf_cpu (record_cr6 v b s)"
  by (simp add: record_cr6_def wf_cpu_def)

lemma wf_Inr_increment: "wf_cpu s \<Longrightarrow> wf_result (Inr (increment_pc 4 s))"
  by (simp add: wf_intros)

lemmas vector_step_defs = vector_arith_step_def vector_arith_mixed_step_def vector_arith_odd_step_def
  vector_merge_step_def vector_pack_step_def vector_shift_octet_step_def vector_permute_step_def

lemma wf_execute_vector_load_for_shift: "wf_cpu s \<Longrightarrow> wf_result (execute_vector_load_for_shift SL opcode s)"
  unfolding execute_vector_load_for_shift_def Let_def by (intro wf_Inr_increment wf_fold wf_intros)

lemma wf_execute_vector_load: "wf_cpu s \<Longrightarrow> wf_result (execute_vector_load VD RA RB opcode s)"
  unfolding execute_vector_load_def Let_def by (intro wf_Inr_increment) (simp add: wf_intros)

lemma wf_execute_vector_store: "wf_cpu s \<Longrightarrow> wf_result (execute_vector_store VD RA RB opcode s)"
  unfolding execute_vector_store_def Let_def by (intro wf_Inr_increment) (simp add: wf_cpu_def)

lemma wf_execute_vector_arith: "wf_cpu s \<Longrightarrow> wf_result (execute_vector_arith H OP VD VA VB VC Rc C1 opcode s)"
  unfolding execute_vector_arith_def Let_def
  by (intro wf_Inr_increment wf_fold wf_intros) (auto simp: vector_step_defs wf_intros)

lemma wf_execute_vector_arith_mixed: "wf_cpu s \<Longrightarrow> wf_result (execute_vector_arith_mixed H OP VD VA VB VC opcode s)"
  unfolding execute_vector_arith_mixed_def Let_def
  by (intro wf_Inr_increment wf_fold) (auto simp: vector_step_defs Let_def wf_intros)

lemma wf_execute_vector_arith_odd: "wf_cpu s \<Longrightarrow> wf_result (execute_vector_arith_odd ODD H OP VD VA VB VC opcode s)"
  unfolding execute_vector_arith_odd_def Let_def
  by (intro wf_Inr_increment wf_fold) (auto simp: vector_step_defs Let_def wf_intros)

lemma wf_execute_vector_merge: "wf_cpu s \<Longrightarrow> wf_result (execute_vector_merge VD VA VB LO opcode s)"
  unfolding execute_vector_merge_def Let_def
  by (intro wf_Inr_increment wf_fold) (auto simp: vector_step_defs Let_def wf_intros)

lemma wf_execute_vector_pack: "wf_cpu s \<Longrightarrow> wf_result (execute_vector_pack VD VA VB opcode s)"
  unfolding execute_vector_pack_def Let_def
  by (intro wf_Inr_increment wf_fold) (auto simp: vector_step_defs Let_def wf_intros)

lemma wf_execute_vector_unpack: "wf_cpu s \<Longrightarrow> wf_result (execute_vector_unpack LO VD VA opcode s)"
  unfolding execute_vector_unpack_def Let_def by (intro wf_Inr_increment wf_fold wf_intros)

lemma wf_execute_vector_pack_pixel: "wf_cpu s \<Longrightarrow> wf_result (execute_vector_pack_pixel opcode s)"
  unfolding execute_vector_pack_pixel_def Let_def by (intro wf_Inr_increment wf_fold wf_intros)

lemma wf_execute_vector_unpack_pixel: "wf_cpu s \<Longrightarrow> wf_result (execute_vector_unpack_pixel LO opcode s)"
  unfolding execute_vector_unpack_pixel_def Let_def by (intro wf_Inr_increment wf_fold wf_intros)

lemma wf_shift_fold:
  assumes "wf_cpu s" "\<And>i p s. wf_cpu s \<Longrightarrow> wf_cpu (snd (f i (p, s)))"
  shows "wf_cpu (snd (fold f xs (p, s)))"
  using assms(1) by (induction xs arbitrary: p s) (simp, metis assms(2) fold_Cons comp_def surjective_pairing)

lemma wf_execute_vector_shift: "wf_cpu s \<Longrightarrow> wf_result (execute_vector_shift SD opcode s)"
proof -
  assume s: "wf_cpu s"
  have "wf_cpu (snd (fold (vector_shift_left_step a d sh) xs (0, s)))"
    "wf_cpu (snd (fold (vector_shift_right_step a d sh) xs (0, s)))"
    "wf_cpu (fold (\<lambda>i s. set_vr d (vr_set_w (vr s d) i (vr_w (vr s a) i)) s) ys s)" for a d sh xs ys
    using s by (auto intro!: wf_shift_fold wf_fold wf_intros simp: vector_shift_left_step_def vector_shift_right_step_def Let_def)
  with s show ?thesis unfolding execute_vector_shift_def Let_def
    by (intro wf_Inr_increment) (simp del: fold_simps fold_Cons)
qed

lemma wf_execute_vector_shift_octet: "wf_cpu s \<Longrightarrow> wf_result (execute_vector_shift_octet SD VD VA VB SH opcode s)"
  unfolding execute_vector_shift_octet_def Let_def
  by (intro wf_Inr_increment wf_fold) (auto simp: vector_step_defs Let_def wf_intros)

lemma wf_execute_vector_splat: "wf_cpu s \<Longrightarrow> wf_result (execute_vector_splat OP VD VB IM opcode s)"
  unfolding execute_vector_splat_def Let_def by (intro wf_Inr_increment wf_fold wf_intros)

lemma wf_execute_vector_sum: "wf_cpu s \<Longrightarrow> wf_result (execute_vector_sum SZ VD VA VB opcode s)"
  unfolding execute_vector_sum_def Let_def
  by (intro wf_Inr_increment) (auto simp: wf_intros split: prod.split intro!: wf_fold wf_intros)

lemma wf_execute_vector_permute: "wf_cpu s \<Longrightarrow> wf_result (execute_vector_permute opcode s)"
  unfolding execute_vector_permute_def Let_def
  by (intro wf_Inr_increment wf_fold) (auto simp: vector_step_defs Let_def wf_intros)

lemma wf_execute_mfvscr: "wf_cpu s \<Longrightarrow> wf_result (execute_mfvscr opcode s)"
  unfolding execute_mfvscr_def Let_def by (intro wf_Inr_increment wf_intros)

lemma wf_execute_mtvscr: "wf_cpu s \<Longrightarrow> wf_result (execute_mtvscr opcode s)"
  unfolding execute_mtvscr_def Let_def by (intro wf_Inr_increment) (simp add: wf_cpu_def)

section \<open>Elements of a register\<close>

lemma ev_mixed_inj:
  "i < 16 \<Longrightarrow> j < 16 \<Longrightarrow> ev_mixed_byte_element i = ev_mixed_byte_element j \<longleftrightarrow> i = j"
  "i < 8 \<Longrightarrow> j < 8 \<Longrightarrow> ev_mixed_half_element i = ev_mixed_half_element j \<longleftrightarrow> i = j"
  by (simp_all add: ev_mixed_byte_element_def ev_mixed_half_element_def nth_eq_iff_index_eq)

lemma ev_mixed_bound:
  "i < 16 \<Longrightarrow> ev_mixed_byte_element i < 16" "i < 8 \<Longrightarrow> ev_mixed_half_element i < 8"
proof -
  have "\<forall>x \<in> set [3, 2, 1, 0, 7, 6, 5, 4, 11, 10, 9, 8, 15, 14, 13, 12]. x < (16 :: nat)" by simp
  then show "i < 16 \<Longrightarrow> ev_mixed_byte_element i < 16"
    unfolding ev_mixed_byte_element_def by (auto simp only: list_all_iff[symmetric] list_all_length) simp
  have "\<forall>x \<in> set [1, 0, 3, 2, 5, 4, 7, 6]. x < (8 :: nat)" by simp
  then show "i < 8 \<Longrightarrow> ev_mixed_half_element i < 8"
    unfolding ev_mixed_half_element_def by (auto simp only: list_all_iff[symmetric] list_all_length) simp
qed

lemma shape_cases_size: "16 div shape_size sh = n \<Longrightarrow> (sh = V_b \<and> n = 16) \<or> (sh = V_h \<and> n = 8) \<or> (sh = V_w \<and> n = 4) \<or> (sh = V_j \<and> n = 2)"
  by (cases sh) auto

lemma ev_element_inj:
  "i < 16 div shape_size sh \<Longrightarrow> j < 16 div shape_size sh \<Longrightarrow> ev_element m sh i = ev_element m sh j \<longleftrightarrow> i = j"
  by (cases sh) (simp_all add: ev_mixed_inj)

lemma ev_element_bound: "i < 16 div shape_size sh \<Longrightarrow> ev_element m sh i < 16 div shape_size sh"
  by (cases sh) (simp_all add: ev_mixed_bound)

lemma join_halves: "ucast (ucast v :: u32) OR push_bit 32 (ucast (ucast (drop_bit 32 v) :: u32)) = (v :: u64)"
  by (rule bit_word_eqI) (auto simp: bit_or_iff bit_push_bit_iff bit_unsigned_iff bit_drop_bit_eq)

interpretation vr_j_bank: element_bank vr_j vr_set_j 2 "\<lambda>_. True"
proof unfold_locales
  fix i :: nat and v r assume i: "i < 2"
  then have "2 * i < 4" "2 * i + 1 < 4" "2 * i + 1 \<noteq> 2 * i" by auto
  then show "vr_j (vr_set_j r i v) i = v"
    by (simp only: vr_j_def vr_set_j_def vr_w_bank.get_set if_True if_False join_halves simp_thms)
next
  fix i j :: nat and v r assume i: "i < 2" "j < 2" "i \<noteq> j"
  then have "2 * i < 4" "2 * i + 1 < 4" "2 * j < 4" "2 * j + 1 < 4" 
    "2 * i + 1 \<noteq> 2 * j" "2 * i \<noteq> 2 * j + 1" "2 * i \<noteq> 2 * j" "2 * i + 1 \<noteq> 2 * j + 1" by auto
  then show "vr_j (vr_set_j r i v) j = vr_j r j"
    by (simp only: vr_j_def vr_set_j_def vr_w_bank.get_set if_False TrueI)
qed

lemma vr_get_put:
  assumes "i < 16 div shape_size sh" "j < 16 div shape_size sh"
  shows "vr_get sh (vr_put sh r i x) j = (if i = j then take_bit (8 * shape_size sh) x else vr_get sh r j)"
  using assms
  by (cases sh) (auto simp: vr_b_bank.get_set vr_h_bank.get_set vr_w_bank.get_set vr_j_bank.get_set uint_word_of_int_eq)

text \<open>The bank of elements of an operand's shape, in the order of its accessor.\<close>

definition elem :: "bool \<Rightarrow> vshape \<Rightarrow> powerpc_cpu \<Rightarrow> nat \<Rightarrow> nat \<Rightarrow> int" where
  "elem m sh s r i = vr_get sh (vr s r) (ev_element m sh i)"

lemma elem_voperand_set:
  assumes "vr_shape VD = sh" "vr_mixed VD = m" "i < 16 div shape_size sh" "j < 16 div shape_size sh"
  shows "elem m sh (voperand_set VD opcode i x s) r j =
    (if r = regno (vr_field VD) opcode \<and> i = j
     then take_bit (8 * shape_size sh) (c_conv (element_type VD) x) else elem m sh s r j)"
  using assms
  by (simp add: elem_def voperand_set_def Let_def set_vr_def vr_set_element_def vr_get_put ev_element_bound ev_element_inj)

lemma elem_set_vscr_sat [simp]: "elem m sh (set_vscr_sat b s) r j = elem m sh s r j"
  by (simp add: elem_def set_vscr_sat_def)

definition lane_operand :: "bool \<Rightarrow> vshape \<Rightarrow> voperand \<Rightarrow> bool" where
  "lane_operand m sh V = (case V of vr_operand v \<Rightarrow> vr_shape v = sh \<and> vr_mixed v = m | _ \<Rightarrow> True)"

lemma voperand_get_lane:
  "lane_operand m sh V \<Longrightarrow> (\<And>r. elem m sh t r i = elem m sh s r i) \<Longrightarrow>
    voperand_get V t opcode i = voperand_get V s opcode i"
  by (cases V) (simp_all add: lane_operand_def vr_get_element_def elem_def)

lemma vscr_set_sat_idem: "vscr_set_sat True (vscr_set_sat True v) = vscr_set_sat True v"
  by (rule bit_word_eqI) (auto simp: vscr_set_sat_def field_insert_def Let_def bit_and_iff bit_or_iff bit_not_iff)

text \<open>
  The element loop of \<^verbatim>\<open>execute_vector_arith\<close>: when the inputs have the shape of the
  output, each element is computed from the registers before the instruction, even when the
  output register is also an input.
\<close>

definition lane_value ::
  "'h fpu_host_scheme \<Rightarrow> vop \<Rightarrow> vr_operand \<Rightarrow> voperand \<Rightarrow> voperand \<Rightarrow> voperand \<Rightarrow> u32 \<Rightarrow> powerpc_cpu \<Rightarrow> nat \<Rightarrow> int" where
  "lane_value H OP VD VA VB VC opcode s i =
     vop_apply H (host_round s) (element_type VD) OP VA
       (voperand_get VA s opcode i) (voperand_get VB s opcode i) (voperand_get VC s opcode i)"

lemma vector_arith_lanes:
  assumes "vr_shape VD = sh" "vr_mixed VD = m" "lane_operand m sh VA" "lane_operand m sh VB" "lane_operand m sh VC"
    and "k \<le> 16 div shape_size sh"
    and "t = fold (vector_arith_step H OP VD VA VB VC opcode) [0..<k] s"
  shows "t = s\<lparr>vr := vr t, vscr := vscr t\<rparr> \<and>
    (\<forall>r j. j < 16 div shape_size sh \<longrightarrow> elem m sh t r j =
       (if r = regno (vr_field VD) opcode \<and> j < k
        then take_bit (8 * shape_size sh) (c_conv (element_type VD) (fst (saturate VD (lane_value H OP VD VA VB VC opcode s j))))
        else elem m sh s r j)) \<and>
    (\<forall>r. r \<noteq> regno (vr_field VD) opcode \<longrightarrow> vr t r = vr s r) \<and>
    vscr t = (if \<exists>j<k. snd (saturate VD (lane_value H OP VD VA VB VC opcode s j)) then vscr_set_sat True (vscr s) else vscr s)"
  using assms(6,7)
proof (induction k arbitrary: t)
  case 0 then show ?case by simp
next
  case (Suc k)
  define u where "u = fold (vector_arith_step H OP VD VA VB VC opcode) [0..<k] s"
  have k: "k < 16 div shape_size sh" using Suc.prems by simp
  have t: "t = vector_arith_step H OP VD VA VB VC opcode k u" using Suc.prems by (simp add: u_def)
  have IH: "u = s\<lparr>vr := vr u, vscr := vscr u\<rparr>"
    "\<And>r j. j < 16 div shape_size sh \<Longrightarrow> elem m sh u r j =
       (if r = regno (vr_field VD) opcode \<and> j < k
        then take_bit (8 * shape_size sh) (c_conv (element_type VD) (fst (saturate VD (lane_value H OP VD VA VB VC opcode s j))))
        else elem m sh s r j)"
    "\<And>r. r \<noteq> regno (vr_field VD) opcode \<Longrightarrow> vr u r = vr s r"
    "vscr u = (if \<exists>j<k. snd (saturate VD (lane_value H OP VD VA VB VC opcode s j)) then vscr_set_sat True (vscr s) else vscr s)"
    using Suc.IH[OF _ u_def] k by (blast intro: less_imp_le_nat)+
  have eq: "elem m sh u r k = elem m sh s r k" for r using IH(2) k by simp
  have hr: "host_round u = host_round s" by (subst IH(1)) simp
  have v: "lane_value H OP VD VA VB VC opcode u k = lane_value H OP VD VA VB VC opcode s k"
    unfolding lane_value_def hr
    by (simp add: voperand_get_lane[OF assms(3) eq] voperand_get_lane[OF assms(4) eq] voperand_get_lane[OF assms(5) eq])
  obtain d sat where d: "saturate VD (lane_value H OP VD VA VB VC opcode s k) = (d, sat)" by fastforce
  have t': "t = voperand_set VD opcode k d (set_vscr_sat sat u)"
    unfolding t vector_arith_step_def Let_def vector_commit_def lane_value_def[symmetric] v d by simp
  have "t = s\<lparr>vr := vr t, vscr := vscr t\<rparr>"
    unfolding t' by (subst (1) IH(1)) (simp add: voperand_set_def set_vr_def set_vscr_sat_def Let_def)
  moreover have "elem m sh t r j =
       (if r = regno (vr_field VD) opcode \<and> j < Suc k
        then take_bit (8 * shape_size sh) (c_conv (element_type VD) (fst (saturate VD (lane_value H OP VD VA VB VC opcode s j))))
        else elem m sh s r j)" if "j < 16 div shape_size sh" for r j
    unfolding t' elem_voperand_set[OF assms(1,2) k that] elem_set_vscr_sat IH(2)[OF that]
    using d by (auto simp: less_Suc_eq)
  moreover have "\<forall>r. r \<noteq> regno (vr_field VD) opcode \<longrightarrow> vr t r = vr s r"
    using IH(3) unfolding t' by (simp add: voperand_set_def set_vr_def set_vscr_sat_def Let_def)
  moreover have "vscr t = (if \<exists>j<Suc k. snd (saturate VD (lane_value H OP VD VA VB VC opcode s j)) then vscr_set_sat True (vscr s) else vscr s)"
    using d IH(4) unfolding t'
    by (auto simp: voperand_set_def set_vr_def set_vscr_sat_def Let_def less_Suc_eq vscr_set_sat_idem)
  ultimately show ?case by blast
qed

section \<open>Saturating arithmetic\<close>

definition clamp :: "ctype \<Rightarrow> int \<Rightarrow> int" where
  "clamp T v = max (vector_numeric_limits_min T) (min (vector_numeric_limits_max T) v)"

text \<open>The shapes, element types and wide types of the saturating operands.\<close>

definition sat_shapes :: "(vshape \<times> ctype \<times> ctype) set" where
  "sat_shapes = {(V_b, Int8, Int16), (V_b, UInt8, Int16), (V_h, Int16, Int32), (V_h, UInt16, Int32),
     (V_w, Int32, Int64), (V_w, UInt32, Int64)}"

lemmas limit_defs = vector_numeric_limits_min_def vector_numeric_limits_max_def c_signed_def

lemma c_conv_range:
  "vector_numeric_limits_min T \<le> c_conv T v \<and> c_conv T v \<le> vector_numeric_limits_max T"
proof -
  have "0 < c_width T" by (cases T) simp_all
  then show ?thesis
    using signed_take_bit_int_less_exp[of "c_width T - 1" v] signed_take_bit_int_greater_eq_minus_exp[of "c_width T - 1" v]
      take_bit_int_less_exp[of "c_width T" v]
    by (simp add: c_conv_def vector_numeric_limits_min_def vector_numeric_limits_max_def)
qed

lemma c_conv_self:
  assumes "vector_numeric_limits_min T \<le> v" "v \<le> vector_numeric_limits_max T"
  shows "c_conv T v = v"
  using assms
  by (cases "c_signed T")
    (auto simp: c_conv_def vector_numeric_limits_min_def vector_numeric_limits_max_def
      intro!: signed_take_bit_int_eq_self take_bit_int_eq_self)

lemma c_conv_narrow:
  assumes "c_width T \<le> n"
  shows "c_conv T (take_bit n v) = c_conv T v"
proof -
  have "0 < c_width T" by (cases T) simp_all
  with assms have "\<not> n \<le> c_width T - 1" by simp
  with assms show ?thesis
    by (simp add: c_conv_def signed_take_bit_take_bit)
qed

lemma clamp_range: "vector_numeric_limits_min T \<le> clamp T v" "clamp T v \<le> vector_numeric_limits_max T"
proof -
  have "vector_numeric_limits_min T \<le> vector_numeric_limits_max T" by (cases T) (simp_all add: limit_defs)
  then show "vector_numeric_limits_min T \<le> clamp T v" "clamp T v \<le> vector_numeric_limits_max T"
    by (auto simp: clamp_def)
qed

lemma sat_shape_limits:
  assumes "(sh, T, ST) \<in> sat_shapes"
  shows "c_width T = 8 * shape_size sh"
    "vector_numeric_limits_min ST \<le> 2 * vector_numeric_limits_min T - vector_numeric_limits_max T"
    "2 * vector_numeric_limits_max T - vector_numeric_limits_min T \<le> vector_numeric_limits_max ST"
    "vector_numeric_limits_min T \<le> 0" "0 \<le> vector_numeric_limits_max T"
    "sh \<noteq> V_w \<longrightarrow> c_width ST \<le> 32" "c_width ST \<le> 64"
  using assms by (auto simp: sat_shapes_def limit_defs)

lemma saturate_clamp:
  assumes "(sh, T, ST) \<in> sat_shapes"
  shows "saturate (vector_saturate_operand f sh T ST m) v = (clamp T v, clamp T v \<noteq> v)"
  using sat_shape_limits[OF assms] c_conv_self[of ST "vector_numeric_limits_max T"] c_conv_self[of ST "vector_numeric_limits_min T"]
  by (auto simp: clamp_def)

lemma sat_lane_sum:
  assumes "(sh, T, ST) \<in> sat_shapes"
    and "OP = (if sh = V_w then if sub then op_sub_64 else op_add_64 else if sub then vop_sub else vop_add)"
  shows "vop_apply H r ST (VOP2 OP) VA (c_conv ST (c_conv T a)) (c_conv ST (c_conv T b)) c =
    (if sub then c_conv T a - c_conv T b else c_conv T a + c_conv T b)" (is "_ = ?z")
proof -
  note lim = sat_shape_limits[OF assms(1)]
  have ab: "c_conv ST (c_conv T a) = c_conv T a" "c_conv ST (c_conv T b) = c_conv T b"
    using c_conv_range[of T a] c_conv_range[of T b] lim by (auto intro!: c_conv_self)
  have z: "c_conv ST ?z = ?z"
    using c_conv_range[of T a] c_conv_range[of T b] lim by (auto intro!: c_conv_self)
  have w: "c_conv ST (take_bit n (take_bit n x + take_bit n y)) = c_conv ST (x + y)"
    "c_conv ST (take_bit n (take_bit n x - take_bit n y)) = c_conv ST (x - y)" if "c_width ST \<le> n" for n x y
    unfolding take_bit_add take_bit_diff using c_conv_narrow[OF that] by simp_all
  show ?thesis
    unfolding ab using z w[of 32] w[of 64] lim(6,7) assms(2)
    by (auto simp: c_conv_def[of UInt32] c_conv_def[of UInt64] c_signed_def split: if_splits)
qed

text \<open>
  C24: The saturating vector additions and subtractions, for signed and unsigned bytes,
  halfwords and words: each element is the exact sum or difference clamped to the range of
  its type, and SAT becomes set when an element was clamped and stays as it was otherwise.
  The output may be one of the inputs.
\<close>

theorem vector_saturating_arith:
  assumes "(sh, T, ST) \<in> sat_shapes"
    and "OP = (if sh = V_w then if sub then op_sub_64 else op_add_64 else if sub then vop_sub else vop_add)"
    and "\<And>i. z i = (let x = c_conv T (elem False sh s (regno vA_field opcode) i);
                        y = c_conv T (elem False sh s (regno vB_field opcode) i)
                    in if sub then x - y else x + y)"
  shows "\<exists>t. execute_vector_arith H (VOP2 OP) (vector_saturate_operand vD_field sh T ST False)
      (vr_operand (vector_saturate_operand vA_field sh T ST False))
      (vr_operand (vector_saturate_operand vB_field sh T ST False)) null_vector_operand (Fake_field False) False opcode s = Inr t \<and>
    (\<forall>i < 16 div shape_size sh. c_conv T (elem False sh t (regno vD_field opcode) i) = clamp T (z i)) \<and>
    vscr t = (if \<exists>i < 16 div shape_size sh. clamp T (z i) \<noteq> z i then vscr_set_sat True (vscr s) else vscr s) \<and>
    (\<forall>r. r \<noteq> regno vD_field opcode \<longrightarrow> vr t r = vr s r) \<and> cr t = cr s \<and> pc t = pc s + 4"
proof -
  note lim = sat_shape_limits[OF assms(1)]
  let ?VX = "\<lambda>f. vector_saturate_operand f sh T ST False"
  let ?lane = "lane_value H (VOP2 OP) (?VX vD_field) (vr_operand (?VX vA_field)) (vr_operand (?VX vB_field)) null_vector_operand opcode s"
  define t where "t = fold (vector_arith_step H (VOP2 OP) (?VX vD_field) (vr_operand (?VX vA_field)) (vr_operand (?VX vB_field)) null_vector_operand opcode)
    [0..<16 div shape_size sh] s"
  have lv: "?lane i = z i" for i
    unfolding assms(3) Let_def
    by (simp add: lane_value_def vr_get_element_def elem_def sat_lane_sum[OF assms(1,2)] del: vop_apply.simps)
  have lane: "lane_operand False sh (vr_operand (?VX f))" "lane_operand False sh null_vector_operand" for f
    by (simp_all add: lane_operand_def)
  note L = vector_arith_lanes[OF vr_shape.simps(2) vr_mixed.simps(2) lane(1) lane(1) lane(2) order.refl t_def,
    unfolded vr_field.simps element_type.simps lv saturate_clamp[OF assms(1)] fst_conv snd_conv]
  have c: "c_conv T (take_bit (8 * shape_size sh) (c_conv ST (clamp T v))) = clamp T v" for v
  proof -
    have "c_conv ST (clamp T v) = clamp T v" using clamp_range[of T v] lim by (intro c_conv_self) linarith+
    then show ?thesis using clamp_range[of T v] lim(1) by (simp add: c_conv_narrow c_conv_self)
  qed
  have f: "cr t = cr s" "pc t = pc s" by (subst conjunct1[OF L], simp)+
  show ?thesis
    unfolding execute_vector_arith_def Let_def element_size_def vr_shape.simps t_def[symmetric]
    using conjunct2[OF L] f by (simp add: upd_if_def c elem_def)
qed

theorem vector_saturating_arith_witness:
  "\<exists>t. execute_vector_arith example_fpu_host (VOP2 vop_add) (vector_saturate_operand vD_field V_b UInt8 Int16 False)
      (vr_operand (vector_saturate_operand vA_field V_b UInt8 Int16 False))
      (vr_operand (vector_saturate_operand vB_field V_b UInt8 Int16 False)) null_vector_operand (Fake_field False) False 0x10221a00
      (zero_cpu\<lparr>vr := (\<lambda>_ _. 0)(2 := (\<lambda>_. 200), 3 := (\<lambda>_. 100))\<rparr>) = Inr t \<and>
     c_conv UInt8 (elem False V_b t 1 15) = 255 \<and> vscr t = 1"
proof -
  let ?s = "zero_cpu\<lparr>vr := (\<lambda>_ _. 0)(2 := (\<lambda>_. 200), 3 := (\<lambda>_. 100))\<rparr>"
  have r: "regno vA_field 0x10221a00 = 2" "regno vB_field 0x10221a00 = 3" "regno vD_field 0x10221a00 = 1"
    by (simp_all add: eval_simps)
  have z: "300 = (let x = c_conv UInt8 (elem False V_b ?s (regno vA_field 0x10221a00) i); y = c_conv UInt8 (elem False V_b ?s (regno vB_field 0x10221a00) i)
      in if False then x - y else x + y)" for i
    by (simp add: r elem_def c_conv_def c_signed_def)
  have "\<exists>i. i < (16 :: nat)" by (rule exI[of _ 0]) simp
  moreover have "vscr_set_sat True 0 = 1" by (simp add: vscr_set_sat_def field_insert_def eval_simps of_flag_def)
  ultimately show ?thesis
    using vector_saturating_arith[of V_b UInt8 Int16 vop_add False "\<lambda>_. 300" ?s "0x10221a00" example_fpu_host, OF _ _ z]
    by (auto simp: sat_shapes_def r clamp_def limit_defs)
qed

section \<open>Permutation and unaligned loads\<close>

text \<open>Byte \<open>i\<close> of a register in the PowerPC numbering, most significant first.\<close>

definition vbyte :: "powerpc_cpu \<Rightarrow> nat \<Rightarrow> nat \<Rightarrow> u8" where
  "vbyte s r i = vr s r (ev_mixed_byte_element i)"

lemma vbyte_set_b:
  assumes "i < 16" "j < 16"
  shows "vbyte (set_vr n (vr_set_b (vr s n) (ev_mixed_byte_element i) x) s) r j =
    (if r = n \<and> j = i then x else vbyte s r j)"
  using assms by (auto simp: vbyte_def set_vr_def vr_set_b_def ev_mixed_inj)

text \<open>A loop that fills the bytes of a register, each from a state where the earlier ones are filled.\<close>

lemma fill_bytes:
  assumes "\<And>i u. i < k \<Longrightarrow> u = s\<lparr>vr := vr u\<rparr> \<Longrightarrow> (\<forall>r. r \<noteq> d \<longrightarrow> vr u r = vr s r) \<Longrightarrow>
      f i u = set_vr d (vr_set_b (vr u d) (ev_mixed_byte_element i) (g i)) u"
    and "k \<le> 16" "t = fold f [0..<k] s"
  shows "t = s\<lparr>vr := vr t\<rparr> \<and> (\<forall>r. r \<noteq> d \<longrightarrow> vr t r = vr s r) \<and> (\<forall>j < 16. vbyte t d j = (if j < k then g j else vbyte s d j))"
  using assms
proof (induction k arbitrary: t)
  case 0 then show ?case by simp
next
  case (Suc k)
  define u where "u = fold f [0..<k] s"
  have IH: "u = s\<lparr>vr := vr u\<rparr>" "\<forall>r. r \<noteq> d \<longrightarrow> vr u r = vr s r" "\<forall>j < 16. vbyte u d j = (if j < k then g j else vbyte s d j)"
    using Suc.IH[OF _ _ u_def] Suc.prems(1,2) by auto
  have t: "t = set_vr d (vr_set_b (vr u d) (ev_mixed_byte_element k) (g k)) u"
    using Suc.prems(1)[of k u] Suc.prems(3) IH by (simp add: u_def)
  have "t = s\<lparr>vr := vr t\<rparr>" unfolding t by (subst (1) IH(1)) (simp add: set_vr_def)
  moreover have "\<forall>r. r \<noteq> d \<longrightarrow> vr t r = vr s r" using IH(2) by (simp add: t set_vr_def)
  moreover have "\<forall>j < 16. vbyte t d j = (if j < Suc k then g j else vbyte s d j)"
    using IH(3) Suc.prems(2) unfolding t by (auto simp: vbyte_set_b less_Suc_eq)
  ultimately show ?case by blast
qed

definition permute_byte :: "powerpc_cpu \<Rightarrow> nat \<Rightarrow> nat \<Rightarrow> nat \<Rightarrow> u8" where
  "permute_byte s vA vB n = (if n < 16 then vbyte s vA n else vbyte s vB (n - 16))"

lemma bit_iff_odd_unat: "bit (w :: 'a::len word) n \<longleftrightarrow> odd (unat w div 2 ^ n)"
proof -
  have "bit w n \<longleftrightarrow> bit (unat w) n" by (simp add: bit_unsigned_iff)
  also have "\<dots> \<longleftrightarrow> odd (unat w div 2 ^ n)" by (rule bit_iff_odd)
  finally show ?thesis .
qed

lemma permute_index:
  fixes x :: u8
  shows "(x AND 0x1f) AND 0x10 \<noteq> 0 \<longleftrightarrow> 16 \<le> unat (x AND 0x1f)"
    "unat ((x AND 0x1f) AND 0xf) = unat (x AND 0x1f) mod 16" "unat (x AND 0x1f) < 32"
proof -
  have m: "x AND 0x1f = take_bit 5 x" "(0xf :: u8) = mask 4"
    by (simp_all add: take_bit_eq_mask mask_eq_exp_minus_1)
  have u: "unat (x AND 0x1f) = unat x mod 32" unfolding m(1) unsigned_take_bit_eq by (simp add: take_bit_eq_mod)
  show b: "unat (x AND 0x1f) < 32" unfolding u by simp
  show "unat ((x AND 0x1f) AND 0xf) = unat (x AND 0x1f) mod 16"
    unfolding m(2) take_bit_eq_mask[symmetric] unsigned_take_bit_eq by (simp add: take_bit_eq_mod)
  have "(x AND 0x1f) AND 0x10 \<noteq> 0 \<longleftrightarrow> bit (x AND 0x1f) 4"
    by (simp add: bit_iff_and_push_bit_not_eq_0 push_bit_eq_mult and.assoc)
  also have "\<dots> \<longleftrightarrow> odd (unat (x AND 0x1f) div 16)"
    using bit_iff_odd_unat[of "x AND 0x1f" 4] by simp
  also have "\<dots> \<longleftrightarrow> 16 \<le> unat (x AND 0x1f)" using b by presburger
  finally show "(x AND 0x1f) AND 0x10 \<noteq> 0 \<longleftrightarrow> 16 \<le> unat (x AND 0x1f)" .
qed

lemma execute_vector_permute_bytes:
  assumes "vA = regno vA_field opcode" "vB = regno vB_field opcode" "vC = regno vC_field opcode" "vD = regno vD_field opcode"
    and "vD \<noteq> vA" "vD \<noteq> vB" "vD \<noteq> vC"
  shows "\<exists>t. execute_vector_permute opcode s = Inr t \<and>
    (\<forall>i < 16. vbyte t vD i = permute_byte s vA vB (unat (vbyte s vC i AND 0x1f))) \<and>
    (\<forall>r. r \<noteq> vD \<longrightarrow> vr t r = vr s r) \<and> pc t = pc s + 4 \<and> mem t = mem s \<and> gpr t = gpr s"
proof -
  define t where "t = fold (vector_permute_step vA vB vC vD) [0..<16] s"
  have "t = s\<lparr>vr := vr t\<rparr> \<and> (\<forall>r. r \<noteq> vD \<longrightarrow> vr t r = vr s r) \<and>
    (\<forall>j < 16. vbyte t vD j = (if j < 16 then permute_byte s vA vB (unat (vbyte s vC j AND 0x1f)) else vbyte s vD j))"
  proof (rule fill_bytes[OF _ order.refl t_def])
    fix i :: nat and u assume i: "i < 16" and u: "u = s\<lparr>vr := vr u\<rparr>" "\<forall>r. r \<noteq> vD \<longrightarrow> vr u r = vr s r"
    have n: "vr u vC (ev_mixed_byte_element i) = vbyte s vC i" using u assms by (simp add: vbyte_def)
    have r: "vr u vA = vr s vA" "vr u vB = vr s vB" using u assms by auto
    let ?n = "unat (vbyte s vC i AND 0x1f)"
    have "(if (vbyte s vC i AND 0x1f) AND 0x10 \<noteq> 0 then vr s vB (ev_mixed_byte_element (?n mod 16))
      else vr s vA (ev_mixed_byte_element (?n mod 16))) = permute_byte s vA vB ?n"
      using permute_index(3)[of "vbyte s vC i"] unfolding permute_index(1)
      by (simp add: permute_byte_def vbyte_def mod_if)
    then show "vector_permute_step vA vB vC vD i u =
        set_vr vD (vr_set_b (vr u vD) (ev_mixed_byte_element i) (permute_byte s vA vB (unat (vbyte s vC i AND 0x1f)))) u"
      by (simp only: vector_permute_step_def Let_def n r permute_index(2))
  qed
  then have L: "t = s\<lparr>vr := vr t\<rparr>" "\<forall>r. r \<noteq> vD \<longrightarrow> vr t r = vr s r"
    "\<forall>j < 16. vbyte t vD j = permute_byte s vA vB (unat (vbyte s vC j AND 0x1f))" by simp_all
  have "pc t = pc s" "mem t = mem s" "gpr t = gpr s" by (subst L(1), simp)+
  then show ?thesis
    unfolding execute_vector_permute_def Let_def assms(1-4)[symmetric] t_def[symmetric]
    using L(2,3) by (simp add: vbyte_def)
qed

lemma quad_start: "(x :: u32) AND - 16 = of_nat (16 * (unat x div 16))"
proof -
  have "(15 :: u32) = mask 4" by (simp add: mask_eq_exp_minus_1)
  then have "(- 16 :: u32) = NOT (mask 4)" by simp
  then have "x AND - 16 = push_bit 4 (drop_bit 4 x)"
    by (simp only:) (rule bit_word_eqI, auto simp only: bit_rules bit_not_iff, auto)
  also have "\<dots> = of_nat (16 * unat (drop_bit 4 x))" by (simp add: push_bit_eq_mult)
  also have "unat (drop_bit 4 x) = unat x div 16" unfolding unsigned_drop_bit_eq using unsigned_less[of x, where 'a = nat] by (simp add: drop_bit_eq_div take_bit_nat_eq_self)
  finally show ?thesis .
qed

lemma quad_offset: "unat ((x :: u32) AND 15) = unat x mod 16"
proof -
  have "(x :: u32) AND 15 = take_bit 4 x" by (simp add: take_bit_eq_mask mask_eq_exp_minus_1)
  then show ?thesis unfolding \<open>x AND 15 = take_bit 4 x\<close> unsigned_take_bit_eq by (simp add: take_bit_eq_mod)
qed

lemma quad_end: "((x :: u32) + 15) AND - 16 = of_nat (16 * ((unat x + 15) div 16))"
proof -
  have x: "unat x < 2 ^ 32" using unsigned_less[of x] by simp
  have u: "unat (x + 15) = (unat x + 15) mod 2 ^ 32" by (simp add: unat_word_ariths)
  show ?thesis
  proof (cases "unat x + 15 < 2 ^ 32")
    case True then show ?thesis unfolding quad_start u by simp
  next
    case False
    then obtain e where e: "unat x + 15 = 2 ^ 28 * 16 + e" using le_Suc_ex[of "2 ^ 28 * 16" "unat x + 15"] by auto
    then have "e < 16" using x by simp
    then have "(2 ^ 28 * 16 + e) mod 2 ^ 32 = e" "(2 ^ 28 * 16 + e) div 16 = (2 ^ 28 :: nat)" by (simp_all add: mod_if)
    then show ?thesis unfolding quad_start u e using \<open>e < 16\<close> by simp
  qed
qed

lemma quad_byte_address:
  assumes "i < 16"
  shows "(ucast ((x AND - 16) + of_nat (4 * (i div 4)) :: u32) :: u64) + of_nat (i mod 4) = ucast ((x AND - 16) + of_nat i)"
proof -
  have b: "uint (x AND - 16) + 15 < 2 ^ 32"
  proof -
    have "unat x div 16 < 2 ^ 28" using unsigned_less[of x, where 'a = nat] by (simp add: less_mult_imp_div_less)
    then have "unat (x AND - 16) = 16 * (unat x div 16)" unfolding quad_start unat_of_nat by simp
    with \<open>unat x div 16 < 2 ^ 28\<close> show ?thesis by (simp add: uint_nat)
  qed
  have "(ucast ((x AND - 16) + of_nat (4 * (i div 4))) :: u64) + of_nat (i mod 4) = ucast (x AND - 16) + of_nat i"
    using b assms by (intro addr_split) simp_all
  also have "\<dots> = ucast ((x AND - 16) + of_nat i)"
    using addr_split[of "x AND - 16" i i 0] b assms by simp
  finally show ?thesis .
qed

abbreviation operand_vD_V2DI :: vr_operand where "operand_vD_V2DI \<equiv> vector_operand vD_field V_j UInt64 False"

lemma all_less_16:
  "(\<forall>i<16. P i) \<longleftrightarrow> P 0 \<and> P 1 \<and> P 2 \<and> P 3 \<and> P 4 \<and> P 5 \<and> P 6 \<and> P 7 \<and> P 8 \<and> P 9 \<and> P 10 \<and> P 11 \<and>
    P 12 \<and> P 13 \<and> P 14 \<and> P (15 :: nat)"
  by (simp add: numeral_eq_Suc All_less_Suc2)

lemma vr_set_w_bytes:
  "i < 16 \<Longrightarrow> vr_set_w (vr_set_w (vr_set_w (vr_set_w v 0 a) 1 b) 2 c) 3 d (ev_mixed_byte_element i) =
     ucast (drop_bit (24 - 8 * (i mod 4)) ([a, b, c, d] ! (i div 4)))"
proof -
  have "\<forall>i < 16. vr_set_w (vr_set_w (vr_set_w (vr_set_w v 0 a) 1 b) 2 c) 3 d (ev_mixed_byte_element i) =
     ucast (drop_bit (24 - 8 * (i mod 4)) ([a, b, c, d] ! (i div 4)))"
    by (simp add: all_less_16 ev_mixed_byte_element_def vr_set_w_def)
  then show "i < 16 \<Longrightarrow> ?thesis" by blast
qed

lemma execute_lvx_bytes:
  assumes "ea = operand_get RA s opcode + operand_get RB s opcode" "vD = regno vD_field opcode"
  shows "\<exists>t. execute_vector_load operand_vD_V2DI RA RB opcode s = Inr t \<and>
    (\<forall>i < 16. vbyte t vD i = mem s (ucast ((ea AND - 16) + of_nat i))) \<and>
    (\<forall>r. r \<noteq> vD \<longrightarrow> vr t r = vr s r) \<and> pc t = pc s + 4 \<and> mem t = mem s \<and> gpr t = gpr s"
proof -
  let ?rd = "\<lambda>k. vm_read_memory_4 (mem s) ((ea AND - 16) + of_nat (4 * k))"
  have b: "(ucast (drop_bit (24 - 8 * (i mod 4)) ([?rd 0, ?rd 1, ?rd 2, ?rd 3] ! (i div 4))) :: u8) =
      mem s (ucast ((ea AND - 16) + of_nat i))" if "i < 16" for i
  proof -
    have "i div 4 < 4" using that by simp
    then have "i div 4 = 0 \<or> i div 4 = 1 \<or> i div 4 = 2 \<or> i div 4 = 3" by arith
    then have "[?rd 0, ?rd 1, ?rd 2, ?rd 3] ! (i div 4) = ?rd (i div 4)" by auto
    then show ?thesis using read_4_byte[of "i mod 4"] quad_byte_address[OF that, of ea] by simp
  qed
  have f: "regno vD_field opcode = vD" using assms(2) by simp
  show ?thesis
    unfolding execute_vector_load_def Let_def assms(1)[symmetric] element_size_def
    using b vr_set_w_bytes[of _ "vr s vD" "?rd 0" "?rd 1" "?rd 2" "?rd 3"]
    by (simp add: set_vr_def vbyte_def f)
qed

lemma execute_lvsl_bytes:
  assumes "ea = operand_get operand_RA_or_0 s opcode + operand_get operand_RB s opcode" "vD = regno vD_field opcode"
  shows "\<exists>t. execute_vector_load_for_shift True opcode s = Inr t \<and>
    (\<forall>i < 16. unat (vbyte t vD i) = unat ea mod 16 + i) \<and>
    (\<forall>r. r \<noteq> vD \<longrightarrow> vr t r = vr s r) \<and> pc t = pc s + 4 \<and> mem t = mem s \<and> gpr t = gpr s"
proof -
  define f where "f = (\<lambda>i u. set_vr vD (vr_set_b (vr u vD) (ev_mixed_byte_element i) (ucast ((ea AND 15) + of_nat i :: u32))) u)"
  define t where "t = fold f [0..<16] s"
  have L: "t = s\<lparr>vr := vr t\<rparr> \<and> (\<forall>r. r \<noteq> vD \<longrightarrow> vr t r = vr s r) \<and>
    (\<forall>j < 16. vbyte t vD j = (if j < 16 then ucast ((ea AND 15) + of_nat j :: u32) else vbyte s vD j))"
    by (rule fill_bytes[OF _ order.refl t_def]) (simp add: f_def)
  have "unat (ucast ((ea AND 15) + of_nat i :: u32) :: u8) = unat ea mod 16 + i" if "i < 16" for i
  proof -
    have "unat ea mod 16 < 16" by simp
    then have "unat ((ea AND 15) + of_nat i :: u32) = unat ea mod 16 + i"
      using that by (simp add: unat_word_ariths quad_offset unat_of_nat)
    then show ?thesis using that \<open>unat ea mod 16 < 16\<close> by (simp add: unsigned_ucast_eq take_bit_nat_eq_self)
  qed
  then have "\<forall>i < 16. unat (vbyte t vD i) = unat ea mod 16 + i" using L by simp
  moreover have "pc t = pc s" "mem t = mem s" "gpr t = gpr s" by (subst conjunct1[OF L], simp)+
  ultimately show ?thesis
    unfolding execute_vector_load_for_shift_def Let_def assms[symmetric] if_True f_def[symmetric] t_def[symmetric]
    using L by (simp add: vbyte_def)
qed

lemma quad_sum:
  fixes ea :: u32
  shows "(ea AND - 16) + of_nat (unat ea mod 16 + i) = ea + of_nat i"
    "16 \<le> unat ea mod 16 + i \<Longrightarrow> i < 16 \<Longrightarrow> ((ea + 15) AND - 16) + of_nat (unat ea mod 16 + i - 16) = ea + of_nat i"
proof -
  have e: "of_nat (16 * (unat ea div 16) + unat ea mod 16) = ea" by simp
  have "(ea AND - 16) + of_nat (unat ea mod 16 + i) = of_nat (16 * (unat ea div 16) + unat ea mod 16) + of_nat i"
    unfolding quad_start of_nat_add add.assoc ..
  then show "(ea AND - 16) + of_nat (unat ea mod 16 + i) = ea + of_nat i" unfolding e .
  assume i: "16 \<le> unat ea mod 16 + i" "i < 16"
  then have "unat ea mod 16 \<ge> 1" by simp
  have "(16 * q + r + 15) div 16 = q + 1" if "1 \<le> r" "r < 16" for q r :: nat
    using that by (intro div_nat_eqI) simp_all
  from this[of "unat ea mod 16" "unat ea div 16"] \<open>unat ea mod 16 \<ge> 1\<close>
  have q: "(unat ea + 15) div 16 = unat ea div 16 + 1" by simp
  have "((ea + 15) AND - 16) + of_nat (unat ea mod 16 + i - 16) =
      (of_nat (16 * (unat ea div 16 + 1) + (unat ea mod 16 + i - 16)) :: u32)"
    unfolding quad_end q of_nat_add ..
  also have "16 * (unat ea div 16 + 1) + (unat ea mod 16 + i - 16) = 16 * (unat ea div 16) + unat ea mod 16 + i"
    using i by simp
  finally show "((ea + 15) AND - 16) + of_nat (unat ea mod 16 + i - 16) = ea + of_nat i"
    unfolding of_nat_add[of _ i] e .
qed

lemma unat_and_31: "unat ((x :: u8) AND 0x1f) = unat x mod 32"
proof -
  have "x AND 0x1f = take_bit 5 x" by (simp add: take_bit_eq_mask mask_eq_exp_minus_1)
  then show ?thesis unfolding \<open>x AND 0x1f = take_bit 5 x\<close> unsigned_take_bit_eq by (simp add: take_bit_eq_mod)
qed

text \<open>
  The sequence \<^verbatim>\<open>lvx\<close>, \<^verbatim>\<open>lvx\<close> at 15 bytes further, \<^verbatim>\<open>lvsl\<close>, \<^verbatim>\<open>vperm\<close> loads the sixteen
  bytes at any address into a register, wrapping around at the end of the address space.
\<close>

theorem unaligned_vector_load:
  assumes "operand_get operand_RA_or_0 s i1 + operand_get operand_RB s i1 = ea"
    and "operand_get operand_RA_or_0 s i2 + operand_get operand_RB s i2 = ea + 15"
    and "operand_get operand_RA_or_0 s i3 + operand_get operand_RB s i3 = ea"
    and "regno vA_field i4 = regno vD_field i1" "regno vB_field i4 = regno vD_field i2" "regno vC_field i4 = regno vD_field i3"
    and "distinct [regno vD_field i1, regno vD_field i2, regno vD_field i3, regno vD_field i4]"
  shows "\<exists>t. and_then (and_then (and_then (execute_vector_load operand_vD_V2DI operand_RA_or_0 operand_RB i1 s)
        (execute_vector_load operand_vD_V2DI operand_RA_or_0 operand_RB i2))
        (execute_vector_load_for_shift True i3)) (execute_vector_permute i4) = Inr t \<and>
    (\<forall>i < 16. vbyte t (regno vD_field i4) i = mem s (ucast (ea + of_nat i))) \<and> mem t = mem s \<and> gpr t = gpr s \<and> pc t = pc s + 16"
proof -
  have get: "operand_get operand_RA_or_0 u opcode = operand_get operand_RA_or_0 v opcode"
    "operand_get operand_RB u opcode = operand_get operand_RB v opcode" if "gpr u = gpr v" for u v opcode
    using that by simp_all
  let ?d1 = "regno vD_field i1" and ?d2 = "regno vD_field i2" and ?d3 = "regno vD_field i3" and ?d4 = "regno vD_field i4"
  obtain a where a: "execute_vector_load operand_vD_V2DI operand_RA_or_0 operand_RB i1 s = Inr a"
    "\<forall>i < 16. vbyte a ?d1 i = mem s (ucast ((ea AND - 16) + of_nat i))" "gpr a = gpr s" "mem a = mem s" "pc a = pc s + 4"
    using execute_lvx_bytes[OF assms(1)[symmetric] refl] by auto
  obtain b where b: "execute_vector_load operand_vD_V2DI operand_RA_or_0 operand_RB i2 a = Inr b"
    "\<forall>i < 16. vbyte b ?d2 i = mem s (ucast (((ea + 15) AND - 16) + of_nat i))" "gpr b = gpr s" "mem b = mem s" "pc b = pc s + 8"
    "\<forall>r. r \<noteq> ?d2 \<longrightarrow> vr b r = vr a r"
    using execute_lvx_bytes[of "ea + 15" operand_RA_or_0 a i2 operand_RB, OF _ refl] assms(2) a get[OF a(3)] by auto
  obtain c where c: "execute_vector_load_for_shift True i3 b = Inr c"
    "\<forall>i < 16. unat (vbyte c ?d3 i) = unat ea mod 16 + i" "gpr c = gpr s" "mem c = mem s" "pc c = pc s + 12"
    "\<forall>r. r \<noteq> ?d3 \<longrightarrow> vr c r = vr b r"
    using execute_lvsl_bytes[of ea b i3, OF _ refl] assms(3) b get[OF b(3)] by auto
  obtain t where t: "execute_vector_permute i4 c = Inr t"
    "\<forall>i < 16. vbyte t ?d4 i = permute_byte c ?d1 ?d2 (unat (vbyte c ?d3 i AND 0x1f))" "gpr t = gpr s" "mem t = mem s" "pc t = pc s + 16"
    using execute_vector_permute_bytes[OF assms(4-6)[symmetric] refl, of c] assms(7) c by auto
  have d1: "vbyte c ?d1 i = vbyte a ?d1 i" and d2: "vbyte c ?d2 i = vbyte b ?d2 i" for i
    using b(6) c(6) assms(7) by (simp_all add: vbyte_def)
  have "vbyte t ?d4 i = mem s (ucast (ea + of_nat i))" if i: "i < 16" for i
  proof -
    let ?n = "unat ea mod 16 + i"
    have n: "unat (vbyte c ?d3 i AND 0x1f) = ?n" using c(2) i by (simp add: unat_and_31)
    show ?thesis
    proof (cases "?n < 16")
      case True
      then show ?thesis using t(2) i n a(2) using quad_sum(1)[of ea i]
        by (simp add: permute_byte_def d1 del: of_nat_add)
    next
      case False
      then have "((ea + 15) AND - 16) + of_nat (?n - 16) = ea + of_nat i" using i by (intro quad_sum(2)) simp_all
      moreover have "?n - 16 < 16" using i mod_less_divisor[of 16 "unat ea", OF zero_less_numeral] by linarith
      then have "vbyte b ?d2 (?n - 16) = mem s (ucast (((ea + 15) AND - 16) + of_nat (?n - 16)))" using b(2) by blast
      moreover have "vbyte t ?d4 i = vbyte b ?d2 (?n - 16)" using False t(2) i n by (simp add: permute_byte_def d2)
      ultimately show ?thesis by (simp only:)
    qed
  qed
  then show ?thesis using a(1) b(1) c(1) t by simp
qed

abbreviation operand_vS_V2DI :: vr_operand where "operand_vS_V2DI \<equiv> vector_operand vS_field V_j UInt64 False"

theorem unaligned_vector_load_witness:
  "\<exists>t. and_then (and_then (and_then (execute_vector_load operand_vD_V2DI operand_RA_or_0 operand_RB 0x7c2028ce (zero_cpu\<lparr>gpr := (\<lambda>_. 0)(5 := 0x1003, 6 := 15), mem := (\<lambda>a. ucast a)\<rparr>))
        (execute_vector_load operand_vD_V2DI operand_RA_or_0 operand_RB 0x7c4628ce))
        (execute_vector_load_for_shift True 0x7c60280c)) (execute_vector_permute 0x108110eb) = Inr t \<and>
    vbyte t 4 0 = 3 \<and> vbyte t 4 15 = 18"
proof -
  let ?s = "zero_cpu\<lparr>gpr := (\<lambda>_. 0)(5 := 0x1003, 6 := 15), mem := (\<lambda>a. ucast a)\<rparr>"
  have "\<exists>t. and_then (and_then (and_then (execute_vector_load operand_vD_V2DI operand_RA_or_0 operand_RB 0x7c2028ce ?s)
        (execute_vector_load operand_vD_V2DI operand_RA_or_0 operand_RB 0x7c4628ce))
        (execute_vector_load_for_shift True 0x7c60280c)) (execute_vector_permute 0x108110eb) = Inr t \<and>
    (\<forall>i < 16. vbyte t (regno vD_field 0x108110eb) i = mem ?s (ucast (0x1003 + of_nat i :: u32))) \<and> mem t = mem ?s \<and> gpr t = gpr ?s \<and> pc t = pc ?s + 16"
    by (rule unaligned_vector_load) (simp_all add: eval_simps)
  then show ?thesis by (auto simp: eval_simps)
qed

lemma quad_aligned: "((x :: u32) AND - 16) AND 3 = 0"
proof -
  have "(- 16 AND 3 :: u32) = 0" by simp
  then show ?thesis by (simp only: and.assoc) simp
qed

lemma quad_read_write:
  assumes "i < 4" "j < 4"
  shows "vm_read_memory_4 (vm_write_memory_4 m ((x AND - 16) + of_nat (4 * i)) v) ((x AND - 16) + of_nat (4 * j)) =
    (if i = j then v else vm_read_memory_4 m ((x AND - 16) + of_nat (4 * j)))"
proof (cases "i = j")
  case True then show ?thesis by (simp add: read_write_4_same)
next
  case False
  then have neq: "(x AND - 16) + of_nat (4 * i) \<noteq> (x AND - 16) + of_nat (4 * j)"
    using offsets_distinct[of i j "x AND - 16"] assms by auto
  show ?thesis
    using False read_write_4_other[OF aligned_of_nat[OF quad_aligned] aligned_of_nat[OF quad_aligned] neq] by simp
qed

lemma vbyte_vr_w: "i < 16 \<Longrightarrow> vbyte s r i = ucast (drop_bit (24 - 8 * (i mod 4)) (vr_w (vr s r) (i div 4)))"
proof -
  have "\<forall>i < 16. vbyte s r i = ucast (drop_bit (24 - 8 * (i mod 4)) (vr_w (vr s r) (i div 4)))"
    by (simp add: all_less_16 vbyte_def ev_mixed_byte_element_def vr_w_def byte_simps) (simp add: numeral_2_eq_2)
  then show "i < 16 \<Longrightarrow> ?thesis" by blast
qed

text \<open>
  \<^verbatim>\<open>lvx\<close> after \<^verbatim>\<open>stvx\<close> to the same quadword reloads the sixteen stored bytes.
\<close>

theorem vector_store_load:
  assumes "execute_vector_store operand_vS_V2DI RA RB opcode s = Inr t"
    and "operand_get RA' t opcode2 + operand_get RB' t opcode2 = operand_get RA s opcode + operand_get RB s opcode"
  shows "\<exists>u. execute_vector_load operand_vD_V2DI RA' RB' opcode2 t = Inr u \<and>
    (\<forall>i < 16. vbyte u (regno vD_field opcode2) i = vbyte s (regno vS_field opcode) i) \<and> mem u = mem t"
proof -
  define ea where "ea = operand_get RA s opcode + operand_get RB s opcode"
  let ?w = "vr_w (vr s (regno vS_field opcode))" and ?a = "\<lambda>i. (ea AND - 16) + of_nat (4 * i)"
  have m: "mem t = vm_write_memory_4 (vm_write_memory_4 (vm_write_memory_4 (vm_write_memory_4 (mem s)
      (?a 0) (?w 0)) (?a 1) (?w 1)) (?a 2) (?w 2)) (?a 3) (?w 3)"
    using assms(1) by (auto simp: execute_vector_store_def element_size_def Let_def ea_def)
  have r: "vm_read_memory_4 (mem t) (?a j) = ?w j" if "j < 4" for j
  proof -
    have c: "0 < (4 :: nat)" "1 < (4 :: nat)" "2 < (4 :: nat)" "3 < (4 :: nat)" by simp_all
    consider "j = 0" | "j = 1" | "j = 2" | "j = 3" using \<open>j < 4\<close> by linarith
    then show ?thesis by cases (simp_all only: m quad_read_write[OF c(1)] quad_read_write[OF c(2)] quad_read_write[OF c(3)]
      quad_read_write[OF c(4)] c, simp_all)
  qed
  obtain u where u: "execute_vector_load operand_vD_V2DI RA' RB' opcode2 t = Inr u" "mem u = mem t"
    "vr u (regno vD_field opcode2) = vr_set_w (vr_set_w (vr_set_w (vr_set_w (vr t (regno vD_field opcode2))
       0 (vm_read_memory_4 (mem t) (?a 0))) 1 (vm_read_memory_4 (mem t) (?a 1)))
       2 (vm_read_memory_4 (mem t) (?a 2))) 3 (vm_read_memory_4 (mem t) (?a 3))"
    using assms(2) by (simp add: execute_vector_load_def element_size_def Let_def ea_def set_vr_def)
  have "vbyte u (regno vD_field opcode2) i = vbyte s (regno vS_field opcode) i" if "i < 16" for i
  proof -
    have "i div 4 < 4" using that by simp
    then consider "i div 4 = 0" | "i div 4 = 1" | "i div 4 = 2" | "i div 4 = 3" by linarith
    then have "[?w 0, ?w 1, ?w 2, ?w 3] ! (i div 4) = ?w (i div 4)" by cases simp_all
    moreover have "vr u (regno vD_field opcode2) (ev_mixed_byte_element i) =
      ucast (drop_bit (24 - 8 * (i mod 4)) ([?w 0, ?w 1, ?w 2, ?w 3] ! (i div 4)))"
      unfolding u(3) using r[of 0] r[of 1] r[of 2] r[of 3] vr_set_w_bytes[OF that] by (simp only:)
    ultimately show ?thesis unfolding vbyte_vr_w[OF that, of s] vbyte_def[of u] by (simp only:)
  qed
  then show ?thesis using u(1,2) by blast
qed

theorem vector_store_load_witness:
  "\<exists>t u. execute_vector_store operand_vS_V2DI operand_RA_or_0 operand_RB 0x7c2029ce (zero_cpu\<lparr>vr := (\<lambda>_ _. 0)(1 := of_nat)\<rparr>) = Inr t \<and>
     execute_vector_load operand_vD_V2DI operand_RA_or_0 operand_RB 0x7c4028ce t = Inr u \<and> vbyte u 2 0 = 3"
proof -
  let ?s = "zero_cpu\<lparr>vr := (\<lambda>_ _. 0)(1 := of_nat)\<rparr>"
  obtain t where t: "execute_vector_store operand_vS_V2DI operand_RA_or_0 operand_RB 0x7c2029ce ?s = Inr t" "gpr t = gpr ?s"
    by (simp add: execute_vector_store_def Let_def)
  have "\<exists>u. execute_vector_load operand_vD_V2DI operand_RA_or_0 operand_RB 0x7c4028ce t = Inr u \<and>
    (\<forall>i < 16. vbyte u (regno vD_field 0x7c4028ce) i = vbyte ?s (regno vS_field 0x7c2029ce) i) \<and> mem u = mem t"
    by (rule vector_store_load[OF t(1)]) (simp add: t(2))
  then obtain u where u: "execute_vector_load operand_vD_V2DI operand_RA_or_0 operand_RB 0x7c4028ce t = Inr u"
    "vbyte u (regno vD_field 0x7c4028ce) 0 = vbyte ?s (regno vS_field 0x7c2029ce) 0" by fastforce
  then show ?thesis using t(1) by (auto simp: eval_simps vbyte_def ev_mixed_byte_element_def)
qed

section \<open>Merging\<close>

lemma take_bit_c_conv: "take_bit (c_width T) (c_conv T x) = take_bit (c_width T) x"
proof -
  have "0 < c_width T" by (cases T) simp_all
  then show ?thesis by (simp add: c_conv_def take_bit_signed_take_bit)
qed

lemma take_bit_vr_get: "take_bit (8 * shape_size sh) (vr_get sh v i) = vr_get sh v i"
  using uint_lt2p[of "v i"] uint_lt2p[of "vr_h v i"] uint_lt2p[of "vr_w v i"] uint_lt2p[of "vr_j v i"]
  by (cases sh) (simp_all add: take_bit_int_eq_self_iff)

text \<open>The words of the two high (or low) halves, interleaved.\<close>

text \<open>
  \<^verbatim>\<open>vmrgh\<close> and \<^verbatim>\<open>vmrgl\<close> interleave the elements of the high or low halves of their inputs,
  provided the output register is not an input.
\<close>

theorem vector_merge_correct:
  assumes "regno vD_field opcode \<noteq> regno vA_field opcode" "regno vD_field opcode \<noteq> regno vB_field opcode"
    and "n = 16 div shape_size sh" "c_width T = 8 * shape_size sh" "LO \<le> 1"
  shows "\<exists>t. execute_vector_merge (vector_operand vD_field sh T m) (vr_operand (vector_operand vA_field sh T m))
      (vr_operand (vector_operand vB_field sh T m)) LO opcode s = Inr t \<and>
    (\<forall>j < n. elem m sh t (regno vD_field opcode) j =
       elem m sh s (if even j then regno vA_field opcode else regno vB_field opcode) (j div 2 + LO * (n div 2))) \<and>
    (\<forall>r. r \<noteq> regno vD_field opcode \<longrightarrow> vr t r = vr s r)"
proof -
  let ?D = "vector_operand vD_field sh T m" and ?A = "vr_operand (vector_operand vA_field sh T m)"
  let ?B = "vr_operand (vector_operand vB_field sh T m)"
  let ?d = "regno vD_field opcode" and ?a = "regno vA_field opcode" and ?b = "regno vB_field opcode"
  let ?src = "\<lambda>j. elem m sh s (if even j then ?a else ?b) (j div 2 + LO * (n div 2))"
  have conv: "take_bit (8 * shape_size sh) (c_conv T (c_conv T (vr_get sh v i))) = vr_get sh v i" for v i
    unfolding assms(4)[symmetric] take_bit_c_conv unfolding assms(4) by (rule take_bit_vr_get)
  have L: "(\<forall>j < n. elem m sh (fold (vector_merge_step ?D ?A ?B LO opcode) [0..<k] s) ?d j = (if j < 2 * k then ?src j else elem m sh s ?d j)) \<and>
    (\<forall>r. r \<noteq> ?d \<longrightarrow> vr (fold (vector_merge_step ?D ?A ?B LO opcode) [0..<k] s) r = vr s r)" if "k \<le> n div 2" for k
    using that
  proof (induction k)
    case 0 then show ?case by simp
  next
    case (Suc k)
    define u where "u = fold (vector_merge_step ?D ?A ?B LO opcode) [0..<k] s"
    have IH: "\<forall>j < n. elem m sh u ?d j = (if j < 2 * k then ?src j else elem m sh s ?d j)" "\<forall>r. r \<noteq> ?d \<longrightarrow> vr u r = vr s r"
      using Suc by (simp_all add: u_def)
    have k: "2 * k + 1 < n" using Suc.prems by linarith
    have src: "voperand_get ?A v opcode i = c_conv T (vr_get sh (vr s ?a) (ev_element m sh i))"
      "voperand_get ?B v opcode i = c_conv T (vr_get sh (vr s ?b) (ev_element m sh i))"
      if "\<forall>r. r \<noteq> ?d \<longrightarrow> vr v r = vr s r" for v i
      using that assms(1,2) by (simp_all add: vr_get_element_def)
    define v where "v = voperand_set ?D opcode (2 * k) (voperand_get ?A u opcode (2 * k div 2 + LO * (n div 2))) u"
    have v: "\<forall>r. r \<noteq> ?d \<longrightarrow> vr v r = vr s r" using IH(2) by (simp add: v_def voperand_set_def set_vr_def Let_def)
    have w: "vector_merge_step ?D ?A ?B LO opcode k u =
      voperand_set ?D opcode (2 * k + 1) (voperand_get ?B v opcode (2 * k div 2 + LO * (n div 2))) v"
      by (simp add: vector_merge_step_def Let_def v_def assms(3) element_size_def)
    have e1: "elem m sh v ?d j = (if 2 * k = j then ?src j else elem m sh u ?d j)" if "j < n" for j
      using elem_voperand_set[of ?D sh m "2 * k" j opcode _ u ?d] k that assms(3)
      by (auto simp: v_def src[OF IH(2)] conv elem_def simp del: voperand_get.simps)
    have e2: "elem m sh (vector_merge_step ?D ?A ?B LO opcode k u) ?d j = (if 2 * k + 1 = j then ?src j else elem m sh v ?d j)" if "j < n" for j
      using elem_voperand_set[of ?D sh m "2 * k + 1" j opcode _ v ?d] k that assms(3)
      by (auto simp: w src[OF v] conv elem_def simp del: voperand_get.simps)
    have f: "fold (vector_merge_step ?D ?A ?B LO opcode) [0..<Suc k] s = vector_merge_step ?D ?A ?B LO opcode k u"
      by (simp add: u_def)
    have "elem m sh (vector_merge_step ?D ?A ?B LO opcode k u) ?d j = (if j < 2 * Suc k then ?src j else elem m sh s ?d j)" if "j < n" for j
    proof -
      have "j < 2 * Suc k \<longleftrightarrow> j = 2 * k \<or> j = 2 * k + 1 \<or> j < 2 * k" by auto
      then show ?thesis using e1[OF that] e2[OF that] IH(1) that by auto
    qed
    moreover have "\<forall>r. r \<noteq> ?d \<longrightarrow> vr (vector_merge_step ?D ?A ?B LO opcode k u) r = vr s r"
      using v by (simp add: w voperand_set_def set_vr_def Let_def)
    ultimately show ?case unfolding f by blast
  qed
  have n: "2 * (n div 2) = n" unfolding assms(3) by (cases sh) simp_all
  show ?thesis
    unfolding execute_vector_merge_def Let_def element_size_def vr_shape.simps assms(3)[symmetric]
    using L[OF order.refl] n by (auto simp: elem_def)
qed

theorem vector_merge_correct_witness:
  "\<exists>t. execute_vector_merge (vector_operand vD_field V_w UInt32 False) (vr_operand (vector_operand vA_field V_w UInt32 False))
      (vr_operand (vector_operand vB_field V_w UInt32 False)) 0 0x1022188c (zero_cpu\<lparr>vr := (\<lambda>_ _. 0)(2 := (\<lambda>_. 1), 3 := (\<lambda>_. 2))\<rparr>) = Inr t \<and>
    elem False V_w t 1 2 = 0x01010101 \<and> elem False V_w t 1 3 = 0x02020202"
proof -
  let ?s = "zero_cpu\<lparr>vr := (\<lambda>_ _. 0)(2 := (\<lambda>_. 1), 3 := (\<lambda>_. 2))\<rparr>"
  have r: "regno vA_field 0x1022188c = 2" "regno vB_field 0x1022188c = 3" "regno vD_field 0x1022188c = 1"
    by (simp_all add: eval_simps)
  have "elem False V_w ?s 2 1 = 0x01010101" "elem False V_w ?s 3 1 = 0x02020202"
    by (simp_all add: elem_def vr_w_def push_bit_eq_mult)
  then show ?thesis
    using vector_merge_correct[of "0x1022188c" 4 V_w UInt32 0 False ?s] by (auto simp: r)
qed

text \<open>
  \<^verbatim>\<open>vmrghw vD,vD,vB\<close> writes word 0 of vB, not word 1 of the old vD, to word 2 of the result:
  the loop has overwritten the word it reads.
\<close>

theorem vector_merge_overlap:
  assumes "regno vD_field opcode = regno vA_field opcode" "regno vD_field opcode \<noteq> regno vB_field opcode"
  shows "\<exists>t. execute_vector_merge (vector_operand vD_field V_w UInt32 False) (vr_operand (vector_operand vA_field V_w UInt32 False))
      (vr_operand (vector_operand vB_field V_w UInt32 False)) 0 opcode s = Inr t \<and>
    elem False V_w t (regno vD_field opcode) 2 = elem False V_w s (regno vB_field opcode) 0"
proof -
  let ?D = "vector_operand vD_field V_w UInt32 False"
  let ?A = "vr_operand (vector_operand vA_field V_w UInt32 False)" and ?B = "vr_operand (vector_operand vB_field V_w UInt32 False)"
  define g where "g v r i = voperand_get (vr_operand (vector_operand r V_w UInt32 False)) v opcode i" for v r i
  have g: "g v r i = elem False V_w v (regno r opcode) i" for v r i
    using take_bit_vr_get[of V_w] by (simp add: g_def vr_get_element_def elem_def c_conv_def c_signed_def)
  have c: "take_bit 32 (c_conv UInt32 (elem False V_w v r i)) = elem False V_w v r i" for v r i
    using take_bit_vr_get[of V_w] by (simp add: elem_def c_conv_def c_signed_def)
  note put = elem_voperand_set[of ?D V_w False, simplified]
  define s1 where "s1 = voperand_set ?D opcode 0 (g s vA_field 0) s"
  define s2 where "s2 = voperand_set ?D opcode 1 (g s1 vB_field 0) s1"
  define s3 where "s3 = voperand_set ?D opcode 2 (g s2 vA_field 1) s2"
  define s4 where "s4 = voperand_set ?D opcode 3 (g s3 vB_field 1) s3"
  have u: "[0..<2] = [0, 1 :: nat]" by (simp add: upt_rec)
  have "execute_vector_merge ?D ?A ?B 0 opcode s = Inr (increment_pc 4 (fold (vector_merge_step ?D ?A ?B 0 opcode) [0, 1] s))"
    unfolding u[symmetric] by (simp add: execute_vector_merge_def element_size_def)
  moreover have "vector_merge_step ?D ?A ?B 0 opcode 0 s = s2"
    by (simp only: vector_merge_step_def Let_def s2_def s1_def g_def) simp
  moreover have "vector_merge_step ?D ?A ?B 0 opcode 1 s2 = s4"
    by (simp only: vector_merge_step_def Let_def s4_def s3_def g_def) simp
  ultimately have "execute_vector_merge ?D ?A ?B 0 opcode s = Inr (increment_pc 4 s4)" by simp
  moreover have "elem False V_w s4 (regno vD_field opcode) 2 = elem False V_w s2 (regno vA_field opcode) 1"
    by (simp add: s4_def s3_def put g c)
  moreover have "elem False V_w s2 (regno vA_field opcode) 1 = elem False V_w s1 (regno vB_field opcode) 0"
    using assms by (simp add: s2_def put g c)
  moreover have "elem False V_w s1 (regno vB_field opcode) 0 = elem False V_w s (regno vB_field opcode) 0"
    using assms by (simp add: s1_def put g c)
  ultimately show ?thesis by (simp add: elem_def)
qed

theorem vector_merge_overlap_witness:
  "\<exists>t. execute_vector_merge (vector_operand vD_field V_w UInt32 False) (vr_operand (vector_operand vA_field V_w UInt32 False))
      (vr_operand (vector_operand vB_field V_w UInt32 False)) 0 0x1021188c (zero_cpu\<lparr>vr := (\<lambda>_ _. 0)(1 := (\<lambda>_. 1), 3 := (\<lambda>_. 2))\<rparr>) = Inr t \<and>
    elem False V_w t 1 2 = 0x02020202"
proof -
  let ?s = "zero_cpu\<lparr>vr := (\<lambda>_ _. 0)(1 := (\<lambda>_. 1), 3 := (\<lambda>_. 2))\<rparr>"
  have r: "regno vA_field 0x1021188c = 1" "regno vB_field 0x1021188c = 3" "regno vD_field 0x1021188c = 1"
    by (simp_all add: eval_simps)
  have "elem False V_w ?s 3 0 = 0x02020202" by (simp add: elem_def vr_w_def push_bit_eq_mult)
  then show ?thesis using vector_merge_overlap[of "0x1021188c" ?s] by (auto simp: r)
qed

section \<open>Comparison and CR6\<close>

lemma vr_parts:
  "(ucast (vr_h v i) :: u8) = v (2 * i)" "(ucast (drop_bit 8 (vr_h v i)) :: u8) = v (2 * i + 1)"
  "(ucast (vr_w v i) :: u8) = v (4 * i)" "(ucast (drop_bit 8 (vr_w v i)) :: u8) = v (4 * i + 1)"
  "(ucast (drop_bit 16 (vr_w v i)) :: u8) = v (4 * i + 2)" "(ucast (drop_bit 24 (vr_w v i)) :: u8) = v (4 * i + 3)"
  by (simp_all add: vr_h_def vr_w_def byte_simps)

lemma vr_w_const:
  assumes "(ucast (drop_bit 8 c) :: u8) = ucast c" "(ucast (drop_bit 16 c) :: u8) = ucast c" "(ucast (drop_bit 24 c) :: u8) = ucast c"
  shows "vr_w v i = c \<longleftrightarrow> v (4 * i) = ucast c \<and> v (4 * i + 1) = ucast c \<and> v (4 * i + 2) = ucast c \<and> v (4 * i + 3) = ucast c"
  using vr_parts(3-6)[of v i] word32_byte_eqI[of "vr_w v i" c] assms by (intro iffI) (simp_all only:)

lemma vr_h_const:
  assumes "(ucast (drop_bit 8 c) :: u8) = ucast c"
  shows "vr_h v i = c \<longleftrightarrow> v (2 * i) = ucast c \<and> v (2 * i + 1) = ucast c"
  using vr_parts(1,2)[of v i] word16_byte_eqI[of "vr_h v i" c] assms by (intro iffI) (simp_all only:)

lemma vr_j_const:
  assumes "(ucast (drop_bit 32 c) :: u32) = ucast c"
  shows "vr_j v i = c \<longleftrightarrow> vr_w v (2 * i) = ucast c \<and> vr_w v (2 * i + 1) = ucast c"
proof -
  have p: "(ucast (vr_j v i) :: u32) = vr_w v (2 * i)" "(ucast (drop_bit 32 (vr_j v i)) :: u32) = vr_w v (2 * i + 1)"
    unfolding vr_j_def by (rule bit_word_eqI, auto simp: bit_unsigned_iff bit_drop_bit_eq bit_or_iff bit_push_bit_iff dest: bit_imp_le_length)+
  then show ?thesis using assms join_halves[of c] join_halves[of "vr_j v i"] by (intro iffI) (metis, metis)
qed

lemma uint_all_ones: "uint (x :: 'a::len word) = 2 ^ LENGTH('a) - 1 \<longleftrightarrow> x = - 1"
  by (metis mask_eq_exp_minus_1 unsigned_minus_1_eq_mask word_uint_eqI)

text \<open>The doubleword tests of \<^verbatim>\<open>record_cr6\<close> look at every element, whatever its size.\<close>

lemma ones_parts:
  "(ucast (drop_bit 32 (- 1 :: u64)) :: u32) = ucast (- 1 :: u64)" "(ucast (- 1 :: u64) :: u32) = - 1"
  "(ucast (drop_bit 8 (- 1 :: u32)) :: u8) = ucast (- 1 :: u32)" "(ucast (drop_bit 16 (- 1 :: u32)) :: u8) = ucast (- 1 :: u32)"
  "(ucast (drop_bit 24 (- 1 :: u32)) :: u8) = ucast (- 1 :: u32)" "(ucast (- 1 :: u32) :: u8) = - 1"
  "(ucast (drop_bit 8 (- 1 :: u16)) :: u8) = ucast (- 1 :: u16)" "(ucast (- 1 :: u16) :: u8) = - 1"
  by (rule bit_word_eqI, simp add: bit_unsigned_iff bit_drop_bit_eq bit_mask_iff possible_bit_word)+

lemmas ones_const = vr_j_const[OF ones_parts(1), unfolded ones_parts(2)]
  vr_w_const[OF ones_parts(3-5), unfolded ones_parts(6)] vr_h_const[OF ones_parts(7), unfolded ones_parts(8)]

lemmas cr6_simps = ones_const vr_j_const vr_w_const vr_h_const all_less_small all_less_16 conj_ac Suc_1[unfolded One_nat_def]

lemma cr6_all_ones:
  "vr_j v 0 = 0xffffffffffffffff \<and> vr_j v 1 = 0xffffffffffffffff \<longleftrightarrow>
    (\<forall>i < 16 div shape_size sh. vr_get sh v i = 2 ^ (8 * shape_size sh) - 1)"
proof -
  have m: "(0xffffffffffffffff :: u64) = - 1" by simp
  show ?thesis unfolding m
    using uint_all_ones[where 'a = 8] uint_all_ones[where 'a = 16] uint_all_ones[where 'a = 32] uint_all_ones[where 'a = 64]
    by (cases sh) (simp_all add: cr6_simps)
qed

lemma cr6_all_zero:
  "vr_j v 0 = 0 \<and> vr_j v 1 = 0 \<longleftrightarrow> (\<forall>i < 16 div shape_size sh. vr_get sh v i = 0)"
  by (cases sh) (simp_all add: cr6_simps uint_0_iff)

text \<open>
  The integer vector comparisons put all ones or zeros in each element, and the record form
  sets CR field 6 to 8 when all elements compare true, to 2 when none does and to 0
  otherwise.
\<close>

theorem vector_compare_cr6:
  assumes "c \<in> {op_cmp_eq T, op_cmp_gt T}" "T \<noteq> CFloat" "c_width T = 8 * shape_size sh" "sh \<noteq> V_j"
    and "U = (if sh = V_b then UInt8 else if sh = V_h then UInt16 else UInt32)"
    and "\<And>i. holds i = (let x = c_conv T (elem False sh s (regno vA_field opcode) i); y = c_conv T (elem False sh s (regno vB_field opcode) i)
           in if c = op_cmp_eq T then x = y else y < x)"
    and "pred_test Rc opcode" "n = 16 div shape_size sh"
  shows "\<exists>t. execute_vector_arith H (VOP2 c) (vector_operand vD_field sh U False) (vr_operand (vector_operand vA_field sh T False))
      (vr_operand (vector_operand vB_field sh T False)) null_vector_operand Rc True opcode s = Inr t \<and>
    (\<forall>i < n. elem False sh t (regno vD_field opcode) i = (if holds i then 2 ^ (8 * shape_size sh) - 1 else 0)) \<and>
    cr_get_field (cr t) 6 = (if \<forall>i < n. holds i then 8 else if \<forall>i < n. \<not> holds i then 2 else 0) \<and> vscr t = vscr s"
proof -
  let ?D = "vector_operand vD_field sh U False" and ?A = "vr_operand (vector_operand vA_field sh T False)"
  let ?B = "vr_operand (vector_operand vB_field sh T False)"
  define t where "t = fold (vector_arith_step H (VOP2 c) ?D ?A ?B null_vector_operand opcode) [0..<16 div shape_size sh] s"
  let ?ones = "2 ^ (8 * shape_size sh) - 1 :: int"
  have idem: "c_conv T (c_conv T x) = c_conv T x" for x using c_conv_range[of T x] by (intro c_conv_self) auto
  have lv: "lane_value H (VOP2 c) ?D ?A ?B null_vector_operand opcode s i = c_conv U (c_conv UInt32 (if holds i then ?ones else 0))" for i
    using assms(1-4) by (auto simp: assms(6) lane_value_def vr_get_element_def elem_def op_cmp_apply_def op_all_ones_value_def idem Let_def
      split: if_splits)
  have one: "take_bit (8 * shape_size sh) (c_conv U (c_conv U (c_conv UInt32 (if b then ?ones else 0)))) = (if b then ?ones else 0)" for b
    using assms(4,5) by (cases sh) (auto simp: c_conv_def c_signed_def)
  have lane: "lane_operand False sh (vr_operand (vector_operand f sh T False))" "lane_operand False sh null_vector_operand" for f
    by (simp_all add: lane_operand_def)
  note L = vector_arith_lanes[OF vr_shape.simps(1) vr_mixed.simps(1) lane(1) lane(1) lane(2) order.refl t_def,
    unfolded vr_field.simps element_type.simps lv saturate.simps fst_conv snd_conv one]
  have e: "vr_get sh (vr t (regno vD_field opcode)) i = (if holds i then ?ones else 0)" if "i < n" for i
    using L that assms(4,8) unfolding elem_def by (cases sh) auto
  have z: "?ones \<noteq> 0" by (cases sh) simp_all
  let ?v = "vr t (regno vD_field opcode)"
  have c6: "cr_get_field (cr (record_cr6 ?v True t)) 6 = (if \<forall>i < n. holds i then 8 else if \<forall>i < n. \<not> holds i then 2 else 0)"
    unfolding record_cr6_def simp_thms cr6_all_ones[of ?v sh] cr6_all_zero[of ?v sh] assms(8)[symmetric]
    using e z by (auto simp: cr_bank.get_set)
  have f: "vr (record_cr6 ?v True t) = vr t" "vscr (record_cr6 ?v True t) = vscr t" by (simp_all add: record_cr6_def)
  show ?thesis
    unfolding execute_vector_arith_def Let_def element_size_def vr_shape.simps t_def[symmetric] upd_if_def vr_field.simps
    using assms(7,8) L c6 by (simp add: f elem_def)
qed

theorem vector_compare_cr6_witness:
  "\<exists>t. execute_vector_arith example_fpu_host (VOP2 (op_cmp_gt Int8)) (vector_operand vD_field V_b UInt8 False)
      (vr_operand (vector_operand vA_field V_b Int8 False)) (vr_operand (vector_operand vB_field V_b Int8 False)) null_vector_operand
      vRC_BIT_G True 0x10221f06 (zero_cpu\<lparr>vr := (\<lambda>_ _. 0)(3 := (\<lambda>_. 255))\<rparr>) = Inr t \<and> cr_get_field (cr t) 6 = 8"
proof -
  let ?s = "zero_cpu\<lparr>vr := (\<lambda>_ _. 0)(3 := (\<lambda>_. 255))\<rparr>"
  have r: "regno vA_field 0x10221f06 = 2" "regno vB_field 0x10221f06 = 3" by (simp_all add: eval_simps)
  have p: "pred_test vRC_BIT_G 0x10221f06" by (simp add: eval_simps)
  have h: "True = (let x = c_conv Int8 (elem False V_b ?s (regno vA_field 0x10221f06) i); y = c_conv Int8 (elem False V_b ?s (regno vB_field 0x10221f06) i)
           in if op_cmp_gt Int8 = op_cmp_eq Int8 then x = y else y < x)" for i
    by (simp add: r elem_def c_conv_def c_signed_def)
  show ?thesis
    using vector_compare_cr6[where s = ?s and c = "op_cmp_gt Int8" and holds = "\<lambda>_. True" and H = example_fpu_host, OF _ _ _ _ refl h p refl] by auto
qed

end
