(* ===== verification/PPC_Sheep.thy ===== *)
theory PPC_Sheep
  imports PPC_Vector
begin

unbundle bit_operations_syntax

text \<open>
  The \<^verbatim>\<open>sheep\<close> instruction of \<^verbatim>\<open>sheepshaver_glue.cpp\<close>: primary opcode 6, by which the
  patched Mac OS calls the emulator. The EmulOp and NativeOp routines it reaches belong to the
  drivers of the emulator; they are fields of the record \<open>sheep_host\<close>, functions that may
  change the whole processor state and the memory, or end the program.
\<close>

section \<open>Constants\<close>

definition XLM_RUN_MODE :: u32 where "XLM_RUN_MODE = 0x2810"
definition XLM_68K_R25 :: u32 where "XLM_68K_R25 = 0x2814"
definition MODE_68K :: u32 where "MODE_68K = 0"
definition MODE_NATIVE :: u32 where "MODE_NATIVE = 1"
definition MODE_EMUL_OP :: u32 where "MODE_EMUL_OP = 2"
definition POWERPC_EMUL_OP :: u32 where "POWERPC_EMUL_OP = 0x18000000"
definition POWERPC_EXEC_RETURN :: u32 where "POWERPC_EXEC_RETURN = POWERPC_EMUL_OP OR 1"

abbreviation FN_field :: bit_field where "FN_field \<equiv> BitField 19 19"
abbreviation NATIVE_OP_field :: bit_field where "NATIVE_OP_field \<equiv> BitField 20 25"
abbreviation EMUL_OP_field :: bit_field where "EMUL_OP_field \<equiv> BitField 26 31"

definition ReadMacInt32 :: "u32 \<Rightarrow> powerpc_cpu \<Rightarrow> u32" where
  "ReadMacInt32 addr s = vm_read_memory_4 (mem s) addr"

definition WriteMacInt32 :: "u32 \<Rightarrow> u32 \<Rightarrow> powerpc_cpu \<Rightarrow> powerpc_cpu" where
  "WriteMacInt32 addr v s = s\<lparr>mem := vm_write_memory_4 (mem s) addr v\<rparr>"

section \<open>The registers of the 68k emulator\<close>

record M68kRegisters =
  m68k_d :: "nat \<Rightarrow> u32"
  m68k_a :: "nat \<Rightarrow> u32"

record sheep_host = fpu_host +
  EmulOp :: "M68kRegisters \<Rightarrow> u32 \<Rightarrow> u32 \<Rightarrow> powerpc_cpu \<Rightarrow> abort_reason + (M68kRegisters \<times> powerpc_cpu)"
  execute_native_op :: "u32 \<Rightarrow> powerpc_cpu \<Rightarrow> result"

definition load_m68k_registers :: "powerpc_cpu \<Rightarrow> M68kRegisters" where
  "load_m68k_registers s =
     \<lparr>m68k_d = (\<lambda>i. if i < 8 then gpr s (8 + i) else 0),
      m68k_a = (\<lambda>i. if i < 7 then gpr s (16 + i) else if i = 7 then gpr s 1 else 0)\<rparr>"

definition store_m68k_registers :: "M68kRegisters \<Rightarrow> powerpc_cpu \<Rightarrow> powerpc_cpu" where
  "store_m68k_registers r s =
     (let s = fold (\<lambda>i. set_gpr (8 + i) (m68k_d r i)) [0..<8] s;
          s = fold (\<lambda>i. set_gpr (16 + i) (m68k_a r i)) [0..<7] s
      in set_gpr 1 (m68k_a r 7) s)"

section \<open>The instruction\<close>

definition execute_emul_op :: "'h sheep_host_scheme \<Rightarrow> u32 \<Rightarrow> powerpc_cpu \<Rightarrow> result" where
  "execute_emul_op H emul_op s =
     (let s = WriteMacInt32 XLM_68K_R25 (gpr s 25) s;
          s = WriteMacInt32 XLM_RUN_MODE MODE_EMUL_OP s;
          r68 = load_m68k_registers s;
          saved_cr = cr s AND 0xff9fffff;
          saved_xer = xer_get (xer s)
      in case EmulOp H r68 (gpr s 24) emul_op s of
           Inl e \<Rightarrow> Inl e
         | Inr (r68, s) \<Rightarrow>
             (let s = s\<lparr>cr := saved_cr, xer := xer_set saved_xer (xer s)\<rparr>;
                  s = store_m68k_registers r68 s
              in Inr (WriteMacInt32 XLM_RUN_MODE MODE_68K s)))"

definition execute_sheep :: "'h sheep_host_scheme \<Rightarrow> u32 \<Rightarrow> powerpc_cpu \<Rightarrow> result" where
  "execute_sheep H opcode s =
     (if drop_bit 26 opcode AND 0x3f \<noteq> 6 then Inl Assertion_failed
      else if opcode AND 0x3f = 0 then Inl Quit_emulator
      else if opcode AND 0x3f = 1
      then Inr (s\<lparr>spcflags := spcflags_set (spcflags s) SPCFLAG_CPU_EXEC_RETURN\<rparr>)
      else if opcode AND 0x3f = 2
      then and_then (execute_native_op H (field_extract NATIVE_OP_field opcode) s)
             (\<lambda>s. Inr (if field_test FN_field opcode then s\<lparr>pc := lr s\<rparr> else increment_pc 4 s))
      else and_then (execute_emul_op H (field_extract EMUL_OP_field opcode - 3) s)
             (\<lambda>s. Inr (increment_pc 4 s)))"

text \<open>A host for the examples: routines that change nothing.\<close>

definition example_sheep_host :: sheep_host where
  "example_sheep_host =
     (fpu_host.extend example_fpu_host (sheep_host.fields (\<lambda>r pc op s. Inr (r, s)) (\<lambda>op s. Inr s)))
       \<lparr>ignoreillegal := False\<rparr>"

lemma example_sheep_host_simps [simp]:
  "\<not> ignoreillegal example_sheep_host" "EmulOp example_sheep_host = (\<lambda>r pc op s. Inr (r, s))"
  "execute_native_op example_sheep_host = (\<lambda>op s. Inr s)"
  by (simp_all add: example_sheep_host_def example_fpu_host_def zero_host_def host.extend_def host.truncate_def
      fpu_host.extend_def fpu_host.fields_def sheep_host.fields_def)

section \<open>Laws\<close>

lemma store_m68k_registers_eq:
  "store_m68k_registers r s =
     s\<lparr>gpr := (\<lambda>i. if i = 1 then m68k_a r 7 else if 8 \<le> i \<and> i < 16 then m68k_d r (i - 8)
                  else if 16 \<le> i \<and> i < 23 then m68k_a r (i - 16) else gpr s i)\<rparr>"
proof -
  have d: "fold (\<lambda>i. set_gpr (8 + i) (m68k_d r i)) [0..<n] s =
      s\<lparr>gpr := \<lambda>i. if 8 \<le> i \<and> i < 8 + n then m68k_d r (i - 8) else gpr s i\<rparr>" for n s
    by (induction n) (auto simp: set_gpr_def fun_eq_iff intro!: powerpc_cpu.equality)
  have a: "fold (\<lambda>i. set_gpr (16 + i) (m68k_a r i)) [0..<n] s =
      s\<lparr>gpr := \<lambda>i. if 16 \<le> i \<and> i < 16 + n then m68k_a r (i - 16) else gpr s i\<rparr>" for n s
    by (induction n) (auto simp: set_gpr_def fun_eq_iff intro!: powerpc_cpu.equality)
  show ?thesis
    unfolding store_m68k_registers_def Let_def d a
    by (auto simp: set_gpr_def fun_eq_iff intro!: powerpc_cpu.equality)
qed

lemma store_load_m68k_registers: "store_m68k_registers (load_m68k_registers s) s = s"
  unfolding store_m68k_registers_eq
  by (auto simp: load_m68k_registers_def fun_eq_iff intro!: powerpc_cpu.equality)

lemma WriteMacInt32_simps [simp]:
  "gpr (WriteMacInt32 a v s) = gpr s" "cr (WriteMacInt32 a v s) = cr s" "xer (WriteMacInt32 a v s) = xer s"
  "pc (WriteMacInt32 a v s) = pc s" "lr (WriteMacInt32 a v s) = lr s" "ctr (WriteMacInt32 a v s) = ctr s"
  "fpr (WriteMacInt32 a v s) = fpr s" "vr (WriteMacInt32 a v s) = vr s" "spcflags (WriteMacInt32 a v s) = spcflags s"
  by (simp_all add: WriteMacInt32_def)

lemma wf_WriteMacInt32 [wf_intros]: "wf_cpu s \<Longrightarrow> wf_cpu (WriteMacInt32 a v s)"
  by (simp add: WriteMacInt32_def wf_intros)

text \<open>The state in which an EmulOp routine runs.\<close>

abbreviation emul_op_entry :: "powerpc_cpu \<Rightarrow> powerpc_cpu" where
  "emul_op_entry s \<equiv> WriteMacInt32 XLM_RUN_MODE MODE_EMUL_OP (WriteMacInt32 XLM_68K_R25 (gpr s 25) s)"

text \<open>
  An EmulOp runs with the 68k registers D0 to D7 and A0 to A7 taken from r8 to r22 and r1,
  in the run mode \<^verbatim>\<open>MODE_EMUL_OP\<close>; the registers it returns go back to the same places,
  the other general registers are those the routine leaves, the condition register loses two
  bits of its field 2 and the XER is restored, the run mode is \<^verbatim>\<open>MODE_68K\<close> again, and
  execution goes on behind the instruction.
\<close>

theorem emul_op_registers:
  assumes "EmulOp H (load_m68k_registers s) (gpr s 24) (field_extract EMUL_OP_field w - 3) (emul_op_entry s) = Inr (r, t)"
    and "drop_bit 26 w AND 0x3f = 6" and "w AND 0x3f \<notin> {0, 1, 2}" and "wf_cpu s"
  shows "\<exists>u. execute_sheep H w s = Inr u \<and>
    (\<forall>i<8. gpr u (8 + i) = m68k_d r i) \<and> (\<forall>i<7. gpr u (16 + i) = m68k_a r i) \<and> gpr u 1 = m68k_a r 7 \<and>
    (\<forall>i. i \<noteq> 1 \<and> (i < 8 \<or> 23 \<le> i) \<longrightarrow> gpr u i = gpr t i) \<and>
    cr u = cr s AND 0xff9fffff \<and> xer u = xer s \<and> ReadMacInt32 XLM_RUN_MODE u = MODE_68K \<and> pc u = pc t + 4"
proof -
  let ?t = "store_m68k_registers r (t\<lparr>cr := cr s AND 0xff9fffff, xer := xer_set (xer_get (xer s)) (xer t)\<rparr>)"
  let ?u = "increment_pc 4 (WriteMacInt32 XLM_RUN_MODE MODE_68K ?t)"
  have l: "load_m68k_registers (emul_op_entry s) = load_m68k_registers s"
    by (simp add: load_m68k_registers_def fun_eq_iff)
  have "execute_emul_op H (field_extract EMUL_OP_field w - 3) s = Inr (WriteMacInt32 XLM_RUN_MODE MODE_68K ?t)"
    using assms(1) by (simp add: execute_emul_op_def Let_def l)
  then have "execute_sheep H w s = Inr ?u"
    using assms(2,3) by (simp add: execute_sheep_def)
  moreover have "xer_set (xer_get (xer s)) (xer t) = xer s"
    using assms(4) by (intro xer_set_get) (simp add: wf_cpu_def)
  moreover have "ReadMacInt32 XLM_RUN_MODE ?u = MODE_68K"
    by (simp add: ReadMacInt32_def WriteMacInt32_def read_write_4_same)
  ultimately show ?thesis
    by (intro exI[of _ ?u]) (simp add: store_m68k_registers_eq)
qed

text \<open>An example: an EmulOp routine that returns its arguments, called with selector 4.\<close>

theorem emul_op_registers_witness:
  "\<exists>u. execute_sheep example_sheep_host 0x18000007 (zero_cpu\<lparr>gpr := \<lambda>i. of_nat i, cr := 0xffffffff\<rparr>) = Inr u \<and>
     gpr u 9 = 9 \<and> gpr u 20 = 20 \<and> cr u = 0xff9fffff \<and> pc u = 4"
proof -
  let ?s = "zero_cpu\<lparr>gpr := \<lambda>i. of_nat i, cr := 0xffffffff\<rparr>"
  have w: "wf_cpu ?s" by (simp add: wf_cpu_def zero_cpu_def xer_init_def wf_xer_def)
  obtain u where u: "execute_sheep example_sheep_host 0x18000007 ?s = Inr u"
      "\<forall>i<8. gpr u (8 + i) = m68k_d (load_m68k_registers ?s) i"
      "\<forall>i<7. gpr u (16 + i) = m68k_a (load_m68k_registers ?s) i"
      "cr u = cr ?s AND 0xff9fffff" "pc u = pc (emul_op_entry ?s) + 4"
    using emul_op_registers[of example_sheep_host ?s "0x18000007" "load_m68k_registers ?s" "emul_op_entry ?s", OF _ _ _ w]
    by auto
  have "gpr u 9 = 9" "gpr u 20 = 20"
    using u(2)[rule_format, of 1] u(3)[rule_format, of 4] by (simp_all add: load_m68k_registers_def)
  then show ?thesis using u(1,4,5) by (intro exI[of _ u]) simp
qed

end
