(* ===== verification/PPC_Table.thy ===== *)
theory PPC_Table
  imports PPC_Sheep
begin

unbundle bit_operations_syntax

text \<open>
  The instruction table \<^verbatim>\<open>powerpc_ii_table\<close> of \<^verbatim>\<open>ppc-decode.cpp\<close>. The
  \<^verbatim>\<open>execute\<close> field of an entry is a pointer to an instance of a handler template; the
  datatype \<open>execute_pmf\<close> has one constructor per template, with the template's arguments,
  and \<open>call_pmf\<close> is the call through the pointer. The table is split into pieces of thirty entries, in the order of
  the source.
\<close>

section \<open>Operand aliases of the vector instructions\<close>

abbreviation operand_vA_NONE :: voperand where "operand_vA_NONE \<equiv> null_vector_operand"
abbreviation operand_vA_UIMM :: voperand where "operand_vA_UIMM \<equiv> vimm_operand vA_field"
abbreviation operand_vA_V16QI :: voperand where "operand_vA_V16QI \<equiv> vr_operand (vector_operand vA_field V_b UInt8 False)"
abbreviation operand_vA_V16QI_SAT :: "ctype \<Rightarrow> voperand" where "operand_vA_V16QI_SAT t \<equiv> vr_operand (vector_saturate_operand vA_field V_b t Int16 False)"
abbreviation operand_vA_V16QIm :: voperand where "operand_vA_V16QIm \<equiv> vr_operand (vector_operand vA_field V_b UInt8 True)"
abbreviation operand_vA_V16QIm_SAT :: "ctype \<Rightarrow> voperand" where "operand_vA_V16QIm_SAT t \<equiv> vr_operand (vector_saturate_operand vA_field V_b t Int16 True)"
abbreviation operand_vA_V16QIs :: voperand where "operand_vA_V16QIs \<equiv> vr_operand (vector_operand vA_field V_b Int8 False)"
abbreviation operand_vA_V2DI :: voperand where "operand_vA_V2DI \<equiv> vr_operand (vector_operand vA_field V_j UInt64 False)"
abbreviation operand_vA_V4SF :: voperand where "operand_vA_V4SF \<equiv> vr_operand (vector_operand vA_field V_w CFloat False)"
abbreviation operand_vA_V4SI :: voperand where "operand_vA_V4SI \<equiv> vr_operand (vector_operand vA_field V_w UInt32 False)"
abbreviation operand_vA_V4SI_SAT :: "ctype \<Rightarrow> voperand" where "operand_vA_V4SI_SAT t \<equiv> vr_operand (vector_saturate_operand vA_field V_w t Int64 False)"
abbreviation operand_vA_V4SIs :: voperand where "operand_vA_V4SIs \<equiv> vr_operand (vector_operand vA_field V_w Int32 False)"
abbreviation operand_vA_V8HI :: voperand where "operand_vA_V8HI \<equiv> vr_operand (vector_operand vA_field V_h UInt16 False)"
abbreviation operand_vA_V8HI_SAT :: "ctype \<Rightarrow> voperand" where "operand_vA_V8HI_SAT t \<equiv> vr_operand (vector_saturate_operand vA_field V_h t Int32 False)"
abbreviation operand_vA_V8HIm :: voperand where "operand_vA_V8HIm \<equiv> vr_operand (vector_operand vA_field V_h UInt16 True)"
abbreviation operand_vA_V8HIm_SAT :: "ctype \<Rightarrow> voperand" where "operand_vA_V8HIm_SAT t \<equiv> vr_operand (vector_saturate_operand vA_field V_h t Int32 True)"
abbreviation operand_vA_V8HIs :: voperand where "operand_vA_V8HIs \<equiv> vr_operand (vector_operand vA_field V_h Int16 False)"
abbreviation operand_vB_NONE :: voperand where "operand_vB_NONE \<equiv> null_vector_operand"
abbreviation operand_vB_UIMM :: voperand where "operand_vB_UIMM \<equiv> vimm_operand vB_field"
abbreviation operand_vB_V16QI :: voperand where "operand_vB_V16QI \<equiv> vr_operand (vector_operand vB_field V_b UInt8 False)"
abbreviation operand_vB_V16QI_SAT :: "ctype \<Rightarrow> voperand" where "operand_vB_V16QI_SAT t \<equiv> vr_operand (vector_saturate_operand vB_field V_b t Int16 False)"
abbreviation operand_vB_V16QIm :: voperand where "operand_vB_V16QIm \<equiv> vr_operand (vector_operand vB_field V_b UInt8 True)"
abbreviation operand_vB_V16QIm_SAT :: "ctype \<Rightarrow> voperand" where "operand_vB_V16QIm_SAT t \<equiv> vr_operand (vector_saturate_operand vB_field V_b t Int16 True)"
abbreviation operand_vB_V16QIms :: voperand where "operand_vB_V16QIms \<equiv> vr_operand (vector_operand vB_field V_b Int8 True)"
abbreviation operand_vB_V16QIs :: voperand where "operand_vB_V16QIs \<equiv> vr_operand (vector_operand vB_field V_b Int8 False)"
abbreviation operand_vB_V2DI :: voperand where "operand_vB_V2DI \<equiv> vr_operand (vector_operand vB_field V_j UInt64 False)"
abbreviation operand_vB_V4SF :: voperand where "operand_vB_V4SF \<equiv> vr_operand (vector_operand vB_field V_w CFloat False)"
abbreviation operand_vB_V4SI :: voperand where "operand_vB_V4SI \<equiv> vr_operand (vector_operand vB_field V_w UInt32 False)"
abbreviation operand_vB_V4SI_SAT :: "ctype \<Rightarrow> voperand" where "operand_vB_V4SI_SAT t \<equiv> vr_operand (vector_saturate_operand vB_field V_w t Int64 False)"
abbreviation operand_vB_V4SIs :: voperand where "operand_vB_V4SIs \<equiv> vr_operand (vector_operand vB_field V_w Int32 False)"
abbreviation operand_vB_V8HI :: voperand where "operand_vB_V8HI \<equiv> vr_operand (vector_operand vB_field V_h UInt16 False)"
abbreviation operand_vB_V8HI_SAT :: "ctype \<Rightarrow> voperand" where "operand_vB_V8HI_SAT t \<equiv> vr_operand (vector_saturate_operand vB_field V_h t Int32 False)"
abbreviation operand_vB_V8HIm :: voperand where "operand_vB_V8HIm \<equiv> vr_operand (vector_operand vB_field V_h UInt16 True)"
abbreviation operand_vB_V8HIm_SAT :: "ctype \<Rightarrow> voperand" where "operand_vB_V8HIm_SAT t \<equiv> vr_operand (vector_saturate_operand vB_field V_h t Int32 True)"
abbreviation operand_vB_V8HIms :: voperand where "operand_vB_V8HIms \<equiv> vr_operand (vector_operand vB_field V_h Int16 True)"
abbreviation operand_vB_V8HIs :: voperand where "operand_vB_V8HIs \<equiv> vr_operand (vector_operand vB_field V_h Int16 False)"
abbreviation operand_vC_NONE :: voperand where "operand_vC_NONE \<equiv> null_vector_operand"
abbreviation operand_vC_V4SF :: voperand where "operand_vC_V4SF \<equiv> vr_operand (vector_operand vC_field V_w CFloat False)"
abbreviation operand_vC_V4SI :: voperand where "operand_vC_V4SI \<equiv> vr_operand (vector_operand vC_field V_w UInt32 False)"
abbreviation operand_vC_V4SIs :: voperand where "operand_vC_V4SIs \<equiv> vr_operand (vector_operand vC_field V_w Int32 False)"
abbreviation operand_vC_V8HI :: voperand where "operand_vC_V8HI \<equiv> vr_operand (vector_operand vC_field V_h UInt16 False)"
abbreviation operand_vC_V8HI_SAT :: "ctype \<Rightarrow> voperand" where "operand_vC_V8HI_SAT t \<equiv> vr_operand (vector_saturate_operand vC_field V_h t Int32 False)"
abbreviation operand_vD_V16QI :: vr_operand where "operand_vD_V16QI \<equiv> vector_operand vD_field V_b UInt8 False"
abbreviation operand_vD_V16QI_SAT :: "ctype \<Rightarrow> vr_operand" where "operand_vD_V16QI_SAT t \<equiv> vector_saturate_operand vD_field V_b t Int16 False"
abbreviation operand_vD_V16QIm :: vr_operand where "operand_vD_V16QIm \<equiv> vector_operand vD_field V_b UInt8 True"
abbreviation operand_vD_V16QIm_SAT :: "ctype \<Rightarrow> vr_operand" where "operand_vD_V16QIm_SAT t \<equiv> vector_saturate_operand vD_field V_b t Int16 True"
abbreviation operand_vD_V16QIm_USAT :: "ctype \<Rightarrow> vr_operand" where "operand_vD_V16QIm_USAT t \<equiv> vector_saturate_operand vD_field V_b t UInt16 True"
abbreviation operand_vD_V4SF :: vr_operand where "operand_vD_V4SF \<equiv> vector_operand vD_field V_w CFloat False"
abbreviation operand_vD_V4SI :: vr_operand where "operand_vD_V4SI \<equiv> vector_operand vD_field V_w UInt32 False"
abbreviation operand_vD_V4SI_SAT :: "ctype \<Rightarrow> vr_operand" where "operand_vD_V4SI_SAT t \<equiv> vector_saturate_operand vD_field V_w t Int64 False"
abbreviation operand_vD_V4SIs :: vr_operand where "operand_vD_V4SIs \<equiv> vector_operand vD_field V_w Int32 False"
abbreviation operand_vD_V8HI :: vr_operand where "operand_vD_V8HI \<equiv> vector_operand vD_field V_h UInt16 False"
abbreviation operand_vD_V8HI_SAT :: "ctype \<Rightarrow> vr_operand" where "operand_vD_V8HI_SAT t \<equiv> vector_saturate_operand vD_field V_h t Int32 False"
abbreviation operand_vD_V8HIm :: vr_operand where "operand_vD_V8HIm \<equiv> vector_operand vD_field V_h UInt16 True"
abbreviation operand_vD_V8HIm_SAT :: "ctype \<Rightarrow> vr_operand" where "operand_vD_V8HIm_SAT t \<equiv> vector_saturate_operand vD_field V_h t Int32 True"
abbreviation operand_vD_V8HIm_USAT :: "ctype \<Rightarrow> vr_operand" where "operand_vD_V8HIm_USAT t \<equiv> vector_saturate_operand vD_field V_h t UInt32 True"
abbreviation operand_vD_V8HIms :: vr_operand where "operand_vD_V8HIms \<equiv> vector_operand vD_field V_h Int16 True"

section \<open>Handlers\<close>

datatype (plugins only:) execute_pmf =
  pmf_illegal | pmf_nop | pmf_syscall
| pmf_addition operand operand operand opcode_pred opcode_pred opcode_pred
| pmf_generic_arith int_op operand operand operand operand opcode_pred opcode_pred
| pmf_rlwimi operand operand opcode_pred
| pmf_shift op2 operand operand operand op1 opcode_pred opcode_pred
| pmf_branch operand operand operand opcode_pred opcode_pred
| pmf_compare operand compare_type
| pmf_cr_op op2
| pmf_divide bool opcode_pred opcode_pred
| pmf_multiply bool bool opcode_pred opcode_pred
| pmf_loadstore op1 operand operand bool access_size bool bool
| pmf_loadstore_multiple operand operand bool
| pmf_load_string operand bool operand
| pmf_store_string operand bool operand
| pmf_lwarx operand | pmf_stwcx operand
| pmf_icbi operand operand | pmf_isync | pmf_dcbz operand operand
| pmf_mcrf | pmf_mcrfs | pmf_mcrxr | pmf_mtcrf
| pmf_mtfsf operand bit_field opcode_pred
| pmf_mtfsfi operand opcode_pred
| pmf_mtfsb operand opcode_pred
| pmf_mffs opcode_pred | pmf_mfmsr
| pmf_mfspr operand | pmf_mtspr operand | pmf_mftbr operand
| pmf_fp_arith fp_type fp_op fp_operand fp_operand fp_operand fp_operand opcode_pred bool
| pmf_fp_compare bool
| pmf_fp_int_convert operand opcode_pred
| pmf_fp_round opcode_pred
| pmf_fp_loadstore operand operand bool bool bool
| pmf_vector_load_for_shift bool
| pmf_vector_load vr_operand operand operand
| pmf_vector_store vr_operand operand operand
| pmf_vector_arith vop vr_operand voperand voperand voperand opcode_pred bool
| pmf_vector_arith_mixed vop vr_operand voperand voperand voperand
| pmf_vector_arith_odd nat vop vr_operand voperand voperand voperand
| pmf_vector_merge vr_operand voperand voperand nat
| pmf_vector_pack vr_operand voperand voperand
| pmf_vector_unpack nat vr_operand voperand
| pmf_vector_pack_pixel | pmf_vector_unpack_pixel nat
| pmf_vector_shift int
| pmf_vector_shift_octet int vr_operand voperand voperand operand
| pmf_vector_splat op1 vr_operand voperand bool
| pmf_vector_sum nat vr_operand voperand voperand
| pmf_vector_permute | pmf_mfvscr | pmf_mtvscr
| pmf_sheep

primrec call_pmf :: "'h sheep_host_scheme \<Rightarrow> execute_pmf \<Rightarrow> u32 \<Rightarrow> powerpc_cpu \<Rightarrow> result" where
  "call_pmf H pmf_illegal = execute_illegal H"
| "call_pmf H pmf_nop = execute_nop"
| "call_pmf H pmf_syscall = execute_syscall H"
| "call_pmf H (pmf_addition RA RB RC CA OE Rc) = execute_addition RA RB RC CA OE Rc"
| "call_pmf H (pmf_generic_arith OP RD RA RB RC OE Rc) = execute_generic_arith OP RD RA RB RC OE Rc"
| "call_pmf H (pmf_rlwimi SH MA Rc) = execute_rlwimi SH MA Rc"
| "call_pmf H (pmf_shift OP RD RA SH SO CA Rc) = execute_shift OP RD RA SH SO CA Rc"
| "call_pmf H (pmf_branch PC BO DP AA LK) = execute_branch PC BO DP AA LK"
| "call_pmf H (pmf_compare RB CT) = execute_compare RB CT"
| "call_pmf H (pmf_cr_op OP) = execute_cr_op OP"
| "call_pmf H (pmf_divide SB OE Rc) = execute_divide SB OE Rc"
| "call_pmf H (pmf_multiply HI SB OE Rc) = execute_multiply HI SB OE Rc"
| "call_pmf H (pmf_loadstore OP RA RB LD SZ UP RX) = execute_loadstore OP RA RB LD SZ UP RX"
| "call_pmf H (pmf_loadstore_multiple RA DP LD) = execute_loadstore_multiple RA DP LD"
| "call_pmf H (pmf_load_string RA IM NB) = execute_load_string RA IM NB"
| "call_pmf H (pmf_store_string RA IM NB) = execute_store_string RA IM NB"
| "call_pmf H (pmf_lwarx RA) = execute_lwarx RA"
| "call_pmf H (pmf_stwcx RA) = execute_stwcx RA"
| "call_pmf H (pmf_icbi RA RB) = execute_icbi RA RB"
| "call_pmf H pmf_isync = execute_isync"
| "call_pmf H (pmf_dcbz RA RB) = execute_dcbz RA RB"
| "call_pmf H pmf_mcrf = execute_mcrf"
| "call_pmf H pmf_mcrfs = execute_mcrfs"
| "call_pmf H pmf_mcrxr = execute_mcrxr"
| "call_pmf H pmf_mtcrf = execute_mtcrf"
| "call_pmf H (pmf_mtfsf FM RB Rc) = execute_mtfsf FM RB Rc"
| "call_pmf H (pmf_mtfsfi RB Rc) = execute_mtfsfi RB Rc"
| "call_pmf H (pmf_mtfsb RB Rc) = execute_mtfsb RB Rc"
| "call_pmf H (pmf_mffs Rc) = execute_mffs Rc"
| "call_pmf H pmf_mfmsr = execute_mfmsr"
| "call_pmf H (pmf_mfspr SPR) = execute_mfspr H SPR"
| "call_pmf H (pmf_mtspr SPR) = execute_mtspr SPR"
| "call_pmf H (pmf_mftbr TBR) = execute_mftbr H TBR"
| "call_pmf H (pmf_fp_arith FP OP RD RA RB RC Rc FPSCR) = execute_fp_arith H FP OP RD RA RB RC Rc FPSCR"
| "call_pmf H (pmf_fp_compare OC) = execute_fp_compare OC"
| "call_pmf H (pmf_fp_int_convert RN Rc) = execute_fp_int_convert H RN Rc"
| "call_pmf H (pmf_fp_round Rc) = execute_fp_round H Rc"
| "call_pmf H (pmf_fp_loadstore RA RB LD DB UP) = execute_fp_loadstore H RA RB LD DB UP"
| "call_pmf H (pmf_vector_load_for_shift SL) = execute_vector_load_for_shift SL"
| "call_pmf H (pmf_vector_load VD RA RB) = execute_vector_load VD RA RB"
| "call_pmf H (pmf_vector_store VS RA RB) = execute_vector_store VS RA RB"
| "call_pmf H (pmf_vector_arith OP VD VA VB VC Rc C1) = execute_vector_arith H OP VD VA VB VC Rc C1"
| "call_pmf H (pmf_vector_arith_mixed OP VD VA VB VC) = execute_vector_arith_mixed H OP VD VA VB VC"
| "call_pmf H (pmf_vector_arith_odd ODD OP VD VA VB VC) = execute_vector_arith_odd ODD H OP VD VA VB VC"
| "call_pmf H (pmf_vector_merge VD VA VB LO) = execute_vector_merge VD VA VB LO"
| "call_pmf H (pmf_vector_pack VD VA VB) = execute_vector_pack VD VA VB"
| "call_pmf H (pmf_vector_unpack LO VD VA) = execute_vector_unpack LO VD VA"
| "call_pmf H pmf_vector_pack_pixel = execute_vector_pack_pixel"
| "call_pmf H (pmf_vector_unpack_pixel LO) = execute_vector_unpack_pixel LO"
| "call_pmf H (pmf_vector_shift SD) = execute_vector_shift SD"
| "call_pmf H (pmf_vector_shift_octet SD VD VA VB SH) = execute_vector_shift_octet SD VD VA VB SH"
| "call_pmf H (pmf_vector_splat OP VD VB IM) = execute_vector_splat OP VD VB IM"
| "call_pmf H (pmf_vector_sum SZ VD VA VB) = execute_vector_sum SZ VD VA VB"
| "call_pmf H pmf_vector_permute = execute_vector_permute"
| "call_pmf H pmf_mfvscr = execute_mfvscr"
| "call_pmf H pmf_mtvscr = execute_mtvscr"
| "call_pmf H pmf_sheep = execute_sheep H"

section \<open>Instruction information\<close>

datatype instr_format_t =
  INVALID_form | A_form | B_form | D_form | DS_form | I_form | M_form | MD_form | MDS_form | SC_form
| X_form | XFL_form | XFX_form | XL_form | XO_form | XS_form | VX_form | VXR_form | VA_form

definition CFLOW_NORMAL :: u16 where "CFLOW_NORMAL = 0"
definition CFLOW_BRANCH :: u16 where "CFLOW_BRANCH = 1"
definition CFLOW_JUMP :: u16 where "CFLOW_JUMP = 2"
definition CFLOW_TRAP :: u16 where "CFLOW_TRAP = 4"
definition CFLOW_END_BLOCK :: u16 where "CFLOW_END_BLOCK = CFLOW_BRANCH OR CFLOW_JUMP OR CFLOW_TRAP"

datatype (plugins only:) instr_info_t =
  instr_info (ii_name: string) (ii_execute: execute_pmf) (ii_mnemo: string)
    (ii_format: instr_format_t) (ii_opcode: nat) (ii_xo: nat) (ii_cflow: u16)

section \<open>The table\<close>

definition powerpc_ii_table_01 :: "instr_info_t list" where
  "powerpc_ii_table_01 =
  [instr_info ''invalid'' (pmf_illegal) ''INVALID'' INVALID_form 0 0 CFLOW_TRAP,
   instr_info ''add'' (pmf_addition operand_RA operand_RB operand_NONE CA_BIT_0 OE_BIT_G RC_BIT_G) ''ADD'' XO_form 31 266 CFLOW_NORMAL,
   instr_info ''addc'' (pmf_addition operand_RA operand_RB operand_NONE CA_BIT_1 OE_BIT_G RC_BIT_G) ''ADDC'' XO_form 31 10 CFLOW_NORMAL,
   instr_info ''adde'' (pmf_addition operand_RA operand_RB operand_XER_CA CA_BIT_1 OE_BIT_G RC_BIT_G) ''ADDE'' XO_form 31 138 CFLOW_NORMAL,
   instr_info ''addi'' (pmf_addition operand_RA_or_0 operand_SIMM operand_NONE CA_BIT_0 OE_BIT_0 RC_BIT_0) ''ADDI'' D_form 14 0 CFLOW_NORMAL,
   instr_info ''addic'' (pmf_addition operand_RA operand_SIMM operand_NONE CA_BIT_1 OE_BIT_0 RC_BIT_0) ''ADDIC'' D_form 12 0 CFLOW_NORMAL,
   instr_info ''addic.'' (pmf_addition operand_RA operand_SIMM operand_NONE CA_BIT_1 OE_BIT_0 RC_BIT_1) ''ADDIC_'' D_form 13 0 CFLOW_NORMAL,
   instr_info ''addis'' (pmf_addition operand_RA_or_0 operand_SIMM_shifted operand_NONE CA_BIT_0 OE_BIT_0 RC_BIT_0) ''ADDIS'' D_form 15 0 CFLOW_NORMAL,
   instr_info ''addme'' (pmf_addition operand_RA operand_MINUS_ONE operand_XER_CA CA_BIT_1 OE_BIT_G RC_BIT_G) ''ADDME'' XO_form 31 234 CFLOW_NORMAL,
   instr_info ''addze'' (pmf_addition operand_RA operand_ZERO operand_XER_CA CA_BIT_1 OE_BIT_G RC_BIT_G) ''ADDZE'' XO_form 31 202 CFLOW_NORMAL,
   instr_info ''and'' (pmf_generic_arith (OP2 op_and) operand_RA operand_RS operand_RB operand_NONE OE_BIT_0 RC_BIT_G) ''AND'' X_form 31 28 CFLOW_NORMAL,
   instr_info ''andc'' (pmf_generic_arith (OP2 op_andc) operand_RA operand_RS operand_RB operand_NONE OE_BIT_0 RC_BIT_G) ''ANDC'' X_form 31 60 CFLOW_NORMAL,
   instr_info ''andi.'' (pmf_generic_arith (OP2 op_and) operand_RA operand_RS operand_UIMM operand_NONE OE_BIT_0 RC_BIT_1) ''ANDI'' D_form 28 0 CFLOW_NORMAL,
   instr_info ''andis.'' (pmf_generic_arith (OP2 op_and) operand_RA operand_RS operand_UIMM_shifted operand_NONE OE_BIT_0 RC_BIT_1) ''ANDIS'' D_form 29 0 CFLOW_NORMAL,
   instr_info ''b'' (pmf_branch operand_PC (immediate_value (uint (BO_MAKE False False False False))) operand_LI AA_BIT_G LK_BIT_G) ''B'' I_form 18 0 CFLOW_BRANCH,
   instr_info ''bc'' (pmf_branch operand_PC operand_BO operand_BD AA_BIT_G LK_BIT_G) ''BC'' B_form 16 0 CFLOW_BRANCH,
   instr_info ''bcctr'' (pmf_branch operand_CTR operand_BO operand_ZERO AA_BIT_0 LK_BIT_G) ''BCCTR'' XL_form 19 528 CFLOW_BRANCH,
   instr_info ''bclr'' (pmf_branch operand_LR operand_BO operand_ZERO AA_BIT_0 LK_BIT_G) ''BCLR'' XL_form 19 16 CFLOW_BRANCH,
   instr_info ''cmp'' (pmf_compare operand_RB CT_int32) ''CMP'' X_form 31 0 CFLOW_NORMAL,
   instr_info ''cmpi'' (pmf_compare operand_SIMM CT_int32) ''CMPI'' D_form 11 0 CFLOW_NORMAL,
   instr_info ''cmpl'' (pmf_compare operand_RB CT_uint32) ''CMPL'' X_form 31 32 CFLOW_NORMAL,
   instr_info ''cmpli'' (pmf_compare operand_UIMM CT_uint32) ''CMPLI'' D_form 10 0 CFLOW_NORMAL,
   instr_info ''cntlzw'' (pmf_generic_arith (OP1 op_cntlzw) operand_RA operand_RS operand_NONE operand_NONE OE_BIT_0 RC_BIT_G) ''CNTLZW'' X_form 31 26 CFLOW_NORMAL,
   instr_info ''crand'' (pmf_cr_op op_and) ''CRAND'' XL_form 19 257 CFLOW_NORMAL,
   instr_info ''crandc'' (pmf_cr_op op_andc) ''CRANDC'' XL_form 19 129 CFLOW_NORMAL,
   instr_info ''creqv'' (pmf_cr_op op_eqv) ''CREQV'' XL_form 19 289 CFLOW_NORMAL,
   instr_info ''crnand'' (pmf_cr_op op_nand) ''CRNAND'' XL_form 19 225 CFLOW_NORMAL,
   instr_info ''crnor'' (pmf_cr_op op_nor) ''CRNOR'' XL_form 19 33 CFLOW_NORMAL,
   instr_info ''cror'' (pmf_cr_op op_or) ''CROR'' XL_form 19 449 CFLOW_NORMAL,
   instr_info ''crorc'' (pmf_cr_op op_orc) ''CRORC'' XL_form 19 417 CFLOW_NORMAL]"

definition powerpc_ii_table_02 :: "instr_info_t list" where
  "powerpc_ii_table_02 =
  [instr_info ''crxor'' (pmf_cr_op op_xor) ''CRXOR'' XL_form 19 193 CFLOW_NORMAL,
   instr_info ''dcba'' (pmf_nop) ''DCBA'' X_form 31 758 CFLOW_NORMAL,
   instr_info ''dcbf'' (pmf_nop) ''DCBF'' X_form 31 86 CFLOW_NORMAL,
   instr_info ''dcbi'' (pmf_nop) ''DCBI'' X_form 31 470 CFLOW_NORMAL,
   instr_info ''dcbst'' (pmf_nop) ''DCBST'' X_form 31 54 CFLOW_NORMAL,
   instr_info ''dcbt'' (pmf_nop) ''DCBT'' X_form 31 278 CFLOW_NORMAL,
   instr_info ''dcbtst'' (pmf_nop) ''DCBTST'' X_form 31 246 CFLOW_NORMAL,
   instr_info ''dcbz'' (pmf_dcbz operand_RA_or_0 operand_RB) ''DCBZ'' X_form 31 1014 CFLOW_NORMAL,
   instr_info ''divw'' (pmf_divide True OE_BIT_G RC_BIT_G) ''DIVW'' XO_form 31 491 CFLOW_NORMAL,
   instr_info ''divwu'' (pmf_divide False OE_BIT_G RC_BIT_G) ''DIVWU'' XO_form 31 459 CFLOW_NORMAL,
   instr_info ''dss'' (pmf_nop) ''DSS'' X_form 31 822 CFLOW_NORMAL,
   instr_info ''dst'' (pmf_nop) ''DST'' X_form 31 342 CFLOW_NORMAL,
   instr_info ''dstst'' (pmf_nop) ''DST'' X_form 31 374 CFLOW_NORMAL,
   instr_info ''eciwx'' (pmf_nop) ''ECIWX'' X_form 31 310 CFLOW_NORMAL,
   instr_info ''ecowx'' (pmf_nop) ''ECOWX'' X_form 31 438 CFLOW_NORMAL,
   instr_info ''eieio'' (pmf_nop) ''EIEIO'' X_form 31 854 CFLOW_NORMAL,
   instr_info ''eqv'' (pmf_generic_arith (OP2 op_eqv) operand_RA operand_RS operand_RB operand_NONE OE_BIT_0 RC_BIT_G) ''EQV'' X_form 31 284 CFLOW_NORMAL,
   instr_info ''extsb'' (pmf_generic_arith (OP1 op_sign_extend_8_32) operand_RA operand_RS operand_NONE operand_NONE OE_BIT_0 RC_BIT_G) ''EXTSB'' X_form 31 954 CFLOW_NORMAL,
   instr_info ''extsh'' (pmf_generic_arith (OP1 op_sign_extend_16_32) operand_RA operand_RS operand_NONE operand_NONE OE_BIT_0 RC_BIT_G) ''EXTSH'' X_form 31 922 CFLOW_NORMAL,
   instr_info ''fabs'' (pmf_fp_arith FP_double (FOP1 op_fabs) operand_fp_RD operand_fp_RB operand_fp_NONE operand_fp_NONE RC_BIT_G False) ''FABS'' X_form 63 264 CFLOW_NORMAL,
   instr_info ''fadd'' (pmf_fp_arith FP_double (FOP2 op_fadd) operand_fp_RD operand_fp_RA operand_fp_RB operand_fp_NONE RC_BIT_G True) ''FADD'' A_form 63 21 CFLOW_NORMAL,
   instr_info ''fadds'' (pmf_fp_arith FP_float (FOP2 op_fadd) operand_fp_RD operand_fp_RA operand_fp_RB operand_fp_NONE RC_BIT_G True) ''FADDS'' A_form 59 21 CFLOW_NORMAL,
   instr_info ''fcmpo'' (pmf_fp_compare True) ''FCMPO'' X_form 63 32 CFLOW_NORMAL,
   instr_info ''fcmpu'' (pmf_fp_compare False) ''FCMPU'' X_form 63 0 CFLOW_NORMAL,
   instr_info ''fctiw'' (pmf_fp_int_convert operand_FPSCR_RN RC_BIT_G) ''FCTIW'' X_form 63 14 CFLOW_NORMAL,
   instr_info ''fctiwz'' (pmf_fp_int_convert operand_ONE RC_BIT_G) ''FCTIWZ'' X_form 63 15 CFLOW_NORMAL,
   instr_info ''fdiv'' (pmf_fp_arith FP_double (FOP2 op_fdiv) operand_fp_RD operand_fp_RA operand_fp_RB operand_fp_NONE RC_BIT_G True) ''FDIV'' A_form 63 18 CFLOW_NORMAL,
   instr_info ''fdivs'' (pmf_fp_arith FP_float (FOP2 op_fdiv) operand_fp_RD operand_fp_RA operand_fp_RB operand_fp_NONE RC_BIT_G True) ''FDIVS'' A_form 59 18 CFLOW_NORMAL,
   instr_info ''fmadd'' (pmf_fp_arith FP_double (FOP3 op_fmadd) operand_fp_RD operand_fp_RA operand_fp_RC operand_fp_RB RC_BIT_G True) ''FMADD'' A_form 63 29 CFLOW_NORMAL,
   instr_info ''fmadds'' (pmf_fp_arith FP_float (FOP3 op_fmadd) operand_fp_RD operand_fp_RA operand_fp_RC operand_fp_RB RC_BIT_G True) ''FMADDS'' A_form 59 29 CFLOW_NORMAL]"

definition powerpc_ii_table_03 :: "instr_info_t list" where
  "powerpc_ii_table_03 =
  [instr_info ''fmr'' (pmf_fp_arith FP_double (FOP1 op_fnop) operand_fp_RD operand_fp_RB operand_fp_NONE operand_fp_NONE RC_BIT_G False) ''FMR'' X_form 63 72 CFLOW_NORMAL,
   instr_info ''fmsub'' (pmf_fp_arith FP_double (FOP3 op_fmsub) operand_fp_RD operand_fp_RA operand_fp_RC operand_fp_RB RC_BIT_G True) ''FMSUB'' A_form 63 28 CFLOW_NORMAL,
   instr_info ''fmsubs'' (pmf_fp_arith FP_float (FOP3 op_fmsub) operand_fp_RD operand_fp_RA operand_fp_RC operand_fp_RB RC_BIT_G True) ''FMSUBS'' A_form 59 28 CFLOW_NORMAL,
   instr_info ''fmul'' (pmf_fp_arith FP_double (FOP2 op_fmul) operand_fp_RD operand_fp_RA operand_fp_RC operand_fp_NONE RC_BIT_G True) ''FMUL'' A_form 63 25 CFLOW_NORMAL,
   instr_info ''fmuls'' (pmf_fp_arith FP_float (FOP2 op_fmul) operand_fp_RD operand_fp_RA operand_fp_RC operand_fp_NONE RC_BIT_G True) ''FMULS'' A_form 59 25 CFLOW_NORMAL,
   instr_info ''fnabs'' (pmf_fp_arith FP_double (FOP1 op_fnabs) operand_fp_RD operand_fp_RB operand_fp_NONE operand_fp_NONE RC_BIT_G False) ''FNABS'' X_form 63 136 CFLOW_NORMAL,
   instr_info ''fneg'' (pmf_fp_arith FP_double (FOP1 op_fneg) operand_fp_RD operand_fp_RB operand_fp_NONE operand_fp_NONE RC_BIT_G False) ''FNEG'' X_form 63 40 CFLOW_NORMAL,
   instr_info ''fnmadd'' (pmf_fp_arith FP_double (FOP3 op_fnmadd) operand_fp_RD operand_fp_RA operand_fp_RC operand_fp_RB RC_BIT_G True) ''FNMADD'' A_form 63 31 CFLOW_NORMAL,
   instr_info ''fnmadds'' (pmf_fp_arith FP_double (FOP3 op_fnmadds) operand_fp_RD operand_fp_RA operand_fp_RC operand_fp_RB RC_BIT_G True) ''FNMADDS'' A_form 59 31 CFLOW_NORMAL,
   instr_info ''fnmsub'' (pmf_fp_arith FP_double (FOP3 op_fnmsub) operand_fp_RD operand_fp_RA operand_fp_RC operand_fp_RB RC_BIT_G True) ''FNMSUB'' A_form 63 30 CFLOW_NORMAL,
   instr_info ''fnmsubs'' (pmf_fp_arith FP_double (FOP3 op_fnmsubs) operand_fp_RD operand_fp_RA operand_fp_RC operand_fp_RB RC_BIT_G True) ''FNMSUBS'' A_form 59 30 CFLOW_NORMAL,
   instr_info ''frsp'' (pmf_fp_round RC_BIT_G) ''FRSP'' X_form 63 12 CFLOW_NORMAL,
   instr_info ''fsel'' (pmf_fp_arith FP_double (FOP3 op_fsel) operand_fp_RD operand_fp_RA operand_fp_RC operand_fp_RB RC_BIT_G False) ''FSEL'' A_form 63 23 CFLOW_NORMAL,
   instr_info ''fsub'' (pmf_fp_arith FP_double (FOP2 op_fsub) operand_fp_RD operand_fp_RA operand_fp_RB operand_fp_NONE RC_BIT_G True) ''FSUB'' A_form 63 20 CFLOW_NORMAL,
   instr_info ''fsubs'' (pmf_fp_arith FP_float (FOP2 op_fsub) operand_fp_RD operand_fp_RA operand_fp_RB operand_fp_NONE RC_BIT_G True) ''FSUBS'' A_form 59 20 CFLOW_NORMAL,
   instr_info ''icbi'' (pmf_icbi operand_RA_or_0 operand_RB) ''ICBI'' X_form 31 982 CFLOW_NORMAL,
   instr_info ''isync'' (pmf_isync) ''ISYNC'' X_form 19 150 CFLOW_NORMAL,
   instr_info ''lbz'' (pmf_loadstore op_nop operand_RA_or_0 operand_D True Size1 False False) ''LBZ'' D_form 34 0 CFLOW_NORMAL,
   instr_info ''lbzu'' (pmf_loadstore op_nop operand_RA operand_D True Size1 True False) ''LBZU'' D_form 35 0 CFLOW_NORMAL,
   instr_info ''lbzux'' (pmf_loadstore op_nop operand_RA operand_RB True Size1 True False) ''LBZUX'' X_form 31 119 CFLOW_NORMAL,
   instr_info ''lbzx'' (pmf_loadstore op_nop operand_RA_or_0 operand_RB True Size1 False False) ''LBZX'' X_form 31 87 CFLOW_NORMAL,
   instr_info ''lfd'' (pmf_fp_loadstore operand_RA_or_0 operand_D True True False) ''LFD'' D_form 50 0 CFLOW_NORMAL,
   instr_info ''lfdu'' (pmf_fp_loadstore operand_RA operand_D True True True) ''LFDU'' D_form 51 0 CFLOW_NORMAL,
   instr_info ''lfdux'' (pmf_fp_loadstore operand_RA operand_RB True True True) ''LFDUX'' X_form 31 631 CFLOW_NORMAL,
   instr_info ''lfdx'' (pmf_fp_loadstore operand_RA_or_0 operand_RB True True False) ''LFDX'' X_form 31 599 CFLOW_NORMAL,
   instr_info ''lfs'' (pmf_fp_loadstore operand_RA_or_0 operand_D True False False) ''LFS'' D_form 48 0 CFLOW_NORMAL,
   instr_info ''lfsu'' (pmf_fp_loadstore operand_RA operand_D True False True) ''LFSU'' D_form 49 0 CFLOW_NORMAL,
   instr_info ''lfsux'' (pmf_fp_loadstore operand_RA operand_RB True False True) ''LFSUX'' X_form 31 567 CFLOW_NORMAL,
   instr_info ''lfsx'' (pmf_fp_loadstore operand_RA_or_0 operand_RB True False False) ''LFSX'' X_form 31 535 CFLOW_NORMAL,
   instr_info ''lha'' (pmf_loadstore op_sign_extend_16_32 operand_RA_or_0 operand_D True Size2 False False) ''LHA'' D_form 42 0 CFLOW_NORMAL]"

definition powerpc_ii_table_04 :: "instr_info_t list" where
  "powerpc_ii_table_04 =
  [instr_info ''lhau'' (pmf_loadstore op_sign_extend_16_32 operand_RA operand_D True Size2 True False) ''LHAU'' D_form 43 0 CFLOW_NORMAL,
   instr_info ''lhaux'' (pmf_loadstore op_sign_extend_16_32 operand_RA operand_RB True Size2 True False) ''LHAUX'' X_form 31 375 CFLOW_NORMAL,
   instr_info ''lhax'' (pmf_loadstore op_sign_extend_16_32 operand_RA_or_0 operand_RB True Size2 False False) ''LHAX'' X_form 31 343 CFLOW_NORMAL,
   instr_info ''lhbrx'' (pmf_loadstore op_nop operand_RA_or_0 operand_RB True Size2 False True) ''LHBRX'' X_form 31 790 CFLOW_NORMAL,
   instr_info ''lhz'' (pmf_loadstore op_nop operand_RA_or_0 operand_D True Size2 False False) ''LHZ'' D_form 40 0 CFLOW_NORMAL,
   instr_info ''lhzu'' (pmf_loadstore op_nop operand_RA operand_D True Size2 True False) ''LHZU'' D_form 41 0 CFLOW_NORMAL,
   instr_info ''lhzux'' (pmf_loadstore op_nop operand_RA operand_RB True Size2 True False) ''LHZUX'' X_form 31 311 CFLOW_NORMAL,
   instr_info ''lhzx'' (pmf_loadstore op_nop operand_RA_or_0 operand_RB True Size2 False False) ''LHZX'' X_form 31 279 CFLOW_NORMAL,
   instr_info ''lmw'' (pmf_loadstore_multiple operand_RA_or_0 operand_D True) ''LMW'' D_form 46 0 CFLOW_NORMAL,
   instr_info ''lswi'' (pmf_load_string operand_RA_or_0 True operand_NB) ''LSWI'' X_form 31 597 CFLOW_NORMAL,
   instr_info ''lswx'' (pmf_load_string operand_RA_or_0 False operand_XER_COUNT) ''LSWX'' X_form 31 533 CFLOW_NORMAL,
   instr_info ''lvebx'' (pmf_vector_load operand_vD_V16QIm operand_RA_or_0 operand_RB) ''LVEBX'' X_form 31 7 CFLOW_NORMAL,
   instr_info ''lvehx'' (pmf_vector_load operand_vD_V8HIm operand_RA_or_0 operand_RB) ''LVEHX'' X_form 31 39 CFLOW_NORMAL,
   instr_info ''lvewx'' (pmf_vector_load operand_vD_V4SI operand_RA_or_0 operand_RB) ''LVEWX'' X_form 31 71 CFLOW_NORMAL,
   instr_info ''lvsl'' (pmf_vector_load_for_shift True) ''LVSL'' X_form 31 6 CFLOW_NORMAL,
   instr_info ''lvsr'' (pmf_vector_load_for_shift False) ''LVSR'' X_form 31 38 CFLOW_NORMAL,
   instr_info ''lvx'' (pmf_vector_load operand_vD_V2DI operand_RA_or_0 operand_RB) ''LVX'' X_form 31 103 CFLOW_NORMAL,
   instr_info ''lvxl'' (pmf_vector_load operand_vD_V2DI operand_RA_or_0 operand_RB) ''LVXL'' X_form 31 359 CFLOW_NORMAL,
   instr_info ''lwarx'' (pmf_lwarx operand_RA_or_0) ''LWARX'' X_form 31 20 CFLOW_NORMAL,
   instr_info ''lwbrx'' (pmf_loadstore op_nop operand_RA_or_0 operand_RB True Size4 False True) ''LWBRX'' X_form 31 534 CFLOW_NORMAL,
   instr_info ''lwz'' (pmf_loadstore op_nop operand_RA_or_0 operand_D True Size4 False False) ''LWZ'' D_form 32 0 CFLOW_NORMAL,
   instr_info ''lwzu'' (pmf_loadstore op_nop operand_RA operand_D True Size4 True False) ''LWZU'' D_form 33 0 CFLOW_NORMAL,
   instr_info ''lwzux'' (pmf_loadstore op_nop operand_RA operand_RB True Size4 True False) ''LWZUX'' X_form 31 55 CFLOW_NORMAL,
   instr_info ''lwzx'' (pmf_loadstore op_nop operand_RA_or_0 operand_RB True Size4 False False) ''LWZX'' X_form 31 23 CFLOW_NORMAL,
   instr_info ''mcrf'' (pmf_mcrf) ''MCRF'' XL_form 19 0 CFLOW_NORMAL,
   instr_info ''mcrfs'' (pmf_mcrfs) ''MCRFS'' X_form 63 64 CFLOW_NORMAL,
   instr_info ''mcrxr'' (pmf_mcrxr) ''MCRXR'' X_form 31 512 CFLOW_NORMAL,
   instr_info ''mfcr'' (pmf_generic_arith (OP1 op_nop) operand_RD operand_CR operand_NONE operand_NONE OE_BIT_0 RC_BIT_0) ''MFCR'' X_form 31 19 CFLOW_NORMAL,
   instr_info ''mffs'' (pmf_mffs RC_BIT_G) ''MFFS'' X_form 63 583 CFLOW_NORMAL,
   instr_info ''mfmsr'' (pmf_mfmsr) ''MFMSR'' X_form 31 83 CFLOW_NORMAL]"

definition powerpc_ii_table_05 :: "instr_info_t list" where
  "powerpc_ii_table_05 =
  [instr_info ''mfspr'' (pmf_mfspr operand_SPR) ''MFSPR'' XFX_form 31 339 CFLOW_NORMAL,
   instr_info ''mftb'' (pmf_mftbr operand_TBR) ''MFTB'' XFX_form 31 371 CFLOW_NORMAL,
   instr_info ''mfvscr'' (pmf_mfvscr) ''MFVSCR'' VX_form 4 1540 CFLOW_NORMAL,
   instr_info ''mtcrf'' (pmf_mtcrf) ''MTCRF'' XFX_form 31 144 CFLOW_NORMAL,
   instr_info ''mtfsb0'' (pmf_mtfsb (immediate_value 0) RC_BIT_G) ''MTFSB0'' X_form 63 70 CFLOW_NORMAL,
   instr_info ''mtfsb1'' (pmf_mtfsb (immediate_value 1) RC_BIT_G) ''MTFSB1'' X_form 63 38 CFLOW_NORMAL,
   instr_info ''mtfsf'' (pmf_mtfsf operand_FM frB_field RC_BIT_G) ''MTFSF'' XFL_form 63 711 CFLOW_NORMAL,
   instr_info ''mtfsfi'' (pmf_mtfsfi operand_IMM RC_BIT_G) ''MTFSFI'' X_form 63 134 CFLOW_NORMAL,
   instr_info ''mtspr'' (pmf_mtspr operand_SPR) ''MTSPR'' XFX_form 31 467 CFLOW_NORMAL,
   instr_info ''mtvscr'' (pmf_mtvscr) ''MTVSCR'' VX_form 4 1604 CFLOW_NORMAL,
   instr_info ''mulhw'' (pmf_multiply True True OE_BIT_0 RC_BIT_G) ''MULHW'' XO_form 31 75 CFLOW_NORMAL,
   instr_info ''mulhwu'' (pmf_multiply True False OE_BIT_0 RC_BIT_G) ''MULHWU'' XO_form 31 11 CFLOW_NORMAL,
   instr_info ''mulli'' (pmf_generic_arith (OP2 op_smul) operand_RD operand_RA operand_SIMM operand_NONE OE_BIT_0 RC_BIT_0) ''MULLI'' D_form 7 0 CFLOW_NORMAL,
   instr_info ''mullw'' (pmf_multiply False True OE_BIT_G RC_BIT_G) ''MULLW'' XO_form 31 235 CFLOW_NORMAL,
   instr_info ''nand'' (pmf_generic_arith (OP2 op_nand) operand_RA operand_RS operand_RB operand_NONE OE_BIT_0 RC_BIT_G) ''NAND'' X_form 31 476 CFLOW_NORMAL,
   instr_info ''neg'' (pmf_generic_arith (OP1 op_neg) operand_RD operand_RA operand_NONE operand_NONE OE_BIT_G RC_BIT_G) ''NEG'' XO_form 31 104 CFLOW_NORMAL,
   instr_info ''nor'' (pmf_generic_arith (OP2 op_nor) operand_RA operand_RS operand_RB operand_NONE OE_BIT_0 RC_BIT_G) ''NOR'' XO_form 31 124 CFLOW_NORMAL,
   instr_info ''or'' (pmf_generic_arith (OP2 op_or) operand_RA operand_RS operand_RB operand_NONE OE_BIT_0 RC_BIT_G) ''OR'' XO_form 31 444 CFLOW_NORMAL,
   instr_info ''orc'' (pmf_generic_arith (OP2 op_orc) operand_RA operand_RS operand_RB operand_NONE OE_BIT_0 RC_BIT_G) ''ORC'' XO_form 31 412 CFLOW_NORMAL,
   instr_info ''ori'' (pmf_generic_arith (OP2 op_or) operand_RA operand_RS operand_UIMM operand_NONE OE_BIT_0 RC_BIT_0) ''ORI'' D_form 24 0 CFLOW_NORMAL,
   instr_info ''oris'' (pmf_generic_arith (OP2 op_or) operand_RA operand_RS operand_UIMM_shifted operand_NONE OE_BIT_0 RC_BIT_0) ''ORIS'' D_form 25 0 CFLOW_NORMAL,
   instr_info ''rlwimi'' (pmf_rlwimi operand_SH operand_MASK RC_BIT_G) ''RLWIMI'' M_form 20 0 CFLOW_NORMAL,
   instr_info ''rlwinm'' (pmf_generic_arith (OP3 op_ppc_rlwinm) operand_RA operand_RS operand_SH operand_MASK OE_BIT_0 RC_BIT_G) ''RLWINM'' M_form 21 0 CFLOW_NORMAL,
   instr_info ''rlwnm'' (pmf_generic_arith (OP3 op_ppc_rlwnm) operand_RA operand_RS operand_RB operand_MASK OE_BIT_0 RC_BIT_G) ''RLWNM'' M_form 23 0 CFLOW_NORMAL,
   instr_info ''sc'' (pmf_syscall) ''SC'' SC_form 17 0 CFLOW_NORMAL,
   instr_info ''slw'' (pmf_shift op_shll operand_RA operand_RS operand_RB (op_andi 0x3f) CA_BIT_0 RC_BIT_G) ''SLW'' X_form 31 24 CFLOW_NORMAL,
   instr_info ''sraw'' (pmf_shift op_shra operand_RA operand_RS operand_RB (op_andi 0x3f) CA_BIT_1 RC_BIT_G) ''SRAW'' X_form 31 792 CFLOW_NORMAL,
   instr_info ''srawi'' (pmf_shift op_shra operand_RA operand_RS operand_SH (op_andi 0x1f) CA_BIT_1 RC_BIT_G) ''SRAWI'' X_form 31 824 CFLOW_NORMAL,
   instr_info ''srw'' (pmf_shift op_shrl operand_RA operand_RS operand_RB (op_andi 0x3f) CA_BIT_0 RC_BIT_G) ''SRW'' X_form 31 536 CFLOW_NORMAL,
   instr_info ''stb'' (pmf_loadstore op_nop operand_RA_or_0 operand_D False Size1 False False) ''STB'' D_form 38 0 CFLOW_NORMAL]"

definition powerpc_ii_table_06 :: "instr_info_t list" where
  "powerpc_ii_table_06 =
  [instr_info ''stbu'' (pmf_loadstore op_nop operand_RA operand_D False Size1 True False) ''STBU'' D_form 39 0 CFLOW_NORMAL,
   instr_info ''stbux'' (pmf_loadstore op_nop operand_RA operand_RB False Size1 True False) ''STBUX'' X_form 31 247 CFLOW_NORMAL,
   instr_info ''stbx'' (pmf_loadstore op_nop operand_RA_or_0 operand_RB False Size1 False False) ''STBX'' X_form 31 215 CFLOW_NORMAL,
   instr_info ''stfd'' (pmf_fp_loadstore operand_RA_or_0 operand_D False True False) ''STFD'' D_form 54 0 CFLOW_NORMAL,
   instr_info ''stfdu'' (pmf_fp_loadstore operand_RA operand_D False True True) ''STFDU'' D_form 55 0 CFLOW_NORMAL,
   instr_info ''stfdux'' (pmf_fp_loadstore operand_RA operand_RB False True True) ''STFDUX'' X_form 31 759 CFLOW_NORMAL,
   instr_info ''stfdx'' (pmf_fp_loadstore operand_RA_or_0 operand_RB False True False) ''STFDX'' X_form 31 727 CFLOW_NORMAL,
   instr_info ''stfs'' (pmf_fp_loadstore operand_RA_or_0 operand_D False False False) ''STFS'' D_form 52 0 CFLOW_NORMAL,
   instr_info ''stfsu'' (pmf_fp_loadstore operand_RA operand_D False False True) ''STFSU'' D_form 53 0 CFLOW_NORMAL,
   instr_info ''stfsux'' (pmf_fp_loadstore operand_RA operand_RB False False True) ''STFSUX'' X_form 31 695 CFLOW_NORMAL,
   instr_info ''stfsx'' (pmf_fp_loadstore operand_RA_or_0 operand_RB False False False) ''STFSX'' X_form 31 663 CFLOW_NORMAL,
   instr_info ''sth'' (pmf_loadstore op_nop operand_RA_or_0 operand_D False Size2 False False) ''STH'' D_form 44 0 CFLOW_NORMAL,
   instr_info ''sthbrx'' (pmf_loadstore op_nop operand_RA_or_0 operand_RB False Size2 False True) ''STHBRX'' X_form 31 918 CFLOW_NORMAL,
   instr_info ''sthu'' (pmf_loadstore op_nop operand_RA operand_D False Size2 True False) ''STHU'' D_form 45 0 CFLOW_NORMAL,
   instr_info ''sthux'' (pmf_loadstore op_nop operand_RA operand_RB False Size2 True False) ''STHUX'' X_form 31 439 CFLOW_NORMAL,
   instr_info ''sthx'' (pmf_loadstore op_nop operand_RA_or_0 operand_RB False Size2 False False) ''STHX'' X_form 31 407 CFLOW_NORMAL,
   instr_info ''stmw'' (pmf_loadstore_multiple operand_RA_or_0 operand_D False) ''STMW'' D_form 47 0 CFLOW_NORMAL,
   instr_info ''stswi'' (pmf_store_string operand_RA_or_0 True operand_NB) ''STSWI'' X_form 31 725 CFLOW_NORMAL,
   instr_info ''stswx'' (pmf_store_string operand_RA_or_0 False operand_XER_COUNT) ''STSWX'' X_form 31 661 CFLOW_NORMAL,
   instr_info ''stvebx'' (pmf_vector_store operand_vD_V16QIm operand_RA_or_0 operand_RB) ''STVEBX'' X_form 31 135 CFLOW_NORMAL,
   instr_info ''stvehx'' (pmf_vector_store operand_vD_V8HIm operand_RA_or_0 operand_RB) ''STVEHX'' X_form 31 167 CFLOW_NORMAL,
   instr_info ''stvewx'' (pmf_vector_store operand_vD_V4SI operand_RA_or_0 operand_RB) ''STVEWX'' X_form 31 199 CFLOW_NORMAL,
   instr_info ''stvx'' (pmf_vector_store operand_vD_V2DI operand_RA_or_0 operand_RB) ''STVX'' X_form 31 231 CFLOW_NORMAL,
   instr_info ''stvxl'' (pmf_vector_store operand_vD_V2DI operand_RA_or_0 operand_RB) ''STVXL'' X_form 31 487 CFLOW_NORMAL,
   instr_info ''stw'' (pmf_loadstore op_nop operand_RA_or_0 operand_D False Size4 False False) ''STW'' D_form 36 0 CFLOW_NORMAL,
   instr_info ''stwbrx'' (pmf_loadstore op_nop operand_RA_or_0 operand_RB False Size4 False True) ''STWBRX'' X_form 31 662 CFLOW_NORMAL,
   instr_info ''stwcx.'' (pmf_stwcx operand_RA_or_0) ''STWCX'' X_form 31 150 CFLOW_NORMAL,
   instr_info ''stwu'' (pmf_loadstore op_nop operand_RA operand_D False Size4 True False) ''STWU'' D_form 37 0 CFLOW_NORMAL,
   instr_info ''stwux'' (pmf_loadstore op_nop operand_RA operand_RB False Size4 True False) ''STWUX'' X_form 31 183 CFLOW_NORMAL,
   instr_info ''stwx'' (pmf_loadstore op_nop operand_RA_or_0 operand_RB False Size4 False False) ''STWX'' X_form 31 151 CFLOW_NORMAL]"

definition powerpc_ii_table_07 :: "instr_info_t list" where
  "powerpc_ii_table_07 =
  [instr_info ''subf'' (pmf_addition operand_RA_compl operand_RB operand_ONE CA_BIT_0 OE_BIT_G RC_BIT_G) ''SUBF'' XO_form 31 40 CFLOW_NORMAL,
   instr_info ''subfc'' (pmf_addition operand_RA_compl operand_RB operand_ONE CA_BIT_1 OE_BIT_G RC_BIT_G) ''SUBFC'' XO_form 31 8 CFLOW_NORMAL,
   instr_info ''subfe'' (pmf_addition operand_RA_compl operand_RB operand_XER_CA CA_BIT_1 OE_BIT_G RC_BIT_G) ''SUBFE'' XO_form 31 136 CFLOW_NORMAL,
   instr_info ''subfic'' (pmf_addition operand_RA_compl operand_SIMM operand_ONE CA_BIT_1 OE_BIT_0 RC_BIT_0) ''SUBFIC'' D_form 8 0 CFLOW_NORMAL,
   instr_info ''subfme'' (pmf_addition operand_RA_compl operand_XER_CA operand_MINUS_ONE CA_BIT_1 OE_BIT_G RC_BIT_G) ''SUBFME'' XO_form 31 232 CFLOW_NORMAL,
   instr_info ''subfze'' (pmf_addition operand_RA_compl operand_XER_CA operand_ZERO CA_BIT_1 OE_BIT_G RC_BIT_G) ''SUBFZE'' XO_form 31 200 CFLOW_NORMAL,
   instr_info ''sync'' (pmf_nop) ''SYNC'' X_form 31 598 CFLOW_NORMAL,
   instr_info ''xor'' (pmf_generic_arith (OP2 op_xor) operand_RA operand_RS operand_RB operand_NONE OE_BIT_0 RC_BIT_G) ''XOR'' X_form 31 316 CFLOW_NORMAL,
   instr_info ''xori'' (pmf_generic_arith (OP2 op_xor) operand_RA operand_RS operand_UIMM operand_NONE OE_BIT_0 RC_BIT_0) ''XORI'' D_form 26 0 CFLOW_NORMAL,
   instr_info ''xoris'' (pmf_generic_arith (OP2 op_xor) operand_RA operand_RS operand_UIMM_shifted operand_NONE OE_BIT_0 RC_BIT_0) ''XORIS'' D_form 27 0 CFLOW_NORMAL,
   instr_info ''vaddcuw'' (pmf_vector_arith (VOP2 op_addcuw) operand_vD_V4SI operand_vA_V4SI operand_vB_V4SI operand_vC_NONE (Fake_field False) False) ''VADDCUW'' VX_form 4 384 CFLOW_NORMAL,
   instr_info ''vaddfp'' (pmf_vector_arith (VOP2 op_fadds) operand_vD_V4SF operand_vA_V4SF operand_vB_V4SF operand_vC_NONE (Fake_field False) False) ''VADDFP'' VX_form 4 10 CFLOW_NORMAL,
   instr_info ''vaddsbs'' (pmf_vector_arith (VOP2 vop_add) (operand_vD_V16QI_SAT Int8) (operand_vA_V16QI_SAT Int8) (operand_vB_V16QI_SAT Int8) operand_vC_NONE (Fake_field False) False) ''VADDSBS'' VX_form 4 768 CFLOW_NORMAL,
   instr_info ''vaddshs'' (pmf_vector_arith (VOP2 vop_add) (operand_vD_V8HI_SAT Int16) (operand_vA_V8HI_SAT Int16) (operand_vB_V8HI_SAT Int16) operand_vC_NONE (Fake_field False) False) ''VADDSHS'' VX_form 4 832 CFLOW_NORMAL,
   instr_info ''vaddsws'' (pmf_vector_arith (VOP2 op_add_64) (operand_vD_V4SI_SAT Int32) (operand_vA_V4SI_SAT Int32) (operand_vB_V4SI_SAT Int32) operand_vC_NONE (Fake_field False) False) ''VADDSWS'' VX_form 4 896 CFLOW_NORMAL,
   instr_info ''vaddubm'' (pmf_vector_arith (VOP2 vop_add) operand_vD_V16QI operand_vA_V16QI operand_vB_V16QI operand_vC_NONE (Fake_field False) False) ''VADDUBM'' VX_form 4 0 CFLOW_NORMAL,
   instr_info ''vaddubs'' (pmf_vector_arith (VOP2 vop_add) (operand_vD_V16QI_SAT UInt8) (operand_vA_V16QI_SAT UInt8) (operand_vB_V16QI_SAT UInt8) operand_vC_NONE (Fake_field False) False) ''VADDUBS'' VX_form 4 512 CFLOW_NORMAL,
   instr_info ''vadduhm'' (pmf_vector_arith (VOP2 vop_add) operand_vD_V8HI operand_vA_V8HI operand_vB_V8HI operand_vC_NONE (Fake_field False) False) ''VADDUHM'' VX_form 4 64 CFLOW_NORMAL,
   instr_info ''vadduhs'' (pmf_vector_arith (VOP2 vop_add) (operand_vD_V8HI_SAT UInt16) (operand_vA_V8HI_SAT UInt16) (operand_vB_V8HI_SAT UInt16) operand_vC_NONE (Fake_field False) False) ''VADDUHS'' VX_form 4 576 CFLOW_NORMAL,
   instr_info ''vadduwm'' (pmf_vector_arith (VOP2 vop_add) operand_vD_V4SI operand_vA_V4SI operand_vB_V4SI operand_vC_NONE (Fake_field False) False) ''VADDUWM'' VX_form 4 128 CFLOW_NORMAL,
   instr_info ''vadduws'' (pmf_vector_arith (VOP2 op_add_64) (operand_vD_V4SI_SAT UInt32) (operand_vA_V4SI_SAT UInt32) (operand_vB_V4SI_SAT UInt32) operand_vC_NONE (Fake_field False) False) ''VADDUWS'' VX_form 4 640 CFLOW_NORMAL,
   instr_info ''vand'' (pmf_vector_arith (VOP2 op_and_64) operand_vD_V2DI operand_vA_V2DI operand_vB_V2DI operand_vC_NONE (Fake_field False) False) ''VAND'' VX_form 4 1028 CFLOW_NORMAL,
   instr_info ''vandc'' (pmf_vector_arith (VOP2 op_andc_64) operand_vD_V2DI operand_vA_V2DI operand_vB_V2DI operand_vC_NONE (Fake_field False) False) ''VANDC'' VX_form 4 1092 CFLOW_NORMAL,
   instr_info ''vavgsb'' (pmf_vector_arith (VOP2 op_avgsb) operand_vD_V16QI operand_vA_V16QI operand_vB_V16QI operand_vC_NONE (Fake_field False) False) ''VAVGSB'' VX_form 4 1282 CFLOW_NORMAL,
   instr_info ''vavgsh'' (pmf_vector_arith (VOP2 op_avgsh) operand_vD_V8HI operand_vA_V8HI operand_vB_V8HI operand_vC_NONE (Fake_field False) False) ''VAVGSH'' VX_form 4 1346 CFLOW_NORMAL,
   instr_info ''vavgsw'' (pmf_vector_arith (VOP2 op_avgsw) operand_vD_V4SI operand_vA_V4SI operand_vB_V4SI operand_vC_NONE (Fake_field False) False) ''VAVGSW'' VX_form 4 1410 CFLOW_NORMAL,
   instr_info ''vavgub'' (pmf_vector_arith (VOP2 op_avgub) operand_vD_V16QI operand_vA_V16QI operand_vB_V16QI operand_vC_NONE (Fake_field False) False) ''VAVGUB'' VX_form 4 1026 CFLOW_NORMAL,
   instr_info ''vavguh'' (pmf_vector_arith (VOP2 op_avguh) operand_vD_V8HI operand_vA_V8HI operand_vB_V8HI operand_vC_NONE (Fake_field False) False) ''VAVGUH'' VX_form 4 1090 CFLOW_NORMAL,
   instr_info ''vavguw'' (pmf_vector_arith (VOP2 op_avguw) operand_vD_V4SI operand_vA_V4SI operand_vB_V4SI operand_vC_NONE (Fake_field False) False) ''VAVGUW'' VX_form 4 1154 CFLOW_NORMAL,
   instr_info ''vcfsx'' (pmf_vector_arith (VOP2 (op_cvt_si2fp Int32)) operand_vD_V4SF operand_vA_UIMM operand_vB_V4SIs operand_vC_NONE (Fake_field False) False) ''VCFSX'' VX_form 4 842 CFLOW_NORMAL]"

definition powerpc_ii_table_08 :: "instr_info_t list" where
  "powerpc_ii_table_08 =
  [instr_info ''vcfux'' (pmf_vector_arith (VOP2 (op_cvt_si2fp UInt32)) operand_vD_V4SF operand_vA_UIMM operand_vB_V4SI operand_vC_NONE (Fake_field False) False) ''VCFUX'' VX_form 4 778 CFLOW_NORMAL,
   instr_info ''vcmpbfp'' (pmf_vector_arith (VOP2 op_cmpbfp) operand_vD_V4SI operand_vA_V4SF operand_vB_V4SF operand_vC_NONE vRC_BIT_G False) ''VCMPBFP'' VXR_form 4 966 CFLOW_NORMAL,
   instr_info ''vcmpeqfp'' (pmf_vector_arith (VOP2 (op_cmp_eq CFloat)) operand_vD_V4SI operand_vA_V4SF operand_vB_V4SF operand_vC_NONE vRC_BIT_G True) ''VCMPEQFP'' VXR_form 4 198 CFLOW_NORMAL,
   instr_info ''vcmpequb'' (pmf_vector_arith (VOP2 (op_cmp_eq UInt8)) operand_vD_V16QI operand_vA_V16QI operand_vB_V16QI operand_vC_NONE vRC_BIT_G True) ''VCMPEQUB'' VXR_form 4 6 CFLOW_NORMAL,
   instr_info ''vcmpequh'' (pmf_vector_arith (VOP2 (op_cmp_eq UInt16)) operand_vD_V8HI operand_vA_V8HI operand_vB_V8HI operand_vC_NONE vRC_BIT_G True) ''VCMPEQUH'' VXR_form 4 70 CFLOW_NORMAL,
   instr_info ''vcmpequw'' (pmf_vector_arith (VOP2 (op_cmp_eq UInt32)) operand_vD_V4SI operand_vA_V4SI operand_vB_V4SI operand_vC_NONE vRC_BIT_G True) ''VCMPEQUW'' VXR_form 4 134 CFLOW_NORMAL,
   instr_info ''vcmpgefp'' (pmf_vector_arith (VOP2 (op_cmp_ge CFloat)) operand_vD_V4SI operand_vA_V4SF operand_vB_V4SF operand_vC_NONE vRC_BIT_G True) ''VCMPGEFP'' VXR_form 4 454 CFLOW_NORMAL,
   instr_info ''vcmpgtfp'' (pmf_vector_arith (VOP2 (op_cmp_gt CFloat)) operand_vD_V4SI operand_vA_V4SF operand_vB_V4SF operand_vC_NONE vRC_BIT_G True) ''VCMPGTFP'' VXR_form 4 710 CFLOW_NORMAL,
   instr_info ''vcmpgtsb'' (pmf_vector_arith (VOP2 (op_cmp_gt Int8)) operand_vD_V16QI operand_vA_V16QIs operand_vB_V16QIs operand_vC_NONE vRC_BIT_G True) ''VCMPGTSB'' VXR_form 4 774 CFLOW_NORMAL,
   instr_info ''vcmpgtsh'' (pmf_vector_arith (VOP2 (op_cmp_gt Int16)) operand_vD_V8HI operand_vA_V8HIs operand_vB_V8HIs operand_vC_NONE vRC_BIT_G True) ''VCMPGTSH'' VXR_form 4 838 CFLOW_NORMAL,
   instr_info ''vcmpgtsw'' (pmf_vector_arith (VOP2 (op_cmp_gt Int32)) operand_vD_V4SI operand_vA_V4SIs operand_vB_V4SIs operand_vC_NONE vRC_BIT_G True) ''VCMPGTSW'' VXR_form 4 902 CFLOW_NORMAL,
   instr_info ''vcmpgtub'' (pmf_vector_arith (VOP2 (op_cmp_gt UInt8)) operand_vD_V16QI operand_vA_V16QI operand_vB_V16QI operand_vC_NONE vRC_BIT_G True) ''VCMPGTUB'' VXR_form 4 518 CFLOW_NORMAL,
   instr_info ''vcmpgtuh'' (pmf_vector_arith (VOP2 (op_cmp_gt UInt16)) operand_vD_V8HI operand_vA_V8HI operand_vB_V8HI operand_vC_NONE vRC_BIT_G True) ''VCMPGTUH'' VXR_form 4 582 CFLOW_NORMAL,
   instr_info ''vcmpgtuw'' (pmf_vector_arith (VOP2 (op_cmp_gt UInt32)) operand_vD_V4SI operand_vA_V4SI operand_vB_V4SI operand_vC_NONE vRC_BIT_G True) ''VCMPGTUW'' VXR_form 4 646 CFLOW_NORMAL,
   instr_info ''vctsxs'' (pmf_vector_arith (VOP2 op_cvt_fp2si) (operand_vD_V4SI_SAT Int32) operand_vA_UIMM operand_vB_V4SF operand_vC_NONE (Fake_field False) False) ''VCTSXS'' VX_form 4 970 CFLOW_NORMAL,
   instr_info ''vctuxs'' (pmf_vector_arith (VOP2 op_cvt_fp2si) (operand_vD_V4SI_SAT UInt32) operand_vA_UIMM operand_vB_V4SF operand_vC_NONE (Fake_field False) False) ''VCTUXS'' VX_form 4 906 CFLOW_NORMAL,
   instr_info ''vexptefp'' (pmf_vector_arith (VOP1 op_exp2) operand_vD_V4SF operand_vA_NONE operand_vB_V4SF operand_vC_NONE (Fake_field False) False) ''VEXPTEFP'' VX_form 4 394 CFLOW_NORMAL,
   instr_info ''vlogefp'' (pmf_vector_arith (VOP1 op_log2) operand_vD_V4SF operand_vA_NONE operand_vB_V4SF operand_vC_NONE (Fake_field False) False) ''VLOGEFP'' VX_form 4 458 CFLOW_NORMAL,
   instr_info ''vmaddfp'' (pmf_vector_arith (VOP3 op_vmaddfp) operand_vD_V4SF operand_vA_V4SF operand_vB_V4SF operand_vC_V4SF (Fake_field False) False) ''VMADDFP'' VA_form 4 46 CFLOW_NORMAL,
   instr_info ''vmaxfp'' (pmf_vector_arith (VOP2 (op_max CFloat)) operand_vD_V4SF operand_vA_V4SF operand_vB_V4SF operand_vC_NONE (Fake_field False) False) ''VMAXFP'' VX_form 4 1034 CFLOW_NORMAL,
   instr_info ''vmaxsb'' (pmf_vector_arith (VOP2 (op_max Int8)) operand_vD_V16QI operand_vA_V16QI operand_vB_V16QI operand_vC_NONE (Fake_field False) False) ''VMAXSB'' VX_form 4 258 CFLOW_NORMAL,
   instr_info ''vmaxsh'' (pmf_vector_arith (VOP2 (op_max Int16)) operand_vD_V8HI operand_vA_V8HI operand_vB_V8HI operand_vC_NONE (Fake_field False) False) ''VMAXSH'' VX_form 4 322 CFLOW_NORMAL,
   instr_info ''vmaxsw'' (pmf_vector_arith (VOP2 (op_max Int32)) operand_vD_V4SI operand_vA_V4SI operand_vB_V4SI operand_vC_NONE (Fake_field False) False) ''VMAXSW'' VX_form 4 386 CFLOW_NORMAL,
   instr_info ''vmaxub'' (pmf_vector_arith (VOP2 (op_max UInt8)) operand_vD_V16QI operand_vA_V16QI operand_vB_V16QI operand_vC_NONE (Fake_field False) False) ''VMAXUB'' VX_form 4 2 CFLOW_NORMAL,
   instr_info ''vmaxuh'' (pmf_vector_arith (VOP2 (op_max UInt16)) operand_vD_V8HI operand_vA_V8HI operand_vB_V8HI operand_vC_NONE (Fake_field False) False) ''VMAXUH'' VX_form 4 66 CFLOW_NORMAL,
   instr_info ''vmaxuw'' (pmf_vector_arith (VOP2 (op_max UInt32)) operand_vD_V4SI operand_vA_V4SI operand_vB_V4SI operand_vC_NONE (Fake_field False) False) ''VMAXUW'' VX_form 4 130 CFLOW_NORMAL,
   instr_info ''vmhaddshs'' (pmf_vector_arith (VOP3 (op_mhraddsh 0)) (operand_vD_V8HI_SAT Int16) (operand_vA_V8HI_SAT Int16) (operand_vB_V8HI_SAT Int16) (operand_vC_V8HI_SAT Int16) (Fake_field False) False) ''VMHADDSHS'' VA_form 4 32 CFLOW_NORMAL,
   instr_info ''vmhraddshs'' (pmf_vector_arith (VOP3 (op_mhraddsh 16384)) (operand_vD_V8HI_SAT Int16) (operand_vA_V8HI_SAT Int16) (operand_vB_V8HI_SAT Int16) (operand_vC_V8HI_SAT Int16) (Fake_field False) False) ''VMHRADDSHS'' VA_form 4 33 CFLOW_NORMAL,
   instr_info ''vminfp'' (pmf_vector_arith (VOP2 (op_min CFloat)) operand_vD_V4SF operand_vA_V4SF operand_vB_V4SF operand_vC_NONE (Fake_field False) False) ''VMINFP'' VX_form 4 1098 CFLOW_NORMAL,
   instr_info ''vminsb'' (pmf_vector_arith (VOP2 (op_min Int8)) operand_vD_V16QI operand_vA_V16QI operand_vB_V16QI operand_vC_NONE (Fake_field False) False) ''VMINSB'' VX_form 4 770 CFLOW_NORMAL]"

definition powerpc_ii_table_09 :: "instr_info_t list" where
  "powerpc_ii_table_09 =
  [instr_info ''vminsh'' (pmf_vector_arith (VOP2 (op_min Int16)) operand_vD_V8HI operand_vA_V8HI operand_vB_V8HI operand_vC_NONE (Fake_field False) False) ''VMINSH'' VX_form 4 834 CFLOW_NORMAL,
   instr_info ''vminsw'' (pmf_vector_arith (VOP2 (op_min Int32)) operand_vD_V4SI operand_vA_V4SI operand_vB_V4SI operand_vC_NONE (Fake_field False) False) ''VMINSW'' VX_form 4 898 CFLOW_NORMAL,
   instr_info ''vminub'' (pmf_vector_arith (VOP2 (op_min UInt8)) operand_vD_V16QI operand_vA_V16QI operand_vB_V16QI operand_vC_NONE (Fake_field False) False) ''VMINUB'' VX_form 4 514 CFLOW_NORMAL,
   instr_info ''vminuh'' (pmf_vector_arith (VOP2 (op_min UInt16)) operand_vD_V8HI operand_vA_V8HI operand_vB_V8HI operand_vC_NONE (Fake_field False) False) ''VMINUH'' VX_form 4 578 CFLOW_NORMAL,
   instr_info ''vminuw'' (pmf_vector_arith (VOP2 (op_min UInt32)) operand_vD_V4SI operand_vA_V4SI operand_vB_V4SI operand_vC_NONE (Fake_field False) False) ''VMINUW'' VX_form 4 642 CFLOW_NORMAL,
   instr_info ''vmladduhm'' (pmf_vector_arith (VOP3 op_mladduh) operand_vD_V8HI operand_vA_V8HI operand_vB_V8HI operand_vC_V8HI (Fake_field False) False) ''VMLADDUHM'' VA_form 4 34 CFLOW_NORMAL,
   instr_info ''vmrghb'' (pmf_vector_merge operand_vD_V16QIm operand_vA_V16QIm operand_vB_V16QIm 0) ''VMRGHB'' VX_form 4 12 CFLOW_NORMAL,
   instr_info ''vmrghh'' (pmf_vector_merge operand_vD_V8HIm operand_vA_V8HIm operand_vB_V8HIm 0) ''VMRGHH'' VX_form 4 76 CFLOW_NORMAL,
   instr_info ''vmrghw'' (pmf_vector_merge operand_vD_V4SI operand_vA_V4SI operand_vB_V4SI 0) ''VMRGHW'' VX_form 4 140 CFLOW_NORMAL,
   instr_info ''vmrglb'' (pmf_vector_merge operand_vD_V16QIm operand_vA_V16QIm operand_vB_V16QIm 1) ''VMRGLB'' VX_form 4 268 CFLOW_NORMAL,
   instr_info ''vmrglh'' (pmf_vector_merge operand_vD_V8HIm operand_vA_V8HIm operand_vB_V8HIm 1) ''VMRGLH'' VX_form 4 332 CFLOW_NORMAL,
   instr_info ''vmrglw'' (pmf_vector_merge operand_vD_V4SI operand_vA_V4SI operand_vB_V4SI 1) ''VMRGLW'' VX_form 4 396 CFLOW_NORMAL,
   instr_info ''vmsummbm'' (pmf_vector_arith_mixed (VOP2 vop_smul) operand_vD_V4SI (operand_vA_V16QI_SAT Int8) (operand_vB_V16QI_SAT UInt8) operand_vC_V4SI) ''VMSUMMBM'' VA_form 4 37 CFLOW_NORMAL,
   instr_info ''vmsumshm'' (pmf_vector_arith_mixed (VOP2 vop_smul) operand_vD_V4SI (operand_vA_V8HI_SAT Int16) (operand_vB_V8HI_SAT Int16) operand_vC_V4SI) ''VMSUMSHM'' VA_form 4 40 CFLOW_NORMAL,
   instr_info ''vmsumshs'' (pmf_vector_arith_mixed (VOP2 op_smul_64) (operand_vD_V4SI_SAT Int32) (operand_vA_V8HI_SAT Int16) (operand_vB_V8HI_SAT Int16) operand_vC_V4SIs) ''VMSUMSHS'' VA_form 4 41 CFLOW_NORMAL,
   instr_info ''vmsumubm'' (pmf_vector_arith_mixed (VOP2 vop_mul) operand_vD_V4SI operand_vA_V16QI operand_vB_V16QI operand_vC_V4SI) ''VMSUMUBM'' VA_form 4 36 CFLOW_NORMAL,
   instr_info ''vmsumuhm'' (pmf_vector_arith_mixed (VOP2 vop_mul) operand_vD_V4SI operand_vA_V8HI operand_vB_V8HI operand_vC_V4SI) ''VMSUMUHM'' VA_form 4 38 CFLOW_NORMAL,
   instr_info ''vmsumuhs'' (pmf_vector_arith_mixed (VOP2 vop_mul) (operand_vD_V4SI_SAT UInt32) operand_vA_V8HI operand_vB_V8HI operand_vC_V4SI) ''VMSUMUHS'' VA_form 4 39 CFLOW_NORMAL,
   instr_info ''vmulesb'' (pmf_vector_arith_odd 0 (VOP2 vop_smul) operand_vD_V8HIm (operand_vA_V16QIm_SAT Int8) (operand_vB_V16QIm_SAT Int8) operand_vC_NONE) ''VMULESB'' VX_form 4 776 CFLOW_NORMAL,
   instr_info ''vmulesh'' (pmf_vector_arith_odd 0 (VOP2 vop_smul) operand_vD_V4SI (operand_vA_V8HIm_SAT Int16) (operand_vB_V8HIm_SAT Int16) operand_vC_NONE) ''VMULESH'' VX_form 4 840 CFLOW_NORMAL,
   instr_info ''vmuleub'' (pmf_vector_arith_odd 0 (VOP2 vop_mul) operand_vD_V8HIm operand_vA_V16QIm operand_vB_V16QIm operand_vC_NONE) ''VMULEUB'' VX_form 4 520 CFLOW_NORMAL,
   instr_info ''vmuleuh'' (pmf_vector_arith_odd 0 (VOP2 vop_mul) operand_vD_V4SI operand_vA_V8HIm operand_vB_V8HIm operand_vC_NONE) ''VMULEUH'' VX_form 4 584 CFLOW_NORMAL,
   instr_info ''vmulosb'' (pmf_vector_arith_odd 1 (VOP2 vop_smul) operand_vD_V8HIm (operand_vA_V16QIm_SAT Int8) (operand_vB_V16QIm_SAT Int8) operand_vC_NONE) ''VMULOSB'' VX_form 4 264 CFLOW_NORMAL,
   instr_info ''vmulosh'' (pmf_vector_arith_odd 1 (VOP2 vop_smul) operand_vD_V4SI (operand_vA_V8HIm_SAT Int16) (operand_vB_V8HIm_SAT Int16) operand_vC_NONE) ''VMULOSH'' VX_form 4 328 CFLOW_NORMAL,
   instr_info ''vmuloub'' (pmf_vector_arith_odd 1 (VOP2 vop_mul) operand_vD_V8HIm operand_vA_V16QIm operand_vB_V16QIm operand_vC_NONE) ''VMULOUB'' VX_form 4 8 CFLOW_NORMAL,
   instr_info ''vmulouh'' (pmf_vector_arith_odd 1 (VOP2 vop_mul) operand_vD_V4SI operand_vA_V8HIm operand_vB_V8HIm operand_vC_NONE) ''VMULOUH'' VX_form 4 72 CFLOW_NORMAL,
   instr_info ''vnmsubfp'' (pmf_vector_arith (VOP3 op_vnmsubfp) operand_vD_V4SF operand_vA_V4SF operand_vB_V4SF operand_vC_V4SF (Fake_field False) False) ''VNMSUBFP'' VA_form 4 47 CFLOW_NORMAL,
   instr_info ''vnor'' (pmf_vector_arith (VOP2 op_nor_64) operand_vD_V2DI operand_vA_V2DI operand_vB_V2DI operand_vC_NONE (Fake_field False) False) ''VNOR'' VX_form 4 1284 CFLOW_NORMAL,
   instr_info ''vor'' (pmf_vector_arith (VOP2 op_or_64) operand_vD_V2DI operand_vA_V2DI operand_vB_V2DI operand_vC_NONE (Fake_field False) False) ''VOR'' VX_form 4 1156 CFLOW_NORMAL,
   instr_info ''vperm'' (pmf_vector_permute) ''VPERM'' VA_form 4 43 CFLOW_NORMAL]"

definition powerpc_ii_table_10 :: "instr_info_t list" where
  "powerpc_ii_table_10 =
  [instr_info ''vpkpx'' (pmf_vector_pack_pixel) ''VPKPX'' VX_form 4 782 CFLOW_NORMAL,
   instr_info ''vpkshss'' (pmf_vector_pack (operand_vD_V16QIm_SAT Int8) operand_vA_V8HIm operand_vB_V8HIm) ''VPKSHSS'' VX_form 4 398 CFLOW_NORMAL,
   instr_info ''vpkshus'' (pmf_vector_pack (operand_vD_V16QIm_SAT UInt8) operand_vA_V8HIm operand_vB_V8HIm) ''VPKSHUS'' VX_form 4 270 CFLOW_NORMAL,
   instr_info ''vpkswss'' (pmf_vector_pack (operand_vD_V8HIm_SAT Int16) operand_vA_V4SI operand_vB_V4SI) ''VPKSWSS'' VX_form 4 462 CFLOW_NORMAL,
   instr_info ''vpkswus'' (pmf_vector_pack (operand_vD_V8HIm_SAT UInt16) operand_vA_V4SI operand_vB_V4SI) ''VPKSWUS'' VX_form 4 334 CFLOW_NORMAL,
   instr_info ''vpkuhum'' (pmf_vector_pack operand_vD_V16QIm operand_vA_V8HIm operand_vB_V8HIm) ''VPKUHUM'' VX_form 4 14 CFLOW_NORMAL,
   instr_info ''vpkuhus'' (pmf_vector_pack (operand_vD_V16QIm_USAT UInt8) operand_vA_V8HIm operand_vB_V8HIm) ''VPKUHUS'' VX_form 4 142 CFLOW_NORMAL,
   instr_info ''vpkuwum'' (pmf_vector_pack operand_vD_V8HIm operand_vA_V4SI operand_vB_V4SI) ''VPKUWUM'' VX_form 4 78 CFLOW_NORMAL,
   instr_info ''vpkuwus'' (pmf_vector_pack (operand_vD_V8HIm_USAT UInt16) operand_vA_V4SI operand_vB_V4SI) ''VPKUWUS'' VX_form 4 206 CFLOW_NORMAL,
   instr_info ''vrefp'' (pmf_vector_arith (VOP1 op_fres) operand_vD_V4SF operand_vA_NONE operand_vB_V4SF operand_vC_NONE (Fake_field False) False) ''VREFP'' VX_form 4 266 CFLOW_NORMAL,
   instr_info ''vrfim'' (pmf_vector_arith (VOP1 op_frsim) operand_vD_V4SF operand_vA_NONE operand_vB_V4SF operand_vC_NONE (Fake_field False) False) ''VRFIM'' VX_form 4 714 CFLOW_NORMAL,
   instr_info ''vrfin'' (pmf_vector_arith (VOP1 op_frsin) operand_vD_V4SF operand_vA_NONE operand_vB_V4SF operand_vC_NONE (Fake_field False) False) ''VRFIN'' VX_form 4 522 CFLOW_NORMAL,
   instr_info ''vrfip'' (pmf_vector_arith (VOP1 op_frsip) operand_vD_V4SF operand_vA_NONE operand_vB_V4SF operand_vC_NONE (Fake_field False) False) ''VRFIP'' VX_form 4 650 CFLOW_NORMAL,
   instr_info ''vrfiz'' (pmf_vector_arith (VOP1 op_frsiz) operand_vD_V4SF operand_vA_NONE operand_vB_V4SF operand_vC_NONE (Fake_field False) False) ''VRFIZ'' VX_form 4 586 CFLOW_NORMAL,
   instr_info ''vrlb'' (pmf_vector_arith (VOP2 (op_vrl UInt8)) operand_vD_V16QI operand_vA_V16QI operand_vB_V16QI operand_vC_NONE (Fake_field False) False) ''VRLB'' VX_form 4 4 CFLOW_NORMAL,
   instr_info ''vrlh'' (pmf_vector_arith (VOP2 (op_vrl UInt16)) operand_vD_V8HI operand_vA_V8HI operand_vB_V8HI operand_vC_NONE (Fake_field False) False) ''VRLH'' VX_form 4 68 CFLOW_NORMAL,
   instr_info ''vrlw'' (pmf_vector_arith (VOP2 (op_vrl UInt32)) operand_vD_V4SI operand_vA_V4SI operand_vB_V4SI operand_vC_NONE (Fake_field False) False) ''VRLW'' VX_form 4 132 CFLOW_NORMAL,
   instr_info ''vrsqrtefp'' (pmf_vector_arith (VOP1 op_frsqrt) operand_vD_V4SF operand_vA_NONE operand_vB_V4SF operand_vC_NONE (Fake_field False) False) ''VRSQRTEFP'' VX_form 4 330 CFLOW_NORMAL,
   instr_info ''vsel'' (pmf_vector_arith (VOP3 op_vsel) operand_vD_V4SI operand_vA_V4SI operand_vB_V4SI operand_vC_V4SI (Fake_field False) False) ''VSEL'' VA_form 4 42 CFLOW_NORMAL,
   instr_info ''vsl'' (pmf_vector_shift (-1)) ''VSL'' VX_form 4 452 CFLOW_NORMAL,
   instr_info ''vslb'' (pmf_vector_arith (VOP2 (op_vsl UInt8)) operand_vD_V16QI operand_vA_V16QI operand_vB_V16QI operand_vC_NONE (Fake_field False) False) ''VSLB'' VX_form 4 260 CFLOW_NORMAL,
   instr_info ''vsldoi'' (pmf_vector_shift_octet (-1) operand_vD_V16QIm operand_vA_V16QIm operand_vB_V16QIm operand_SHB) ''VSLDOI'' VA_form 4 44 CFLOW_NORMAL,
   instr_info ''vslh'' (pmf_vector_arith (VOP2 (op_vsl UInt16)) operand_vD_V8HI operand_vA_V8HI operand_vB_V8HI operand_vC_NONE (Fake_field False) False) ''VSLH'' VX_form 4 324 CFLOW_NORMAL,
   instr_info ''vslo'' (pmf_vector_shift_octet (-1) operand_vD_V16QIm operand_vA_V16QIm operand_vB_NONE operand_SHBO) ''VSLO'' VX_form 4 1036 CFLOW_NORMAL,
   instr_info ''vslw'' (pmf_vector_arith (VOP2 (op_vsl UInt32)) operand_vD_V4SI operand_vA_V4SI operand_vB_V4SI operand_vC_NONE (Fake_field False) False) ''VSLW'' VX_form 4 388 CFLOW_NORMAL,
   instr_info ''vspltb'' (pmf_vector_splat op_nop operand_vD_V16QI operand_vB_V16QIm False) ''VSPLTB'' VX_form 4 524 CFLOW_NORMAL,
   instr_info ''vsplth'' (pmf_vector_splat op_nop operand_vD_V8HI operand_vB_V8HIm False) ''VSPLTH'' VX_form 4 588 CFLOW_NORMAL,
   instr_info ''vspltisb'' (pmf_vector_splat op_sign_extend_5_32 operand_vD_V16QI operand_vB_UIMM True) ''VSPLTISB'' VX_form 4 780 CFLOW_NORMAL,
   instr_info ''vspltish'' (pmf_vector_splat op_sign_extend_5_32 operand_vD_V8HI operand_vB_UIMM True) ''VSPLTISH'' VX_form 4 844 CFLOW_NORMAL,
   instr_info ''vspltisw'' (pmf_vector_splat op_sign_extend_5_32 operand_vD_V4SI operand_vB_UIMM True) ''VSPLTISW'' VX_form 4 908 CFLOW_NORMAL]"

definition powerpc_ii_table_11 :: "instr_info_t list" where
  "powerpc_ii_table_11 =
  [instr_info ''vspltw'' (pmf_vector_splat op_nop operand_vD_V4SI operand_vB_V4SI False) ''VSPLTW'' VX_form 4 652 CFLOW_NORMAL,
   instr_info ''vsr'' (pmf_vector_shift 1) ''VSR'' VX_form 4 708 CFLOW_NORMAL,
   instr_info ''vsrab'' (pmf_vector_arith (VOP2 (op_vsr Int8)) operand_vD_V16QI operand_vA_V16QIs operand_vB_V16QI operand_vC_NONE (Fake_field False) False) ''VSRAB'' VX_form 4 772 CFLOW_NORMAL,
   instr_info ''vsrah'' (pmf_vector_arith (VOP2 (op_vsr Int16)) operand_vD_V8HI operand_vA_V8HIs operand_vB_V8HI operand_vC_NONE (Fake_field False) False) ''VSRAH'' VX_form 4 836 CFLOW_NORMAL,
   instr_info ''vsraw'' (pmf_vector_arith (VOP2 (op_vsr Int32)) operand_vD_V4SI operand_vA_V4SIs operand_vB_V4SIs operand_vC_NONE (Fake_field False) False) ''VSRAW'' VX_form 4 900 CFLOW_NORMAL,
   instr_info ''vsrb'' (pmf_vector_arith (VOP2 (op_vsr UInt8)) operand_vD_V16QI operand_vA_V16QI operand_vB_V16QI operand_vC_NONE (Fake_field False) False) ''VSRB'' VX_form 4 516 CFLOW_NORMAL,
   instr_info ''vsrh'' (pmf_vector_arith (VOP2 (op_vsr UInt16)) operand_vD_V8HI operand_vA_V8HI operand_vB_V8HI operand_vC_NONE (Fake_field False) False) ''VSRH'' VX_form 4 580 CFLOW_NORMAL,
   instr_info ''vsro'' (pmf_vector_shift_octet 1 operand_vD_V16QIm operand_vA_V16QIm operand_vB_NONE operand_SHBO) ''VSRO'' VX_form 4 1100 CFLOW_NORMAL,
   instr_info ''vsrw'' (pmf_vector_arith (VOP2 (op_vsr UInt32)) operand_vD_V4SI operand_vA_V4SI operand_vB_V4SI operand_vC_NONE (Fake_field False) False) ''VSRW'' VX_form 4 644 CFLOW_NORMAL,
   instr_info ''vsubcuw'' (pmf_vector_arith (VOP2 op_subcuw) operand_vD_V4SI operand_vA_V4SI operand_vB_V4SI operand_vC_NONE (Fake_field False) False) ''VSUBCUW'' VX_form 4 1408 CFLOW_NORMAL,
   instr_info ''vsubfp'' (pmf_vector_arith (VOP2 op_fsubs) operand_vD_V4SF operand_vA_V4SF operand_vB_V4SF operand_vC_NONE (Fake_field False) False) ''VSUBFP'' VX_form 4 74 CFLOW_NORMAL,
   instr_info ''vsubsbs'' (pmf_vector_arith (VOP2 vop_sub) (operand_vD_V16QI_SAT Int8) (operand_vA_V16QI_SAT Int8) (operand_vB_V16QI_SAT Int8) operand_vC_NONE (Fake_field False) False) ''VSUBSBS'' VX_form 4 1792 CFLOW_NORMAL,
   instr_info ''vsubshs'' (pmf_vector_arith (VOP2 vop_sub) (operand_vD_V8HI_SAT Int16) (operand_vA_V8HI_SAT Int16) (operand_vB_V8HI_SAT Int16) operand_vC_NONE (Fake_field False) False) ''VSUBSHS'' VX_form 4 1856 CFLOW_NORMAL,
   instr_info ''vsubsws'' (pmf_vector_arith (VOP2 op_sub_64) (operand_vD_V4SI_SAT Int32) (operand_vA_V4SI_SAT Int32) (operand_vB_V4SI_SAT Int32) operand_vC_NONE (Fake_field False) False) ''VSUBSWS'' VX_form 4 1920 CFLOW_NORMAL,
   instr_info ''vsububm'' (pmf_vector_arith (VOP2 vop_sub) operand_vD_V16QI operand_vA_V16QI operand_vB_V16QI operand_vC_NONE (Fake_field False) False) ''VSUBUBM'' VX_form 4 1024 CFLOW_NORMAL,
   instr_info ''vsububs'' (pmf_vector_arith (VOP2 vop_sub) (operand_vD_V16QI_SAT UInt8) (operand_vA_V16QI_SAT UInt8) (operand_vB_V16QI_SAT UInt8) operand_vC_NONE (Fake_field False) False) ''VSUBUBS'' VX_form 4 1536 CFLOW_NORMAL,
   instr_info ''vsubuhm'' (pmf_vector_arith (VOP2 vop_sub) operand_vD_V8HI operand_vA_V8HI operand_vB_V8HI operand_vC_NONE (Fake_field False) False) ''VSUBUHM'' VX_form 4 1088 CFLOW_NORMAL,
   instr_info ''vsubuhs'' (pmf_vector_arith (VOP2 vop_sub) (operand_vD_V8HI_SAT UInt16) (operand_vA_V8HI_SAT UInt16) (operand_vB_V8HI_SAT UInt16) operand_vC_NONE (Fake_field False) False) ''VSUBUHS'' VX_form 4 1600 CFLOW_NORMAL,
   instr_info ''vsubuwm'' (pmf_vector_arith (VOP2 vop_sub) operand_vD_V4SI operand_vA_V4SI operand_vB_V4SI operand_vC_NONE (Fake_field False) False) ''VSUBUWM'' VX_form 4 1152 CFLOW_NORMAL,
   instr_info ''vsubuws'' (pmf_vector_arith (VOP2 op_sub_64) (operand_vD_V4SI_SAT UInt32) (operand_vA_V4SI_SAT UInt32) (operand_vB_V4SI_SAT UInt32) operand_vC_NONE (Fake_field False) False) ''VSUBUWS'' VX_form 4 1664 CFLOW_NORMAL,
   instr_info ''vsumsws'' (pmf_vector_sum 1 (operand_vD_V4SI_SAT Int32) operand_vA_V4SIs operand_vB_V4SIs) ''VSUMSWS'' VX_form 4 1928 CFLOW_NORMAL,
   instr_info ''vsum2sws'' (pmf_vector_sum 2 (operand_vD_V4SI_SAT Int32) operand_vA_V4SIs operand_vB_V4SIs) ''VSUM2SWS'' VX_form 4 1672 CFLOW_NORMAL,
   instr_info ''vsum4sbs'' (pmf_vector_sum 4 (operand_vD_V4SI_SAT Int32) operand_vA_V16QIs operand_vB_V4SIs) ''VSUM4SBS'' VX_form 4 1800 CFLOW_NORMAL,
   instr_info ''vsum4shs'' (pmf_vector_sum 4 (operand_vD_V4SI_SAT Int32) operand_vA_V8HIs operand_vB_V4SIs) ''VSUM4SHS'' VX_form 4 1608 CFLOW_NORMAL,
   instr_info ''vsum4ubs'' (pmf_vector_sum 4 (operand_vD_V4SI_SAT UInt32) operand_vA_V16QI operand_vB_V4SI) ''VSUM4UBS'' VX_form 4 1544 CFLOW_NORMAL,
   instr_info ''vupkhpx'' (pmf_vector_unpack_pixel 0) ''VUPKHPX'' VX_form 4 846 CFLOW_NORMAL,
   instr_info ''vupkhsb'' (pmf_vector_unpack 0 operand_vD_V8HIms operand_vB_V16QIms) ''VUPKHSB'' VX_form 4 526 CFLOW_NORMAL,
   instr_info ''vupkhsh'' (pmf_vector_unpack 0 operand_vD_V4SIs operand_vB_V8HIms) ''VUPKHSH'' VX_form 4 590 CFLOW_NORMAL,
   instr_info ''vupklpx'' (pmf_vector_unpack_pixel 1) ''VUPKLPX'' VX_form 4 974 CFLOW_NORMAL,
   instr_info ''vupklsb'' (pmf_vector_unpack 1 operand_vD_V8HIms operand_vB_V16QIms) ''VUPKLSB'' VX_form 4 654 CFLOW_NORMAL]"

definition powerpc_ii_table_12 :: "instr_info_t list" where
  "powerpc_ii_table_12 =
  [instr_info ''vupklsh'' (pmf_vector_unpack 1 operand_vD_V4SIs operand_vB_V8HIms) ''VUPKLSH'' VX_form 4 718 CFLOW_NORMAL,
   instr_info ''vxor'' (pmf_vector_arith (VOP2 op_xor_64) operand_vD_V2DI operand_vA_V2DI operand_vB_V2DI operand_vC_NONE (Fake_field False) False) ''VXOR'' VX_form 4 1220 CFLOW_NORMAL]"

definition powerpc_ii_table :: "instr_info_t list" where
  "powerpc_ii_table =
     powerpc_ii_table_01 @ powerpc_ii_table_02 @ powerpc_ii_table_03 @
     powerpc_ii_table_04 @ powerpc_ii_table_05 @ powerpc_ii_table_06 @
     powerpc_ii_table_07 @ powerpc_ii_table_08 @ powerpc_ii_table_09 @
     powerpc_ii_table_10 @ powerpc_ii_table_11 @ powerpc_ii_table_12"

text \<open>The entry that \<^verbatim>\<open>sheepshaver_cpu\<close> adds to the table of the processor core.\<close>

definition sheep_ii_table :: "instr_info_t list" where
  "sheep_ii_table = [instr_info ''sheep'' pmf_sheep ''SHEEP'' D_form 6 0 (CFLOW_JUMP OR CFLOW_TRAP)]"

end
