(* ===== verification/PPC_Decoder.thy ===== *)
theory PPC_Decoder
  imports PPC_Table
begin

unbundle bit_operations_syntax

text \<open>
  The instruction decoder: \<^verbatim>\<open>init_decoder\<close> and \<^verbatim>\<open>init_decoder_entry\<close> of
  \<^verbatim>\<open>ppc-decode.cpp\<close>, with the index functions and \<^verbatim>\<open>decode\<close> of \<^verbatim>\<open>ppc-cpu.hpp\<close>. The
  constructor fills a table of \<open>2 ^ 17\<close> indices from the instruction table; decoding is
  one lookup. The specification is a search of the table for the entry whose primary and
  extended opcode fields are those of the instruction word.
\<close>

section \<open>The index table\<close>

definition II_INDEX_TABLE_SIZE :: nat where "II_INDEX_TABLE_SIZE = 0x20000"

definition make_ii_index :: "nat \<Rightarrow> nat \<Rightarrow> nat" where
  "make_ii_index opcode xo = opcode OR push_bit 6 xo"

definition get_ii_index :: "u32 \<Rightarrow> u32" where
  "get_ii_index opcode = drop_bit 26 opcode OR push_bit 6 (opcode AND 0x7ff)"

record decoder =
  ii_table :: "instr_info_t list"
  ii_index_table :: "nat \<Rightarrow> u16"

definition empty_decoder :: decoder where
  "empty_decoder = \<lparr>ii_table = [], ii_index_table = \<lambda>_. 0\<rparr>"

text \<open>
  The second arguments of \<^verbatim>\<open>make_ii_index\<close> in the cases of the switch on the format, in the
  order of the loops, and the elements of the index table that an entry is stored in.
\<close>

fun ii_xos :: "instr_format_t \<Rightarrow> nat \<Rightarrow> nat list option" where
  "ii_xos B_form xo = Some [0..<2048]"
| "ii_xos D_form xo = Some [0..<2048]"
| "ii_xos I_form xo = Some [0..<2048]"
| "ii_xos M_form xo = Some [0..<2048]"
| "ii_xos SC_form xo = Some [2]"
| "ii_xos X_form xo = Some [push_bit 1 xo, push_bit 1 xo OR 1]"
| "ii_xos XL_form xo = Some [push_bit 1 xo, push_bit 1 xo OR 1]"
| "ii_xos XFX_form xo = Some [push_bit 1 xo, push_bit 1 xo OR 1]"
| "ii_xos XFL_form xo = Some [push_bit 1 xo, push_bit 1 xo OR 1]"
| "ii_xos XO_form xo =
     Some [push_bit 1 xo, push_bit 10 1 OR push_bit 1 xo,
           push_bit 1 xo OR 1, push_bit 10 1 OR (push_bit 1 xo OR 1)]"
| "ii_xos A_form xo =
     Some (concat (map (\<lambda>j. [push_bit 6 j OR push_bit 1 xo, push_bit 6 j OR (push_bit 1 xo OR 1)]) [0..<32]))"
| "ii_xos VX_form xo = Some [xo]"
| "ii_xos VXR_form xo = Some [xo, push_bit 10 1 OR xo]"
| "ii_xos VA_form xo = Some (map (\<lambda>j. push_bit 6 j OR xo) [0..<32])"
| "ii_xos _ xo = None"

definition ii_slots :: "instr_format_t \<Rightarrow> nat \<Rightarrow> nat \<Rightarrow> nat list option" where
  "ii_slots format opcode xo =
     (if format = INVALID_form then Some [0..<II_INDEX_TABLE_SIZE]
      else case ii_xos format xo of None \<Rightarrow> None | Some xos \<Rightarrow> Some (map (make_ii_index opcode) xos))"

definition init_decoder_entry :: "instr_info_t \<Rightarrow> decoder \<Rightarrow> decoder option" where
  "init_decoder_entry ii d =
     (let d = d\<lparr>ii_table := ii_table d @ [ii]\<rparr>;
          ii_index = of_nat (length (ii_table d) - 1) :: u16
      in if \<not> (ii_format ii = INVALID_form \<and> ii_index = 0 \<or> ii_format ii \<noteq> INVALID_form \<and> ii_index \<noteq> 0)
         then None
         else case ii_slots (ii_format ii) (ii_opcode ii) (ii_xo ii) of
                None \<Rightarrow> None
              | Some slots \<Rightarrow>
                  Some (d\<lparr>ii_index_table := fold (\<lambda>i t. t(i := ii_index)) slots (ii_index_table d)\<rparr>))"

primrec init_decoder_entries :: "instr_info_t list \<Rightarrow> decoder \<Rightarrow> decoder option" where
  "init_decoder_entries [] d = Some d"
| "init_decoder_entries (ii # iis) d =
     (case init_decoder_entry ii d of None \<Rightarrow> None | Some d \<Rightarrow> init_decoder_entries iis d)"

definition init_decoder :: "decoder \<Rightarrow> decoder option" where
  "init_decoder d =
     (if length powerpc_ii_table < 2 ^ 16 then init_decoder_entries powerpc_ii_table d else None)"

definition sheepshaver_init_decoder :: "decoder \<Rightarrow> decoder option" where
  "sheepshaver_init_decoder d = init_decoder_entries sheep_ii_table d"

definition decode :: "decoder \<Rightarrow> u32 \<Rightarrow> instr_info_t" where
  "decode d opcode = ii_table d ! unat (ii_index_table d (unat (get_ii_index opcode)))"

section \<open>Specification: search of the table\<close>

text \<open>
  An instruction word belongs to an entry when its primary opcode is the entry's and the
  extended-opcode field of the entry's format has the entry's value.
\<close>

fun xo_matches :: "instr_format_t \<Rightarrow> nat \<Rightarrow> u32 \<Rightarrow> bool" where
  "xo_matches SC_form xo w = (unat (field_extract (BitField 21 31) w) = 2)"
| "xo_matches X_form xo w = (unat (field_extract XO_10_field w) = xo)"
| "xo_matches XL_form xo w = (unat (field_extract XO_10_field w) = xo)"
| "xo_matches XFX_form xo w = (unat (field_extract XO_10_field w) = xo)"
| "xo_matches XFL_form xo w = (unat (field_extract XO_10_field w) = xo)"
| "xo_matches XO_form xo w = (unat (field_extract XO_9_field w) = xo)"
| "xo_matches A_form xo w = (unat (field_extract XO_5_field w) = xo)"
| "xo_matches VX_form xo w = (unat (field_extract (BitField 21 31) w) = xo)"
| "xo_matches VXR_form xo w = (unat (field_extract (BitField 22 31) w) = xo)"
| "xo_matches VA_form xo w = (unat (field_extract (BitField 26 31) w) = xo)"
| "xo_matches _ xo w = True"

definition ii_matches :: "instr_info_t \<Rightarrow> u32 \<Rightarrow> bool" where
  "ii_matches ii w \<longleftrightarrow>
     ii_format ii = INVALID_form \<or>
     unat (field_extract OPCD_field w) = ii_opcode ii \<and> xo_matches (ii_format ii) (ii_xo ii) w"

text \<open>The widths of the opcode fields of an entry.\<close>

fun xo_bound :: "instr_format_t \<Rightarrow> nat" where
  "xo_bound XO_form = 512" | "xo_bound A_form = 32" | "xo_bound VX_form = 2048"
| "xo_bound VXR_form = 1024" | "xo_bound VA_form = 64" | "xo_bound _ = 1024"

definition wf_ii :: "instr_info_t \<Rightarrow> bool" where
  "wf_ii ii \<longleftrightarrow> ii_opcode ii < 64 \<and> ii_xo ii < xo_bound (ii_format ii)"

section \<open>Index arithmetic\<close>

lemma unat_field_extract:
  assumes "wf_field f"
  shows "unat (field_extract f w) = unat w div 2 ^ (31 - FE f) mod 2 ^ field_width f"
proof -
  have "field_extract f w = take_bit (field_width f) (drop_bit (31 - FE f) w)"
    by (intro bit_word_eqI) (auto simp: bit_field_extract_iff[OF assms] bit_take_bit_iff bit_drop_bit_eq)
  then have "unat (field_extract f w) = take_bit (field_width f) (drop_bit (31 - FE f) (unat w))"
    by (simp only: unsigned_take_bit_eq unat_drop_bit_eq)
  then show ?thesis by (simp only: take_bit_eq_mod drop_bit_eq_div)
qed

lemma or_disjoint_add: "a < 2 ^ n \<Longrightarrow> (a OR push_bit n b :: nat) = a + 2 ^ n * b"
  by (simp add: push_bit_eq_mult mult.commute disjunctive_add[symmetric] bit_eq_iff)
     (metis add.commute bit_push_bit_iff disjunctive_add less_2_cases_iff mult.commute not_le
       push_bit_eq_mult bit_take_bit_iff take_bit_nat_eq_self_iff)

lemma make_ii_index_eq: "opcode < 64 \<Longrightarrow> make_ii_index opcode xo = opcode + 64 * xo"
  using or_disjoint_add[of opcode 6 xo] by (simp add: make_ii_index_def)

lemma shift1_or_1: "(push_bit 1 xo OR 1 :: nat) = 2 * xo + 1"
  using or_disjoint_add[of 1 1 xo] by (simp add: or.commute)

lemma or_bit10: "x < 1024 \<Longrightarrow> (push_bit 10 1 OR x :: nat) = x + 1024"
  using or_disjoint_add[of x 10 1] by (simp add: or.commute)

lemma or_bits6: "x < 64 \<Longrightarrow> (push_bit 6 j OR x :: nat) = x + 64 * j"
  using or_disjoint_add[of x 6 j] by (simp add: or.commute)

lemma unat_get_ii_index:
  "unat (get_ii_index w) = unat w div 2 ^ 26 + 64 * (unat w mod 2048)"
proof -
  have e: "(w AND 0x7ff) = take_bit 11 w"
    by (simp add: take_bit_eq_mask mask_eq_exp_minus_1)
  have p: "unat (push_bit 6 (w AND 0x7ff)) = push_bit 6 (unat w mod 2048)"
  proof -
    have "unat w mod 2048 * 64 < 2 ^ 32"
      using mod_less_divisor[of 2048 "unat w"] by simp
    moreover have "unat (push_bit 6 (w AND 0x7ff)) = take_bit 32 (push_bit 6 (take_bit 11 (unat w)))"
      by (simp only: e unsigned_push_bit_eq unsigned_take_bit_eq) simp
    ultimately show ?thesis by (simp add: push_bit_eq_mult take_bit_eq_mod)
  qed
  have "unat (get_ii_index w) = unat w div 2 ^ 26 OR push_bit 6 (unat w mod 2048)"
    by (simp only: get_ii_index_def unsigned_or_eq p unat_drop_bit_eq)
       (simp only: drop_bit_eq_div)
  moreover have "unat w div 2 ^ 26 < 2 ^ 6"
    using unsigned_less[of w, where 'a = nat] by simp
  ultimately show ?thesis using or_disjoint_add[of "unat w div 2 ^ 26" 6 "unat w mod 2048"] by simp
qed

lemma div_mod_mult2: "(a :: nat) div b mod c = a mod (b * c) div b"
  by (cases "b = 0") (simp_all add: mod_mult2_eq)

lemma opcode_fields:
  "unat (field_extract OPCD_field w) = unat w div 2 ^ 26"
  "unat (field_extract (BitField 21 31) w) = unat w mod 2048"
  "unat (field_extract (BitField 22 31) w) = unat w mod 2048 mod 1024"
  "unat (field_extract (BitField 26 31) w) = unat w mod 2048 mod 64"
  "unat (field_extract XO_10_field w) = unat w mod 2048 div 2"
  "unat (field_extract XO_9_field w) = unat w mod 2048 mod 1024 div 2"
  "unat (field_extract XO_5_field w) = unat w mod 2048 mod 64 div 2"
proof -
  have "unat w < 2 ^ 32" using unsigned_less[of w, where 'a = nat] by simp
  then have "unat w div 2 ^ 26 < 2 ^ 6" by simp
  then show "unat (field_extract OPCD_field w) = unat w div 2 ^ 26"
    by (simp add: unat_field_extract wf_field_def field_width_def)
  show "unat (field_extract (BitField 21 31) w) = unat w mod 2048"
    by (simp add: unat_field_extract wf_field_def field_width_def)
  show "unat (field_extract (BitField 22 31) w) = unat w mod 2048 mod 1024"
    by (simp add: unat_field_extract wf_field_def field_width_def mod_mod_cancel)
  show "unat (field_extract (BitField 26 31) w) = unat w mod 2048 mod 64"
    by (simp add: unat_field_extract wf_field_def field_width_def mod_mod_cancel)
  show "unat (field_extract XO_10_field w) = unat w mod 2048 div 2"
    by (simp add: unat_field_extract wf_field_def field_width_def div_mod_mult2)
  show "unat (field_extract XO_9_field w) = unat w mod 2048 mod 1024 div 2"
    by (simp add: unat_field_extract wf_field_def field_width_def div_mod_mult2 mod_mod_cancel)
  show "unat (field_extract XO_5_field w) = unat w mod 2048 mod 64 div 2"
    by (simp add: unat_field_extract wf_field_def field_width_def div_mod_mult2 mod_mod_cancel)
qed

lemma ii_index_eq_iff:
  fixes p q x y :: nat
  assumes "p < 64" "q < 64"
  shows "p + 64 * x = q + 64 * y \<longleftrightarrow> p = q \<and> x = y"
proof
  assume e: "p + 64 * x = q + 64 * y"
  have "(p + 64 * x) mod 64 = p" "(q + 64 * y) mod 64 = q" using assms by simp_all
  with e have "p = q" by metis
  with e show "p = q \<and> x = y" by simp
qed simp

lemma xo_cases:
  fixes x xo :: nat
  assumes "x < 2048"
  shows "x = 2 * xo \<or> x = Suc (2 * xo) \<longleftrightarrow> x div 2 = xo"
    and "xo < 512 \<Longrightarrow> x = 2 * xo \<or> x = 2 * xo + 1024 \<or> x = Suc (2 * xo) \<or> x = Suc (2 * xo) + 1024 \<longleftrightarrow>
          x mod 1024 div 2 = xo"
    and "xo < 1024 \<Longrightarrow> x = xo \<or> x = xo + 1024 \<longleftrightarrow> x mod 1024 = xo"
    and "xo < 64 \<Longrightarrow> (\<exists>j\<in>{0..<32}. x = xo + 64 * j) \<longleftrightarrow> x mod 64 = xo"
    and "xo < 32 \<Longrightarrow> (\<exists>j\<in>{0..<32}. x = 2 * xo + 64 * j \<or> x = Suc (2 * xo) + 64 * j) \<longleftrightarrow> x mod 64 div 2 = xo"
proof -
  have halve: "y = 2 * z \<or> y = Suc (2 * z) \<longleftrightarrow> y div 2 = z" for y z :: nat by arith
  then show "x = 2 * xo \<or> x = Suc (2 * xo) \<longleftrightarrow> x div 2 = xo" .
  have m: "x mod 1024 = (if x < 1024 then x else x - 1024)"
    using assms by (simp add: mod_if)
  have m': "x = y \<or> x = y + 1024 \<longleftrightarrow> x mod 1024 = y" if "y < 1024" for y
    unfolding m using assms that by auto
  show "x = 2 * xo \<or> x = 2 * xo + 1024 \<or> x = Suc (2 * xo) \<or> x = Suc (2 * xo) + 1024 \<longleftrightarrow>
          x mod 1024 div 2 = xo" if "xo < 512"
    using that m'[of "2 * xo"] m'[of "Suc (2 * xo)"] halve[of "x mod 1024" xo, symmetric] by simp blast
  show "x = xo \<or> x = xo + 1024 \<longleftrightarrow> x mod 1024 = xo" if "xo < 1024"
    by (rule m'[OF that])
  have "(\<exists>j\<in>{0..<32}. x = y + 64 * j) \<longleftrightarrow> x mod 64 = y" if "y < 64" for y
  proof
    assume "x mod 64 = y"
    then have "x = y + 64 * (x div 64)" using mod_div_mult_eq[of x 64] by simp
    moreover have "x div 64 < 32" using assms by simp
    ultimately show "\<exists>j\<in>{0..<32}. x = y + 64 * j" by (intro bexI[of _ "x div 64"]) auto
  qed (use that in auto)
  note * = this
  show "(\<exists>j\<in>{0..<32}. x = xo + 64 * j) \<longleftrightarrow> x mod 64 = xo" if "xo < 64" by (rule *[OF that])
  show "(\<exists>j\<in>{0..<32}. x = 2 * xo + 64 * j \<or> x = Suc (2 * xo) + 64 * j) \<longleftrightarrow> x mod 64 div 2 = xo" if "xo < 32"
    using *[of "2 * xo"] *[of "Suc (2 * xo)"] that by (auto simp: bex_disj_distrib)
qed

lemma xo_in_ii_xos:
  assumes "xo < xo_bound fmt" and "ii_xos fmt xo = Some xos"
  shows "unat w mod 2048 \<in> set xos \<longleftrightarrow> xo_matches fmt xo w"
proof -
  have x: "unat w mod 2048 < 2048" by simp
  note c = xo_cases[OF x, of xo]
  show ?thesis
  proof (cases fmt)
    case A_form
    then have "xo < 32" and xos: "xos = concat (map (\<lambda>j. [2 * xo + 64 * j, Suc (2 * xo) + 64 * j]) [0..<32])"
      using assms by (simp_all add: or_bits6 shift1_or_1[simplified] mult.commute)
    then show ?thesis using c(5) A_form unfolding xos by (simp add: opcode_fields)
  next
    case XO_form
    then have "xo < 512" and xos: "xos = [2 * xo, 2 * xo + 1024, Suc (2 * xo), Suc (2 * xo) + 1024]"
      using assms by (simp_all add: or_bit10[simplified] shift1_or_1[simplified] mult.commute)
    then show ?thesis using c(2) XO_form unfolding xos by (simp add: opcode_fields)
  next
    case VA_form
    then have "xo < 64" and xos: "xos = map (\<lambda>j. xo + 64 * j) [0..<32]"
      using assms by (simp_all add: or_bits6)
    then show ?thesis using c(4) VA_form unfolding xos by (simp add: opcode_fields image_iff)
  next
    case VXR_form
    then have "xo < 1024" and xos: "xos = [xo, xo + 1024]"
      using assms by (simp_all add: or_bit10[simplified])
    then show ?thesis using c(3) VXR_form unfolding xos by (simp add: opcode_fields)
  qed (use assms c(1) x in \<open>auto simp: opcode_fields shift1_or_1[simplified]\<close>)
qed

lemma ii_slots_iff:
  assumes "wf_ii ii" and "ii_format ii \<noteq> INVALID_form"
    and "ii_slots (ii_format ii) (ii_opcode ii) (ii_xo ii) = Some slots"
  shows "unat (get_ii_index w) \<in> set slots \<longleftrightarrow> ii_matches ii w"
proof -
  obtain xos where xos: "ii_xos (ii_format ii) (ii_xo ii) = Some xos"
    and slots: "slots = map (make_ii_index (ii_opcode ii)) xos"
    using assms(2,3) by (auto simp: ii_slots_def split: option.splits)
  have o: "unat w div 2 ^ 26 < 64" using unsigned_less[of w, where 'a = nat] by simp
  have p: "ii_opcode ii < 64" and b: "ii_xo ii < xo_bound (ii_format ii)"
    using assms(1) by (simp_all add: wf_ii_def)
  have "unat (get_ii_index w) = make_ii_index (ii_opcode ii) y \<longleftrightarrow>
      unat w div 2 ^ 26 = ii_opcode ii \<and> unat w mod 2048 = y" for y
    unfolding unat_get_ii_index make_ii_index_eq[OF p] by (rule ii_index_eq_iff[OF o p])
  then have "unat (get_ii_index w) \<in> set slots \<longleftrightarrow>
      unat w div 2 ^ 26 = ii_opcode ii \<and> unat w mod 2048 \<in> set xos"
    by (auto simp: slots image_iff)
  then show ?thesis
    using assms(2) xo_in_ii_xos[OF b xos] by (simp add: ii_matches_def opcode_fields)
qed

section \<open>The loaded table implements the search\<close>

lemma fold_update_apply:
  "fold (\<lambda>i t. t(i := v)) is f j = (if j \<in> set is then v else f j)"
  by (induction "is" arbitrary: f) auto

text \<open>
  The invariant of the decoder while the entries are loaded: each element of the index
  table is the index of an entry, the last one that the word matches.
\<close>

definition search_ii :: "instr_info_t list \<Rightarrow> u32 \<Rightarrow> instr_info_t" where
  "search_ii iis w = last (filter (\<lambda>ii. ii_matches ii w) iis)"

definition decoder_inv :: "decoder \<Rightarrow> bool" where
  "decoder_inv d \<longleftrightarrow>
     (\<forall>w. unat (ii_index_table d (unat (get_ii_index w))) < length (ii_table d) \<and>
          decode d w = search_ii (ii_table d) w)"

definition loadable :: "instr_info_t \<Rightarrow> bool" where
  "loadable ii \<longleftrightarrow> wf_ii ii \<and> ii_format ii \<noteq> INVALID_form \<and> ii_xos (ii_format ii) (ii_xo ii) \<noteq> None"

lemma unat_get_ii_index_bound: "unat (get_ii_index w) < II_INDEX_TABLE_SIZE"
proof -
  have "unat w div 2 ^ 26 < 64" using unsigned_less[of w, where 'a = nat] by simp
  moreover have "unat w mod 2048 < 2048" by simp
  ultimately show ?thesis unfolding unat_get_ii_index II_INDEX_TABLE_SIZE_def by simp
qed

lemma init_decoder_entry_invalid:
  assumes "ii_format ii = INVALID_form" "ii_table d = []"
  shows "\<exists>d'. init_decoder_entry ii d = Some d' \<and> ii_table d' = [ii] \<and> decoder_inv d'"
proof -
  have "fold (\<lambda>i t. t(i := (0 :: u16))) [0..<II_INDEX_TABLE_SIZE] t (unat (get_ii_index w)) = 0" for t w
    using unat_get_ii_index_bound[of w] by (simp add: fold_update_apply)
  then show ?thesis
    using assms
    by (simp add: init_decoder_entry_def ii_slots_def decoder_inv_def decode_def search_ii_def ii_matches_def)
qed

lemma init_decoder_entry_inv:
  assumes "decoder_inv d" "ii_table d \<noteq> []" "length (ii_table d) < 2 ^ 16 - 1" "loadable ii"
  shows "\<exists>d'. init_decoder_entry ii d = Some d' \<and> ii_table d' = ii_table d @ [ii] \<and> decoder_inv d'"
proof -
  let ?n = "length (ii_table d)"
  obtain slots where slots: "ii_slots (ii_format ii) (ii_opcode ii) (ii_xo ii) = Some slots"
    using assms(4) by (auto simp: loadable_def ii_slots_def)
  have n: "unat (of_nat ?n :: u16) = ?n" using assms(3) by (simp add: unat_of_nat)
  have "0 < ?n" using assms(2) by simp
  then have n0: "(of_nat ?n :: u16) \<noteq> 0" using n by (metis less_numeral_extra(3) unsigned_0)
  define d' where "d' = d\<lparr>ii_table := ii_table d @ [ii],
      ii_index_table := fold (\<lambda>i t. t(i := of_nat ?n)) slots (ii_index_table d)\<rparr>"
  have "init_decoder_entry ii d = Some d'"
    using n0 slots assms(4) by (simp add: init_decoder_entry_def d'_def loadable_def)
  moreover have "decoder_inv d'"
    unfolding decoder_inv_def
  proof
    fix w
    have m: "unat (get_ii_index w) \<in> set slots \<longleftrightarrow> ii_matches ii w"
      using assms(4) slots by (intro ii_slots_iff) (simp_all add: loadable_def)
    have old: "unat (ii_index_table d (unat (get_ii_index w))) < ?n" "decode d w = search_ii (ii_table d) w"
      using assms(1) by (simp_all add: decoder_inv_def)
    show "unat (ii_index_table d' (unat (get_ii_index w))) < length (ii_table d') \<and>
        decode d' w = search_ii (ii_table d') w"
      using old by (simp add: d'_def fold_update_apply m n decode_def search_ii_def nth_append)
  qed
  ultimately show ?thesis by (intro exI[of _ d']) (simp add: d'_def)
qed

lemma init_decoder_entries_inv:
  assumes "decoder_inv d" "ii_table d \<noteq> []" "length (ii_table d) + length iis < 2 ^ 16" "list_all loadable iis"
  shows "\<exists>d'. init_decoder_entries iis d = Some d' \<and> ii_table d' = ii_table d @ iis \<and> decoder_inv d'"
  using assms
proof (induction iis arbitrary: d)
  case (Cons ii iis)
  obtain d1 where d1: "init_decoder_entry ii d = Some d1" "ii_table d1 = ii_table d @ [ii]" "decoder_inv d1"
    using init_decoder_entry_inv[of d ii] Cons.prems by auto
  from Cons.IH[of d1] d1 Cons.prems show ?case by auto
qed simp

section \<open>The entries of the table do not overlap\<close>

definition ii_key :: "instr_info_t \<Rightarrow> instr_format_t \<times> nat \<times> nat" where
  "ii_key ii = (ii_format ii, ii_opcode ii, ii_xo ii)"

lemma ii_keys_01:
  "map ii_key powerpc_ii_table_01 =
   [(INVALID_form, 0, 0), (XO_form, 31, 266), (XO_form, 31, 10), (XO_form, 31, 138),
    (D_form, 14, 0), (D_form, 12, 0), (D_form, 13, 0), (D_form, 15, 0), (XO_form, 31, 234),
    (XO_form, 31, 202), (X_form, 31, 28), (X_form, 31, 60), (D_form, 28, 0), (D_form, 29, 0),
    (I_form, 18, 0), (B_form, 16, 0), (XL_form, 19, 528), (XL_form, 19, 16), (X_form, 31, 0),
    (D_form, 11, 0), (X_form, 31, 32), (D_form, 10, 0), (X_form, 31, 26), (XL_form, 19, 257),
    (XL_form, 19, 129), (XL_form, 19, 289), (XL_form, 19, 225), (XL_form, 19, 33),
    (XL_form, 19, 449), (XL_form, 19, 417)]"
  by (simp only: powerpc_ii_table_01_def list.map ii_key_def instr_info_t.sel)

lemma ii_keys_02:
  "map ii_key powerpc_ii_table_02 =
   [(XL_form, 19, 193), (X_form, 31, 758), (X_form, 31, 86), (X_form, 31, 470), (X_form, 31, 54),
    (X_form, 31, 278), (X_form, 31, 246), (X_form, 31, 1014), (XO_form, 31, 491),
    (XO_form, 31, 459), (X_form, 31, 822), (X_form, 31, 342), (X_form, 31, 374), (X_form, 31, 310),
    (X_form, 31, 438), (X_form, 31, 854), (X_form, 31, 284), (X_form, 31, 954), (X_form, 31, 922),
    (X_form, 63, 264), (A_form, 63, 21), (A_form, 59, 21), (X_form, 63, 32), (X_form, 63, 0),
    (X_form, 63, 14), (X_form, 63, 15), (A_form, 63, 18), (A_form, 59, 18), (A_form, 63, 29),
    (A_form, 59, 29)]"
  by (simp only: powerpc_ii_table_02_def list.map ii_key_def instr_info_t.sel)

lemma ii_keys_03:
  "map ii_key powerpc_ii_table_03 =
   [(X_form, 63, 72), (A_form, 63, 28), (A_form, 59, 28), (A_form, 63, 25), (A_form, 59, 25),
    (X_form, 63, 136), (X_form, 63, 40), (A_form, 63, 31), (A_form, 59, 31), (A_form, 63, 30),
    (A_form, 59, 30), (X_form, 63, 12), (A_form, 63, 23), (A_form, 63, 20), (A_form, 59, 20),
    (X_form, 31, 982), (X_form, 19, 150), (D_form, 34, 0), (D_form, 35, 0), (X_form, 31, 119),
    (X_form, 31, 87), (D_form, 50, 0), (D_form, 51, 0), (X_form, 31, 631), (X_form, 31, 599),
    (D_form, 48, 0), (D_form, 49, 0), (X_form, 31, 567), (X_form, 31, 535), (D_form, 42, 0)]"
  by (simp only: powerpc_ii_table_03_def list.map ii_key_def instr_info_t.sel)

lemma ii_keys_04:
  "map ii_key powerpc_ii_table_04 =
   [(D_form, 43, 0), (X_form, 31, 375), (X_form, 31, 343), (X_form, 31, 790), (D_form, 40, 0),
    (D_form, 41, 0), (X_form, 31, 311), (X_form, 31, 279), (D_form, 46, 0), (X_form, 31, 597),
    (X_form, 31, 533), (X_form, 31, 7), (X_form, 31, 39), (X_form, 31, 71), (X_form, 31, 6),
    (X_form, 31, 38), (X_form, 31, 103), (X_form, 31, 359), (X_form, 31, 20), (X_form, 31, 534),
    (D_form, 32, 0), (D_form, 33, 0), (X_form, 31, 55), (X_form, 31, 23), (XL_form, 19, 0),
    (X_form, 63, 64), (X_form, 31, 512), (X_form, 31, 19), (X_form, 63, 583), (X_form, 31, 83)]"
  by (simp only: powerpc_ii_table_04_def list.map ii_key_def instr_info_t.sel)

lemma ii_keys_05:
  "map ii_key powerpc_ii_table_05 =
   [(XFX_form, 31, 339), (XFX_form, 31, 371), (VX_form, 4, 1540), (XFX_form, 31, 144),
    (X_form, 63, 70), (X_form, 63, 38), (XFL_form, 63, 711), (X_form, 63, 134),
    (XFX_form, 31, 467), (VX_form, 4, 1604), (XO_form, 31, 75), (XO_form, 31, 11), (D_form, 7, 0),
    (XO_form, 31, 235), (X_form, 31, 476), (XO_form, 31, 104), (XO_form, 31, 124),
    (XO_form, 31, 444), (XO_form, 31, 412), (D_form, 24, 0), (D_form, 25, 0), (M_form, 20, 0),
    (M_form, 21, 0), (M_form, 23, 0), (SC_form, 17, 0), (X_form, 31, 24), (X_form, 31, 792),
    (X_form, 31, 824), (X_form, 31, 536), (D_form, 38, 0)]"
  by (simp only: powerpc_ii_table_05_def list.map ii_key_def instr_info_t.sel)

lemma ii_keys_06:
  "map ii_key powerpc_ii_table_06 =
   [(D_form, 39, 0), (X_form, 31, 247), (X_form, 31, 215), (D_form, 54, 0), (D_form, 55, 0),
    (X_form, 31, 759), (X_form, 31, 727), (D_form, 52, 0), (D_form, 53, 0), (X_form, 31, 695),
    (X_form, 31, 663), (D_form, 44, 0), (X_form, 31, 918), (D_form, 45, 0), (X_form, 31, 439),
    (X_form, 31, 407), (D_form, 47, 0), (X_form, 31, 725), (X_form, 31, 661), (X_form, 31, 135),
    (X_form, 31, 167), (X_form, 31, 199), (X_form, 31, 231), (X_form, 31, 487), (D_form, 36, 0),
    (X_form, 31, 662), (X_form, 31, 150), (D_form, 37, 0), (X_form, 31, 183), (X_form, 31, 151)]"
  by (simp only: powerpc_ii_table_06_def list.map ii_key_def instr_info_t.sel)

lemma ii_keys_07:
  "map ii_key powerpc_ii_table_07 =
   [(XO_form, 31, 40), (XO_form, 31, 8), (XO_form, 31, 136), (D_form, 8, 0), (XO_form, 31, 232),
    (XO_form, 31, 200), (X_form, 31, 598), (X_form, 31, 316), (D_form, 26, 0), (D_form, 27, 0),
    (VX_form, 4, 384), (VX_form, 4, 10), (VX_form, 4, 768), (VX_form, 4, 832), (VX_form, 4, 896),
    (VX_form, 4, 0), (VX_form, 4, 512), (VX_form, 4, 64), (VX_form, 4, 576), (VX_form, 4, 128),
    (VX_form, 4, 640), (VX_form, 4, 1028), (VX_form, 4, 1092), (VX_form, 4, 1282),
    (VX_form, 4, 1346), (VX_form, 4, 1410), (VX_form, 4, 1026), (VX_form, 4, 1090),
    (VX_form, 4, 1154), (VX_form, 4, 842)]"
  by (simp only: powerpc_ii_table_07_def list.map ii_key_def instr_info_t.sel)

lemma ii_keys_08:
  "map ii_key powerpc_ii_table_08 =
   [(VX_form, 4, 778), (VXR_form, 4, 966), (VXR_form, 4, 198), (VXR_form, 4, 6), (VXR_form, 4, 70),
    (VXR_form, 4, 134), (VXR_form, 4, 454), (VXR_form, 4, 710), (VXR_form, 4, 774),
    (VXR_form, 4, 838), (VXR_form, 4, 902), (VXR_form, 4, 518), (VXR_form, 4, 582),
    (VXR_form, 4, 646), (VX_form, 4, 970), (VX_form, 4, 906), (VX_form, 4, 394), (VX_form, 4, 458),
    (VA_form, 4, 46), (VX_form, 4, 1034), (VX_form, 4, 258), (VX_form, 4, 322), (VX_form, 4, 386),
    (VX_form, 4, 2), (VX_form, 4, 66), (VX_form, 4, 130), (VA_form, 4, 32), (VA_form, 4, 33),
    (VX_form, 4, 1098), (VX_form, 4, 770)]"
  by (simp only: powerpc_ii_table_08_def list.map ii_key_def instr_info_t.sel)

lemma ii_keys_09:
  "map ii_key powerpc_ii_table_09 =
   [(VX_form, 4, 834), (VX_form, 4, 898), (VX_form, 4, 514), (VX_form, 4, 578), (VX_form, 4, 642),
    (VA_form, 4, 34), (VX_form, 4, 12), (VX_form, 4, 76), (VX_form, 4, 140), (VX_form, 4, 268),
    (VX_form, 4, 332), (VX_form, 4, 396), (VA_form, 4, 37), (VA_form, 4, 40), (VA_form, 4, 41),
    (VA_form, 4, 36), (VA_form, 4, 38), (VA_form, 4, 39), (VX_form, 4, 776), (VX_form, 4, 840),
    (VX_form, 4, 520), (VX_form, 4, 584), (VX_form, 4, 264), (VX_form, 4, 328), (VX_form, 4, 8),
    (VX_form, 4, 72), (VA_form, 4, 47), (VX_form, 4, 1284), (VX_form, 4, 1156), (VA_form, 4, 43)]"
  by (simp only: powerpc_ii_table_09_def list.map ii_key_def instr_info_t.sel)

lemma ii_keys_10:
  "map ii_key powerpc_ii_table_10 =
   [(VX_form, 4, 782), (VX_form, 4, 398), (VX_form, 4, 270), (VX_form, 4, 462), (VX_form, 4, 334),
    (VX_form, 4, 14), (VX_form, 4, 142), (VX_form, 4, 78), (VX_form, 4, 206), (VX_form, 4, 266),
    (VX_form, 4, 714), (VX_form, 4, 522), (VX_form, 4, 650), (VX_form, 4, 586), (VX_form, 4, 4),
    (VX_form, 4, 68), (VX_form, 4, 132), (VX_form, 4, 330), (VA_form, 4, 42), (VX_form, 4, 452),
    (VX_form, 4, 260), (VA_form, 4, 44), (VX_form, 4, 324), (VX_form, 4, 1036), (VX_form, 4, 388),
    (VX_form, 4, 524), (VX_form, 4, 588), (VX_form, 4, 780), (VX_form, 4, 844), (VX_form, 4, 908)]"
  by (simp only: powerpc_ii_table_10_def list.map ii_key_def instr_info_t.sel)

lemma ii_keys_11:
  "map ii_key powerpc_ii_table_11 =
   [(VX_form, 4, 652), (VX_form, 4, 708), (VX_form, 4, 772), (VX_form, 4, 836), (VX_form, 4, 900),
    (VX_form, 4, 516), (VX_form, 4, 580), (VX_form, 4, 1100), (VX_form, 4, 644),
    (VX_form, 4, 1408), (VX_form, 4, 74), (VX_form, 4, 1792), (VX_form, 4, 1856),
    (VX_form, 4, 1920), (VX_form, 4, 1024), (VX_form, 4, 1536), (VX_form, 4, 1088),
    (VX_form, 4, 1600), (VX_form, 4, 1152), (VX_form, 4, 1664), (VX_form, 4, 1928),
    (VX_form, 4, 1672), (VX_form, 4, 1800), (VX_form, 4, 1608), (VX_form, 4, 1544),
    (VX_form, 4, 846), (VX_form, 4, 526), (VX_form, 4, 590), (VX_form, 4, 974), (VX_form, 4, 654)]"
  by (simp only: powerpc_ii_table_11_def list.map ii_key_def instr_info_t.sel)

lemma ii_keys_12:
  "map ii_key powerpc_ii_table_12 =
   [(VX_form, 4, 718), (VX_form, 4, 1220)]"
  by (simp only: powerpc_ii_table_12_def list.map ii_key_def instr_info_t.sel)

lemmas ii_keys = ii_keys_01 ii_keys_02 ii_keys_03 ii_keys_04 ii_keys_05 ii_keys_06
  ii_keys_07 ii_keys_08 ii_keys_09 ii_keys_10 ii_keys_11 ii_keys_12

text \<open>
  The bits that an entry's format fixes, lowest first: six bits of the primary opcode, then
  the low eleven bits of the instruction word, \<open>None\<close> where the format leaves the bit free.
\<close>

definition low_bits :: "nat \<Rightarrow> nat \<Rightarrow> bool list" where
  "low_bits n x = map (bit x) [0..<n]"

fun xo_pattern :: "instr_format_t \<Rightarrow> nat \<Rightarrow> bool option list" where
  "xo_pattern SC_form xo = map Some (low_bits 11 2)"
| "xo_pattern VX_form xo = map Some (low_bits 11 xo)"
| "xo_pattern VXR_form xo = map Some (low_bits 10 xo) @ [None]"
| "xo_pattern VA_form xo = map Some (low_bits 6 xo) @ replicate 5 None"
| "xo_pattern XO_form xo = None # map Some (low_bits 9 xo) @ [None]"
| "xo_pattern A_form xo = None # map Some (low_bits 5 xo) @ replicate 5 None"
| "xo_pattern X_form xo = None # map Some (low_bits 10 xo)"
| "xo_pattern XL_form xo = None # map Some (low_bits 10 xo)"
| "xo_pattern XFX_form xo = None # map Some (low_bits 10 xo)"
| "xo_pattern XFL_form xo = None # map Some (low_bits 10 xo)"
| "xo_pattern _ xo = replicate 11 None"

fun ii_pattern :: "instr_format_t \<times> nat \<times> nat \<Rightarrow> bool option list" where
  "ii_pattern (fmt, opcode, xo) = map Some (low_bits 6 opcode) @ xo_pattern fmt xo"

text \<open>Splitting a set of patterns by its first bit until at most one is left.\<close>

fun branch :: "bool \<Rightarrow> bool option list list \<Rightarrow> bool option list list" where
  "branch b [] = []"
| "branch b ([] # ps) = branch b ps"
| "branch b ((None # p) # ps) = p # branch b ps"
| "branch True ((Some True # p) # ps) = p # branch True ps"
| "branch True ((Some False # p) # ps) = branch True ps"
| "branch False ((Some True # p) # ps) = branch False ps"
| "branch False ((Some False # p) # ps) = p # branch False ps"

fun separated :: "nat \<Rightarrow> bool option list list \<Rightarrow> bool" where
  "separated n [] = True"
| "separated n [p] = True"
| "separated 0 (p # q # ps) = False"
| "separated (Suc n) (p # q # ps) =
     (separated n (branch False (p # q # ps)) \<and> separated n (branch True (p # q # ps)))"

lemma low_bits_Suc: "low_bits (Suc n) x = odd x # low_bits n (x div 2)"
  unfolding low_bits_def by (simp add: upt_conv_Cons bit_0 bit_Suc map_Suc_upt[symmetric] del: upt_Suc)

lemma low_bits_0: "low_bits 0 x = []" by (simp add: low_bits_def)

lemma low_bits_rules:
  "low_bits (numeral k) 0 = False # low_bits (pred_numeral k) 0"
  "low_bits (numeral k) 1 = True # low_bits (pred_numeral k) 0"
  "low_bits (numeral k) (numeral num.One) = True # low_bits (pred_numeral k) 0"
  "low_bits (numeral k) (numeral (num.Bit0 m)) = False # low_bits (pred_numeral k) (numeral m)"
  "low_bits (numeral k) (numeral (num.Bit1 m)) = True # low_bits (pred_numeral k) (numeral m)"
  by (simp_all add: numeral_eq_Suc[of k] low_bits_Suc)

lemma separated_numeral:
  "separated (numeral k) (p # q # ps) =
     (separated (pred_numeral k) (branch False (p # q # ps)) \<and> separated (pred_numeral k) (branch True (p # q # ps)))"
  by (simp only: numeral_eq_Suc separated.simps)

lemma low_bits_Suc_rules:
  "low_bits (Suc k) 0 = False # low_bits k 0"
  "low_bits (Suc k) 1 = True # low_bits k 0"
  "low_bits (Suc k) (numeral num.One) = True # low_bits k 0"
  "low_bits (Suc k) (numeral (num.Bit0 m)) = False # low_bits k (numeral m)"
  "low_bits (Suc k) (numeral (num.Bit1 m)) = True # low_bits k (numeral m)"
  by (simp_all add: low_bits_Suc)

lemma low_bits_expand:
  "low_bits 5 x = low_bits (Suc (Suc (Suc (Suc (Suc 0))))) x"
  "low_bits 6 x = low_bits (Suc (Suc (Suc (Suc (Suc (Suc 0)))))) x"
  "low_bits 9 x = low_bits (Suc (Suc (Suc (Suc (Suc (Suc (Suc (Suc (Suc 0))))))))) x"
  "low_bits 10 x = low_bits (Suc (Suc (Suc (Suc (Suc (Suc (Suc (Suc (Suc (Suc 0)))))))))) x"
  "low_bits 11 x = low_bits (Suc (Suc (Suc (Suc (Suc (Suc (Suc (Suc (Suc (Suc (Suc 0))))))))))) x"
  by (simp_all add: eval_nat_numeral)

lemma replicate_expand:
  "replicate 5 x = [x, x, x, x, x]" "replicate 11 x = [x, x, x, x, x, x, x, x, x, x, x]"
  by (simp_all add: eval_nat_numeral)

lemmas pattern_eval = list.map ii_pattern.simps xo_pattern.simps low_bits_expand low_bits_Suc_rules low_bits_0
  replicate_expand append_Cons append_Nil

lemma table_separated:
  "separated 17 (map ii_pattern (tl (map ii_key powerpc_ii_table) @ [(D_form, 6, 0)]))"
  apply (simp only: powerpc_ii_table_def map_append ii_keys append_Cons append_Nil list.sel)
  apply (simp only: pattern_eval)
  apply (simp only: separated_numeral separated.simps branch.simps pred_numeral_simps simp_thms BitM.simps)
  done

definition agrees :: "bool option list \<Rightarrow> bool list \<Rightarrow> bool" where
  "agrees p bs \<longleftrightarrow> list_all2 (\<lambda>c b. c = None \<or> c = Some b) p bs"

lemma branch_agrees:
  "length (filter (\<lambda>p. agrees p (b # bs)) ps) = length (filter (\<lambda>p. agrees p bs) (branch b ps))"
  by (induction b ps rule: branch.induct) (auto simp: agrees_def)

lemma separated_unique:
  "separated n ps \<Longrightarrow> length bs = n \<Longrightarrow> length (filter (\<lambda>p. agrees p bs) ps) \<le> 1"
proof (induction n ps arbitrary: bs rule: separated.induct)
  case (4 n p q ps)
  then obtain b bs' where bs: "bs = b # bs'" "length bs' = n" by (cases bs) auto
  then show ?case
    using 4 unfolding bs(1) branch_agrees by (cases b) auto
qed auto

definition index_bits :: "u32 \<Rightarrow> bool list" where
  "index_bits w = low_bits 6 (unat w div 2 ^ 26) @ low_bits 11 (unat w mod 2048)"

lemma agrees_append: "agrees p xs \<Longrightarrow> agrees q ys \<Longrightarrow> agrees (p @ q) (xs @ ys)"
  by (simp add: agrees_def list_all2_appendI)

lemma agrees_map_Some: "agrees (map Some xs) xs"
  by (simp add: agrees_def list_all2_conv_all_nth)

lemma agrees_replicate: "length xs = n \<Longrightarrow> agrees (replicate n None) xs"
  by (simp add: agrees_def list_all2_conv_all_nth)

lemma agrees_None: "agrees p xs \<Longrightarrow> agrees (None # p) (x # xs)"
  by (simp add: agrees_def)

lemma length_low_bits [simp]: "length (low_bits n x) = n"
  by (simp add: low_bits_def)

lemma low_bits_add: "low_bits (m + n) x = low_bits m x @ low_bits n (x div 2 ^ m)"
  by (induction m arbitrary: x) (simp_all add: low_bits_0 low_bits_Suc div_mult2_eq)

lemma low_bits_mod: "low_bits n (x mod 2 ^ n) = low_bits n x"
  by (simp add: low_bits_def take_bit_eq_mod[symmetric] bit_take_bit_iff)

lemma xo_pattern_agrees:
  assumes "xo_matches fmt xo w"
  shows "agrees (xo_pattern fmt xo) (low_bits 11 (unat w mod 2048))"
proof -
  define x where "x = unat w mod 2048"
  have a: "low_bits 11 x = low_bits 10 x @ low_bits 1 (x div 1024)"
    "low_bits 11 x = low_bits 6 x @ low_bits 5 (x div 64)"
    "low_bits 11 x = odd x # low_bits 10 (x div 2)"
    "low_bits 10 (x div 2) = low_bits 9 (x div 2) @ low_bits 1 (x div 2 div 512)"
    "low_bits 10 (x div 2) = low_bits 5 (x div 2) @ low_bits 5 (x div 2 div 32)"
    using low_bits_add[of 10 1 x] low_bits_add[of 6 5 x] low_bits_Suc[of 10 x]
      low_bits_add[of 9 1 "x div 2"] low_bits_add[of 5 5 "x div 2"] by simp_all
  have m: "low_bits 10 (x mod 1024) = low_bits 10 x" "low_bits 6 (x mod 64) = low_bits 6 x"
    "low_bits 9 (x mod 1024 div 2) = low_bits 9 (x div 2)" "low_bits 5 (x mod 64 div 2) = low_bits 5 (x div 2)"
    using low_bits_mod[of 10 x] low_bits_mod[of 6 x] low_bits_mod[of 9 "x div 2"] low_bits_mod[of 5 "x div 2"]
      div_mod_mult2[of x 2 512] div_mod_mult2[of x 2 32] by simp_all
  have r: "agrees [None] (low_bits 1 y)" "agrees (replicate 5 None) (low_bits 5 y)" for y
    using agrees_replicate[of "low_bits 1 y" 1] agrees_replicate[of "low_bits 5 y" 5] by simp_all
  note rules = agrees_append agrees_None agrees_map_Some r
  have X: "agrees (None # map Some (low_bits 10 (x div 2))) (low_bits 11 x)"
    unfolding a(3) by (intro rules)
  have full: "agrees (map Some (low_bits 11 x)) (low_bits 11 x)" by (rule agrees_map_Some)
  have free: "agrees (replicate 11 None) (low_bits 11 x)" by (simp add: agrees_replicate)
  have "agrees (xo_pattern fmt xo) (low_bits 11 x)"
  proof (cases fmt)
    case XO_form
    with assms have xo: "xo = x mod 1024 div 2" by (simp add: opcode_fields x_def)
    show ?thesis unfolding XO_form xo_pattern.simps a(3) a(4) xo m by (intro rules)
  next
    case A_form
    with assms have xo: "xo = x mod 64 div 2" by (simp add: opcode_fields x_def)
    show ?thesis unfolding A_form xo_pattern.simps a(3) a(5) xo m by (intro rules)
  next
    case VXR_form
    with assms have xo: "xo = x mod 1024" by (simp add: opcode_fields x_def)
    show ?thesis unfolding VXR_form xo_pattern.simps a(1) xo m by (intro rules)
  next
    case VA_form
    with assms have xo: "xo = x mod 64" by (simp add: opcode_fields x_def)
    show ?thesis unfolding VA_form xo_pattern.simps a(2) xo m by (intro rules)
  qed (use assms X full free in \<open>auto simp: opcode_fields x_def[symmetric]\<close>)
  then show ?thesis by (simp add: x_def)
qed

lemma ii_pattern_agrees:
  assumes "ii_format ii \<noteq> INVALID_form" "ii_matches ii w"
  shows "agrees (ii_pattern (ii_key ii)) (index_bits w)"
  using assms agrees_append[OF agrees_map_Some xo_pattern_agrees]
  by (simp add: ii_key_def index_bits_def ii_matches_def opcode_fields)

lemma filter_matches_le_1:
  assumes "separated 17 (map ii_pattern (map ii_key iis))" "\<forall>ii\<in>set iis. ii_format ii \<noteq> INVALID_form"
  shows "length (filter (\<lambda>ii. ii_matches ii w) iis) \<le> 1"
proof -
  let ?p = "\<lambda>ii. ii_pattern (ii_key ii)"
  have "length (filter (\<lambda>ii. ii_matches ii w) iis) \<le> length (filter (\<lambda>ii. agrees (?p ii) (index_bits w)) iis)"
    using assms(2) ii_pattern_agrees by (induction iis) auto
  also have "\<dots> = length (filter (\<lambda>p. agrees p (index_bits w)) (map ii_pattern (map ii_key iis)))"
    by (simp add: filter_map comp_def)
  also have "\<dots> \<le> 1"
    by (rule separated_unique[OF assms(1)]) (simp add: index_bits_def)
  finally show ?thesis .
qed

section \<open>The table of the program\<close>

abbreviation full_ii_table :: "instr_info_t list" where
  "full_ii_table \<equiv> powerpc_ii_table @ sheep_ii_table"

lemma sheep_key: "map ii_key sheep_ii_table = [(D_form, 6, 0)]"
  by (simp add: sheep_ii_table_def ii_key_def)

lemma powerpc_ii_table_keys_ne: "map ii_key powerpc_ii_table \<noteq> []"
  by (simp only: powerpc_ii_table_def map_append ii_keys append_Cons) simp

lemma powerpc_ii_table_ne [simp]: "powerpc_ii_table \<noteq> []"
  using powerpc_ii_table_keys_ne by auto

lemma length_powerpc_ii_table: "length powerpc_ii_table = 332"
proof -
  have "length (map ii_key powerpc_ii_table) = 332"
    by (simp only: powerpc_ii_table_def map_append ii_keys length_append) simp
  then show ?thesis by simp
qed

definition key_loadable :: "instr_format_t \<times> nat \<times> nat \<Rightarrow> bool" where
  "key_loadable k = (case k of (fmt, opcode, xo) \<Rightarrow>
     opcode < 64 \<and> xo < xo_bound fmt \<and> fmt \<notin> {INVALID_form, DS_form, MD_form, MDS_form, XS_form})"

lemma loadable_key: "loadable ii \<longleftrightarrow> key_loadable (ii_key ii)"
  by (cases "ii_format ii") (auto simp: loadable_def wf_ii_def key_loadable_def ii_key_def)

lemma tl_keys_loadable: "list_all key_loadable (tl (map ii_key powerpc_ii_table))"
  by (simp only: powerpc_ii_table_def map_append ii_keys append_Cons append_Nil list.sel)
     (simp add: key_loadable_def)

lemma hd_key: "ii_key (hd powerpc_ii_table) = (INVALID_form, 0, 0)"
proof -
  have "hd (map ii_key powerpc_ii_table) = (INVALID_form, 0, 0)"
    by (simp only: powerpc_ii_table_def map_append ii_keys append_Cons append_Nil list.sel)
  then show ?thesis by (simp add: hd_map)
qed

lemma tl_table_loadable: "list_all loadable (tl full_ii_table)"
proof -
  have "list_all key_loadable (map ii_key (tl full_ii_table))"
    using tl_keys_loadable by (simp add: map_tl sheep_key) (simp add: key_loadable_def)
  then show ?thesis by (simp add: list.pred_map comp_def loadable_key[symmetric])
qed

lemma full_table_unique: "length (filter (\<lambda>ii. ii_matches ii w) (tl full_ii_table)) \<le> 1"
proof (rule filter_matches_le_1)
  show "separated 17 (map ii_pattern (map ii_key (tl full_ii_table)))"
    using table_separated by (simp only: tl_append2[OF powerpc_ii_table_ne] map_append map_tl sheep_key)
  show "\<forall>ii\<in>set (tl full_ii_table). ii_format ii \<noteq> INVALID_form"
    using tl_table_loadable by (auto simp: list_all_iff loadable_def)
qed

text \<open>
  The construction of a \<^verbatim>\<open>sheepshaver_cpu\<close>: the base constructor loads the table of the
  processor core, the derived one adds its own entry.
\<close>

definition load_decoder :: "decoder \<Rightarrow> decoder option" where
  "load_decoder d = (case init_decoder d of None \<Rightarrow> None | Some d \<Rightarrow> sheepshaver_init_decoder d)"

lemma full_ii_table_eq: "full_ii_table = hd powerpc_ii_table # tl full_ii_table"
  using powerpc_ii_table_ne by (cases powerpc_ii_table) simp_all

lemma load_decoder_inv:
  assumes "ii_table d0 = []"
  shows "\<exists>d. load_decoder d0 = Some d \<and> ii_table d = full_ii_table \<and> decoder_inv d"
proof -
  have inv: "ii_format (hd powerpc_ii_table) = INVALID_form"
    using hd_key by (simp add: ii_key_def)
  have la: "list_all loadable (tl powerpc_ii_table)" "list_all loadable sheep_ii_table"
    using tl_table_loadable by (simp_all add: tl_append2[OF powerpc_ii_table_ne])
  have tl: "powerpc_ii_table = hd powerpc_ii_table # tl powerpc_ii_table" by simp
  have lt: "length (tl powerpc_ii_table) = 331" by (simp add: length_powerpc_ii_table)
  have ls: "length sheep_ii_table = 1" by (simp add: sheep_ii_table_def)
  obtain d1 where d1: "init_decoder_entry (hd powerpc_ii_table) d0 = Some d1"
      "ii_table d1 = [hd powerpc_ii_table]" "decoder_inv d1"
    using init_decoder_entry_invalid[OF inv assms] by blast
  obtain d2 where d2: "init_decoder_entries (tl powerpc_ii_table) d1 = Some d2"
      "ii_table d2 = powerpc_ii_table" "decoder_inv d2"
    using init_decoder_entries_inv[OF d1(3) _ _ la(1)] d1(2) lt tl by (auto simp: length_powerpc_ii_table)
  have "init_decoder_entries powerpc_ii_table d0 = Some d2"
    using d1(1) d2(1) by (subst tl) (simp only: init_decoder_entries.simps option.case)
  then have "init_decoder d0 = Some d2"
    by (simp add: init_decoder_def length_powerpc_ii_table)
  moreover obtain d3 where "init_decoder_entries sheep_ii_table d2 = Some d3"
      "ii_table d3 = full_ii_table" "decoder_inv d3"
    using init_decoder_entries_inv[OF d2(3) _ _ la(2)] d2(2) ls by (auto simp: length_powerpc_ii_table)
  ultimately show ?thesis
    by (intro exI[of _ d3]) (simp add: load_decoder_def sheepshaver_init_decoder_def)
qed

text \<open>
  C3: The constructors load the instruction table without aborting, whatever the index
  table holds before, and every instruction word then decodes to the last entry of the table
  whose primary and extended opcode fields it has.
\<close>
theorem decode_refines_search:
  "ii_table d0 = [] \<Longrightarrow>
   \<exists>d. load_decoder d0 = Some d \<and> (\<forall>w. decode d w = search_ii (powerpc_ii_table @ sheep_ii_table) w)"
  using load_decoder_inv[of d0] by (auto simp: decoder_inv_def)

theorem decode_refines_search_witness:
  "\<exists>d. load_decoder empty_decoder = Some d \<and>
       (\<forall>w. decode d w = search_ii (powerpc_ii_table @ sheep_ii_table) w)"
  using decode_refines_search[of empty_decoder] by (simp add: empty_decoder_def)

lemma filter_le_1_last:
  assumes "length (filter P xs) \<le> 1" "x \<in> set xs" "P x"
  shows "last (y # filter P xs) = x"
proof -
  have "x \<in> set (filter P xs)" using assms(2,3) by simp
  with assms(1) show ?thesis by (cases "filter P xs") auto
qed

lemma search_full_table:
  "search_ii full_ii_table w = last (hd powerpc_ii_table # filter (\<lambda>ii. ii_matches ii w) (tl full_ii_table))"
proof -
  have "ii_matches (hd powerpc_ii_table) w" using hd_key by (simp add: ii_matches_def ii_key_def)
  then show ?thesis unfolding search_ii_def by (subst full_ii_table_eq) simp
qed

lemma hd_powerpc_ii_table: "hd powerpc_ii_table = instr_info ''invalid'' pmf_illegal ''INVALID'' INVALID_form 0 0 CFLOW_TRAP"
  by (simp only: powerpc_ii_table_def powerpc_ii_table_01_def append_Cons list.sel)

text \<open>
  The entries of the instruction table do not overlap: a word that has the opcode fields
  of an entry decodes to that entry, and a word that has those of none decodes to the illegal
  instruction.
\<close>
theorem decode_unique:
  assumes "ii_table d0 = []" and "load_decoder d0 = Some d"
  shows "(\<forall>ii\<in>set (tl (powerpc_ii_table @ sheep_ii_table)). ii_matches ii w \<longrightarrow> decode d w = ii) \<and>
    ((\<forall>ii\<in>set (tl (powerpc_ii_table @ sheep_ii_table)). \<not> ii_matches ii w) \<longrightarrow>
     ii_execute (decode d w) = pmf_illegal)"
proof (intro conjI ballI impI)
  have dec: "decode d w = search_ii full_ii_table w"
    using load_decoder_inv[OF assms(1)] assms(2) by (auto simp: decoder_inv_def)
  show "decode d w = ii" if "ii \<in> set (tl full_ii_table)" "ii_matches ii w" for ii
    unfolding dec search_full_table by (rule filter_le_1_last[OF full_table_unique that])
  show "ii_execute (decode d w) = pmf_illegal" if "\<forall>ii\<in>set (tl full_ii_table). \<not> ii_matches ii w"
  proof -
    have "filter (\<lambda>ii. ii_matches ii w) (tl full_ii_table) = []"
      using that by (simp add: filter_empty_conv)
    then show ?thesis unfolding dec search_full_table by (simp add: hd_powerpc_ii_table)
  qed
qed

lemma tl_full_ii_table: "set (tl full_ii_table) = set (tl powerpc_ii_table_01) \<union> set (powerpc_ii_table_02 @ powerpc_ii_table_03 @
     powerpc_ii_table_04 @ powerpc_ii_table_05 @ powerpc_ii_table_06 @
     powerpc_ii_table_07 @ powerpc_ii_table_08 @ powerpc_ii_table_09 @
     powerpc_ii_table_10 @ powerpc_ii_table_11 @ powerpc_ii_table_12 @ sheep_ii_table)"
proof -
  have "powerpc_ii_table_01 \<noteq> []" by (simp add: powerpc_ii_table_01_def)
  then show ?thesis by (simp add: powerpc_ii_table_def)
qed

theorem decode_unique_witness:
  "\<exists>d. load_decoder empty_decoder = Some d \<and>
       ii_name (decode d 0x18000001) = ''sheep'' \<and> ii_execute (decode d 0x18000001) = pmf_sheep"
proof -
  let ?ii = "instr_info ''sheep'' pmf_sheep ''SHEEP'' D_form 6 0 (CFLOW_JUMP OR CFLOW_TRAP)"
  have e: "ii_table empty_decoder = []" by (simp add: empty_decoder_def)
  obtain d where d: "load_decoder empty_decoder = Some d" using load_decoder_inv[OF e] by blast
  have "decode d 0x18000001 = ?ii"
  proof (rule decode_unique[OF e d, THEN conjunct1, rule_format])
    show "?ii \<in> set (tl (powerpc_ii_table @ sheep_ii_table))"
      unfolding tl_full_ii_table by (simp add: sheep_ii_table_def)
    show "ii_matches ?ii 0x18000001" by (simp add: ii_matches_def opcode_fields)
  qed
  then show ?thesis using d by (intro exI[of _ d]) simp
qed

lemma decode_in_table:
  assumes "ii_table d0 = []" "load_decoder d0 = Some d"
  shows "decode d w \<in> set full_ii_table"
proof -
  have "decoder_inv d" "ii_table d = full_ii_table"
    using load_decoder_inv[OF assms(1)] assms(2) by auto
  then show ?thesis unfolding decoder_inv_def decode_def by (metis nth_mem)
qed

end
