(* ===== verification/PPC_Flow.thy ===== *)
theory PPC_Flow
  imports PPC_Decoder
begin

unbundle bit_operations_syntax

text \<open>
  What the instruction handlers do to the flow of control. A handler \<^emph>\<open>advances\<close> when it
  leaves the special flags of the processor alone and ends at the next instruction word.
  Every handler of the table but those of branches, traps and cache management advances, and
  every handler keeps the invariant of the register file.
\<close>

definition same_flow :: "powerpc_cpu \<Rightarrow> powerpc_cpu \<Rightarrow> bool" where
  "same_flow s t \<longleftrightarrow> pc t = pc s \<and> spcflags t = spcflags s"

definition advances :: "powerpc_cpu \<Rightarrow> result \<Rightarrow> bool" where
  "advances s r \<longleftrightarrow> (\<forall>t. r = Inr t \<longrightarrow> pc t = pc s + 4 \<and> spcflags t = spcflags s)"

definition flow_result :: "powerpc_cpu \<Rightarrow> result \<Rightarrow> bool" where
  "flow_result s r \<longleftrightarrow> (\<forall>t. r = Inr t \<longrightarrow> same_flow s t)"

named_theorems flow_intros \<open>what leaves the program counter and the special flags alone\<close>

section \<open>State updates\<close>

lemma same_flow_refl [flow_intros, simp]: "same_flow s s"
  by (simp add: same_flow_def)

lemma same_flow_updates [flow_intros]:
  assumes "same_flow s t"
  shows "same_flow s (set_gpr i v t)" "same_flow s (set_fpr i w t)" "same_flow s (set_vr i x t)"
    "same_flow s (record_cr crfd n t)" "same_flow s (record_cr0 v t)" "same_flow s (record_cr1 t)"
    "same_flow s (record_cr6 x b t)" "same_flow s (set_vscr_sat b t)"
    "same_flow s (voperand_set VD opcode k y t)" "same_flow s (fp_classify_d u t)"
    "same_flow s (fp_classify_f v t)" "same_flow s (record_fpscr v t)" "same_flow s (update_host_rounding v t)"
  using assms
  by (simp_all add: same_flow_def set_gpr_def set_fpr_def set_vr_def record_cr_def record_cr0_def
      record_cr1_def record_cr6_def set_vscr_sat_def voperand_set_def Let_def fp_classify_d_def
      fp_classify_f_def record_fpscr_def update_host_rounding_def)

lemma same_flow_fields [flow_intros]:
  assumes "same_flow s t"
  shows "same_flow s (t\<lparr>gpr := g\<rparr>)" "same_flow s (t\<lparr>xer := x\<rparr>)" "same_flow s (t\<lparr>cr := c\<rparr>)"
    "same_flow s (t\<lparr>lr := l\<rparr>)" "same_flow s (t\<lparr>ctr := c\<rparr>)" "same_flow s (t\<lparr>fpscr := f\<rparr>)"
    "same_flow s (t\<lparr>vscr := v\<rparr>)" "same_flow s (t\<lparr>vrsave := v\<rparr>)" "same_flow s (t\<lparr>mem := m\<rparr>)"
    "same_flow s (t\<lparr>host_round := r\<rparr>)" "same_flow s (t\<lparr>reserve_valid := w\<rparr>)"
    "same_flow s (t\<lparr>reserve_addr := w\<rparr>)" "same_flow s (t\<lparr>fpr := fp\<rparr>)" "same_flow s (t\<lparr>vr := vx\<rparr>)"
  using assms by (simp_all add: same_flow_def)

lemma same_flow_upd_if [flow_intros]:
  "same_flow s t \<Longrightarrow> (\<And>t. same_flow s t \<Longrightarrow> same_flow s (f t)) \<Longrightarrow> same_flow s (upd_if b f t)"
  by (simp add: upd_if_def)

lemma same_flow_if [flow_intros]:
  "(b \<Longrightarrow> same_flow s t) \<Longrightarrow> (\<not> b \<Longrightarrow> same_flow s u) \<Longrightarrow> same_flow s (if b then t else u)"
  by simp

lemma same_flow_fold [flow_intros]:
  "same_flow s t \<Longrightarrow> (\<And>i t. same_flow s t \<Longrightarrow> same_flow s (f i t)) \<Longrightarrow> same_flow s (fold f is t)"
  by (induction "is" arbitrary: t) auto

lemma same_flow_update_xer [flow_intros]: "same_flow s t \<Longrightarrow> same_flow s (update_xer f t)"
  by (simp add: same_flow_def update_xer_def)

lemma same_flow_case_prod [flow_intros]:
  "(\<And>a b. same_flow s (f a b)) \<Longrightarrow> same_flow s (case p of (a, b) \<Rightarrow> f a b)"
  by (cases p) simp

lemma same_flow_case_fp_type [flow_intros]:
  "same_flow s (f t) \<Longrightarrow> same_flow s (g t) \<Longrightarrow> same_flow s ((case FP of FP_double \<Rightarrow> f | FP_float \<Rightarrow> g) t)"
  by (cases FP) simp_all

lemma same_flow_vector_commit [flow_intros]:
  "same_flow s t \<Longrightarrow> same_flow s (vector_commit VD opcode i d t)"
  by (simp add: vector_commit_def flow_intros split: prod.split)

section \<open>Results\<close>

lemma flow_result_Inr [flow_intros]: "same_flow s t \<Longrightarrow> flow_result s (Inr t)"
  by (simp add: flow_result_def)

lemma flow_result_set [flow_intros]:
  "same_flow s t \<Longrightarrow> flow_result s (operand_set x opcode v t)"
  "same_flow s t \<Longrightarrow> flow_result s (fp_operand_set y opcode w t)"
  by (cases x; simp add: flow_result_def flow_intros; fail) (cases y; simp add: flow_result_def flow_intros)

lemma flow_result_if [flow_intros]:
  "(b \<Longrightarrow> flow_result s r) \<Longrightarrow> (\<not> b \<Longrightarrow> flow_result s q) \<Longrightarrow> flow_result s (if b then r else q)"
  by simp

lemma advances_step [flow_intros]: "same_flow s t \<Longrightarrow> advances s (Inr (increment_pc 4 t))"
  by (simp add: advances_def same_flow_def)

lemma advances_Inl [flow_intros]: "advances s (Inl e)"
  by (simp add: advances_def)

lemma advances_if [flow_intros]:
  "(b \<Longrightarrow> advances s r) \<Longrightarrow> (\<not> b \<Longrightarrow> advances s q) \<Longrightarrow> advances s (if b then r else q)"
  by simp

lemma advances_and_then [flow_intros]:
  "flow_result s r \<Longrightarrow> (\<And>t. same_flow s t \<Longrightarrow> advances s (f t)) \<Longrightarrow> advances s (and_then r f)"
  by (cases r) (simp_all add: flow_result_def advances_def)

lemma advances_case_prod [flow_intros]:
  "(\<And>a b. advances s (f a b)) \<Longrightarrow> advances s (case p of (a, b) \<Rightarrow> f a b)"
  by (cases p) simp

lemma advances_case_state:
  "same_flow s (snd p) \<Longrightarrow> (\<And>a t. same_flow s t \<Longrightarrow> advances s (f a t)) \<Longrightarrow> advances s (case p of (a, t) \<Rightarrow> f a t)"
  by (cases p) simp

section \<open>The loops of the handlers\<close>

lemma same_flow_loadstore_multiple_loop [flow_intros]:
  "same_flow s t \<Longrightarrow> same_flow s (loadstore_multiple_loop LD r ea t)"
proof (induction LD r ea t rule: loadstore_multiple_loop.induct)
  case (1 LD r ea t)
  then show ?case by (subst loadstore_multiple_loop.simps) (simp add: flow_intros)
qed

lemma same_flow_load_string_loop:
  "same_flow s t \<Longrightarrow> same_flow s (snd (snd (load_string_loop ea nb i rd t)))"
proof (induction ea nb i rd t rule: load_string_loop.induct)
  case (1 ea nb i rd t)
  then show ?case by (subst load_string_loop.simps) (simp add: flow_intros)
qed

lemma same_flow_load_string_tail [flow_intros]:
  "same_flow s t \<Longrightarrow> same_flow s (load_string_tail ea nb i rd t)"
  unfolding load_string_tail_def Let_def by (intro flow_intros)

lemma same_flow_store_string_loop [flow_intros]:
  "same_flow s t \<Longrightarrow> same_flow s (store_string_loop ea nb i rs sh t)"
proof (induction ea nb i rs sh t rule: store_string_loop.induct)
  case (1 ea nb i rs sh t)
  then show ?case by (subst store_string_loop.simps) (simp add: flow_intros Let_def)
qed

lemma same_flow_vector_steps [flow_intros]:
  "same_flow s t \<Longrightarrow> same_flow s (vector_arith_step H OP VD VA VB VC opcode i t)"
  "same_flow s t \<Longrightarrow> same_flow s (vector_arith_mixed_step H OP VD VA VB VC opcode i t)"
  "same_flow s t \<Longrightarrow> same_flow s (vector_arith_odd_step ODD H OP VD VA VB VC opcode i t)"
  "same_flow s t \<Longrightarrow> same_flow s (vector_merge_step VD VA VB LO opcode i t)"
  "same_flow s t \<Longrightarrow> same_flow s (vector_pack_step VD VA VB opcode i t)"
  "same_flow s t \<Longrightarrow> same_flow s (vector_shift_octet_step SD VD VA VB opcode sh i t)"
  "same_flow s t \<Longrightarrow> same_flow s (vector_permute_step vA vB vC vD i t)"
  unfolding vector_arith_step_def vector_arith_mixed_step_def vector_arith_odd_step_def
    vector_merge_step_def vector_pack_step_def vector_shift_octet_step_def vector_permute_step_def Let_def
  by (intro flow_intros; assumption)+

section \<open>The handlers\<close>

lemma advances_addition: "advances s (execute_addition RA RB RC CA OE Rc opcode s)"
  unfolding execute_addition_def Let_def by (intro flow_intros)

lemma advances_generic_arith: "advances s (execute_generic_arith OP RD RA RB RC OE Rc opcode s)"
  unfolding execute_generic_arith_def Let_def by (intro flow_intros)

lemma advances_rlwimi: "advances s (execute_rlwimi SH MA Rc opcode s)"
  unfolding execute_rlwimi_def Let_def by (intro flow_intros)

lemma advances_shift: "advances s (execute_shift OP RD RA SH SO CA Rc opcode s)"
  unfolding execute_shift_def Let_def by (intro flow_intros)

lemma advances_compare: "advances s (execute_compare RB CT opcode s)"
  unfolding execute_compare_def Let_def by (intro flow_intros)

lemma advances_cr_op: "advances s (execute_cr_op OP opcode s)"
  unfolding execute_cr_op_def Let_def by (intro flow_intros)

lemma same_flow_do_execute_divide: "same_flow s (snd (do_execute_divide SB OE a b s))"
  by (simp add: do_execute_divide_def Let_def flow_intros split: prod.split)

lemma advances_divide: "advances s (execute_divide SB OE Rc opcode s)"
  unfolding execute_divide_def Let_def
  by (rule advances_case_state) (simp_all add: same_flow_do_execute_divide flow_intros)

lemma advances_multiply: "advances s (execute_multiply HI SB OE Rc opcode s)"
  unfolding execute_multiply_def Let_def by (intro flow_intros)

lemma advances_loadstore: "advances s (execute_loadstore OP RA RB LD SZ UP RX opcode s)"
  unfolding execute_loadstore_def Let_def by (intro flow_intros)

lemma advances_loadstore_multiple: "advances s (execute_loadstore_multiple RA DP LD opcode s)"
  unfolding execute_loadstore_multiple_def Let_def by (intro flow_intros)

lemma advances_load_string: "advances s (execute_load_string RA IM NB opcode s)"
  using same_flow_load_string_loop[OF same_flow_refl]
  by (auto simp: execute_load_string_def Let_def split_beta intro!: flow_intros)

lemma advances_store_string: "advances s (execute_store_string RA IM NB opcode s)"
  unfolding execute_store_string_def Let_def by (intro flow_intros)

lemma advances_lwarx: "advances s (execute_lwarx RA opcode s)"
  unfolding execute_lwarx_def Let_def by (intro flow_intros)

lemma advances_stwcx: "advances s (execute_stwcx RA opcode s)"
  unfolding execute_stwcx_def Let_def by (intro flow_intros)

lemma advances_dcbz: "advances s (execute_dcbz RA RB opcode s)"
  unfolding execute_dcbz_def Let_def by (intro flow_intros)

lemma advances_nop: "advances s (execute_nop opcode s)"
  unfolding execute_nop_def Let_def by (intro flow_intros)

lemma advances_mcrf: "advances s (execute_mcrf opcode s)"
  unfolding execute_mcrf_def Let_def by (intro flow_intros)

lemma advances_mcrfs: "advances s (execute_mcrfs opcode s)"
  unfolding execute_mcrfs_def Let_def by (intro flow_intros)

lemma advances_mcrxr: "advances s (execute_mcrxr opcode s)"
  unfolding execute_mcrxr_def Let_def by (intro flow_intros)

lemma advances_mtcrf: "advances s (execute_mtcrf opcode s)"
  unfolding execute_mtcrf_def Let_def by (intro flow_intros)

lemma advances_mtfsf: "advances s (execute_mtfsf FM RB Rc opcode s)"
  unfolding execute_mtfsf_def Let_def by (intro flow_intros)

lemma advances_mtfsfi: "advances s (execute_mtfsfi RB Rc opcode s)"
  unfolding execute_mtfsfi_def Let_def by (intro flow_intros)

lemma advances_mtfsb: "advances s (execute_mtfsb RB Rc opcode s)"
  unfolding execute_mtfsb_def Let_def by (intro flow_intros)

lemma advances_mffs: "advances s (execute_mffs Rc opcode s)"
  unfolding execute_mffs_def Let_def by (intro flow_intros)

lemma advances_mfmsr: "advances s (execute_mfmsr opcode s)"
  unfolding execute_mfmsr_def Let_def by (intro flow_intros)

lemma advances_mfspr: "advances s (execute_mfspr H SPR opcode s)"
  unfolding execute_mfspr_def Let_def by (intro flow_intros)

lemma advances_mtspr: "advances s (execute_mtspr SPR opcode s)"
  unfolding execute_mtspr_def Let_def by (intro flow_intros)

lemma advances_fp_arith: "advances s (execute_fp_arith H FP OP RD RA RB RC Rc FPSCR opcode s)"
  unfolding execute_fp_arith_def Let_def by (intro flow_intros)

lemma advances_fp_compare: "advances s (execute_fp_compare OC opcode s)"
  unfolding execute_fp_compare_def Let_def by (intro flow_intros)

lemma advances_fp_int_convert: "advances s (execute_fp_int_convert H RN Rc opcode s)"
  unfolding execute_fp_int_convert_def Let_def
  by (rule advances_case_state) (simp_all add: flow_intros)

lemma advances_fp_round: "advances s (execute_fp_round H Rc opcode s)"
  unfolding execute_fp_round_def Let_def by (intro flow_intros)

lemma advances_fp_loadstore: "advances s (execute_fp_loadstore H RA RB LD DB UP opcode s)"
  unfolding execute_fp_loadstore_def Let_def by (intro flow_intros)

lemma advances_vector_load_for_shift: "advances s (execute_vector_load_for_shift SL opcode s)"
  unfolding execute_vector_load_for_shift_def Let_def by (intro flow_intros)

lemma advances_vector_load: "advances s (execute_vector_load VD RA RB opcode s)"
  unfolding execute_vector_load_def Let_def by (intro flow_intros)

lemma advances_vector_store: "advances s (execute_vector_store VD RA RB opcode s)"
  unfolding execute_vector_store_def Let_def by (intro flow_intros)

lemma advances_vector_arith: "advances s (execute_vector_arith H OP VD VA VB VC Rc C1 opcode s)"
  unfolding execute_vector_arith_def Let_def by (intro flow_intros)

lemma advances_vector_arith_mixed: "advances s (execute_vector_arith_mixed H OP VD VA VB VC opcode s)"
  unfolding execute_vector_arith_mixed_def Let_def by (intro flow_intros)

lemma advances_vector_arith_odd: "advances s (execute_vector_arith_odd ODD H OP VD VA VB VC opcode s)"
  unfolding execute_vector_arith_odd_def Let_def by (intro flow_intros)

lemma advances_vector_merge: "advances s (execute_vector_merge VD VA VB LO opcode s)"
  unfolding execute_vector_merge_def Let_def by (intro flow_intros)

lemma advances_vector_pack: "advances s (execute_vector_pack VD VA VB opcode s)"
  unfolding execute_vector_pack_def Let_def by (intro flow_intros)

lemma advances_vector_unpack: "advances s (execute_vector_unpack LO VD VA opcode s)"
  unfolding execute_vector_unpack_def Let_def by (intro flow_intros)

lemma advances_vector_pack_pixel: "advances s (execute_vector_pack_pixel opcode s)"
  unfolding execute_vector_pack_pixel_def Let_def by (intro flow_intros)

lemma advances_vector_unpack_pixel: "advances s (execute_vector_unpack_pixel LO opcode s)"
  unfolding execute_vector_unpack_pixel_def Let_def by (intro flow_intros)

lemma same_flow_vector_shift_steps [flow_intros]:
  "same_flow s (snd p) \<Longrightarrow> same_flow s (snd (fold (vector_shift_left_step vA vD sh) is p))"
  "same_flow s (snd p) \<Longrightarrow> same_flow s (snd (fold (vector_shift_right_step vA vD sh) is p))"
  by (induction "is" arbitrary: p)
     (simp_all add: vector_shift_left_step_def vector_shift_right_step_def Let_def split_beta flow_intros)

lemma advances_vector_shift: "advances s (execute_vector_shift SD opcode s)"
  unfolding execute_vector_shift_def Let_def by (intro flow_intros) simp_all

lemma advances_vector_shift_octet: "advances s (execute_vector_shift_octet SD VD VA VB SH opcode s)"
  unfolding execute_vector_shift_octet_def Let_def by (intro flow_intros)

lemma advances_vector_splat: "advances s (execute_vector_splat OP VD VB IM opcode s)"
  unfolding execute_vector_splat_def Let_def by (intro flow_intros)

lemma advances_vector_sum: "advances s (execute_vector_sum SZ VD VA VB opcode s)"
  unfolding execute_vector_sum_def Let_def by (intro flow_intros)

lemma advances_vector_permute: "advances s (execute_vector_permute opcode s)"
  unfolding execute_vector_permute_def Let_def by (intro flow_intros)

lemma advances_mfvscr: "advances s (execute_mfvscr opcode s)"
  unfolding execute_mfvscr_def Let_def by (intro flow_intros)

lemma advances_mtvscr: "advances s (execute_mtvscr opcode s)"
  unfolding execute_mtvscr_def Let_def by (intro flow_intros)

lemma advances_illegal: "\<not> ignoreillegal H \<Longrightarrow> advances s (execute_illegal H opcode s)"
  by (simp add: execute_illegal_def advances_Inl)

lemma advances_syscall: "\<not> ignoreillegal H \<Longrightarrow> advances s (execute_syscall H opcode s)"
  by (simp add: execute_syscall_def execute_illegal_def advances_Inl)

lemma advances_mftbr: "\<not> ignoreillegal H \<Longrightarrow> advances s (execute_mftbr H TBR opcode s)"
  unfolding execute_mftbr_def Let_def
  by (auto simp: execute_illegal_def advances_Inl intro!: flow_intros)

section \<open>Calls through the table\<close>

text \<open>
  \<open>pmf_flow\<close> classifies the handlers: those that always advance, those that may also
  ask for the decode cache to be left, those that advance unless they meet an illegal operand
  that the preference \<^verbatim>\<open>ignoreillegal\<close> lets pass, those that end a block, and the call of
  the emulator.
\<close>

datatype pmf_flow = Advance | Cache_advance | May_trap | End_block | Leave_core

primrec flow_of :: "execute_pmf \<Rightarrow> pmf_flow" where
  "flow_of pmf_illegal = End_block"
| "flow_of pmf_nop = Advance"
| "flow_of pmf_syscall = May_trap"
| "flow_of (pmf_addition RA RB RC CA OE Rc) = Advance"
| "flow_of (pmf_generic_arith OP RD RA RB RC OE Rc) = Advance"
| "flow_of (pmf_rlwimi SH MA Rc) = Advance"
| "flow_of (pmf_shift OP RD RA SH SO CA Rc) = Advance"
| "flow_of (pmf_branch PC BO DP AA LK) = End_block"
| "flow_of (pmf_compare RB CT) = Advance"
| "flow_of (pmf_cr_op OP) = Advance"
| "flow_of (pmf_divide SB OE Rc) = Advance"
| "flow_of (pmf_multiply HI SB OE Rc) = Advance"
| "flow_of (pmf_loadstore OP RA RB LD SZ UP RX) = Advance"
| "flow_of (pmf_loadstore_multiple RA DP LD) = Advance"
| "flow_of (pmf_load_string RA IM NB) = Advance"
| "flow_of (pmf_store_string RA IM NB) = Advance"
| "flow_of (pmf_lwarx RA) = Advance"
| "flow_of (pmf_stwcx RA) = Advance"
| "flow_of (pmf_icbi RA RB) = Cache_advance"
| "flow_of pmf_isync = Cache_advance"
| "flow_of (pmf_dcbz RA RB) = Advance"
| "flow_of pmf_mcrf = Advance"
| "flow_of pmf_mcrfs = Advance"
| "flow_of pmf_mcrxr = Advance"
| "flow_of pmf_mtcrf = Advance"
| "flow_of (pmf_mtfsf FM RB Rc) = Advance"
| "flow_of (pmf_mtfsfi RB Rc) = Advance"
| "flow_of (pmf_mtfsb RB Rc) = Advance"
| "flow_of (pmf_mffs Rc) = Advance"
| "flow_of pmf_mfmsr = Advance"
| "flow_of (pmf_mfspr SPR) = Advance"
| "flow_of (pmf_mtspr SPR) = Advance"
| "flow_of (pmf_mftbr TBR) = May_trap"
| "flow_of (pmf_fp_arith FP OP RD RA RB RC Rc FPSCR) = Advance"
| "flow_of (pmf_fp_compare OC) = Advance"
| "flow_of (pmf_fp_int_convert RN Rc) = Advance"
| "flow_of (pmf_fp_round Rc) = Advance"
| "flow_of (pmf_fp_loadstore RA RB LD DB UP) = Advance"
| "flow_of (pmf_vector_load_for_shift SL) = Advance"
| "flow_of (pmf_vector_load VD RA RB) = Advance"
| "flow_of (pmf_vector_store VS RA RB) = Advance"
| "flow_of (pmf_vector_arith OP VD VA VB VC Rc C1) = Advance"
| "flow_of (pmf_vector_arith_mixed OP VD VA VB VC) = Advance"
| "flow_of (pmf_vector_arith_odd ODD OP VD VA VB VC) = Advance"
| "flow_of (pmf_vector_merge VD VA VB LO) = Advance"
| "flow_of (pmf_vector_pack VD VA VB) = Advance"
| "flow_of (pmf_vector_unpack LO VD VA) = Advance"
| "flow_of pmf_vector_pack_pixel = Advance"
| "flow_of (pmf_vector_unpack_pixel LO) = Advance"
| "flow_of (pmf_vector_shift SD) = Advance"
| "flow_of (pmf_vector_shift_octet SD VD VA VB SH) = Advance"
| "flow_of (pmf_vector_splat OP VD VB IM) = Advance"
| "flow_of (pmf_vector_sum SZ VD VA VB) = Advance"
| "flow_of pmf_vector_permute = Advance"
| "flow_of pmf_mfvscr = Advance"
| "flow_of pmf_mtvscr = Advance"
| "flow_of pmf_sheep = Leave_core"

lemmas advances_handlers = advances_addition advances_generic_arith advances_rlwimi advances_shift advances_compare
  advances_cr_op advances_divide advances_multiply advances_loadstore advances_loadstore_multiple
  advances_load_string advances_store_string advances_lwarx advances_stwcx advances_dcbz
  advances_nop advances_mcrf advances_mcrfs advances_mcrxr advances_mtcrf
  advances_mtfsf advances_mtfsfi advances_mtfsb advances_mffs advances_mfmsr
  advances_mfspr advances_mtspr advances_fp_arith advances_fp_compare advances_fp_int_convert
  advances_fp_round advances_fp_loadstore advances_vector_load_for_shift advances_vector_load advances_vector_store
  advances_vector_arith advances_vector_arith_mixed advances_vector_arith_odd advances_vector_merge advances_vector_pack
  advances_vector_unpack advances_vector_pack_pixel advances_vector_unpack_pixel advances_vector_shift advances_vector_shift_octet
  advances_vector_splat advances_vector_sum advances_vector_permute advances_mfvscr advances_mtvscr

lemma flow_of_Leave_core: "flow_of h = Leave_core \<longleftrightarrow> h = pmf_sheep"
  by (cases h) simp_all

lemma call_pmf_advances:
  "flow_of h = Advance \<Longrightarrow> advances s (call_pmf H h opcode s)"
  by (cases h) (simp_all add: advances_handlers)

lemma call_pmf_may_trap:
  "flow_of h = May_trap \<Longrightarrow> \<not> ignoreillegal H \<Longrightarrow> advances s (call_pmf H h opcode s)"
  by (cases h) (simp_all add: advances_syscall advances_mftbr)

lemma call_pmf_cache_advance:
  assumes "flow_of h = Cache_advance" and "call_pmf H h opcode s = Inr t"
  shows "pc t = pc s + 4 \<and>
    (spcflags t = spcflags s \<or> spcflags t = spcflags_set (spcflags s) SPCFLAG_JIT_EXEC_RETURN)"
  using assms
  by (cases h) (auto simp: execute_icbi_def execute_isync_def execute_invalidate_cache_range_def
      invalidate_cache_range_def Let_def)

lemmas wf_handlers = wf_execute_fp_arith wf_execute_fp_compare wf_execute_fp_int_convert wf_execute_fp_round
  wf_execute_fp_loadstore wf_execute_addition wf_execute_generic_arith wf_execute_rlwimi
  wf_execute_shift wf_execute_compare wf_execute_cr_op wf_execute_divide
  wf_execute_multiply wf_execute_illegal wf_execute_nop wf_execute_syscall
  wf_execute_mcr wf_execute_mtfs wf_execute_mfmsr wf_execute_mfspr
  wf_execute_mtspr wf_execute_mftbr wf_execute_branch wf_execute_loadstore
  wf_execute_loadstore_multiple wf_execute_load_string wf_execute_store_string wf_execute_lwarx
  wf_execute_stwcx wf_execute_icbi wf_execute_isync wf_execute_dcbz
  wf_execute_vector_load_for_shift wf_execute_vector_load wf_execute_vector_store wf_execute_vector_arith
  wf_execute_vector_arith_mixed wf_execute_vector_arith_odd wf_execute_vector_merge wf_execute_vector_pack
  wf_execute_vector_unpack wf_execute_vector_pack_pixel wf_execute_vector_unpack_pixel wf_execute_vector_shift
  wf_execute_vector_shift_octet wf_execute_vector_splat wf_execute_vector_sum wf_execute_vector_permute
  wf_execute_mfvscr wf_execute_mtvscr

lemma wf_call_pmf:
  "h \<noteq> pmf_sheep \<Longrightarrow> wf_cpu s \<Longrightarrow> wf_result (call_pmf H h opcode s)"
  by (cases h) (simp_all add: wf_handlers)

section \<open>Errors\<close>

text \<open>
  A handler is \<^emph>\<open>sound\<close> when its only error is the illegal instruction, reported for its own
  instruction word and only when the preference \<^verbatim>\<open>ignoreillegal\<close> is off.
\<close>

definition sound :: "'h host_scheme \<Rightarrow> u32 \<Rightarrow> result \<Rightarrow> bool" where
  "sound H w r \<longleftrightarrow> (\<forall>e. r = Inl e \<longrightarrow> e = Illegal_instruction w \<and> \<not> ignoreillegal H)"

named_theorems sound_intros \<open>results whose only error is the illegal instruction\<close>

lemma sound_rules [sound_intros]:
  "sound H w (Inr s)"
  "sound H w (operand_set (gpr_operand f) opcode v s)"
  "sound H w (fp_operand_set (fpr_operand f) opcode d s)"
  "sound H w (execute_illegal H w s)"
  by (simp_all add: sound_def execute_illegal_def)

lemma sound_and_then [sound_intros]:
  "sound H w r \<Longrightarrow> (\<And>s. sound H w (f s)) \<Longrightarrow> sound H w (and_then r f)"
  by (cases r) (simp_all add: sound_def)

lemma sound_if [sound_intros]:
  "(b \<Longrightarrow> sound H w r) \<Longrightarrow> (\<not> b \<Longrightarrow> sound H w q) \<Longrightarrow> sound H w (if b then r else q)"
  by simp

lemma sound_case_prod [sound_intros]:
  "(\<And>a b. sound H w (f a b)) \<Longrightarrow> sound H w (case p of (a, b) \<Rightarrow> f a b)"
  by (cases p) simp

text \<open>The template arguments that name an output operand.\<close>

fun gpr_output :: "operand \<Rightarrow> bool" where
  "gpr_output (gpr_operand f) = True"
| "gpr_output _ = False"

lemma sound_gpr_output: "gpr_output x \<Longrightarrow> sound H w (operand_set x opcode v s)"
  by (cases x) (simp_all add: sound_rules)

lemma sound_fpr_output: "x \<noteq> null_fp_operand \<Longrightarrow> sound H w (fp_operand_set x opcode d s)"
  by (cases x) (simp_all add: sound_rules)

lemma sound_addition: "sound H w (execute_addition RA RB RC CA OE Rc w s)"
  unfolding execute_addition_def Let_def by (intro sound_intros)

lemma sound_generic_arith: "gpr_output RD \<Longrightarrow> sound H w (execute_generic_arith OP RD RA RB RC OE Rc w s)"
  unfolding execute_generic_arith_def Let_def by (intro sound_intros sound_gpr_output sound_fpr_output) simp_all

lemma sound_rlwimi: "sound H w (execute_rlwimi SH MA Rc w s)"
  unfolding execute_rlwimi_def Let_def by (intro sound_intros)

lemma sound_shift: "gpr_output RD \<Longrightarrow> sound H w (execute_shift OP RD RA SH SO CA Rc w s)"
  unfolding execute_shift_def Let_def by (intro sound_intros sound_gpr_output sound_fpr_output) simp_all

lemma sound_branch: "sound H w (execute_branch PC BO DP AA LK w s)"
  unfolding execute_branch_def Let_def by (intro sound_intros)

lemma sound_compare: "sound H w (execute_compare RB CT w s)"
  unfolding execute_compare_def Let_def by (intro sound_intros)

lemma sound_cr_op: "sound H w (execute_cr_op OP w s)"
  unfolding execute_cr_op_def Let_def by (intro sound_intros)

lemma sound_divide: "sound H w (execute_divide SB OE Rc w s)"
  unfolding execute_divide_def Let_def by (intro sound_intros)

lemma sound_multiply: "sound H w (execute_multiply HI SB OE Rc w s)"
  unfolding execute_multiply_def Let_def by (intro sound_intros)

lemma sound_loadstore: "UP \<longrightarrow> gpr_output RA \<Longrightarrow> sound H w (execute_loadstore OP RA RB LD SZ UP RX w s)"
  unfolding execute_loadstore_def Let_def by (intro sound_intros sound_gpr_output sound_fpr_output) simp_all

lemma sound_loadstore_multiple: "sound H w (execute_loadstore_multiple RA DP LD w s)"
  unfolding execute_loadstore_multiple_def Let_def by (intro sound_intros)

lemma sound_load_string: "sound H w (execute_load_string RA IM NB w s)"
  unfolding execute_load_string_def Let_def by (intro sound_intros)

lemma sound_store_string: "sound H w (execute_store_string RA IM NB w s)"
  unfolding execute_store_string_def Let_def by (intro sound_intros)

lemma sound_lwarx: "sound H w (execute_lwarx RA w s)"
  unfolding execute_lwarx_def Let_def by (intro sound_intros)

lemma sound_stwcx: "sound H w (execute_stwcx RA w s)"
  unfolding execute_stwcx_def Let_def by (intro sound_intros)

lemma sound_icbi: "sound H w (execute_icbi RA RB w s)"
  unfolding execute_icbi_def Let_def by (intro sound_intros)

lemma sound_isync: "sound H w (execute_isync w s)"
  unfolding execute_isync_def Let_def by (intro sound_intros)

lemma sound_dcbz: "sound H w (execute_dcbz RA RB w s)"
  unfolding execute_dcbz_def Let_def by (intro sound_intros)

lemma sound_nop: "sound H w (execute_nop w s)"
  unfolding execute_nop_def Let_def by (intro sound_intros)

lemma sound_illegal: "sound H w (execute_illegal H w s)"
  by (rule sound_rules)

lemma sound_syscall: "sound H w (execute_syscall H w s)"
  unfolding execute_syscall_def Let_def by (intro sound_intros)

lemma sound_mcrf: "sound H w (execute_mcrf w s)"
  unfolding execute_mcrf_def Let_def by (intro sound_intros)

lemma sound_mcrfs: "sound H w (execute_mcrfs w s)"
  unfolding execute_mcrfs_def Let_def by (intro sound_intros)

lemma sound_mcrxr: "sound H w (execute_mcrxr w s)"
  unfolding execute_mcrxr_def Let_def by (intro sound_intros)

lemma sound_mtcrf: "sound H w (execute_mtcrf w s)"
  unfolding execute_mtcrf_def Let_def by (intro sound_intros)

lemma sound_mtfsf: "sound H w (execute_mtfsf FM RB Rc w s)"
  unfolding execute_mtfsf_def Let_def by (intro sound_intros)

lemma sound_mtfsfi: "sound H w (execute_mtfsfi RB Rc w s)"
  unfolding execute_mtfsfi_def Let_def by (intro sound_intros)

lemma sound_mtfsb: "sound H w (execute_mtfsb RB Rc w s)"
  unfolding execute_mtfsb_def Let_def by (intro sound_intros)

lemma sound_mffs: "sound H w (execute_mffs Rc w s)"
  unfolding execute_mffs_def Let_def by (intro sound_intros)

lemma sound_mfmsr: "sound H w (execute_mfmsr w s)"
  unfolding execute_mfmsr_def Let_def by (intro sound_intros)

lemma sound_mfspr: "sound H w (execute_mfspr H SPR w s)"
  unfolding execute_mfspr_def Let_def by (intro sound_intros)

lemma sound_mtspr: "sound H w (execute_mtspr SPR w s)"
  unfolding execute_mtspr_def Let_def by (intro sound_intros)

lemma sound_mftbr: "sound H w (execute_mftbr H TBR w s)"
  unfolding execute_mftbr_def Let_def by (intro sound_intros)

lemma sound_fp_arith: "RD \<noteq> null_fp_operand \<Longrightarrow> sound H w (execute_fp_arith H FP OP RD RA RB RC Rc FPSCR w s)"
  unfolding execute_fp_arith_def Let_def by (intro sound_intros sound_gpr_output sound_fpr_output) simp_all

lemma sound_fp_compare: "sound H w (execute_fp_compare OC w s)"
  unfolding execute_fp_compare_def Let_def by (intro sound_intros)

lemma sound_fp_int_convert: "sound H w (execute_fp_int_convert H RN Rc w s)"
  unfolding execute_fp_int_convert_def Let_def by (intro sound_intros)

lemma sound_fp_round: "sound H w (execute_fp_round H Rc w s)"
  unfolding execute_fp_round_def Let_def by (intro sound_intros)

lemma sound_fp_loadstore: "UP \<longrightarrow> gpr_output RA \<Longrightarrow> sound H w (execute_fp_loadstore H RA RB LD DB UP w s)"
  unfolding execute_fp_loadstore_def Let_def by (intro sound_intros sound_gpr_output sound_fpr_output) simp_all

lemma sound_vector_load_for_shift: "sound H w (execute_vector_load_for_shift SL w s)"
  unfolding execute_vector_load_for_shift_def Let_def by (intro sound_intros)

lemma sound_vector_load: "sound H w (execute_vector_load VD RA RB w s)"
  unfolding execute_vector_load_def Let_def by (intro sound_intros)

lemma sound_vector_store: "sound H w (execute_vector_store VD RA RB w s)"
  unfolding execute_vector_store_def Let_def by (intro sound_intros)

lemma sound_vector_arith: "sound H w (execute_vector_arith H OP VD VA VB VC Rc C1 w s)"
  unfolding execute_vector_arith_def Let_def by (intro sound_intros)

lemma sound_vector_arith_mixed: "sound H w (execute_vector_arith_mixed H OP VD VA VB VC w s)"
  unfolding execute_vector_arith_mixed_def Let_def by (intro sound_intros)

lemma sound_vector_arith_odd: "sound H w (execute_vector_arith_odd ODD H OP VD VA VB VC w s)"
  unfolding execute_vector_arith_odd_def Let_def by (intro sound_intros)

lemma sound_vector_merge: "sound H w (execute_vector_merge VD VA VB LO w s)"
  unfolding execute_vector_merge_def Let_def by (intro sound_intros)

lemma sound_vector_pack: "sound H w (execute_vector_pack VD VA VB w s)"
  unfolding execute_vector_pack_def Let_def by (intro sound_intros)

lemma sound_vector_unpack: "sound H w (execute_vector_unpack LO VD VA w s)"
  unfolding execute_vector_unpack_def Let_def by (intro sound_intros)

lemma sound_vector_pack_pixel: "sound H w (execute_vector_pack_pixel w s)"
  unfolding execute_vector_pack_pixel_def Let_def by (intro sound_intros)

lemma sound_vector_unpack_pixel: "sound H w (execute_vector_unpack_pixel LO w s)"
  unfolding execute_vector_unpack_pixel_def Let_def by (intro sound_intros)

lemma sound_vector_shift: "sound H w (execute_vector_shift SD w s)"
  unfolding execute_vector_shift_def Let_def by (intro sound_intros)

lemma sound_vector_shift_octet: "sound H w (execute_vector_shift_octet SD VD VA VB SH w s)"
  unfolding execute_vector_shift_octet_def Let_def by (intro sound_intros)

lemma sound_vector_splat: "sound H w (execute_vector_splat OP VD VB IM w s)"
  unfolding execute_vector_splat_def Let_def by (intro sound_intros)

lemma sound_vector_sum: "sound H w (execute_vector_sum SZ VD VA VB w s)"
  unfolding execute_vector_sum_def Let_def by (intro sound_intros)

lemma sound_vector_permute: "sound H w (execute_vector_permute w s)"
  unfolding execute_vector_permute_def Let_def by (intro sound_intros)

lemma sound_mfvscr: "sound H w (execute_mfvscr w s)"
  unfolding execute_mfvscr_def Let_def by (intro sound_intros)

lemma sound_mtvscr: "sound H w (execute_mtvscr w s)"
  unfolding execute_mtvscr_def Let_def by (intro sound_intros)

fun templates_ok :: "execute_pmf \<Rightarrow> bool" where
  "templates_ok (pmf_generic_arith OP RD RA RB RC OE Rc) = gpr_output RD"
| "templates_ok (pmf_shift OP RD RA SH SO CA Rc) = gpr_output RD"
| "templates_ok (pmf_loadstore OP RA RB LD SZ UP RX) = (UP \<longrightarrow> gpr_output RA)"
| "templates_ok (pmf_fp_loadstore RA RB LD DB UP) = (UP \<longrightarrow> gpr_output RA)"
| "templates_ok (pmf_fp_arith FP OP RD RA RB RC Rc FPSCR) = (RD \<noteq> null_fp_operand)"
| "templates_ok _ = True"

lemmas sound_handlers = sound_addition sound_generic_arith sound_rlwimi sound_shift sound_branch
  sound_compare sound_cr_op sound_divide sound_multiply sound_loadstore
  sound_loadstore_multiple sound_load_string sound_store_string sound_lwarx sound_stwcx
  sound_icbi sound_isync sound_dcbz sound_nop sound_illegal
  sound_syscall sound_mcrf sound_mcrfs sound_mcrxr sound_mtcrf
  sound_mtfsf sound_mtfsfi sound_mtfsb sound_mffs sound_mfmsr
  sound_mfspr sound_mtspr sound_mftbr sound_fp_arith sound_fp_compare
  sound_fp_int_convert sound_fp_round sound_fp_loadstore sound_vector_load_for_shift sound_vector_load
  sound_vector_store sound_vector_arith sound_vector_arith_mixed sound_vector_arith_odd sound_vector_merge
  sound_vector_pack sound_vector_unpack sound_vector_pack_pixel sound_vector_unpack_pixel sound_vector_shift
  sound_vector_shift_octet sound_vector_splat sound_vector_sum sound_vector_permute sound_mfvscr
  sound_mtvscr

lemma sound_call_pmf:
  "templates_ok h \<Longrightarrow> h \<noteq> pmf_sheep \<Longrightarrow> sound H w (call_pmf H h w s)"
  by (cases h) (simp_all add: sound_handlers)

section \<open>The entries of the table\<close>

definition ii_consistent :: "instr_info_t \<Rightarrow> bool" where
  "ii_consistent ii \<longleftrightarrow>
     templates_ok (ii_execute ii) \<and>
     (ii_cflow ii AND CFLOW_END_BLOCK = 0) = (flow_of (ii_execute ii) \<noteq> End_block \<and> flow_of (ii_execute ii) \<noteq> Leave_core)"

definition ii_core_consistent :: "instr_info_t \<Rightarrow> bool" where
  "ii_core_consistent ii \<longleftrightarrow> ii_consistent ii \<and> flow_of (ii_execute ii) \<noteq> Leave_core"

lemmas ii_consistent_eval = list.pred_inject ii_core_consistent_def ii_consistent_def instr_info_t.sel templates_ok.simps flow_of.simps
  gpr_output.simps simp_thms pmf_flow.distinct fp_operand.distinct

lemma cflow_end_block:
  "(CFLOW_NORMAL AND CFLOW_END_BLOCK = 0) = True"
  "(CFLOW_BRANCH AND CFLOW_END_BLOCK = 0) = False"
  "(CFLOW_TRAP AND CFLOW_END_BLOCK = 0) = False"
  "((CFLOW_JUMP OR CFLOW_TRAP) AND CFLOW_END_BLOCK = 0) = False"
  by (simp_all add: CFLOW_NORMAL_def CFLOW_BRANCH_def CFLOW_TRAP_def CFLOW_JUMP_def CFLOW_END_BLOCK_def)

lemma consistent_01: "list_all ii_core_consistent powerpc_ii_table_01"
  unfolding powerpc_ii_table_01_def by (simp only: ii_consistent_eval cflow_end_block)

lemma consistent_02: "list_all ii_core_consistent powerpc_ii_table_02"
  unfolding powerpc_ii_table_02_def by (simp only: ii_consistent_eval cflow_end_block)

lemma consistent_03: "list_all ii_core_consistent powerpc_ii_table_03"
  unfolding powerpc_ii_table_03_def by (simp only: ii_consistent_eval cflow_end_block)

lemma consistent_04: "list_all ii_core_consistent powerpc_ii_table_04"
  unfolding powerpc_ii_table_04_def by (simp only: ii_consistent_eval cflow_end_block)

lemma consistent_05: "list_all ii_core_consistent powerpc_ii_table_05"
  unfolding powerpc_ii_table_05_def by (simp only: ii_consistent_eval cflow_end_block)

lemma consistent_06: "list_all ii_core_consistent powerpc_ii_table_06"
  unfolding powerpc_ii_table_06_def by (simp only: ii_consistent_eval cflow_end_block)

lemma consistent_07: "list_all ii_core_consistent powerpc_ii_table_07"
  unfolding powerpc_ii_table_07_def by (simp only: ii_consistent_eval cflow_end_block)

lemma consistent_08: "list_all ii_core_consistent powerpc_ii_table_08"
  unfolding powerpc_ii_table_08_def by (simp only: ii_consistent_eval cflow_end_block)

lemma consistent_09: "list_all ii_core_consistent powerpc_ii_table_09"
  unfolding powerpc_ii_table_09_def by (simp only: ii_consistent_eval cflow_end_block)

lemma consistent_10: "list_all ii_core_consistent powerpc_ii_table_10"
  unfolding powerpc_ii_table_10_def by (simp only: ii_consistent_eval cflow_end_block)

lemma consistent_11: "list_all ii_core_consistent powerpc_ii_table_11"
  unfolding powerpc_ii_table_11_def by (simp only: ii_consistent_eval cflow_end_block)

lemma consistent_12: "list_all ii_core_consistent powerpc_ii_table_12"
  unfolding powerpc_ii_table_12_def by (simp only: ii_consistent_eval cflow_end_block)

lemma consistent_sheep: "list_all ii_consistent sheep_ii_table"
  unfolding sheep_ii_table_def by (simp only: ii_consistent_eval cflow_end_block)

lemma core_table_consistent: "list_all ii_core_consistent powerpc_ii_table"
  by (simp add: powerpc_ii_table_def consistent_01 consistent_02 consistent_03 consistent_04 consistent_05 consistent_06 consistent_07 consistent_08 consistent_09 consistent_10 consistent_11 consistent_12)

lemma table_consistent: "ii \<in> set full_ii_table \<Longrightarrow> ii_consistent ii"
  using core_table_consistent consistent_sheep by (auto simp: list_all_iff ii_core_consistent_def)

lemma core_entry:
  assumes "ii \<in> set powerpc_ii_table"
  shows "ii_execute ii \<noteq> pmf_sheep" "templates_ok (ii_execute ii)"
  using core_table_consistent assms
  by (auto simp: list_all_iff ii_core_consistent_def ii_consistent_def flow_of_Leave_core)

text \<open>
  C29: The only error that an instruction of the processor core can end in is the illegal
  instruction, for its own instruction word and only with the preference
  \<^verbatim>\<open>ignoreillegal\<close> off: no template of the table names an operand without a
  \<^verbatim>\<open>set\<close> as output, and no update form writes back to an operand that may abort.
\<close>

theorem core_instruction_errors:
  assumes "ii \<in> set powerpc_ii_table" and "call_pmf H (ii_execute ii) w s = Inl e"
  shows "e = Illegal_instruction w \<and> \<not> ignoreillegal H"
  using sound_call_pmf[OF core_entry(2)[OF assms(1)] core_entry(1)[OF assms(1)], of H w s] assms(2)
  by (simp add: sound_def)

lemma invalid_in_table: "hd powerpc_ii_table \<in> set powerpc_ii_table"
  by (rule hd_in_set) simp

theorem core_instruction_errors_witness:
  "hd powerpc_ii_table \<in> set powerpc_ii_table \<and>
   (\<exists>e. call_pmf example_sheep_host (ii_execute (hd powerpc_ii_table)) 0 zero_cpu = Inl e \<and>
        e = Illegal_instruction 0 \<and> \<not> ignoreillegal example_sheep_host)"
proof -
  have "call_pmf example_sheep_host (ii_execute (hd powerpc_ii_table)) 0 zero_cpu = Inl (Illegal_instruction 0)"
    by (simp add: hd_powerpc_ii_table execute_illegal_def)
  with core_instruction_errors[OF invalid_in_table this] invalid_in_table show ?thesis by blast
qed

text \<open>
  C14: The control-flow class of the table is right: an instruction that is not marked as the
  end of a block continues at the next instruction word, and at most asks for the decode cache
  to be left, unless \<^verbatim>\<open>ignoreillegal\<close> lets an illegal operand pass.
\<close>

theorem cflow_normal_continues:
  assumes "ii \<in> set (powerpc_ii_table @ sheep_ii_table)" and "ii_cflow ii AND CFLOW_END_BLOCK = 0"
    and "\<not> ignoreillegal H" and "call_pmf H (ii_execute ii) w s = Inr t"
  shows "pc t = pc s + 4 \<and>
    (spcflags t = spcflags s \<or> spcflags t = spcflags_set (spcflags s) SPCFLAG_JIT_EXEC_RETURN)"
proof -
  have "flow_of (ii_execute ii) \<notin> {End_block, Leave_core}"
    using table_consistent[OF assms(1)] assms(2) by (simp add: ii_consistent_def)
  then consider "flow_of (ii_execute ii) = Advance" | "flow_of (ii_execute ii) = May_trap"
    | "flow_of (ii_execute ii) = Cache_advance"
    by (cases "flow_of (ii_execute ii)") auto
  then show ?thesis
  proof cases
    case 1
    then show ?thesis using call_pmf_advances[of "ii_execute ii" s H w] assms(4) by (simp add: advances_def)
  next
    case 2
    then show ?thesis using call_pmf_may_trap[of "ii_execute ii" H s w] assms(3,4) by (simp add: advances_def)
  next
    case 3
    then show ?thesis using call_pmf_cache_advance[OF 3 assms(4)] by simp
  qed
qed

theorem cflow_normal_continues_witness:
  "\<exists>ii t. ii \<in> set (powerpc_ii_table @ sheep_ii_table) \<and> ii_name ii = ''xor'' \<and>
     call_pmf example_sheep_host (ii_execute ii) 0x7c221a78 zero_cpu = Inr t \<and> pc t = 4"
proof -
  define ii where "ii = instr_info ''xor'' (pmf_generic_arith (OP2 op_xor) operand_RA operand_RS operand_RB
    operand_NONE OE_BIT_0 RC_BIT_G) ''XOR'' X_form 31 316 CFLOW_NORMAL"
  have m: "ii \<in> set (powerpc_ii_table @ sheep_ii_table)"
    by (simp add: powerpc_ii_table_def powerpc_ii_table_07_def ii_def)
  have c: "ii_cflow ii AND CFLOW_END_BLOCK = 0" by (simp add: ii_def CFLOW_NORMAL_def)
  obtain t where t: "call_pmf example_sheep_host (ii_execute ii) 0x7c221a78 zero_cpu = Inr t"
    by (simp add: ii_def execute_generic_arith_def Let_def)
  have "pc t = 4"
    using cflow_normal_continues[OF m c _ t] by (simp add: zero_cpu_def)
  then show ?thesis using m t by (intro exI[of _ ii] exI[of _ t]) (simp add: ii_def)
qed

end
