(* ===== verification/PPC_Flight_Recorder.thy ===== *)
theory PPC_Flight_Recorder
  imports PPC_Registers
begin

text \<open>
  The flight recorder of \<^verbatim>\<open>ppc-cpu.cpp\<close>: a ring of the last \<^verbatim>\<open>LOG_SIZE\<close> executed
  instructions, written by \<^verbatim>\<open>do_record_step\<close> and printed by \<^verbatim>\<open>dump_log\<close>, of which
  the model keeps the sequence of printed steps. The specification is the list of all recorded
  steps; the dump is its end.
\<close>

section \<open>The ring\<close>

record rec_step =
  rec_pc :: u32
  rec_opcode :: u32
  rec_sp :: u32
  rec_r24 :: u32

definition LOG_SIZE :: nat where "LOG_SIZE = 32768"

record flight_recorder =
  flight_log :: "nat \<Rightarrow> rec_step"
  logging :: bool
  log_ptr :: nat
  log_ptr_wrapped :: bool

definition init_flight_recorder :: "flight_recorder \<Rightarrow> flight_recorder" where
  "init_flight_recorder fr = fr\<lparr>log_ptr := 0, log_ptr_wrapped := False\<rparr>"

definition store_step :: "rec_step \<Rightarrow> flight_recorder \<Rightarrow> flight_recorder" where
  "store_step r fr =
     (let fr = fr\<lparr>flight_log := (flight_log fr)(log_ptr fr := r)\<rparr>;
          fr = fr\<lparr>log_ptr := log_ptr fr + 1\<rparr>
      in if log_ptr fr = LOG_SIZE then fr\<lparr>log_ptr := 0, log_ptr_wrapped := True\<rparr> else fr)"

definition do_record_step :: "u32 \<Rightarrow> u32 \<Rightarrow> powerpc_cpu \<Rightarrow> flight_recorder \<Rightarrow> flight_recorder" where
  "do_record_step pc_arg opcode s fr =
     store_step \<lparr>rec_pc = pc_arg, rec_opcode = opcode, rec_sp = gpr s 1, rec_r24 = gpr s 24\<rparr> fr"

definition record_step :: "u32 \<Rightarrow> powerpc_cpu \<Rightarrow> flight_recorder \<Rightarrow> flight_recorder" where
  "record_step opcode s fr = do_record_step (pc s) opcode s fr"

definition dump_log :: "flight_recorder \<Rightarrow> rec_step list" where
  "dump_log fr =
     (let start_ptr = (if log_ptr_wrapped fr then log_ptr fr else 0);
          log_size = (if log_ptr_wrapped fr then LOG_SIZE else log_ptr fr)
      in map (\<lambda>i. flight_log fr ((i + start_ptr) mod LOG_SIZE)) [0..<log_size])"

section \<open>The ring holds the last steps\<close>

text \<open>
  The relation between the ring and the list of all steps recorded since the
  initialization: the next element to be written, whether the ring has been filled, and the
  position of each of the last \<open>LOG_SIZE\<close> steps.
\<close>

definition ring_of :: "rec_step list \<Rightarrow> flight_recorder \<Rightarrow> bool" where
  "ring_of xs fr \<longleftrightarrow>
     log_ptr fr = length xs mod LOG_SIZE \<and> (log_ptr_wrapped fr \<longleftrightarrow> LOG_SIZE \<le> length xs) \<and>
     (\<forall>i < length xs. length xs \<le> i + LOG_SIZE \<longrightarrow> flight_log fr (i mod LOG_SIZE) = xs ! i)"

lemma LOG_SIZE_pos [simp]: "0 < LOG_SIZE"
  by (simp add: LOG_SIZE_def)

lemma ring_of_init: "ring_of [] (init_flight_recorder fr)"
  by (simp add: ring_of_def init_flight_recorder_def)

lemma mod_eq_imp_far:
  fixes i n L :: nat
  assumes "i mod L = n mod L" "i < n"
  shows "i + L \<le> n"
proof -
  have "L dvd n - i" using assms by (metis less_or_eq_imp_le mod_eq_dvd_iff_nat)
  then show ?thesis using assms(2) by (auto dest: dvd_imp_le)
qed

lemma ring_of_store_step:
  assumes "ring_of xs fr"
  shows "ring_of (xs @ [r]) (store_step r fr)"
proof -
  let ?n = "length xs"
  have p: "log_ptr fr = ?n mod LOG_SIZE" and w: "log_ptr_wrapped fr \<longleftrightarrow> LOG_SIZE \<le> ?n"
    and e: "\<And>i. i < ?n \<Longrightarrow> ?n \<le> i + LOG_SIZE \<Longrightarrow> flight_log fr (i mod LOG_SIZE) = xs ! i"
    using assms by (simp_all add: ring_of_def)
  have log: "flight_log (store_step r fr) = (flight_log fr)(?n mod LOG_SIZE := r)"
    by (simp add: store_step_def Let_def p)
  have elems: "flight_log (store_step r fr) (i mod LOG_SIZE) = (xs @ [r]) ! i"
    if "i < Suc ?n" "Suc ?n \<le> i + LOG_SIZE" for i
  proof (cases "i = ?n")
    case False
    then have "i mod LOG_SIZE \<noteq> ?n mod LOG_SIZE"
      using mod_eq_imp_far[of i LOG_SIZE ?n] that by fastforce
    then show ?thesis using e[of i] False that by (simp add: log nth_append)
  qed (simp add: log)
  have ptr: "log_ptr (store_step r fr) = Suc ?n mod LOG_SIZE"
    by (simp add: store_step_def Let_def p mod_Suc)
  have wrap: "log_ptr_wrapped (store_step r fr) \<longleftrightarrow> LOG_SIZE \<le> Suc ?n"
  proof (cases "Suc (?n mod LOG_SIZE) = LOG_SIZE")
    case True
    have "?n mod LOG_SIZE \<le> ?n" by simp
    with True have "LOG_SIZE \<le> Suc ?n" by linarith
    with True show ?thesis by (simp add: store_step_def Let_def p)
  next
    case False
    then have "\<not> (\<not> LOG_SIZE \<le> ?n \<and> LOG_SIZE \<le> Suc ?n)"
      by (auto simp: not_le less_Suc_eq_le dest: le_antisym)
    with False show ?thesis by (auto simp: store_step_def Let_def p w)
  qed
  show ?thesis unfolding ring_of_def using elems ptr wrap by simp
qed

lemma ring_of_fold: "ring_of xs fr \<Longrightarrow> ring_of (xs @ rs) (fold store_step rs fr)"
proof (induction rs arbitrary: xs fr)
  case (Cons r rs)
  from Cons.IH[OF ring_of_store_step[OF Cons.prems, of r]] show ?case by simp
qed simp

lemma dump_log_ring_of:
  assumes "ring_of xs fr"
  shows "dump_log fr = drop (length xs - LOG_SIZE) xs"
proof (cases "LOG_SIZE \<le> length xs")
  case False
  then have "dump_log fr = map (\<lambda>i. flight_log fr (i mod LOG_SIZE)) [0..<length xs]"
    using assms by (simp add: dump_log_def ring_of_def)
  also have "\<dots> = map ((!) xs) [0..<length xs]"
    using assms False by (intro map_cong) (auto simp: ring_of_def)
  finally show ?thesis using False by (simp add: map_nth)
next
  case True
  let ?k = "length xs - LOG_SIZE"
  have "flight_log fr ((i + log_ptr fr) mod LOG_SIZE) = xs ! (?k + i)" if "i < LOG_SIZE" for i
  proof -
    have "(i + log_ptr fr) mod LOG_SIZE = (i + length xs) mod LOG_SIZE"
      using assms by (simp add: ring_of_def mod_add_right_eq)
    also have "\<dots> = (?k + i + LOG_SIZE) mod LOG_SIZE" using True by (simp add: ac_simps)
    also have "\<dots> = (?k + i) mod LOG_SIZE" by simp
    finally show ?thesis using assms that True by (simp add: ring_of_def)
  qed
  then have "dump_log fr = map (\<lambda>i. xs ! (?k + i)) [0..<LOG_SIZE]"
    using assms True by (simp add: dump_log_def ring_of_def)
  also have "\<dots> = drop ?k xs"
    using True by (intro nth_equalityI) simp_all
  finally show ?thesis .
qed

text \<open>
  C30: The flight recorder keeps the last \<^verbatim>\<open>LOG_SIZE\<close> steps: after the initialization and
  any number of recorded steps, whatever the ring held before, a dump prints the most recent
  32768 of them, oldest first, and all of them when there are fewer.
\<close>

theorem flight_recorder_refines_history:
  "dump_log (fold store_step rs (init_flight_recorder fr)) = drop (length rs - LOG_SIZE) rs"
  using dump_log_ring_of[OF ring_of_fold[OF ring_of_init, of rs fr]] by simp

end
