(* ===== verification/PPC_Interpreter.thy ===== *)
theory PPC_Interpreter
  imports PPC_Flow PPC_Flight_Recorder
begin

unbundle bit_operations_syntax

text \<open>
  The processor around its instructions: the accessors \<^verbatim>\<open>set_register\<close> and
  \<^verbatim>\<open>get_register\<close>, the special flags with the delivery of interrupts, and the
  interpreter loop of \<^verbatim>\<open>powerpc_cpu::execute\<close>, which runs every nested call of the
  emulator. \<^verbatim>\<open>HandleInterrupt\<close> works on a copy of the registers and may itself run
  the processor; it is a field of the record \<open>cpu_host\<close>. Other threads only raise the
  interrupt flag: the step relation interleaves that with the instructions.
\<close>

section \<open>Register access by number\<close>

datatype any_register = Reg_i u32 | Reg_d u64

definition REG_CR :: int where "REG_CR = 64"
definition REG_FPSCR :: int where "REG_FPSCR = 65"
definition REG_XER :: int where "REG_XER = 66"
definition REG_LR :: int where "REG_LR = 67"
definition REG_CTR :: int where "REG_CTR = 68"
definition REG_PC :: int where "REG_PC = 69"
definition BASIC_PC :: int where "BASIC_PC = - 1"
definition BASIC_SP :: int where "BASIC_SP = - 2"

lemmas register_ids = REG_CR_def REG_FPSCR_def REG_XER_def REG_LR_def REG_CTR_def REG_PC_def
  BASIC_PC_def BASIC_SP_def

text \<open>The argument of \<^verbatim>\<open>set_register\<close> is the 64-bit content of the union.\<close>

definition set_register :: "int \<Rightarrow> u64 \<Rightarrow> powerpc_cpu \<Rightarrow> result" where
  "set_register i v s =
     (if 0 \<le> i \<and> i \<le> 31 then Inr (set_gpr (nat i) (ucast v) s)
      else if 32 \<le> i \<and> i \<le> 63 then Inr (set_fpr (nat (i - 32)) v s)
      else if i = REG_CR then Inr (s\<lparr>cr := ucast v\<rparr>)
      else if i = REG_FPSCR then Inr (s\<lparr>fpscr := ucast v\<rparr>)
      else if i = REG_XER then Inr (s\<lparr>xer := xer_set (ucast v) (xer s)\<rparr>)
      else if i = REG_LR then Inr (s\<lparr>lr := ucast v\<rparr>)
      else if i = REG_CTR then Inr (s\<lparr>ctr := ucast v\<rparr>)
      else if i = BASIC_PC \<or> i = REG_PC then Inr (s\<lparr>pc := ucast v\<rparr>)
      else if i = BASIC_SP then Inr (set_gpr 1 (ucast v) s)
      else Inl (Abort_register_id i))"

definition get_register :: "int \<Rightarrow> powerpc_cpu \<Rightarrow> abort_reason + any_register" where
  "get_register i s =
     (if 0 \<le> i \<and> i \<le> 31 then Inr (Reg_i (gpr s (nat i)))
      else if 32 \<le> i \<and> i \<le> 63 then Inr (Reg_d (fpr s (nat (i - 32))))
      else if i = REG_CR then Inr (Reg_i (cr s))
      else if i = REG_FPSCR then Inr (Reg_i (fpscr s))
      else if i = REG_XER then Inr (Reg_i (xer_get (xer s)))
      else if i = REG_LR then Inr (Reg_i (lr s))
      else if i = REG_CTR then Inr (Reg_i (ctr s))
      else if i = BASIC_PC \<or> i = REG_PC then Inr (Reg_i (pc s))
      else if i = BASIC_SP then Inr (Reg_i (gpr s 1))
      else Inl (Abort_register_id i))"

section \<open>Interrupts\<close>

definition copy_vr_step :: "powerpc_cpu \<Rightarrow> nat \<Rightarrow> u32 \<times> powerpc_cpu \<Rightarrow> u32 \<times> powerpc_cpu" where
  "copy_vr_step iregs i = (\<lambda>(vrsave, oregs).
     (drop_bit 1 vrsave, if vrsave AND 1 \<noteq> 0 then set_vr i (vr iregs i) oregs else oregs))"

definition interrupt_copy :: "powerpc_cpu \<Rightarrow> powerpc_cpu \<Rightarrow> powerpc_cpu" where
  "interrupt_copy oregs iregs =
     (let oregs = fold (\<lambda>i r. set_fpr i (fpr iregs i) (set_gpr i (gpr iregs i) r)) [0..<32] oregs;
          oregs = oregs\<lparr>cr := cr iregs, fpscr := fpscr iregs, xer := xer iregs, lr := lr iregs,
                        ctr := ctr iregs, pc := pc iregs\<rparr>;
          oregs = oregs\<lparr>vrsave := vrsave iregs\<rparr>
      in if vrsave iregs \<noteq> 0 then snd (fold (copy_vr_step iregs) (rev [0..<32]) (vrsave iregs, oregs))
         else oregs)"

record machine =
  core :: powerpc_cpu
  processing_interrupt :: bool
  recorder :: flight_recorder

record cpu_host = sheep_host +
  HandleInterrupt :: "powerpc_cpu \<Rightarrow> machine \<Rightarrow> powerpc_cpu \<times> machine"
  stack_registers :: powerpc_cpu

definition set_spcflag :: "u32 \<Rightarrow> machine \<Rightarrow> machine" where
  "set_spcflag f m = m\<lparr>core := (core m)\<lparr>spcflags := spcflags_set (spcflags (core m)) f\<rparr>\<rparr>"

definition clear_spcflag :: "u32 \<Rightarrow> machine \<Rightarrow> machine" where
  "clear_spcflag f m = m\<lparr>core := (core m)\<lparr>spcflags := spcflags_clear (spcflags (core m)) f\<rparr>\<rparr>"

definition test_spcflag :: "u32 \<Rightarrow> machine \<Rightarrow> bool" where
  "test_spcflag f m \<longleftrightarrow> spcflags_test (spcflags (core m)) f"

definition trigger_interrupt :: "machine \<Rightarrow> machine" where
  "trigger_interrupt m = set_spcflag SPCFLAG_CPU_TRIGGER_INTERRUPT m"

definition deliver_interrupt :: "'h cpu_host_scheme \<Rightarrow> machine \<Rightarrow> machine" where
  "deliver_interrupt H m =
     (if \<not> processing_interrupt m
      then (let m = m\<lparr>processing_interrupt := True\<rparr>;
                r = interrupt_copy (stack_registers H) (core m);
                (r, m) = HandleInterrupt H r m;
                m = m\<lparr>core := interrupt_copy (core m) r\<rparr>
            in m\<lparr>processing_interrupt := False\<rparr>)
      else m)"

definition check_spcflags :: "'h cpu_host_scheme \<Rightarrow> machine \<Rightarrow> bool \<times> machine" where
  "check_spcflags H m =
     (if test_spcflag SPCFLAG_CPU_EXEC_RETURN m
      then (False, clear_spcflag SPCFLAG_CPU_EXEC_RETURN m)
      else (let m = (if test_spcflag SPCFLAG_CPU_HANDLE_INTERRUPT m
                     then deliver_interrupt H (clear_spcflag SPCFLAG_CPU_HANDLE_INTERRUPT m) else m);
                m = (if test_spcflag SPCFLAG_CPU_TRIGGER_INTERRUPT m
                     then set_spcflag SPCFLAG_CPU_HANDLE_INTERRUPT
                            (clear_spcflag SPCFLAG_CPU_TRIGGER_INTERRUPT m)
                     else m);
                m = (if test_spcflag SPCFLAG_CPU_ENTER_MON m
                     then clear_spcflag SPCFLAG_CPU_ENTER_MON m else m)
            in (True, m)))"

section \<open>The interpreter loop\<close>

text \<open>
  One iteration of the loop at \<^verbatim>\<open>do_interpret\<close>: the flag of the result tells whether the
  loop goes on.
\<close>

definition interpret_step :: "'h cpu_host_scheme \<Rightarrow> decoder \<Rightarrow> machine \<Rightarrow> abort_reason + (bool \<times> machine)" where
  "interpret_step H d m =
     (let opcode = vm_read_memory_4 (mem (core m)) (pc (core m));
          ii = decode d opcode;
          m = (if logging (recorder m) then m\<lparr>recorder := record_step opcode (core m) (recorder m)\<rparr> else m)
      in case call_pmf H (ii_execute ii) opcode (core m) of
           Inl e \<Rightarrow> Inl e
         | Inr s \<Rightarrow>
             (let m = m\<lparr>core := s\<rparr>
              in Inr (if \<not> spcflags_empty (spcflags s) then check_spcflags H m else (True, m))))"

partial_function (option) do_interpret ::
  "'h cpu_host_scheme \<Rightarrow> decoder \<Rightarrow> machine \<Rightarrow> (abort_reason + machine) option" where
  "do_interpret H d m =
     (case interpret_step H d m of
        Inl e \<Rightarrow> Some (Inl e)
      | Inr (go, m) \<Rightarrow> if go then do_interpret H d m else Some (Inr m))"

text \<open>A nested call of \<^verbatim>\<open>execute(entry)\<close>: the decode cache serves the outermost call only.\<close>

definition execute_nested :: "'h cpu_host_scheme \<Rightarrow> decoder \<Rightarrow> u32 \<Rightarrow> machine \<Rightarrow> (abort_reason + machine) option" where
  "execute_nested H d entry m = do_interpret H d (m\<lparr>core := (core m)\<lparr>pc := entry\<rparr>\<rparr>)"

text \<open>
  The machine with its environment: the processor executes an instruction, or another thread
  raises the interrupt flag between two instructions.
\<close>

inductive machine_step :: "'h cpu_host_scheme \<Rightarrow> decoder \<Rightarrow> machine \<Rightarrow> machine \<Rightarrow> bool" for H d where
  instruction: "interpret_step H d m = Inr (go, m') \<Longrightarrow> machine_step H d m m'"
| interrupt: "machine_step H d m (trigger_interrupt m)"

inductive_cases machine_stepE: "machine_step H d m m'"

abbreviation machine_steps :: "'h cpu_host_scheme \<Rightarrow> decoder \<Rightarrow> machine \<Rightarrow> machine \<Rightarrow> bool" where
  "machine_steps H d \<equiv> rtranclp (machine_step H d)"

section \<open>Laws of the register access\<close>

definition register_id :: "int \<Rightarrow> bool" where
  "register_id i \<longleftrightarrow> - 2 \<le> i \<and> i \<le> 69"

text \<open>The value read back from a register after \<open>v\<close> is written to it.\<close>

definition register_value :: "int \<Rightarrow> u64 \<Rightarrow> any_register" where
  "register_value i v =
     (if 32 \<le> i \<and> i \<le> 63 then Reg_d v else if i = REG_XER then Reg_i (ucast v AND 0xe000007f) else Reg_i (ucast v))"

lemma id_cases:
  assumes "register_id i"
  obtains "0 \<le> i" "i \<le> 31" | "32 \<le> i" "i \<le> 63" | "i = 64" | "i = 65" | "i = 66" | "i = 67" | "i = 68" | "i = 69"
    | "i = - 1" | "i = - 2"
  using assms unfolding register_id_def by linarith

text \<open>
  The numbers that \<^verbatim>\<open>set_register\<close> and \<^verbatim>\<open>get_register\<close> accept are the same
  ones, every other number aborts, and a register reads back what was written to it: the
  whole double for a floating-point register, the low word for the others, of the XER its
  flags and byte count only.
\<close>

theorem set_get_register:
  "if register_id i
   then \<exists>t. set_register i v s = Inr t \<and> get_register i t = Inr (register_value i v)
   else set_register i v s = Inl (Abort_register_id i) \<and> get_register i s = Inl (Abort_register_id i)"
proof (cases "register_id i")
  case True
  then have "\<exists>t. set_register i v s = Inr t \<and> get_register i t = Inr (register_value i v)"
    by (cases rule: id_cases)
       (auto simp: set_register_def get_register_def register_value_def register_ids set_gpr_def set_fpr_def xer_get_set)
  with True show ?thesis by simp
next
  case False
  then have "set_register i v s = Inl (Abort_register_id i) \<and> get_register i s = Inl (Abort_register_id i)"
    unfolding register_id_def set_register_def get_register_def register_ids by auto
  with False show ?thesis by simp
qed

section \<open>The copy of the registers\<close>

lemma copy_gprs_fprs:
  "fold (\<lambda>i r. set_fpr i (fpr iregs i) (set_gpr i (gpr iregs i) r)) [0..<n] r =
     r\<lparr>gpr := \<lambda>k. if k < n then gpr iregs k else gpr r k, fpr := \<lambda>k. if k < n then fpr iregs k else fpr r k\<rparr>"
  by (induction n) (auto simp: set_gpr_def set_fpr_def fun_eq_iff less_Suc_eq intro!: powerpc_cpu.equality)

lemma copy_vr_step_eq:
  "copy_vr_step iregs n (v, r) = (drop_bit 1 v, r\<lparr>vr := (vr r)(n := if bit v 0 then vr iregs n else vr r n)\<rparr>)"
proof -
  have "v AND 1 \<noteq> 0 \<longleftrightarrow> bit v 0" by (simp add: and_one_eq bit_0 odd_iff_mod_2_eq_one[symmetric] mod_2_eq_odd)
  then show ?thesis by (simp add: copy_vr_step_def set_vr_def)
qed

lemma copy_vrs:
  "fold (copy_vr_step iregs) (rev [0..<n]) (v, r) =
     (drop_bit n v, r\<lparr>vr := \<lambda>k. if k < n \<and> bit v (n - 1 - k) then vr iregs k else vr r k\<rparr>)"
proof (induction n arbitrary: v r)
  case (Suc n)
  let ?r = "r\<lparr>vr := (vr r)(n := if bit v 0 then vr iregs n else vr r n)\<rparr>"
  have d: "drop_bit n (drop_bit 1 v) = drop_bit (Suc n) v" by (simp only: drop_bit_drop_bit) simp
  have b: "bit (drop_bit 1 v) (n - 1 - k) = bit v (n - k)" if "k < n" for k
    using that by (simp only: bit_drop_bit_eq comp_def) (simp add: Suc_diff_Suc)
  have "fold (copy_vr_step iregs) (rev [0..<Suc n]) (v, r) = fold (copy_vr_step iregs) (rev [0..<n]) (drop_bit 1 v, ?r)"
    by (simp only: upt_Suc_append[OF le0] rev_append rev.simps append_Nil append_Cons fold.simps comp_def copy_vr_step_eq)
  also have "\<dots> = (drop_bit (Suc n) v,
      ?r\<lparr>vr := \<lambda>k. if k < n \<and> bit (drop_bit 1 v) (n - 1 - k) then vr iregs k else vr ?r k\<rparr>)"
    by (simp only: Suc.IH d)
  also have "(\<lambda>k. if k < n \<and> bit (drop_bit 1 v) (n - 1 - k) then vr iregs k else vr ?r k) =
      (\<lambda>k. if k < Suc n \<and> bit v (n - k) then vr iregs k else vr r k)"
    using b by (auto simp: fun_eq_iff less_Suc_eq)
  finally show ?case by simp
qed simp

lemma interrupt_copy_eq:
  "interrupt_copy oregs iregs =
     oregs\<lparr>gpr := \<lambda>k. if k < 32 then gpr iregs k else gpr oregs k,
       fpr := \<lambda>k. if k < 32 then fpr iregs k else fpr oregs k,
       vr := \<lambda>k. if k < 32 \<and> bit (vrsave iregs) (31 - k) then vr iregs k else vr oregs k,
       cr := cr iregs, fpscr := fpscr iregs, xer := xer iregs, lr := lr iregs, ctr := ctr iregs, pc := pc iregs,
       vrsave := vrsave iregs\<rparr>"
  unfolding interrupt_copy_def copy_gprs_fprs copy_vrs Let_def
  by (auto intro!: powerpc_cpu.equality)

section \<open>Special flags\<close>

lemmas spcflag_defs = SPCFLAG_CPU_EXEC_RETURN_def SPCFLAG_CPU_TRIGGER_INTERRUPT_def
  SPCFLAG_CPU_HANDLE_INTERRUPT_def SPCFLAG_CPU_ENTER_MON_def SPCFLAG_JIT_EXEC_RETURN_def

lemma and_push_bit_1: "(x AND push_bit k 1 \<noteq> 0) = bit (x :: u32) k"
  by (simp add: bit_iff_and_push_bit_not_eq_0)

lemma test_spcflag_bits:
  "test_spcflag SPCFLAG_CPU_EXEC_RETURN m = bit (spcflags (core m)) 0"
  "test_spcflag SPCFLAG_CPU_TRIGGER_INTERRUPT m = bit (spcflags (core m)) 1"
  "test_spcflag SPCFLAG_CPU_HANDLE_INTERRUPT m = bit (spcflags (core m)) 2"
  "test_spcflag SPCFLAG_CPU_ENTER_MON m = bit (spcflags (core m)) 3"
  "test_spcflag SPCFLAG_JIT_EXEC_RETURN m = bit (spcflags (core m)) 4"
  unfolding test_spcflag_def spcflags_test_def spcflag_defs by (rule and_push_bit_1)+

lemma bit_push_1: "k < 32 \<Longrightarrow> bit (push_bit k 1 :: u32) n \<longleftrightarrow> n = k"
  by (simp only: bit_push_bit_iff bit_1_iff) auto

lemma bit_set_flag: "k < 32 \<Longrightarrow> bit (spcflags_set mk (push_bit k 1)) n \<longleftrightarrow> bit mk n \<or> n = k"
  by (simp only: spcflags_set_def bit_or_iff bit_push_1)

lemma bit_clear_flag: "k < 32 \<Longrightarrow> bit (spcflags_clear mk (push_bit k 1)) n \<longleftrightarrow> bit mk n \<and> n \<noteq> k"
  by (auto simp only: spcflags_clear_def bit_and_iff bit_not_iff bit_push_1 dest: bit_imp_possible_bit)

lemma spcflags_of_set [simp]: "spcflags (core (set_spcflag f m)) = spcflags_set (spcflags (core m)) f"
  by (simp add: set_spcflag_def)

lemma spcflags_of_clear [simp]: "spcflags (core (clear_spcflag f m)) = spcflags_clear (spcflags (core m)) f"
  by (simp add: clear_spcflag_def)

lemma set_spcflag_bits [simp]:
  "bit (spcflags_set mk SPCFLAG_CPU_EXEC_RETURN) n = (bit mk n \<or> n = 0)"
  "bit (spcflags_set mk SPCFLAG_CPU_TRIGGER_INTERRUPT) n = (bit mk n \<or> n = 1)"
  "bit (spcflags_set mk SPCFLAG_CPU_HANDLE_INTERRUPT) n = (bit mk n \<or> n = 2)"
  "bit (spcflags_set mk SPCFLAG_JIT_EXEC_RETURN) n = (bit mk n \<or> n = 4)"
  unfolding spcflag_defs by (rule bit_set_flag, simp)+

lemma clear_spcflag_bits [simp]:
  "bit (spcflags_clear mk SPCFLAG_CPU_EXEC_RETURN) n = (bit mk n \<and> n \<noteq> 0)"
  "bit (spcflags_clear mk SPCFLAG_CPU_TRIGGER_INTERRUPT) n = (bit mk n \<and> n \<noteq> 1)"
  "bit (spcflags_clear mk SPCFLAG_CPU_HANDLE_INTERRUPT) n = (bit mk n \<and> n \<noteq> 2)"
  "bit (spcflags_clear mk SPCFLAG_CPU_ENTER_MON) n = (bit mk n \<and> n \<noteq> 3)"
  "bit (spcflags_clear mk SPCFLAG_JIT_EXEC_RETURN) n = (bit mk n \<and> n \<noteq> 4)"
  unfolding spcflag_defs by (rule bit_clear_flag, simp)+

lemma spcflag_other [simp]:
  "processing_interrupt (set_spcflag f m) = processing_interrupt m"
  "processing_interrupt (clear_spcflag f m) = processing_interrupt m"
  "recorder (set_spcflag f m) = recorder m" "recorder (clear_spcflag f m) = recorder m"
  by (simp_all add: set_spcflag_def clear_spcflag_def)

section \<open>Delivery of interrupts\<close>

lemma deliver_interrupt_eq:
  assumes "\<not> processing_interrupt m"
    and "HandleInterrupt H (interrupt_copy (stack_registers H) (core m)) (m\<lparr>processing_interrupt := True\<rparr>) = (r, m')"
  shows "deliver_interrupt H m = m'\<lparr>core := interrupt_copy (core m') r, processing_interrupt := False\<rparr>"
  using assms by (simp add: deliver_interrupt_def Let_def)

text \<open>
  C13: An interrupt is invisible to the interrupted program: when the handler leaves its copy of
  the registers alone, the general, floating-point, condition, link and count registers, the
  XER, FPSCR and VRSAVE and the program counter are after the delivery what they were
  before, whatever the handler did with the processor, and so is every vector register that
  VRSAVE marks as in use.
\<close>

theorem interrupt_transparent:
  assumes "\<not> processing_interrupt m"
    and "HandleInterrupt H (interrupt_copy (stack_registers H) (core m)) (m\<lparr>processing_interrupt := True\<rparr>) =
      (interrupt_copy (stack_registers H) (core m), m')"
  shows "let s = core m; t = core (deliver_interrupt H m) in
    (\<forall>i<32. gpr t i = gpr s i \<and> fpr t i = fpr s i) \<and> cr t = cr s \<and> xer t = xer s \<and> fpscr t = fpscr s \<and>
    lr t = lr s \<and> ctr t = ctr s \<and> pc t = pc s \<and> vrsave t = vrsave s \<and>
    (\<forall>i<32. bit (vrsave s) (31 - i) \<longrightarrow> vr t i = vr s i) \<and>
    mem t = mem (core m') \<and> \<not> processing_interrupt (deliver_interrupt H m)"
  unfolding deliver_interrupt_eq[OF assms] Let_def by (simp add: interrupt_copy_eq)

definition clobbering_host :: cpu_host where
  "clobbering_host =
     sheep_host.extend example_sheep_host
       (cpu_host.fields (\<lambda>r m. (r, m\<lparr>core := (core m)\<lparr>gpr := \<lambda>_. 7, pc := 0x100, lr := 9\<rparr>\<rparr>)) zero_cpu)"

definition example_machine :: machine where
  "example_machine =
     \<lparr>core = zero_cpu\<lparr>vrsave := 0x80000000\<rparr>, processing_interrupt = False,
      recorder = \<lparr>flight_log = \<lambda>_. \<lparr>rec_pc = 0, rec_opcode = 0, rec_sp = 0, rec_r24 = 0\<rparr>,
                  logging = False, log_ptr = 0, log_ptr_wrapped = False\<rparr>\<rparr>"

lemma clobbering_host_simps [simp]:
  "HandleInterrupt clobbering_host = (\<lambda>r m. (r, m\<lparr>core := (core m)\<lparr>gpr := \<lambda>_. 7, pc := 0x100, lr := 9\<rparr>\<rparr>))"
  "stack_registers clobbering_host = zero_cpu"
  "EmulOp clobbering_host = (\<lambda>r pc op s. Inr (r, s))" "execute_native_op clobbering_host = (\<lambda>op s. Inr s)"
  "\<not> ignoreillegal clobbering_host"
  using example_sheep_host_simps
  by (simp_all add: clobbering_host_def sheep_host.extend_def cpu_host.fields_def)

theorem interrupt_transparent_witness:
  "let t = core (deliver_interrupt clobbering_host example_machine)
   in gpr t 3 = 0 \<and> lr t = 0 \<and> pc t = 0 \<and> vr t 0 = (\<lambda>_. 0)"
proof -
  have "let s = core example_machine; t = core (deliver_interrupt clobbering_host example_machine) in
      (\<forall>i<32. gpr t i = gpr s i \<and> fpr t i = fpr s i) \<and> cr t = cr s \<and> xer t = xer s \<and> fpscr t = fpscr s \<and>
      lr t = lr s \<and> ctr t = ctr s \<and> pc t = pc s \<and> vrsave t = vrsave s \<and>
      (\<forall>i<32. bit (vrsave s) (31 - i) \<longrightarrow> vr t i = vr s i) \<and>
      mem t = mem (core (example_machine\<lparr>processing_interrupt := True,
        core := (core example_machine)\<lparr>gpr := \<lambda>_. 7, pc := 0x100, lr := 9\<rparr>\<rparr>)) \<and>
      \<not> processing_interrupt (deliver_interrupt clobbering_host example_machine)"
    by (rule interrupt_transparent) (simp_all add: example_machine_def)
  then show ?thesis by (simp add: Let_def example_machine_def zero_cpu_def)
qed

text \<open>Two machines that differ in their special flags only.\<close>

definition same_but_flags :: "machine \<Rightarrow> machine \<Rightarrow> bool" where
  "same_but_flags m n \<longleftrightarrow> m\<lparr>core := (core m)\<lparr>spcflags := 0\<rparr>\<rparr> = n\<lparr>core := (core n)\<lparr>spcflags := 0\<rparr>\<rparr>"

lemma same_but_flags_refl [simp]: "same_but_flags m m"
  by (simp add: same_but_flags_def)

lemma same_but_flags_trans [trans]: "same_but_flags a b \<Longrightarrow> same_but_flags b c \<Longrightarrow> same_but_flags a c"
  by (simp add: same_but_flags_def)

lemma same_but_flags_spcflag [simp]:
  "same_but_flags a (set_spcflag f m) = same_but_flags a m" "same_but_flags a (clear_spcflag f m) = same_but_flags a m"
  by (simp_all add: same_but_flags_def set_spcflag_def clear_spcflag_def)



section \<open>The interpreter loop\<close>

text \<open>The loop with a bound on the number of iterations.\<close>

fun interpret_fuel :: "nat \<Rightarrow> 'h cpu_host_scheme \<Rightarrow> decoder \<Rightarrow> machine \<Rightarrow> (abort_reason + machine) option" where
  "interpret_fuel 0 H d m = None"
| "interpret_fuel (Suc n) H d m =
     (case interpret_step H d m of
        Inl e \<Rightarrow> Some (Inl e)
      | Inr (go, m) \<Rightarrow> if go then interpret_fuel n H d m else Some (Inr m))"

lemma do_interpret_fuel:
  fixes H :: "'h cpu_host_scheme"
  shows "do_interpret H d m = Some r \<Longrightarrow> \<exists>n. interpret_fuel n H d m = Some r"
proof (erule do_interpret.raw_induct[rotated 1])
  fix f and H :: "'h cpu_host_scheme" and d m r
  assume IH: "\<And>(H :: 'h cpu_host_scheme) d m r. f H d m = Some r \<Longrightarrow> \<exists>n. interpret_fuel n H d m = Some r"
    and eq: "(case interpret_step H d m of Inl e \<Rightarrow> Some (Inl e)
      | Inr (go, m) \<Rightarrow> if go then f H d m else Some (Inr m)) = Some r"
  show "\<exists>n. interpret_fuel n H d m = Some r"
  proof (cases "interpret_step H d m")
    case (Inl e)
    with eq have "interpret_fuel 1 H d m = Some r" by simp
    then show ?thesis ..
  next
    case (Inr p)
    obtain go m' where p: "p = (go, m')" by force
    show ?thesis
    proof (cases go)
      case True
      with eq Inr p have "f H d m' = Some r" by simp
      from IH[OF this] obtain n where "interpret_fuel n H d m' = Some r" ..
      with True Inr p have "interpret_fuel (Suc n) H d m = Some r" by simp
      then show ?thesis ..
    next
      case False
      with eq Inr p have "interpret_fuel 1 H d m = Some r" by simp
      then show ?thesis ..
    qed
  qed
qed

lemma fuel_do_interpret: "interpret_fuel n H d m = Some r \<Longrightarrow> do_interpret H d m = Some r"
proof (induction n arbitrary: m)
  case (Suc n)
  then show ?case
    by (subst do_interpret.simps) (auto split: sum.splits prod.splits if_splits)
qed simp


section \<open>Returning from the emulator\<close>

lemma decode_sheep:
  assumes "ii_table d0 = []" "load_decoder d0 = Some d" "unat w div 2 ^ 26 = 6"
  shows "ii_execute (decode d w) = pmf_sheep"
proof -
  let ?ii = "instr_info ''sheep'' pmf_sheep ''SHEEP'' D_form 6 0 (CFLOW_JUMP OR CFLOW_TRAP)"
  have "load_decoder d0 = Some d \<and> decode d w = search_ii full_ii_table w"
    using load_decoder_inv[OF assms(1)] assms(2) by (auto simp: decoder_inv_def)
  moreover have "search_ii full_ii_table w = ?ii"
    unfolding search_full_table
  proof (rule filter_le_1_last[OF full_table_unique])
    show "?ii \<in> set (tl full_ii_table)" unfolding tl_full_ii_table by (simp add: sheep_ii_table_def)
    show "ii_matches ?ii w" using assms(3) by (simp add: ii_matches_def opcode_fields)
  qed
  ultimately show ?thesis by simp
qed

lemma exec_return_handler:
  "execute_sheep H POWERPC_EXEC_RETURN s = Inr (s\<lparr>spcflags := spcflags_set (spcflags s) SPCFLAG_CPU_EXEC_RETURN\<rparr>)"
  by (simp add: execute_sheep_def POWERPC_EXEC_RETURN_def POWERPC_EMUL_OP_def)

lemma spcflags_clear_set_exec_return:
  "spcflags_clear (spcflags_set mk SPCFLAG_CPU_EXEC_RETURN) SPCFLAG_CPU_EXEC_RETURN = spcflags_clear mk SPCFLAG_CPU_EXEC_RETURN"
  by (intro bit_word_eqI) auto

lemma spcflags_nonempty: "bit mk k \<Longrightarrow> \<not> spcflags_empty mk"
  by (auto simp: spcflags_empty_def)

text \<open>
  The EXEC_RETURN instruction ends a nested run of the processor: a call of the
  interpreter at an address that holds it returns, after this one instruction, with every
  register and the memory as they were, the program counter at the instruction and the
  request to return withdrawn.
\<close>

theorem exec_return_ends_execute:
  assumes "ii_table d0 = []" and "load_decoder d0 = Some d"
    and "vm_read_memory_4 (mem (core m)) entry = POWERPC_EXEC_RETURN" and "\<not> logging (recorder m)"
  shows "execute_nested H d entry m =
    Some (Inr (m\<lparr>core := (core m)\<lparr>pc := entry,
      spcflags := spcflags_clear (spcflags (core m)) SPCFLAG_CPU_EXEC_RETURN\<rparr>\<rparr>))"
proof -
  let ?s = "(core m)\<lparr>pc := entry\<rparr>"
  have x: "ii_execute (decode d POWERPC_EXEC_RETURN) = pmf_sheep"
    by (rule decode_sheep[OF assms(1,2)]) (simp add: POWERPC_EXEC_RETURN_def POWERPC_EMUL_OP_def)
  have "bit (spcflags_set (spcflags (core m)) SPCFLAG_CPU_EXEC_RETURN) 0" by simp
  then have ne: "\<not> spcflags_empty (spcflags_set (spcflags (core m)) SPCFLAG_CPU_EXEC_RETURN)"
    by (rule spcflags_nonempty)
  have "interpret_step H d (m\<lparr>core := ?s\<rparr>) =
      Inr (False, m\<lparr>core := ?s\<lparr>spcflags := spcflags_clear (spcflags (core m)) SPCFLAG_CPU_EXEC_RETURN\<rparr>\<rparr>)"
    using assms(3,4)
    by (simp add: interpret_step_def x exec_return_handler ne check_spcflags_def test_spcflag_bits
        clear_spcflag_def spcflags_clear_set_exec_return)
  then show ?thesis
    unfolding execute_nested_def by (subst do_interpret.simps) simp
qed

definition exec_return_machine :: machine where
  "exec_return_machine =
     example_machine\<lparr>core := zero_cpu\<lparr>mem := vm_write_memory_4 (\<lambda>_. 0) 0x1000 POWERPC_EXEC_RETURN\<rparr>\<rparr>"

theorem exec_return_ends_execute_witness:
  "\<exists>d. load_decoder empty_decoder = Some d \<and>
     execute_nested clobbering_host d 0x1000 exec_return_machine =
       Some (Inr (exec_return_machine\<lparr>core := (core exec_return_machine)\<lparr>pc := 0x1000, spcflags := 0\<rparr>\<rparr>))"
proof -
  have e: "ii_table empty_decoder = []" by (simp add: empty_decoder_def)
  obtain d where d: "load_decoder empty_decoder = Some d" using load_decoder_inv[OF e] by blast
  have m: "vm_read_memory_4 (mem (core exec_return_machine)) 0x1000 = POWERPC_EXEC_RETURN"
    by (simp add: exec_return_machine_def read_write_4_same)
  have l: "\<not> logging (recorder exec_return_machine)" by (simp add: exec_return_machine_def example_machine_def)
  have f: "spcflags (core exec_return_machine) = 0" by (simp add: exec_return_machine_def)
  show ?thesis
    using exec_return_ends_execute[OF e d m l, of clobbering_host] d
    by (intro exI[of _ d]) (simp add: f spcflags_clear_def)
qed

section \<open>The invariant of the running machine\<close>

text \<open>
  What the routines outside the processor core must respect: they keep the invariant of the
  register file, a NativeOp routine also leaves a word-aligned link register, and the interrupt
  handler leaves a well-formed XER and an aligned program counter in its copy.
\<close>

definition wf_copy :: "powerpc_cpu \<Rightarrow> bool" where
  "wf_copy r \<longleftrightarrow> wf_xer (xer r) \<and> pc r AND 3 = 0"

definition host_ok :: "'h cpu_host_scheme \<Rightarrow> bool" where
  "host_ok H \<longleftrightarrow>
     (\<forall>r p op s r' t. wf_cpu s \<longrightarrow> EmulOp H r p op s = Inr (r', t) \<longrightarrow> wf_cpu t) \<and>
     (\<forall>op s t. wf_cpu s \<longrightarrow> execute_native_op H op s = Inr t \<longrightarrow> wf_cpu t \<and> lr t AND 3 = 0) \<and>
     (\<forall>r m r' m'. wf_copy r \<longrightarrow> wf_cpu (core m) \<longrightarrow> HandleInterrupt H r m = (r', m') \<longrightarrow>
        wf_copy r' \<and> wf_cpu (core m'))"

lemma wf_interrupt_copy: "wf_cpu s \<Longrightarrow> wf_copy r \<Longrightarrow> wf_cpu (interrupt_copy s r)"
  by (simp add: wf_cpu_def wf_copy_def interrupt_copy_eq)

lemma wf_copy_interrupt_copy: "wf_cpu s \<Longrightarrow> wf_copy (interrupt_copy r s)"
  by (simp add: wf_cpu_def wf_copy_def interrupt_copy_eq)

lemma wf_spcflag [simp]:
  "wf_cpu (core (set_spcflag f m)) = wf_cpu (core m)" "wf_cpu (core (clear_spcflag f m)) = wf_cpu (core m)"
  by (simp_all add: set_spcflag_def clear_spcflag_def wf_cpu_def)

lemma wf_deliver_interrupt:
  assumes "host_ok H" "wf_cpu (core m)"
  shows "wf_cpu (core (deliver_interrupt H m))"
proof (cases "processing_interrupt m")
  case False
  obtain r m' where h: "HandleInterrupt H (interrupt_copy (stack_registers H) (core m))
      (m\<lparr>processing_interrupt := True\<rparr>) = (r, m')" by force
  have "wf_copy r \<and> wf_cpu (core m')"
    using assms h wf_copy_interrupt_copy[OF assms(2)] unfolding host_ok_def
    by (metis machine.select_convs(1) machine.surjective machine.update_convs(2))
  then show ?thesis by (simp add: deliver_interrupt_eq[OF False h] wf_interrupt_copy)
qed (simp add: deliver_interrupt_def assms(2))

lemma wf_check_spcflags:
  assumes "host_ok H" "wf_cpu (core m)"
  shows "wf_cpu (core (snd (check_spcflags H m)))"
  using assms wf_deliver_interrupt[OF assms(1), of "clear_spcflag SPCFLAG_CPU_HANDLE_INTERRUPT m"]
  by (simp add: check_spcflags_def Let_def)

lemma wf_store_m68k: "wf_cpu s \<Longrightarrow> wf_cpu (store_m68k_registers r s)"
  by (simp add: store_m68k_registers_eq wf_cpu_def)

lemma wf_execute_emul_op:
  assumes "host_ok H" "wf_cpu s"
  shows "wf_result (execute_emul_op H op s)"
proof -
  let ?s = "WriteMacInt32 XLM_RUN_MODE MODE_EMUL_OP (WriteMacInt32 XLM_68K_R25 (gpr s 25) s)"
  have w: "wf_cpu ?s" using assms(2) by (simp add: wf_intros)
  show ?thesis
  proof (cases "EmulOp H (load_m68k_registers ?s) (gpr ?s 24) op ?s")
    case (Inr p)
    obtain r t where p: "p = (r, t)" by force
    have "wf_cpu t" using assms(1) w Inr p unfolding host_ok_def by blast
    then show ?thesis
      using Inr p by (auto simp: execute_emul_op_def Let_def intro!: wf_intros wf_store_m68k)
  qed (simp add: execute_emul_op_def Let_def)
qed

lemma wf_execute_sheep:
  assumes "host_ok H" "wf_cpu s"
  shows "wf_result (execute_sheep H w s)"
proof -
  have n: "wf_result (and_then (execute_native_op H op s)
      (\<lambda>s. Inr (if b then s\<lparr>pc := lr s\<rparr> else increment_pc 4 s)))" for op b
  proof (cases "execute_native_op H op s")
    case (Inr t)
    have "wf_cpu t \<and> lr t AND 3 = 0" using assms Inr unfolding host_ok_def by blast
    then show ?thesis using Inr by (simp add: wf_cpu_updates) (simp add: wf_cpu_def)
  qed simp
  have e: "wf_result (and_then (execute_emul_op H op s) (\<lambda>s. Inr (increment_pc 4 s)))" for op
    using wf_execute_emul_op[OF assms, of op] by (intro wf_result_and_then) (simp_all add: wf_cpu_updates)
  show ?thesis
    unfolding execute_sheep_def using n e assms(2) by (simp add: wf_cpu_fields)
qed

lemma wf_interpret_step:
  assumes "host_ok H" "wf_cpu (core m)" "interpret_step H d m = Inr (go, m')"
  shows "wf_cpu (core m')"
proof -
  let ?w = "vm_read_memory_4 (mem (core m)) (pc (core m))"
  let ?m = "if logging (recorder m) then m\<lparr>recorder := record_step ?w (core m) (recorder m)\<rparr> else m"
  have c: "core ?m = core m" by simp
  obtain s where s: "call_pmf H (ii_execute (decode d ?w)) ?w (core m) = Inr s"
    using assms(3) unfolding interpret_step_def Let_def c by (auto split: sum.splits)
  have "wf_result (call_pmf H (ii_execute (decode d ?w)) ?w (core m))"
    using assms(1,2) wf_call_pmf wf_execute_sheep by (cases "ii_execute (decode d ?w) = pmf_sheep") auto
  then have w: "wf_cpu (core (?m\<lparr>core := s\<rparr>))" using s by simp
  have "m' = (if \<not> spcflags_empty (spcflags s) then snd (check_spcflags H (?m\<lparr>core := s\<rparr>)) else ?m\<lparr>core := s\<rparr>)"
    using assms(3) s unfolding interpret_step_def Let_def c by (auto split: if_splits)
  then show ?thesis using w wf_check_spcflags[OF assms(1) w] by (auto split: if_splits)
qed


definition quiet_host :: cpu_host where
  "quiet_host =
     sheep_host.extend (example_sheep_host\<lparr>execute_native_op := \<lambda>op s. Inr (s\<lparr>lr := 0\<rparr>)\<rparr>)
       (cpu_host.fields (\<lambda>r m. (r, m)) zero_cpu)"

lemma quiet_host_ok: "host_ok quiet_host"
  using example_sheep_host_simps
  by (simp add: host_ok_def quiet_host_def sheep_host.extend_def cpu_host.fields_def wf_cpu_fields)


end
