(* ===== verification/PPC_Linked_List.thy ===== *)
theory PPC_Linked_List
  imports PPC_Prelude
begin

text \<open>
  The intrusive doubly-linked lists of \<^verbatim>\<open>block-cache.hpp\<close>. An entry holds a pointer to the
  next entry and a pointer to the variable that points to itself: the head of a list or the
  next-pointer of its predecessor. The cache keeps its entries in two families of such lists
  (one per cache line, and the active and dormant lists), with the same code for both; the
  model has it once, over a store of head, next and previous pointers, and shows that it
  implements insertion in front of and removal from lists.
\<close>

section \<open>The store\<close>

datatype 'h link_loc = Head 'h | Next_of nat

record 'h dlist =
  dl_head :: "'h \<Rightarrow> nat option"
  dl_next :: "nat \<Rightarrow> nat option"
  dl_prev_p :: "nat \<Rightarrow> 'h link_loc option"

primrec write_loc :: "'h link_loc \<Rightarrow> nat option \<Rightarrow> 'h dlist \<Rightarrow> 'h dlist" where
  "write_loc (Head h) v d = d\<lparr>dl_head := (dl_head d)(h := v)\<rparr>"
| "write_loc (Next_of a) v d = d\<lparr>dl_next := (dl_next d)(a := v)\<rparr>"

definition dl_remove :: "nat \<Rightarrow> 'h dlist \<Rightarrow> 'h dlist" where
  "dl_remove e d =
     (let d = (case dl_prev_p d e of None \<Rightarrow> d | Some l \<Rightarrow> write_loc l (dl_next d e) d)
      in case dl_next d e of
           None \<Rightarrow> d
         | Some n \<Rightarrow> d\<lparr>dl_prev_p := (dl_prev_p d)(n := dl_prev_p d e)\<rparr>)"

definition dl_add :: "'h \<Rightarrow> nat \<Rightarrow> 'h dlist \<Rightarrow> 'h dlist" where
  "dl_add h e d =
     (let d = (case dl_head d h of
                 None \<Rightarrow> d
               | Some x \<Rightarrow> d\<lparr>dl_prev_p := (dl_prev_p d)(x := Some (Next_of e))\<rparr>);
          d = d\<lparr>dl_next := (dl_next d)(e := dl_head d h)\<rparr>;
          d = d\<lparr>dl_head := (dl_head d)(h := Some e)\<rparr>
      in d\<lparr>dl_prev_p := (dl_prev_p d)(e := Some (Head h))\<rparr>)"

section \<open>The lists in the store\<close>

text \<open>The entries \<open>xs\<close> are linked from the location \<open>l\<close>, which holds \<open>p\<close>.\<close>

primrec linked :: "'h dlist \<Rightarrow> 'h link_loc \<Rightarrow> nat option \<Rightarrow> nat list \<Rightarrow> bool" where
  "linked d l p [] \<longleftrightarrow> p = None"
| "linked d l p (x # xs) \<longleftrightarrow>
     p = Some x \<and> dl_prev_p d x = Some l \<and> linked d (Next_of x) (dl_next d x) xs"

definition dl_rep :: "'h dlist \<Rightarrow> ('h \<Rightarrow> nat list) \<Rightarrow> bool" where
  "dl_rep d L \<longleftrightarrow>
     (\<forall>h. linked d (Head h) (dl_head d h) (L h) \<and> distinct (L h)) \<and>
     (\<forall>h h'. h \<noteq> h' \<longrightarrow> set (L h) \<inter> set (L h') = {})"

lemma linked_frame:
  assumes "linked d l p xs"
    and "\<And>x. x \<in> set xs \<Longrightarrow> dl_next d' x = dl_next d x \<and> dl_prev_p d' x = dl_prev_p d x"
  shows "linked d' l p xs"
  using assms by (induction xs arbitrary: l p) auto

lemma linked_relocate:
  assumes "linked d l p xs" and "distinct xs"
    and "\<And>x. x \<in> set xs \<Longrightarrow> dl_next d' x = dl_next d x"
    and "\<And>x. x \<in> set xs \<Longrightarrow> dl_prev_p d' x = (if p = Some x then Some l' else dl_prev_p d x)"
  shows "linked d' l' p xs"
  using assms by (cases xs) (auto intro: linked_frame)

lemma linked_prev:
  "linked d l p (as @ e # bs) \<Longrightarrow> dl_prev_p d e = Some (if as = [] then l else Next_of (last as))"
  by (induction as arbitrary: l p) auto

lemma linked_next:
  "linked d l p (as @ e # bs) \<Longrightarrow> linked d (Next_of e) (dl_next d e) bs"
  by (induction as arbitrary: l p) auto

lemma linked_value: "linked d l p xs \<Longrightarrow> p = (case xs of [] \<Rightarrow> None | x # _ \<Rightarrow> Some x)"
  by (cases xs) auto

text \<open>What the removal of an entry changes: the location before it and the entry behind it.\<close>

lemma dl_remove_fields:
  assumes "linked d l p (as @ e # bs)" and "distinct (as @ e # bs)"
    and "l \<notin> Next_of ` set (as @ e # bs)"
  defines "pl \<equiv> (if as = [] then l else Next_of (last as))"
  shows "dl_next (dl_remove e d) = (case pl of Head h \<Rightarrow> dl_next d | Next_of a \<Rightarrow> (dl_next d)(a := dl_next d e))"
    and "dl_head (dl_remove e d) = (case pl of Head h \<Rightarrow> (dl_head d)(h := dl_next d e) | Next_of a \<Rightarrow> dl_head d)"
    and "dl_prev_p (dl_remove e d) =
      (case dl_next d e of None \<Rightarrow> dl_prev_p d | Some n \<Rightarrow> (dl_prev_p d)(n := Some pl))"
proof -
  have prev: "dl_prev_p d e = Some pl" using linked_prev[OF assms(1)] by (simp add: pl_def)
  have "pl \<noteq> Next_of e"
    using assms(2,3) by (cases as rule: rev_cases) (auto simp: pl_def)
  then have nxt: "dl_next (write_loc pl v d) e = dl_next d e" for v by (cases pl) auto
  have prevp: "dl_prev_p (write_loc pl v d) = dl_prev_p d" for v by (cases pl) auto
  show "dl_next (dl_remove e d) = (case pl of Head h \<Rightarrow> dl_next d | Next_of a \<Rightarrow> (dl_next d)(a := dl_next d e))"
    by (cases pl) (auto simp: dl_remove_def prev Let_def split: option.splits)
  show "dl_head (dl_remove e d) = (case pl of Head h \<Rightarrow> (dl_head d)(h := dl_next d e) | Next_of a \<Rightarrow> dl_head d)"
    by (cases pl) (auto simp: dl_remove_def prev Let_def split: option.splits)
  show "dl_prev_p (dl_remove e d) =
      (case dl_next d e of None \<Rightarrow> dl_prev_p d | Some n \<Rightarrow> (dl_prev_p d)(n := Some pl))"
    by (simp add: dl_remove_def prev Let_def nxt prevp split: option.splits)
qed

lemma linked_remove:
  assumes "linked d l p (as @ e # bs)" and "distinct (as @ e # bs)"
    and "l \<notin> Next_of ` set (as @ e # bs)"
  shows "linked (dl_remove e d) l (if as = [] then dl_next d e else p) (as @ bs)"
proof (cases as rule: rev_cases)
  case Nil
  note f = dl_remove_fields[OF assms, unfolded Nil, simplified]
  have bs: "linked d (Next_of e) (dl_next d e) bs" using linked_next[OF assms(1)] .
  have l: "l \<noteq> Next_of x" if "x \<in> set bs" for x using assms(3) that by auto
  show ?thesis
    unfolding Nil append_Nil if_True simp_thms
  proof (rule linked_relocate[OF bs])
    show "distinct bs" using assms(2) by simp
    show "dl_next (dl_remove e d) x = dl_next d x" if "x \<in> set bs" for x
      using l[OF that] by (auto simp: f split: link_loc.splits)
    show "dl_prev_p (dl_remove e d) x = (if dl_next d e = Some x then Some l else dl_prev_p d x)"
      if "x \<in> set bs" for x
      by (auto simp: f split: option.splits)
  qed
next
  case (snoc as' a)
  note f = dl_remove_fields[OF assms, unfolded snoc, simplified]
  have "linked (dl_remove e d) l p (as' @ a # bs)" if "linked d l p (as' @ a # e # bs)" "distinct (as' @ a # e # bs)"
    for l p as'
    using that
  proof (induction as' arbitrary: l p)
    case Nil
    then have bs: "linked d (Next_of e) (dl_next d e) bs" and pa: "dl_prev_p d a = Some l" "p = Some a"
      and ae: "a \<noteq> e" "a \<notin> set bs" "e \<notin> set bs" "distinct bs" by auto
    have "dl_next d e \<noteq> Some a" using linked_value[OF bs] ae by (auto split: list.splits)
    then have "dl_prev_p (dl_remove e d) a = Some l" using pa by (auto simp: f split: option.splits)
    moreover have "linked (dl_remove e d) (Next_of a) (dl_next d e) bs"
      by (rule linked_relocate[OF bs ae(4)]) (use ae in \<open>auto simp: f split: option.splits\<close>)
    ultimately show ?case using pa by (simp add: f)
  next
    case (Cons y ys)
    then have p: "p = Some y" "dl_prev_p d y = Some l" by auto
    have bs: "linked d (Next_of e) (dl_next d e) bs"
      using linked_next[of d l p "y # ys @ [a]" e bs] Cons.prems(1) by simp
    have "dl_next d e \<noteq> Some y" using linked_value[OF bs] Cons.prems(2) by (auto split: list.splits)
    then have "dl_prev_p (dl_remove e d) y = Some l" using p by (auto simp: f split: option.splits)
    moreover have "linked (dl_remove e d) (Next_of y) (dl_next d y) (ys @ a # bs)"
      using Cons by simp
    moreover have "dl_next (dl_remove e d) y = dl_next d y"
      using Cons.prems(2) by (auto simp: f)
    ultimately show ?case using p by simp
  qed
  from this[of l p as'] show ?thesis using assms snoc by simp
qed

section \<open>The operations implement those of lists\<close>

lemma dl_rep_head: "dl_rep d L \<Longrightarrow> dl_head d h = (case L h of [] \<Rightarrow> None | x # _ \<Rightarrow> Some x)"
  unfolding dl_rep_def using linked_value by blast

lemma dl_rep_unique:
  assumes "dl_rep d L" "x \<in> set (L h)" "x \<in> set (L h')"
  shows "h = h'"
  using assms unfolding dl_rep_def by blast

lemma dl_repI:
  assumes "\<And>k. linked d (Head k) (dl_head d k) (L k)" "\<And>k. distinct (L k)"
    and "\<And>h h' x. x \<in> set (L h) \<Longrightarrow> x \<in> set (L h') \<Longrightarrow> h = h'"
  shows "dl_rep d L"
  unfolding dl_rep_def using assms by blast

lemma dl_rep_remove:
  assumes rep: "dl_rep d L" and e: "e \<in> set (L h)"
  shows "dl_rep (dl_remove e d) (L(h := remove1 e (L h)))"
proof -
  have lk: "linked d (Head k) (dl_head d k) (L k)" "distinct (L k)" for k
    using rep by (simp_all add: dl_rep_def)
  obtain as bs where sp: "L h = as @ e # bs" "e \<notin> set as"
    using e by (meson split_list_first)
  have l: "Head h \<notin> Next_of ` set (as @ e # bs)" by auto
  note hyps = lk(1)[of h, unfolded sp(1)] lk(2)[of h, unfolded sp(1)] l
  note f = dl_remove_fields[OF hyps]
  have bs: "linked d (Next_of e) (dl_next d e) bs" by (rule linked_next[OF hyps(1)])
  have head: "dl_head (dl_remove e d) k = (if k = h \<and> as = [] then dl_next d e else dl_head d k)" for k
    unfolding f(2) by (cases "as = []") simp_all
  have rm: "remove1 e (L h) = as @ bs" using sp by (simp add: remove1_append)
  have "linked (dl_remove e d) (Head h) (dl_head (dl_remove e d) h) (as @ bs)"
    using linked_remove[OF hyps] by (simp add: head)
  moreover have "linked (dl_remove e d) (Head k) (dl_head (dl_remove e d) k) (L k)" if "k \<noteq> h" for k
  proof -
    have dis: "x \<notin> set (L h)" if "x \<in> set (L k)" for x
      using dl_rep_unique[OF rep that, of h] \<open>k \<noteq> h\<close> by blast
    have n: "n \<in> set (L h)" if "dl_next d e = Some n" for n
      using linked_value[OF bs] that sp(1) by (auto split: list.splits)
    have "linked (dl_remove e d) (Head k) (dl_head d k) (L k)"
    proof (rule linked_frame[OF lk(1)])
      fix x assume "x \<in> set (L k)"
      then have "x \<notin> set (L h)" by (rule dis)
      moreover have "last as \<in> set (L h)" if "as \<noteq> []" using that sp(1) by simp
      ultimately have "dl_next (dl_remove e d) x = dl_next d x"
        unfolding f(1) by (cases "as = []") auto
      moreover have "dl_prev_p (dl_remove e d) x = dl_prev_p d x"
        unfolding f(3) using n \<open>x \<notin> set (L h)\<close> by (cases "dl_next d e") auto
      ultimately show "dl_next (dl_remove e d) x = dl_next d x \<and> dl_prev_p (dl_remove e d) x = dl_prev_p d x" ..
    qed
    then show ?thesis using that by (simp add: head)
  qed
  ultimately have "linked (dl_remove e d) (Head k) (dl_head (dl_remove e d) k) ((L(h := as @ bs)) k)" for k
    by (cases "k = h") simp_all
  moreover have "distinct ((L(h := as @ bs)) k)" for k using hyps(2) lk(2) by simp
  moreover have "k = k'" if "x \<in> set ((L(h := as @ bs)) k)" "x \<in> set ((L(h := as @ bs)) k')" for x k k'
  proof -
    have "set ((L(h := as @ bs)) j) \<subseteq> set (L j)" for j using sp(1) by auto
    with that show ?thesis using dl_rep_unique[OF rep, of x k k'] by blast
  qed
  ultimately show ?thesis unfolding rm by (rule dl_repI)
qed

lemma dl_add_fields:
  "dl_head (dl_add h e d) = (dl_head d)(h := Some e)"
  "dl_next (dl_add h e d) = (dl_next d)(e := dl_head d h)"
  "dl_prev_p (dl_add h e d) =
     (case dl_head d h of None \<Rightarrow> dl_prev_p d | Some x \<Rightarrow> (dl_prev_p d)(x := Some (Next_of e)))(e := Some (Head h))"
  by (simp_all add: dl_add_def Let_def split: option.split)

lemma dl_rep_add:
  assumes rep: "dl_rep d L" and fresh: "\<And>k. e \<notin> set (L k)"
  shows "dl_rep (dl_add h e d) (L(h := e # L h))"
proof -
  have lk: "linked d (Head k) (dl_head d k) (L k)" "distinct (L k)" for k
    using rep by (simp_all add: dl_rep_def)
  have ne: "x \<noteq> e" if "x \<in> set (L k)" for x k using that fresh by blast
  have "linked (dl_add h e d) (Next_of e) (dl_head d h) (L h)"
    by (rule linked_relocate[OF lk]) (use ne in \<open>auto simp: dl_add_fields split: option.splits\<close>)
  moreover have "linked (dl_add h e d) (Head k) (dl_head d k) (L k)" if "k \<noteq> h" for k
  proof (rule linked_frame[OF lk(1)])
    fix x assume x: "x \<in> set (L k)"
    have "dl_head d h \<noteq> Some x"
      using dl_rep_head[OF rep, of h] dl_rep_unique[OF rep x, of h] that by (auto split: list.splits)
    then show "dl_next (dl_add h e d) x = dl_next d x \<and> dl_prev_p (dl_add h e d) x = dl_prev_p d x"
      using ne[OF x] by (auto simp: dl_add_fields split: option.splits)
  qed
  ultimately have "linked (dl_add h e d) (Head k) (dl_head (dl_add h e d) k) ((L(h := e # L h)) k)" for k
    by (cases "k = h") (simp_all add: dl_add_fields)
  moreover have "distinct ((L(h := e # L h)) k)" for k using lk(2) fresh by simp
  moreover have "k = k'" if "x \<in> set ((L(h := e # L h)) k)" "x \<in> set ((L(h := e # L h)) k')" for x k k'
    using that fresh dl_rep_unique[OF rep] by (auto split: if_splits)
  ultimately show ?thesis by (rule dl_repI)
qed

lemma dl_rep_empty: "(\<And>h. dl_head d h = None) \<Longrightarrow> dl_rep d (\<lambda>_. [])"
  by (simp add: dl_rep_def)

text \<open>Emptying one list by clearing its head.\<close>

lemma dl_rep_clear_head:
  assumes "dl_rep d L"
  shows "dl_rep (d\<lparr>dl_head := (dl_head d)(h := None)\<rparr>) (L(h := []))"
proof -
  have "linked (d\<lparr>dl_head := (dl_head d)(h := None)\<rparr>) (Head k) (dl_head d k) (L k)" for k
    by (rule linked_frame[of d]) (use assms in \<open>simp_all add: dl_rep_def\<close>)
  then have "linked (d\<lparr>dl_head := (dl_head d)(h := None)\<rparr>) (Head k)
      (dl_head (d\<lparr>dl_head := (dl_head d)(h := None)\<rparr>) k) ((L(h := [])) k)" for k
    by (cases "k = h") simp_all
  moreover have "distinct ((L(h := [])) k)" for k using assms by (simp add: dl_rep_def)
  moreover have "k = k'" if "x \<in> set ((L(h := [])) k)" "x \<in> set ((L(h := [])) k')" for x k k'
    using that dl_rep_unique[OF assms, of x k k'] by (auto split: if_splits)
  ultimately show ?thesis by (rule dl_repI)
qed

end
