(* ===== verification/PPC_Block_Cache.thy ===== *)
theory PPC_Block_Cache
  imports PPC_Linked_List
begin

unbundle bit_operations_syntax

text \<open>
  The cache of decoded blocks: \<^verbatim>\<open>block-cache.hpp\<close> with the allocator of
  \<^verbatim>\<open>block-alloc.hpp\<close> and the block descriptors of \<^verbatim>\<open>ppc-blockinfo.hpp\<close>. An entry is
  identified by its address, the number of its chunk in the pools of the allocator; its list
  pointers are in two stores of \<^verbatim>\<open>PPC_Linked_List\<close>, one with a list per cache line and one
  with the active and dormant lists. Loops that follow pointers are partial functions, shown
  to end on every well-formed cache. The specification of the cache is the set of its blocks.
\<close>

section \<open>Block descriptors\<close>

record block_info =
  bi_pc :: u64
  bi_end_pc :: u64
  bi_size :: nat
  bi_min_pc :: u64
  bi_max_pc :: u64
  bi_di :: "nat option"

definition block_info_init :: "u64 \<Rightarrow> block_info \<Rightarrow> block_info" where
  "block_info_init start_pc bi = bi\<lparr>bi_pc := start_pc, bi_di := None\<rparr>"

definition intersect :: "u64 \<Rightarrow> u64 \<Rightarrow> block_info \<Rightarrow> bool" where
  "intersect start ed bi \<longleftrightarrow>
     bi_min_pc bi \<ge> start \<and> bi_min_pc bi < ed \<or> bi_max_pc bi \<ge> start \<and> bi_max_pc bi < ed"

section \<open>The allocator\<close>

text \<open>A pool has \<^verbatim>\<open>1 + 4096 / sizeof(data)\<close> chunks, with 160 bytes for a cache entry.\<close>

definition pool_count :: nat where "pool_count = 1 + 4096 div 160"

record lazy_allocator =
  al_pools :: nat
  al_chunks :: "nat list"

definition new_pool :: "lazy_allocator \<Rightarrow> lazy_allocator" where
  "new_pool al =
     al\<lparr>al_chunks := fold (\<lambda>c chunks. c # chunks) [al_pools al * pool_count..<(al_pools al + 1) * pool_count] (al_chunks al),
        al_pools := al_pools al + 1\<rparr>"

definition acquire :: "lazy_allocator \<Rightarrow> nat \<times> lazy_allocator" where
  "acquire al =
     (let al = (if al_chunks al = [] then new_pool al else al)
      in (hd (al_chunks al), al\<lparr>al_chunks := tl (al_chunks al)\<rparr>))"

definition release :: "nat \<Rightarrow> lazy_allocator \<Rightarrow> lazy_allocator" where
  "release c al = al\<lparr>al_chunks := c # al_chunks al\<rparr>"

section \<open>The cache\<close>

definition HASH_SIZE :: nat where "HASH_SIZE = 2 ^ 15"
definition HASH_MASK :: u64 where "HASH_MASK = 0x7fff"

datatype bc_list = Active | Dormant

record block_cache =
  bc_info :: "nat \<Rightarrow> block_info"
  cl_lists :: "nat dlist"
  bc_lists :: "bc_list dlist"
  bc_allocator :: lazy_allocator

definition cacheline :: "u64 \<Rightarrow> nat" where
  "cacheline addr = unat (drop_bit 2 addr AND HASH_MASK)"

definition bc_initialize :: "block_cache \<Rightarrow> block_cache" where
  "bc_initialize c =
     c\<lparr>cl_lists := fold (\<lambda>i d. d\<lparr>dl_head := (dl_head d)(i := None)\<rparr>) [0..<HASH_SIZE] (cl_lists c)\<rparr>"

definition new_blockinfo :: "block_cache \<Rightarrow> nat \<times> block_cache" where
  "new_blockinfo c = (let (e, al) = acquire (bc_allocator c) in (e, c\<lparr>bc_allocator := al\<rparr>))"

definition delete_blockinfo :: "nat \<Rightarrow> block_cache \<Rightarrow> block_cache" where
  "delete_blockinfo e c = c\<lparr>bc_allocator := release e (bc_allocator c)\<rparr>"

definition remove_from_cl_list :: "nat \<Rightarrow> block_cache \<Rightarrow> block_cache" where
  "remove_from_cl_list e c = c\<lparr>cl_lists := dl_remove e (cl_lists c)\<rparr>"

definition add_to_cl_list :: "nat \<Rightarrow> block_cache \<Rightarrow> block_cache" where
  "add_to_cl_list e c = c\<lparr>cl_lists := dl_add (cacheline (bi_pc (bc_info c e))) e (cl_lists c)\<rparr>"

definition raise_in_cl_list :: "nat \<Rightarrow> block_cache \<Rightarrow> block_cache" where
  "raise_in_cl_list e c = add_to_cl_list e (remove_from_cl_list e c)"

definition remove_from_list :: "nat \<Rightarrow> block_cache \<Rightarrow> block_cache" where
  "remove_from_list e c = c\<lparr>bc_lists := dl_remove e (bc_lists c)\<rparr>"

definition remove_from_lists :: "nat \<Rightarrow> block_cache \<Rightarrow> block_cache" where
  "remove_from_lists e c = remove_from_list e (remove_from_cl_list e c)"

definition add_to_active_list :: "nat \<Rightarrow> block_cache \<Rightarrow> block_cache" where
  "add_to_active_list e c = c\<lparr>bc_lists := dl_add Active e (bc_lists c)\<rparr>"

definition add_to_dormant_list :: "nat \<Rightarrow> block_cache \<Rightarrow> block_cache" where
  "add_to_dormant_list e c = c\<lparr>bc_lists := dl_add Dormant e (bc_lists c)\<rparr>"

definition fast_find :: "u64 \<Rightarrow> block_cache \<Rightarrow> nat option" where
  "fast_find a c =
     (case dl_head (cl_lists c) (cacheline a) of
        None \<Rightarrow> None
      | Some e \<Rightarrow> if bi_pc (bc_info c e) = a then Some e else None)"

partial_function (option) find_loop :: "u64 \<Rightarrow> nat \<Rightarrow> block_cache \<Rightarrow> (nat option \<times> block_cache) option" where
  "find_loop a e c =
     (case dl_next (cl_lists c) e of
        None \<Rightarrow> Some (None, c)
      | Some n \<Rightarrow> if bi_pc (bc_info c n) = a then Some (Some n, raise_in_cl_list n c) else find_loop a n c)"

definition bc_find :: "u64 \<Rightarrow> block_cache \<Rightarrow> (nat option \<times> block_cache) option" where
  "bc_find a c =
     (case dl_head (cl_lists c) (cacheline a) of
        None \<Rightarrow> Some (None, c)
      | Some e \<Rightarrow> if bi_pc (bc_info c e) = a then Some (Some e, c) else find_loop a e c)"

partial_function (option) clear_loop :: "nat option \<Rightarrow> block_cache \<Rightarrow> block_cache option" where
  "clear_loop p c =
     (case p of
        None \<Rightarrow> Some c
      | Some d \<Rightarrow> clear_loop (dl_next (bc_lists c) d) (delete_blockinfo d c))"

definition bc_reset_head :: "bc_list \<Rightarrow> block_cache \<Rightarrow> block_cache" where
  "bc_reset_head l c = c\<lparr>bc_lists := (bc_lists c)\<lparr>dl_head := (dl_head (bc_lists c))(l := None)\<rparr>\<rparr>"

definition bc_clear :: "block_cache \<Rightarrow> block_cache option" where
  "bc_clear c =
     Option.bind (clear_loop (dl_head (bc_lists c) Active) c) (\<lambda>c.
     let c = bc_reset_head Active c in
     Option.bind (clear_loop (dl_head (bc_lists c) Dormant) c) (\<lambda>c.
     Some (bc_reset_head Dormant c)))"

text \<open>
  \<^verbatim>\<open>invalidate()\<close> of a block does nothing without the dynamic translator. The two loops
  of \<^verbatim>\<open>clear_range\<close> follow the entries of a cache line and those of the active list.
\<close>

definition flush_block :: "u64 \<Rightarrow> u64 \<Rightarrow> nat \<Rightarrow> block_cache \<Rightarrow> block_cache" where
  "flush_block start ed q c =
     (if intersect start ed (bc_info c q)
      then delete_blockinfo q (remove_from_list q (remove_from_cl_list q c)) else c)"

partial_function (option) flush_line :: "u64 \<Rightarrow> u64 \<Rightarrow> nat option \<Rightarrow> block_cache \<Rightarrow> block_cache option" where
  "flush_line start ed p c =
     (case p of
        None \<Rightarrow> Some c
      | Some q \<Rightarrow> flush_line start ed (dl_next (cl_lists c) q) (flush_block start ed q c))"

fun flush_lines :: "u64 \<Rightarrow> u64 \<Rightarrow> nat list \<Rightarrow> block_cache \<Rightarrow> block_cache option" where
  "flush_lines start ed [] c = Some c"
| "flush_lines start ed (cl # cls) c =
     Option.bind (flush_line start ed (dl_head (cl_lists c) cl) c) (flush_lines start ed cls)"

partial_function (option) flush_active :: "u64 \<Rightarrow> u64 \<Rightarrow> nat option \<Rightarrow> block_cache \<Rightarrow> block_cache option" where
  "flush_active start ed p c =
     (case p of
        None \<Rightarrow> Some c
      | Some q \<Rightarrow> flush_active start ed (dl_next (bc_lists c) q) (flush_block start ed q c))"

definition clear_range :: "u64 \<Rightarrow> u64 \<Rightarrow> block_cache \<Rightarrow> block_cache option" where
  "clear_range start ed c =
     (if dl_head (bc_lists c) Active = None then Some c
      else if cacheline start < cacheline (ed - 1)
      then flush_lines start ed [cacheline start..<cacheline (ed - 1) + 1] c
      else flush_active start ed (dl_head (bc_lists c) Active) c)"

text \<open>
  The constructor, over the memory that the entries are allocated from; the whole-cache
  invalidation of \<^verbatim>\<open>powerpc_cpu::invalidate_cache\<close>; and the steps that \<^verbatim>\<open>execute\<close>
  takes to enter a new block: a descriptor is filled in and linked into both lists.
\<close>

definition new_block_cache :: "(nat \<Rightarrow> block_info) \<Rightarrow> block_cache" where
  "new_block_cache memory =
     bc_initialize
       \<lparr>bc_info = memory,
        cl_lists = \<lparr>dl_head = \<lambda>_. None, dl_next = \<lambda>_. None, dl_prev_p = \<lambda>_. None\<rparr>,
        bc_lists = \<lparr>dl_head = \<lambda>_. None, dl_next = \<lambda>_. None, dl_prev_p = \<lambda>_. None\<rparr>,
        bc_allocator = \<lparr>al_pools = 0, al_chunks = []\<rparr>\<rparr>"

definition bc_invalidate :: "block_cache \<Rightarrow> block_cache option" where
  "bc_invalidate c = map_option bc_initialize (bc_clear c)"

definition set_blockinfo :: "nat \<Rightarrow> block_info \<Rightarrow> block_cache \<Rightarrow> block_cache" where
  "set_blockinfo e bi c = c\<lparr>bc_info := (bc_info c)(e := bi)\<rparr>"

definition enter_block :: "nat \<Rightarrow> block_cache \<Rightarrow> block_cache" where
  "enter_block e c = add_to_active_list e (add_to_cl_list e c)"

section \<open>The allocator hands out unused chunks\<close>

definition alloc_ok :: "lazy_allocator \<Rightarrow> bool" where
  "alloc_ok al \<longleftrightarrow> distinct (al_chunks al) \<and> set (al_chunks al) \<subseteq> {..<al_pools al * pool_count}"

definition in_use :: "lazy_allocator \<Rightarrow> nat set" where
  "in_use al = {..<al_pools al * pool_count} - set (al_chunks al)"

lemma fold_Cons_eq: "fold (\<lambda>c cs. c # cs) xs ys = rev xs @ ys"
  by (induction xs arbitrary: ys) auto

lemma new_pool_ok:
  assumes "alloc_ok al" "al_chunks al = []"
  shows "alloc_ok (new_pool al)" "in_use (new_pool al) = in_use al" "al_chunks (new_pool al) \<noteq> []"
  using assms by (auto simp: alloc_ok_def in_use_def new_pool_def fold_Cons_eq pool_count_def)

lemma acquire_nonempty:
  assumes "alloc_ok al" "al_chunks al = x # xs" "acquire al = (e, al')"
  shows "alloc_ok al' \<and> e \<notin> in_use al \<and> in_use al' = insert e (in_use al)"
  using assms by (auto simp: acquire_def alloc_ok_def in_use_def)

lemma acquire_ok:
  assumes "alloc_ok al" "acquire al = (e, al')"
  shows "alloc_ok al' \<and> e \<notin> in_use al \<and> in_use al' = insert e (in_use al)"
proof (cases "al_chunks al")
  case Nil
  note n = new_pool_ok[OF assms(1) Nil]
  obtain x xs where x: "al_chunks (new_pool al) = x # xs" using n(3) by (cases "al_chunks (new_pool al)") auto
  have "acquire (new_pool al) = (e, al')" using assms(2) Nil n(3) by (simp add: acquire_def)
  from acquire_nonempty[OF n(1) x this] show ?thesis by (simp add: n(2))
qed (use acquire_nonempty[OF assms(1) _ assms(2)] in blast)

lemma release_ok:
  assumes "alloc_ok al" "e \<in> in_use al"
  shows "alloc_ok (release e al) \<and> in_use (release e al) = in_use al - {e}"
  using assms by (auto simp: alloc_ok_def in_use_def release_def)

text \<open>
  The allocator never hands out a chunk that is in use: \<^verbatim>\<open>acquire\<close> returns an unused one
  and adds exactly this one to the used chunks, and \<^verbatim>\<open>release\<close> takes exactly the given one out.
\<close>

theorem allocator_correct:
  assumes "alloc_ok al"
  shows "(\<forall>e al'. acquire al = (e, al') \<longrightarrow> alloc_ok al' \<and> e \<notin> in_use al \<and> in_use al' = insert e (in_use al)) \<and>
    (\<forall>e\<in>in_use al. alloc_ok (release e al) \<and> in_use (release e al) = in_use al - {e})"
  using acquire_ok[OF assms] release_ok[OF assms] by blast

theorem allocator_correct_witness:
  "let al = \<lparr>al_pools = 0, al_chunks = []\<rparr>; e = fst (acquire al); al' = snd (acquire al)
   in e = 25 \<and> e \<notin> in_use al \<and> in_use al' = {e}"
  using allocator_correct[of "\<lparr>al_pools = 0, al_chunks = []\<rparr>"]
  by (auto simp: alloc_ok_def in_use_def acquire_def new_pool_def fold_Cons_eq pool_count_def Let_def hd_rev)

section \<open>The invariant of the cache\<close>

text \<open>
  \<open>C\<close> gives the entries of each cache line and \<open>A\<close> those of the active list: the
  same entries, each on the line of its start address, all in use.
\<close>

definition bc_inv :: "block_cache \<Rightarrow> (nat \<Rightarrow> nat list) \<Rightarrow> nat list \<Rightarrow> bool" where
  "bc_inv c C A \<longleftrightarrow>
     dl_rep (cl_lists c) C \<and> dl_rep (bc_lists c) (\<lambda>l. if l = Active then A else []) \<and>
     (\<forall>cl e. e \<in> set (C cl) \<longleftrightarrow> e \<in> set A \<and> cacheline (bi_pc (bc_info c e)) = cl) \<and>
     alloc_ok (bc_allocator c) \<and> set A \<subseteq> in_use (bc_allocator c)"

lemma bc_invD:
  assumes "bc_inv c C A"
  shows "dl_rep (cl_lists c) C" "dl_rep (bc_lists c) (\<lambda>l. if l = Active then A else [])"
    "\<And>cl e. e \<in> set (C cl) \<longleftrightarrow> e \<in> set A \<and> cacheline (bi_pc (bc_info c e)) = cl"
    "alloc_ok (bc_allocator c)" "set A \<subseteq> in_use (bc_allocator c)" "distinct A" "\<And>cl. distinct (C cl)"
proof -
  show rep: "dl_rep (cl_lists c) C" "dl_rep (bc_lists c) (\<lambda>l. if l = Active then A else [])"
    using assms by (simp_all add: bc_inv_def)
  show "distinct A" using rep(2) unfolding dl_rep_def by (metis (full_types))
  show "distinct (C cl)" for cl using rep(1) by (simp add: dl_rep_def)
qed (use assms in \<open>simp_all add: bc_inv_def\<close>)

lemma cacheline_bound: "cacheline a < HASH_SIZE"
proof -
  have "drop_bit 2 a AND HASH_MASK = take_bit 15 (drop_bit 2 a)"
    by (simp add: HASH_MASK_def take_bit_eq_mask mask_eq_exp_minus_1)
  then have "cacheline a = take_bit 15 (unat (drop_bit 2 a))"
    unfolding cacheline_def by (simp only: unsigned_take_bit_eq)
  then show ?thesis by (simp add: HASH_SIZE_def take_bit_eq_mod)
qed

text \<open>Removing an entry from both lists.\<close>

lemma bc_inv_remove:
  assumes inv: "bc_inv c C A" and e: "e \<in> set A"
  defines "k \<equiv> cacheline (bi_pc (bc_info c e))"
  shows "bc_inv (delete_blockinfo e (remove_from_list e (remove_from_cl_list e c)))
    (C(k := remove1 e (C k))) (remove1 e A)"
proof -
  note D = bc_invD[OF inv]
  have ek: "e \<in> set (C k)" using D(3) e by (simp add: k_def)
  have "dl_rep (dl_remove e (cl_lists c)) (C(k := remove1 e (C k)))"
    by (rule dl_rep_remove[OF D(1) ek])
  moreover have "dl_rep (dl_remove e (bc_lists c)) (\<lambda>l. if l = Active then remove1 e A else [])"
  proof -
    have "(\<lambda>l. if l = Active then A else [])(Active := remove1 e A) = (\<lambda>l. if l = Active then remove1 e A else [])"
      by auto
    then show ?thesis using dl_rep_remove[OF D(2), of e Active] e by simp
  qed
  moreover have "x \<in> set ((C(k := remove1 e (C k))) cl) \<longleftrightarrow>
      x \<in> set (remove1 e A) \<and> cacheline (bi_pc (bc_info c x)) = cl" for cl x
    using D(3)[of x cl] D(6) D(7)[of k] by (auto simp: k_def)
  moreover have "alloc_ok (release e (bc_allocator c)) \<and> set (remove1 e A) \<subseteq> in_use (release e (bc_allocator c))"
    using release_ok[OF D(4), of e] D(5,6) e by auto
  ultimately show ?thesis
    by (simp add: bc_inv_def delete_blockinfo_def remove_from_list_def remove_from_cl_list_def)
qed

text \<open>Adding a fresh entry to both lists.\<close>

lemma bc_inv_add:
  assumes inv: "bc_inv c C A" and e: "e \<in> in_use (bc_allocator c)" "e \<notin> set A"
  defines "k \<equiv> cacheline (bi_pc (bc_info c e))"
  shows "bc_inv (add_to_active_list e (add_to_cl_list e c)) (C(k := e # C k)) (e # A)"
proof -
  note D = bc_invD[OF inv]
  have "dl_rep (dl_add k e (cl_lists c)) (C(k := e # C k))"
    by (rule dl_rep_add[OF D(1)]) (use D(3) e(2) in blast)
  moreover have "dl_rep (dl_add Active e (bc_lists c)) (\<lambda>l. if l = Active then e # A else [])"
  proof -
    have "(\<lambda>l. if l = Active then A else [])(Active := e # A) = (\<lambda>l. if l = Active then e # A else [])"
      by auto
    then show ?thesis using dl_rep_add[OF D(2), of e Active] e(2) by simp
  qed
  ultimately show ?thesis
    using D e by (auto simp: bc_inv_def add_to_active_list_def add_to_cl_list_def k_def)
qed

text \<open>Moving an entry to the front of its line.\<close>

lemma bc_inv_raise:
  assumes inv: "bc_inv c C A" and e: "e \<in> set (C k)"
  shows "bc_inv (raise_in_cl_list e c) (C(k := e # remove1 e (C k))) A"
proof -
  note D = bc_invD[OF inv]
  have k: "cacheline (bi_pc (bc_info c e)) = k" using D(3) e by blast
  have "dl_rep (dl_remove e (cl_lists c)) (C(k := remove1 e (C k)))"
    by (rule dl_rep_remove[OF D(1) e])
  then have "dl_rep (dl_add k e (dl_remove e (cl_lists c))) ((C(k := remove1 e (C k)))(k := e # (C(k := remove1 e (C k))) k))"
    by (rule dl_rep_add) (use D(3) D(7)[of k] e in \<open>auto split: if_splits\<close>)
  moreover have "x \<in> set ((C(k := e # remove1 e (C k))) cl) \<longleftrightarrow> x \<in> set (C cl)" for x cl
    using e D(7)[of k] by (auto split: if_splits)
  ultimately show ?thesis
    using D by (simp add: bc_inv_def raise_in_cl_list_def add_to_cl_list_def remove_from_cl_list_def k)
qed

section \<open>Lookup\<close>

lemma find_loop_eq:
  assumes "linked (cl_lists c) (Next_of e) (dl_next (cl_lists c) e) xs"
  shows "find_loop a e c =
    Some (case find (\<lambda>n. bi_pc (bc_info c n) = a) xs of
            None \<Rightarrow> (None, c) | Some n \<Rightarrow> (Some n, raise_in_cl_list n c))"
  using assms
proof (induction xs arbitrary: e)
  case Nil
  then show ?case by (simp add: find_loop.simps)
next
  case (Cons x xs)
  then have "dl_next (cl_lists c) e = Some x" and "linked (cl_lists c) (Next_of x) (dl_next (cl_lists c) x) xs"
    by simp_all
  then show ?case using Cons.IH[of x] by (subst find_loop.simps) simp
qed

lemma bc_find_eq:
  assumes "bc_inv c C A"
  shows "bc_find a c =
    Some (case find (\<lambda>n. bi_pc (bc_info c n) = a) (C (cacheline a)) of
            None \<Rightarrow> (None, c)
          | Some n \<Rightarrow> (Some n, if dl_head (cl_lists c) (cacheline a) = Some n then c else raise_in_cl_list n c))"
proof -
  note D = bc_invD[OF assms]
  have lk: "linked (cl_lists c) (Head (cacheline a)) (dl_head (cl_lists c) (cacheline a)) (C (cacheline a))"
    using D(1) by (simp add: dl_rep_def)
  show ?thesis
  proof (cases "C (cacheline a)")
    case Nil
    then show ?thesis using lk by (simp add: bc_find_def)
  next
    case (Cons x xs)
    have "find_loop a x c =
      Some (case find (\<lambda>n. bi_pc (bc_info c n) = a) xs of
              None \<Rightarrow> (None, c) | Some n \<Rightarrow> (Some n, raise_in_cl_list n c))"
      by (rule find_loop_eq) (use lk Cons in simp)
    moreover have "x \<noteq> n" if "find (\<lambda>n. bi_pc (bc_info c n) = a) xs = Some n" for n
      using that D(7)[of "cacheline a"] Cons by (auto simp: find_Some_iff)
    ultimately show ?thesis using lk Cons by (auto simp: bc_find_def split: option.splits)
  qed
qed

lemma bc_find_ok:
  assumes inv: "bc_inv c C A"
  obtains r c' C' where "bc_find a c = Some (r, c')" "bc_inv c' C' A" "bc_info c' = bc_info c"
    "bc_allocator c' = bc_allocator c"
    "case r of Some e \<Rightarrow> e \<in> set A \<and> bi_pc (bc_info c e) = a | None \<Rightarrow> \<forall>e\<in>set A. bi_pc (bc_info c e) \<noteq> a"
proof (cases "find (\<lambda>n. bi_pc (bc_info c n) = a) (C (cacheline a))")
  case None
  show thesis
  proof (rule that)
    show "bc_find a c = Some (None, c)" using bc_find_eq[OF inv, of a] None by simp
    show "case None of Some e \<Rightarrow> e \<in> set A \<and> bi_pc (bc_info c e) = a | None \<Rightarrow> \<forall>e\<in>set A. bi_pc (bc_info c e) \<noteq> a"
      using None bc_invD(3)[OF inv, of _ "cacheline a"] by (auto simp: find_None_iff)
  qed (use inv in simp_all)
next
  case (Some n)
  then have n: "n \<in> set (C (cacheline a))" "bi_pc (bc_info c n) = a"
    by (auto simp: find_Some_iff)
  have A: "n \<in> set A" using n bc_invD(3)[OF inv] by blast
  show thesis
  proof (cases "dl_head (cl_lists c) (cacheline a) = Some n")
    case True
    then show thesis using that[of "Some n" c C] bc_find_eq[OF inv, of a] Some inv A n(2) by simp
  next
    case False
    then show thesis
      using that[of "Some n" "raise_in_cl_list n c"] bc_inv_raise[OF inv n(1)] bc_find_eq[OF inv, of a] Some A n(2)
      by (simp add: raise_in_cl_list_def add_to_cl_list_def remove_from_cl_list_def)
  qed
qed

section \<open>Clearing the cache\<close>

lemma clear_loop_eq:
  assumes "linked (bc_lists c) l p xs"
  shows "clear_loop p c = Some (c\<lparr>bc_allocator := fold release xs (bc_allocator c)\<rparr>)"
  using assms
proof (induction xs arbitrary: c l p)
  case Nil
  then show ?case by (simp add: clear_loop.simps)
next
  case (Cons x xs)
  have "linked (bc_lists (delete_blockinfo x c)) (Next_of x) (dl_next (bc_lists c) x) xs"
    using Cons.prems by (simp add: delete_blockinfo_def)
  from Cons.IH[OF this] show ?case
    using Cons.prems by (subst clear_loop.simps) (simp add: delete_blockinfo_def)
qed

lemma fold_release_ok:
  assumes "alloc_ok al" "distinct xs" "set xs \<subseteq> in_use al"
  shows "alloc_ok (fold release xs al) \<and> in_use (fold release xs al) = in_use al - set xs"
  using assms
proof (induction xs arbitrary: al)
  case (Cons x xs)
  have "alloc_ok (release x al)" "in_use (release x al) = in_use al - {x}"
    using release_ok[of al x] Cons.prems by auto
  with Cons.IH[of "release x al"] Cons.prems show ?case by auto
qed simp

lemma bc_clear_eq:
  assumes "bc_inv c C A"
  shows "bc_clear c = Some (c\<lparr>bc_allocator := fold release A (bc_allocator c),
    bc_lists := (bc_lists c)\<lparr>dl_head := \<lambda>_. None\<rparr>\<rparr>)"
proof -
  have "linked (bc_lists c) (Head l) (dl_head (bc_lists c) l) (if l = Active then A else [])" for l
    using bc_invD(2)[OF assms] by (simp add: dl_rep_def)
  note lk = this[of Active, simplified] this[of Dormant, simplified]
  have "(dl_head (bc_lists c))(Active := None, Dormant := None) = (\<lambda>_. None)"
    by (rule ext) (metis bc_list.exhaust fun_upd_apply)
  then show ?thesis
    using clear_loop_eq[OF lk(1)] lk(2)
    by (simp add: bc_clear_def bc_reset_head_def clear_loop.simps[of None])
qed

lemma fold_clear_heads:
  "fold (\<lambda>i d. d\<lparr>dl_head := (dl_head d)(i := None)\<rparr>) xs d = d\<lparr>dl_head := \<lambda>i. if i \<in> set xs then None else dl_head d i\<rparr>"
  by (induction xs arbitrary: d) (auto simp: fun_eq_iff)

lemma bc_inv_cleared:
  assumes inv: "bc_inv c C A" and "bc_clear c = Some c'"
  shows "bc_inv (bc_initialize c') (\<lambda>_. []) []"
    and "in_use (bc_allocator (bc_initialize c')) = in_use (bc_allocator c) - set A"
    and "bc_info (bc_initialize c') = bc_info c"
proof -
  note D = bc_invD[OF inv]
  have c': "c' = c\<lparr>bc_allocator := fold release A (bc_allocator c), bc_lists := (bc_lists c)\<lparr>dl_head := \<lambda>_. None\<rparr>\<rparr>"
    using bc_clear_eq[OF inv] assms(2) by simp
  have "C h = []" if "h \<ge> HASH_SIZE" for h
    using that D(3)[of _ h] cacheline_bound by (metis last_in_set not_less)
  then have "dl_head (cl_lists c) h = None" if "h \<ge> HASH_SIZE" for h
    using dl_rep_head[OF D(1), of h] that by simp
  then have "dl_rep (cl_lists (bc_initialize c')) (\<lambda>_. [])"
    by (intro dl_rep_empty) (auto simp: bc_initialize_def c' fold_clear_heads)
  moreover have "dl_rep (bc_lists (bc_initialize c')) (\<lambda>l. if l = Active then [] else [])"
    using dl_rep_empty[of "bc_lists (bc_initialize c')"] by (simp add: bc_initialize_def c')
  moreover note fold_release_ok[OF D(4,6,5)]
  ultimately show "bc_inv (bc_initialize c') (\<lambda>_. []) []"
    "in_use (bc_allocator (bc_initialize c')) = in_use (bc_allocator c) - set A"
    "bc_info (bc_initialize c') = bc_info c"
    by (simp_all add: bc_inv_def bc_initialize_def c')
qed

section \<open>Flushing a range\<close>

text \<open>The cache \<open>c'\<close> is \<open>c\<close> without the entries that fail \<open>P\<close>, which are released.\<close>

definition restricts :: "(nat \<Rightarrow> bool) \<Rightarrow> block_cache \<Rightarrow> (nat \<Rightarrow> nat list) \<Rightarrow> nat list \<Rightarrow> block_cache \<Rightarrow> bool" where
  "restricts P c C A c' \<longleftrightarrow>
     bc_inv c' (\<lambda>k. filter P (C k)) (filter P A) \<and> bc_info c' = bc_info c \<and>
     in_use (bc_allocator c') = in_use (bc_allocator c) - {x \<in> set A. \<not> P x}"

lemma restricts_True: "bc_inv c C A \<Longrightarrow> (\<And>x. x \<in> set A \<Longrightarrow> P x) \<Longrightarrow> restricts P c C A c"
proof -
  assume inv: "bc_inv c C A" and P: "\<And>x. x \<in> set A \<Longrightarrow> P x"
  have "filter P A = A" "filter P (C k) = C k" for k
    using P bc_invD(3)[OF inv] by (auto intro: filter_True)
  moreover have "in_use al - {x \<in> set A. \<not> P x} = in_use al" for al using P by blast
  ultimately show ?thesis unfolding restricts_def using inv by presburger
qed

lemma restricts_trans:
  assumes "bc_inv c C A" "restricts P c C A c1" "restricts Q c1 (\<lambda>k. filter P (C k)) (filter P A) c2"
    and "\<And>x. x \<in> set A \<Longrightarrow> R x \<longleftrightarrow> P x \<and> Q x"
  shows "restricts R c C A c2"
proof -
  have f: "filter Q (filter P xs) = filter R xs" if "set xs \<subseteq> set A" for xs
    using that assms(4) by (auto intro!: filter_cong)
  have "filter Q (filter P (C k)) = filter R (C k)" for k
    by (rule f) (use bc_invD(3)[OF assms(1)] in blast)
  moreover have "filter Q (filter P A) = filter R A" by (rule f) simp
  moreover have "in_use (bc_allocator c) - {x \<in> set A. \<not> P x} - {x \<in> set (filter P A). \<not> Q x} =
      in_use (bc_allocator c) - {x \<in> set A. \<not> R x}"
    using assms(4) by auto
  ultimately show ?thesis using assms(2,3) by (simp add: restricts_def)
qed

lemma flush_block_restricts:
  assumes inv: "bc_inv c C A" and q: "q \<in> set A"
  shows "restricts (\<lambda>x. x = q \<longrightarrow> \<not> intersect start ed (bc_info c x)) c C A (flush_block start ed q c)"
proof (cases "intersect start ed (bc_info c q)")
  case True
  note D = bc_invD[OF inv]
  let ?c = "delete_blockinfo q (remove_from_list q (remove_from_cl_list q c))"
  let ?k = "cacheline (bi_pc (bc_info c q))"
  have P: "(\<lambda>x. x = q \<longrightarrow> \<not> intersect start ed (bc_info c x)) = (\<lambda>x. x \<noteq> q)" using True by auto
  have rm: "remove1 q xs = filter (\<lambda>x. x \<noteq> q) xs" if "distinct xs" for xs
    using that by (simp add: distinct_remove1_removeAll removeAll_filter_not_eq) (metis (no_types))
  have "filter (\<lambda>x. x \<noteq> q) (C k) = C k" if "k \<noteq> ?k" for k
    using that D(3)[of q k] by (auto intro: filter_True)
  then have "C(?k := remove1 q (C ?k)) = (\<lambda>k. filter (\<lambda>x. x \<noteq> q) (C k))"
    using rm[OF D(7)] by (auto simp: fun_eq_iff)
  then have "bc_inv ?c (\<lambda>k. filter (\<lambda>x. x \<noteq> q) (C k)) (filter (\<lambda>x. x \<noteq> q) A)"
    using bc_inv_remove[OF inv q] rm[OF D(6)] by simp
  moreover have "in_use (bc_allocator ?c) = in_use (bc_allocator c) - {x \<in> set A. \<not> x \<noteq> q}"
    using release_ok[OF D(4), of q] D(5) q
    by (auto simp: delete_blockinfo_def remove_from_list_def remove_from_cl_list_def)
  moreover have "bc_info ?c = bc_info c"
    by (simp add: delete_blockinfo_def remove_from_list_def remove_from_cl_list_def)
  ultimately show ?thesis using True unfolding P by (simp add: restricts_def flush_block_def)
qed (use restricts_True[OF inv] in \<open>auto simp: flush_block_def\<close>)

lemma flush_line_restricts:
  assumes "bc_inv c C A" "C h = kept @ rest" "p = (case rest of [] \<Rightarrow> None | x # _ \<Rightarrow> Some x)"
  shows "\<exists>c'. flush_line start ed p c = Some c' \<and>
    restricts (\<lambda>x. x \<in> set rest \<longrightarrow> \<not> intersect start ed (bc_info c x)) c C A c'"
  using assms
proof (induction rest arbitrary: c C A kept p)
  case Nil
  then show ?case using restricts_True[OF Nil(1)] by (auto simp: flush_line.simps)
next
  case (Cons q rest)
  note D = bc_invD[OF Cons.prems(1)]
  let ?P = "\<lambda>x. x = q \<longrightarrow> \<not> intersect start ed (bc_info c x)"
  let ?c = "flush_block start ed q c"
  have q: "q \<in> set A" using D(3)[of q h] Cons.prems(2) by simp
  note R = flush_block_restricts[OF Cons.prems(1) q, of start ed]
  have inv1: "bc_inv ?c (\<lambda>k. filter ?P (C k)) (filter ?P A)" and i: "bc_info ?c = bc_info c"
    using R by (simp_all add: restricts_def)
  have "q \<notin> set rest" using D(7)[of h] Cons.prems(2) by simp
  then have "filter ?P rest = rest" by (auto intro!: filter_True)
  then have "filter ?P ((kept @ [q]) @ rest) = filter ?P (kept @ [q]) @ rest" by (simp only: filter_append)
  then have h: "filter ?P (C h) = filter ?P (kept @ [q]) @ rest"
    using Cons.prems(2) by (simp only: append.assoc append.simps)
  have "linked (cl_lists c) (Head h) (dl_head (cl_lists c) h) (kept @ q # rest)"
    using D(1) Cons.prems(2) by (metis dl_rep_def)
  from linked_value[OF linked_next[OF this]]
  have n: "dl_next (cl_lists c) q = (case rest of [] \<Rightarrow> None | x # _ \<Rightarrow> Some x)" .
  obtain c' where c': "flush_line start ed (dl_next (cl_lists c) q) ?c = Some c'"
    "restricts (\<lambda>x. x \<in> set rest \<longrightarrow> \<not> intersect start ed (bc_info c x)) ?c (\<lambda>k. filter ?P (C k)) (filter ?P A) c'"
    using Cons.IH[OF inv1 h n] by (auto simp: i)
  have "restricts (\<lambda>x. x \<in> set (q # rest) \<longrightarrow> \<not> intersect start ed (bc_info c x)) c C A c'"
    by (rule restricts_trans[OF Cons.prems(1) R c'(2)]) auto
  then show ?case using c'(1) Cons.prems(3) by (auto simp: flush_line.simps)
qed

lemma flush_lines_restricts:
  assumes "bc_inv c C A"
  shows "\<exists>c'. flush_lines start ed cls c = Some c' \<and>
    restricts (\<lambda>x. cacheline (bi_pc (bc_info c x)) \<in> set cls \<longrightarrow> \<not> intersect start ed (bc_info c x)) c C A c'"
  using assms
proof (induction cls arbitrary: c C A)
  case Nil
  then show ?case using restricts_True[OF Nil] by auto
next
  case (Cons cl cls)
  let ?P = "\<lambda>x. x \<in> set (C cl) \<longrightarrow> \<not> intersect start ed (bc_info c x)"
  note D = bc_invD[OF Cons.prems]
  obtain c1 where c1: "flush_line start ed (dl_head (cl_lists c) cl) c = Some c1" "restricts ?P c C A c1"
    using flush_line_restricts[OF Cons.prems _ dl_rep_head[OF D(1), of cl], where kept = "[]" and start = start and ed = ed]
    by (simp only: append.simps) blast
  have inv1: "bc_inv c1 (\<lambda>k. filter ?P (C k)) (filter ?P A)" and i: "bc_info c1 = bc_info c"
    using c1(2) by (simp_all add: restricts_def)
  obtain c2 where c2: "flush_lines start ed cls c1 = Some c2"
    "restricts (\<lambda>x. cacheline (bi_pc (bc_info c x)) \<in> set cls \<longrightarrow> \<not> intersect start ed (bc_info c x)) c1
       (\<lambda>k. filter ?P (C k)) (filter ?P A) c2"
    using Cons.IH[OF inv1] by (auto simp: i)
  have "restricts (\<lambda>x. cacheline (bi_pc (bc_info c x)) \<in> set (cl # cls) \<longrightarrow> \<not> intersect start ed (bc_info c x)) c C A c2"
    by (rule restricts_trans[OF Cons.prems c1(2) c2(2)]) (use D(3)[of _ cl] in auto)
  then show ?case using c1(1) c2(1) by simp
qed

lemma flush_active_restricts:
  assumes "bc_inv c C A" "A = kept @ rest" "p = (case rest of [] \<Rightarrow> None | x # _ \<Rightarrow> Some x)"
  shows "\<exists>c'. flush_active start ed p c = Some c' \<and>
    restricts (\<lambda>x. x \<in> set rest \<longrightarrow> \<not> intersect start ed (bc_info c x)) c C A c'"
  using assms
proof (induction rest arbitrary: c C A kept p)
  case Nil
  then show ?case using restricts_True[OF Nil(1)] by (auto simp: flush_active.simps)
next
  case (Cons q rest)
  note D = bc_invD[OF Cons.prems(1)]
  let ?P = "\<lambda>x. x = q \<longrightarrow> \<not> intersect start ed (bc_info c x)"
  let ?c = "flush_block start ed q c"
  have q: "q \<in> set A" using Cons.prems(2) by simp
  note R = flush_block_restricts[OF Cons.prems(1) q, of start ed]
  have inv1: "bc_inv ?c (\<lambda>k. filter ?P (C k)) (filter ?P A)" and i: "bc_info ?c = bc_info c"
    using R by (simp_all add: restricts_def)
  have "q \<notin> set rest" using D(6) Cons.prems(2) by simp
  then have "filter ?P rest = rest" by (auto intro!: filter_True)
  then have "filter ?P ((kept @ [q]) @ rest) = filter ?P (kept @ [q]) @ rest" by (simp only: filter_append)
  then have h: "filter ?P A = filter ?P (kept @ [q]) @ rest"
    using Cons.prems(2) by (simp only: append.assoc append.simps)
  have "linked (bc_lists c) (Head l) (dl_head (bc_lists c) l) (if l = Active then A else [])" for l
    using D(2) by (simp add: dl_rep_def)
  from this[of Active] have "linked (bc_lists c) (Head Active) (dl_head (bc_lists c) Active) (kept @ q # rest)"
    using Cons.prems(2) by simp
  from linked_value[OF linked_next[OF this]]
  have n: "dl_next (bc_lists c) q = (case rest of [] \<Rightarrow> None | x # _ \<Rightarrow> Some x)" .
  obtain c' where c': "flush_active start ed (dl_next (bc_lists c) q) ?c = Some c'"
    "restricts (\<lambda>x. x \<in> set rest \<longrightarrow> \<not> intersect start ed (bc_info c x)) ?c (\<lambda>k. filter ?P (C k)) (filter ?P A) c'"
    using Cons.IH[OF inv1 h n] by (auto simp: i)
  have "restricts (\<lambda>x. x \<in> set (q # rest) \<longrightarrow> \<not> intersect start ed (bc_info c x)) c C A c'"
    by (rule restricts_trans[OF Cons.prems(1) R c'(2)]) auto
  then show ?case using c'(1) Cons.prems(3) by (auto simp: flush_active.simps)
qed

text \<open>Whether a flush looks at the blocks that start at an address.\<close>

definition scanned :: "u64 \<Rightarrow> u64 \<Rightarrow> u64 \<Rightarrow> bool" where
  "scanned start ed a \<longleftrightarrow>
     (cacheline start < cacheline (ed - 1) \<longrightarrow> cacheline start \<le> cacheline a \<and> cacheline a \<le> cacheline (ed - 1))"

lemma clear_range_restricts:
  assumes inv: "bc_inv c C A"
  obtains c' where "clear_range start ed c = Some c'"
    "restricts (\<lambda>x. scanned start ed (bi_pc (bc_info c x)) \<longrightarrow> \<not> intersect start ed (bc_info c x)) c C A c'"
proof -
  note D = bc_invD[OF inv]
  have head: "dl_head (bc_lists c) Active = (case A of [] \<Rightarrow> None | x # _ \<Rightarrow> Some x)"
    using dl_rep_head[OF D(2), of Active] by simp
  consider "A = []" | "A \<noteq> []" "cacheline start < cacheline (ed - 1)" | "A \<noteq> []" "\<not> cacheline start < cacheline (ed - 1)"
    by blast
  then show thesis
  proof cases
    case 1
    then show thesis using that[of c] restricts_True[OF inv] head by (simp add: clear_range_def)
  next
    case 2
    have "(\<lambda>x. cacheline (bi_pc (bc_info c x)) \<in> set [cacheline start..<cacheline (ed - 1) + 1] \<longrightarrow> \<not> intersect start ed (bc_info c x)) =
        (\<lambda>x. scanned start ed (bi_pc (bc_info c x)) \<longrightarrow> \<not> intersect start ed (bc_info c x))"
      using 2(2) by (auto simp: scanned_def fun_eq_iff)
    with flush_lines_restricts[OF inv, of start ed "[cacheline start..<cacheline (ed - 1) + 1]"]
    show thesis using 2 head that by (auto simp: clear_range_def split: list.splits)
  next
    case 3
    obtain c' where c': "flush_active start ed (dl_head (bc_lists c) Active) c = Some c'"
      "restricts (\<lambda>x. x \<in> set A \<longrightarrow> \<not> intersect start ed (bc_info c x)) c C A c'"
      using flush_active_restricts[OF inv _ head, where kept = "[]" and start = start and ed = ed]
      by (simp only: append.simps) blast
    have "restricts (\<lambda>x. scanned start ed (bi_pc (bc_info c x)) \<longrightarrow> \<not> intersect start ed (bc_info c x)) c C A c'"
      using restricts_trans[OF inv restricts_True[OF inv, of "\<lambda>_. True"],
          of "\<lambda>x. x \<in> set A \<longrightarrow> \<not> intersect start ed (bc_info c x)" c'] 3 c'(2)
      by (simp add: scanned_def)
    then show thesis using that 3 c'(1) head by (auto simp: clear_range_def split: list.splits)
  qed
qed

section \<open>The contract of the cache\<close>

text \<open>
  What the execution loop relies on. A store holds entries; some of the held ones are its
  blocks. A lookup ends and finds a block with the given start address or tells that there is
  none, and changes no block; allocation gives an entry that is not held; a held entry that is
  no block may be written and entered; a flush forgets and releases all blocks.
\<close>

locale block_store =
  fixes valid :: "'c \<Rightarrow> bool"
    and blocks :: "'c \<Rightarrow> 'e set"
    and held :: "'c \<Rightarrow> 'e set"
    and info :: "'c \<Rightarrow> 'e \<Rightarrow> 'i"
    and start :: "'i \<Rightarrow> 'a"
    and lookup :: "'a \<Rightarrow> 'c \<Rightarrow> ('e option \<times> 'c) option"
    and alloc :: "'c \<Rightarrow> 'e \<times> 'c"
    and put :: "'e \<Rightarrow> 'i \<Rightarrow> 'c \<Rightarrow> 'c"
    and enter :: "'e \<Rightarrow> 'c \<Rightarrow> 'c"
    and flush_all :: "'c \<Rightarrow> 'c option"
  assumes blocks_held: "valid c \<Longrightarrow> blocks c \<subseteq> held c"
    and lookup: "valid c \<Longrightarrow> \<exists>r c'. lookup a c = Some (r, c') \<and> valid c' \<and> blocks c' = blocks c \<and>
      held c' = held c \<and> info c' = info c \<and>
      (case r of Some e \<Rightarrow> e \<in> blocks c \<and> start (info c e) = a | None \<Rightarrow> \<forall>e\<in>blocks c. start (info c e) \<noteq> a)"
    and alloc: "valid c \<Longrightarrow> alloc c = (e, c') \<Longrightarrow>
      valid c' \<and> blocks c' = blocks c \<and> e \<notin> held c \<and> held c' = insert e (held c) \<and> info c' = info c"
    and put: "valid c \<Longrightarrow> e \<in> held c \<Longrightarrow> e \<notin> blocks c \<Longrightarrow>
      valid (put e i c) \<and> blocks (put e i c) = blocks c \<and> held (put e i c) = held c \<and>
      info (put e i c) = (info c)(e := i)"
    and enter: "valid c \<Longrightarrow> e \<in> held c \<Longrightarrow> e \<notin> blocks c \<Longrightarrow>
      valid (enter e c) \<and> blocks (enter e c) = insert e (blocks c) \<and> held (enter e c) = held c \<and>
      info (enter e c) = info c"
    and flush_all: "valid c \<Longrightarrow> \<exists>c'. flush_all c = Some c' \<and> valid c' \<and> blocks c' = {} \<and>
      held c' = held c - blocks c \<and> info c' = info c"
begin

lemma lookup_cases:
  assumes "valid c" "lookup a c = Some (r, c')"
  shows "valid c'" "blocks c' = blocks c" "held c' = held c" "info c' = info c"
    "case r of Some e \<Rightarrow> e \<in> blocks c \<and> start (info c e) = a | None \<Rightarrow> \<forall>e\<in>blocks c. start (info c e) \<noteq> a"
  using lookup[OF assms(1), of a] assms(2) by auto

text \<open>A block entered after a failed lookup is the one that the next lookup finds.\<close>

lemma find_or_add:
  assumes v: "valid c" and inj: "inj_on (\<lambda>e. start (info c e)) (blocks c)"
    and miss: "lookup (start i) c = Some (None, c1)" and new: "alloc c1 = (e, c2)"
  defines "c3 \<equiv> enter e (put e i c2)"
  shows "valid c3 \<and> blocks c3 = insert e (blocks c) \<and> e \<notin> blocks c \<and>
    info c3 e = i \<and> (\<forall>b\<in>blocks c. info c3 b = info c b) \<and>
    inj_on (\<lambda>e. start (info c3 e)) (blocks c3) \<and>
    (\<exists>c4. lookup (start i) c3 = Some (Some e, c4))"
proof -
  note l = lookup_cases[OF v miss]
  note a = alloc[OF l(1) new]
  have e: "e \<notin> blocks c2" "e \<in> held c2" "e \<notin> blocks c" using a l blocks_held[OF l(1)] by auto
  have p: "valid (put e i c2) \<and> blocks (put e i c2) = blocks c2 \<and> held (put e i c2) = held c2 \<and>
      info (put e i c2) = (info c2)(e := i)"
    using put[of c2 e i] a e by blast
  have n: "valid c3 \<and> blocks c3 = insert e (blocks c2) \<and> info c3 = (info c2)(e := i)"
    using enter[of "put e i c2" e] p e by (simp add: c3_def)
  have i3: "info c3 b = (if b = e then i else info c b)" for b using n a l by simp
  have b3: "blocks c3 = insert e (blocks c)" using n a l by simp
  have starts: "start (info c b) \<noteq> start i" if "b \<in> blocks c" for b using l(5) that by simp
  then have inj3: "inj_on (\<lambda>b. start (info c3 b)) (blocks c3)"
    unfolding inj_on_def b3 i3 using inj e(3)
    by (simp add: inj_on_def) (metis (full_types))
  obtain r c4 where r: "lookup (start i) c3 = Some (r, c4)"
    "case r of Some x \<Rightarrow> x \<in> blocks c3 \<and> start (info c3 x) = start i | None \<Rightarrow> \<forall>x\<in>blocks c3. start (info c3 x) \<noteq> start i"
    using lookup[of c3 "start i"] n by blast
  have "r = Some e" using r(2) starts by (cases r) (auto simp: b3 i3 split: if_splits)
  then show ?thesis using n b3 i3 inj3 e(3) r(1) by auto
qed

end

text \<open>The cache of the emulator is such a store.\<close>

definition cache_ok :: "block_cache \<Rightarrow> bool" where
  "cache_ok c \<longleftrightarrow> (\<exists>C A. bc_inv c C A)"

definition cached :: "block_cache \<Rightarrow> nat set" where
  "cached c = {e. \<exists>C A. bc_inv c C A \<and> e \<in> set A}"

lemma linked_det: "linked d l p xs \<Longrightarrow> linked d l p ys \<Longrightarrow> xs = ys"
proof (induction xs arbitrary: l p ys)
  case Nil
  then show ?case by (cases ys) auto
next
  case (Cons x xs)
  then show ?case by (cases ys) auto
qed

lemma cached_eq:
  assumes "bc_inv c C A"
  shows "cached c = set A"
proof -
  have lk: "linked (bc_lists c) (Head l) (dl_head (bc_lists c) l) (if l = Active then B else [])"
    if "bc_inv c D B" for D B l
    using bc_invD(2)[OF that] by (simp add: dl_rep_def)
  have unique: "set B = set A" if "bc_inv c D B" for D B
    using linked_det[OF lk[OF that, of Active] lk[OF assms, of Active]] by simp
  show ?thesis
  proof (rule set_eqI, unfold cached_def mem_Collect_eq, rule iffI)
    fix e
    show "e \<in> set A" if "\<exists>C A. bc_inv c C A \<and> e \<in> set A" using that unique by blast
    show "\<exists>C A. bc_inv c C A \<and> e \<in> set A" if "e \<in> set A" using that assms by blast
  qed
qed

abbreviation held_entries :: "block_cache \<Rightarrow> nat set" where
  "held_entries c \<equiv> in_use (bc_allocator c)"

lemma cached_restricts:
  assumes "bc_inv c C A" "restricts P c C A c'"
  shows "cache_ok c'" "cached c' = {e \<in> cached c. P e}" "bc_info c' = bc_info c"
    "held_entries c' = held_entries c - {e \<in> cached c. \<not> P e}"
proof -
  have inv: "bc_inv c' (\<lambda>k. filter P (C k)) (filter P A)"
    and r: "bc_info c' = bc_info c" "held_entries c' = held_entries c - {x \<in> set A. \<not> P x}"
    using assms(2) by (simp_all only: restricts_def)
  show "cache_ok c'" using inv unfolding cache_ok_def by blast
  show "cached c' = {e \<in> cached c. P e}" unfolding cached_eq[OF inv] cached_eq[OF assms(1)] by simp
  show "held_entries c' = held_entries c - {e \<in> cached c. \<not> P e}"
    unfolding cached_eq[OF assms(1)] by (rule r(2))
qed (use assms(2) in \<open>simp add: restricts_def\<close>)

lemma bc_inv_new: "bc_inv (new_block_cache memory) (\<lambda>_. []) []"
  by (auto simp: bc_inv_def new_block_cache_def bc_initialize_def fold_clear_heads alloc_ok_def
      intro!: dl_rep_empty)

lemma bc_inv_put:
  assumes "bc_inv c C A" "e \<notin> set A"
  shows "bc_inv (set_blockinfo e bi c) C A"
  using assms by (auto simp: bc_inv_def set_blockinfo_def)

interpretation my_block_cache: block_store cache_ok cached held_entries bc_info bi_pc
  bc_find new_blockinfo set_blockinfo enter_block bc_invalidate
proof
  fix c assume "cache_ok c"
  then obtain C A where inv: "bc_inv c C A" by (auto simp: cache_ok_def)
  note D = bc_invD[OF inv] and A = cached_eq[OF inv]
  show "cached c \<subseteq> held_entries c" using D(5) A by simp
  show "\<exists>r c'. bc_find a c = Some (r, c') \<and> cache_ok c' \<and> cached c' = cached c \<and> held_entries c' = held_entries c \<and>
      bc_info c' = bc_info c \<and>
      (case r of Some e \<Rightarrow> e \<in> cached c \<and> bi_pc (bc_info c e) = a | None \<Rightarrow> \<forall>e\<in>cached c. bi_pc (bc_info c e) \<noteq> a)" for a
  proof -
    obtain r c' C' where "bc_find a c = Some (r, c')" "bc_inv c' C' A" "bc_info c' = bc_info c"
      "bc_allocator c' = bc_allocator c"
      "case r of Some e \<Rightarrow> e \<in> set A \<and> bi_pc (bc_info c e) = a | None \<Rightarrow> \<forall>e\<in>set A. bi_pc (bc_info c e) \<noteq> a"
      using bc_find_ok[OF inv, of a] by blast
    then show ?thesis using cached_eq[of c' C' A] A by (cases r) (auto simp: cache_ok_def)
  qed
  show "cache_ok c' \<and> cached c' = cached c \<and> e \<notin> held_entries c \<and> held_entries c' = insert e (held_entries c) \<and>
      bc_info c' = bc_info c" if n: "new_blockinfo c = (e, c')" for e c'
  proof -
    obtain al where al: "acquire (bc_allocator c) = (e, al)" "c' = c\<lparr>bc_allocator := al\<rparr>"
      using n by (auto simp: new_blockinfo_def split: prod.splits)
    note ok = acquire_ok[OF D(4) al(1)]
    have "bc_inv c' C A" using inv ok al(2) by (auto simp: bc_inv_def)
    then show ?thesis using cached_eq[of c' C A] A ok al(2) by (auto simp: cache_ok_def)
  qed
  fix e assume e: "e \<in> held_entries c" "e \<notin> cached c"
  show "cache_ok (set_blockinfo e bi c) \<and> cached (set_blockinfo e bi c) = cached c \<and>
      held_entries (set_blockinfo e bi c) = held_entries c \<and> bc_info (set_blockinfo e bi c) = (bc_info c)(e := bi)" for bi
  proof -
    have "bc_inv (set_blockinfo e bi c) C A" using bc_inv_put[OF inv] e A by simp
    then show ?thesis using cached_eq[of "set_blockinfo e bi c" C A] A by (auto simp: cache_ok_def set_blockinfo_def)
  qed
  show "cache_ok (enter_block e c) \<and> cached (enter_block e c) = insert e (cached c) \<and>
      held_entries (enter_block e c) = held_entries c \<and> bc_info (enter_block e c) = bc_info c"
  proof -
    note n = bc_inv_add[OF inv e(1), unfolded enter_block_def[symmetric]]
    show ?thesis using n e(2) A cached_eq[OF n]
      by (auto simp: cache_ok_def enter_block_def add_to_active_list_def add_to_cl_list_def)
  qed
next
  fix c assume "cache_ok c"
  then obtain C A where inv: "bc_inv c C A" by (auto simp: cache_ok_def)
  obtain c' where c': "bc_clear c = Some c'" using bc_clear_eq[OF inv] by simp
  note n = bc_inv_cleared[OF inv c']
  show "\<exists>c'. bc_invalidate c = Some c' \<and> cache_ok c' \<and> cached c' = {} \<and> held_entries c' = held_entries c - cached c \<and>
      bc_info c' = bc_info c"
    using n cached_eq[OF inv] cached_eq[OF n(1)] c' by (auto simp: bc_invalidate_def cache_ok_def)
qed

section \<open>Correctness of the cache\<close>

text \<open>A cache with one block of 65 words at address \<^verbatim>\<open>0x1000\<close>.\<close>

definition example_block :: block_info where
  "example_block = \<lparr>bi_pc = 0x1000, bi_end_pc = 0x1100, bi_size = 65,
     bi_min_pc = 0x1100, bi_max_pc = 0x1000, bi_di = None\<rparr>"

definition example_cache :: block_cache where
  "example_cache =
     (let (e, c) = new_blockinfo (new_block_cache (\<lambda>_. example_block))
      in enter_block e (set_blockinfo e example_block c))"

lemma new_cache_ok: "cache_ok (new_block_cache memory)" "cached (new_block_cache memory) = {}"
  using bc_inv_new cached_eq[OF bc_inv_new] by (auto simp: cache_ok_def)

lemma new_blockinfo_new: "fst (new_blockinfo (new_block_cache memory)) = 25"
  by (simp add: new_blockinfo_def new_block_cache_def bc_initialize_def acquire_def new_pool_def fold_Cons_eq
      pool_count_def hd_rev)

lemma find_new: "bc_find a (new_block_cache memory) = Some (None, new_block_cache memory)"
  using bc_find_eq[OF bc_inv_new] by simp

lemma example_cache_ok: "cache_ok example_cache" "cached example_cache = {25}" "bc_info example_cache 25 = example_block"
proof -
  define n where "n = new_blockinfo (new_block_cache (\<lambda>_. example_block))"
  have n: "n = (25, snd n)" using new_blockinfo_new[of "\<lambda>_. example_block"] by (simp add: n_def prod_eq_iff)
  have ex: "example_cache = enter_block 25 (set_blockinfo 25 example_block (snd n))"
    using n by (simp add: example_cache_def n_def[symmetric] split: prod.splits) (metis prod.inject)
  note f = my_block_cache.find_or_add[OF new_cache_ok(1) _ find_new n[unfolded n_def]]
  show "cache_ok example_cache" "cached example_cache = {25}" "bc_info example_cache 25 = example_block"
    using f[of example_block] new_cache_ok(2) ex by (simp_all add: n_def)
qed

text \<open>
  A lookup in the block cache ends, whatever chain it follows, and returns a block with the
  given start address if the cache has one and none otherwise. Moving the found block to the
  front of its line changes neither the blocks nor what they describe.
\<close>

theorem cache_find_correct:
  assumes "cache_ok c"
  shows "\<exists>r c'. bc_find a c = Some (r, c') \<and> cache_ok c' \<and> cached c' = cached c \<and> bc_info c' = bc_info c \<and>
    (case r of Some e \<Rightarrow> e \<in> cached c \<and> bi_pc (bc_info c e) = a | None \<Rightarrow> \<forall>e\<in>cached c. bi_pc (bc_info c e) \<noteq> a)"
  using my_block_cache.lookup[OF assms, of a] by blast

theorem cache_find_correct_witness:
  "\<exists>r c'. bc_find 0x1000 example_cache = Some (r, c') \<and> r = Some 25"
  using cache_find_correct[OF example_cache_ok(1), of "0x1000"] example_cache_ok
  by (auto simp: example_block_def split: option.splits)

text \<open>
  C16: A block that is allocated, filled in and linked after a failed lookup is the block that the
  next lookup of its address returns; the other blocks stay as they are, and no two blocks of
  the cache start at the same address.
\<close>

theorem cache_insert_find:
  assumes "cache_ok c" and "inj_on (\<lambda>e. bi_pc (bc_info c e)) (cached c)"
    and "bc_find (bi_pc bi) c = Some (None, c1)" and "new_blockinfo c1 = (e, c2)"
  defines "c3 \<equiv> enter_block e (set_blockinfo e bi c2)"
  shows "cache_ok c3 \<and> cached c3 = insert e (cached c) \<and> e \<notin> cached c \<and>
    bc_info c3 e = bi \<and> (\<forall>b\<in>cached c. bc_info c3 b = bc_info c b) \<and>
    inj_on (\<lambda>e. bi_pc (bc_info c3 e)) (cached c3) \<and>
    (\<exists>c4. bc_find (bi_pc bi) c3 = Some (Some e, c4))"
  unfolding c3_def by (rule my_block_cache.find_or_add[OF assms(1-4)])

theorem cache_insert_find_witness:
  "let c = new_block_cache (\<lambda>_. example_block); (e, c2) = new_blockinfo c;
       c3 = enter_block e (set_blockinfo e example_block c2)
   in cached c3 = {e} \<and> (\<exists>c4. bc_find 0x1000 c3 = Some (Some e, c4))"
proof -
  obtain e c2 where n: "new_blockinfo (new_block_cache (\<lambda>_. example_block)) = (e, c2)" by force
  show ?thesis
    using cache_insert_find[OF new_cache_ok(1) _ find_new n, of example_block] new_cache_ok(2)
    by (simp add: n) (simp add: example_block_def)
qed

text \<open>
  C17: A flush of a range ends and takes out of the cache exactly the blocks that it looks at and
  whose first or last address is in the range; their entries are released and the other
  blocks stay. For a range within a run of increasing cache lines it looks at the blocks that
  start on these lines, otherwise at all blocks.
\<close>

theorem clear_range_correct:
  fixes start ed :: u64
  assumes "cache_ok c"
  defines "flushed \<equiv> {e \<in> cached c. scanned start ed (bi_pc (bc_info c e)) \<and> intersect start ed (bc_info c e)}"
  shows "\<exists>c'. clear_range start ed c = Some c' \<and> cache_ok c' \<and> cached c' = cached c - flushed \<and>
    held_entries c' = held_entries c - flushed \<and> bc_info c' = bc_info c"
proof -
  obtain C A where inv: "bc_inv c C A" using assms by (auto simp: cache_ok_def)
  obtain c' where c': "clear_range start ed c = Some c'"
    "restricts (\<lambda>x. scanned start ed (bi_pc (bc_info c x)) \<longrightarrow> \<not> intersect start ed (bc_info c x)) c C A c'"
    by (rule clear_range_restricts[OF inv])
  show ?thesis using c'(1) cached_restricts[OF inv c'(2)] by (auto simp: flushed_def)
qed

theorem clear_range_correct_witness:
  "\<exists>c'. clear_range 0x1000 0x1020 example_cache = Some c' \<and> cached c' = {}"
proof -
  have "scanned 0x1000 0x1020 0x1000" by (simp add: scanned_def cacheline_def HASH_MASK_def)
  then show ?thesis
    using clear_range_correct[OF example_cache_ok(1), of "0x1000" "0x1020"] example_cache_ok(2,3)
    by (auto simp: example_block_def intersect_def)
qed

text \<open>
  A flush of a range that lies strictly inside a block, as the execution loop records the
  block (the address of the last word as \<^verbatim>\<open>min_pc\<close> and the entry as \<^verbatim>\<open>max_pc\<close>), keeps
  the block, so that stale instructions stay in the cache.
\<close>

theorem clear_range_keeps_covering_block:
  assumes "cache_ok c" "e \<in> cached c"
    and "bi_max_pc (bc_info c e) < start" "start < ed" "ed \<le> bi_min_pc (bc_info c e)"
  shows "\<exists>c'. clear_range start ed c = Some c' \<and> e \<in> cached c'"
proof -
  have "\<not> intersect start ed (bc_info c e)" using assms(3-5) by (auto simp: intersect_def)
  moreover obtain C A where inv: "bc_inv c C A" using assms by (auto simp: cache_ok_def)
  moreover obtain c' where c': "clear_range start ed c = Some c'"
    "restricts (\<lambda>x. scanned start ed (bi_pc (bc_info c x)) \<longrightarrow> \<not> intersect start ed (bc_info c x)) c C A c'"
    by (rule clear_range_restricts[OF inv])
  ultimately show ?thesis using cached_restricts(2)[OF inv c'(2)] assms(2) by auto
qed

theorem clear_range_keeps_covering_block_witness:
  "\<exists>c'. clear_range 0x1040 0x1060 example_cache = Some c' \<and> 25 \<in> cached c'"
  using clear_range_keeps_covering_block[OF example_cache_ok(1), of 25 "0x1040" "0x1060"] example_cache_ok
  by (simp add: example_block_def)

text \<open>
  Invalidating the whole cache ends, releases the entries of all blocks, and leaves a cache
  in which every lookup fails.
\<close>

theorem invalidate_empties_cache:
  assumes "cache_ok c"
  shows "\<exists>c'. bc_invalidate c = Some c' \<and> cache_ok c' \<and> cached c' = {} \<and>
    held_entries c' = held_entries c - cached c \<and> (\<forall>a. \<exists>c''. bc_find a c' = Some (None, c''))"
proof -
  obtain c' where c': "bc_invalidate c = Some c'" "cache_ok c'" "cached c' = {}"
    "held_entries c' = held_entries c - cached c"
    using my_block_cache.flush_all[OF assms] by blast
  have "\<exists>c''. bc_find a c' = Some (None, c'')" for a
    using my_block_cache.lookup[OF c'(2), of a] c'(3) by (auto split: option.splits)
  with c' show ?thesis by blast
qed

theorem invalidate_empties_cache_witness:
  "\<exists>c' c''. bc_invalidate example_cache = Some c' \<and> cached example_cache = {25} \<and> bc_find 0x1000 c' = Some (None, c'')"
  using invalidate_empties_cache[OF example_cache_ok(1)] example_cache_ok(2) by blast

end
