(* ===== verification/PPC_Engine.thy ===== *)
theory PPC_Engine
  imports PPC_Interpreter PPC_Block_Cache
begin

unbundle bit_operations_syntax

text \<open>
  The outermost call of \<^verbatim>\<open>powerpc_cpu::execute\<close>, which runs predecoded blocks. A block of
  instructions up to the next branch or trap is decoded into the array \<^verbatim>\<open>decode_cache\<close>, one
  pointer to a handler with its instruction word per entry, and entered into the block cache
  of \<^verbatim>\<open>PPC_Block_Cache\<close>; its entries are called by an unrolled loop, and the special flags are
  looked at after each block instead of after each instruction. The theorems show that
  predecoding fills in the handlers of the words in memory, that the unrolled loop calls the
  entries once and in order, and that a run of a block does what the interpreter loop of
  \<^verbatim>\<open>PPC_Interpreter\<close> does on its instructions.
\<close>

section \<open>State\<close>

datatype (plugins only:) execute_fn = Run execute_pmf | Record_step

record decode_info =
  di_execute :: execute_fn
  di_opcode :: u32

definition DECODE_CACHE_MAX_ENTRIES :: nat where "DECODE_CACHE_MAX_ENTRIES = 32768"

record engine =
  cpu :: machine
  block_index :: block_cache
  decode_cache :: "nat \<Rightarrow> decode_info"
  decode_cache_p :: nat
  execute_depth :: nat

text \<open>
  A run of the engine aborts in a handler, writes beyond the array, or does not return
  (\<open>None\<close>). \<^verbatim>\<open>FLIGHT_RECORDER\<close> in \<^verbatim>\<open>init_decode_cache\<close> is not the name of the option
  (\<^verbatim>\<open>PPC_FLIGHT_RECORDER\<close>), so \<^verbatim>\<open>decode_cache_end_p\<close> is the end of the array.
\<close>

datatype engine_error = Handler_abort abort_reason | Decode_cache_overrun

definition decode_cache_end_p :: nat where
  "decode_cache_end_p = DECODE_CACHE_MAX_ENTRIES"

definition init_decode_cache :: "engine \<Rightarrow> engine" where
  "init_decode_cache en = en\<lparr>decode_cache_p := 0\<rparr>"

definition write_decode_info :: "nat \<Rightarrow> decode_info \<Rightarrow> engine \<Rightarrow> engine_error + engine" where
  "write_decode_info i x en =
     (if i < DECODE_CACHE_MAX_ENTRIES then Inr (en\<lparr>decode_cache := (decode_cache en)(i := x)\<rparr>)
      else Inl Decode_cache_overrun)"

definition invalidate_cache :: "engine \<Rightarrow> engine option" where
  "invalidate_cache en =
     (case bc_invalidate (block_index en) of
        None \<Rightarrow> None
      | Some c \<Rightarrow> Some (en\<lparr>block_index := c, cpu := set_spcflag SPCFLAG_JIT_EXEC_RETURN (cpu en), decode_cache_p := 0\<rparr>))"

section \<open>Calling the entries of a block\<close>

text \<open>
  The handlers of the cache instructions call \<^verbatim>\<open>clear_range\<close>. The register file keeps the list
  of these calls; those beyond the first \<open>n\<close> are carried out on the block cache here.
\<close>

fun clear_ranges :: "(u64 \<times> u64) list \<Rightarrow> block_cache \<Rightarrow> block_cache option" where
  "clear_ranges [] c = Some c"
| "clear_ranges ((start, ed) # rs) c = Option.bind (clear_range start ed c) (clear_ranges rs)"

definition sync_blocks :: "nat \<Rightarrow> engine \<Rightarrow> engine option" where
  "sync_blocks n en =
     (case clear_ranges (drop n (clear_range_calls (core (cpu en)))) (block_index en) of
        None \<Rightarrow> None | Some c \<Rightarrow> Some (en\<lparr>block_index := c\<rparr>))"

abbreviation calls_made :: "engine \<Rightarrow> nat" where
  "calls_made en \<equiv> length (clear_range_calls (core (cpu en)))"

definition call_execute_fn :: "'h cpu_host_scheme \<Rightarrow> decode_info \<Rightarrow> engine \<Rightarrow> (engine_error + engine) option" where
  "call_execute_fn H di en =
     (case di_execute di of
        Record_step \<Rightarrow>
          Some (Inr (en\<lparr>cpu := (cpu en)\<lparr>recorder := record_step (di_opcode di) (core (cpu en)) (recorder (cpu en))\<rparr>\<rparr>))
      | Run f \<Rightarrow>
          (case call_pmf H f (di_opcode di) (core (cpu en)) of
             Inl e \<Rightarrow> Some (Inl (Handler_abort e))
           | Inr s \<Rightarrow> map_option Inr (sync_blocks (calls_made en) (en\<lparr>cpu := (cpu en)\<lparr>core := s\<rparr>\<rparr>))))"

primrec call_entries :: "'h cpu_host_scheme \<Rightarrow> decode_info list \<Rightarrow> engine \<Rightarrow> (engine_error + engine) option" where
  "call_entries H [] en = Some (Inr en)"
| "call_entries H (x # xs) en =
     (case call_execute_fn H x en of
        None \<Rightarrow> None | Some (Inl e) \<Rightarrow> Some (Inl e) | Some (Inr en) \<Rightarrow> call_entries H xs en)"

text \<open>
  The unrolled loop: the switch enters the body of the loop at the case of the remainder and
  falls through, and the body is repeated while the decremented count is positive. The
  calls of one pass are those at the offsets \<open>-k\<close> to \<open>-1\<close> of \<^verbatim>\<open>di\<close>.
\<close>

definition call_offsets :: "'h cpu_host_scheme \<Rightarrow> nat \<Rightarrow> nat \<Rightarrow> engine \<Rightarrow> (engine_error + engine) option" where
  "call_offsets H k di en = call_entries H (map (\<lambda>j. decode_cache en (di - j)) (rev [1..<k + 1])) en"

primrec unrolled_loop :: "'h cpu_host_scheme \<Rightarrow> nat \<Rightarrow> nat \<Rightarrow> engine \<Rightarrow> (engine_error + engine) option" where
  "unrolled_loop H 0 di en = Some (Inr en)"
| "unrolled_loop H (Suc n) di en =
     (case call_offsets H 4 (di + 4) en of
        None \<Rightarrow> None | Some (Inl e) \<Rightarrow> Some (Inl e) | Some (Inr en) \<Rightarrow> unrolled_loop H n (di + 4) en)"

definition execute_block :: "'h cpu_host_scheme \<Rightarrow> block_info \<Rightarrow> engine \<Rightarrow> (engine_error + engine) option" where
  "execute_block H bi en =
     (let r = bi_size bi mod 4;
          di = the (bi_di bi) + r;
          n = (bi_size bi + 3) div 4
      in if r = 0 then unrolled_loop H (max n 1) di en
         else case call_offsets H r di en of
                None \<Rightarrow> None | Some (Inl e) \<Rightarrow> Some (Inl e) | Some (Inr en) \<Rightarrow> unrolled_loop H (n - 1) di en)"

section \<open>Predecoding\<close>

text \<open>One instruction of a block, and the move to the start of the array when it is full.\<close>

definition predecode_word :: "decoder \<Rightarrow> u32 \<Rightarrow> nat \<Rightarrow> engine \<Rightarrow> engine_error + (nat \<times> engine)" where
  "predecode_word d opcode di en =
     (let x = \<lparr>di_execute = Run (ii_execute (decode d opcode)), di_opcode = opcode\<rparr>
      in if logging (recorder (cpu en))
         then (case write_decode_info di \<lparr>di_execute = Record_step, di_opcode = opcode\<rparr> en of
                 Inl e \<Rightarrow> Inl e
               | Inr en \<Rightarrow> (case write_decode_info (di + 1) x en of Inl e \<Rightarrow> Inl e | Inr en \<Rightarrow> Inr (di + 2, en)))
         else (case write_decode_info di x en of Inl e \<Rightarrow> Inl e | Inr en \<Rightarrow> Inr (di + 1, en)))"

definition move_block :: "nat \<Rightarrow> nat \<Rightarrow> engine \<Rightarrow> (nat \<times> engine) option" where
  "move_block e di en =
     (if di < decode_cache_end_p then Some (di, en)
      else case invalidate_cache en of
             None \<Rightarrow> None
           | Some en \<Rightarrow>
               (let bi = bc_info (block_index en) e;
                    blocklen = di - the (bi_di bi);
                    en = en\<lparr>decode_cache := \<lambda>i. if decode_cache_p en \<le> i \<and> i < decode_cache_p en + blocklen
                                              then decode_cache en (the (bi_di bi) + (i - decode_cache_p en))
                                              else decode_cache en i\<rparr>;
                    en = en\<lparr>block_index := set_blockinfo e (bi\<lparr>bi_di := Some (decode_cache_p en)\<rparr>) (block_index en)\<rparr>
                in Some (decode_cache_p en + blocklen, en)))"

partial_function (option) predecode_loop ::
  "decoder \<Rightarrow> nat \<Rightarrow> u32 \<Rightarrow> nat \<Rightarrow> engine \<Rightarrow> (engine_error + (u32 \<times> nat \<times> engine)) option" where
  "predecode_loop d e dpc di en =
     (let dpc = dpc + 4; opcode = vm_read_memory_4 (mem (core (cpu en))) dpc
      in case predecode_word d opcode di en of
           Inl x \<Rightarrow> Some (Inl x)
         | Inr (di, en) \<Rightarrow>
             (case move_block e di en of
                None \<Rightarrow> None
              | Some (di, en) \<Rightarrow>
                  if ii_cflow (decode d opcode) AND CFLOW_END_BLOCK = 0 then predecode_loop d e dpc di en
                  else Some (Inr (dpc, di, en))))"

text \<open>The block is completed and entered into the cache.\<close>

definition finish_block :: "nat \<Rightarrow> u32 \<Rightarrow> u32 \<Rightarrow> nat \<Rightarrow> engine \<Rightarrow> engine" where
  "finish_block e entry dpc di en =
     (let bi = bc_info (block_index en) e;
          bi = bi\<lparr>bi_end_pc := ucast dpc, bi_min_pc := ucast dpc, bi_max_pc := ucast entry,
                  bi_size := di - the (bi_di bi)\<rparr>;
          en = en\<lparr>block_index := enter_block e (set_blockinfo e bi (block_index en))\<rparr>
      in en\<lparr>decode_cache_p := decode_cache_p en + bi_size bi\<rparr>)"

definition predecode_block :: "decoder \<Rightarrow> u32 \<Rightarrow> engine \<Rightarrow> (engine_error + (nat \<times> engine)) option" where
  "predecode_block d entry en =
     (let (e, c) = new_blockinfo (block_index en);
          bi = (block_info_init (ucast (pc (core (cpu en)))) (bc_info c e))\<lparr>bi_di := Some (decode_cache_p en)\<rparr>;
          en = en\<lparr>block_index := set_blockinfo e bi c\<rparr>
      in case predecode_loop d e (pc (core (cpu en)) - 4) (decode_cache_p en) en of
           None \<Rightarrow> None
         | Some (Inl x) \<Rightarrow> Some (Inl x)
         | Some (Inr (dpc, di, en)) \<Rightarrow> Some (Inr (e, finish_block e entry dpc di en)))"

section \<open>The execution loop\<close>

text \<open>
  One pass of the inner loop: run the block, look at the special flags, and tell how the loop
  goes on.
\<close>

datatype after_block = Return_site | Redecode | Next_block nat

definition block_pass :: "'h cpu_host_scheme \<Rightarrow> nat \<Rightarrow> engine \<Rightarrow> (engine_error + (after_block \<times> bool \<times> engine)) option" where
  "block_pass H e en =
     (case execute_block H (bc_info (block_index en) e) en of
        None \<Rightarrow> None
      | Some (Inl x) \<Rightarrow> Some (Inl x)
      | Some (Inr en) \<Rightarrow>
          (let (go, m) = (if \<not> spcflags_empty (spcflags (core (cpu en))) then check_spcflags H (cpu en) else (True, cpu en))
           in case sync_blocks (calls_made en) (en\<lparr>cpu := m\<rparr>) of
                None \<Rightarrow> None
              | Some en \<Rightarrow>
                  if \<not> go then Some (Inr (Return_site, False, en))
                  else if test_spcflag SPCFLAG_JIT_EXEC_RETURN m
                  then Some (Inr (Redecode, True, en\<lparr>cpu := clear_spcflag SPCFLAG_JIT_EXEC_RETURN m\<rparr>))
                  else if bi_pc (bc_info (block_index en) e) = ucast (pc (core m))
                  then Some (Inr (Next_block e, False, en))
                  else (case bc_find (ucast (pc (core m))) (block_index en) of
                          None \<Rightarrow> None
                        | Some (None, c) \<Rightarrow> Some (Inr (Redecode, False, en\<lparr>block_index := c\<rparr>))
                        | Some (Some e', c) \<Rightarrow> Some (Inr (Next_block e', False, en\<lparr>block_index := c\<rparr>)))))"

definition fetch_block :: "decoder \<Rightarrow> u32 \<Rightarrow> engine \<Rightarrow> (engine_error + (nat \<times> engine)) option" where
  "fetch_block d entry en =
     (case bc_find (ucast (pc (core (cpu en)))) (block_index en) of
        None \<Rightarrow> None
      | Some (Some e, c) \<Rightarrow> Some (Inr (e, en\<lparr>block_index := c\<rparr>))
      | Some (None, c) \<Rightarrow> predecode_block d entry (en\<lparr>block_index := c\<rparr>))"

text \<open>
  The loops: \<open>b\<close> is the block to run, or none at the head of the outer loop; \<open>ic\<close> is
  \<^verbatim>\<open>invalidated_cache\<close>.
\<close>

partial_function (option) execute_blocks ::
  "'h cpu_host_scheme \<Rightarrow> decoder \<Rightarrow> u32 \<Rightarrow> nat option \<Rightarrow> bool \<Rightarrow> engine \<Rightarrow> (engine_error + (bool \<times> engine)) option" where
  "execute_blocks H d entry b ic en =
     (case b of
        None \<Rightarrow>
          (case fetch_block d entry en of
             None \<Rightarrow> None
           | Some r \<Rightarrow> (case r of Inl x \<Rightarrow> Some (Inl x) | Inr (e, en) \<Rightarrow> execute_blocks H d entry (Some e) ic en))
      | Some e \<Rightarrow>
          (case block_pass H e en of
             None \<Rightarrow> None
           | Some r \<Rightarrow>
               (case r of
                  Inl x \<Rightarrow> Some (Inl x)
                | Inr (after, i, en) \<Rightarrow>
                    (case after of
                       Return_site \<Rightarrow> Some (Inr (ic, en))
                     | Redecode \<Rightarrow> execute_blocks H d entry None (ic \<or> i) en
                     | Next_block e' \<Rightarrow> execute_blocks H d entry (Some e') ic en))))"

definition execute_entry :: "'h cpu_host_scheme \<Rightarrow> decoder \<Rightarrow> u32 \<Rightarrow> engine \<Rightarrow> (engine_error + engine) option" where
  "execute_entry H d entry en =
     (let en = en\<lparr>cpu := (cpu en)\<lparr>core := (core (cpu en))\<lparr>pc := entry\<rparr>\<rparr>, execute_depth := execute_depth en + 1\<rparr>
      in if execute_depth en = 1
         then (case execute_blocks H d entry None False en of
                 None \<Rightarrow> None
               | Some (Inl x) \<Rightarrow> Some (Inl x)
               | Some (Inr (ic, en)) \<Rightarrow>
                   Some (Inr (en\<lparr>cpu := (if ic then set_spcflag SPCFLAG_JIT_EXEC_RETURN (cpu en) else cpu en),
                                 execute_depth := execute_depth en - 1\<rparr>)))
         else (case do_interpret H d (cpu en) of
                 None \<Rightarrow> None
               | Some (Inl x) \<Rightarrow> Some (Inl (Handler_abort x))
               | Some (Inr m) \<Rightarrow>
                   map_option (\<lambda>en. Inr (en\<lparr>execute_depth := execute_depth en - 1\<rparr>))
                     (sync_blocks (calls_made en) (en\<lparr>cpu := m\<rparr>))))"

section \<open>The unrolled loop calls the entries in order\<close>

lemma call_entries_append:
  "call_entries H (xs @ ys) en =
     (case call_entries H xs en of
        None \<Rightarrow> None | Some (Inl e) \<Rightarrow> Some (Inl e) | Some (Inr en) \<Rightarrow> call_entries H ys en)"
  by (induction xs arbitrary: en) (simp_all split: option.split sum.split)

lemma sync_blocks_fields:
  assumes "sync_blocks n en = Some en'"
  shows "cpu en' = cpu en" "decode_cache en' = decode_cache en"
  using assms by (auto simp: sync_blocks_def split: option.splits)

lemma call_execute_fn_array:
  "call_execute_fn H x en = Some (Inr en') \<Longrightarrow> decode_cache en' = decode_cache en"
  by (auto simp: call_execute_fn_def split: execute_fn.splits sum.splits dest: sync_blocks_fields(2))

lemma call_entries_array:
  "call_entries H xs en = Some (Inr en') \<Longrightarrow> decode_cache en' = decode_cache en"
  by (induction xs arbitrary: en) (auto split: option.splits sum.splits dest: call_execute_fn_array)

lemma rev_offsets: "map (\<lambda>j. f (a + k - j)) (rev [1..<k + 1]) = map f [a..<a + k]" for f :: "nat \<Rightarrow> 'a"
  by (rule nth_equalityI) (simp_all add: rev_nth del: upt_Suc)

lemma call_offsets_eq: "call_offsets H k (a + k) en = call_entries H (map (decode_cache en) [a..<a + k]) en"
  unfolding call_offsets_def rev_offsets ..

lemma upt_split: "[a..<a + (k + n)] = [a..<a + k] @ [a + k..<a + k + n]"
  by (metis add.assoc upt_add_eq_append le_add1)

lemma unrolled_loop_eq: "unrolled_loop H n a en = call_entries H (map (decode_cache en) [a..<a + 4 * n]) en"
proof (induction n arbitrary: a en)
  case (Suc n)
  have "[a..<a + 4 * Suc n] = [a..<a + 4] @ [a + 4..<a + 4 + 4 * n]"
    using upt_split[of a 4 "4 * n"] by simp
  then show ?case
    by (simp only: unrolled_loop.simps call_offsets_eq Suc.IH map_append call_entries_append)
      (auto split: option.splits sum.splits dest: call_entries_array)
qed simp

lemma execute_block_eq:
  assumes "bi_di bi = Some p" "bi_size bi > 0"
  shows "execute_block H bi en = call_entries H (map (decode_cache en) [p..<p + bi_size bi]) en"
proof (cases "bi_size bi mod 4 = 0")
  case True
  then obtain k where "bi_size bi = 4 * k" by (metis mod_0_imp_dvd dvdE)
  then have "4 * max ((bi_size bi + 3) div 4) 1 = bi_size bi" using assms(2) by simp
  then show ?thesis using assms True by (simp add: execute_block_def unrolled_loop_eq)
next
  case False
  define r where "r = bi_size bi mod 4"
  have "bi_size bi = 4 * (bi_size bi div 4) + r" "0 < r" "r < 4" using False by (simp_all add: r_def)
  moreover have "(4 * q + r + 3) div 4 = q + 1" if "0 < r" "r < 4" for q
    using that by (intro div_nat_eqI) simp_all
  ultimately have n: "r + 4 * ((bi_size bi + 3) div 4 - 1) = bi_size bi"
    by (metis add.commute add_diff_cancel_right')
  have "[p..<p + bi_size bi] = [p..<p + r] @ [p + r..<p + r + 4 * ((bi_size bi + 3) div 4 - 1)]"
    using upt_split[of p r "4 * ((bi_size bi + 3) div 4 - 1)"] unfolding n .
  moreover have "execute_block H bi en = (case call_offsets H r (p + r) en of
      None \<Rightarrow> None | Some (Inl e) \<Rightarrow> Some (Inl e)
    | Some (Inr en) \<Rightarrow> unrolled_loop H ((bi_size bi + 3) div 4 - 1) (p + r) en)"
    using False assms(1) by (simp add: execute_block_def Let_def flip: r_def)
  ultimately show ?thesis
    by (simp only: call_offsets_eq unrolled_loop_eq map_append call_entries_append)
      (auto split: option.splits sum.splits dest: call_entries_array)
qed

section \<open>A block does what the interpreter does\<close>

text \<open>The handlers of a list of instruction words in order, and the iterations of the interpreter.\<close>

definition run_word :: "'h cpu_host_scheme \<Rightarrow> decoder \<Rightarrow> u32 \<Rightarrow> machine \<Rightarrow> abort_reason + machine" where
  "run_word H d w m =
     (let m = (if logging (recorder m) then m\<lparr>recorder := record_step w (core m) (recorder m)\<rparr> else m)
      in case call_pmf H (ii_execute (decode d w)) w (core m) of
           Inl e \<Rightarrow> Inl e | Inr s \<Rightarrow> Inr (m\<lparr>core := s\<rparr>))"

primrec run_words :: "'h cpu_host_scheme \<Rightarrow> decoder \<Rightarrow> u32 list \<Rightarrow> machine \<Rightarrow> abort_reason + machine" where
  "run_words H d [] m = Inr m"
| "run_words H d (w # ws) m = (case run_word H d w m of Inl e \<Rightarrow> Inl e | Inr m \<Rightarrow> run_words H d ws m)"

primrec interpret_n :: "nat \<Rightarrow> 'h cpu_host_scheme \<Rightarrow> decoder \<Rightarrow> machine \<Rightarrow> abort_reason + (bool \<times> machine)" where
  "interpret_n 0 H d m = Inr (True, m)"
| "interpret_n (Suc n) H d m =
     (case interpret_step H d m of
        Inl e \<Rightarrow> Inl e | Inr (go, m) \<Rightarrow> if go then interpret_n n H d m else Inr (False, m))"

definition flag_check :: "'h cpu_host_scheme \<Rightarrow> machine \<Rightarrow> bool \<times> machine" where
  "flag_check H m = (if \<not> spcflags_empty (spcflags (core m)) then check_spcflags H m else (True, m))"

lemma interpret_step_run_word:
  "interpret_step H d m =
     (case run_word H d (vm_read_memory_4 (mem (core m)) (pc (core m))) m of
        Inl e \<Rightarrow> Inl e | Inr m \<Rightarrow> Inr (flag_check H m))"
  by (auto simp: interpret_step_def run_word_def flag_check_def Let_def split: sum.splits)

text \<open>The instruction words of a block: all but the last continue at the next word.\<close>

definition ends_block :: "decoder \<Rightarrow> u32 \<Rightarrow> bool" where
  "ends_block d w \<longleftrightarrow> ii_cflow (decode d w) AND CFLOW_END_BLOCK \<noteq> 0"

fun straight :: "decoder \<Rightarrow> u32 list \<Rightarrow> bool" where
  "straight d [] \<longleftrightarrow> False"
| "straight d [w] \<longleftrightarrow> ends_block d w"
| "straight d (w # ws) \<longleftrightarrow> \<not> ends_block d w \<and> straight d ws"

fun words_at :: "host_mem \<Rightarrow> u32 \<Rightarrow> u32 list \<Rightarrow> bool" where
  "words_at b a [] \<longleftrightarrow> True"
| "words_at b a (w # ws) \<longleftrightarrow> vm_read_memory_4 b a = w \<and> words_at b (a + 4) ws"

definition decoder_loaded :: "decoder \<Rightarrow> bool" where
  "decoder_loaded d \<longleftrightarrow> (\<exists>d0. ii_table d0 = [] \<and> load_decoder d0 = Some d)"

definition quiet_flags :: "machine \<Rightarrow> bool" where
  "quiet_flags m \<longleftrightarrow> spcflags (core m) = 0 \<or> spcflags (core m) = SPCFLAG_JIT_EXEC_RETURN"

lemma run_word_continues:
  assumes "decoder_loaded d" "\<not> ignoreillegal H" "\<not> ends_block d w" "quiet_flags m" "run_word H d w m = Inr m'"
  shows "pc (core m') = pc (core m) + 4" "quiet_flags m'"
proof -
  obtain s where s: "call_pmf H (ii_execute (decode d w)) w (core m) = Inr s" "core m' = s"
    using assms(5) by (auto simp: run_word_def Let_def split: sum.splits if_splits)
  have t: "decode d w \<in> set full_ii_table"
    using assms(1) decode_in_table unfolding decoder_loaded_def by blast
  have e: "ii_cflow (decode d w) AND CFLOW_END_BLOCK = 0" using assms(3) by (simp add: ends_block_def)
  note f = cflow_normal_continues[OF t e assms(2) s(1)]
  show "pc (core m') = pc (core m) + 4" using f s(2) by simp
  show "quiet_flags m'" using f s(2) assms(4) by (auto simp: quiet_flags_def spcflags_set_def)
qed

lemma flag_check_quiet: "quiet_flags m \<Longrightarrow> flag_check H m = (True, m)"
  by (auto simp: quiet_flags_def flag_check_def check_spcflags_def test_spcflag_def spcflags_test_def spcflags_empty_def
      SPCFLAG_CPU_EXEC_RETURN_def SPCFLAG_CPU_HANDLE_INTERRUPT_def SPCFLAG_CPU_TRIGGER_INTERRUPT_def
      SPCFLAG_CPU_ENTER_MON_def SPCFLAG_JIT_EXEC_RETURN_def Let_def)

lemma run_words_interprets:
  assumes "straight d ws" "decoder_loaded d" "\<not> ignoreillegal H" "quiet_flags m"
    and "\<And>i m'. i < length ws \<Longrightarrow> run_words H d (take i ws) m = Inr m' \<Longrightarrow> words_at (mem (core m')) (pc (core m)) ws"
  shows "interpret_n (length ws) H d m =
    (case run_words H d ws m of Inl e \<Rightarrow> Inl e | Inr m' \<Rightarrow> Inr (flag_check H m'))"
  using assms(1,2,4,5)
proof (induction d ws arbitrary: m rule: straight.induct)
  case (2 d w)
  have "vm_read_memory_4 (mem (core m)) (pc (core m)) = w" using 2(4)[of 0 m] by simp
  then show ?case
    by (simp add: interpret_step_run_word split: sum.split prod.split)
next
  case (3 d w v ws)
  have w: "vm_read_memory_4 (mem (core m)) (pc (core m)) = w" using 3(5)[of 0 m] by simp
  show ?case
  proof (cases "run_word H d w m")
    case (Inl e)
    then show ?thesis using w by (simp add: interpret_step_run_word)
  next
    case (Inr m1)
    have e: "\<not> ends_block d w" "straight d (v # ws)" using 3(2) by simp_all
    note c = run_word_continues[OF 3(3) assms(3) e(1) 3(4) Inr]
    have "interpret_n (length (w # v # ws)) H d m = interpret_n (length (v # ws)) H d m1"
      using Inr w flag_check_quiet[OF c(2), of H] by (simp add: interpret_step_run_word[of H d m])
    also have "interpret_n (length (v # ws)) H d m1 =
        (case run_words H d (v # ws) m1 of Inl e \<Rightarrow> Inl e | Inr m' \<Rightarrow> Inr (flag_check H m'))"
    proof (rule 3(1))
      fix i m' assume i: "i < length (v # ws)" "run_words H d (take i (v # ws)) m1 = Inr m'"
      have "words_at (mem (core m')) (pc (core m)) (w # v # ws)"
        using 3(5)[of "Suc i" m'] i Inr by simp
      then show "words_at (mem (core m')) (pc (core m1)) (v # ws)" using c(1) 3(2) by simp
    qed (use 3(3) c(2) e(2) in auto)
    finally show ?thesis using Inr by simp
  qed
qed simp

text \<open>What the entries of a block may change of the engine besides the machine.\<close>

definition engine_frame :: "engine \<Rightarrow> engine \<Rightarrow> bool" where
  "engine_frame en en' \<longleftrightarrow>
     cache_ok (block_index en') \<and> cached (block_index en') \<subseteq> cached (block_index en) \<and>
     bc_info (block_index en') = bc_info (block_index en) \<and>
     decode_cache en' = decode_cache en \<and> decode_cache_p en' = decode_cache_p en \<and>
     execute_depth en' = execute_depth en"

lemma engine_frame_trans: "engine_frame a b \<Longrightarrow> engine_frame b c \<Longrightarrow> engine_frame a c"
  unfolding engine_frame_def by auto

lemma clear_range_ok:
  assumes "cache_ok c"
  obtains c' where "clear_range start ed c = Some c'" "cache_ok c'" "cached c' \<subseteq> cached c" "bc_info c' = bc_info c"
proof -
  obtain C A where inv: "bc_inv c C A" using assms by (auto simp: cache_ok_def)
  obtain c' where c': "clear_range start ed c = Some c'"
    "restricts (\<lambda>x. scanned start ed (bi_pc (bc_info c x)) \<longrightarrow> \<not> intersect start ed (bc_info c x)) c C A c'"
    by (rule clear_range_restricts[OF inv])
  from cached_restricts[OF inv c'(2)] show thesis using that c'(1) by auto
qed

lemma clear_ranges_ok:
  "cache_ok c \<Longrightarrow> \<exists>c'. clear_ranges rs c = Some c' \<and> cache_ok c' \<and> cached c' \<subseteq> cached c \<and> bc_info c' = bc_info c"
proof (induction rs c rule: clear_ranges.induct)
  case (2 start ed rs c)
  obtain c1 where c1: "clear_range start ed c = Some c1" "cache_ok c1" "cached c1 \<subseteq> cached c" "bc_info c1 = bc_info c"
    by (rule clear_range_ok[OF 2(2)])
  then show ?case using 2(1)[of c1] by auto
qed simp

lemma sync_blocks_ok:
  assumes "cache_ok (block_index en)"
  obtains en' where "sync_blocks n en = Some en'" "cpu en' = cpu en" "engine_frame en en'"
  using clear_ranges_ok[OF assms, of "drop n (clear_range_calls (core (cpu en)))"] that
  by (auto simp: sync_blocks_def engine_frame_def)

definition predecoded :: "decoder \<Rightarrow> u32 \<Rightarrow> decode_info" where
  "predecoded d w = \<lparr>di_execute = Run (ii_execute (decode d w)), di_opcode = w\<rparr>"

definition entries :: "bool \<Rightarrow> decoder \<Rightarrow> u32 list \<Rightarrow> decode_info list" where
  "entries lg d ws =
     concat (map (\<lambda>w. (if lg then [\<lparr>di_execute = Record_step, di_opcode = w\<rparr>] else []) @ [predecoded d w]) ws)"

lemma entries_Cons: "entries lg d (w # ws) = entries lg d [w] @ entries lg d ws"
  by (simp add: entries_def)

lemma logging_run_word: "run_word H d w m = Inr m' \<Longrightarrow> logging (recorder m') = logging (recorder m)"
  by (auto simp: run_word_def Let_def record_step_def do_record_step_def store_step_def split: sum.splits if_splits)

lemma call_predecoded:
  assumes "cache_ok (block_index en)"
  shows "\<exists>r. call_execute_fn H (predecoded d w) en = Some r \<and>
    (case call_pmf H (ii_execute (decode d w)) w (core (cpu en)) of
       Inl x \<Rightarrow> r = Inl (Handler_abort x)
     | Inr s \<Rightarrow> \<exists>en'. r = Inr en' \<and> cpu en' = (cpu en)\<lparr>core := s\<rparr> \<and> engine_frame en en')"
proof (cases "call_pmf H (ii_execute (decode d w)) w (core (cpu en))")
  case (Inl x)
  then show ?thesis by (simp add: call_execute_fn_def predecoded_def)
next
  case (Inr s)
  let ?en = "en\<lparr>cpu := (cpu en)\<lparr>core := s\<rparr>\<rparr>"
  obtain en' where "sync_blocks (calls_made en) ?en = Some en'" "cpu en' = cpu ?en" "engine_frame ?en en'"
    by (rule sync_blocks_ok[of ?en]) (use assms in simp_all)
  then show ?thesis using Inr by (simp add: call_execute_fn_def predecoded_def engine_frame_def)
qed

lemma call_word:
  assumes "cache_ok (block_index en)"
  shows "\<exists>r. call_entries H (entries (logging (recorder (cpu en))) d [w]) en = Some r \<and>
    (case run_word H d w (cpu en) of
       Inl x \<Rightarrow> r = Inl (Handler_abort x)
     | Inr m' \<Rightarrow> \<exists>en'. r = Inr en' \<and> cpu en' = m' \<and> engine_frame en en')"
proof -
  define en1 where "en1 = (if logging (recorder (cpu en))
    then en\<lparr>cpu := (cpu en)\<lparr>recorder := record_step w (core (cpu en)) (recorder (cpu en))\<rparr>\<rparr> else en)"
  have en1: "cache_ok (block_index en1)" "engine_frame en1 en' \<Longrightarrow> engine_frame en en'" for en'
    using assms by (auto simp: en1_def engine_frame_def split: if_splits)
  have r: "run_word H d w (cpu en) =
      (case call_pmf H (ii_execute (decode d w)) w (core (cpu en1)) of Inl e \<Rightarrow> Inl e | Inr s \<Rightarrow> Inr ((cpu en1)\<lparr>core := s\<rparr>))"
    by (cases "logging (recorder (cpu en))") (simp_all add: run_word_def en1_def Let_def split: sum.split)
  have "call_entries H (entries (logging (recorder (cpu en))) d [w]) en =
      (case call_execute_fn H (predecoded d w) en1 of
         None \<Rightarrow> None | Some (Inl e) \<Rightarrow> Some (Inl e) | Some (Inr en) \<Rightarrow> call_entries H [] en)"
    by (simp add: entries_def en1_def call_execute_fn_def[of H "\<lparr>di_execute = Record_step, di_opcode = w\<rparr>"])
  then show ?thesis
    using call_predecoded[OF en1(1), of H d w] en1(2) unfolding r
    by (auto split: sum.splits)
qed

lemma call_words:
  assumes "cache_ok (block_index en)"
  shows "\<exists>r. call_entries H (entries (logging (recorder (cpu en))) d ws) en = Some r \<and>
    (case run_words H d ws (cpu en) of
       Inl x \<Rightarrow> r = Inl (Handler_abort x)
     | Inr m' \<Rightarrow> \<exists>en'. r = Inr en' \<and> cpu en' = m' \<and> engine_frame en en')"
  using assms
proof (induction ws arbitrary: en)
  case Nil
  then show ?case by (simp add: entries_def engine_frame_def)
next
  case (Cons w ws)
  note cw = call_word[OF Cons.prems, of H d w]
  show ?case
  proof (cases "run_word H d w (cpu en)")
    case (Inl x)
    then show ?thesis using cw by (simp add: entries_Cons[of _ d w ws] call_entries_append)
  next
    case (Inr m1)
    then obtain en1 where en1: "call_entries H (entries (logging (recorder (cpu en))) d [w]) en = Some (Inr en1)"
      "cpu en1 = m1" "engine_frame en en1" using cw by auto
    have lg: "logging (recorder (cpu en)) = logging (recorder (cpu en1))" using logging_run_word[OF Inr] en1(2) by simp
    have ok: "cache_ok (block_index en1)" using en1(3) by (simp add: engine_frame_def)
    have "call_entries H (entries (logging (recorder (cpu en))) d (w # ws)) en =
        call_entries H (entries (logging (recorder (cpu en1))) d ws) en1"
      using en1(1) lg by (simp add: entries_Cons[of _ d w ws] call_entries_append)
    then show ?thesis
      using Cons.IH[OF ok] Inr en1(2,3)
      by (cases "run_words H d ws m1") (auto intro: engine_frame_trans)
  qed
qed

section \<open>The invariant of the engine\<close>

text \<open>
  Outside the recording mode every block of the cache describes a part of the array below
  \<^verbatim>\<open>decode_cache_p\<close> that holds the predecoded words of a straight run of instructions.
\<close>

definition predecoded_words :: "engine \<Rightarrow> nat \<Rightarrow> u32 list" where
  "predecoded_words en e =
     (let bi = bc_info (block_index en) e
      in map (\<lambda>i. di_opcode (decode_cache en i)) [the (bi_di bi)..<the (bi_di bi) + bi_size bi])"

definition block_ok :: "decoder \<Rightarrow> engine \<Rightarrow> nat \<Rightarrow> bool" where
  "block_ok d en e \<longleftrightarrow>
     (let bi = bc_info (block_index en) e
      in \<exists>p ws. bi_di bi = Some p \<and> bi_size bi = length ws \<and> straight d ws \<and>
           p + length ws \<le> decode_cache_p en \<and>
           map (decode_cache en) [p..<p + length ws] = map (predecoded d) ws)"

definition engine_ok :: "decoder \<Rightarrow> engine \<Rightarrow> bool" where
  "engine_ok d en \<longleftrightarrow>
     cache_ok (block_index en) \<and> inj_on (\<lambda>e. bi_pc (bc_info (block_index en) e)) (cached (block_index en)) \<and>
     decode_cache_p en < DECODE_CACHE_MAX_ENTRIES \<and> (\<forall>e\<in>cached (block_index en). block_ok d en e)"

lemma block_ok_words:
  assumes "block_ok d en e"
  obtains p where "bi_di (bc_info (block_index en) e) = Some p" "straight d (predecoded_words en e)"
    "bi_size (bc_info (block_index en) e) = length (predecoded_words en e)"
    "map (decode_cache en) [p..<p + length (predecoded_words en e)] = map (predecoded d) (predecoded_words en e)"
proof -
  obtain p ws where b: "bi_di (bc_info (block_index en) e) = Some p" "bi_size (bc_info (block_index en) e) = length ws"
    "straight d ws" "map (decode_cache en) [p..<p + length ws] = map (predecoded d) ws"
    using assms by (auto simp: block_ok_def Let_def)
  have "predecoded_words en e = map di_opcode (map (decode_cache en) [p..<p + length ws])"
    using b(1,2) by (simp add: predecoded_words_def Let_def)
  also have "\<dots> = ws" unfolding b(4) by (simp add: predecoded_def comp_def)
  finally show thesis using that b by simp
qed

lemma engine_ok_frame:
  assumes "engine_ok d en" "engine_frame en en'"
  shows "engine_ok d en'"
proof -
  note f = assms(2)[unfolded engine_frame_def]
  have "block_ok d en' e = block_ok d en e" for e using f by (simp add: block_ok_def)
  moreover have "inj_on (\<lambda>e. bi_pc (bc_info (block_index en') e)) (cached (block_index en'))"
    using assms(1) f inj_on_subset unfolding engine_ok_def by metis
  ultimately show ?thesis using assms(1) f unfolding engine_ok_def by auto
qed

lemma entries_no_log: "entries False d ws = map (predecoded d) ws"
  by (simp add: entries_def)

lemma straight_nonempty: "straight d ws \<Longrightarrow> length ws > 0"
  by (cases ws) auto

lemma execute_block_words:
  assumes "engine_ok d en" "e \<in> cached (block_index en)" "\<not> logging (recorder (cpu en))"
  shows "\<exists>r. execute_block H (bc_info (block_index en) e) en = Some r \<and>
    (case run_words H d (predecoded_words en e) (cpu en) of
       Inl x \<Rightarrow> r = Inl (Handler_abort x)
     | Inr m' \<Rightarrow> \<exists>en'. r = Inr en' \<and> cpu en' = m' \<and> engine_frame en en')"
proof -
  have b: "block_ok d en e" and c: "cache_ok (block_index en)" using assms(1,2) by (simp_all add: engine_ok_def)
  from b obtain p where p: "bi_di (bc_info (block_index en) e) = Some p" "straight d (predecoded_words en e)"
    "bi_size (bc_info (block_index en) e) = length (predecoded_words en e)"
    "map (decode_cache en) [p..<p + length (predecoded_words en e)] = map (predecoded d) (predecoded_words en e)"
    by (rule block_ok_words)
  have "execute_block H (bc_info (block_index en) e) en = call_entries H (map (predecoded d) (predecoded_words en e)) en"
    using execute_block_eq[OF p(1), of H en] straight_nonempty[OF p(2)] p(3,4) by simp
  then show ?thesis
    using call_words[of en H d "predecoded_words en e"] c assms(3)
    by (simp add: entries_no_log)
qed

section \<open>Running a cached block\<close>

lemma clear_unset_spcflag: "\<not> test_spcflag f m \<Longrightarrow> clear_spcflag f m = m"
proof -
  assume "\<not> test_spcflag f m"
  then have "spcflags (core m) AND f = 0" by (simp add: test_spcflag_def spcflags_test_def)
  then have "spcflags (core m) AND NOT f = spcflags (core m)"
    by (auto simp: bit_eq_iff bit_simps)
  then show ?thesis by (simp add: clear_spcflag_def spcflags_clear_def)
qed

lemma block_pass_frame:
  assumes ok: "engine_ok d en" and fr: "engine_frame en en1" and chk: "flag_check H (cpu en1) = (go, m)"
    and run: "execute_block H (bc_info (block_index en) e) en = Some (Inr en1)"
  shows "\<exists>after ic en'. block_pass H e en = Some (Inr (after, ic, en')) \<and> engine_ok d en' \<and>
    execute_depth en' = execute_depth en \<and> (after = Return_site \<longleftrightarrow> \<not> go) \<and>
    cpu en' = (if go then clear_spcflag SPCFLAG_JIT_EXEC_RETURN m else m) \<and>
    (\<forall>e'. after = Next_block e' \<longrightarrow> bi_pc (bc_info (block_index en') e') = ucast (pc (core m)))"
proof -
  have c1: "cache_ok (block_index (en1\<lparr>cpu := m\<rparr>))" using fr by (simp add: engine_frame_def)
  obtain en2 where en2: "sync_blocks (calls_made en1) (en1\<lparr>cpu := m\<rparr>) = Some en2" "cpu en2 = m"
    "engine_frame (en1\<lparr>cpu := m\<rparr>) en2"
    by (rule sync_blocks_ok[OF c1, of "calls_made en1"]) simp
  have f2: "engine_frame en en2" using engine_frame_trans[OF fr, of en2] en2(3) by (simp add: engine_frame_def)
  have d2: "execute_depth en2 = execute_depth en" using f2 by (simp add: engine_frame_def)
  have ok2: "engine_ok d en2" by (rule engine_ok_frame[OF ok f2])
  have pass: "block_pass H e en =
     (if \<not> go then Some (Inr (Return_site, False, en2))
      else if test_spcflag SPCFLAG_JIT_EXEC_RETURN m
      then Some (Inr (Redecode, True, en2\<lparr>cpu := clear_spcflag SPCFLAG_JIT_EXEC_RETURN m\<rparr>))
      else if bi_pc (bc_info (block_index en2) e) = ucast (pc (core m)) then Some (Inr (Next_block e, False, en2))
      else (case bc_find (ucast (pc (core m))) (block_index en2) of
              None \<Rightarrow> None
            | Some (None, c) \<Rightarrow> Some (Inr (Redecode, False, en2\<lparr>block_index := c\<rparr>))
            | Some (Some e', c) \<Rightarrow> Some (Inr (Next_block e', False, en2\<lparr>block_index := c\<rparr>))))"
    using run chk en2(1) by (simp add: block_pass_def flag_check_def)
  consider "\<not> go" | "go" "test_spcflag SPCFLAG_JIT_EXEC_RETURN m"
    | "go" "\<not> test_spcflag SPCFLAG_JIT_EXEC_RETURN m" by blast
  then show ?thesis
  proof cases
    case 1
    then show ?thesis using pass ok2 d2 en2(2) by auto
  next
    case 2
    have "engine_ok d (en2\<lparr>cpu := x\<rparr>)" for x using ok2 by (simp add: engine_ok_def block_ok_def)
    then show ?thesis using pass d2 2 by auto
  next
    case 3
    obtain r c where f: "bc_find (ucast (pc (core m))) (block_index en2) = Some (r, c)" "cache_ok c"
      "cached c = cached (block_index en2)" "bc_info c = bc_info (block_index en2)"
      "case r of Some e \<Rightarrow> e \<in> cached (block_index en2) \<and> bi_pc (bc_info (block_index en2) e) = ucast (pc (core m))
       | None \<Rightarrow> True"
      using my_block_cache.lookup[of "block_index en2" "ucast (pc (core m))"] ok2
      unfolding engine_ok_def by (metis (no_types, lifting) option.case_eq_if)
    have "engine_ok d (en2\<lparr>block_index := c\<rparr>)"
      using ok2 f(2-4) by (simp add: engine_ok_def block_ok_def)
    then show ?thesis
      using pass 3 ok2 d2 en2(2) f(1,4,5) clear_unset_spcflag[OF 3(2)] by (auto split: option.splits)
  qed
qed

end
