(* ===== verification/PPC_Predecode.thy ===== *)
theory PPC_Predecode
  imports PPC_Engine
begin

unbundle bit_operations_syntax

text \<open>
  Predecoding in \<^verbatim>\<open>PPC_Engine\<close> is correct: it enters a block with the handlers of the
  words in memory, keeps the invariant of the engine across the move of an unfinished block to
  the start of the array, and stays in the array for blocks that fit. With the block lookup it
  gives what an outermost call of \<^verbatim>\<open>execute\<close> does.
\<close>

section \<open>Predecoding a block\<close>

text \<open>
  The state in the middle of predecoding: the words \<open>ws\<close> of the block of entry \<open>e\<close> are in
  the array from \<open>p\<close> on, where the free part of the array starts.
\<close>

definition predecoding :: "decoder \<Rightarrow> nat \<Rightarrow> nat \<Rightarrow> u32 list \<Rightarrow> engine \<Rightarrow> bool" where
  "predecoding d e p ws en \<longleftrightarrow>
     engine_ok d en \<and> e \<in> held_entries (block_index en) \<and> e \<notin> cached (block_index en) \<and>
     bi_di (bc_info (block_index en) e) = Some p \<and> decode_cache_p en = p \<and>
     p + length ws < DECODE_CACHE_MAX_ENTRIES \<and>
     map (decode_cache en) [p..<p + length ws] = map (predecoded d) ws \<and> \<not> logging (recorder (cpu en))"

definition predecode_frame :: "nat \<Rightarrow> engine \<Rightarrow> engine \<Rightarrow> bool" where
  "predecode_frame e en en' \<longleftrightarrow>
     (cpu en' = cpu en \<or> cpu en' = set_spcflag SPCFLAG_JIT_EXEC_RETURN (cpu en)) \<and>
     cached (block_index en') \<subseteq> cached (block_index en) \<and>
     (\<forall>b. b \<noteq> e \<longrightarrow> bc_info (block_index en') b = bc_info (block_index en) b) \<and>
     bi_pc (bc_info (block_index en') e) = bi_pc (bc_info (block_index en) e) \<and>
     execute_depth en' = execute_depth en"

lemma set_spcflag_idem: "set_spcflag f (set_spcflag f m) = set_spcflag f m"
  by (simp add: set_spcflag_def spcflags_set_def or.assoc)

lemma predecode_frame_refl: "predecode_frame e en en"
  by (simp add: predecode_frame_def)

lemma predecode_frame_trans: "predecode_frame e a b \<Longrightarrow> predecode_frame e b c \<Longrightarrow> predecode_frame e a c"
  unfolding predecode_frame_def by (auto simp: set_spcflag_idem)

lemma predecode_frame_mem: "predecode_frame e en en' \<Longrightarrow> mem (core (cpu en')) = mem (core (cpu en))"
  by (auto simp: predecode_frame_def set_spcflag_def)

lemma block_ok_write:
  assumes "block_ok d en b" "i \<ge> decode_cache_p en"
  shows "block_ok d (en\<lparr>decode_cache := (decode_cache en)(i := x)\<rparr>) b"
proof -
  obtain p ws where b: "bi_di (bc_info (block_index en) b) = Some p" "bi_size (bc_info (block_index en) b) = length ws"
    "straight d ws" "p + length ws \<le> decode_cache_p en"
    "map (decode_cache en) [p..<p + length ws] = map (predecoded d) ws"
    using assms(1) by (auto simp: block_ok_def Let_def)
  have "map ((decode_cache en)(i := x)) [p..<p + length ws] = map (decode_cache en) [p..<p + length ws]"
    using b(4) assms(2) by (auto intro: map_cong)
  with b show ?thesis unfolding block_ok_def Let_def by (intro exI[of _ p] exI[of _ ws]) simp
qed

lemma engine_ok_write:
  "engine_ok d en \<Longrightarrow> i \<ge> decode_cache_p en \<Longrightarrow> engine_ok d (en\<lparr>decode_cache := (decode_cache en)(i := x)\<rparr>)"
  unfolding engine_ok_def using block_ok_write by simp

text \<open>The write of one more word, which need not leave room behind it.\<close>

lemma predecode_word_writes:
  fixes w :: u32
  assumes "predecoding d e p ws en"
  defines "en' \<equiv> en\<lparr>decode_cache := (decode_cache en)(p + length ws := predecoded d w)\<rparr>"
  shows "predecode_word d w (p + length ws) en = Inr (p + length (ws @ [w]), en')"
    and "engine_ok d en'" and "map (decode_cache en') [p..<p + length (ws @ [w])] = map (predecoded d) (ws @ [w])"
proof -
  note A = assms(1)[unfolded predecoding_def]
  show "predecode_word d w (p + length ws) en = Inr (p + length (ws @ [w]), en')"
    using A by (simp add: predecode_word_def write_decode_info_def predecoded_def en'_def)
  show "engine_ok d en'" unfolding en'_def by (rule engine_ok_write) (use A in simp_all)
  have "map (decode_cache en') [p..<p + length ws] = map (decode_cache en) [p..<p + length ws]"
    by (auto simp: en'_def)
  then show "map (decode_cache en') [p..<p + length (ws @ [w])] = map (predecoded d) (ws @ [w])"
    using A by (simp add: en'_def)
qed

lemma invalidate_cache_ok:
  assumes "engine_ok d en"
  obtains c where "invalidate_cache en =
      Some (en\<lparr>block_index := c, cpu := set_spcflag SPCFLAG_JIT_EXEC_RETURN (cpu en), decode_cache_p := 0\<rparr>)"
    "cache_ok c" "cached c = {}" "held_entries c = held_entries (block_index en) - cached (block_index en)"
    "bc_info c = bc_info (block_index en)"
proof -
  obtain c where "bc_invalidate (block_index en) = Some c" "cache_ok c" "cached c = {}"
    "held_entries c = held_entries (block_index en) - cached (block_index en)" "bc_info c = bc_info (block_index en)"
    using my_block_cache.flush_all[of "block_index en"] assms by (auto simp: engine_ok_def)
  then show thesis using that by (simp add: invalidate_cache_def)
qed

text \<open>The move of an unfinished block to the start of the array.\<close>

lemma move_block_full:
  assumes ok: "engine_ok d en" and e: "e \<in> held_entries (block_index en)" "e \<notin> cached (block_index en)"
    and p: "bi_di (bc_info (block_index en) e) = Some p" "p + length ws = decode_cache_end_p"
    and ws: "map (decode_cache en) [p..<p + length ws] = map (predecoded d) ws"
    and lg: "\<not> logging (recorder (cpu en))"
  obtains en' where "move_block e (p + length ws) en = Some (length ws, en')" "predecode_frame e en en'"
    "bi_di (bc_info (block_index en') e) = Some 0" "engine_ok d en'"
    "e \<in> held_entries (block_index en')" "e \<notin> cached (block_index en')" "decode_cache_p en' = 0"
    "map (decode_cache en') [0..<length ws] = map (predecoded d) ws" "\<not> logging (recorder (cpu en'))"
proof -
  obtain c where c: "invalidate_cache en =
      Some (en\<lparr>block_index := c, cpu := set_spcflag SPCFLAG_JIT_EXEC_RETURN (cpu en), decode_cache_p := 0\<rparr>)"
    "cache_ok c" "cached c = {}" "held_entries c = held_entries (block_index en) - cached (block_index en)"
    "bc_info c = bc_info (block_index en)"
    by (rule invalidate_cache_ok[OF ok])
  define bi where "bi = (bc_info c e)\<lparr>bi_di := Some 0\<rparr>"
  define en' where "en' = en\<lparr>block_index := set_blockinfo e bi c,
    cpu := set_spcflag SPCFLAG_JIT_EXEC_RETURN (cpu en), decode_cache_p := 0,
    decode_cache := \<lambda>i. if i < length ws then decode_cache en (p + i) else decode_cache en i\<rparr>"
  have put: "cache_ok (set_blockinfo e bi c) \<and> cached (set_blockinfo e bi c) = {} \<and>
      held_entries (set_blockinfo e bi c) = held_entries c \<and> bc_info (set_blockinfo e bi c) = (bc_info c)(e := bi)"
    using my_block_cache.put[of c e bi] c e by simp
  have m: "map (decode_cache en') [0..<length ws] = map (decode_cache en) [p..<p + length ws]"
    by (rule nth_equalityI) (simp_all add: en'_def)
  show thesis
  proof (rule that[of en'])
    show "move_block e (p + length ws) en = Some (length ws, en')"
    proof -
      have "\<not> p + length ws < decode_cache_end_p" using p(2) by simp
      then show ?thesis
        using p(1) c(1,5) by (simp add: move_block_def Let_def en'_def bi_def cong: if_cong)
    qed
    show "predecode_frame e en en'"
      using put c(3,5) by (simp add: predecode_frame_def en'_def bi_def)
    show "engine_ok d en'"
      using put by (simp add: engine_ok_def en'_def DECODE_CACHE_MAX_ENTRIES_def)
    show "map (decode_cache en') [0..<length ws] = map (predecoded d) ws" using m ws by simp
  qed (use put c e lg in \<open>simp_all add: en'_def bi_def set_spcflag_def\<close>)
qed

lemma predecode_step:
  assumes pre: "predecoding d e p ws en" and len: "Suc (length ws) < DECODE_CACHE_MAX_ENTRIES"
  obtains di en1 p' en' where "predecode_word d w (p + length ws) en = Inr (di, en1)"
    "move_block e di en1 = Some (p' + length (ws @ [w]), en')"
    "predecoding d e p' (ws @ [w]) en'" "predecode_frame e en en'"
proof -
  note A = pre[unfolded predecoding_def]
  define en1 where "en1 = en\<lparr>decode_cache := (decode_cache en)(p + length ws := predecoded d w)\<rparr>"
  note W = predecode_word_writes[OF pre, of w, folded en1_def]
  have f1: "predecode_frame e en en1" by (simp add: predecode_frame_def en1_def)
  have e1: "e \<in> held_entries (block_index en1)" "e \<notin> cached (block_index en1)"
    "bi_di (bc_info (block_index en1) e) = Some p" "\<not> logging (recorder (cpu en1))"
    using A by (simp_all add: en1_def)
  show thesis
  proof (cases "p + length (ws @ [w]) < decode_cache_end_p")
    case True
    then have "move_block e (p + length (ws @ [w])) en1 = Some (p + length (ws @ [w]), en1)"
      by (simp add: move_block_def)
    moreover have "predecoding d e p (ws @ [w]) en1"
      using True W(2,3) e1 A by (simp add: predecoding_def decode_cache_end_p_def en1_def)
    ultimately show thesis using that W(1) f1 by blast
  next
    case False
    then have full: "p + length (ws @ [w]) = decode_cache_end_p"
      using A by (simp add: decode_cache_end_p_def)
    obtain en' where en': "move_block e (p + length (ws @ [w])) en1 = Some (length (ws @ [w]), en')"
      "predecode_frame e en1 en'" "bi_di (bc_info (block_index en') e) = Some 0" "engine_ok d en'"
      "e \<in> held_entries (block_index en')" "e \<notin> cached (block_index en')" "decode_cache_p en' = 0"
      "map (decode_cache en') [0..<length (ws @ [w])] = map (predecoded d) (ws @ [w])"
      "\<not> logging (recorder (cpu en'))"
      by (rule move_block_full[OF W(2) e1(1-3) full W(3) e1(4)])
    have "predecoding d e 0 (ws @ [w]) en'" using en' len by (simp add: predecoding_def)
    then show thesis
      using that[of "p + length (ws @ [w])" en1 0 en'] W(1) en'(1,2) predecode_frame_trans[OF f1] by simp
  qed
qed

text \<open>The loop over instructions that do not end the block.\<close>

lemma predecode_loop_prefix:
  assumes "predecoding d e p ws en" "words_at (mem (core (cpu en))) (dpc + 4) vs"
    and "\<And>v. v \<in> set vs \<Longrightarrow> \<not> ends_block d v" "length ws + length vs < DECODE_CACHE_MAX_ENTRIES"
  shows "\<exists>p' en'. predecode_loop d e dpc (p + length ws) en =
      predecode_loop d e (dpc + 4 * of_nat (length vs)) (p' + length (ws @ vs)) en' \<and>
    predecoding d e p' (ws @ vs) en' \<and> predecode_frame e en en'"
  using assms
proof (induction vs arbitrary: p ws en dpc)
  case Nil
  then show ?case by (intro exI[of _ p] exI[of _ en]) (simp add: predecode_frame_refl)
next
  case (Cons v vs)
  have "Suc (length ws) < DECODE_CACHE_MAX_ENTRIES" using Cons.prems(4) by simp
  from predecode_step[OF Cons.prems(1) this, of v]
  obtain di en1 p1 en2 where s: "predecode_word d v (p + length ws) en = Inr (di, en1)"
    "move_block e di en1 = Some (p1 + length (ws @ [v]), en2)"
    "predecoding d e p1 (ws @ [v]) en2" "predecode_frame e en en2"
    by metis
  have v: "vm_read_memory_4 (mem (core (cpu en))) (dpc + 4) = v" "\<not> ends_block d v"
    using Cons.prems(2,3) by simp_all
  have loop: "predecode_loop d e dpc (p + length ws) en =
      predecode_loop d e (dpc + 4) (p1 + length (ws @ [v])) en2"
    using s(1,2) v by (subst predecode_loop.simps) (simp add: Let_def ends_block_def)
  have w: "words_at (mem (core (cpu en2))) (dpc + 4 + 4) vs"
    using Cons.prems(2) predecode_frame_mem[OF s(4)] by simp
  obtain p' en' where r: "predecode_loop d e (dpc + 4) (p1 + length (ws @ [v])) en2 =
      predecode_loop d e (dpc + 4 + 4 * of_nat (length vs)) (p' + length ((ws @ [v]) @ vs)) en'"
    "predecoding d e p' ((ws @ [v]) @ vs) en'" "predecode_frame e en2 en'"
    using Cons.IH[OF s(3) w] Cons.prems(3,4) by auto
  have "dpc + 4 + 4 * of_nat (length vs) = dpc + 4 * of_nat (length (v # vs))"
    by (simp add: algebra_simps)
  with r predecode_frame_trans[OF s(4) r(3)] show ?case
    unfolding loop by (intro exI[of _ p'] exI[of _ en']) simp
qed

lemma straight_snoc:
  assumes "straight d ws"
  obtains vs w where "ws = vs @ [w]" "ends_block d w" "\<forall>v\<in>set vs. \<not> ends_block d v"
proof -
  have "\<exists>vs w. ws = vs @ [w] \<and> ends_block d w \<and> (\<forall>v\<in>set vs. \<not> ends_block d v)"
    using assms
  proof (induction d ws rule: straight.induct)
    case (3 d w v ws)
    have "\<not> ends_block d w" using 3(2) by simp
    moreover obtain vs u where "v # ws = vs @ [u]" "ends_block d u" "\<forall>v\<in>set vs. \<not> ends_block d v"
      using 3 by auto
    ultimately show ?case by (intro exI[of _ "w # vs"] exI[of _ u]) auto
  qed auto
  then show thesis using that by blast
qed

lemma words_at_append:
  "words_at b a (xs @ ys) \<longleftrightarrow> words_at b a xs \<and> words_at b (a + 4 * of_nat (length xs)) ys"
  by (induction xs arbitrary: a) (simp_all add: algebra_simps)

lemma predecode_loop_block:
  assumes "predecoding d e p [] en" "words_at (mem (core (cpu en))) (dpc + 4) ws" "straight d ws"
    and "length ws < DECODE_CACHE_MAX_ENTRIES"
  obtains p' en' where
    "predecode_loop d e dpc p en = Some (Inr (dpc + 4 * of_nat (length ws), p' + length ws, en'))"
    "predecoding d e p' ws en'" "predecode_frame e en en'"
proof -
  obtain vs w where ws: "ws = vs @ [w]" "ends_block d w" "\<forall>v\<in>set vs. \<not> ends_block d v"
    by (rule straight_snoc[OF assms(3)])
  have wv: "words_at (mem (core (cpu en))) (dpc + 4) vs" "vm_read_memory_4 (mem (core (cpu en))) (dpc + 4 + 4 * of_nat (length vs)) = w"
    using assms(2) ws(1) by (simp_all add: words_at_append)
  obtain p1 en1 where one: "predecode_loop d e dpc p en =
      predecode_loop d e (dpc + 4 * of_nat (length vs)) (p1 + length vs) en1"
    "predecoding d e p1 vs en1" "predecode_frame e en en1"
    using predecode_loop_prefix[OF assms(1) wv(1)] assms(4) ws(1,3) by auto
  have "Suc (length vs) < DECODE_CACHE_MAX_ENTRIES" using assms(4) ws(1) by simp
  from predecode_step[OF one(2) this, of w]
  obtain di en2 p' en' where s: "predecode_word d w (p1 + length vs) en1 = Inr (di, en2)"
    "move_block e di en2 = Some (p' + length (vs @ [w]), en')"
    "predecoding d e p' (vs @ [w]) en'" "predecode_frame e en1 en'"
    by metis
  have "vm_read_memory_4 (mem (core (cpu en1))) (dpc + 4 * of_nat (length vs) + 4) = w"
    using wv(2) predecode_frame_mem[OF one(3)] by (simp add: algebra_simps)
  then have "predecode_loop d e dpc p en = Some (Inr (dpc + 4 * of_nat (length ws), p' + length ws, en'))"
    unfolding one(1) using s(1,2) ws(1,2)
    by (subst predecode_loop.simps) (simp add: Let_def ends_block_def algebra_simps)
  then show thesis using that s(3) predecode_frame_trans[OF one(3) s(4)] ws(1) by blast
qed

lemma engine_ok_index:
  assumes "engine_ok d en" "cache_ok c" "cached c \<subseteq> cached (block_index en)"
    and info: "\<And>b. b \<in> cached c \<Longrightarrow> bc_info c b = bc_info (block_index en) b"
  shows "engine_ok d (en\<lparr>block_index := c\<rparr>)"
proof -
  note A = assms(1)[unfolded engine_ok_def]
  have "inj_on (\<lambda>e. bi_pc (bc_info c e)) (cached c)"
    using A assms(3) inj_on_subset inj_on_cong[of "cached c" "\<lambda>e. bi_pc (bc_info c e)" "\<lambda>e. bi_pc (bc_info (block_index en) e)"]
    by (metis (no_types, lifting) info)
  moreover have "block_ok d (en\<lparr>block_index := c\<rparr>) b" if "b \<in> cached c" for b
  proof -
    have "block_ok d en b" using A assms(3) that by auto
    then show ?thesis by (simp add: block_ok_def info[OF that])
  qed
  ultimately show ?thesis using A assms(2) by (simp add: engine_ok_def)
qed

lemma block_ok_grow: "block_ok d en b \<Longrightarrow> decode_cache_p en \<le> p \<Longrightarrow> block_ok d (en\<lparr>decode_cache_p := p\<rparr>) b"
  unfolding block_ok_def Let_def by simp (meson order_trans)

text \<open>Entering the finished block.\<close>

lemma enter_predecoded:
  fixes x y z :: u64
  assumes pre: "predecoding d e p ws en" and ws: "straight d ws"
    and fresh: "\<forall>b\<in>cached (block_index en). bi_pc (bc_info (block_index en) b) \<noteq> bi_pc (bc_info (block_index en) e)"
  defines "bi \<equiv> (bc_info (block_index en) e)\<lparr>bi_end_pc := x, bi_min_pc := y, bi_max_pc := z, bi_size := length ws\<rparr>"
  defines "c \<equiv> enter_block e (set_blockinfo e bi (block_index en))"
  shows "engine_ok d (en\<lparr>block_index := c, decode_cache_p := p + length ws\<rparr>)"
    and "cached c = insert e (cached (block_index en))" and "bc_info c = (bc_info (block_index en))(e := bi)"
proof -
  note A = pre[unfolded predecoding_def]
  have ok: "cache_ok (block_index en)" using A by (simp add: engine_ok_def)
  have put: "cache_ok (set_blockinfo e bi (block_index en)) \<and>
      cached (set_blockinfo e bi (block_index en)) = cached (block_index en) \<and>
      held_entries (set_blockinfo e bi (block_index en)) = held_entries (block_index en) \<and>
      bc_info (set_blockinfo e bi (block_index en)) = (bc_info (block_index en))(e := bi)"
    using my_block_cache.put[OF ok] A by blast
  have c: "cache_ok c" "cached c = insert e (cached (block_index en))" "bc_info c = (bc_info (block_index en))(e := bi)"
    using my_block_cache.enter[of "set_blockinfo e bi (block_index en)" e] put A by (auto simp: c_def)
  let ?en = "en\<lparr>block_index := c, decode_cache_p := p + length ws\<rparr>"
  have pc: "bi_pc bi = bi_pc (bc_info (block_index en) e)" by (simp add: bi_def)
  have inj: "inj_on (\<lambda>b. bi_pc (bc_info c b)) (cached c)"
  proof (unfold c(2) inj_on_insert, intro conjI)
    have "inj_on (\<lambda>b. bi_pc (bc_info (block_index en) b)) (cached (block_index en))"
      using A by (simp add: engine_ok_def)
    then show "inj_on (\<lambda>b. bi_pc (bc_info c b)) (cached (block_index en))"
      using A c(3) by (auto simp: inj_on_def)
    show "bi_pc (bc_info c e) \<notin> (\<lambda>b. bi_pc (bc_info c b)) ` (cached (block_index en) - {e})"
      using fresh by (auto simp: c(3) pc dest: sym)
  qed
  have "block_ok d ?en b" if "b \<in> cached (block_index en)" for b
  proof -
    have "b \<noteq> e" "block_ok d en b" using that A by (auto simp: engine_ok_def)
    then have "block_ok d (en\<lparr>decode_cache_p := p + length ws\<rparr>) b" using block_ok_grow A by simp
    then show ?thesis using \<open>b \<noteq> e\<close> c(3) by (simp add: block_ok_def)
  qed
  moreover have "block_ok d ?en e"
    unfolding block_ok_def Let_def using A ws c(3)
    by (intro exI[of _ p] exI[of _ ws]) (simp add: bi_def)
  ultimately show "engine_ok d ?en" using c inj A by (simp add: engine_ok_def)
  show "cached c = insert e (cached (block_index en))" "bc_info c = (bc_info (block_index en))(e := bi)"
    using c by simp_all
qed

text \<open>The allocation of the block and the start of the loop.\<close>

lemma predecode_block_start:
  assumes ok: "engine_ok d en" and lg: "\<not> logging (recorder (cpu en))"
  obtains e en1 where "predecoding d e (decode_cache_p en) [] en1" "cpu en1 = cpu en" "execute_depth en1 = execute_depth en"
    "cached (block_index en1) = cached (block_index en)"
    "\<forall>b. b \<noteq> e \<longrightarrow> bc_info (block_index en1) b = bc_info (block_index en) b"
    "bi_pc (bc_info (block_index en1) e) = ucast (pc (core (cpu en)))"
    "predecode_block d entry en =
       (case predecode_loop d e (pc (core (cpu en)) - 4) (decode_cache_p en) en1 of
          None \<Rightarrow> None
        | Some (Inl x) \<Rightarrow> Some (Inl x)
        | Some (Inr (dpc, di, en)) \<Rightarrow> Some (Inr (e, finish_block e entry dpc di en)))"
proof -
  note A = ok[unfolded engine_ok_def]
  obtain e c where n: "new_blockinfo (block_index en) = (e, c)" by force
  have c: "cache_ok c" "cached c = cached (block_index en)" "e \<notin> held_entries (block_index en)"
    "held_entries c = insert e (held_entries (block_index en))" "bc_info c = bc_info (block_index en)"
    using my_block_cache.alloc[OF _ n] A by auto
  define bi where "bi = (block_info_init (ucast (pc (core (cpu en)))) (bc_info c e))\<lparr>bi_di := Some (decode_cache_p en)\<rparr>"
  have e: "e \<notin> cached c" using c my_block_cache.blocks_held A by auto
  have put: "cache_ok (set_blockinfo e bi c) \<and> cached (set_blockinfo e bi c) = cached c \<and>
      held_entries (set_blockinfo e bi c) = held_entries c \<and> bc_info (set_blockinfo e bi c) = (bc_info c)(e := bi)"
    using my_block_cache.put[OF c(1) _ e, of bi] c by simp
  define en1 where "en1 = en\<lparr>block_index := set_blockinfo e bi c\<rparr>"
  have ok1: "engine_ok d en1" unfolding en1_def
    by (rule engine_ok_index[OF ok]) (use put c e in auto)
  show thesis
  proof (rule that[of e en1])
    show "predecoding d e (decode_cache_p en) [] en1"
      using ok1 put c e A lg by (simp add: predecoding_def en1_def bi_def)
    show "predecode_block d entry en =
       (case predecode_loop d e (pc (core (cpu en)) - 4) (decode_cache_p en) en1 of
          None \<Rightarrow> None
        | Some (Inl x) \<Rightarrow> Some (Inl x)
        | Some (Inr (dpc, di, en)) \<Rightarrow> Some (Inr (e, finish_block e entry dpc di en)))"
      unfolding predecode_block_def n by (simp add: Let_def bi_def en1_def)
  qed (use put c in \<open>simp_all add: en1_def bi_def block_info_init_def\<close>)
qed

lemma predecode_block_ok:
  assumes ok: "engine_ok d en" and lg: "\<not> logging (recorder (cpu en))"
    and fresh: "\<forall>b\<in>cached (block_index en). bi_pc (bc_info (block_index en) b) \<noteq> ucast (pc (core (cpu en)))"
    and ws: "words_at (mem (core (cpu en))) (pc (core (cpu en))) ws" "straight d ws"
    and len: "length ws < DECODE_CACHE_MAX_ENTRIES"
  shows "\<exists>e en'. predecode_block d entry en = Some (Inr (e, en')) \<and> engine_ok d en' \<and> e \<in> cached (block_index en') \<and>
    bi_pc (bc_info (block_index en') e) = ucast (pc (core (cpu en))) \<and> predecoded_words en' e = ws \<and> execute_depth en' = execute_depth en \<and>
    (cpu en' = cpu en \<or> cpu en' = set_spcflag SPCFLAG_JIT_EXEC_RETURN (cpu en))"
proof -
  obtain e en1 where
    pre: "predecoding d e (decode_cache_p en) [] en1" "cpu en1 = cpu en" "execute_depth en1 = execute_depth en"
      "cached (block_index en1) = cached (block_index en)"
      "\<forall>b. b \<noteq> e \<longrightarrow> bc_info (block_index en1) b = bc_info (block_index en) b"
      "bi_pc (bc_info (block_index en1) e) = ucast (pc (core (cpu en)))"
    and start: "predecode_block d entry en =
       (case predecode_loop d e (pc (core (cpu en)) - 4) (decode_cache_p en) en1 of
          None \<Rightarrow> None
        | Some (Inl x) \<Rightarrow> Some (Inl x)
        | Some (Inr (dpc, di, en)) \<Rightarrow> Some (Inr (e, finish_block e entry dpc di en)))"
    by (rule predecode_block_start[OF ok lg, of entry])
  have w1: "words_at (mem (core (cpu en1))) (pc (core (cpu en)) - 4 + 4) ws" using ws(1) pre(2) by simp
  obtain p' en2 where loop: "predecode_loop d e (pc (core (cpu en)) - 4) (decode_cache_p en) en1 =
      Some (Inr (pc (core (cpu en)) - 4 + 4 * of_nat (length ws), p' + length ws, en2))"
    "predecoding d e p' ws en2" "predecode_frame e en1 en2"
    by (rule predecode_loop_block[OF pre(1) w1 ws(2) len])
  note F = loop(3)[unfolded predecode_frame_def]
  have pc2: "bi_pc (bc_info (block_index en2) e) = ucast (pc (core (cpu en)))" using F pre(6) by simp
  have di2: "bi_di (bc_info (block_index en2) e) = Some p'" "decode_cache_p en2 = p'" "e \<notin> cached (block_index en2)"
    using loop(2) by (simp_all add: predecoding_def)
  have fresh2: "\<forall>b\<in>cached (block_index en2). bi_pc (bc_info (block_index en2) b) \<noteq> bi_pc (bc_info (block_index en2) e)"
  proof
    fix b assume b: "b \<in> cached (block_index en2)"
    then have "b \<in> cached (block_index en)" "b \<noteq> e" using F pre(4) di2(3) by auto
    then show "bi_pc (bc_info (block_index en2) b) \<noteq> bi_pc (bc_info (block_index en2) e)"
      using fresh pc2 F pre(5) by simp
  qed
  define x where "x = (ucast (pc (core (cpu en)) - 4 + 4 * of_nat (length ws)) :: u64)"
  define bi2 where "bi2 = (bc_info (block_index en2) e)\<lparr>bi_end_pc := x, bi_min_pc := x, bi_max_pc := ucast entry, bi_size := length ws\<rparr>"
  define en3 where "en3 = en2\<lparr>block_index := enter_block e (set_blockinfo e bi2 (block_index en2)), decode_cache_p := p' + length ws\<rparr>"
  note E = enter_predecoded[OF loop(2) ws(2) fresh2, where x = x and y = x and z = "ucast entry", folded bi2_def, folded en3_def]
  have r: "predecode_block d entry en = Some (Inr (e, en3))"
    unfolding start using loop(1) di2(1,2) by (simp add: finish_block_def Let_def en3_def bi2_def x_def)
  have "predecoded_words en3 e = map di_opcode (map (decode_cache en2) [p'..<p' + length ws])"
    using E(3) di2(1) by (simp add: predecoded_words_def Let_def en3_def bi2_def)
  also have "\<dots> = ws" using loop(2) by (simp add: predecoding_def predecoded_def comp_def)
  finally have "predecoded_words en3 e = ws" .
  then show ?thesis
    using r E pc2 F pre(2,3) by (intro exI[of _ e] exI[of _ en3]) (simp add: en3_def bi2_def)
qed

section \<open>Correctness of the engine\<close>

lemma decode_entry:
  assumes "decoder_loaded d" "ii \<in> set (tl full_ii_table)" "ii_matches ii w"
  shows "decode d w = ii"
proof -
  obtain d0 where "ii_table d0 = []" "load_decoder d0 = Some d" using assms(1) by (auto simp: decoder_loaded_def)
  then have "decode d w = search_ii full_ii_table w"
    using load_decoder_inv[of d0] by (auto simp: decoder_inv_def)
  also have "\<dots> = ii" unfolding search_full_table by (rule filter_le_1_last[OF full_table_unique assms(2,3)])
  finally show ?thesis .
qed

lemma exec_return_entry:
  assumes "decoder_loaded d"
  shows "ii_execute (decode d POWERPC_EXEC_RETURN) = pmf_sheep" "straight d [POWERPC_EXEC_RETURN]"
proof -
  have "decode d POWERPC_EXEC_RETURN = instr_info ''sheep'' pmf_sheep ''SHEEP'' D_form 6 0 (CFLOW_JUMP OR CFLOW_TRAP)"
  proof (rule decode_entry[OF assms])
    show "instr_info ''sheep'' pmf_sheep ''SHEEP'' D_form 6 0 (CFLOW_JUMP OR CFLOW_TRAP) \<in> set (tl full_ii_table)"
      unfolding tl_full_ii_table by (simp add: sheep_ii_table_def)
    show "ii_matches (instr_info ''sheep'' pmf_sheep ''SHEEP'' D_form 6 0 (CFLOW_JUMP OR CFLOW_TRAP)) POWERPC_EXEC_RETURN"
      by (simp add: ii_matches_def opcode_fields POWERPC_EXEC_RETURN_def POWERPC_EMUL_OP_def)
  qed
  then show "ii_execute (decode d POWERPC_EXEC_RETURN) = pmf_sheep" "straight d [POWERPC_EXEC_RETURN]"
    by (simp_all add: ends_block_def CFLOW_JUMP_def CFLOW_TRAP_def CFLOW_END_BLOCK_def CFLOW_BRANCH_def)
qed

definition example_engine :: engine where
  "example_engine =
     \<lparr>cpu = exec_return_machine\<lparr>core := (core exec_return_machine)\<lparr>pc := 0x1000\<rparr>\<rparr>,
      block_index = new_block_cache (\<lambda>_. example_block),
      decode_cache = \<lambda>_. \<lparr>di_execute = Record_step, di_opcode = 0\<rparr>, decode_cache_p = 0, execute_depth = 0\<rparr>"

lemma example_engine_ok:
  "engine_ok d example_engine" "cached (block_index example_engine) = {}" "\<not> logging (recorder (cpu example_engine))"
  "quiet_flags (cpu example_engine)" "pc (core (cpu example_engine)) = 0x1000"
  "vm_read_memory_4 (mem (core (cpu example_engine))) 0x1000 = POWERPC_EXEC_RETURN"
  using new_cache_ok[of "\<lambda>_. example_block"]
  by (simp_all add: engine_ok_def example_engine_def DECODE_CACHE_MAX_ENTRIES_def exec_return_machine_def
      example_machine_def quiet_flags_def read_write_4_same)

lemma loaded_decoder: obtains d where "load_decoder empty_decoder = Some d" "decoder_loaded d"
proof -
  have "ii_table empty_decoder = []" by (simp add: empty_decoder_def)
  with load_decoder_inv[of empty_decoder] that show thesis by (auto simp: decoder_loaded_def)
qed

text \<open>
  C11: Predecoding a block that fits the array ends without an overrun, moving the block to the
  start of the array when its end is reached, and enters a block for the program counter whose
  entries are the handlers of the words in memory up to the first instruction that ends a
  block. The invariant of the engine is kept, and the machine is changed by nothing but a
  request to leave the decode cache.
\<close>

theorem predecode_correct:
  assumes "engine_ok d en" and "\<not> logging (recorder (cpu en))"
    and "\<forall>b\<in>cached (block_index en). bi_pc (bc_info (block_index en) b) \<noteq> ucast (pc (core (cpu en)))"
    and "words_at (mem (core (cpu en))) (pc (core (cpu en))) ws" and "straight d ws"
    and "length ws < DECODE_CACHE_MAX_ENTRIES"
  shows "\<exists>e en'. predecode_block d entry en = Some (Inr (e, en')) \<and> engine_ok d en' \<and> e \<in> cached (block_index en') \<and>
    bi_pc (bc_info (block_index en') e) = ucast (pc (core (cpu en))) \<and> predecoded_words en' e = ws \<and>
    (cpu en' = cpu en \<or> cpu en' = set_spcflag SPCFLAG_JIT_EXEC_RETURN (cpu en))"
  using predecode_block_ok[OF assms, of entry] by blast

theorem predecode_correct_witness:
  "\<exists>d e en'. load_decoder empty_decoder = Some d \<and>
     predecode_block d 0x1000 example_engine = Some (Inr (e, en')) \<and> predecoded_words en' e = [POWERPC_EXEC_RETURN]"
proof -
  obtain d where d: "load_decoder empty_decoder = Some d" "decoder_loaded d" by (rule loaded_decoder)
  show ?thesis
    using predecode_correct[OF example_engine_ok(1,3), of "[POWERPC_EXEC_RETURN]" d "0x1000"] d example_engine_ok
      exec_return_entry(2)[OF d(2)]
    by (auto simp: DECODE_CACHE_MAX_ENTRIES_def)
qed

text \<open>
  C40: Without recording, a run of as many words as the array has entries, none of which ends a
  block, makes predecoding write beyond the end of the array.
\<close>

theorem predecode_overruns:
  assumes "engine_ok d en" and "\<not> logging (recorder (cpu en))"
    and "words_at (mem (core (cpu en))) (pc (core (cpu en))) (ws @ [v])"
    and "\<forall>w\<in>set (ws @ [v]). \<not> ends_block d w" and "length (ws @ [v]) = DECODE_CACHE_MAX_ENTRIES"
  shows "predecode_block d entry en = Some (Inl Decode_cache_overrun)"
proof -
  obtain e en1 where pre: "predecoding d e (decode_cache_p en) [] en1" "cpu en1 = cpu en" "execute_depth en1 = execute_depth en"
    and start: "predecode_block d entry en =
       (case predecode_loop d e (pc (core (cpu en)) - 4) (decode_cache_p en) en1 of
          None \<Rightarrow> None
        | Some (Inl x) \<Rightarrow> Some (Inl x)
        | Some (Inr (dpc, di, en)) \<Rightarrow> Some (Inr (e, finish_block e entry dpc di en)))"
    by (rule predecode_block_start[OF assms(1,2), of entry])
  let ?dpc = "pc (core (cpu en)) - 4"
  have w1: "words_at (mem (core (cpu en1))) (?dpc + 4) ws"
    and v: "vm_read_memory_4 (mem (core (cpu en1))) (?dpc + 4 + 4 * of_nat (length ws)) = v"
    using assms(3) pre(2) by (simp_all add: words_at_append)
  obtain p en2 where two: "predecode_loop d e ?dpc (decode_cache_p en) en1 =
      predecode_loop d e (?dpc + 4 * of_nat (length ws)) (p + length ws) en2"
    "predecoding d e p ws en2" "predecode_frame e en1 en2"
    using predecode_loop_prefix[OF pre(1) w1] assms(4,5) by auto
  then have p: "p = 0" using assms(5) by (simp add: predecoding_def)
  let ?en = "en2\<lparr>decode_cache := (decode_cache en2)(p + length ws := predecoded d v)\<rparr>"
  note W = predecode_word_writes[OF two(2), of v] and A = two(2)[unfolded predecoding_def]
  have full: "p + length (ws @ [v]) = decode_cache_end_p" using assms(5) p by (simp add: decode_cache_end_p_def)
  obtain en3 where en3: "move_block e (p + length (ws @ [v])) ?en = Some (length (ws @ [v]), en3)"
    "\<not> logging (recorder (cpu en3))"
  proof -
    have "e \<in> held_entries (block_index ?en)" "e \<notin> cached (block_index ?en)"
      "bi_di (bc_info (block_index ?en) e) = Some p" "\<not> logging (recorder (cpu ?en))"
      using A by simp_all
    then show thesis using move_block_full[OF W(2) _ _ _ full W(3)] that by blast
  qed
  have v2: "vm_read_memory_4 (mem (core (cpu en2))) (?dpc + 4 * of_nat (length ws) + 4) = v"
    using v predecode_frame_mem[OF two(3)] by (simp add: algebra_simps)
  have "predecode_word d x (length (ws @ [v])) en3 = Inl Decode_cache_overrun" for x
    using en3(2) assms(5) by (simp add: predecode_word_def write_decode_info_def)
  then have "predecode_loop d e x (length (ws @ [v])) en3 = Some (Inl Decode_cache_overrun)" for x
    by (subst predecode_loop.simps) (simp add: Let_def)
  moreover have "predecode_loop d e (?dpc + 4 * of_nat (length ws)) (p + length ws) en2 =
      predecode_loop d e (?dpc + 4 * of_nat (length ws) + 4) (length (ws @ [v])) en3"
    using W(1) en3(1) v2 assms(4) by (subst predecode_loop.simps) (simp add: Let_def ends_block_def)
  ultimately show ?thesis unfolding start two(1) by simp
qed

lemma words_at_const: "(\<And>a. vm_read_memory_4 b a = w) \<Longrightarrow> words_at b a (replicate n w)"
  by (induction n arbitrary: a) auto

theorem predecode_overruns_witness:
  "\<exists>d. load_decoder empty_decoder = Some d \<and>
     predecode_block d 0 (example_engine\<lparr>cpu := example_machine\<lparr>core := zero_cpu\<lparr>mem := \<lambda>_. 0x60\<rparr>\<rparr>\<rparr>) =
       Some (Inl Decode_cache_overrun)"
proof -
  obtain d where d: "load_decoder empty_decoder = Some d" "decoder_loaded d" by (rule loaded_decoder)
  let ?en = "example_engine\<lparr>cpu := example_machine\<lparr>core := zero_cpu\<lparr>mem := \<lambda>_. 0x60\<rparr>\<rparr>\<rparr>"
  let ?ori = "instr_info ''ori'' (pmf_generic_arith (OP2 op_or) operand_RA operand_RS operand_UIMM operand_NONE OE_BIT_0 RC_BIT_0)
    ''ORI'' D_form 24 0 CFLOW_NORMAL"
  have "decode d 0x60606060 = ?ori"
  proof (rule decode_entry[OF d(2)])
    show "?ori \<in> set (tl full_ii_table)" unfolding tl_full_ii_table by (simp add: powerpc_ii_table_05_def)
    show "ii_matches ?ori 0x60606060" by (simp add: ii_matches_def opcode_fields)
  qed
  then have e: "\<not> ends_block d 0x60606060" by (simp add: ends_block_def CFLOW_NORMAL_def)
  have r: "vm_read_memory_4 (\<lambda>_. 0x60) a = 0x60606060" for a
    by (simp add: vm_read_memory_4_def vm_do_read_memory_4_def push_bit_eq_mult)
  have ok: "engine_ok d ?en" using example_engine_ok(1)[of d] by (simp add: engine_ok_def block_ok_def)
  have len: "length (replicate 32767 (0x60606060 :: u32) @ [0x60606060]) = DECODE_CACHE_MAX_ENTRIES"
    by (simp add: DECODE_CACHE_MAX_ENTRIES_def)
  have wa: "words_at (mem (core (cpu ?en))) (pc (core (cpu ?en))) (replicate 32767 0x60606060 @ [0x60606060])"
    unfolding words_at_append using words_at_const[of "\<lambda>_. 0x60", OF r] r by simp
  have "predecode_block d 0 ?en = Some (Inl Decode_cache_overrun)"
    by (rule predecode_overruns[OF ok _ wa _ len]) (use e in \<open>auto simp: example_machine_def\<close>)
  with d(1) show ?thesis by blast
qed

lemma fetch_block_ok:
  assumes "engine_ok d en" and "\<not> logging (recorder (cpu en))"
    and "words_at (mem (core (cpu en))) (pc (core (cpu en))) ws" and "straight d ws"
    and "length ws < DECODE_CACHE_MAX_ENTRIES"
  shows "\<exists>e en'. fetch_block d entry en = Some (Inr (e, en')) \<and> engine_ok d en' \<and> e \<in> cached (block_index en') \<and>
    bi_pc (bc_info (block_index en') e) = ucast (pc (core (cpu en))) \<and> execute_depth en' = execute_depth en \<and>
    (if \<exists>b\<in>cached (block_index en). bi_pc (bc_info (block_index en) b) = ucast (pc (core (cpu en)))
     then e \<in> cached (block_index en) \<and> predecoded_words en' e = predecoded_words en e \<and> cpu en' = cpu en
     else predecoded_words en' e = ws \<and>
       (cpu en' = cpu en \<or> cpu en' = set_spcflag SPCFLAG_JIT_EXEC_RETURN (cpu en)))"
proof -
  let ?pc = "ucast (pc (core (cpu en))) :: u64"
  have "cache_ok (block_index en)" using assms(1) by (simp add: engine_ok_def)
  from my_block_cache.lookup[OF this, of ?pc] obtain r c where
    f: "bc_find ?pc (block_index en) = Some (r, c)" "cache_ok c" "cached c = cached (block_index en)"
      "bc_info c = bc_info (block_index en)"
    and hit: "case r of Some e \<Rightarrow> e \<in> cached (block_index en) \<and> bi_pc (bc_info (block_index en) e) = ?pc
       | None \<Rightarrow> \<forall>e\<in>cached (block_index en). bi_pc (bc_info (block_index en) e) \<noteq> ?pc"
    by blast
  let ?en = "en\<lparr>block_index := c\<rparr>"
  have ok: "engine_ok d ?en" by (rule engine_ok_index[OF assms(1) f(2)]) (use f in simp_all)
  show ?thesis
  proof (cases r)
    case (Some e)
    have "predecoded_words ?en e = predecoded_words en e" using f(4) by (simp add: predecoded_words_def)
    with Some show ?thesis
      using f hit ok by (intro exI[of _ e] exI[of _ ?en]) (auto simp: fetch_block_def)
  next
    case None
    have fresh: "\<forall>b\<in>cached (block_index ?en). bi_pc (bc_info (block_index ?en) b) \<noteq> ucast (pc (core (cpu ?en)))"
      using None hit f by simp
    from predecode_block_ok[OF ok _ fresh, of ws entry]
    show ?thesis using assms(2-5) None hit f(1) by (auto simp: fetch_block_def)
  qed
qed

text \<open>
  The execution loop finds or predecodes a block for the program counter. A lookup that
  hits runs no decoder; after a miss the block is decoded from memory.
\<close>

theorem fetch_block_correct:
  assumes "engine_ok d en" and "\<not> logging (recorder (cpu en))"
    and "words_at (mem (core (cpu en))) (pc (core (cpu en))) ws" and "straight d ws"
    and "length ws < DECODE_CACHE_MAX_ENTRIES"
  shows "\<exists>e en'. fetch_block d entry en = Some (Inr (e, en')) \<and> engine_ok d en' \<and> e \<in> cached (block_index en') \<and>
    bi_pc (bc_info (block_index en') e) = ucast (pc (core (cpu en))) \<and>
    (if \<exists>b\<in>cached (block_index en). bi_pc (bc_info (block_index en) b) = ucast (pc (core (cpu en)))
     then e \<in> cached (block_index en) \<and> predecoded_words en' e = predecoded_words en e \<and> cpu en' = cpu en
     else predecoded_words en' e = ws \<and>
       (cpu en' = cpu en \<or> cpu en' = set_spcflag SPCFLAG_JIT_EXEC_RETURN (cpu en)))"
  using fetch_block_ok[OF assms, of entry] by blast

theorem fetch_block_correct_witness:
  "\<exists>d e en'. load_decoder empty_decoder = Some d \<and>
     fetch_block d 0x1000 example_engine = Some (Inr (e, en')) \<and> predecoded_words en' e = [POWERPC_EXEC_RETURN]"
proof -
  obtain d where d: "load_decoder empty_decoder = Some d" "decoder_loaded d" by (rule loaded_decoder)
  show ?thesis
    using fetch_block_correct[OF example_engine_ok(1,3), of "[POWERPC_EXEC_RETURN]" d "0x1000"] d example_engine_ok
      exec_return_entry(2)[OF d(2)]
    by (auto simp: DECODE_CACHE_MAX_ENTRIES_def)
qed

text \<open>
  C23: The unrolled loop calls the entries of a block once each and in order, whatever its size
  is modulo four.
\<close>

theorem unrolled_loop_in_order:
  assumes "bi_di bi = Some p" and "bi_size bi > 0"
  shows "execute_block H bi en = call_entries H (map (decode_cache en) [p..<p + bi_size bi]) en"
  using execute_block_eq[OF assms] .

theorem unrolled_loop_in_order_witness:
  "execute_block quiet_host (example_block\<lparr>bi_di := Some 7, bi_size := 5\<rparr>) example_engine =
     call_entries quiet_host (map (decode_cache example_engine) [7, 8, 9, 10, 11]) example_engine"
proof -
  have "[7..<7 + 5] = [7, 8, 9, 10, 11::nat]" by (simp add: upt_rec)
  then show ?thesis
    using unrolled_loop_in_order[of "example_block\<lparr>bi_di := Some 7, bi_size := 5\<rparr>" 7 quiet_host example_engine] by simp
qed

lemma run_exec_return:
  assumes "decoder_loaded d" "\<not> logging (recorder m)" "quiet_flags m"
  shows "run_words H d [POWERPC_EXEC_RETURN] m = Inr (set_spcflag SPCFLAG_CPU_EXEC_RETURN m)"
    and "flag_check H (set_spcflag SPCFLAG_CPU_EXEC_RETURN m) = (False, m)"
proof -
  show "run_words H d [POWERPC_EXEC_RETURN] m = Inr (set_spcflag SPCFLAG_CPU_EXEC_RETURN m)"
    using assms(2) exec_return_entry(1)[OF assms(1)] by (simp add: run_word_def exec_return_handler set_spcflag_def)
  have "m\<lparr>core := (core m)\<lparr>spcflags := spcflags (core m)\<rparr>\<rparr> = m" by simp
  then show "flag_check H (set_spcflag SPCFLAG_CPU_EXEC_RETURN m) = (False, m)"
    using assms(3)
    by (auto simp: quiet_flags_def flag_check_def check_spcflags_def set_spcflag_def clear_spcflag_def test_spcflag_def
        spcflags_set_def spcflags_clear_def spcflags_test_def spcflags_empty_def
        SPCFLAG_CPU_EXEC_RETURN_def SPCFLAG_JIT_EXEC_RETURN_def)
qed

lemma exec_return_block:
  assumes ok: "engine_ok d en" "e \<in> cached (block_index en)" "predecoded_words en e = [POWERPC_EXEC_RETURN]"
    and m: "decoder_loaded d" "\<not> logging (recorder (cpu en))" "quiet_flags (cpu en)"
  shows "\<exists>ic en'. block_pass H e en = Some (Inr (Return_site, ic, en')) \<and> engine_ok d en' \<and>
    execute_depth en' = execute_depth en \<and> cpu en' = cpu en"
proof -
  note r = run_exec_return[OF m, of H]
  obtain en1 where x: "execute_block H (bc_info (block_index en) e) en = Some (Inr en1)"
    "cpu en1 = set_spcflag SPCFLAG_CPU_EXEC_RETURN (cpu en)" "engine_frame en en1"
    using execute_block_words[OF ok(1,2) m(2), of H] r(1) ok(3) by auto
  show ?thesis using block_pass_frame[OF ok(1) x(3) _ x(1), of False "cpu en"] r(2) x(2) by auto
qed

text \<open>
  C18: A call of \<^verbatim>\<open>execute\<close> from outside at an address that holds the EXEC_RETURN
  instruction predecodes and runs this one instruction and returns: the registers and the
  memory are as before, the program counter is at the instruction, and at most the request to
  leave the decode cache is up in addition.
\<close>

theorem execute_returns:
  assumes "engine_ok d en" and "decoder_loaded d" and "\<not> logging (recorder (cpu en))" and "quiet_flags (cpu en)"
    and "execute_depth en = 0" and "vm_read_memory_4 (mem (core (cpu en))) entry = POWERPC_EXEC_RETURN"
    and "\<forall>b\<in>cached (block_index en). bi_pc (bc_info (block_index en) b) \<noteq> ucast entry"
  shows "\<exists>en'. execute_entry H d entry en = Some (Inr en') \<and> engine_ok d en' \<and> execute_depth en' = execute_depth en \<and>
    (let m = (cpu en)\<lparr>core := (core (cpu en))\<lparr>pc := entry\<rparr>\<rparr>
     in cpu en' = m \<or> cpu en' = set_spcflag SPCFLAG_JIT_EXEC_RETURN m)"
proof -
  define m where "m = (cpu en)\<lparr>core := (core (cpu en))\<lparr>pc := entry\<rparr>\<rparr>"
  define en0 where "en0 = en\<lparr>cpu := m, execute_depth := 1\<rparr>"
  have en0: "engine_ok d en0" "\<not> logging (recorder (cpu en0))" "words_at (mem (core (cpu en0))) (pc (core (cpu en0))) [POWERPC_EXEC_RETURN]"
    "\<forall>b\<in>cached (block_index en0). bi_pc (bc_info (block_index en0) b) \<noteq> ucast (pc (core (cpu en0)))"
    using assms by (simp_all add: en0_def m_def engine_ok_def block_ok_def)
  have "length [POWERPC_EXEC_RETURN] < DECODE_CACHE_MAX_ENTRIES" by (simp add: DECODE_CACHE_MAX_ENTRIES_def)
  from fetch_block_ok[OF en0(1,2,3) exec_return_entry(2)[OF assms(2)] this, of entry]
  obtain e en1 where one: "fetch_block d entry en0 = Some (Inr (e, en1))" "engine_ok d en1" "e \<in> cached (block_index en1)"
    "predecoded_words en1 e = [POWERPC_EXEC_RETURN]" "execute_depth en1 = 1"
    "cpu en1 = m \<or> cpu en1 = set_spcflag SPCFLAG_JIT_EXEC_RETURN m"
    using en0(4) by (auto simp: en0_def)
  have q: "\<not> logging (recorder (cpu en1))" "quiet_flags (cpu en1)"
    using one(6) assms(3,4) by (auto simp: m_def set_spcflag_def quiet_flags_def spcflags_set_def)
  obtain ic en2 where two: "block_pass H e en1 = Some (Inr (Return_site, ic, en2))" "engine_ok d en2"
    "execute_depth en2 = 1" "cpu en2 = cpu en1"
    using exec_return_block[OF one(2-4) assms(2) q, of H] one(5) by auto
  have "execute_blocks H d entry None False en0 = Some (Inr (False, en2))"
    using one(1) two(1) by (subst execute_blocks.simps, simp) (subst execute_blocks.simps, simp)
  then have "execute_entry H d entry en = Some (Inr (en2\<lparr>execute_depth := 0\<rparr>))"
    using assms(5) two(3) by (simp add: execute_entry_def en0_def m_def)
  moreover have "engine_ok d (en2\<lparr>execute_depth := 0\<rparr>)" using two(2) by (simp add: engine_ok_def block_ok_def)
  ultimately show ?thesis using two(4) one(6) assms(5) by (simp add: m_def)
qed

theorem execute_returns_witness:
  "\<exists>d en'. load_decoder empty_decoder = Some d \<and> execute_entry quiet_host d 0x1000 example_engine = Some (Inr en') \<and>
     pc (core (cpu en')) = 0x1000 \<and> execute_depth en' = 0"
proof -
  obtain d where d: "load_decoder empty_decoder = Some d" "decoder_loaded d" by (rule loaded_decoder)
  have "execute_depth example_engine = 0" by (simp add: example_engine_def)
  with execute_returns[OF example_engine_ok(1) d(2) example_engine_ok(3,4) _ example_engine_ok(6), of quiet_host]
  show ?thesis using d(1) example_engine_ok(2) by (fastforce simp: Let_def set_spcflag_def)
qed

text \<open>
  C1: A cached block does what the interpreter loop does on its instructions. When neither
  recording nor ignoring illegal instructions, no special flag but the request to leave the
  decode cache is up, and the words that the block was decoded from are in memory at the
  program counter and stay there while the block runs, one pass of the execution loop aborts exactly when
  as many iterations of the interpreter do, returns exactly when they do, and reaches the
  same machine otherwise, with the request cleared; the block that it continues with starts at
  the program counter.
\<close>

theorem cached_block_interprets:
  assumes "engine_ok d en" "e \<in> cached (block_index en)" "\<not> logging (recorder (cpu en))"
    and "decoder_loaded d" "\<not> ignoreillegal H" "quiet_flags (cpu en)"
    and "\<forall>i<length (predecoded_words en e). \<forall>m.
      run_words H d (take i (predecoded_words en e)) (cpu en) = Inr m \<longrightarrow>
      words_at (mem (core m)) (pc (core (cpu en))) (predecoded_words en e)"
  shows "case interpret_n (length (predecoded_words en e)) H d (cpu en) of
      Inl x \<Rightarrow> block_pass H e en = Some (Inl (Handler_abort x))
    | Inr (go, m) \<Rightarrow>
        \<exists>after ic en'. block_pass H e en = Some (Inr (after, ic, en')) \<and> engine_ok d en' \<and>
          (after = Return_site \<longleftrightarrow> \<not> go) \<and>
          cpu en' = (if go then clear_spcflag SPCFLAG_JIT_EXEC_RETURN m else m) \<and>
          (\<forall>e'. after = Next_block e' \<longrightarrow> bi_pc (bc_info (block_index en') e') = ucast (pc (core m)))"
proof -
  have "block_ok d en e" using assms(1,2) by (simp add: engine_ok_def)
  then have s: "straight d (predecoded_words en e)" by (metis block_ok_words)
  have i: "interpret_n (length (predecoded_words en e)) H d (cpu en) =
      (case run_words H d (predecoded_words en e) (cpu en) of Inl a \<Rightarrow> Inl a | Inr m \<Rightarrow> Inr (flag_check H m))"
    by (rule run_words_interprets[OF s assms(4,5,6)]) (use assms(7) in blast)
  note x = execute_block_words[OF assms(1-3), of H]
  show ?thesis
  proof (cases "run_words H d (predecoded_words en e) (cpu en)")
    case (Inl a)
    then show ?thesis using x unfolding i by (simp add: block_pass_def)
  next
    case (Inr m)
    obtain en1 where en1: "execute_block H (bc_info (block_index en) e) en = Some (Inr en1)" "cpu en1 = m"
      "engine_frame en en1"
      using x Inr by auto
    obtain go m' where c: "flag_check H m = (go, m')" by force
    show ?thesis
      using block_pass_frame[OF assms(1) en1(3) _ en1(1), of go m'] c en1(2) Inr unfolding i by auto
  qed
qed

theorem cached_block_interprets_witness:
  "\<exists>d e en ic en'. load_decoder empty_decoder = Some d \<and> predecode_block d 0x1000 example_engine = Some (Inr (e, en)) \<and>
     block_pass quiet_host e en = Some (Inr (Return_site, ic, en'))"
proof -
  obtain d where d: "load_decoder empty_decoder = Some d" "decoder_loaded d" by (rule loaded_decoder)
  have w: "words_at (mem (core (cpu example_engine))) (pc (core (cpu example_engine))) [POWERPC_EXEC_RETURN]"
    using example_engine_ok(5,6) by simp
  have "length [POWERPC_EXEC_RETURN] < DECODE_CACHE_MAX_ENTRIES" by (simp add: DECODE_CACHE_MAX_ENTRIES_def)
  from predecode_block_ok[OF example_engine_ok(1,3) _ w exec_return_entry(2)[OF d(2)] this, of "0x1000"]
  obtain e en where p: "predecode_block d 0x1000 example_engine = Some (Inr (e, en))" "engine_ok d en"
    "e \<in> cached (block_index en)" "predecoded_words en e = [POWERPC_EXEC_RETURN]"
    "cpu en = cpu example_engine \<or> cpu en = set_spcflag SPCFLAG_JIT_EXEC_RETURN (cpu example_engine)"
    using example_engine_ok(2) by auto
  have q: "\<not> logging (recorder (cpu en))" "quiet_flags (cpu en)" "words_at (mem (core (cpu en))) (pc (core (cpu en))) [POWERPC_EXEC_RETURN]"
    using p(5) example_engine_ok by (auto simp: set_spcflag_def quiet_flags_def spcflags_set_def)
  have h: "\<not> ignoreillegal quiet_host"
    using example_sheep_host_simps by (simp add: quiet_host_def sheep_host.extend_def)
  have i: "interpret_n (length (predecoded_words en e)) quiet_host d (cpu en) = Inr (False, cpu en)"
    using run_exec_return[OF d(2) q(1,2), of quiet_host] q(3) p(4)
    by (auto simp: interpret_step_run_word split: sum.splits)
  have s: "\<forall>i<length (predecoded_words en e). \<forall>m. run_words quiet_host d (take i (predecoded_words en e)) (cpu en) = Inr m \<longrightarrow>
      words_at (mem (core m)) (pc (core (cpu en))) (predecoded_words en e)"
    using p(4) q(3) by simp
  obtain ic en' where "block_pass quiet_host e en = Some (Inr (Return_site, ic, en'))"
    using cached_block_interprets[OF p(2,3) q(1) d(2) h q(2) s] i by auto
  then show ?thesis using d(1) p(1) by blast
qed

end
