(* ===== verification/JIT_Ops.thy ===== *)
theory JIT_Ops
  imports PPC_Flow
begin

unbundle bit_operations_syntax

text \<open>
  The synthetic instructions of the dynamic translator: \<^verbatim>\<open>basic-dyngen-ops.cpp\<close>
  and \<^verbatim>\<open>ppc-dyngen-ops.cpp\<close>, on their portable path (\<^verbatim>\<open>DYNGEN_ASM_OPTS\<close>
  off). An instruction is a function on the state of a processor running translated code:
  the guest registers and memory, the three temporaries \<^verbatim>\<open>T0\<close>, \<^verbatim>\<open>T1\<close>,
  \<^verbatim>\<open>T2\<close> (which the source also uses as the pointers \<^verbatim>\<open>A0\<close>, \<^verbatim>\<open>A1\<close>,
  \<^verbatim>\<open>A2\<close>), the floating-point temporary \<^verbatim>\<open>reg_F3\<close>, and how the code was left. A macro
  instantiated for several registers, register numbers or offsets is one definition with
  these as arguments.
\<close>

section \<open>State of translated code\<close>

datatype temp = T0 | T1 | T2

text \<open>A host register holds a 32-bit value or the address of an object of the processor.\<close>

datatype host_reg = Word u32 | FPR_address nat | Block_address

datatype exit_status = Running | Chain nat | Jump_next | Exec_return

record vcpu =
  jcpu :: powerpc_cpu
  tmp :: "temp \<Rightarrow> host_reg"
  reg_F3 :: u64
  exit :: exit_status

datatype jit_error = Aborted abort_reason | Not_a_word | Not_an_address

type_synonym jresult = "jit_error + vcpu"
type_synonym micro_op = "vcpu \<Rightarrow> jresult"
type_synonym code = "micro_op list"

primrec jbind :: "jresult \<Rightarrow> (vcpu \<Rightarrow> jresult) \<Rightarrow> jresult" where
  "jbind (Inl e) f = Inl e"
| "jbind (Inr s) f = f s"

primrec run :: "code \<Rightarrow> vcpu \<Rightarrow> jresult" where
  "run [] s = Inr s"
| "run (x # xs) s = (if exit s = Running then jbind (x s) (run xs) else Inr s)"

definition get_T :: "temp \<Rightarrow> (u32 \<Rightarrow> micro_op) \<Rightarrow> micro_op" where
  "get_T t f s = (case tmp s t of Word w \<Rightarrow> f w s | _ \<Rightarrow> Inl Not_a_word)"

definition get_F :: "temp \<Rightarrow> (u64 \<Rightarrow> micro_op) \<Rightarrow> micro_op" where
  "get_F t f s = (case tmp s t of FPR_address n \<Rightarrow> f (fpr (jcpu s) n) s | _ \<Rightarrow> Inl Not_an_address)"

definition set_A :: "temp \<Rightarrow> host_reg \<Rightarrow> micro_op" where
  "set_A t v s = Inr (s\<lparr>tmp := (tmp s)(t := v)\<rparr>)"

definition set_T :: "temp \<Rightarrow> u32 \<Rightarrow> micro_op" where
  "set_T t w = set_A t (Word w)"

definition set_FD :: "u64 \<Rightarrow> micro_op" where
  "set_FD w s = Inr (s\<lparr>reg_F3 := w\<rparr>)"

definition with_cpu :: "(powerpc_cpu \<Rightarrow> micro_op) \<Rightarrow> micro_op" where
  "with_cpu f s = f (jcpu s) s"

definition upd_cpu :: "(powerpc_cpu \<Rightarrow> powerpc_cpu) \<Rightarrow> micro_op" where
  "upd_cpu g s = Inr (s\<lparr>jcpu := g (jcpu s)\<rparr>)"

definition upd_T0 :: "(powerpc_cpu \<Rightarrow> u32 \<times> powerpc_cpu) \<Rightarrow> micro_op" where
  "upd_T0 g s = (case g (jcpu s) of (d, c) \<Rightarrow> set_T T0 d (s\<lparr>jcpu := c\<rparr>))"

definition leave :: "exit_status \<Rightarrow> micro_op" where
  "leave x s = Inr (s\<lparr>exit := x\<rparr>)"

section \<open>Register moves and arithmetic\<close>

definition op_mov_32_im :: "temp \<Rightarrow> u32 \<Rightarrow> micro_op" where "op_mov_32_im t v = set_T t v"
definition op_mov_32_0 :: "temp \<Rightarrow> micro_op" where "op_mov_32_0 t = set_T t 0"
definition op_mov_ad_A0_im :: "host_reg \<Rightarrow> micro_op" where "op_mov_ad_A0_im p = set_A T0 p"

definition op_add_32_T0_T1 :: micro_op where "op_add_32_T0_T1 = get_T T0 (\<lambda>a. get_T T1 (\<lambda>b. set_T T0 (a + b)))"
definition op_add_32_T1_T2 :: micro_op where "op_add_32_T1_T2 = get_T T1 (\<lambda>a. get_T T2 (\<lambda>b. set_T T1 (a + b)))"
definition op_add_32_im :: "temp \<Rightarrow> u32 \<Rightarrow> micro_op" where "op_add_32_im t v = get_T t (\<lambda>a. set_T t (a + v))"
definition op_add_32_1 :: "temp \<Rightarrow> micro_op" where "op_add_32_1 t = get_T t (\<lambda>a. set_T t (a + 1))"
definition op_add_32_2 :: "temp \<Rightarrow> micro_op" where "op_add_32_2 t = get_T t (\<lambda>a. set_T t (a + 2))"
definition op_add_32_4 :: "temp \<Rightarrow> micro_op" where "op_add_32_4 t = get_T t (\<lambda>a. set_T t (a + 4))"
definition op_add_32_8 :: "temp \<Rightarrow> micro_op" where "op_add_32_8 t = get_T t (\<lambda>a. set_T t (a + 8))"
definition op_umul_32_T0_T1 :: micro_op where "op_umul_32_T0_T1 = get_T T0 (\<lambda>a. get_T T1 (\<lambda>b. set_T T0 (a * b)))"

section \<open>Logical operations\<close>

definition op_neg_32_T0 :: micro_op where "op_neg_32_T0 = get_T T0 (\<lambda>a. set_T T0 (- a))"
definition op_and_32_T0_T1 :: micro_op where "op_and_32_T0_T1 = get_T T0 (\<lambda>a. get_T T1 (\<lambda>b. set_T T0 (a AND b)))"
definition op_and_32_T0_im :: "u32 \<Rightarrow> micro_op" where "op_and_32_T0_im v = get_T T0 (\<lambda>a. set_T T0 (a AND v))"
definition op_or_32_T0_T1 :: micro_op where "op_or_32_T0_T1 = get_T T0 (\<lambda>a. get_T T1 (\<lambda>b. set_T T0 (a OR b)))"
definition op_or_32_T0_im :: "u32 \<Rightarrow> micro_op" where "op_or_32_T0_im v = get_T T0 (\<lambda>a. set_T T0 (a OR v))"
definition op_xor_32_T0_T1 :: micro_op where "op_xor_32_T0_T1 = get_T T0 (\<lambda>a. get_T T1 (\<lambda>b. set_T T0 (a XOR b)))"
definition op_xor_32_T0_im :: "u32 \<Rightarrow> micro_op" where "op_xor_32_T0_im v = get_T T0 (\<lambda>a. set_T T0 (a XOR v))"
definition op_orc_32_T0_T1 :: micro_op where "op_orc_32_T0_T1 = get_T T0 (\<lambda>a. get_T T1 (\<lambda>b. set_T T0 (a OR NOT b)))"
definition op_andc_32_T0_T1 :: micro_op where "op_andc_32_T0_T1 = get_T T0 (\<lambda>a. get_T T1 (\<lambda>b. set_T T0 (a AND NOT b)))"
definition op_nand_32_T0_T1 :: micro_op where "op_nand_32_T0_T1 = get_T T0 (\<lambda>a. get_T T1 (\<lambda>b. set_T T0 (NOT (a AND b))))"
definition op_nor_32_T0_T1 :: micro_op where "op_nor_32_T0_T1 = get_T T0 (\<lambda>a. get_T T1 (\<lambda>b. set_T T0 (NOT (a OR b))))"
definition op_eqv_32_T0_T1 :: micro_op where "op_eqv_32_T0_T1 = get_T T0 (\<lambda>a. get_T T1 (\<lambda>b. set_T T0 (NOT (a XOR b))))"

section \<open>Shifts and extensions\<close>

definition op_lsl_32_T0_im :: "u32 \<Rightarrow> micro_op" where "op_lsl_32_T0_im n = get_T T0 (\<lambda>a. set_T T0 (push_bit (unat n) a))"
definition op_lsr_32_T0_im :: "u32 \<Rightarrow> micro_op" where "op_lsr_32_T0_im n = get_T T0 (\<lambda>a. set_T T0 (drop_bit (unat n) a))"

definition do_rol_32 :: "u32 \<Rightarrow> u32 \<Rightarrow> u32" where
  "do_rol_32 x y = push_bit (unat y) x OR drop_bit (unat (32 - y)) x"

definition op_rol_32_T0_T1 :: micro_op where "op_rol_32_T0_T1 = get_T T0 (\<lambda>a. get_T T1 (\<lambda>b. set_T T0 (do_rol_32 a b)))"
definition op_rol_32_T0_im :: "u32 \<Rightarrow> micro_op" where "op_rol_32_T0_im n = get_T T0 (\<lambda>a. set_T T0 (do_rol_32 a n))"
definition op_se_16_32_T0 :: micro_op where "op_se_16_32_T0 = get_T T0 (\<lambda>a. set_T T0 (scast (ucast a :: u16)))"
definition op_se_8_32_T0 :: micro_op where "op_se_8_32_T0 = get_T T0 (\<lambda>a. set_T T0 (scast (ucast a :: u8)))"

section \<open>Memory\<close>

text \<open>The address \<^verbatim>\<open>T1 + OFFSET\<close> of the load and store macros.\<close>

datatype mem_offset = Off_0 | Off_im u32 | Off_T2

primrec with_ea :: "mem_offset \<Rightarrow> (u32 \<Rightarrow> micro_op) \<Rightarrow> micro_op" where
  "with_ea Off_0 f = get_T T1 (\<lambda>a. f (a + 0))"
| "with_ea (Off_im d) f = get_T T1 (\<lambda>a. f (a + d))"
| "with_ea Off_T2 f = get_T T1 (\<lambda>a. get_T T2 (\<lambda>b. f (a + b)))"

definition op_load_u8_T0_T1 :: "mem_offset \<Rightarrow> micro_op" where
  "op_load_u8_T0_T1 off = with_ea off (\<lambda>ea. with_cpu (\<lambda>c. set_T T0 (ucast (ucast (vm_read_memory_1 (mem c) ea) :: u8))))"

definition op_load_u16_T0_T1 :: "mem_offset \<Rightarrow> micro_op" where
  "op_load_u16_T0_T1 off = with_ea off (\<lambda>ea. with_cpu (\<lambda>c. set_T T0 (ucast (ucast (vm_read_memory_2 (mem c) ea) :: u16))))"

definition op_load_s16_T0_T1 :: "mem_offset \<Rightarrow> micro_op" where
  "op_load_s16_T0_T1 off = with_ea off (\<lambda>ea. with_cpu (\<lambda>c. set_T T0 (scast (ucast (vm_read_memory_2 (mem c) ea) :: u16))))"

definition op_load_u32_T0_T1 :: "mem_offset \<Rightarrow> micro_op" where
  "op_load_u32_T0_T1 off = with_ea off (\<lambda>ea. with_cpu (\<lambda>c. set_T T0 (vm_read_memory_4 (mem c) ea)))"

definition op_store_8_T0_T1 :: "mem_offset \<Rightarrow> micro_op" where
  "op_store_8_T0_T1 off = with_ea off (\<lambda>ea. get_T T0 (\<lambda>v. upd_cpu (\<lambda>c. c\<lparr>mem := vm_write_memory_1 (mem c) ea v\<rparr>)))"

definition op_store_16_T0_T1 :: "mem_offset \<Rightarrow> micro_op" where
  "op_store_16_T0_T1 off = with_ea off (\<lambda>ea. get_T T0 (\<lambda>v. upd_cpu (\<lambda>c. c\<lparr>mem := vm_write_memory_2 (mem c) ea v\<rparr>)))"

definition op_store_32_T0_T1 :: "mem_offset \<Rightarrow> micro_op" where
  "op_store_32_T0_T1 off = with_ea off (\<lambda>ea. get_T T0 (\<lambda>v. upd_cpu (\<lambda>c. c\<lparr>mem := vm_write_memory_4 (mem c) ea v\<rparr>)))"

definition op_load_double_FD_T1 :: "mem_offset \<Rightarrow> micro_op" where
  "op_load_double_FD_T1 off = with_ea off (\<lambda>ea. with_cpu (\<lambda>c. set_FD (vm_read_memory_8 (mem c) ea)))"

definition op_load_single_FD_T1 :: "'h fpu_host_scheme \<Rightarrow> mem_offset \<Rightarrow> micro_op" where
  "op_load_single_FD_T1 H off =
     with_ea off (\<lambda>ea. with_cpu (\<lambda>c. set_FD (fp_load_single_convert H (vm_read_memory_4 (mem c) ea))))"

definition op_store_double_F0_T1 :: "mem_offset \<Rightarrow> micro_op" where
  "op_store_double_F0_T1 off = with_ea off (\<lambda>ea. get_F T0 (\<lambda>v. upd_cpu (\<lambda>c. c\<lparr>mem := vm_write_memory_8 (mem c) ea v\<rparr>)))"

definition op_store_single_F0_T1 :: "'h fpu_host_scheme \<Rightarrow> mem_offset \<Rightarrow> micro_op" where
  "op_store_single_F0_T1 H off =
     with_ea off (\<lambda>ea. get_F T0 (\<lambda>v. upd_cpu (\<lambda>c. c\<lparr>mem := vm_write_memory_4 (mem c) ea
       (fp_store_single_convert H (host_round c) v)\<rparr>)))"

definition op_lwarx_T0_T1 :: micro_op where
  "op_lwarx_T0_T1 = get_T T1 (\<lambda>ea. upd_T0 (\<lambda>c.
     (vm_read_memory_4 (mem c) ea, c\<lparr>reserve_valid := 1, reserve_addr := ea\<rparr>)))"

definition do_stwcx :: "u32 \<Rightarrow> u32 \<Rightarrow> powerpc_cpu \<Rightarrow> powerpc_cpu" where
  "do_stwcx v ea c =
     (let x = cr c AND NOT (field_mask (CR_field 0));
          x = x OR push_bit 28 (ucast (xer_so (xer c)));
          (x, c) = (if reserve_valid c \<noteq> 0
                    then (let c = c\<lparr>reserve_valid := 0\<rparr>
                          in if reserve_addr c = ea
                             then (x OR field_mask (CR_EQ_field 0),
                                   c\<lparr>mem := vm_write_memory_4 (mem c) ea v\<rparr>)
                             else (x, c))
                    else (x, c))
      in c\<lparr>cr := x\<rparr>)"

definition op_stwcx_T0_T1 :: micro_op where
  "op_stwcx_T0_T1 = get_T T0 (\<lambda>v. get_T T1 (\<lambda>ea. upd_cpu (do_stwcx v ea)))"

definition op_dcbz_T0 :: micro_op where
  "op_dcbz_T0 = get_T T0 (\<lambda>a. (\<lambda>s. jbind (set_T T0 (a AND - 32) s)
     (upd_cpu (\<lambda>c. c\<lparr>mem := vm_memset (mem c) (a AND - 32) 0 32\<rparr>))))"

text \<open>
  The unrolled \<^verbatim>\<open>do_lmw<N>\<close>, \<^verbatim>\<open>do_stmw<N>\<close> for the registers from 26 and the loop of
  \<^verbatim>\<open>do_lmw<32>\<close>, \<^verbatim>\<open>do_stmw<32>\<close> for the others.
\<close>

function do_lmw :: "nat \<Rightarrow> u32 \<Rightarrow> powerpc_cpu \<Rightarrow> u32 \<times> powerpc_cpu" where
  "do_lmw n ad c =
     (let c = set_gpr n (vm_read_memory_4 (mem c) ad) c
      in if n < 31 then do_lmw (n + 1) (ad + 4) c else (ad, c))"
  by pat_completeness auto
termination by (relation "measure (\<lambda>(n, ad, c). 32 - n)") auto

function do_stmw :: "nat \<Rightarrow> u32 \<Rightarrow> powerpc_cpu \<Rightarrow> u32 \<times> powerpc_cpu" where
  "do_stmw n ad c =
     (let c = c\<lparr>mem := vm_write_memory_4 (mem c) ad (gpr c n)\<rparr>
      in if n < 31 then do_stmw (n + 1) (ad + 4) c else (ad, c))"
  by pat_completeness auto
termination by (relation "measure (\<lambda>(n, ad, c). 32 - n)") auto

function do_lmw_32 :: "nat \<Rightarrow> u32 \<Rightarrow> powerpc_cpu \<Rightarrow> powerpc_cpu" where
  "do_lmw_32 r ad c =
     (if r \<le> 31 then do_lmw_32 (r + 1) (ad + 4) (set_gpr r (vm_read_memory_4 (mem c) ad) c) else c)"
  by pat_completeness auto
termination by (relation "measure (\<lambda>(r, ad, c). 32 - r)") auto

function do_stmw_32 :: "nat \<Rightarrow> u32 \<Rightarrow> powerpc_cpu \<Rightarrow> powerpc_cpu" where
  "do_stmw_32 r ad c =
     (if r \<le> 31 then do_stmw_32 (r + 1) (ad + 4) (c\<lparr>mem := vm_write_memory_4 (mem c) ad (gpr c r)\<rparr>) else c)"
  by pat_completeness auto
termination by (relation "measure (\<lambda>(r, ad, c). 32 - r)") auto

declare do_lmw.simps [simp del] do_stmw.simps [simp del] do_lmw_32.simps [simp del] do_stmw_32.simps [simp del]

definition op_lmw_T0 :: "nat \<Rightarrow> micro_op" where "op_lmw_T0 n = get_T T0 (\<lambda>ad. upd_T0 (do_lmw n ad))"
definition op_lmw_T0_im :: "nat \<Rightarrow> micro_op" where "op_lmw_T0_im r = get_T T0 (\<lambda>ad. upd_cpu (do_lmw_32 r ad))"
definition op_stmw_T0 :: "nat \<Rightarrow> micro_op" where "op_stmw_T0 n = get_T T0 (\<lambda>ad. upd_T0 (do_stmw n ad))"
definition op_stmw_T0_im :: "nat \<Rightarrow> micro_op" where "op_stmw_T0_im r = get_T T0 (\<lambda>ad. upd_cpu (do_stmw_32 r ad))"

section \<open>General and floating-point registers\<close>

definition op_load_GPR :: "temp \<Rightarrow> nat \<Rightarrow> micro_op" where "op_load_GPR t n = with_cpu (\<lambda>c. set_T t (gpr c n))"
definition op_store_GPR :: "temp \<Rightarrow> nat \<Rightarrow> micro_op" where "op_store_GPR t n = get_T t (\<lambda>v. upd_cpu (set_gpr n v))"
definition op_load_FPR :: "temp \<Rightarrow> nat \<Rightarrow> micro_op" where "op_load_FPR t n = set_A t (FPR_address n)"
definition op_store_FD_FPR :: "nat \<Rightarrow> micro_op" where "op_store_FD_FPR n s = upd_cpu (set_fpr n (reg_F3 s)) s"

section \<open>Condition register\<close>

definition op_load_T0_CR :: micro_op where "op_load_T0_CR = with_cpu (\<lambda>c. set_T T0 (cr c))"

definition op_load_crb :: "temp \<Rightarrow> nat \<Rightarrow> micro_op" where
  "op_load_crb t n = with_cpu (\<lambda>c. set_T t (drop_bit (31 - n) (cr c) AND 1))"

definition op_store_T0_crb :: "nat \<Rightarrow> micro_op" where
  "op_store_T0_crb n = get_T T0 (\<lambda>v. upd_cpu (\<lambda>c.
     c\<lparr>cr := (cr c AND NOT (push_bit (31 - n) 1)) OR push_bit (31 - n) (v AND 1)\<rparr>))"

definition op_load_T0_crf :: "nat \<Rightarrow> micro_op" where
  "op_load_T0_crf n = with_cpu (\<lambda>c. set_T T0 (cr_get_field (cr c) n))"

definition op_store_T0_crf :: "nat \<Rightarrow> micro_op" where
  "op_store_T0_crf n = get_T T0 (\<lambda>v. upd_cpu (\<lambda>c. c\<lparr>cr := cr_set_field (cr c) n v\<rparr>))"

definition op_mtcrf_T0_im :: "u32 \<Rightarrow> micro_op" where
  "op_mtcrf_T0_im m = get_T T0 (\<lambda>v. upd_cpu (\<lambda>c. c\<lparr>cr := (cr c AND NOT m) OR (v AND m)\<rparr>))"

section \<open>Floating point\<close>

definition op_fmov_FD_F0 :: micro_op where "op_fmov_FD_F0 = get_F T0 set_FD"
definition op_fabs_FD_F0 :: micro_op where "op_fabs_FD_F0 = get_F T0 (\<lambda>x. set_FD (fabs_bits x))"
definition op_fneg_FD_F0 :: micro_op where "op_fneg_FD_F0 = get_F T0 (\<lambda>x. set_FD (fneg_bits x))"
definition op_fnabs_FD_F0 :: micro_op where "op_fnabs_FD_F0 = get_F T0 (\<lambda>x. set_FD (fneg_bits (fabs_bits x)))"

primrec do_fop2 :: "'h fpu_host_scheme \<Rightarrow> fe_round \<Rightarrow> fp_op2 \<Rightarrow> u64 \<Rightarrow> u64 \<Rightarrow> u64" where
  "do_fop2 H r op_fadd x y = f64_add H r x y"
| "do_fop2 H r op_fsub x y = f64_sub H r x y"
| "do_fop2 H r op_fmul x y = f64_mul H r x y"
| "do_fop2 H r op_fdiv x y = f64_div H r x y"

datatype fp_macc = do_fmadd | do_fmsub | do_fnmadd | do_fnmsub

primrec do_fop3 :: "'h fpu_host_scheme \<Rightarrow> fe_round \<Rightarrow> fp_macc \<Rightarrow> u64 \<Rightarrow> u64 \<Rightarrow> u64 \<Rightarrow> u64" where
  "do_fop3 H r do_fmadd x y z = f64_add H r (f64_mul H r x y) z"
| "do_fop3 H r do_fmsub x y z = f64_sub H r (f64_mul H r x y) z"
| "do_fop3 H r do_fnmadd x y z = fneg_bits (f64_add H r (f64_mul H r x y) z)"
| "do_fop3 H r do_fnmsub x y z = fneg_bits (f64_sub H r (f64_mul H r x y) z)"

definition op_fop_FD_F0_F1 :: "'h fpu_host_scheme \<Rightarrow> fp_op2 \<Rightarrow> micro_op" where
  "op_fop_FD_F0_F1 H f = get_F T0 (\<lambda>x. get_F T1 (\<lambda>y. with_cpu (\<lambda>c. set_FD (do_fop2 H (host_round c) f x y))))"

definition op_fops_FD_F0_F1 :: "'h fpu_host_scheme \<Rightarrow> fp_op2 \<Rightarrow> micro_op" where
  "op_fops_FD_F0_F1 H f = get_F T0 (\<lambda>x. get_F T1 (\<lambda>y. with_cpu (\<lambda>c.
     set_FD (f32_to_f64 H (f64_to_f32 H (host_round c) (do_fop2 H (host_round c) f x y))))))"

definition op_fop_FD_F0_F1_F2 :: "'h fpu_host_scheme \<Rightarrow> fp_macc \<Rightarrow> micro_op" where
  "op_fop_FD_F0_F1_F2 H f = get_F T0 (\<lambda>x. get_F T1 (\<lambda>y. get_F T2 (\<lambda>z. with_cpu (\<lambda>c.
     set_FD (do_fop3 H (host_round c) f x y z)))))"

definition op_fops_FD_F0_F1_F2 :: "'h fpu_host_scheme \<Rightarrow> fp_macc \<Rightarrow> micro_op" where
  "op_fops_FD_F0_F1_F2 H f = get_F T0 (\<lambda>x. get_F T1 (\<lambda>y. get_F T2 (\<lambda>z. with_cpu (\<lambda>c.
     set_FD (f32_to_f64 H (f64_to_f32 H (host_round c) (do_fop3 H (host_round c) f x y z)))))))"

section \<open>Special-purpose registers\<close>

definition op_load_T0_VRSAVE :: micro_op where "op_load_T0_VRSAVE = with_cpu (\<lambda>c. set_T T0 (vrsave c))"
definition op_store_T0_VRSAVE :: micro_op where "op_store_T0_VRSAVE = get_T T0 (\<lambda>v. upd_cpu (\<lambda>c. c\<lparr>vrsave := v\<rparr>))"
definition op_load_T0_XER :: micro_op where "op_load_T0_XER = with_cpu (\<lambda>c. set_T T0 (xer_get (xer c)))"
definition op_store_T0_XER :: micro_op where "op_store_T0_XER = get_T T0 (\<lambda>v. upd_cpu (\<lambda>c. c\<lparr>xer := xer_set v (xer c)\<rparr>))"
definition op_set_PC_im :: "u32 \<Rightarrow> micro_op" where "op_set_PC_im v = upd_cpu (\<lambda>c. c\<lparr>pc := v\<rparr>)"
definition op_load_T0_LR :: micro_op where "op_load_T0_LR = with_cpu (\<lambda>c. set_T T0 (lr c))"
definition op_store_T0_LR :: micro_op where "op_store_T0_LR = get_T T0 (\<lambda>v. upd_cpu (\<lambda>c. c\<lparr>lr := v\<rparr>))"
definition op_load_T0_CTR :: micro_op where "op_load_T0_CTR = with_cpu (\<lambda>c. set_T T0 (ctr c))"
definition op_store_T0_CTR :: micro_op where "op_store_T0_CTR = get_T T0 (\<lambda>v. upd_cpu (\<lambda>c. c\<lparr>ctr := v\<rparr>))"
definition op_store_im_LR :: "u32 \<Rightarrow> micro_op" where "op_store_im_LR v = upd_cpu (\<lambda>c. c\<lparr>lr := v\<rparr>)"
definition op_load_T0_CTR_aligned :: micro_op where "op_load_T0_CTR_aligned = with_cpu (\<lambda>c. set_T T0 (ctr c AND - 4))"
definition op_load_T0_LR_aligned :: micro_op where "op_load_T0_LR_aligned = with_cpu (\<lambda>c. set_T T0 (lr c AND - 4))"

section \<open>Branches\<close>

definition with_cond_ok :: "u32 \<Rightarrow> (bool \<Rightarrow> micro_op) \<Rightarrow> micro_op" where
  "with_cond_ok bo f =
     (if BO_CONDITIONAL_BRANCH bo
      then get_T T1 (\<lambda>t. f (if BO_BRANCH_IF_TRUE bo then t \<noteq> 0 else t = 0))
      else f True)"

definition do_prep_branch_bo :: "u32 \<Rightarrow> micro_op" where
  "do_prep_branch_bo bo =
     with_cond_ok bo (\<lambda>cond_ok.
       if BO_DECREMENT_CTR bo
       then with_cpu (\<lambda>c. let t2 = ctr c - 1;
                              ctr_ok = (if BO_BRANCH_IF_CTR_ZERO bo then t2 = 0 else t2 \<noteq> 0)
             in (\<lambda>s. jbind (set_T T2 t2 s) (\<lambda>s. jbind (upd_cpu (\<lambda>c. c\<lparr>ctr := t2\<rparr>) s)
                       (set_T T1 (of_flag (ctr_ok \<and> cond_ok))))))
       else set_T T1 (of_flag cond_ok))"

definition BO_bits :: "bool \<Rightarrow> bool \<Rightarrow> bool \<Rightarrow> bool \<Rightarrow> u32" where
  "BO_bits a b c d = (if a then 16 else 0) OR (if b then 8 else 0) OR (if c then 4 else 0) OR (if d then 2 else 0)"

definition op_branch_chain_1 :: micro_op where "op_branch_chain_1 = leave (Chain 0)"
definition op_branch_chain_2 :: micro_op where
  "op_branch_chain_2 = get_T T1 (\<lambda>t. leave (if t \<noteq> 0 then Chain 0 else Chain 1))"

definition do_execute_branch_1 :: "u32 \<Rightarrow> micro_op" where
  "do_execute_branch_1 tpc = upd_cpu (\<lambda>c. c\<lparr>pc := tpc\<rparr>)"

definition do_execute_branch_2 :: "u32 \<Rightarrow> u32 \<Rightarrow> micro_op" where
  "do_execute_branch_2 tpc npc = get_T T1 (\<lambda>t. upd_cpu (\<lambda>c. c\<lparr>pc := if t \<noteq> 0 then tpc else npc\<rparr>))"

definition op_branch_1_T0 :: micro_op where "op_branch_1_T0 = get_T T0 do_execute_branch_1"
definition op_branch_1_im :: "u32 \<Rightarrow> micro_op" where "op_branch_1_im v = do_execute_branch_1 v"
definition op_branch_2_T0_im :: "u32 \<Rightarrow> micro_op" where "op_branch_2_T0_im npc = get_T T0 (\<lambda>t. do_execute_branch_2 t npc)"
definition op_branch_2_im_im :: "u32 \<Rightarrow> u32 \<Rightarrow> micro_op" where "op_branch_2_im_im tpc npc = do_execute_branch_2 tpc npc"

text \<open>
  The lookup of the next block: \<open>found\<close> tells for which addresses \<^verbatim>\<open>find_block\<close> has a
  block, \<open>bpc\<close> is the entry of the block that runs.
\<close>

definition op_jump_next_A0 :: "(u32 \<Rightarrow> bool) \<Rightarrow> u32 \<Rightarrow> micro_op" where
  "op_jump_next_A0 found bpc s =
     (case tmp s T0 of
        Block_address \<Rightarrow> if pc (jcpu s) = bpc \<or> found (pc (jcpu s)) then leave Jump_next s else Inr s
      | _ \<Rightarrow> Inl Not_an_address)"

definition op_exec_return :: micro_op where "op_exec_return = leave Exec_return"

section \<open>Compare and record\<close>

definition do_record_cr0 :: "u32 \<Rightarrow> powerpc_cpu \<Rightarrow> powerpc_cpu" where
  "do_record_cr0 v c =
     (let x = cr c AND NOT (field_mask (CR_field 0));
          x = x OR push_bit 28 (ucast (xer_so (xer c)));
          x = (if sint v < 0 then x OR field_mask (CR_LT_field 0)
               else if sint v > 0 then x OR field_mask (CR_GT_field 0)
               else x OR field_mask (CR_EQ_field 0))
      in c\<lparr>cr := x\<rparr>)"

definition op_record_cr0_T0 :: micro_op where "op_record_cr0_T0 = get_T T0 (\<lambda>v. upd_cpu (do_record_cr0 v))"

definition op_record_cr1 :: micro_op where
  "op_record_cr1 = upd_cpu (\<lambda>c.
     c\<lparr>cr := (cr c AND NOT (field_mask (CR_field 1))) OR (drop_bit 4 (fpscr c) AND 0x0f000000)\<rparr>)"

definition compare_code :: "compare_type \<Rightarrow> u32 \<Rightarrow> u32 \<Rightarrow> powerpc_cpu \<Rightarrow> u32" where
  "compare_code CT a b c =
     (let SO = ucast (xer_so (xer c))
      in if ct_value CT a < ct_value CT b then SO OR field_mask standalone_CR_LT_field
         else if ct_value CT a > ct_value CT b then SO OR field_mask standalone_CR_GT_field
         else SO OR field_mask standalone_CR_EQ_field)"

definition op_compare_T0_T1 :: micro_op where
  "op_compare_T0_T1 = get_T T0 (\<lambda>a. get_T T1 (\<lambda>b. with_cpu (\<lambda>c. set_T T0 (compare_code CT_int32 a b c))))"
definition op_compare_T0_im :: "u32 \<Rightarrow> micro_op" where
  "op_compare_T0_im b = get_T T0 (\<lambda>a. with_cpu (\<lambda>c. set_T T0 (compare_code CT_int32 a b c)))"
definition op_compare_T0_0 :: micro_op where
  "op_compare_T0_0 = get_T T0 (\<lambda>a. with_cpu (\<lambda>c. set_T T0 (compare_code CT_int32 a 0 c)))"
definition op_compare_logical_T0_T1 :: micro_op where
  "op_compare_logical_T0_T1 = get_T T0 (\<lambda>a. get_T T1 (\<lambda>b. with_cpu (\<lambda>c. set_T T0 (compare_code CT_uint32 a b c))))"
definition op_compare_logical_T0_im :: "u32 \<Rightarrow> micro_op" where
  "op_compare_logical_T0_im b = get_T T0 (\<lambda>a. with_cpu (\<lambda>c. set_T T0 (compare_code CT_uint32 a b c)))"
definition op_compare_logical_T0_0 :: micro_op where
  "op_compare_logical_T0_0 = get_T T0 (\<lambda>a. with_cpu (\<lambda>c. set_T T0 (compare_code CT_uint32 a 0 c)))"

section \<open>Multiplication, division, shifts\<close>

definition op_div_T0_T1 :: "bool \<Rightarrow> bool \<Rightarrow> micro_op" where
  "op_div_T0_T1 SB OE = get_T T0 (\<lambda>a. get_T T1 (\<lambda>b. upd_T0 (do_execute_divide SB OE a b)))"

definition op_mulhw_T0_T1 :: micro_op where
  "op_mulhw_T0_T1 = get_T T0 (\<lambda>a. get_T T1 (\<lambda>b.
     set_T T0 (ucast (signed_drop_bit 32 ((scast a :: u64) * scast b)))))"
definition op_mulhwu_T0_T1 :: micro_op where
  "op_mulhwu_T0_T1 = get_T T0 (\<lambda>a. get_T T1 (\<lambda>b.
     set_T T0 (ucast (drop_bit 32 ((ucast a :: u64) * ucast b)))))"
definition op_mulli_T0_im :: "u32 \<Rightarrow> micro_op" where
  "op_mulli_T0_im v = get_T T0 (\<lambda>a. set_T T0 (word_of_int (sint a * sint v)))"
definition op_mullwo_T0_T1 :: micro_op where
  "op_mullwo_T0_T1 = get_T T0 (\<lambda>a. get_T T1 (\<lambda>b. upd_T0 (\<lambda>c.
     let RD = (scast a :: u64) * scast b
     in (ucast RD, update_xer (xer_set_ov (scast (ucast RD :: u32) \<noteq> RD)) c))))"

definition op_slw_T0_T1 :: micro_op where
  "op_slw_T0_T1 = get_T T1 (\<lambda>n. get_T T0 (\<lambda>a. \<lambda>s. jbind (set_T T1 (n AND 0x3f) s)
     (set_T T0 (if n AND 0x3f AND 0x20 \<noteq> 0 then 0 else push_bit (unat (n AND 0x3f)) a))))"
definition op_srw_T0_T1 :: micro_op where
  "op_srw_T0_T1 = get_T T1 (\<lambda>n. get_T T0 (\<lambda>a. \<lambda>s. jbind (set_T T1 (n AND 0x3f) s)
     (set_T T0 (if n AND 0x3f AND 0x20 \<noteq> 0 then 0 else drop_bit (unat (n AND 0x3f)) a))))"

definition do_sraw :: "u32 \<Rightarrow> u32 \<Rightarrow> powerpc_cpu \<Rightarrow> u32 \<times> powerpc_cpu" where
  "do_sraw a n c =
     (let RD = signed_drop_bit (unat n) a;
          CA = (sint a < 0 \<and> a AND NOT (push_bit (unat n) 0xffffffff) \<noteq> 0)
      in (RD, update_xer (xer_set_ca CA) c))"

definition op_sraw_T0_T1 :: micro_op where
  "op_sraw_T0_T1 = get_T T1 (\<lambda>n. get_T T0 (\<lambda>a. \<lambda>s. jbind (set_T T1 (n AND 0x3f) s)
     (upd_T0 (\<lambda>c. if n AND 0x3f AND 0x20 \<noteq> 0
                  then (let SB = drop_bit 31 a in (- SB, update_xer (xer_set_ca (SB \<noteq> 0)) c))
                  else do_sraw a (n AND 0x3f) c))))"
definition op_sraw_T0_im :: "u32 \<Rightarrow> micro_op" where
  "op_sraw_T0_im n = get_T T0 (\<lambda>a. upd_T0 (do_sraw a n))"

definition op_rlwimi_T0_T1 :: "u32 \<Rightarrow> u32 \<Rightarrow> micro_op" where
  "op_rlwimi_T0_T1 n m = get_T T0 (\<lambda>a. get_T T1 (\<lambda>b. set_T T0 (op_ppc_rlwimi_apply b n m a)))"
definition op_rlwinm_T0_T1 :: "u32 \<Rightarrow> u32 \<Rightarrow> micro_op" where
  "op_rlwinm_T0_T1 n m = get_T T0 (\<lambda>a. set_T T0 (op_rotl_apply a n AND m))"
definition op_rlwnm_T0_T1 :: "u32 \<Rightarrow> micro_op" where
  "op_rlwnm_T0_T1 m = get_T T0 (\<lambda>a. get_T T1 (\<lambda>b. set_T T0 (op_rotl_apply a b AND m)))"

function cntlzw_32_loop :: "u32 \<Rightarrow> nat \<Rightarrow> u32 \<Rightarrow> nat" where
  "cntlzw_32_loop x n m =
     (if n < 32 then if x AND m \<noteq> 0 then n else cntlzw_32_loop x (n + 1) (drop_bit 1 m) else n)"
  by pat_completeness auto
termination by (relation "measure (\<lambda>(x, n, m). 32 - n)") auto

declare cntlzw_32_loop.simps [simp del]

definition op_cntlzw_32_T0 :: micro_op where
  "op_cntlzw_32_T0 = get_T T0 (\<lambda>a. set_T T0 (of_nat (cntlzw_32_loop a 0 0x80000000)))"

section \<open>Addition and subtraction\<close>

text \<open>
  One definition for the instances of the helper templates: \<open>op_add\<close> for
  \<^verbatim>\<open>op_addo_T0_T1\<close>, \<^verbatim>\<open>op_addc_T0_T1\<close>, \<^verbatim>\<open>op_addco_T0_T1\<close>, \<^verbatim>\<open>op_adde_T0_T1\<close> and
  \<^verbatim>\<open>op_addeo_T0_T1\<close>, the \<open>im\<close> forms for those whose second operand is a constant.
\<close>

definition op_add_T0_T1 :: "bool \<Rightarrow> bool \<Rightarrow> bool \<Rightarrow> micro_op" where
  "op_add_T0_T1 ext CA OE = get_T T0 (\<lambda>a. get_T T1 (\<lambda>b. upd_T0 (do_execute_addition ext CA OE a b)))"
definition op_addc_T0_im :: "u32 \<Rightarrow> micro_op" where
  "op_addc_T0_im v = get_T T0 (\<lambda>a. upd_T0 (do_execute_addition False True False a v))"
definition op_addme_T0 :: "bool \<Rightarrow> micro_op" where
  "op_addme_T0 OE = get_T T0 (\<lambda>a. upd_T0 (do_execute_addition True False OE a 0xffffffff))"
definition op_addze_T0 :: "bool \<Rightarrow> micro_op" where
  "op_addze_T0 OE = get_T T0 (\<lambda>a. upd_T0 (do_execute_addition True False OE a 0))"
definition op_subf_T0_T1 :: micro_op where
  "op_subf_T0_T1 = get_T T0 (\<lambda>a. get_T T1 (\<lambda>b. set_T T0 (b - a)))"
definition op_sub_T0_T1 :: "bool \<Rightarrow> bool \<Rightarrow> micro_op" where
  "op_sub_T0_T1 CA OE = get_T T0 (\<lambda>a. get_T T1 (\<lambda>b. upd_T0 (do_execute_subtract CA OE a b)))"
definition op_subfc_T0_im :: "u32 \<Rightarrow> micro_op" where
  "op_subfc_T0_im v = get_T T0 (\<lambda>a. upd_T0 (do_execute_subtract True False a v))"
definition op_subfe_T0_T1 :: "bool \<Rightarrow> micro_op" where
  "op_subfe_T0_T1 OE = get_T T0 (\<lambda>a. get_T T1 (\<lambda>b. upd_T0 (do_execute_subtract_extended OE a b)))"
definition op_subfme_T0 :: "bool \<Rightarrow> micro_op" where
  "op_subfme_T0 OE = get_T T0 (\<lambda>a. upd_T0 (do_execute_subtract_extended OE a 0xffffffff))"
definition op_subfze_T0 :: "bool \<Rightarrow> micro_op" where
  "op_subfze_T0 OE = get_T T0 (\<lambda>a. upd_T0 (do_execute_subtract_extended OE a 0))"
definition op_nego_T0 :: micro_op where
  "op_nego_T0 = get_T T0 (\<lambda>a. upd_T0 (\<lambda>c. (- a, update_xer (xer_set_ov (a = 0x80000000)) c)))"

section \<open>Calls\<close>

primrec of_result :: "result \<Rightarrow> vcpu \<Rightarrow> jresult" where
  "of_result (Inl e) s = Inl (Aborted e)"
| "of_result (Inr c) s = Inr (s\<lparr>jcpu := c\<rparr>)"

definition op_invoke_CPU :: "(powerpc_cpu \<Rightarrow> powerpc_cpu) \<Rightarrow> micro_op" where
  "op_invoke_CPU f = upd_cpu f"

definition op_invoke_CPU_im :: "(u32 \<Rightarrow> powerpc_cpu \<Rightarrow> result) \<Rightarrow> u32 \<Rightarrow> micro_op" where
  "op_invoke_CPU_im f v s = of_result (f v (jcpu s)) s"

end
