(* ===== verification/JIT_Translate.thy ===== *)
theory JIT_Translate
  imports JIT_Ops
begin

unbundle bit_operations_syntax

text \<open>
  The code generators of \<^verbatim>\<open>basic-dyngen.hpp\<close> and \<^verbatim>\<open>ppc-dyngen.cpp\<close> and the instruction
  switch of \<^verbatim>\<open>powerpc_cpu::compile_block\<close> (\<^verbatim>\<open>ppc-translate.cpp\<close>). A generator returns
  the synthetic instructions it appends to the block; a case of the switch is a constructor
  of \<open>jit_case\<close>, its arguments the fields of \<^verbatim>\<open>op.mem\<close> or the mnemonic the case tests
  again. Register numbers are extracted from fields of five bits, so that the
  \<^verbatim>\<open>abort()\<close> of the register generators is never reached.
\<close>

section \<open>Generators\<close>

definition gen_load_GPR :: "temp \<Rightarrow> nat \<Rightarrow> code" where "gen_load_GPR t i = [op_load_GPR t i]"
definition gen_store_GPR :: "temp \<Rightarrow> nat \<Rightarrow> code" where "gen_store_GPR t i = [op_store_GPR t i]"
definition gen_load_FPR :: "temp \<Rightarrow> nat \<Rightarrow> code" where "gen_load_FPR t i = [op_load_FPR t i]"
definition gen_store_FD_FPR :: "nat \<Rightarrow> code" where "gen_store_FD_FPR i = [op_store_FD_FPR i]"
definition gen_load_crb :: "temp \<Rightarrow> nat \<Rightarrow> code" where "gen_load_crb t i = [op_load_crb t i]"
definition gen_store_T0_crb :: "nat \<Rightarrow> code" where "gen_store_T0_crb i = [op_store_T0_crb i]"
definition gen_load_T0_crf :: "nat \<Rightarrow> code" where "gen_load_T0_crf i = [op_load_T0_crf i]"
definition gen_store_T0_crf :: "nat \<Rightarrow> code" where "gen_store_T0_crf i = [op_store_T0_crf i]"

definition gen_mov_32_im :: "temp \<Rightarrow> u32 \<Rightarrow> code" where
  "gen_mov_32_im t v = (if v = 0 then [op_mov_32_0 t] else [op_mov_32_im t v])"

definition gen_add_32_im :: "temp \<Rightarrow> u32 \<Rightarrow> code" where
  "gen_add_32_im t v =
     (if v = 0 then [] else if v = 1 then [op_add_32_1 t] else if v = 2 then [op_add_32_2 t]
      else if v = 4 then [op_add_32_4 t] else if v = 8 then [op_add_32_8 t] else [op_add_32_im t v])"

definition gen_mem_im :: "(mem_offset \<Rightarrow> micro_op) \<Rightarrow> u32 \<Rightarrow> code" where
  "gen_mem_im m offset = (if offset = 0 then [m Off_0] else [m (Off_im offset)])"

definition gen_mem :: "(mem_offset \<Rightarrow> micro_op) \<Rightarrow> bool \<Rightarrow> u32 \<Rightarrow> code" where
  "gen_mem m indexed offset = (if indexed then [m Off_T2] else gen_mem_im m offset)"

definition gen_compare_T0_T1 :: "nat \<Rightarrow> code" where
  "gen_compare_T0_T1 crf = op_compare_T0_T1 # gen_store_T0_crf crf"

definition gen_compare_T0_im :: "nat \<Rightarrow> u32 \<Rightarrow> code" where
  "gen_compare_T0_im crf v = (if v = 0 then op_compare_T0_0 else op_compare_T0_im v) # gen_store_T0_crf crf"

definition gen_compare_logical_T0_T1 :: "nat \<Rightarrow> code" where
  "gen_compare_logical_T0_T1 crf = op_compare_logical_T0_T1 # gen_store_T0_crf crf"

definition gen_compare_logical_T0_im :: "nat \<Rightarrow> u32 \<Rightarrow> code" where
  "gen_compare_logical_T0_im crf v =
     (if v = 0 then op_compare_logical_T0_0 else op_compare_logical_T0_im v) # gen_store_T0_crf crf"

definition gen_lmw_T0 :: "nat \<Rightarrow> code" where
  "gen_lmw_T0 r = (if r \<in> {26, 27, 28, 29, 30, 31} then [op_lmw_T0 r] else [op_lmw_T0_im r])"

definition gen_stmw_T0 :: "nat \<Rightarrow> code" where
  "gen_stmw_T0 r = (if r \<in> {26, 27, 28, 29, 30, 31} then [op_stmw_T0 r] else [op_stmw_T0_im r])"

text \<open>The template argument of the \<^verbatim>\<open>prep_branch\<close> instruction that the switch on \<^verbatim>\<open>bo >> 1\<close> selects.\<close>

definition prep_branch_bo :: "u32 \<Rightarrow> u32" where
  "prep_branch_bo bo =
     (let k = unat (drop_bit 1 bo)
      in if k = 0 then BO_bits False False False False
         else if k = 1 then BO_bits False False False True
         else if k = 2 \<or> k = 3 then BO_bits False False True False
         else if k = 4 then BO_bits False True False False
         else if k = 5 then BO_bits False True False True
         else if k = 6 \<or> k = 7 then BO_bits False True True False
         else if k = 8 \<or> k = 12 then BO_bits True False False False
         else if k = 9 \<or> k = 13 then BO_bits True False False True
         else BO_bits True False True False)"

definition gen_bc :: "u32 \<Rightarrow> nat \<Rightarrow> u32 \<Rightarrow> u32 \<Rightarrow> bool \<Rightarrow> code" where
  "gen_bc bo bi tpc npc direct_chaining =
     (if BO_CONDITIONAL_BRANCH bo then gen_load_crb T1 bi else []) @
     [do_prep_branch_bo (prep_branch_bo bo)] @
     (if BO_CONDITIONAL_BRANCH bo \<or> BO_DECREMENT_CTR bo
      then (if direct_chaining then [op_branch_chain_2]
            else if tpc \<noteq> 0xffffffff then [op_branch_2_im_im tpc npc] else [op_branch_2_T0_im npc])
      else (if direct_chaining then [op_branch_chain_1]
            else if tpc \<noteq> 0xffffffff then [op_branch_1_im tpc] else [op_branch_1_T0]))"

section \<open>The cases of the switch\<close>

datatype logic_op = L_AND | L_ANDC | L_EQV | L_NAND | L_NOR | L_OR | L_ORC | L_XOR

primrec gen_logic_32_T0_T1 :: "logic_op \<Rightarrow> micro_op" where
  "gen_logic_32_T0_T1 L_AND = op_and_32_T0_T1"
| "gen_logic_32_T0_T1 L_ANDC = op_andc_32_T0_T1"
| "gen_logic_32_T0_T1 L_EQV = op_eqv_32_T0_T1"
| "gen_logic_32_T0_T1 L_NAND = op_nand_32_T0_T1"
| "gen_logic_32_T0_T1 L_NOR = op_nor_32_T0_T1"
| "gen_logic_32_T0_T1 L_OR = op_or_32_T0_T1"
| "gen_logic_32_T0_T1 L_ORC = op_orc_32_T0_T1"
| "gen_logic_32_T0_T1 L_XOR = op_xor_32_T0_T1"

datatype arith_op = A_ADD | A_ADDC | A_ADDE | A_SUBF | A_SUBFC | A_SUBFE | A_MULLW | A_DIVW | A_DIVWU

primrec gen_arith :: "bool \<Rightarrow> arith_op \<Rightarrow> micro_op" where
  "gen_arith OE A_ADD = (if OE then op_add_T0_T1 False False True else op_add_32_T0_T1)"
| "gen_arith OE A_ADDC = (if OE then op_add_T0_T1 False True True else op_add_T0_T1 False True False)"
| "gen_arith OE A_ADDE = (if OE then op_add_T0_T1 True False True else op_add_T0_T1 True False False)"
| "gen_arith OE A_SUBF = (if OE then op_sub_T0_T1 False True else op_subf_T0_T1)"
| "gen_arith OE A_SUBFC = (if OE then op_sub_T0_T1 True True else op_sub_T0_T1 True False)"
| "gen_arith OE A_SUBFE = (if OE then op_subfe_T0_T1 True else op_subfe_T0_T1 False)"
| "gen_arith OE A_MULLW = (if OE then op_mullwo_T0_T1 else op_umul_32_T0_T1)"
| "gen_arith OE A_DIVW = (if OE then op_div_T0_T1 True True else op_div_T0_T1 True False)"
| "gen_arith OE A_DIVWU = (if OE then op_div_T0_T1 False True else op_div_T0_T1 False False)"

datatype extend_op = A_ADDME | A_ADDZE | A_SUBFME | A_SUBFZE

primrec gen_extend :: "bool \<Rightarrow> extend_op \<Rightarrow> micro_op" where
  "gen_extend OE A_ADDME = op_addme_T0 OE"
| "gen_extend OE A_ADDZE = op_addze_T0 OE"
| "gen_extend OE A_SUBFME = op_subfme_T0 OE"
| "gen_extend OE A_SUBFZE = op_subfze_T0 OE"

datatype (plugins only:) jit_case =
  do_load access_size bool bool bool
| do_store access_size bool bool
| case_LMW | case_STMW | case_LWARX | case_STWCX
| case_BC | case_BCCTR | case_BCLR | case_B
| case_CMP | case_CMPI | case_CMPL | case_CMPLI
| case_CR logic_op | case_logic logic_op | case_OR | case_ORI | case_XORI | case_ORIS | case_XORIS
| case_ANDI | case_ANDIS | case_EXTSB | case_EXTSH | case_NEG | case_MFCR | case_MFSPR | case_MTSPR
| case_arith arith_op | case_ADDIC | case_ADDIC_dot | case_SUBFIC | case_extend extend_op
| case_ADDI | case_ADDIS | case_RLWIMI | case_RLWINM | case_RLWNM | case_CNTLZW
| case_SLW | case_SRW | case_SRAW | case_SRAWI | case_MULHW | case_MULHWU | case_MULLI
| case_DCBZ | case_nop | case_ISYNC | case_MTCRF | case_MCRF
| do_fp_load bool bool bool | do_fp_store bool bool bool
| case_fp1 fp_op1 | case_fp2 fp_type fp_op2 | case_fp3 fp_type fp_macc
| case_vector

definition gen_ea_RZ :: "u32 \<Rightarrow> bool \<Rightarrow> bool \<Rightarrow> code" where
  "gen_ea_RZ opcode update indexed =
     (let rA = regno rA_field opcode
      in (if rA = 0 \<and> \<not> update then gen_mov_32_im T1 0 else gen_load_GPR T1 rA) @
         (if indexed then gen_load_GPR T2 (regno rB_field opcode) else []))"

definition imm :: "operand \<Rightarrow> u32 \<Rightarrow> u32" where
  "imm x opcode =
     (case x of immediate_operand f p \<Rightarrow> op1_apply p (field_extract f opcode) | _ \<Rightarrow> 0)"

definition gen_update_RA :: "u32 \<Rightarrow> bool \<Rightarrow> bool \<Rightarrow> code" where
  "gen_update_RA opcode update indexed =
     (if update
      then (if indexed then [op_add_32_T1_T2] else gen_add_32_im T1 (imm operand_D opcode)) @
           gen_store_GPR T1 (regno rA_field opcode)
      else [])"

fun gen_load_size :: "access_size \<Rightarrow> bool \<Rightarrow> mem_offset \<Rightarrow> micro_op" where
  "gen_load_size Size1 sign = op_load_u8_T0_T1"
| "gen_load_size Size2 sign = (if sign then op_load_s16_T0_T1 else op_load_u16_T0_T1)"
| "gen_load_size Size4 sign = op_load_u32_T0_T1"

fun gen_store_size :: "access_size \<Rightarrow> mem_offset \<Rightarrow> micro_op" where
  "gen_store_size Size1 = op_store_8_T0_T1"
| "gen_store_size Size2 = op_store_16_T0_T1"
| "gen_store_size Size4 = op_store_32_T0_T1"

definition gen_do_load :: "access_size \<Rightarrow> bool \<Rightarrow> bool \<Rightarrow> bool \<Rightarrow> u32 \<Rightarrow> code" where
  "gen_do_load sz sign update indexed opcode =
     gen_ea_RZ opcode update indexed @
     gen_mem (gen_load_size sz sign) indexed (imm operand_D opcode) @
     gen_store_GPR T0 (regno rD_field opcode) @
     gen_update_RA opcode update indexed"

definition gen_do_store :: "access_size \<Rightarrow> bool \<Rightarrow> bool \<Rightarrow> u32 \<Rightarrow> code" where
  "gen_do_store sz update indexed opcode =
     gen_ea_RZ opcode update indexed @
     gen_load_GPR T0 (regno rS_field opcode) @
     gen_mem (gen_store_size sz) indexed (imm operand_D opcode) @
     gen_update_RA opcode update indexed"

definition gen_do_fp_load :: "'h fpu_host_scheme \<Rightarrow> bool \<Rightarrow> bool \<Rightarrow> bool \<Rightarrow> u32 \<Rightarrow> code" where
  "gen_do_fp_load H double update indexed opcode =
     gen_ea_RZ opcode update indexed @
     gen_mem (if double then op_load_double_FD_T1 else op_load_single_FD_T1 H) indexed (imm operand_D opcode) @
     gen_store_FD_FPR (regno frD_field opcode) @
     gen_update_RA opcode update indexed"

definition gen_do_fp_store :: "'h fpu_host_scheme \<Rightarrow> bool \<Rightarrow> bool \<Rightarrow> bool \<Rightarrow> u32 \<Rightarrow> code" where
  "gen_do_fp_store H double update indexed opcode =
     gen_ea_RZ opcode update indexed @
     gen_load_FPR T0 (regno frS_field opcode) @
     gen_mem (if double then op_store_double_F0_T1 else op_store_single_F0_T1 H) indexed (imm operand_D opcode) @
     gen_update_RA opcode update indexed"

definition gen_multiple_ea :: "u32 \<Rightarrow> code" where
  "gen_multiple_ea opcode =
     (let rA = regno rA_field opcode; d = imm operand_D opcode
      in if rA = 0 then gen_mov_32_im T0 d else gen_load_GPR T0 rA @ gen_add_32_im T0 d)"

definition gen_reserve_ea :: "u32 \<Rightarrow> code" where
  "gen_reserve_ea opcode =
     (let rA = regno rA_field opcode; rB = regno rB_field opcode
      in if rA = 0 then gen_load_GPR T1 rB else gen_load_GPR T1 rA @ gen_load_GPR T2 rB @ [op_add_32_T1_T2])"

definition gen_Rc_cr0 :: "u32 \<Rightarrow> code" where
  "gen_Rc_cr0 opcode = (if field_test Rc_field opcode then [op_record_cr0_T0] else [])"

definition gen_Rc_cr1 :: "u32 \<Rightarrow> code" where
  "gen_Rc_cr1 opcode = (if field_test Rc_field opcode then [op_record_cr1] else [])"

definition gen_logic_imm :: "(u32 \<Rightarrow> micro_op) \<Rightarrow> operand \<Rightarrow> u32 \<Rightarrow> code" where
  "gen_logic_imm m x opcode =
     gen_load_GPR T0 (regno rS_field opcode) @ [m (imm x opcode)] @ gen_store_GPR T0 (regno rA_field opcode)"

definition gen_ORI :: "u32 \<Rightarrow> code" where
  "gen_ORI opcode =
     (let rA = regno rA_field opcode; rS = regno rS_field opcode; val = imm operand_UIMM opcode
      in if val = 0
         then (if rA \<noteq> rS then gen_load_GPR T0 rS @ gen_store_GPR T0 rA else [])
         else gen_load_GPR T0 rS @ [op_or_32_T0_im val] @ gen_store_GPR T0 rA)"

definition gen_OR :: "u32 \<Rightarrow> code" where
  "gen_OR opcode =
     (let rS = regno rS_field opcode; rB = regno rB_field opcode
      in gen_load_GPR T0 rS @
         (if rS \<noteq> rB then gen_load_GPR T1 rB @ [op_or_32_T0_T1] else []) @
         gen_store_GPR T0 (regno rA_field opcode) @ gen_Rc_cr0 opcode)"

text \<open>
  The cases that load from \<^verbatim>\<open>rS\<close> (and \<^verbatim>\<open>rB\<close>), apply instructions to \<^verbatim>\<open>T0\<close>, store to
  \<^verbatim>\<open>rA\<close> and record.
\<close>

definition gen_S_to_A :: "bool \<Rightarrow> code \<Rightarrow> u32 \<Rightarrow> code" where
  "gen_S_to_A withB body opcode =
     gen_load_GPR T0 (regno rS_field opcode) @
     (if withB then gen_load_GPR T1 (regno rB_field opcode) else []) @
     body @ gen_store_GPR T0 (regno rA_field opcode) @ gen_Rc_cr0 opcode"

text \<open>Those that load from \<^verbatim>\<open>rA\<close> (and \<^verbatim>\<open>rB\<close>), record, and store to \<^verbatim>\<open>rD\<close>.\<close>

definition gen_A_to_D :: "bool \<Rightarrow> code \<Rightarrow> u32 \<Rightarrow> code" where
  "gen_A_to_D withB body opcode =
     gen_load_GPR T0 (regno rA_field opcode) @
     (if withB then gen_load_GPR T1 (regno rB_field opcode) else []) @
     body @ gen_store_GPR T0 (regno rD_field opcode)"

definition gen_addi :: "operand \<Rightarrow> u32 \<Rightarrow> code" where
  "gen_addi x opcode =
     (let rA = regno rA_field opcode
      in (if rA = 0 then gen_mov_32_im T0 (imm x opcode)
          else gen_load_GPR T0 rA @ gen_add_32_im T0 (imm x opcode)) @
         gen_store_GPR T0 (regno rD_field opcode))"

definition gen_RLWIMI :: "u32 \<Rightarrow> code" where
  "gen_RLWIMI opcode =
     (let rA = regno rA_field opcode;
          m = mask_operand_compute (field_extract MB_field opcode) (field_extract ME_field opcode)
      in gen_load_GPR T0 rA @ gen_load_GPR T1 (regno rS_field opcode) @
         [op_rlwimi_T0_T1 (field_extract SH_field opcode) m] @ gen_store_GPR T0 rA @ gen_Rc_cr0 opcode)"

definition gen_rlwinm_body :: "u32 \<Rightarrow> u32 \<Rightarrow> u32 \<Rightarrow> code" where
  "gen_rlwinm_body SH MB ME =
     (let m = mask_operand_compute MB ME
      in if MB = 0
         then (if ME = 31 then (if SH > 0 then [op_rol_32_T0_im SH] else [])
               else if ME = 31 - SH then [op_lsl_32_T0_im SH]
               else if SH = 0 then [op_and_32_T0_im m]
               else [op_rlwinm_T0_T1 SH m])
         else if ME = 31
         then (if SH = 32 - MB then [op_lsr_32_T0_im MB]
               else if SH = 0 then [op_and_32_T0_im m]
               else [op_rlwinm_T0_T1 SH m])
         else [op_rlwinm_T0_T1 SH m])"

definition gen_rlwnm_body :: "u32 \<Rightarrow> u32 \<Rightarrow> code" where
  "gen_rlwnm_body MB ME =
     (if MB = 0 \<and> ME = 31 then [op_rol_32_T0_T1] else [op_rlwnm_T0_T1 (mask_operand_compute MB ME)])"

definition gen_MFSPR :: "'h host_scheme \<Rightarrow> u32 \<Rightarrow> code" where
  "gen_MFSPR H opcode =
     (let spr = spr_operand_get opcode
      in (if spr = SPR_XER then [op_load_T0_XER]
          else if spr = SPR_LR then [op_load_T0_LR]
          else if spr = SPR_CTR then [op_load_T0_CTR]
          else if spr = SPR_VRSAVE then [op_load_T0_VRSAVE]
          else if spr = SPR_SDR1 then gen_mov_32_im T0 0xdead001f
          else if spr = SPR_PVR then gen_mov_32_im T0 (host_PVR H)
          else gen_mov_32_im T0 0) @
         gen_store_GPR T0 (regno rD_field opcode))"

definition gen_MTSPR :: "u32 \<Rightarrow> code" where
  "gen_MTSPR opcode =
     (let spr = spr_operand_get opcode
      in gen_load_GPR T0 (regno rS_field opcode) @
         (if spr = SPR_XER then [op_store_T0_XER]
          else if spr = SPR_LR then [op_store_T0_LR]
          else if spr = SPR_CTR then [op_store_T0_CTR]
          else if spr = SPR_VRSAVE then [op_store_T0_VRSAVE]
          else []))"

definition gen_DCBZ :: "u32 \<Rightarrow> code" where
  "gen_DCBZ opcode =
     (let rA = regno rA_field opcode; rB = regno rB_field opcode
      in (if rA = 0 then gen_load_GPR T0 rB
          else gen_load_GPR T0 rA @ gen_load_GPR T1 rB @ [op_add_32_T0_T1]) @ [op_dcbz_T0])"

primrec gen_fp1_op :: "fp_op1 \<Rightarrow> micro_op" where
  "gen_fp1_op op_fnop = op_fmov_FD_F0"
| "gen_fp1_op op_fabs = op_fabs_FD_F0"
| "gen_fp1_op op_fnabs = op_fnabs_FD_F0"
| "gen_fp1_op op_fneg = op_fneg_FD_F0"

definition gen_fp1 :: "fp_op1 \<Rightarrow> u32 \<Rightarrow> code" where
  "gen_fp1 f opcode =
     gen_load_FPR T0 (regno frB_field opcode) @ [gen_fp1_op f] @
     gen_store_FD_FPR (regno frD_field opcode) @ gen_Rc_cr1 opcode"

definition gen_fp2 :: "'h fpu_host_scheme \<Rightarrow> fp_type \<Rightarrow> fp_op2 \<Rightarrow> u32 \<Rightarrow> code" where
  "gen_fp2 H FP f opcode =
     gen_load_FPR T0 (regno frA_field opcode) @
     gen_load_FPR T1 (if f = op_fmul then regno frC_field opcode else regno frB_field opcode) @
     [case FP of FP_double \<Rightarrow> op_fop_FD_F0_F1 H f | FP_float \<Rightarrow> op_fops_FD_F0_F1 H f] @
     gen_store_FD_FPR (regno frD_field opcode) @ gen_Rc_cr1 opcode"

definition gen_fp3 :: "'h fpu_host_scheme \<Rightarrow> fp_type \<Rightarrow> fp_macc \<Rightarrow> u32 \<Rightarrow> code" where
  "gen_fp3 H FP f opcode =
     gen_load_FPR T0 (regno frA_field opcode) @ gen_load_FPR T1 (regno frC_field opcode) @
     gen_load_FPR T2 (regno frB_field opcode) @
     [case FP of FP_double \<Rightarrow> op_fop_FD_F0_F1_F2 H f | FP_float \<Rightarrow> op_fops_FD_F0_F1_F2 H f] @
     gen_store_FD_FPR (regno frD_field opcode) @ gen_Rc_cr1 opcode"

section \<open>The switch\<close>

primrec gen_case :: "'h sheep_host_scheme \<Rightarrow> jit_case \<Rightarrow> u32 \<Rightarrow> code" where
  "gen_case H (do_load sz sign update indexed) opcode = gen_do_load sz sign update indexed opcode"
| "gen_case H (do_store sz update indexed) opcode = gen_do_store sz update indexed opcode"
| "gen_case H case_LMW opcode = gen_multiple_ea opcode @ gen_lmw_T0 (regno rD_field opcode)"
| "gen_case H case_STMW opcode = gen_multiple_ea opcode @ gen_stmw_T0 (regno rS_field opcode)"
| "gen_case H case_LWARX opcode = gen_reserve_ea opcode @ [op_lwarx_T0_T1] @ gen_store_GPR T0 (regno rD_field opcode)"
| "gen_case H case_STWCX opcode = gen_reserve_ea opcode @ gen_load_GPR T0 (regno rS_field opcode) @ [op_stwcx_T0_T1]"
| "gen_case H case_BC opcode = []"
| "gen_case H case_BCCTR opcode = []"
| "gen_case H case_BCLR opcode = []"
| "gen_case H case_B opcode = []"
| "gen_case H case_CMP opcode =
     gen_load_GPR T0 (regno rA_field opcode) @ gen_load_GPR T1 (regno rB_field opcode) @
     gen_compare_T0_T1 (regno crfD_field opcode)"
| "gen_case H case_CMPI opcode =
     gen_load_GPR T0 (regno rA_field opcode) @ gen_compare_T0_im (regno crfD_field opcode) (imm operand_SIMM opcode)"
| "gen_case H case_CMPL opcode =
     gen_load_GPR T0 (regno rA_field opcode) @ gen_load_GPR T1 (regno rB_field opcode) @
     gen_compare_logical_T0_T1 (regno crfD_field opcode)"
| "gen_case H case_CMPLI opcode =
     gen_load_GPR T0 (regno rA_field opcode) @
     gen_compare_logical_T0_im (regno crfD_field opcode) (imm operand_UIMM opcode)"
| "gen_case H (case_CR f) opcode =
     gen_load_crb T0 (regno crbA_field opcode) @ gen_load_crb T1 (regno crbB_field opcode) @
     [gen_logic_32_T0_T1 f] @ gen_store_T0_crb (regno crbD_field opcode)"
| "gen_case H (case_logic f) opcode = gen_S_to_A True [gen_logic_32_T0_T1 f] opcode"
| "gen_case H case_OR opcode = gen_OR opcode"
| "gen_case H case_ORI opcode = gen_ORI opcode"
| "gen_case H case_XORI opcode = gen_logic_imm op_xor_32_T0_im operand_UIMM opcode"
| "gen_case H case_ORIS opcode = gen_logic_imm op_or_32_T0_im operand_UIMM_shifted opcode"
| "gen_case H case_XORIS opcode = gen_logic_imm op_xor_32_T0_im operand_UIMM_shifted opcode"
| "gen_case H case_ANDI opcode = gen_logic_imm op_and_32_T0_im operand_UIMM opcode @ [op_record_cr0_T0]"
| "gen_case H case_ANDIS opcode = gen_logic_imm op_and_32_T0_im operand_UIMM_shifted opcode @ [op_record_cr0_T0]"
| "gen_case H case_EXTSB opcode = gen_S_to_A False [op_se_8_32_T0] opcode"
| "gen_case H case_EXTSH opcode = gen_S_to_A False [op_se_16_32_T0] opcode"
| "gen_case H case_NEG opcode =
     gen_A_to_D False ([if field_test OE_field opcode then op_nego_T0 else op_neg_32_T0] @ gen_Rc_cr0 opcode) opcode"
| "gen_case H case_MFCR opcode = [op_load_T0_CR] @ gen_store_GPR T0 (regno rD_field opcode)"
| "gen_case H case_MFSPR opcode = gen_MFSPR H opcode"
| "gen_case H case_MTSPR opcode = gen_MTSPR opcode"
| "gen_case H (case_arith f) opcode =
     gen_A_to_D True ([gen_arith (field_test OE_field opcode) f] @ gen_Rc_cr0 opcode) opcode"
| "gen_case H case_ADDIC opcode = gen_A_to_D False [op_addc_T0_im (imm operand_SIMM opcode)] opcode"
| "gen_case H case_ADDIC_dot opcode =
     gen_A_to_D False [op_addc_T0_im (imm operand_SIMM opcode), op_record_cr0_T0] opcode"
| "gen_case H case_SUBFIC opcode = gen_A_to_D False [op_subfc_T0_im (imm operand_SIMM opcode)] opcode"
| "gen_case H (case_extend f) opcode =
     gen_A_to_D False ([gen_extend (field_test OE_field opcode) f] @ gen_Rc_cr0 opcode) opcode"
| "gen_case H case_ADDI opcode = gen_addi operand_SIMM opcode"
| "gen_case H case_ADDIS opcode = gen_addi operand_SIMM_shifted opcode"
| "gen_case H case_RLWIMI opcode = gen_RLWIMI opcode"
| "gen_case H case_RLWINM opcode =
     gen_S_to_A False (gen_rlwinm_body (field_extract SH_field opcode) (field_extract MB_field opcode)
       (field_extract ME_field opcode)) opcode"
| "gen_case H case_RLWNM opcode =
     gen_S_to_A True (gen_rlwnm_body (field_extract MB_field opcode) (field_extract ME_field opcode)) opcode"
| "gen_case H case_CNTLZW opcode = gen_S_to_A False [op_cntlzw_32_T0] opcode"
| "gen_case H case_SLW opcode = gen_S_to_A True [op_slw_T0_T1] opcode"
| "gen_case H case_SRW opcode = gen_S_to_A True [op_srw_T0_T1] opcode"
| "gen_case H case_SRAW opcode = gen_S_to_A True [op_sraw_T0_T1] opcode"
| "gen_case H case_SRAWI opcode = gen_S_to_A False [op_sraw_T0_im (field_extract SH_field opcode)] opcode"
| "gen_case H case_MULHW opcode = gen_A_to_D True [op_mulhw_T0_T1] opcode @ gen_Rc_cr0 opcode"
| "gen_case H case_MULHWU opcode = gen_A_to_D True [op_mulhwu_T0_T1] opcode @ gen_Rc_cr0 opcode"
| "gen_case H case_MULLI opcode = gen_A_to_D False [op_mulli_T0_im (imm operand_SIMM opcode)] opcode"
| "gen_case H case_DCBZ opcode = gen_DCBZ opcode"
| "gen_case H case_nop opcode = []"
| "gen_case H case_ISYNC opcode = [op_invoke_CPU execute_invalidate_cache_range]"
| "gen_case H case_MTCRF opcode =
     gen_load_GPR T0 (regno rS_field opcode) @ [op_mtcrf_T0_im (field2mask (field_extract CRM_field opcode))]"
| "gen_case H case_MCRF opcode =
     gen_load_T0_crf (regno crfS_field opcode) @ gen_store_T0_crf (regno crfD_field opcode)"
| "gen_case H (do_fp_load double update indexed) opcode = gen_do_fp_load H double update indexed opcode"
| "gen_case H (do_fp_store double update indexed) opcode = gen_do_fp_store H double update indexed opcode"
| "gen_case H (case_fp1 f) opcode = gen_fp1 f opcode"
| "gen_case H (case_fp2 FP f) opcode = gen_fp2 H FP f opcode"
| "gen_case H (case_fp3 FP f) opcode = gen_fp3 H FP f opcode"
| "gen_case H case_vector opcode = []"

section \<open>Translation of an instruction\<close>

datatype translation =
  Native code
| Const_jump code u32
| Branch code "u32 option" "u32 option"
| Generic
| Vector_case

definition direct_chaining_possible :: "(u32 \<Rightarrow> bool) \<Rightarrow> u32 \<Rightarrow> u32 \<Rightarrow> bool" where
  "direct_chaining_possible is_read_only_memory bpc tpc \<longleftrightarrow>
     drop_bit 12 (bpc XOR tpc) = 0 \<or> is_read_only_memory tpc"

definition gen_LK :: "u32 \<Rightarrow> u32 \<Rightarrow> code" where
  "gen_LK opcode npc = (if field_test LK_field opcode then [op_store_im_LR npc] else [])"

definition translate_BC :: "(u32 \<Rightarrow> bool) \<Rightarrow> u32 \<Rightarrow> u32 \<Rightarrow> u32 \<Rightarrow> translation" where
  "translate_BC ro bpc dpc opcode =
     (let bo = field_extract BO_field opcode;
          npc = dpc + 4;
          tpc = ((if field_test AA_field opcode then 0 else dpc) + imm operand_BD opcode) AND - 4
      in if \<not> BO_CONDITIONAL_BRANCH bo \<and> \<not> BO_DECREMENT_CTR bo
         then Const_jump (gen_LK opcode npc) tpc
         else (let direct = direct_chaining_possible ro bpc tpc
               in Branch (gen_LK opcode npc @ gen_bc bo (regno BI_field opcode) tpc npc direct)
                    (if direct then Some tpc else None) (if direct then Some npc else None)))"

definition translate_do_branch :: "micro_op \<Rightarrow> u32 \<Rightarrow> u32 \<Rightarrow> translation" where
  "translate_do_branch load dpc opcode =
     (let npc = dpc + 4
      in Branch ([load] @ gen_LK opcode npc @
           gen_bc (field_extract BO_field opcode) (regno BI_field opcode) (- 1) npc False) None None)"

definition translate_B :: "(u32 \<Rightarrow> bool) \<Rightarrow> u32 \<Rightarrow> u32 \<Rightarrow> u32 \<Rightarrow> translation" where
  "translate_B ro bpc dpc opcode =
     (let tpc = ((if field_test AA_field opcode then 0 else dpc) + imm operand_LI opcode) AND - 4;
          npc = dpc + 4
      in if \<not> field_test LK_field opcode then Const_jump [] tpc
         else (let direct = direct_chaining_possible ro bpc tpc
               in Branch ([op_store_im_LR npc] @ gen_bc (BO_MAKE False False False False) 0 tpc 0 direct)
                    (if direct then Some tpc else None) None))"

definition translate_case :: "'h sheep_host_scheme \<Rightarrow> (u32 \<Rightarrow> bool) \<Rightarrow> u32 \<Rightarrow> u32 \<Rightarrow> u32 \<Rightarrow> jit_case \<Rightarrow> translation" where
  "translate_case H ro bpc dpc opcode c =
     (case c of
        case_BC \<Rightarrow> translate_BC ro bpc dpc opcode
      | case_BCCTR \<Rightarrow> translate_do_branch op_load_T0_CTR_aligned dpc opcode
      | case_BCLR \<Rightarrow> translate_do_branch op_load_T0_LR_aligned dpc opcode
      | case_B \<Rightarrow> translate_B ro bpc dpc opcode
      | case_vector \<Rightarrow> Vector_case
      | _ \<Rightarrow> Native (gen_case H c opcode))"

definition jit_cases_load :: "(string \<times> jit_case) list" where
  "jit_cases_load =
    [(''LBZ'', do_load Size1 False False False), (''LBZU'', do_load Size1 False True False),
     (''LBZUX'', do_load Size1 False True True), (''LBZX'', do_load Size1 False False True),
     (''LHA'', do_load Size2 True False False), (''LHAU'', do_load Size2 True True False),
     (''LHAUX'', do_load Size2 True True True), (''LHAX'', do_load Size2 True False True),
     (''LHZ'', do_load Size2 False False False), (''LHZU'', do_load Size2 False True False),
     (''LHZUX'', do_load Size2 False True True), (''LHZX'', do_load Size2 False False True),
     (''LWZ'', do_load Size4 False False False), (''LWZU'', do_load Size4 False True False),
     (''LWZUX'', do_load Size4 False True True), (''LWZX'', do_load Size4 False False True)]"

definition jit_cases_store :: "(string \<times> jit_case) list" where
  "jit_cases_store =
    [(''STB'', do_store Size1 False False), (''STBU'', do_store Size1 True False),
     (''STBUX'', do_store Size1 True True), (''STBX'', do_store Size1 False True),
     (''STH'', do_store Size2 False False), (''STHU'', do_store Size2 True False),
     (''STHUX'', do_store Size2 True True), (''STHX'', do_store Size2 False True),
     (''STW'', do_store Size4 False False), (''STWU'', do_store Size4 True False),
     (''STWUX'', do_store Size4 True True), (''STWX'', do_store Size4 False True)]"

definition jit_cases_system :: "(string \<times> jit_case) list" where
  "jit_cases_system =
    [(''LMW'', case_LMW), (''STMW'', case_STMW), (''STWCX'', case_STWCX), (''LWARX'', case_LWARX), (''BC'', case_BC),
     (''BCCTR'', case_BCCTR), (''BCLR'', case_BCLR), (''B'', case_B), (''CMP'', case_CMP), (''CMPI'', case_CMPI),
     (''CMPL'', case_CMPL), (''CMPLI'', case_CMPLI)]"

definition jit_cases_logic :: "(string \<times> jit_case) list" where
  "jit_cases_logic =
    [(''CRAND'', case_CR L_AND), (''CRANDC'', case_CR L_ANDC), (''CREQV'', case_CR L_EQV),
     (''CRNAND'', case_CR L_NAND), (''CRNOR'', case_CR L_NOR), (''CROR'', case_CR L_OR), (''CRORC'', case_CR L_ORC),
     (''CRXOR'', case_CR L_XOR), (''AND'', case_logic L_AND), (''ANDC'', case_logic L_ANDC),
     (''EQV'', case_logic L_EQV), (''NAND'', case_logic L_NAND), (''NOR'', case_logic L_NOR),
     (''ORC'', case_logic L_ORC), (''XOR'', case_logic L_XOR), (''OR'', case_OR), (''ORI'', case_ORI),
     (''XORI'', case_XORI), (''ORIS'', case_ORIS), (''XORIS'', case_XORIS), (''ANDI'', case_ANDI),
     (''ANDIS'', case_ANDIS), (''EXTSB'', case_EXTSB), (''EXTSH'', case_EXTSH), (''NEG'', case_NEG)]"

definition jit_cases_arith :: "(string \<times> jit_case) list" where
  "jit_cases_arith =
    [(''MFCR'', case_MFCR), (''MFSPR'', case_MFSPR), (''MTSPR'', case_MTSPR), (''ADD'', case_arith A_ADD),
     (''ADDC'', case_arith A_ADDC), (''ADDE'', case_arith A_ADDE), (''SUBF'', case_arith A_SUBF),
     (''SUBFC'', case_arith A_SUBFC), (''SUBFE'', case_arith A_SUBFE), (''MULLW'', case_arith A_MULLW),
     (''DIVW'', case_arith A_DIVW), (''DIVWU'', case_arith A_DIVWU), (''ADDIC'', case_ADDIC),
     (''ADDIC_'', case_ADDIC_dot), (''SUBFIC'', case_SUBFIC), (''ADDME'', case_extend A_ADDME),
     (''ADDZE'', case_extend A_ADDZE), (''SUBFME'', case_extend A_SUBFME), (''SUBFZE'', case_extend A_SUBFZE),
     (''ADDI'', case_ADDI), (''ADDIS'', case_ADDIS)]"

definition jit_cases_shift :: "(string \<times> jit_case) list" where
  "jit_cases_shift =
    [(''RLWIMI'', case_RLWIMI), (''RLWINM'', case_RLWINM), (''RLWNM'', case_RLWNM), (''CNTLZW'', case_CNTLZW),
     (''SLW'', case_SLW), (''SRW'', case_SRW), (''SRAW'', case_SRAW), (''SRAWI'', case_SRAWI),
     (''MULHW'', case_MULHW), (''MULHWU'', case_MULHWU), (''MULLI'', case_MULLI), (''DCBZ'', case_DCBZ)]"

definition jit_cases_cache :: "(string \<times> jit_case) list" where
  "jit_cases_cache =
    [(''DCBA'', case_nop), (''DCBF'', case_nop), (''DCBI'', case_nop), (''DCBST'', case_nop), (''DCBT'', case_nop),
     (''DCBTST'', case_nop), (''ECIWX'', case_nop), (''ECOWX'', case_nop), (''EIEIO'', case_nop),
     (''SYNC'', case_nop), (''ISYNC'', case_ISYNC), (''MTCRF'', case_MTCRF), (''MCRF'', case_MCRF)]"

definition jit_cases_fp_mem :: "(string \<times> jit_case) list" where
  "jit_cases_fp_mem =
    [(''LFD'', do_fp_load True False False), (''LFDU'', do_fp_load True True False),
     (''LFDUX'', do_fp_load True True True), (''LFDX'', do_fp_load True False True),
     (''LFS'', do_fp_load False False False), (''LFSU'', do_fp_load False True False),
     (''LFSUX'', do_fp_load False True True), (''LFSX'', do_fp_load False False True),
     (''STFD'', do_fp_store True False False), (''STFDU'', do_fp_store True True False),
     (''STFDUX'', do_fp_store True True True), (''STFDX'', do_fp_store True False True),
     (''STFS'', do_fp_store False False False), (''STFSU'', do_fp_store False True False),
     (''STFSUX'', do_fp_store False True True), (''STFSX'', do_fp_store False False True)]"

definition jit_cases_fp :: "(string \<times> jit_case) list" where
  "jit_cases_fp =
    [(''FABS'', case_fp1 op_fabs), (''FNABS'', case_fp1 op_fnabs), (''FNEG'', case_fp1 op_fneg),
     (''FMR'', case_fp1 op_fnop), (''FADD'', case_fp2 FP_double op_fadd), (''FADDS'', case_fp2 FP_float op_fadd),
     (''FSUB'', case_fp2 FP_double op_fsub), (''FSUBS'', case_fp2 FP_float op_fsub),
     (''FMUL'', case_fp2 FP_double op_fmul), (''FMULS'', case_fp2 FP_float op_fmul),
     (''FDIV'', case_fp2 FP_double op_fdiv), (''FDIVS'', case_fp2 FP_float op_fdiv),
     (''FMADD'', case_fp3 FP_double do_fmadd), (''FMADDS'', case_fp3 FP_float do_fmadd),
     (''FMSUB'', case_fp3 FP_double do_fmsub), (''FMSUBS'', case_fp3 FP_float do_fmsub),
     (''FNMADD'', case_fp3 FP_double do_fnmadd), (''FNMADDS'', case_fp3 FP_float do_fnmadd),
     (''FNMSUB'', case_fp3 FP_double do_fnmsub), (''FNMSUBS'', case_fp3 FP_float do_fnmsub)]"

definition jit_cases_vector1 :: "(string \<times> jit_case) list" where
  "jit_cases_vector1 =
    [(''LVEWX'', case_vector), (''LVX'', case_vector), (''LVXL'', case_vector), (''STVEWX'', case_vector),
     (''STVX'', case_vector), (''STVXL'', case_vector), (''VCMPEQFP'', case_vector), (''VCMPEQUB'', case_vector),
     (''VCMPEQUH'', case_vector), (''VCMPEQUW'', case_vector), (''VCMPGEFP'', case_vector),
     (''VCMPGTFP'', case_vector), (''VCMPGTSB'', case_vector), (''VCMPGTSH'', case_vector),
     (''VCMPGTSW'', case_vector)]"

definition jit_cases_vector2 :: "(string \<times> jit_case) list" where
  "jit_cases_vector2 =
    [(''VADDFP'', case_vector), (''VADDUBM'', case_vector), (''VADDUHM'', case_vector), (''VADDUWM'', case_vector),
     (''VAND'', case_vector), (''VANDC'', case_vector), (''VAVGUB'', case_vector), (''VAVGUH'', case_vector),
     (''VMAXSH'', case_vector), (''VMAXUB'', case_vector), (''VMINSH'', case_vector), (''VMINUB'', case_vector),
     (''VNOR'', case_vector), (''VOR'', case_vector), (''VSUBFP'', case_vector), (''VSUBUBM'', case_vector),
     (''VSUBUHM'', case_vector), (''VSUBUWM'', case_vector), (''VXOR'', case_vector), (''VREFP'', case_vector),
     (''VRSQRTEFP'', case_vector)]"

definition jit_cases_vector3 :: "(string \<times> jit_case) list" where
  "jit_cases_vector3 =
    [(''VSEL'', case_vector), (''VPERM'', case_vector), (''VMADDFP'', case_vector), (''VNMSUBFP'', case_vector),
     (''VSLDOI'', case_vector), (''MFVSCR'', case_vector), (''MTVSCR'', case_vector), (''VSPLTISB'', case_vector),
     (''VSPLTISH'', case_vector), (''VSPLTISW'', case_vector), (''VSPLTB'', case_vector), (''VSPLTH'', case_vector),
     (''VSPLTW'', case_vector)]"

primrec lookup_first :: "(string \<times> jit_case) list list \<Rightarrow> string \<Rightarrow> jit_case option" where
  "lookup_first [] m = None"
| "lookup_first (t # ts) m = (case map_of t m of Some c \<Rightarrow> Some c | None \<Rightarrow> lookup_first ts m)"

definition jit_case_of :: "string \<Rightarrow> jit_case option" where
  "jit_case_of = lookup_first
     [jit_cases_load, jit_cases_store, jit_cases_system, jit_cases_logic, jit_cases_arith, jit_cases_shift, jit_cases_cache, jit_cases_fp_mem, jit_cases_fp, jit_cases_vector1, jit_cases_vector2, jit_cases_vector3]"

definition translate_insn :: "'h sheep_host_scheme \<Rightarrow> (u32 \<Rightarrow> bool) \<Rightarrow> u32 \<Rightarrow> u32 \<Rightarrow> u32 \<Rightarrow> string \<Rightarrow> translation" where
  "translate_insn H ro bpc dpc opcode mnemo =
     (case jit_case_of mnemo of Some c \<Rightarrow> translate_case H ro bpc dpc opcode c | None \<Rightarrow> Generic)"

end
