(* ===== verification/JIT_Refine.thy ===== *)
theory JIT_Refine
  imports JIT_Translate
begin

unbundle bit_operations_syntax

text \<open>
  Running translated code against a handler: \<open>simulates\<close> says that code run in a state does what a handler does when the
  program counter is that of the instruction. The lemmas evaluate the synthetic instructions, show that a
  handler which ends by advancing does not depend on the program counter, and relate the recording of results in
  the condition register by synthetic instructions and by handlers.
\<close>

lemma run_append [simp]: "run (xs @ ys) s = jbind (run xs s) (run ys)"
proof (induction xs arbitrary: s)
  case Nil then show ?case by simp
next
  case (Cons x xs)
  have stop: "exit s \<noteq> Running \<Longrightarrow> run ys s = Inr s" for ys s by (cases ys) simp_all
  show ?case using Cons by (cases "x s") (simp_all add: stop)
qed

definition simulates :: "code \<Rightarrow> (powerpc_cpu \<Rightarrow> result) \<Rightarrow> u32 \<Rightarrow> vcpu \<Rightarrow> bool" where
  "simulates code h dpc s \<longleftrightarrow>
     (\<exists>c s'. h ((jcpu s)\<lparr>pc := dpc\<rparr>) = Inr c \<and> run code s = Inr s' \<and> exit s' = Running \<and>
        jcpu s' = c\<lparr>pc := pc (jcpu s)\<rparr>)"

lemma simulatesI:
  assumes "h ((jcpu s)\<lparr>pc := dpc\<rparr>) = Inr c" "run code s = Inr s'" "exit s' = exit s"
    "jcpu s' = c\<lparr>pc := pc (jcpu s)\<rparr>" "exit s = Running"
  shows "simulates code h dpc s"
  using assms unfolding simulates_def by simp

named_theorems jit_ops \<open>what the synthetic instructions and their generators do\<close>

lemmas jit_base [jit_ops] = get_T_def get_F_def set_A_def set_T_def set_FD_def with_cpu_def upd_cpu_def
  upd_T0_def leave_def jbind.simps run.simps

lemmas jit_reg_ops [jit_ops] = op_mov_32_im_def op_mov_32_0_def op_load_GPR_def op_store_GPR_def op_load_FPR_def
  op_store_FD_FPR_def gen_load_GPR_def gen_store_GPR_def gen_load_FPR_def gen_store_FD_FPR_def
  gen_load_crb_def gen_store_T0_crb_def gen_load_T0_crf_def gen_store_T0_crf_def

lemmas jit_alu_ops [jit_ops] = op_add_32_T0_T1_def op_add_32_T1_T2_def op_umul_32_T0_T1_def op_neg_32_T0_def
  op_and_32_T0_T1_def op_and_32_T0_im_def op_or_32_T0_T1_def op_or_32_T0_im_def op_xor_32_T0_T1_def
  op_xor_32_T0_im_def op_orc_32_T0_T1_def op_andc_32_T0_T1_def op_nand_32_T0_T1_def op_nor_32_T0_T1_def
  op_eqv_32_T0_T1_def op_lsl_32_T0_im_def op_lsr_32_T0_im_def op_rol_32_T0_T1_def op_rol_32_T0_im_def
  op_se_16_32_T0_def op_se_8_32_T0_def

lemmas jit_cr_ops [jit_ops] = op_load_T0_CR_def op_load_crb_def op_store_T0_crb_def op_load_T0_crf_def
  op_store_T0_crf_def op_mtcrf_T0_im_def op_record_cr0_T0_def op_record_cr1_def
  op_compare_T0_T1_def op_compare_T0_im_def op_compare_T0_0_def
  op_compare_logical_T0_T1_def op_compare_logical_T0_im_def op_compare_logical_T0_0_def

lemmas jit_spr_ops [jit_ops] = op_load_T0_VRSAVE_def op_store_T0_VRSAVE_def op_load_T0_XER_def op_store_T0_XER_def
  op_set_PC_im_def op_load_T0_LR_def op_store_T0_LR_def op_load_T0_CTR_def op_store_T0_CTR_def
  op_store_im_LR_def op_load_T0_CTR_aligned_def op_load_T0_LR_aligned_def

lemmas jit_arith_ops [jit_ops] = op_div_T0_T1_def op_mulhw_T0_T1_def op_mulhwu_T0_T1_def op_mulli_T0_im_def
  op_mullwo_T0_T1_def op_slw_T0_T1_def op_srw_T0_T1_def op_sraw_T0_T1_def op_sraw_T0_im_def
  op_rlwimi_T0_T1_def op_rlwinm_T0_T1_def op_rlwnm_T0_T1_def op_cntlzw_32_T0_def
  op_add_T0_T1_def op_addc_T0_im_def op_addme_T0_def op_addze_T0_def op_subf_T0_T1_def op_sub_T0_T1_def
  op_subfc_T0_im_def op_subfe_T0_T1_def op_subfme_T0_def op_subfze_T0_def op_nego_T0_def

section \<open>Generators that select among equivalent instructions\<close>

lemma gen_mov_32_im [jit_ops]: "exit s = Running \<Longrightarrow> run (gen_mov_32_im t v) s = set_T t v s"
  by (simp add: gen_mov_32_im_def op_mov_32_0_def op_mov_32_im_def set_T_def set_A_def)

lemma gen_add_32_im [jit_ops]:
  "exit s = Running \<Longrightarrow> tmp s t = Word w \<Longrightarrow> run (gen_add_32_im t v) s = Inr (s\<lparr>tmp := (tmp s)(t := Word (w + v))\<rparr>)"
  by (auto simp: gen_add_32_im_def op_add_32_1_def op_add_32_2_def op_add_32_4_def op_add_32_8_def
      op_add_32_im_def get_T_def set_T_def set_A_def fun_upd_idem)

section \<open>The program counter does not matter\<close>

text \<open>A handler that ends by advancing computes the same on a state with another program counter.\<close>

lemma pc_commute [simp]:
  "(set_gpr i v c)\<lparr>pc := p\<rparr> = set_gpr i v (c\<lparr>pc := p\<rparr>)"
  "(set_fpr i w c)\<lparr>pc := p\<rparr> = set_fpr i w (c\<lparr>pc := p\<rparr>)"
  "(record_cr k n c)\<lparr>pc := p\<rparr> = record_cr k n (c\<lparr>pc := p\<rparr>)"
  "(record_cr0 v c)\<lparr>pc := p\<rparr> = record_cr0 v (c\<lparr>pc := p\<rparr>)"
  "(record_cr1 c)\<lparr>pc := p\<rparr> = record_cr1 (c\<lparr>pc := p\<rparr>)"
  "(update_xer g c)\<lparr>pc := p\<rparr> = update_xer g (c\<lparr>pc := p\<rparr>)"
  "(increment_pc d c)\<lparr>pc := p\<rparr> = c\<lparr>pc := p\<rparr>"
  by (simp_all add: set_gpr_def set_fpr_def record_cr_def record_cr0_def record_cr1_def update_xer_def increment_pc_def)

lemma upd_if_pc [simp]:
  "(\<And>c. (f c)\<lparr>pc := p\<rparr> = f (c\<lparr>pc := p\<rparr>)) \<Longrightarrow> (upd_if b f c)\<lparr>pc := p\<rparr> = upd_if b f (c\<lparr>pc := p\<rparr>)"
  by (simp add: upd_if_def)

definition so_ok :: "powerpc_cpu \<Rightarrow> bool" where "so_ok c \<longleftrightarrow> xer_so (xer c) = 0 \<or> xer_so (xer c) = 1"

lemma wf_so_ok: "wf_cpu c \<Longrightarrow> so_ok c"
  unfolding so_ok_def using wf_cpu_xer[of c] u8_le_1_cases[of "xer_so (xer c)"] by (auto simp: wf_xer_def)

lemma so_ok_simps [simp]:
  "so_ok (set_gpr i v c) = so_ok c" "so_ok (c\<lparr>pc := p\<rparr>) = so_ok c" "so_ok (c\<lparr>cr := x\<rparr>) = so_ok c"
  "so_ok (c\<lparr>mem := m\<rparr>) = so_ok c" "so_ok (update_xer (xer_set_ca b) c) = so_ok c"
  by (simp_all add: so_ok_def set_gpr_def)

lemma so_ok_ov [simp]: "so_ok c \<Longrightarrow> so_ok (update_xer (xer_set_ov b) c)"
  unfolding so_ok_def by (auto simp: of_flag_def)

lemma so_ok_upd_if [simp]: "so_ok c \<Longrightarrow> (so_ok c \<Longrightarrow> so_ok (f c)) \<Longrightarrow> so_ok (upd_if b f c)"
  by (simp add: upd_if_def)

lemma so_flag: "so_ok c \<Longrightarrow> ucast (xer_so (xer c)) = (of_flag (xer_so (xer c) \<noteq> 0) :: u32)"
  by (auto simp: so_ok_def of_flag_def)

section \<open>Recording results\<close>

lemma CR_masks_0:
  "field_mask (CR_field 0) = push_bit 28 0xf" "field_mask (CR_LT_field 0) = push_bit 28 8"
  "field_mask (CR_GT_field 0) = push_bit 28 4" "field_mask (CR_EQ_field 0) = push_bit 28 2"
  by code_simp+

lemma cr_set_field_0: "cr_set_field x 0 v = x AND NOT (field_mask (CR_field 0)) OR push_bit 28 v"
  by (simp add: cr_set_field_def cr_clear_def CR_masks_0)

lemma do_record_cr0_eq: "so_ok c \<Longrightarrow> do_record_cr0 v c = record_cr0 v c"
proof -
  assume so: "so_ok c"
  have "cr (record_cr0 v c) = cr_set_field (cr c) 0 (cr_code (sint v) (xer_so (xer c) \<noteq> 0))"
    by (rule record_cr0_cr)
  also have "\<dots> = cr (do_record_cr0 v c)"
    unfolding cr_set_field_0 do_record_cr0_def Let_def so_flag[OF so] cr_code_def push_bit_or CR_masks_0
    by (simp add: ac_simps)
  finally show ?thesis
    by (simp add: do_record_cr0_def record_cr0_def record_cr_def Let_def)
qed

lemma compare_code_eq:
  assumes "so_ok c"
  shows "compare_code CT a b c =
    cr_code (if ct_value CT a < ct_value CT b then - 1 else if ct_value CT a > ct_value CT b then 1 else 0)
      (xer_so (xer c) \<noteq> 0)"
  unfolding compare_code_def Let_def so_flag[OF assms] cr_code_def standalone_CR_masks by (simp add: ac_simps)

lemma record_cr_compare: 
  "so_ok c \<Longrightarrow> c\<lparr>cr := cr_set_field (cr c) k (compare_code CT a b c)\<rparr> =
     record_cr k (if ct_value CT a < ct_value CT b then - 1 else if ct_value CT a > ct_value CT b then 1 else 0) c"
  unfolding compare_code_eq record_cr_field[symmetric] by (simp add: record_cr_def)

lemma record_cr0_set_gpr [simp]: "set_gpr i w (record_cr0 v c) = record_cr0 v (set_gpr i w c)"
  by (simp add: record_cr0_def record_cr_def set_gpr_def)

lemma update_xer_set_gpr [simp]: "set_gpr i w (update_xer f c) = update_xer f (set_gpr i w c)"
  by (simp add: update_xer_def set_gpr_def)

lemma record_cr1_set_fpr [simp]: "set_fpr i w (record_cr1 c) = record_cr1 (set_fpr i w c)"
  by (simp add: record_cr1_def set_fpr_def)

end
