(* ===== verification/JIT_Cases.thy ===== *)
theory JIT_Cases
  imports JIT_Refine
begin

unbundle bit_operations_syntax

text \<open>
  The cases of the translator's switch against the instruction table: \<open>pmf_of_case\<close> is the handler whose work a case
  does, and every entry of the table whose mnemonic has a case has that handler.
\<close>

primrec op2_of_logic :: "logic_op \<Rightarrow> op2" where
  "op2_of_logic L_AND = op_and" | "op2_of_logic L_ANDC = op_andc" | "op2_of_logic L_EQV = op_eqv"
| "op2_of_logic L_NAND = op_nand" | "op2_of_logic L_NOR = op_nor" | "op2_of_logic L_OR = op_or"
| "op2_of_logic L_ORC = op_orc" | "op2_of_logic L_XOR = op_xor"

primrec pmf_of_arith :: "arith_op \<Rightarrow> execute_pmf" where
  "pmf_of_arith A_ADD = pmf_addition operand_RA operand_RB operand_NONE CA_BIT_0 OE_BIT_G RC_BIT_G"
| "pmf_of_arith A_ADDC = pmf_addition operand_RA operand_RB operand_NONE CA_BIT_1 OE_BIT_G RC_BIT_G"
| "pmf_of_arith A_ADDE = pmf_addition operand_RA operand_RB operand_XER_CA CA_BIT_1 OE_BIT_G RC_BIT_G"
| "pmf_of_arith A_SUBF = pmf_addition operand_RA_compl operand_RB operand_ONE CA_BIT_0 OE_BIT_G RC_BIT_G"
| "pmf_of_arith A_SUBFC = pmf_addition operand_RA_compl operand_RB operand_ONE CA_BIT_1 OE_BIT_G RC_BIT_G"
| "pmf_of_arith A_SUBFE = pmf_addition operand_RA_compl operand_RB operand_XER_CA CA_BIT_1 OE_BIT_G RC_BIT_G"
| "pmf_of_arith A_MULLW = pmf_multiply False True OE_BIT_G RC_BIT_G"
| "pmf_of_arith A_DIVW = pmf_divide True OE_BIT_G RC_BIT_G"
| "pmf_of_arith A_DIVWU = pmf_divide False OE_BIT_G RC_BIT_G"

primrec pmf_of_extend :: "extend_op \<Rightarrow> execute_pmf" where
  "pmf_of_extend A_ADDME = pmf_addition operand_RA operand_MINUS_ONE operand_XER_CA CA_BIT_1 OE_BIT_G RC_BIT_G"
| "pmf_of_extend A_ADDZE = pmf_addition operand_RA operand_ZERO operand_XER_CA CA_BIT_1 OE_BIT_G RC_BIT_G"
| "pmf_of_extend A_SUBFME = pmf_addition operand_RA_compl operand_XER_CA operand_MINUS_ONE CA_BIT_1 OE_BIT_G RC_BIT_G"
| "pmf_of_extend A_SUBFZE = pmf_addition operand_RA_compl operand_XER_CA operand_ZERO CA_BIT_1 OE_BIT_G RC_BIT_G"

primrec fp_op3_of :: "fp_macc \<Rightarrow> bool \<Rightarrow> fp_op3" where
  "fp_op3_of do_fmadd sp = op_fmadd" | "fp_op3_of do_fmsub sp = op_fmsub"
| "fp_op3_of do_fnmadd sp = (if sp then op_fnmadds else op_fnmadd)"
| "fp_op3_of do_fnmsub sp = (if sp then op_fnmsubs else op_fnmsub)"

definition fp_type_of :: "fp_type \<Rightarrow> fp_macc \<Rightarrow> fp_type" where
  "fp_type_of FP f = (if f = do_fnmadd \<or> f = do_fnmsub then FP_double else FP)"

abbreviation ls_RA :: "bool \<Rightarrow> operand" where "ls_RA update \<equiv> if update then operand_RA else operand_RA_or_0"
abbreviation ls_RB :: "bool \<Rightarrow> operand" where "ls_RB indexed \<equiv> if indexed then operand_RB else operand_D"

text \<open>The handler that the instruction table gives the instructions of a case.\<close>

primrec pmf_of_case :: "jit_case \<Rightarrow> execute_pmf" where
  "pmf_of_case (do_load sz sign update indexed) =
     pmf_loadstore (if sign \<and> sz = Size2 then op_sign_extend_16_32 else op_nop) (ls_RA update) (ls_RB indexed) True sz update False"
| "pmf_of_case (do_store sz update indexed) =
     pmf_loadstore op_nop (ls_RA update) (ls_RB indexed) False sz update False"
| "pmf_of_case case_LMW = pmf_loadstore_multiple operand_RA_or_0 operand_D True"
| "pmf_of_case case_STMW = pmf_loadstore_multiple operand_RA_or_0 operand_D False"
| "pmf_of_case case_LWARX = pmf_lwarx operand_RA_or_0"
| "pmf_of_case case_STWCX = pmf_stwcx operand_RA_or_0"
| "pmf_of_case case_BC = pmf_branch operand_PC operand_BO operand_BD AA_BIT_G LK_BIT_G"
| "pmf_of_case case_BCCTR = pmf_branch operand_CTR operand_BO operand_ZERO AA_BIT_0 LK_BIT_G"
| "pmf_of_case case_BCLR = pmf_branch operand_LR operand_BO operand_ZERO AA_BIT_0 LK_BIT_G"
| "pmf_of_case case_B =
     pmf_branch operand_PC (immediate_value (uint (BO_MAKE False False False False))) operand_LI AA_BIT_G LK_BIT_G"
| "pmf_of_case case_CMP = pmf_compare operand_RB CT_int32"
| "pmf_of_case case_CMPI = pmf_compare operand_SIMM CT_int32"
| "pmf_of_case case_CMPL = pmf_compare operand_RB CT_uint32"
| "pmf_of_case case_CMPLI = pmf_compare operand_UIMM CT_uint32"
| "pmf_of_case (case_CR f) = pmf_cr_op (op2_of_logic f)"
| "pmf_of_case (case_logic f) =
     pmf_generic_arith (OP2 (op2_of_logic f)) operand_RA operand_RS operand_RB operand_NONE OE_BIT_0 RC_BIT_G"
| "pmf_of_case case_OR =
     pmf_generic_arith (OP2 op_or) operand_RA operand_RS operand_RB operand_NONE OE_BIT_0 RC_BIT_G"
| "pmf_of_case case_ORI =
     pmf_generic_arith (OP2 op_or) operand_RA operand_RS operand_UIMM operand_NONE OE_BIT_0 RC_BIT_0"
| "pmf_of_case case_XORI =
     pmf_generic_arith (OP2 op_xor) operand_RA operand_RS operand_UIMM operand_NONE OE_BIT_0 RC_BIT_0"
| "pmf_of_case case_ORIS =
     pmf_generic_arith (OP2 op_or) operand_RA operand_RS operand_UIMM_shifted operand_NONE OE_BIT_0 RC_BIT_0"
| "pmf_of_case case_XORIS =
     pmf_generic_arith (OP2 op_xor) operand_RA operand_RS operand_UIMM_shifted operand_NONE OE_BIT_0 RC_BIT_0"
| "pmf_of_case case_ANDI =
     pmf_generic_arith (OP2 op_and) operand_RA operand_RS operand_UIMM operand_NONE OE_BIT_0 RC_BIT_1"
| "pmf_of_case case_ANDIS =
     pmf_generic_arith (OP2 op_and) operand_RA operand_RS operand_UIMM_shifted operand_NONE OE_BIT_0 RC_BIT_1"
| "pmf_of_case case_EXTSB =
     pmf_generic_arith (OP1 op_sign_extend_8_32) operand_RA operand_RS operand_NONE operand_NONE OE_BIT_0 RC_BIT_G"
| "pmf_of_case case_EXTSH =
     pmf_generic_arith (OP1 op_sign_extend_16_32) operand_RA operand_RS operand_NONE operand_NONE OE_BIT_0 RC_BIT_G"
| "pmf_of_case case_NEG =
     pmf_generic_arith (OP1 op_neg) operand_RD operand_RA operand_NONE operand_NONE OE_BIT_G RC_BIT_G"
| "pmf_of_case case_MFCR =
     pmf_generic_arith (OP1 op_nop) operand_RD operand_CR operand_NONE operand_NONE OE_BIT_0 RC_BIT_0"
| "pmf_of_case case_MFSPR = pmf_mfspr operand_SPR"
| "pmf_of_case case_MTSPR = pmf_mtspr operand_SPR"
| "pmf_of_case (case_arith f) = pmf_of_arith f"
| "pmf_of_case case_ADDIC = pmf_addition operand_RA operand_SIMM operand_NONE CA_BIT_1 OE_BIT_0 RC_BIT_0"
| "pmf_of_case case_ADDIC_dot = pmf_addition operand_RA operand_SIMM operand_NONE CA_BIT_1 OE_BIT_0 RC_BIT_1"
| "pmf_of_case case_SUBFIC = pmf_addition operand_RA_compl operand_SIMM operand_ONE CA_BIT_1 OE_BIT_0 RC_BIT_0"
| "pmf_of_case (case_extend f) = pmf_of_extend f"
| "pmf_of_case case_ADDI = pmf_addition operand_RA_or_0 operand_SIMM operand_NONE CA_BIT_0 OE_BIT_0 RC_BIT_0"
| "pmf_of_case case_ADDIS = pmf_addition operand_RA_or_0 operand_SIMM_shifted operand_NONE CA_BIT_0 OE_BIT_0 RC_BIT_0"
| "pmf_of_case case_RLWIMI = pmf_rlwimi operand_SH operand_MASK RC_BIT_G"
| "pmf_of_case case_RLWINM =
     pmf_generic_arith (OP3 op_ppc_rlwinm) operand_RA operand_RS operand_SH operand_MASK OE_BIT_0 RC_BIT_G"
| "pmf_of_case case_RLWNM =
     pmf_generic_arith (OP3 op_ppc_rlwnm) operand_RA operand_RS operand_RB operand_MASK OE_BIT_0 RC_BIT_G"
| "pmf_of_case case_CNTLZW =
     pmf_generic_arith (OP1 op_cntlzw) operand_RA operand_RS operand_NONE operand_NONE OE_BIT_0 RC_BIT_G"
| "pmf_of_case case_SLW = pmf_shift op_shll operand_RA operand_RS operand_RB (op_andi 0x3f) CA_BIT_0 RC_BIT_G"
| "pmf_of_case case_SRW = pmf_shift op_shrl operand_RA operand_RS operand_RB (op_andi 0x3f) CA_BIT_0 RC_BIT_G"
| "pmf_of_case case_SRAW = pmf_shift op_shra operand_RA operand_RS operand_RB (op_andi 0x3f) CA_BIT_1 RC_BIT_G"
| "pmf_of_case case_SRAWI = pmf_shift op_shra operand_RA operand_RS operand_SH (op_andi 0x1f) CA_BIT_1 RC_BIT_G"
| "pmf_of_case case_MULHW = pmf_multiply True True OE_BIT_0 RC_BIT_G"
| "pmf_of_case case_MULHWU = pmf_multiply True False OE_BIT_0 RC_BIT_G"
| "pmf_of_case case_MULLI =
     pmf_generic_arith (OP2 op_smul) operand_RD operand_RA operand_SIMM operand_NONE OE_BIT_0 RC_BIT_0"
| "pmf_of_case case_DCBZ = pmf_dcbz operand_RA_or_0 operand_RB"
| "pmf_of_case case_nop = pmf_nop"
| "pmf_of_case case_ISYNC = pmf_isync"
| "pmf_of_case case_MTCRF = pmf_mtcrf"
| "pmf_of_case case_MCRF = pmf_mcrf"
| "pmf_of_case (do_fp_load double update indexed) =
     pmf_fp_loadstore (ls_RA update) (ls_RB indexed) True double update"
| "pmf_of_case (do_fp_store double update indexed) =
     pmf_fp_loadstore (ls_RA update) (ls_RB indexed) False double update"
| "pmf_of_case (case_fp1 f) =
     pmf_fp_arith FP_double (FOP1 f) operand_fp_RD operand_fp_RB operand_fp_NONE operand_fp_NONE RC_BIT_G False"
| "pmf_of_case (case_fp2 FP f) =
     pmf_fp_arith FP (FOP2 f) operand_fp_RD operand_fp_RA (if f = op_fmul then operand_fp_RC else operand_fp_RB)
       operand_fp_NONE RC_BIT_G True"
| "pmf_of_case (case_fp3 FP f) =
     pmf_fp_arith (fp_type_of FP f) (FOP3 (fp_op3_of f (FP = FP_float))) operand_fp_RD operand_fp_RA operand_fp_RC
       operand_fp_RB RC_BIT_G True"
| "pmf_of_case case_vector = pmf_nop"

section \<open>The table\<close>

definition jit_agrees :: "instr_info_t \<Rightarrow> bool" where
  "jit_agrees ii \<longleftrightarrow>
     (case jit_case_of (ii_mnemo ii) of
        None \<Rightarrow> True | Some c \<Rightarrow> c = case_vector \<or> ii_execute ii = pmf_of_case c)"

lemma map_of_step: "map_of ((k', v) # xs) k = (if k = k' then Some v else map_of xs k)"
  by simp

lemmas jit_lookup = jit_case_of_def lookup_first.simps map_of_step map_of.simps(1) option.case
  jit_cases_load_def jit_cases_store_def jit_cases_system_def jit_cases_logic_def jit_cases_arith_def
  jit_cases_shift_def jit_cases_cache_def jit_cases_fp_mem_def jit_cases_fp_def
  jit_cases_vector1_def jit_cases_vector2_def jit_cases_vector3_def

lemmas string_eval = list.inject list.distinct char.inject simp_thms if_True if_False

lemmas agrees_eval = list.pred_inject jit_agrees_def instr_info_t.sel jit_lookup string_eval pmf_of_case.simps
  pmf_of_arith.simps pmf_of_extend.simps op2_of_logic.simps fp_op2.distinct fp_op3_of.simps fp_type_of_def
  fp_macc.distinct fp_type.distinct access_size.distinct

lemma agrees_01: "list_all jit_agrees powerpc_ii_table_01"
  unfolding powerpc_ii_table_01_def by (simp only: agrees_eval)

lemma agrees_02: "list_all jit_agrees powerpc_ii_table_02"
  unfolding powerpc_ii_table_02_def by (simp only: agrees_eval)

lemma agrees_03: "list_all jit_agrees powerpc_ii_table_03"
  unfolding powerpc_ii_table_03_def by (simp only: agrees_eval)

lemma agrees_04: "list_all jit_agrees powerpc_ii_table_04"
  unfolding powerpc_ii_table_04_def by (simp only: agrees_eval)

lemma agrees_05: "list_all jit_agrees powerpc_ii_table_05"
  unfolding powerpc_ii_table_05_def by (simp only: agrees_eval)

lemma agrees_06: "list_all jit_agrees powerpc_ii_table_06"
  unfolding powerpc_ii_table_06_def by (simp only: agrees_eval)

lemma agrees_07: "list_all jit_agrees powerpc_ii_table_07"
  unfolding powerpc_ii_table_07_def by (simp only: agrees_eval)

lemma agrees_08: "list_all jit_agrees powerpc_ii_table_08"
  unfolding powerpc_ii_table_08_def by (simp only: agrees_eval)

lemma agrees_09: "list_all jit_agrees powerpc_ii_table_09"
  unfolding powerpc_ii_table_09_def by (simp only: agrees_eval)

lemma agrees_10: "list_all jit_agrees powerpc_ii_table_10"
  unfolding powerpc_ii_table_10_def by (simp only: agrees_eval)

lemma agrees_11: "list_all jit_agrees powerpc_ii_table_11"
  unfolding powerpc_ii_table_11_def by (simp only: agrees_eval)

lemma agrees_12: "list_all jit_agrees powerpc_ii_table_12"
  unfolding powerpc_ii_table_12_def by (simp only: agrees_eval)

lemma agrees_sheep: "list_all jit_agrees sheep_ii_table"
  unfolding sheep_ii_table_def by (simp only: agrees_eval)

lemma core_table_agrees: "list_all jit_agrees powerpc_ii_table"
  by (simp add: powerpc_ii_table_def agrees_01 agrees_02 agrees_03 agrees_04 agrees_05 agrees_06 agrees_07
      agrees_08 agrees_09 agrees_10 agrees_11 agrees_12)

lemma table_agrees: "ii \<in> set full_ii_table \<Longrightarrow> jit_agrees ii"
  using core_table_agrees agrees_sheep by (auto simp: list_all_iff)

end
