(* ===== verification/JIT_Sim.thy ===== *)
theory JIT_Sim
  imports JIT_Cases
begin

unbundle bit_operations_syntax

text \<open>
  The code of each case of the switch that is not a branch simulates the handler of the case, for every
  instruction word and every well-formed state: integer arithmetic, logic, shifts and rotates, compares, condition
  register and special registers, loads and stores, floating point.
\<close>

lemmas jit_gen = gen_S_to_A_def gen_A_to_D_def gen_Rc_cr0_def gen_Rc_cr1_def gen_logic_imm_def imm_def
  gen_compare_T0_T1_def gen_compare_T0_im_def gen_compare_logical_T0_T1_def gen_compare_logical_T0_im_def
  gen_OR_def gen_ORI_def gen_addi_def gen_RLWIMI_def gen_MFSPR_def gen_MTSPR_def

lemma gen_logic_32_T0_T1 [jit_ops]:
  "gen_logic_32_T0_T1 f = get_T T0 (\<lambda>a. get_T T1 (\<lambda>b. set_T T0 (op2_apply (op2_of_logic f) a b)))"
  by (cases f) (simp_all add: jit_alu_ops)

definition sim_case :: "'h sheep_host_scheme \<Rightarrow> jit_case \<Rightarrow> u32 \<Rightarrow> u32 \<Rightarrow> vcpu \<Rightarrow> bool" where
  "sim_case H c opcode dpc s \<longleftrightarrow>
     simulates (gen_case H c opcode) (call_pmf H (pmf_of_case c) opcode) dpc s"

lemmas sim_defs = sim_case_def simulates_def Let_def upd_if_def do_record_cr0_eq

definition jit_ready :: "vcpu \<Rightarrow> bool" where
  "jit_ready s \<longleftrightarrow> exit s = Running \<and> wf_cpu (jcpu s)"

lemma readyD:
  assumes "jit_ready s"
  shows "exit s = Running" "wf_cpu (jcpu s)" "so_ok (jcpu s)"
  using assms by (simp_all add: jit_ready_def wf_so_ok)

lemma set_gpr_self [simp]: "set_gpr i (gpr c i) c = c" by (simp add: set_gpr_def)

lemma gpr_pc [simp]: "gpr (c\<lparr>pc := p\<rparr>) = gpr c" by simp



lemma sim_compare:
  assumes "jit_ready s"
  shows "sim_case H case_CMP opcode dpc s" "sim_case H case_CMPI opcode dpc s"
  "sim_case H case_CMPL opcode dpc s" "sim_case H case_CMPLI opcode dpc s"
  using readyD[OF assms] by (simp_all add: sim_defs execute_compare_def jit_ops jit_gen record_cr_compare)

lemma sim_CR:
  assumes "jit_ready s"
  shows "sim_case H (case_CR f) opcode dpc s"
  using readyD[OF assms] by (simp add: sim_defs execute_cr_op_def jit_ops jit_gen increment_pc_def)

lemma sim_logic:
  assumes "jit_ready s"
  shows "sim_case H (case_logic f) opcode dpc s"
  using readyD[OF assms] by (simp add: sim_defs execute_generic_arith_def jit_ops jit_gen)

lemma sim_OR:
  assumes "jit_ready s"
  shows "sim_case H case_OR opcode dpc s"
  using readyD[OF assms] by (simp add: sim_defs execute_generic_arith_def jit_ops jit_gen)

lemma sim_ORI:
  assumes "jit_ready s"
  shows "sim_case H case_ORI opcode dpc s"
  using readyD[OF assms] by (simp add: sim_defs execute_generic_arith_def jit_ops jit_gen)

lemma sim_logic_imm:
  assumes "jit_ready s"
  shows "sim_case H case_XORI opcode dpc s" "sim_case H case_ORIS opcode dpc s" "sim_case H case_XORIS opcode dpc s"
  "sim_case H case_ANDI opcode dpc s" "sim_case H case_ANDIS opcode dpc s"
  using readyD[OF assms] by (simp_all add: sim_defs execute_generic_arith_def jit_ops jit_gen)

lemma sim_ext:
  assumes "jit_ready s"
  shows "sim_case H case_EXTSB opcode dpc s" "sim_case H case_EXTSH opcode dpc s"
  using readyD[OF assms]
  by (simp_all add: sim_defs execute_generic_arith_def jit_ops jit_gen op_sign_extend_8_32_apply_def
      op_sign_extend_16_32_apply_def)

lemma sim_NEG:
  assumes "jit_ready s"
  shows "sim_case H case_NEG opcode dpc s"
  using readyD[OF assms] by (simp add: sim_defs execute_generic_arith_def jit_ops jit_gen)

lemma sim_spr:
  assumes "jit_ready s"
  shows "sim_case H case_MFCR opcode dpc s" "sim_case H case_MFSPR opcode dpc s" "sim_case H case_MTSPR opcode dpc s"
  using readyD[OF assms]
  by (simp_all add: sim_defs execute_generic_arith_def execute_mfspr_def execute_mtspr_def jit_ops jit_gen
     increment_pc_def)

lemma sim_addi:
  assumes "jit_ready s"
  shows "sim_case H case_ADDI opcode dpc s" "sim_case H case_ADDIS opcode dpc s"
  using readyD[OF assms] by (auto simp: sim_defs execute_addition_def jit_ops jit_gen)

lemma sim_RLWIMI:
  assumes "jit_ready s"
  shows "sim_case H case_RLWIMI opcode dpc s"
  using readyD[OF assms] by (simp add: sim_defs execute_rlwimi_def jit_ops jit_gen)


section \<open>Arithmetic\<close>

lemma op_carry_add_swap: "op_carry_add a b c = op_carry_add a c b"
  by (simp add: op_carry_add_def ac_simps)

lemma op_overflow_add_swap: "op_overflow_add a b c = op_overflow_add a c b"
  by (simp add: op_overflow_add_def ac_simps)

lemma sint_mult_low: "(ucast ((scast a :: u64) * scast b) :: u32) = a * b"
proof -
  have low: "(ucast (word_of_int k :: u64) :: u32) = word_of_int k" for k
    by (rule bit_word_eqI) (simp add: bit_unsigned_iff bit_word_of_int_iff)
  have prod: "(scast a :: u64) * scast b = word_of_int (sint a * sint b)" by (simp only: scast_eq of_int_mult)
  show ?thesis unfolding prod low by (simp only: of_int_mult) (simp add: scast_id)
qed

lemma sub_as_add: "(b :: u32) - a = NOT a + b + 1" by (simp add: not_eq_complement)

lemma minus_one_32: "(0xffffffff :: u32) = - 1" by simp

lemma sim_arith_add:
  assumes "jit_ready s" "f \<in> {A_ADD, A_ADDC, A_ADDE}"
  shows "sim_case H (case_arith f) opcode dpc s"
  using readyD[OF assms(1)] assms(2)
  by (auto simp: sim_defs execute_addition_def jit_ops jit_gen do_execute_addition_eq xer_operand_get_def)

lemma sim_arith_sub:
  assumes "jit_ready s" "f \<in> {A_SUBF, A_SUBFC, A_SUBFE}"
  shows "sim_case H (case_arith f) opcode dpc s"
  using readyD[OF assms(1)] assms(2)
  by (auto simp: sim_defs execute_addition_def jit_ops jit_gen do_execute_subtract_eq
      do_execute_subtract_extended_eq xer_operand_get_def sub_as_add)

lemma sim_addic:
  assumes "jit_ready s"
  shows "sim_case H case_ADDIC opcode dpc s" "sim_case H case_ADDIC_dot opcode dpc s" "sim_case H case_SUBFIC opcode dpc s"
  using readyD[OF assms]
  by (simp_all add: sim_defs execute_addition_def jit_ops jit_gen do_execute_addition_eq do_execute_subtract_eq)

lemma sim_extend:
  assumes "jit_ready s"
  shows "sim_case H (case_extend f) opcode dpc s"
  using readyD[OF assms]
  by (cases f) (auto simp: sim_defs execute_addition_def jit_ops jit_gen do_execute_addition_eq
      do_execute_subtract_extended_eq xer_operand_get_def minus_one_32 algebra_simps
      op_carry_add_swap[of _ "ucast _"] op_overflow_add_swap[of _ "ucast _"])

lemma sim_divide:
  assumes "jit_ready s" "f \<in> {A_DIVW, A_DIVWU}"
  shows "sim_case H (case_arith f) opcode dpc s"
  using readyD[OF assms(1)] assms(2)
  by (auto simp: sim_defs execute_divide_def do_execute_divide_def jit_ops jit_gen)

section \<open>Multiplication and shifts\<close>

lemma scast_low: "scast (ucast w :: u32) = (w :: u64) \<longleftrightarrow> - (2 ^ 31) \<le> sint w \<and> sint w < 2 ^ 31"
proof -
  have "sint (scast (ucast w :: u32) :: u64) = sint (ucast w :: u32)" by (rule sint_scast_narrow) simp
  also have "\<dots> = signed_take_bit 31 (sint w)"
    by (rule bit_eqI) (auto simp: bit_sint_iff bit_unsigned_iff bit_signed_take_bit_iff min_def not_le
        intro: le_antisym dest: le_less_Suc_eq[of 31, simplified])
  finally have "scast (ucast w :: u32) = w \<longleftrightarrow> signed_take_bit 31 (sint w) = sint w"
    by (metis signed_word_eqI)
  then show ?thesis by (simp add: signed_take_bit_int_eq_self_iff)
qed

lemma sim_mullw:
  assumes "jit_ready s"
  shows "sim_case H (case_arith A_MULLW) opcode dpc s"
  using readyD[OF assms]
  by (auto simp: sim_defs execute_multiply_def multiply_product_def sint_mult_low jit_ops jit_gen
      multiply_overflow_iff scast_low not_le not_less)

lemma mulhw_high: "(ucast (signed_drop_bit 32 w) :: u32) = ucast (drop_bit 32 (w :: u64))"
  by (rule bit_word_eqI) (auto simp: bit_unsigned_iff bit_signed_drop_bit_iff bit_drop_bit_eq)

lemma and_63_32: "((n :: u32) AND 63) AND 32 = n AND 32" by (simp add: and.assoc)

lemma and_31: "(n :: u32) < 32 \<Longrightarrow> n AND 31 = n"
proof -
  assume n: "n < 32"
  have m: "(31 :: u32) = mask 5" by (simp add: mask_eq_exp_minus_1)
  have "bit n k \<Longrightarrow> k < 5" for k using bit_less_2p[of n 5 k] n by (simp add: word_less_nat_alt)
  then show ?thesis unfolding m by (intro bit_word_eqI) (auto simp: bit_and_iff bit_mask_iff)
qed

lemma and_31_32: "((n :: u32) AND 31) AND 32 = 0" by (simp add: and.assoc)

lemma extract_5 [simp]:
  "field_extract SH_field opcode AND 31 = field_extract SH_field opcode"
  using field_extract_bound[of SH_field opcode] by (intro and_31) (simp add: word_less_nat_alt)

lemma extract_5_32 [simp]: "field_extract SH_field opcode AND 32 = 0"
  using and_31_32[of "field_extract SH_field opcode"] by simp

lemma sim_mulhw:
  assumes "jit_ready s"
  shows "sim_case H case_MULHW opcode dpc s" "sim_case H case_MULHWU opcode dpc s"
  using readyD[OF assms]
  by (auto simp: sim_defs execute_multiply_def multiply_product_def mulhw_high jit_ops jit_gen)

lemma sim_mulli:
  assumes "jit_ready s"
  shows "sim_case H case_MULLI opcode dpc s"
  using readyD[OF assms]
  by (auto simp: sim_defs execute_generic_arith_def jit_ops jit_gen)

lemma cntlzw_32_loop_eq: "cntlzw_32_loop x n m = cntlzw_loop x n m"
  by (induction x n m rule: cntlzw_loop.induct) (subst cntlzw_32_loop.simps, subst cntlzw_loop.simps, simp)

lemma sim_cntlzw:
  assumes "jit_ready s"
  shows "sim_case H case_CNTLZW opcode dpc s"
  using readyD[OF assms]
  by (auto simp: sim_defs execute_generic_arith_def jit_ops jit_gen cntlzw_32_loop_eq op_cntlzw_apply_def)

lemma sim_shift:
  assumes "jit_ready s"
  shows "sim_case H case_SLW opcode dpc s" "sim_case H case_SRW opcode dpc s"
  using readyD[OF assms]
  by (auto simp: sim_defs execute_shift_def shift_value_def and_63_32 jit_ops jit_gen)

lemma sra_high: "- drop_bit 31 (a :: u32) = 0 - drop_bit 31 a" by simp

lemma top_bit_sign: "(a :: u32) AND 0x80000000 \<noteq> 0 \<longleftrightarrow> sint a < 0"
  by (rule sign_bit_iff)

lemma neg_top: "drop_bit 31 (- drop_bit 31 (a :: u32)) = drop_bit 31 a"
proof -
  have "drop_bit 31 a = of_flag (bit a 31)" by (rule drop_top_bit) simp
  then show ?thesis by (cases "bit a 31") (simp_all add: of_flag_def)
qed

lemma sim_sraw:
  assumes "jit_ready s"
  shows "sim_case H case_SRAW opcode dpc s" "sim_case H case_SRAWI opcode dpc s"
  using readyD[OF assms]
  by (auto simp: sim_defs execute_shift_def shift_value_def and_63_32 neg_top top_bit_sign op_shra_apply_def do_sraw_def and_31_32 jit_ops jit_gen)

section \<open>Rotates\<close>

lemma bit_rotl_mask:
  assumes "n < 32" "mb < 32" "me < 32" "i < 32"
  shows "bit (op_rotl_apply x n AND mask_operand_compute mb me) i \<longleftrightarrow>
    (if mb \<le> me then unat mb \<le> 31 - i \<and> 31 - i \<le> unat me else unat mb \<le> 31 - i \<or> 31 - i \<le> unat me) \<and>
    (if unat n \<le> i then bit x (i - unat n) else bit x (32 - unat n + i))"
proof -
  have c: "unat (32 - n) = 32 - unat n" using assms(1) by (simp add: unat_sub word_le_nat_alt word_less_nat_alt)
  have "bit (op_rotl_apply x n) i \<longleftrightarrow> (if unat n \<le> i then bit x (i - unat n) else bit x (32 - unat n + i))"
    using assms bit_imp_le_length[of x "32 - unat n + i"]
    unfolding op_rotl_apply_def c by (auto simp: bit_or_iff bit_push_bit_iff bit_drop_bit_eq word_less_nat_alt)
  moreover have "31 - (31 - i) = i" using assms by simp
  ultimately show ?thesis
    using bit_mask_operand_compute[of mb me "31 - i"] assms by (auto simp only: bit_and_iff)
qed

lemma rotl_0: "op_rotl_apply x 0 = x"
  using bit_imp_le_length[of x] by (intro bit_word_eqI) (auto simp: op_rotl_apply_def bit_or_iff bit_drop_bit_eq)

lemma full_mask: "mask_operand_compute 0 31 = - 1"
  by code_simp

lemma slwi_mask:
  assumes "n < 32"
  shows "op_rotl_apply x n AND mask_operand_compute 0 (31 - n) = push_bit (unat n) x"
proof (rule bit_word_eqI)
  fix i assume i: "i < LENGTH(32)"
  have u: "unat (31 - n) = 31 - unat n" "31 - n < 32" "unat n < 32"
    using assms by (simp_all add: unat_sub word_le_nat_alt word_less_nat_alt)
  show "bit (op_rotl_apply x n AND mask_operand_compute 0 (31 - n)) i = bit (push_bit (unat n) x) i"
    using i u assms by (auto simp: bit_rotl_mask bit_push_bit_iff)
qed

lemma srwi_mask:
  assumes "n < 32" "n \<noteq> 0"
  shows "op_rotl_apply x (32 - n) AND mask_operand_compute n 31 = drop_bit (unat n) x"
proof (rule bit_word_eqI)
  fix i assume i: "i < LENGTH(32)"
  have u: "unat (32 - n) = 32 - unat n" "32 - n < 32" "unat n < 32" "n \<le> 31" "0 < unat n"
    using assms by (simp_all add: unat_sub word_le_nat_alt word_less_nat_alt unat_gt_0)
  show "bit (op_rotl_apply x (32 - n) AND mask_operand_compute n 31) i = bit (drop_bit (unat n) x) i"
    using i u assms bit_imp_le_length[of x "unat n + i"] by (auto simp: bit_rotl_mask bit_drop_bit_eq)
qed

lemma run_rlwinm_body:
  assumes "exit s = Running" "tmp s T0 = Word a" "SH < 32" "MB < 32"
  shows "run (gen_rlwinm_body SH MB ME) s =
    Inr (s\<lparr>tmp := (tmp s)(T0 := Word (op_rotl_apply a SH AND mask_operand_compute MB ME))\<rparr>)"
  using assms
  by (auto simp: gen_rlwinm_body_def Let_def jit_ops do_rol_32_def op_rotl_apply_def[symmetric] full_mask rotl_0
      slwi_mask srwi_mask fun_upd_idem word_gt_0)

lemma extract_less [simp]:
  "field_extract SH_field opcode < 32" "field_extract MB_field opcode < 32" "field_extract ME_field opcode < 32"
  using field_extract_bound[of SH_field opcode] field_extract_bound[of MB_field opcode] field_extract_bound[of ME_field opcode]
  by (simp_all add: word_less_nat_alt wf_field_def field_width_def)

lemma sim_rlwinm:
  assumes "jit_ready s"
  shows "sim_case H case_RLWINM opcode dpc s"
  using readyD[OF assms]
  by (auto simp: sim_defs execute_generic_arith_def jit_ops jit_gen run_rlwinm_body)

lemma run_rlwnm_body:
  assumes "exit s = Running" "tmp s T0 = Word a" "tmp s T1 = Word b"
  shows "run (gen_rlwnm_body MB ME) s =
    Inr (s\<lparr>tmp := (tmp s)(T0 := Word (op_rotl_apply a b AND mask_operand_compute MB ME))\<rparr>)"
  using assms by (auto simp: gen_rlwnm_body_def jit_ops do_rol_32_def op_rotl_apply_def[symmetric] full_mask)

lemma sim_rlwnm:
  assumes "jit_ready s" "gpr (jcpu s) (regno rB_field opcode) < 32"
  shows "sim_case H case_RLWNM opcode dpc s"
  using readyD[OF assms(1)] and_31[OF assms(2)]
  by (auto simp: sim_defs execute_generic_arith_def jit_ops jit_gen run_rlwnm_body)

section \<open>Loads and stores\<close>

lemmas jit_mem_ops = op_load_u8_T0_T1_def op_load_u16_T0_T1_def op_load_s16_T0_T1_def op_load_u32_T0_T1_def
  op_store_8_T0_T1_def op_store_16_T0_T1_def op_store_32_T0_T1_def op_load_double_FD_T1_def
  op_load_single_FD_T1_def op_store_double_F0_T1_def op_store_single_F0_T1_def gen_mem_def gen_mem_im_def
  gen_ea_RZ_def gen_update_RA_def

lemma u8_bit: "bit (x :: u8) n \<Longrightarrow> n < 8" using bit_imp_le_length[of x n] by simp

lemma vm_read_narrow:
  "ucast (ucast (vm_read_memory_1 m ea) :: u8) = vm_read_memory_1 m ea"
  "scast (ucast (vm_read_memory_2 m ea) :: u16) = op_sign_extend_16_32_apply (vm_read_memory_2 m ea)"
  by (auto simp: op_sign_extend_16_32_apply_def vm_read_memory_1_def vm_do_read_memory_1_def
      bit_unsigned_iff dest: u8_bit intro!: bit_word_eqI)

lemma vm_read_narrow_2: "ucast (ucast (vm_read_memory_2 m ea) :: u16) = vm_read_memory_2 m ea"
proof (rule bit_word_eqI)
  fix n assume "n < LENGTH(32)"
  have "bit (vm_read_memory_2 m ea) n \<Longrightarrow> n < 16"
    using u8_bit[of "m (vm_do_get_real_address ea)" "n - 8"] u8_bit[of "m (vm_do_get_real_address ea + 1)" n]
    by (auto simp: vm_read_memory_2_def vm_do_read_memory_2_def bit_unsigned_iff bit_or_iff bit_push_bit_iff)
  then show "bit (ucast (ucast (vm_read_memory_2 m ea) :: u16) :: u32) n = bit (vm_read_memory_2 m ea) n"
    by (auto simp: bit_unsigned_iff dest: bit_imp_le_length)
qed

lemma sim_load:
  assumes "jit_ready s"
  shows "sim_case H (do_load sz sign update indexed) opcode dpc s"
  using readyD[OF assms]
  by (cases sz; cases sign; cases update; cases indexed)
    (auto simp: sim_defs execute_loadstore_def jit_ops jit_gen jit_mem_ops gen_do_load_def vm_read_narrow vm_read_narrow_2)

lemma mem_set_gpr [simp]: "(set_gpr i v c)\<lparr>mem := m\<rparr> = set_gpr i v (c\<lparr>mem := m\<rparr>)"
  "mem (set_gpr i v c) = mem c" "mem (set_fpr i w c) = mem c"
  by (simp_all add: set_gpr_def set_fpr_def)

lemma sim_store:
  assumes "jit_ready s"
  shows "sim_case H (do_store sz update indexed) opcode dpc s"
  using readyD[OF assms(1)]
  by (cases sz; cases update; cases indexed)
    (auto simp: sim_defs execute_loadstore_def jit_ops jit_gen jit_mem_ops gen_do_store_def)

lemma sim_fp_load:
  assumes "jit_ready s"
  shows "sim_case H (do_fp_load double update indexed) opcode dpc s"
  using readyD[OF assms(1)]
  by (cases double; cases update; cases indexed)
    (auto simp: sim_defs execute_fp_loadstore_def jit_ops jit_gen jit_mem_ops gen_do_fp_load_def)

lemma sim_fp_store:
  assumes "jit_ready s"
  shows "sim_case H (do_fp_store double update indexed) opcode dpc s"
  using readyD[OF assms(1)]
  by (cases double; cases update; cases indexed)
    (auto simp: sim_defs execute_fp_loadstore_def jit_ops jit_gen jit_mem_ops gen_do_fp_store_def)

lemma and_minus_32: "(a :: u32) AND - 32 = a - a mod 32"
proof -
  have m: "(- 32 :: u32) = NOT (mask 5)" by (simp add: mask_eq_exp_minus_1)
  have "take_bit 5 a + (a AND NOT (mask 5)) = take_bit 5 a OR (a AND NOT (mask 5))"
    by (rule disjunctive_add_eq_or) (auto simp: bit_eq_iff bit_and_iff bit_not_iff bit_mask_iff bit_take_bit_iff)
  also have "\<dots> = a"
    by (rule bit_word_eqI) (auto simp: bit_or_iff bit_and_iff bit_not_iff bit_mask_iff bit_take_bit_iff)
  finally have "a - take_bit 5 a = a AND NOT (mask 5)" by (simp add: algebra_simps)
  then show ?thesis unfolding m by (simp add: take_bit_eq_mod)
qed

lemma sim_dcbz:
  assumes "jit_ready s"
  shows "sim_case H case_DCBZ opcode dpc s"
  using readyD[OF assms(1)]
  by (auto simp: sim_defs execute_dcbz_def jit_ops jit_gen gen_DCBZ_def op_dcbz_T0_def and_minus_32)

lemma sim_lwarx:
  assumes "jit_ready s"
  shows "sim_case H case_LWARX opcode dpc s"
  using readyD[OF assms(1)]
  by (auto simp: sim_defs execute_lwarx_def jit_ops jit_gen gen_reserve_ea_def op_lwarx_T0_T1_def)

lemma sim_misc:
  assumes "jit_ready s"
  shows "sim_case H case_nop opcode dpc s" "sim_case H case_ISYNC opcode dpc s"
    "sim_case H case_MTCRF opcode dpc s" "sim_case H case_MCRF opcode dpc s"
  using readyD[OF assms(1)]
  by (auto simp: sim_defs execute_nop_def execute_isync_def execute_mtcrf_def execute_mcrf_def jit_ops jit_gen op_invoke_CPU_def
     increment_pc_def execute_invalidate_cache_range_def invalidate_cache_range_def or.commute)

lemma sim_fp1:
  assumes "jit_ready s"
  shows "sim_case H (case_fp1 f) opcode dpc s"
  using readyD[OF assms(1)]
  by (cases f) (auto simp: sim_defs execute_fp_arith_def jit_ops jit_gen gen_fp1_def op_fmov_FD_F0_def
    op_fabs_FD_F0_def op_fneg_FD_F0_def op_fnabs_FD_F0_def record_cr1_def set_fpr_def)


lemma classify_off: "field_test FPSCR_VE_field (fpscr c) \<Longrightarrow> (FPSCR \<and> \<not> field_test FPSCR_VE_field (fpscr c)) = False"
  by simp

lemma sim_fp2:
  assumes "jit_ready s" "field_test FPSCR_VE_field (fpscr (jcpu s))"
  shows "sim_case H (case_fp2 FP f) opcode dpc s"
  using readyD[OF assms(1)] assms(2)
  by (cases f; cases FP) (auto simp: sim_defs execute_fp_arith_def jit_ops jit_gen gen_fp2_def op_fop_FD_F0_F1_def
    op_fops_FD_F0_F1_def record_cr1_def set_fpr_def)

lemma bit_push_flag: "bit (push_bit k (of_flag b :: u32)) n \<longleftrightarrow> b \<and> n = k \<and> n < 32"
  using bit_push_codes(4)[of k n] by (cases b) simp_all

lemma bit_if_push: "bit (if b then push_bit k 1 else 0 :: u32) n \<longleftrightarrow> b \<and> n = k \<and> n < 32"
  using bit_push_codes(4)[of k n] by simp

lemma stwcx_cr:
  "cr_set_so (cr_clear x 0) 0 b = x AND NOT (push_bit 28 0xf) OR push_bit 28 (of_flag b)"
  "cr_set_so (cr_set_field (cr_clear x 0) 0 2) 0 b =
     (x AND NOT (push_bit 28 0xf) OR push_bit 28 (of_flag b)) OR push_bit 28 2"
proof -
  have or15: "(0xf :: u32) = 8 OR 4 OR 2 OR 1" by simp
  note eval = cr_set_so_def cr_set_field_def cr_clear_def Let_def standalone_CR_masks mult_0_right diff_zero or15
    push_bit_or bit_or_iff bit_and_iff bit_not_iff possible_bit_word bit_push_flag bit_if_push bit_push_codes
  show "cr_set_so (cr_clear x 0) 0 b = x AND NOT (push_bit 28 0xf) OR push_bit 28 (of_flag b)"
    by (rule bit_word_eqI) (simp only: eval, auto)
  show "cr_set_so (cr_set_field (cr_clear x 0) 0 2) 0 b =
     (x AND NOT (push_bit 28 0xf) OR push_bit 28 (of_flag b)) OR push_bit 28 2"
    by (rule bit_word_eqI) (simp only: eval, auto)
qed

lemma stwcx_eq:
  assumes "so_ok c"
  shows "do_stwcx v ea c =
    (let d = c\<lparr>cr := cr_clear (cr c) 0\<rparr>;
         d = (if reserve_valid d \<noteq> 0
              then (let d = (if reserve_addr d = ea
                             then d\<lparr>mem := vm_write_memory_4 (mem d) ea v,
                                    cr := cr_set_field (cr d) 0 (field_mask standalone_CR_EQ_field)\<rparr>
                             else d)
                    in d\<lparr>reserve_valid := 0\<rparr>)
              else d)
     in d\<lparr>cr := cr_set_so (cr d) 0 (xer_so (xer d) \<noteq> 0)\<rparr>)"
  unfolding do_stwcx_def Let_def CR_masks_0 so_flag[OF assms]
  by (simp only: powerpc_cpu.simps powerpc_cpu.update_convs stwcx_cr standalone_CR_masks)
     (simp add: stwcx_cr)

lemma sim_stwcx:
  assumes "jit_ready s"
  shows "sim_case H case_STWCX opcode dpc s"
  using readyD[OF assms(1)]
  by (simp add: sim_defs execute_stwcx_def jit_ops jit_gen gen_reserve_ea_def op_stwcx_T0_T1_def stwcx_eq)

lemma do_lmw_32_eq: "do_lmw_32 r ad c = loadstore_multiple_loop True r ad c"
  by (induction r ad c rule: do_lmw_32.induct) (subst do_lmw_32.simps, subst loadstore_multiple_loop.simps, simp)

lemma do_stmw_32_eq: "do_stmw_32 r ad c = loadstore_multiple_loop False r ad c"
  by (induction r ad c rule: do_stmw_32.induct) (subst do_stmw_32.simps, subst loadstore_multiple_loop.simps, simp)

lemma do_lmw_eq: "n \<le> 31 \<Longrightarrow> snd (do_lmw n ad c) = loadstore_multiple_loop True n ad c"
proof (induction n ad c rule: do_lmw.induct)
  case (1 n ad c)
  then show ?case
    by (subst do_lmw.simps, subst loadstore_multiple_loop.simps)
       (auto simp: Let_def loadstore_multiple_loop.simps[of _ "Suc n"])
qed

lemma do_stmw_eq: "n \<le> 31 \<Longrightarrow> snd (do_stmw n ad c) = loadstore_multiple_loop False n ad c"
proof (induction n ad c rule: do_stmw.induct)
  case (1 n ad c)
  then show ?case
    by (subst do_stmw.simps, subst loadstore_multiple_loop.simps)
       (auto simp: Let_def loadstore_multiple_loop.simps[of _ "Suc n"])
qed

lemma loop_pc: "loadstore_multiple_loop LD r ea (c\<lparr>pc := p\<rparr>) = (loadstore_multiple_loop LD r ea c)\<lparr>pc := p\<rparr>"
proof (induction LD r ea c rule: loadstore_multiple_loop.induct)
  case (1 LD r ea c)
  have swap: "c\<lparr>pc := p, gpr := g\<rparr> = c\<lparr>gpr := g, pc := p\<rparr>" "c\<lparr>pc := p, mem := m\<rparr> = c\<lparr>mem := m, pc := p\<rparr>" for g m
    by simp_all
  show ?case
    using 1 by (subst (1 2) loadstore_multiple_loop.simps) (cases LD; simp add: set_gpr_def swap)
qed

lemma loop_pc_id: "(loadstore_multiple_loop LD r ea c)\<lparr>pc := pc c\<rparr> = loadstore_multiple_loop LD r ea c"
  using loop_pc[of LD r ea "pc c" c] by simp

lemma run_lmw:
  assumes "exit s = Running" "tmp s T0 = Word ea" "r \<le> 31"
  shows "\<exists>s'. run (gen_lmw_T0 r) s = Inr s' \<and> exit s' = Running \<and> jcpu s' = loadstore_multiple_loop True r ea (jcpu s)"
    "\<exists>s'. run (gen_stmw_T0 r) s = Inr s' \<and> exit s' = Running \<and> jcpu s' = loadstore_multiple_loop False r ea (jcpu s)"
  using assms do_lmw_eq[OF assms(3), of ea "jcpu s"] do_stmw_eq[OF assms(3), of ea "jcpu s"]
  by (auto simp: gen_lmw_T0_def gen_stmw_T0_def op_lmw_T0_def op_lmw_T0_im_def op_stmw_T0_def op_stmw_T0_im_def
      jit_ops do_lmw_32_eq do_stmw_32_eq split: prod.split)

lemma regno_31 [simp]: "regno rD_field opcode \<le> 31" "regno rS_field opcode \<le> 31"
  using regno_less_32[of rD_field opcode] regno_less_32[of rS_field opcode] by (simp_all add: wf_field_def field_width_def)

lemma run_multiple_ea:
  assumes "exit s = Running"
  shows "run (gen_multiple_ea opcode) s =
    Inr (s\<lparr>tmp := (tmp s)(T0 := Word (operand_get operand_RA_or_0 (jcpu s) opcode + operand_get operand_D (jcpu s) opcode))\<rparr>)"
  using assms by (auto simp: gen_multiple_ea_def Let_def jit_ops imm_def)

lemma sim_multiple:
  assumes "jit_ready s"
    "(operand_get operand_RA_or_0 (jcpu s) opcode + operand_get operand_D (jcpu s) opcode) AND 3 = 0"
  shows "sim_case H case_LMW opcode dpc s" "sim_case H case_STMW opcode dpc s"
proof -
  let ?ea = "operand_get operand_RA_or_0 (jcpu s) opcode + operand_get operand_D (jcpu s) opcode"
  let ?s = "s\<lparr>tmp := (tmp s)(T0 := Word ?ea)\<rparr>"
  note r = readyD[OF assms(1)]
  have e: "exit ?s = Running" "tmp ?s T0 = Word ?ea" using r by simp_all
  have g: "operand_get operand_RA_or_0 ((jcpu s)\<lparr>pc := dpc\<rparr>) opcode = operand_get operand_RA_or_0 (jcpu s) opcode"
    "operand_get operand_D ((jcpu s)\<lparr>pc := dpc\<rparr>) opcode = operand_get operand_D (jcpu s) opcode" by simp_all
  show "sim_case H case_LMW opcode dpc s" "sim_case H case_STMW opcode dpc s"
    using run_lmw(1)[OF e regno_31(1)[of opcode]] run_lmw(2)[OF e regno_31(2)[of opcode]] r
    unfolding sim_case_def simulates_def gen_case.simps run_append run_multiple_ea[OF r(1)] jbind.simps
      pmf_of_case.simps call_pmf.simps execute_loadstore_multiple_def Let_def g assms(2)
    by (auto simp: loop_pc loop_pc_id)
qed

end
