(* ===== verification/JIT_Branch.thy ===== *)
theory JIT_Branch
  imports JIT_Sim
begin

unbundle bit_operations_syntax

text \<open>
  The code of the branches: \<^verbatim>\<open>gen_bc\<close> for every BO value, with the canonical BO bits of
  \<^verbatim>\<open>prep_branch_bo\<close> and with or without direct chaining of blocks, takes the branch exactly when the handler does. The
  theory ends with \<open>jit_exact\<close>, the condition under which code and handler agree, and the
  simulation of every case that is not a branch in one lemma.
\<close>

section \<open>Preparation of a branch\<close>

definition same_bo :: "u32 \<Rightarrow> u32 \<Rightarrow> bool" where
  "same_bo p bo \<longleftrightarrow>
     BO_CONDITIONAL_BRANCH p = BO_CONDITIONAL_BRANCH bo \<and> BO_DECREMENT_CTR p = BO_DECREMENT_CTR bo \<and>
     (BO_CONDITIONAL_BRANCH bo \<longrightarrow> BO_BRANCH_IF_TRUE p = BO_BRANCH_IF_TRUE bo) \<and>
     (BO_DECREMENT_CTR bo \<longrightarrow> BO_BRANCH_IF_CTR_ZERO p = BO_BRANCH_IF_CTR_ZERO bo)"

lemma prep_branch_list: "list_all (\<lambda>k. same_bo (prep_branch_bo (word_of_nat k)) (word_of_nat k)) [0..<32]"
  by code_simp

lemma prep_branch_bo: "bo < 32 \<Longrightarrow> same_bo (prep_branch_bo bo) bo"
  using prep_branch_list unfolding list_all_iff by (auto simp: word_less_nat_alt dest: bspec[of _ _ "unat bo"])

lemma crb_test: "n < 32 \<Longrightarrow> drop_bit (31 - n) c AND 1 \<noteq> (0 :: u32) \<longleftrightarrow> cr_test c n"
  by (simp add: cr_test_bit and_one_eq mod2_eq_if bit_iff_odd_drop_bit)

definition branch_taken :: "u32 \<Rightarrow> u32 \<Rightarrow> powerpc_cpu \<Rightarrow> bool" where
  "branch_taken bo opcode c \<longleftrightarrow> fst (branch_decrement bo c) \<and> branch_condition bo opcode c"

lemma do_prep_branch:
  assumes "same_bo p bo" "BO_CONDITIONAL_BRANCH bo \<longrightarrow> tmp s T1 = Word w \<and> (w \<noteq> 0 \<longleftrightarrow> test)"
    "BO_CONDITIONAL_BRANCH bo \<Longrightarrow> branch_condition bo opcode (jcpu s) = (BO_BRANCH_IF_TRUE bo = test)"
  shows "\<exists>t2. do_prep_branch_bo p s = Inr (s\<lparr>jcpu := snd (branch_decrement bo (jcpu s)),
      tmp := (tmp s)(T2 := t2, T1 := Word (of_flag (branch_taken bo opcode (jcpu s))))\<rparr>)"
proof -
  have flags: "BO_CONDITIONAL_BRANCH p = BO_CONDITIONAL_BRANCH bo" "BO_DECREMENT_CTR p = BO_DECREMENT_CTR bo"
    using assms(1) by (simp_all add: same_bo_def)
  define cond where "cond = branch_condition bo opcode (jcpu s)"
  have c: "with_cond_ok p f s = f cond s" for f
    using assms by (auto simp: with_cond_ok_def flags cond_def same_bo_def get_T_def branch_condition_def)
  have z: "BO_DECREMENT_CTR bo \<Longrightarrow> BO_BRANCH_IF_CTR_ZERO p = BO_BRANCH_IF_CTR_ZERO bo"
    using assms(1) by (simp add: same_bo_def)
  show ?thesis
  proof (cases "BO_DECREMENT_CTR bo")
    case True
    then show ?thesis
      unfolding do_prep_branch_bo_def Let_def c unfolding flags branch_taken_def branch_decrement_def cond_def[symmetric]
      by (cases "BO_BRANCH_IF_CTR_ZERO bo")
        (simp_all add: z[OF True] with_cpu_def set_T_def set_A_def upd_cpu_def fun_upd_twist,
          auto intro!: exI[of _ "Word (ctr (jcpu s) - 1)"])
  next
    case False
    then show ?thesis
      unfolding do_prep_branch_bo_def Let_def c unfolding flags branch_taken_def branch_decrement_def cond_def[symmetric]
      by (simp add: set_T_def set_A_def) (rule exI[of _ "tmp s T2"], simp)
  qed
qed

lemma run_prep_branch:
  assumes "exit s = Running" "bo < 32"
  shows "\<exists>s'. run ((if BO_CONDITIONAL_BRANCH bo then gen_load_crb T1 (regno BI_field opcode) else []) @
      [do_prep_branch_bo (prep_branch_bo bo)]) s = Inr s' \<and> exit s' = Running \<and>
    jcpu s' = snd (branch_decrement bo (jcpu s)) \<and> tmp s' T0 = tmp s T0 \<and>
    tmp s' T1 = Word (of_flag (branch_taken bo opcode (jcpu s)))"
proof -
  have n: "regno BI_field opcode < 32" by (rule regno_less_32) (simp_all add: wf_field_def field_width_def)
  define s1 where "s1 = (if BO_CONDITIONAL_BRANCH bo
    then s\<lparr>tmp := (tmp s)(T1 := Word (drop_bit (31 - regno BI_field opcode) (cr (jcpu s)) AND 1))\<rparr> else s)"
  have "run (if BO_CONDITIONAL_BRANCH bo then gen_load_crb T1 (regno BI_field opcode) else []) s = Inr s1"
    using assms(1) by (simp add: s1_def jit_ops)
  moreover have "exit s1 = Running" "jcpu s1 = jcpu s" "tmp s1 T0 = tmp s T0" using assms(1) by (simp_all add: s1_def)
  moreover have "\<exists>t2. do_prep_branch_bo (prep_branch_bo bo) s1 = Inr (s1\<lparr>jcpu := snd (branch_decrement bo (jcpu s1)),
      tmp := (tmp s1)(T2 := t2, T1 := Word (of_flag (branch_taken bo opcode (jcpu s1))))\<rparr>)"
  proof (rule do_prep_branch[OF prep_branch_bo[OF assms(2)]])
    show "BO_CONDITIONAL_BRANCH bo \<longrightarrow>
        tmp s1 T1 = Word (drop_bit (31 - regno BI_field opcode) (cr (jcpu s)) AND 1) \<and>
        (drop_bit (31 - regno BI_field opcode) (cr (jcpu s)) AND 1 \<noteq> 0 \<longleftrightarrow> cr_test (cr (jcpu s)) (regno BI_field opcode))"
      using crb_test[OF n, of "cr (jcpu s)"] by (simp add: s1_def)
  qed (auto simp: branch_condition_def s1_def Let_def)
  ultimately show ?thesis by auto
qed

section \<open>Branches\<close>

definition branch_sim :: "code \<Rightarrow> u32 option \<Rightarrow> u32 option \<Rightarrow> (powerpc_cpu \<Rightarrow> result) \<Rightarrow> u32 \<Rightarrow> vcpu \<Rightarrow> bool" where
  "branch_sim code li0 li1 h dpc s \<longleftrightarrow>
     (\<exists>c s'. h ((jcpu s)\<lparr>pc := dpc\<rparr>) = Inr c \<and> run code s = Inr s' \<and>
        (case exit s' of
           Running \<Rightarrow> jcpu s' = c
         | Chain k \<Rightarrow> (if k = 0 then li0 else li1) = Some (pc c) \<and> jcpu s' = c\<lparr>pc := pc (jcpu s)\<rparr>
         | _ \<Rightarrow> False))"

lemma one_way_taken: "\<not> BO_CONDITIONAL_BRANCH bo \<Longrightarrow> \<not> BO_DECREMENT_CTR bo \<Longrightarrow> branch_taken bo opcode c"
  by (simp add: branch_taken_def branch_decrement_def branch_condition_def)

lemma run_gen_bc:
  assumes "exit s = Running" "bo < 32" "tpc = - 1 \<longrightarrow> tmp s T0 = Word t"
  shows "\<exists>s'. run (gen_bc bo (regno BI_field opcode) tpc npc direct) s = Inr s' \<and>
    (let c = snd (branch_decrement bo (jcpu s)); taken = branch_taken bo opcode (jcpu s)
     in if direct then exit s' = Chain (if taken then 0 else 1) \<and> jcpu s' = c
        else exit s' = Running \<and>
             jcpu s' = c\<lparr>pc := if taken then (if tpc = - 1 then t else tpc) else npc\<rparr>)"
proof -
  let ?ok = "branch_taken bo opcode (jcpu s)"
  obtain s1 where s1: "run ((if BO_CONDITIONAL_BRANCH bo then gen_load_crb T1 (regno BI_field opcode) else []) @
      [do_prep_branch_bo (prep_branch_bo bo)]) s = Inr s1" "exit s1 = Running"
    "jcpu s1 = snd (branch_decrement bo (jcpu s))" "tmp s1 T0 = tmp s T0" "tmp s1 T1 = Word (of_flag ?ok)"
    using run_prep_branch[OF assms(1,2)] by blast
  have m: "(0xffffffff :: u32) = - 1" by simp
  define last where "last = (if BO_CONDITIONAL_BRANCH bo \<or> BO_DECREMENT_CTR bo
      then (if direct then [op_branch_chain_2]
            else if tpc \<noteq> - 1 then [op_branch_2_im_im tpc npc] else [op_branch_2_T0_im npc])
      else (if direct then [op_branch_chain_1]
            else if tpc \<noteq> - 1 then [op_branch_1_im tpc] else [op_branch_1_T0]))"
  have "run (gen_bc bo (regno BI_field opcode) tpc npc direct) s = run last s1"
    unfolding gen_bc_def append_assoc[symmetric] run_append[of "_ @ _"] s1(1) m last_def by simp
  moreover have flag: "(of_flag b :: u32) \<noteq> 0 \<longleftrightarrow> b" for b by (simp add: of_flag_def)
  moreover have "\<exists>s'. run last s1 = Inr s' \<and>
      (if direct then exit s' = Chain (if ?ok then 0 else 1) \<and> jcpu s' = jcpu s1
       else exit s' = Running \<and> jcpu s' = (jcpu s1)\<lparr>pc := if ?ok then (if tpc = - 1 then t else tpc) else npc\<rparr>)"
    using assms(3) s1(2,4,5) one_way_taken[of bo opcode "jcpu s"]
    unfolding last_def
    by (cases direct; cases "tpc = - 1"; cases ?ok; cases "BO_CONDITIONAL_BRANCH bo"; cases "BO_DECREMENT_CTR bo")
       (simp_all add: jit_base op_branch_chain_1_def op_branch_chain_2_def op_branch_2_im_im_def op_branch_2_T0_im_def
        op_branch_1_im_def op_branch_1_T0_def do_execute_branch_1_def do_execute_branch_2_def flag of_flag_def)
  ultimately show ?thesis unfolding Let_def s1(3)[symmetric] by simp
qed

definition link :: "u32 \<Rightarrow> u32 \<Rightarrow> powerpc_cpu \<Rightarrow> powerpc_cpu" where
  "link opcode npc c = (if field_test LK_field opcode then c\<lparr>lr := npc\<rparr> else c)"

lemma link_simps [simp]:
  "snd (branch_decrement bo (link opcode npc c)) = link opcode npc (snd (branch_decrement bo c))"
  "branch_taken bo opcode (link opcode npc c) = branch_taken bo opcode c"
  "(link opcode npc c)\<lparr>pc := p\<rparr> = link opcode npc (c\<lparr>pc := p\<rparr>)" "pc (link opcode npc c) = pc c"
  by (simp_all add: link_def branch_decrement_def branch_taken_def branch_condition_def Let_def)

lemma decrement_pc [simp]:
  "snd (branch_decrement bo (c\<lparr>pc := p\<rparr>)) = (snd (branch_decrement bo c))\<lparr>pc := p\<rparr>"
  "branch_taken bo opcode (c\<lparr>pc := p\<rparr>) = branch_taken bo opcode c" "pc (snd (branch_decrement bo c)) = pc c"
  "lr (snd (branch_decrement bo c)) = lr c"
  by (simp_all add: branch_decrement_def branch_taken_def branch_condition_def Let_def)

lemma decrement_pc_id [simp]: "(snd (branch_decrement bo c))\<lparr>pc := pc c\<rparr> = snd (branch_decrement bo c)"
  using decrement_pc(1)[of bo "pc c" c] by simp

lemma execute_branch_eq:
  "execute_branch PC BO DP AA LK_BIT_G opcode c =
     (let bo = operand_get BO c opcode; d = snd (branch_decrement bo c)
      in Inr (link opcode (pc c + 4) (d\<lparr>pc := if branch_taken bo opcode c
           then ((if pred_test AA opcode then 0 else operand_get PC d opcode) + operand_get DP d opcode) AND - 4
           else pc c + 4\<rparr>)))"
  by (simp add: execute_branch_def branch_taken_def link_def Let_def case_prod_beta
      decrement_pc(3))

lemma run_gen_LK:
  "exit s = Running \<Longrightarrow> run (gen_LK opcode npc) s = Inr (s\<lparr>jcpu := link opcode npc (jcpu s)\<rparr>)"
  by (simp add: gen_LK_def link_def jit_base op_store_im_LR_def)

lemma BO_less [simp]: "field_extract BO_field opcode < 32"
  using field_extract_bound[of BO_field opcode] by (simp add: word_less_nat_alt wf_field_def field_width_def)

text \<open>A branch that sets the link register, then branches.\<close>

lemma run_LK_gen_bc:
  assumes "exit s = Running" "bo < 32" "tpc = - 1 \<longrightarrow> tmp s T0 = Word t"
  shows "\<exists>s'. run (gen_LK opcode lpc @ gen_bc bo (regno BI_field opcode) tpc npc direct) s = Inr s' \<and>
    (let c = link opcode lpc (snd (branch_decrement bo (jcpu s))); taken = branch_taken bo opcode (jcpu s)
     in if direct then exit s' = Chain (if taken then 0 else 1) \<and> jcpu s' = c
        else exit s' = Running \<and>
             jcpu s' = c\<lparr>pc := if taken then (if tpc = - 1 then t else tpc) else npc\<rparr>)"
  using run_gen_bc[of "s\<lparr>jcpu := link opcode lpc (jcpu s)\<rparr>" bo tpc t opcode npc direct] assms
  by (simp add: run_gen_LK Let_def)

lemma aligned_not_minus_1: "(x AND - 4 :: u32) \<noteq> - 1"
proof
  assume "x AND - 4 = - 1"
  then have "bit (x AND - 4) 0 = bit (- 1 :: u32) 0" by simp
  then show False by (simp add: bit_0 even_and_iff)
qed

lemma gen_bc_sim:
  assumes "exit s = Running" "bo < 32"
    and bo: "\<And>c. operand_get BO c opcode = bo"
    and tg: "((if pred_test AA opcode then 0
        else operand_get PC ((snd (branch_decrement bo (jcpu s)))\<lparr>pc := dpc\<rparr>) opcode) +
        operand_get DP ((snd (branch_decrement bo (jcpu s)))\<lparr>pc := dpc\<rparr>) opcode) AND - 4 = tg"
    and tpc: "if tpc = - 1 then tmp s T0 = Word tg else tg = tpc"
    and two: "BO_CONDITIONAL_BRANCH bo \<or> BO_DECREMENT_CTR bo \<Longrightarrow> npc = dpc + 4 \<and> (direct \<longrightarrow> li1 = Some npc)"
    and li0: "direct \<Longrightarrow> li0 = Some tg"
  shows "branch_sim (gen_LK opcode (dpc + 4) @ gen_bc bo (regno BI_field opcode) tpc npc direct) li0 li1
    (execute_branch PC BO DP AA LK_BIT_G opcode) dpc s"
proof -
  let ?ok = "branch_taken bo opcode (jcpu s)" and ?d = "snd (branch_decrement bo (jcpu s))"
  have t: "tpc = - 1 \<longrightarrow> tmp s T0 = Word tg" "(if tpc = - 1 then tg else tpc) = tg" using tpc by (auto split: if_splits)
  obtain s' where s': "run (gen_LK opcode (dpc + 4) @ gen_bc bo (regno BI_field opcode) tpc npc direct) s = Inr s'"
    "if direct then exit s' = Chain (if ?ok then 0 else 1) \<and> jcpu s' = link opcode (dpc + 4) ?d
     else exit s' = Running \<and> jcpu s' = (link opcode (dpc + 4) ?d)\<lparr>pc := if ?ok then tg else npc\<rparr>"
    using run_LK_gen_bc[OF assms(1,2) t(1), of opcode "dpc + 4" npc direct] unfolding Let_def t(2) by blast
  have n: "\<not> ?ok \<Longrightarrow> npc = dpc + 4 \<and> (direct \<longrightarrow> li1 = Some npc)"
    using two one_way_taken[of bo opcode "jcpu s"] by blast
  have e: "execute_branch PC BO DP AA LK_BIT_G opcode ((jcpu s)\<lparr>pc := dpc\<rparr>) =
      Inr (link opcode (dpc + 4) (?d\<lparr>pc := if ?ok then tg else dpc + 4\<rparr>))"
    using tg by (simp add: execute_branch_eq bo Let_def)
  show ?thesis
    unfolding branch_sim_def e
    using s' n li0 by (cases direct; cases ?ok) auto
qed

lemma sim_BC:
  assumes "jit_ready s" "translate_BC ro bpc dpc opcode = Branch code li0 li1"
  shows "branch_sim code li0 li1 (call_pmf H (pmf_of_case case_BC) opcode) dpc s"
proof -
  have "branch_sim (gen_LK opcode (dpc + 4) @ gen_bc (field_extract BO_field opcode) (regno BI_field opcode) tpc (dpc + 4) direct)
      (if direct then Some tpc else None) (if direct then Some (dpc + 4) else None)
      (execute_branch operand_PC operand_BO operand_BD AA_BIT_G LK_BIT_G opcode) dpc s"
    if "tpc = ((if field_test AA_field opcode then 0 else dpc) + imm operand_BD opcode) AND - 4" for tpc direct
    using readyD(1)[OF assms(1)] aligned_not_minus_1 that by (intro gen_bc_sim) (auto simp: imm_def)
  note sim = this[OF refl, of True] this[OF refl, of False]
  show ?thesis
    using sim assms(2) by (auto simp: translate_BC_def Let_def split: if_splits)
qed

lemma sim_BC_jump:
  assumes "jit_ready s" "translate_BC ro bpc dpc opcode = Const_jump code tpc"
  shows "simulates code (call_pmf H (pmf_of_case case_BC) opcode) dpc s"
    "call_pmf H (pmf_of_case case_BC) opcode (c\<lparr>pc := dpc\<rparr>) = Inr d \<Longrightarrow> pc d = tpc"
  using assms readyD[OF assms(1)]
  by (auto simp: translate_BC_def Let_def simulates_def execute_branch_eq run_gen_LK imm_def branch_decrement_def
      one_way_taken split: if_splits)

lemma sim_B:
  assumes "jit_ready s" "translate_B ro bpc dpc opcode = Branch code li0 li1"
  shows "branch_sim code li0 li1 (call_pmf H (pmf_of_case case_B) opcode) dpc s"
proof -
  have uncond: "\<not> BO_CONDITIONAL_BRANCH (BO_MAKE False False False False)" "\<not> BO_DECREMENT_CTR (BO_MAKE False False False False)"
    by (simp_all add: BO_MAKE_decodes)
  then have free: "gen_bc (BO_MAKE False False False False) 0 tpc 0 direct =
      gen_bc (BO_MAKE False False False False) (regno BI_field opcode) tpc 0 direct" for tpc direct
    by (simp add: gen_bc_def)
  have less: "BO_MAKE False False False False < 32" by code_simp
  have "branch_sim (gen_LK opcode (dpc + 4) @ gen_bc (BO_MAKE False False False False) (regno BI_field opcode) tpc 0 direct)
      (if direct then Some tpc else None) None
      (execute_branch operand_PC (immediate_value (uint (BO_MAKE False False False False))) operand_LI AA_BIT_G LK_BIT_G opcode) dpc s"
    if "tpc = ((if field_test AA_field opcode then 0 else dpc) + imm operand_LI opcode) AND - 4" for tpc direct
    using readyD(1)[OF assms(1)] aligned_not_minus_1 less uncond that by (intro gen_bc_sim) (auto simp: imm_def)
  note sim = this[OF refl, of True] this[OF refl, of False]
  have "field_test LK_field opcode \<Longrightarrow> gen_LK opcode (dpc + 4) = [op_store_im_LR (dpc + 4)]"
    by (simp add: gen_LK_def)
  with sim show ?thesis
    using assms(2) unfolding translate_B_def Let_def free by (auto split: if_splits)
qed

lemma sim_B_jump:
  assumes "jit_ready s" "translate_B ro bpc dpc opcode = Const_jump code tpc"
  shows "simulates code (call_pmf H (pmf_of_case case_B) opcode) dpc s"
    "call_pmf H (pmf_of_case case_B) opcode (c\<lparr>pc := dpc\<rparr>) = Inr d \<Longrightarrow> pc d = tpc"
  using assms readyD[OF assms(1)]
  by (auto simp: translate_B_def Let_def simulates_def execute_branch_eq imm_def branch_decrement_def
      one_way_taken BO_MAKE_decodes link_def split: if_splits)

lemma branch_sim_Cons:
  assumes "exit s = Running" "x s = Inr (s\<lparr>tmp := t\<rparr>)" "branch_sim code li0 li1 h dpc (s\<lparr>tmp := t\<rparr>)"
  shows "branch_sim (x # code) li0 li1 h dpc s"
proof -
  have r: "run (x # code) s = run code (s\<lparr>tmp := t\<rparr>)" using assms by simp
  have j: "jcpu (s\<lparr>tmp := t\<rparr>) = jcpu s" by simp
  show ?thesis using assms(3) unfolding branch_sim_def r j .
qed

lemma sim_BCLR:
  assumes "jit_ready s" "translate_do_branch op_load_T0_LR_aligned dpc opcode = Branch code li0 li1"
  shows "branch_sim code li0 li1 (call_pmf H (pmf_of_case case_BCLR) opcode) dpc s"
proof -
  let ?t = "(tmp s)(T0 := Word (lr (jcpu s) AND - 4))"
  have "branch_sim (gen_LK opcode (dpc + 4) @ gen_bc (field_extract BO_field opcode) (regno BI_field opcode) (- 1) (dpc + 4) False)
      None None (execute_branch operand_LR operand_BO operand_ZERO AA_BIT_0 LK_BIT_G opcode) dpc (s\<lparr>tmp := ?t\<rparr>)"
    using readyD(1)[OF assms(1)] by (intro gen_bc_sim) auto
  then have "branch_sim (op_load_T0_LR_aligned # gen_LK opcode (dpc + 4) @
        gen_bc (field_extract BO_field opcode) (regno BI_field opcode) (- 1) (dpc + 4) False)
      None None (execute_branch operand_LR operand_BO operand_ZERO AA_BIT_0 LK_BIT_G opcode) dpc s"
    using readyD(1)[OF assms(1)] by (intro branch_sim_Cons) (simp_all add: jit_base op_load_T0_LR_aligned_def)
  then show ?thesis using assms(2) by (auto simp: translate_do_branch_def Let_def)
qed

lemma sim_BCCTR:
  assumes "jit_ready s" "translate_do_branch op_load_T0_CTR_aligned dpc opcode = Branch code li0 li1"
    "\<not> BO_DECREMENT_CTR (field_extract BO_field opcode)"
  shows "branch_sim code li0 li1 (call_pmf H (pmf_of_case case_BCCTR) opcode) dpc s"
proof -
  let ?t = "(tmp s)(T0 := Word (ctr (jcpu s) AND - 4))"
  have "branch_sim (gen_LK opcode (dpc + 4) @ gen_bc (field_extract BO_field opcode) (regno BI_field opcode) (- 1) (dpc + 4) False)
      None None (execute_branch operand_CTR operand_BO operand_ZERO AA_BIT_0 LK_BIT_G opcode) dpc (s\<lparr>tmp := ?t\<rparr>)"
    using readyD(1)[OF assms(1)] assms(3) by (intro gen_bc_sim) (auto simp: branch_decrement_def)
  then have "branch_sim (op_load_T0_CTR_aligned # gen_LK opcode (dpc + 4) @
        gen_bc (field_extract BO_field opcode) (regno BI_field opcode) (- 1) (dpc + 4) False)
      None None (execute_branch operand_CTR operand_BO operand_ZERO AA_BIT_0 LK_BIT_G opcode) dpc s"
    using readyD(1)[OF assms(1)] by (intro branch_sim_Cons) (simp_all add: jit_base op_load_T0_CTR_aligned_def)
  then show ?thesis using assms(2) by (auto simp: translate_do_branch_def Let_def)
qed

section \<open>When the translated code does what the handler does\<close>

text \<open>
  The cases in which they disagree: \<^verbatim>\<open>lmw\<close> and \<^verbatim>\<open>stmw\<close> at unaligned addresses, where the
  handlers do nothing but advance; \<^verbatim>\<open>rlwnm\<close> with a rotation of 32 or more; \<^verbatim>\<open>bcctr\<close> that
  decrements the count register it branches to; floating-point arithmetic while the invalid-operation exception
  is disabled, where the handlers classify the result in the FPSCR; the negated single-precision
  multiply-adds; and multiply-adds that the host fuses.
\<close>

definition unfused :: "'h fpu_host_scheme \<Rightarrow> fe_round \<Rightarrow> u64 \<Rightarrow> u64 \<Rightarrow> u64 \<Rightarrow> bool" where
  "unfused H r x y z \<longleftrightarrow>
     mathlib_fmadd H r x y z = f64_add H r (f64_mul H r x y) z \<and>
     mathlib_fmsub H r x y z = f64_sub H r (f64_mul H r x y) z"

definition jit_exact :: "'h sheep_host_scheme \<Rightarrow> jit_case \<Rightarrow> u32 \<Rightarrow> powerpc_cpu \<Rightarrow> bool" where
  "jit_exact H x opcode c =
     (let aligned = ((operand_get operand_RA_or_0 c opcode + operand_get operand_D c opcode) AND 3 = 0);
          VE = field_test FPSCR_VE_field (fpscr c)
      in case x of
           case_LMW \<Rightarrow> aligned
         | case_STMW \<Rightarrow> aligned
         | case_RLWNM \<Rightarrow> gpr c (regno rB_field opcode) < 32
         | case_BCCTR \<Rightarrow> \<not> BO_DECREMENT_CTR (field_extract BO_field opcode)
         | case_fp2 FP f \<Rightarrow> VE
         | case_fp3 FP f \<Rightarrow> VE \<and> (FP = FP_double \<or> f = do_fmadd \<or> f = do_fmsub) \<and>
             unfused H (host_round c) (fpr c (regno frA_field opcode)) (fpr c (regno frC_field opcode))
               (fpr c (regno frB_field opcode))
         | case_vector \<Rightarrow> False
         | _ \<Rightarrow> True)"

lemma sim_fp3:
  assumes "jit_ready s" "jit_exact H (case_fp3 FP f) opcode (jcpu s)"
  shows "sim_case H (case_fp3 FP f) opcode dpc s"
  using readyD[OF assms(1)] assms(2)
  by (cases f; cases FP) (auto simp: jit_exact_def unfused_def sim_defs execute_fp_arith_def jit_ops jit_gen gen_fp3_def
    op_fop_FD_F0_F1_F2_def op_fops_FD_F0_F1_F2_def record_cr1_def set_fpr_def fp_type_of_def)

definition is_branch_case :: "jit_case \<Rightarrow> bool" where
  "is_branch_case x \<longleftrightarrow> x = case_BC \<or> x = case_BCCTR \<or> x = case_BCLR \<or> x = case_B"

lemma sim_native:
  assumes "jit_ready s" "jit_exact H x opcode (jcpu s)" "\<not> is_branch_case x"
  shows "sim_case H x opcode dpc s"
proof (cases x)
  case (case_arith f)
  then show ?thesis
    by (cases f) (auto intro: sim_arith_add[OF assms(1)] sim_arith_sub[OF assms(1)] sim_divide[OF assms(1)]
        sim_mullw[OF assms(1)])
qed (use assms(2,3) in \<open>auto simp: jit_exact_def is_branch_case_def
    intro: sim_load[OF assms(1)] sim_store[OF assms(1)] sim_multiple[OF assms(1)] sim_lwarx[OF assms(1)]
      sim_stwcx[OF assms(1)] sim_compare[OF assms(1)] sim_CR[OF assms(1)] sim_logic[OF assms(1)]
      sim_OR[OF assms(1)] sim_ORI[OF assms(1)] sim_logic_imm[OF assms(1)] sim_ext[OF assms(1)] sim_NEG[OF assms(1)]
      sim_spr[OF assms(1)] sim_addic[OF assms(1)] sim_extend[OF assms(1)] sim_addi[OF assms(1)]
      sim_RLWIMI[OF assms(1)] sim_rlwinm[OF assms(1)] sim_rlwnm[OF assms(1)] sim_cntlzw[OF assms(1)]
      sim_shift[OF assms(1)] sim_sraw[OF assms(1)] sim_mulhw[OF assms(1)] sim_mulli[OF assms(1)] sim_dcbz[OF assms(1)]
      sim_misc[OF assms(1)] sim_fp_load[OF assms(1)] sim_fp_store[OF assms(1)] sim_fp1[OF assms(1)]
      sim_fp2[OF assms(1)]  sim_fp3[OF assms(1)]\<close>)

end
