(* ===== verification/JIT_Block.thy ===== *)
theory JIT_Block
  imports JIT_Branch PPC_Engine
begin

unbundle bit_operations_syntax

text \<open>
  The translation of a block: the loop of \<^verbatim>\<open>powerpc_cpu::compile_block\<close>
  (\<^verbatim>\<open>ppc-translate.cpp\<close>) with its bookkeeping of the program counter, the prologue of
  \<^verbatim>\<open>gen_start\<close> and the epilogue, and the execution of the code. The loop follows constant jumps, so that it
  need not end: it has fuel, one unit for every instruction it translates.
\<close>

section \<open>Translation of a block\<close>

record jit_block =
  jb_pc :: u32
  jb_code :: code
  jmp_pc_0 :: "u32 option"
  jmp_pc_1 :: "u32 option"
  jb_chained :: bool
  jb_end_pc :: u32
  jb_min_pc :: u32
  jb_max_pc :: u32
  jb_insns :: nat

record cg_state =
  cg_dpc :: u32
  sync_pc :: u32
  sync_pc_offset :: u32
  cg_min_pc :: u32
  cg_max_pc :: u32
  cg_code :: code
  cg_li0 :: "u32 option"
  cg_li1 :: "u32 option"
  use_direct_block_chaining :: bool
  cg_insns :: nat

datatype compile_status = Compiled jit_block | Has_vector_case u32

definition emit :: "code \<Rightarrow> cg_state \<Rightarrow> cg_state" where
  "emit xs st = st\<lparr>cg_code := cg_code st @ xs\<rparr>"

definition widen_pc :: "cg_state \<Rightarrow> cg_state" where
  "widen_pc st =
     (if cg_dpc st < cg_min_pc st then st\<lparr>cg_min_pc := cg_dpc st\<rparr>
      else if cg_dpc st > cg_max_pc st then st\<lparr>cg_max_pc := cg_dpc st\<rparr>
      else st)"

definition do_const_jump :: "u32 \<Rightarrow> cg_state \<Rightarrow> cg_state" where
  "do_const_jump target st = widen_pc (st\<lparr>cg_dpc := target - 4, sync_pc := target - 4, sync_pc_offset := 0\<rparr>)"

definition do_invoke :: "(u32 \<Rightarrow> powerpc_cpu \<Rightarrow> result) \<Rightarrow> u32 \<Rightarrow> cg_state \<Rightarrow> cg_state" where
  "do_invoke func opcode st =
     (let dpc = cg_dpc st;
          st = (if dpc - sync_pc st > sync_pc_offset st
                then emit [op_set_PC_im dpc] (st\<lparr>sync_pc := dpc, sync_pc_offset := 0\<rparr>)
                else st);
          st = st\<lparr>sync_pc_offset := sync_pc_offset st + 4\<rparr>
      in emit [op_invoke_CPU_im func opcode] st)"

definition finish_translation :: "u32 \<Rightarrow> cg_state \<Rightarrow> jit_block" where
  "finish_translation entry st =
     (let w = widen_pc st
      in \<lparr>jb_pc = entry, jb_code = cg_code st, jmp_pc_0 = cg_li0 st, jmp_pc_1 = cg_li1 st,
          jb_chained = use_direct_block_chaining st, jb_end_pc = cg_dpc st,
          jb_min_pc = cg_min_pc w, jb_max_pc = cg_max_pc w, jb_insns = cg_insns st\<rparr>)"

definition compile_insn ::
  "'h sheep_host_scheme \<Rightarrow> decoder \<Rightarrow> (u32 \<Rightarrow> bool) \<Rightarrow> host_mem \<Rightarrow> u32 \<Rightarrow> cg_state \<Rightarrow> (bool \<times> cg_state) option" where
  "compile_insn H d ro M entry st =
     (let dpc = cg_dpc st + 4;
          opcode = vm_read_memory_4 M dpc;
          ii = decode d opcode;
          done_compile = (ii_cflow ii AND CFLOW_END_BLOCK \<noteq> 0);
          st = st\<lparr>cg_dpc := dpc, cg_insns := cg_insns st + 1\<rparr>
      in case translate_insn H ro entry dpc opcode (ii_mnemo ii) of
           Native xs \<Rightarrow> Some (done_compile, emit xs st)
         | Const_jump xs target \<Rightarrow> Some (False, do_const_jump target (emit xs st))
         | Branch xs li0 li1 \<Rightarrow>
             Some (done_compile, emit xs (if li0 = None then st
               else st\<lparr>use_direct_block_chaining := True, cg_li0 := li0, cg_li1 := li1\<rparr>))
         | Generic \<Rightarrow> Some (done_compile, do_invoke (call_pmf H (ii_execute ii)) opcode st)
         | Vector_case \<Rightarrow> None)"

primrec compile_loop ::
  "nat \<Rightarrow> 'h sheep_host_scheme \<Rightarrow> decoder \<Rightarrow> (u32 \<Rightarrow> bool) \<Rightarrow> host_mem \<Rightarrow> u32 \<Rightarrow> cg_state \<Rightarrow> compile_status option" where
  "compile_loop 0 H d ro M entry st = None"
| "compile_loop (Suc n) H d ro M entry st =
     (case compile_insn H d ro M entry st of
        None \<Rightarrow> Some (Has_vector_case (cg_dpc st + 4))
      | Some (done_compile, st) \<Rightarrow>
          if done_compile then Some (Compiled (finish_translation entry st))
          else compile_loop n H d ro M entry st)"

definition compile_block ::
  "nat \<Rightarrow> 'h sheep_host_scheme \<Rightarrow> decoder \<Rightarrow> (u32 \<Rightarrow> bool) \<Rightarrow> host_mem \<Rightarrow> u32 \<Rightarrow> compile_status option" where
  "compile_block n H d ro M entry =
     compile_loop n H d ro M entry
       \<lparr>cg_dpc = entry - 4, sync_pc = entry - 4, sync_pc_offset = 0, cg_min_pc = entry, cg_max_pc = entry,
        cg_code = [], cg_li0 = None, cg_li1 = None, use_direct_block_chaining = False, cg_insns = 0\<rparr>"

definition block_epilogue :: "(u32 \<Rightarrow> bool) \<Rightarrow> jit_block \<Rightarrow> code" where
  "block_epilogue found b =
     (if jb_chained b then [] else [op_mov_ad_A0_im Block_address, op_jump_next_A0 found (jb_pc b)]) @
     [op_exec_return]"

definition execute_translation :: "(u32 \<Rightarrow> bool) \<Rightarrow> jit_block \<Rightarrow> micro_op" where
  "execute_translation found b s =
     (if spcflags_empty (spcflags (jcpu s)) then run (jb_code b @ block_epilogue found b) s
      else run [op_set_PC_im (jb_pc b), op_exec_return] s)"

definition next_pc :: "jit_block \<Rightarrow> vcpu \<Rightarrow> u32" where
  "next_pc b s =
     (case exit s of Chain k \<Rightarrow> the (if k = 0 then jmp_pc_0 b else jmp_pc_1 b) | _ \<Rightarrow> pc (jcpu s))"

section \<open>The reference: the handlers one after the other\<close>

definition step_at :: "'h sheep_host_scheme \<Rightarrow> decoder \<Rightarrow> host_mem \<Rightarrow> powerpc_cpu \<Rightarrow> result" where
  "step_at H d M c =
     (let opcode = vm_read_memory_4 M (pc c) in call_pmf H (ii_execute (decode d opcode)) opcode c)"

primrec steps :: "nat \<Rightarrow> 'h sheep_host_scheme \<Rightarrow> decoder \<Rightarrow> host_mem \<Rightarrow> powerpc_cpu \<Rightarrow> result" where
  "steps 0 H d M c = Inr c"
| "steps (Suc n) H d M c = and_then (step_at H d M c) (steps n H d M)"

definition exact_at :: "'h sheep_host_scheme \<Rightarrow> decoder \<Rightarrow> host_mem \<Rightarrow> powerpc_cpu \<Rightarrow> bool" where
  "exact_at H d M c =
     (let opcode = vm_read_memory_4 M (pc c)
      in case jit_case_of (ii_mnemo (decode d opcode)) of
           None \<Rightarrow> True | Some x \<Rightarrow> jit_exact H x opcode c)"

primrec exact_trace :: "nat \<Rightarrow> 'h sheep_host_scheme \<Rightarrow> decoder \<Rightarrow> host_mem \<Rightarrow> powerpc_cpu \<Rightarrow> bool" where
  "exact_trace 0 H d M c = True"
| "exact_trace (Suc n) H d M c =
     (exact_at H d M c \<and> (case step_at H d M c of Inl e \<Rightarrow> True | Inr c \<Rightarrow> exact_trace n H d M c))"

end
