(* ===== verification/JIT_Correct.thy ===== *)
theory JIT_Correct
  imports JIT_Block PPC_Predecode
begin

unbundle bit_operations_syntax

text \<open>
  The code of a block against the handlers of its instructions. Every instruction that the loop of
  \<^verbatim>\<open>compile_block\<close> translates is one of four kinds: code of the translator's own, a
  branch that is followed, a branch that ends the block and a call of the handler. For each, one step of the
  code is one step of the handlers; the induction over the loop also carries that the program counter is up to
  date at every call of a handler, although only some of the calls set it (\<open>sync_ok\<close>).
\<close>

section \<open>What the translation of an instruction can be\<close>

lemma decoded: "decoder_loaded d \<Longrightarrow> decode d w \<in> set full_ii_table"
  using decode_in_table unfolding decoder_loaded_def by blast

lemma case_handler:
  assumes "decoder_loaded d" "jit_case_of (ii_mnemo (decode d w)) = Some x" "x \<noteq> case_vector"
  shows "ii_execute (decode d w) = pmf_of_case x"
  using table_agrees[OF decoded[OF assms(1), of w]] assms(2,3) by (simp add: jit_agrees_def)

lemma flow_pmf_of_case: "flow_of (pmf_of_case x) \<in> (if is_branch_case x then {End_block} else {Advance, Cache_advance})"
proof (cases x)
  case (case_arith f)
  then show ?thesis by (cases f) (simp_all add: is_branch_case_def)
next
  case (case_extend f)
  then show ?thesis by (cases f) (simp_all add: is_branch_case_def)
qed (simp_all add: is_branch_case_def)

lemma case_ends_block:
  assumes "decoder_loaded d" "jit_case_of (ii_mnemo (decode d w)) = Some x" "x \<noteq> case_vector"
  shows "ii_cflow (decode d w) AND CFLOW_END_BLOCK \<noteq> 0 \<longleftrightarrow> is_branch_case x"
  using table_consistent[OF decoded[OF assms(1), of w]] flow_pmf_of_case[of x] case_handler[OF assms]
  by (auto simp: ii_consistent_def split: if_splits)

lemma translate_native:
  assumes "translate_insn H ro entry dpc w m = Native xs"
  obtains x where "jit_case_of m = Some x" "\<not> is_branch_case x" "x \<noteq> case_vector" "xs = gen_case H x w"
  using assms
  by (auto simp: translate_insn_def translate_case_def translate_BC_def translate_B_def translate_do_branch_def Let_def
      is_branch_case_def split: option.splits jit_case.splits if_splits)

lemma translate_jump:
  assumes "translate_insn H ro entry dpc w m = Const_jump xs t"
  obtains "jit_case_of m = Some case_BC" "translate_BC ro entry dpc w = Const_jump xs t"
  | "jit_case_of m = Some case_B" "translate_B ro entry dpc w = Const_jump xs t"
  using assms
  by (auto simp: translate_insn_def translate_case_def translate_do_branch_def Let_def
      split: option.splits jit_case.splits)

lemma translate_branch:
  assumes "translate_insn H ro entry dpc w m = Branch xs l0 l1"
  obtains "jit_case_of m = Some case_BC" "translate_BC ro entry dpc w = Branch xs l0 l1"
  | "jit_case_of m = Some case_B" "translate_B ro entry dpc w = Branch xs l0 l1"
  | "jit_case_of m = Some case_BCLR" "translate_do_branch op_load_T0_LR_aligned dpc w = Branch xs l0 l1"
  | "jit_case_of m = Some case_BCCTR" "translate_do_branch op_load_T0_CTR_aligned dpc w = Branch xs l0 l1"
  using assms
  by (auto simp: translate_insn_def translate_case_def split: option.splits jit_case.splits)

lemma translate_generic:
  assumes "translate_insn H ro entry dpc w m = Generic"
  shows "jit_case_of m = None"
  using assms
  by (auto simp: translate_insn_def translate_case_def translate_BC_def translate_B_def translate_do_branch_def Let_def
      split: option.splits jit_case.splits if_splits)

section \<open>One instruction\<close>

text \<open>The code did what the handler does and the block goes on at \<open>q\<close>.\<close>

definition continues :: "code \<Rightarrow> result \<Rightarrow> u32 \<Rightarrow> vcpu \<Rightarrow> bool" where
  "continues xs r q s \<longleftrightarrow>
     (\<exists>s'. run xs s = Inr s' \<and> jit_ready s' \<and> pc (jcpu s') = pc (jcpu s) \<and> r = Inr ((jcpu s')\<lparr>pc := q\<rparr>))"

lemma wf_cpu_pc: "wf_cpu c \<Longrightarrow> p AND 3 = 0 \<Longrightarrow> wf_cpu (c\<lparr>pc := p\<rparr>)"
  by (simp add: wf_cpu_def)

lemma wf_pc: "wf_cpu c \<Longrightarrow> pc c AND 3 = 0"
  by (simp add: wf_cpu_def)

lemma simulates_continues:
  assumes "simulates xs h dpc s" "jit_ready s" "\<And>c. h ((jcpu s)\<lparr>pc := dpc\<rparr>) = Inr c \<Longrightarrow> pc c = q \<and> wf_cpu c"
  shows "continues xs (h ((jcpu s)\<lparr>pc := dpc\<rparr>)) q s"
proof -
  obtain c s' where c: "h ((jcpu s)\<lparr>pc := dpc\<rparr>) = Inr c" "run xs s = Inr s'" "exit s' = Running"
    "jcpu s' = c\<lparr>pc := pc (jcpu s)\<rparr>"
    using assms(1) unfolding simulates_def by blast
  then have "jit_ready s'" using assms(3)[OF c(1)] readyD(2)[OF assms(2)] wf_pc
    by (simp add: jit_ready_def wf_cpu_pc)
  moreover have "c = (jcpu s')\<lparr>pc := q\<rparr>" using c assms(3)[OF c(1)] by simp
  ultimately show ?thesis using c unfolding continues_def by auto
qed

lemma step_at_pc: "step_at H d M (c\<lparr>pc := p\<rparr>) =
    call_pmf H (ii_execute (decode d (vm_read_memory_4 M p))) (vm_read_memory_4 M p) (c\<lparr>pc := p\<rparr>)"
  by (simp add: step_at_def Let_def)

lemma exact_at_pc: "exact_at H d M (c\<lparr>pc := p\<rparr>) \<Longrightarrow>
    jit_case_of (ii_mnemo (decode d (vm_read_memory_4 M p))) = Some x \<Longrightarrow>
    jit_exact H x (vm_read_memory_4 M p) (c\<lparr>pc := p\<rparr>)"
  by (simp add: exact_at_def Let_def)

lemma jit_exact_pc [simp]: "jit_exact H x w (c\<lparr>pc := p\<rparr>) = jit_exact H x w c"
  by (cases x) (simp_all add: jit_exact_def)

lemma handler_pc_wf:
  assumes "decoder_loaded d" "\<not> ignoreillegal H" "wf_cpu c" "ii_cflow (decode d w) AND CFLOW_END_BLOCK = 0"
    "call_pmf H (ii_execute (decode d w)) w c = Inr c'"
  shows "pc c' = pc c + 4" "wf_cpu c'"
proof -
  note t = decoded[OF assms(1), of w]
  show "pc c' = pc c + 4" using cflow_normal_continues[OF t assms(4,2,5)] by simp
  have "flow_of (ii_execute (decode d w)) \<noteq> Leave_core"
    using table_consistent[OF t] assms(4) by (simp add: ii_consistent_def)
  then have "ii_execute (decode d w) \<noteq> pmf_sheep" by (simp add: flow_of_Leave_core)
  then show "wf_cpu c'" using wf_call_pmf[of _ c H w] assms(3,5) by (metis wf_result.simps(2))
qed

lemma step_native:
  assumes "decoder_loaded d" "\<not> ignoreillegal H" "jit_ready s" "dpc AND 3 = 0" "w = vm_read_memory_4 M dpc"
    "translate_insn H ro entry dpc w (ii_mnemo (decode d w)) = Native xs" "exact_at H d M ((jcpu s)\<lparr>pc := dpc\<rparr>)"
  shows "ii_cflow (decode d w) AND CFLOW_END_BLOCK = 0"
    "continues xs (step_at H d M ((jcpu s)\<lparr>pc := dpc\<rparr>)) (dpc + 4) s"
proof -
  obtain x where x: "jit_case_of (ii_mnemo (decode d w)) = Some x" "\<not> is_branch_case x" "x \<noteq> case_vector"
    "xs = gen_case H x w" using translate_native[OF assms(6)] by metis
  show e: "ii_cflow (decode d w) AND CFLOW_END_BLOCK = 0" using case_ends_block[OF assms(1) x(1,3)] x(2) by blast
  have "sim_case H x w dpc s"
    using sim_native[OF assms(3) _ x(2)] exact_at_pc[OF assms(7)] x(1) assms(5) by simp
  then have sim: "simulates xs (call_pmf H (ii_execute (decode d w)) w) dpc s"
    unfolding sim_case_def x(4) case_handler[OF assms(1) x(1,3)] .
  note wf = wf_cpu_pc[OF readyD(2)[OF assms(3)] assms(4)]
  show "continues xs (step_at H d M ((jcpu s)\<lparr>pc := dpc\<rparr>)) (dpc + 4) s"
    unfolding step_at_pc assms(5)[symmetric]
  proof (rule simulates_continues[OF sim assms(3)])
    fix c assume "call_pmf H (ii_execute (decode d w)) w ((jcpu s)\<lparr>pc := dpc\<rparr>) = Inr c"
    from handler_pc_wf[OF assms(1,2) wf e this] show "pc c = dpc + 4 \<and> wf_cpu c" by simp
  qed
qed

lemma jump_aligned:
  assumes "translate_insn H ro entry dpc w m = Const_jump xs t"
  shows "t AND 3 = 0"
  using assms
  by (cases rule: translate_jump)
     (auto simp: translate_BC_def translate_B_def Let_def and.assoc split: if_splits)

lemma step_jump:
  assumes "decoder_loaded d" "jit_ready s" "dpc AND 3 = 0" "w = vm_read_memory_4 M dpc"
    "translate_insn H ro entry dpc w (ii_mnemo (decode d w)) = Const_jump xs t"
  shows "continues xs (step_at H d M ((jcpu s)\<lparr>pc := dpc\<rparr>)) t s"
proof -
  have wf: "wf_cpu c" if "call_pmf H (pmf_branch PC BO DP AA LK) w ((jcpu s)\<lparr>pc := dpc\<rparr>) = Inr c" for PC BO DP AA LK c
    using wf_call_pmf[of "pmf_branch PC BO DP AA LK" "(jcpu s)\<lparr>pc := dpc\<rparr>" H w] that
      wf_cpu_pc[OF readyD(2)[OF assms(2)] assms(3)] by simp
  have go: "continues xs (step_at H d M ((jcpu s)\<lparr>pc := dpc\<rparr>)) t s"
    if "jit_case_of (ii_mnemo (decode d w)) = Some x" "x \<noteq> case_vector" "pmf_of_case x = pmf_branch PC BO DP AA LK"
      "simulates xs (call_pmf H (pmf_of_case x) w) dpc s"
      "\<And>c. call_pmf H (pmf_of_case x) w ((jcpu s)\<lparr>pc := dpc\<rparr>) = Inr c \<Longrightarrow> pc c = t" for x PC BO DP AA LK
    unfolding step_at_pc assms(4)[symmetric] case_handler[OF assms(1) that(1,2)]
    using that(5) wf[of PC BO DP AA LK] by (intro simulates_continues[OF that(4) assms(2)]) (simp add: that(3))
  from assms(5) show ?thesis
  proof (cases rule: translate_jump)
    case 1
    then show ?thesis using go[OF 1(1) _ _ sim_BC_jump[OF assms(2) 1(2)]] by auto
  next
    case 2
    then show ?thesis using go[OF 2(1) _ _ sim_B_jump[OF assms(2) 2(2)]] by auto
  qed
qed

section \<open>The end of a block\<close>

definition outcome_sim :: "jit_block \<Rightarrow> jresult \<Rightarrow> result \<Rightarrow> bool" where
  "outcome_sim b r q \<longleftrightarrow>
     (case q of
        Inl e \<Rightarrow> r = Inl (Aborted e)
      | Inr c \<Rightarrow> \<exists>s'. r = Inr s' \<and> exit s' \<noteq> Running \<and> (jcpu s')\<lparr>pc := next_pc b s'\<rparr> = c)"

lemma run_epilogue:
  assumes "exit s = Running"
  shows "\<exists>s'. run (block_epilogue found b) s = Inr s' \<and> exit s' \<in> {Jump_next, Exec_return} \<and> jcpu s' = jcpu s"
  using assms
  by (auto simp: block_epilogue_def op_mov_ad_A0_im_def op_jump_next_A0_def op_exec_return_def jit_base)

lemma epilogue_outcome:
  assumes "exit s = Running"
  shows "outcome_sim b (run (block_epilogue found b) s) (Inr (jcpu s))"
  using run_epilogue[OF assms, of found b] by (auto simp: outcome_sim_def next_pc_def)

lemma run_stopped: "exit s \<noteq> Running \<Longrightarrow> run xs s = Inr s"
  by (cases xs) simp_all

lemma branch_links:
  assumes "translate_insn H ro entry dpc w m = Branch xs l0 l1" "l0 = None"
  shows "l1 = None"
  using assms(1)
  by (cases rule: translate_branch)
     (use assms(2) in \<open>auto simp: translate_BC_def translate_B_def translate_do_branch_def Let_def split: if_splits\<close>)

lemma branch_outcome:
  assumes "branch_sim xs l0 l1 h dpc s" "l0 = None \<longrightarrow> l1 = None"
    "l0 \<noteq> None \<longrightarrow> jmp_pc_0 b = l0 \<and> jmp_pc_1 b = l1"
  shows "outcome_sim b (run (xs @ block_epilogue found b) s) (h ((jcpu s)\<lparr>pc := dpc\<rparr>))"
proof -
  obtain c s' where c: "h ((jcpu s)\<lparr>pc := dpc\<rparr>) = Inr c" "run xs s = Inr s'"
    "case exit s' of Running \<Rightarrow> jcpu s' = c
       | Chain k \<Rightarrow> (if k = 0 then l0 else l1) = Some (pc c) \<and> jcpu s' = c\<lparr>pc := pc (jcpu s)\<rparr> | _ \<Rightarrow> False"
    using assms(1) unfolding branch_sim_def by blast
  show ?thesis
  proof (cases "exit s'")
    case Running
    then show ?thesis using c epilogue_outcome[OF Running, of b found] by simp
  next
    case (Chain k)
    then have "(if k = 0 then jmp_pc_0 b else jmp_pc_1 b) = Some (pc c)" "jcpu s' = c\<lparr>pc := pc (jcpu s)\<rparr>"
      using c(3) assms(2,3) by (auto split: if_splits)
    then show ?thesis using c Chain by (simp add: run_stopped outcome_sim_def next_pc_def)
  qed (use c in simp_all)
qed

lemma step_branch:
  assumes "decoder_loaded d" "jit_ready s" "w = vm_read_memory_4 M dpc"
    "translate_insn H ro entry dpc w (ii_mnemo (decode d w)) = Branch xs l0 l1" "exact_at H d M ((jcpu s)\<lparr>pc := dpc\<rparr>)"
    "l0 \<noteq> None \<longrightarrow> jmp_pc_0 b = l0 \<and> jmp_pc_1 b = l1"
  shows "outcome_sim b (run (xs @ block_epilogue found b) s) (step_at H d M ((jcpu s)\<lparr>pc := dpc\<rparr>))"
proof -
  note links = branch_links[OF assms(4)]
  have go: "outcome_sim b (run (xs @ block_epilogue found b) s) (step_at H d M ((jcpu s)\<lparr>pc := dpc\<rparr>))"
    if "jit_case_of (ii_mnemo (decode d w)) = Some x" "x \<noteq> case_vector"
      "branch_sim xs l0 l1 (call_pmf H (pmf_of_case x) w) dpc s" for x
    unfolding step_at_pc assms(3)[symmetric] case_handler[OF assms(1) that(1,2)]
    using branch_outcome[OF that(3)] links assms(6) by blast
  from assms(4) show ?thesis
  proof (cases rule: translate_branch)
    case 1 then show ?thesis using go sim_BC[OF assms(2) 1(2)] by blast
  next
    case 2 then show ?thesis using go sim_B[OF assms(2) 2(2)] by blast
  next
    case 3 then show ?thesis using go sim_BCLR[OF assms(2) 3(2)] by blast
  next
    case 4
    then have "jit_exact H case_BCCTR w (jcpu s)" using exact_at_pc[OF assms(5)] assms(3) by simp
    then show ?thesis using go[OF 4(1) _ sim_BCCTR[OF assms(2) 4(2)]] by (simp add: jit_exact_def)
  qed
qed

lemma branch_ends:
  assumes "decoder_loaded d" "translate_insn H ro entry dpc w (ii_mnemo (decode d w)) = Branch xs l0 l1"
  shows "ii_cflow (decode d w) AND CFLOW_END_BLOCK \<noteq> 0"
  using assms(2)
  by (cases rule: translate_branch) (use case_ends_block[OF assms(1)] in \<open>simp_all add: is_branch_case_def\<close>)

lemma native_continues:
  assumes "decoder_loaded d" "translate_insn H ro entry dpc w (ii_mnemo (decode d w)) = Native xs"
  shows "ii_cflow (decode d w) AND CFLOW_END_BLOCK = 0"
  using translate_native[OF assms(2)] case_ends_block[OF assms(1)] by metis

section \<open>Calls of a handler\<close>

definition sync_ok :: "cg_state \<Rightarrow> u32 \<Rightarrow> nat \<Rightarrow> bool" where
  "sync_ok st p n \<longleftrightarrow>
     (let gap = cg_dpc st + 4 - sync_pc st
      in sync_pc_offset st \<le> gap \<and> (gap = sync_pc_offset st \<longrightarrow> p = cg_dpc st + 4) \<and> unat gap + 4 * n < 2 ^ 32)"

definition invoke_code :: "(u32 \<Rightarrow> powerpc_cpu \<Rightarrow> result) \<Rightarrow> u32 \<Rightarrow> cg_state \<Rightarrow> code" where
  "invoke_code f w st =
     (if cg_dpc st - sync_pc st > sync_pc_offset st then [op_set_PC_im (cg_dpc st)] else []) @ [op_invoke_CPU_im f w]"

lemma do_invoke_code: "cg_code (do_invoke f w st) = cg_code st @ invoke_code f w st"
  by (simp add: do_invoke_def invoke_code_def emit_def Let_def)

lemma run_invoke:
  assumes "exit s = Running" "sync_ok st (pc (jcpu s)) n" "cg_dpc st' = cg_dpc st + 4" "sync_pc st' = sync_pc st"
    "sync_pc_offset st' = sync_pc_offset st"
  shows "run (invoke_code f w st') s = of_result (f w ((jcpu s)\<lparr>pc := cg_dpc st + 4\<rparr>)) s"
proof (cases "cg_dpc st' - sync_pc st' > sync_pc_offset st'")
  case True
  then show ?thesis using assms(1,3)
    by (cases "f w ((jcpu s)\<lparr>pc := cg_dpc st + 4\<rparr>)")
       (simp_all add: invoke_code_def op_set_PC_im_def op_invoke_CPU_im_def jit_base)
next
  case False
  then have "pc (jcpu s) = cg_dpc st + 4" using assms(2-5) by (auto simp: sync_ok_def Let_def not_less)
  then have "(jcpu s)\<lparr>pc := cg_dpc st + 4\<rparr> = jcpu s" by simp
  then show ?thesis using False assms(1)
    by (cases "f w (jcpu s)") (simp_all add: invoke_code_def op_invoke_CPU_im_def jit_base)
qed

lemma sync_ok_native:
  assumes "sync_ok st p (Suc n)" "cg_dpc st' = cg_dpc st + 4" "sync_pc st' = sync_pc st"
    "sync_pc_offset st' = sync_pc_offset st"
  shows "sync_ok st' p n"
proof -
  define gap where "gap = cg_dpc st + 4 - sync_pc st"
  have g: "sync_pc_offset st \<le> gap" "unat gap + 4 * Suc n < 2 ^ 32" using assms(1) by (simp_all add: sync_ok_def Let_def gap_def)
  have u: "unat (gap + 4) = unat gap + 4" using g(2) by (subst unat_add_lem[THEN iffD1]) simp_all
  then have "sync_pc_offset st < gap + 4" using g by (simp add: word_less_nat_alt word_le_nat_alt)
  moreover have e: "cg_dpc st' + 4 - sync_pc st' = gap + 4" using assms by (simp add: gap_def)
  ultimately show ?thesis using u g assms(4) unfolding sync_ok_def Let_def e by auto
qed

lemma sync_ok_jump:
  assumes "sync_ok st p (Suc n)" "sync_pc st' = cg_dpc st'" "sync_pc_offset st' = 0"
  shows "sync_ok st' q n"
  using assms by (simp add: sync_ok_def Let_def)

lemma sync_ok_invoke:
  assumes "sync_ok st p (Suc n)" "cg_dpc st' = cg_dpc st + 4" "sync_pc st' = sync_pc st"
    "sync_pc_offset st' = sync_pc_offset st"
  shows "sync_ok (do_invoke f w st') (cg_dpc st + 4 + 4) n"
proof (cases "cg_dpc st' - sync_pc st' > sync_pc_offset st'")
  case True
  then show ?thesis using assms by (simp add: sync_ok_def Let_def do_invoke_def emit_def)
next
  case False
  define gap where "gap = cg_dpc st + 4 - sync_pc st"
  have g: "sync_pc_offset st = gap" "unat gap + 4 * Suc n < 2 ^ 32"
    using assms False by (auto simp: sync_ok_def Let_def gap_def not_less)
  have u: "unat (gap + 4) = unat gap + 4" using g(2) by (subst unat_add_lem[THEN iffD1]) simp_all
  have e: "cg_dpc st + 4 + 4 - sync_pc st = gap + 4" by (simp add: gap_def)
  have "cg_dpc (do_invoke f w st') = cg_dpc st + 4" "sync_pc (do_invoke f w st') = sync_pc st"
    "sync_pc_offset (do_invoke f w st') = gap + 4"
    using False assms(2-4) g(1) by (simp_all add: do_invoke_def emit_def Let_def)
  then show ?thesis using g u unfolding sync_ok_def Let_def by (simp only: e) auto
qed

lemma compile_insn_frame:
  assumes "compile_insn H d ro M entry st = Some (dn, st')"
  shows "cg_insns st' = Suc (cg_insns st)" "\<exists>xs. cg_code st' = cg_code st @ xs"
  using assms
  by (auto simp: compile_insn_def Let_def emit_def do_const_jump_def widen_pc_def do_invoke_def split: translation.splits if_splits)

lemma steps_one: "steps (Suc 0) H d M c = step_at H d M c"
  by (cases "step_at H d M c") simp_all

section \<open>The code of one instruction and of a block\<close>

text \<open>The code of an instruction inside a block did what the handler does, and the bookkeeping \<open>st\<close> of the
  translator is right for the next one; or the handler failed, and so did the code.\<close>

definition goes_on :: "code \<Rightarrow> result \<Rightarrow> cg_state \<Rightarrow> nat \<Rightarrow> vcpu \<Rightarrow> bool" where
  "goes_on xs r st n s \<longleftrightarrow>
     (case r of
        Inl e \<Rightarrow> run xs s = Inl (Aborted e)
      | Inr c \<Rightarrow> \<exists>s'. run xs s = Inr s' \<and> jit_ready s' \<and> sync_ok st (pc (jcpu s')) n \<and> c = (jcpu s')\<lparr>pc := cg_dpc st + 4\<rparr>)"

definition insn_sim ::
  "'h sheep_host_scheme \<Rightarrow> decoder \<Rightarrow> host_mem \<Rightarrow> u32 \<Rightarrow> (u32 \<Rightarrow> bool) \<Rightarrow> cg_state \<Rightarrow> bool \<Rightarrow> cg_state \<Rightarrow> code \<Rightarrow> bool" where
  "insn_sim H d M entry found st ended st' xs \<longleftrightarrow>
     (\<forall>s n. jit_ready s \<longrightarrow> sync_ok st (pc (jcpu s)) (Suc n) \<longrightarrow> exact_at H d M ((jcpu s)\<lparr>pc := cg_dpc st + 4\<rparr>) \<longrightarrow>
        (let r = step_at H d M ((jcpu s)\<lparr>pc := cg_dpc st + 4\<rparr>); b = finish_translation entry st'
         in if ended then outcome_sim b (run (xs @ block_epilogue found b) s) r else goes_on xs r st' n s))"

lemma continues_goes_on:
  assumes "continues xs r (cg_dpc st + 4) s" "sync_ok st (pc (jcpu s)) n"
  shows "goes_on xs r st n s"
  using assms by (auto simp: continues_def goes_on_def)

lemma generic_sim:
  assumes "decoder_loaded d" "\<not> ignoreillegal H" "(cg_dpc st + 4) AND 3 = 0" "w = vm_read_memory_4 M (cg_dpc st + 4)"
    "st1 = st\<lparr>cg_dpc := cg_dpc st + 4, cg_insns := cg_insns st + 1\<rparr>" "f = call_pmf H (ii_execute (decode d w))"
    "ended \<longleftrightarrow> ii_cflow (decode d w) AND CFLOW_END_BLOCK \<noteq> 0"
  shows "insn_sim H d M entry found st ended (do_invoke f w st1) (invoke_code f w st1)"
  unfolding insn_sim_def Let_def step_at_pc assms(4)[symmetric] assms(6)[symmetric]
proof (intro allI impI)
  fix s n
  assume a: "jit_ready s" "sync_ok st (pc (jcpu s)) (Suc n)" "exact_at H d M ((jcpu s)\<lparr>pc := cg_dpc st + 4\<rparr>)"
  let ?c = "(jcpu s)\<lparr>pc := cg_dpc st + 4\<rparr>" and ?st = "do_invoke f w st1"
  let ?b = "finish_translation entry ?st"
  have r: "run (invoke_code f w st1) s = of_result (f w ?c) s"
    using run_invoke[OF _ a(2)] readyD(1)[OF a(1)] assms(5) by simp
  note wf = wf_cpu_pc[OF readyD(2)[OF a(1)] assms(3)]
  have dpc: "cg_dpc ?st = cg_dpc st + 4" by (simp add: do_invoke_def emit_def Let_def assms(5))
  have s2: "sync_ok ?st (cg_dpc st + 4 + 4) n" using sync_ok_invoke[OF a(2)] assms(5) by simp
  show "if ended then outcome_sim ?b (run (invoke_code f w st1 @ block_epilogue found ?b) s) (f w ?c)
        else goes_on (invoke_code f w st1) (f w ?c) ?st n s"
  proof (cases "f w ?c")
    case (Inl e)
    then show ?thesis using r by (simp add: outcome_sim_def goes_on_def run_append)
  next
    case (Inr c)
    show ?thesis
    proof (cases ended)
      case True
      then show ?thesis using r Inr epilogue_outcome[of "s\<lparr>jcpu := c\<rparr>" ?b found] readyD(1)[OF a(1)]
        by (simp add: run_append)
    next
      case False
      then have "pc c = cg_dpc st + 4 + 4" "wf_cpu c"
        using handler_pc_wf[OF assms(1,2) wf _ Inr[unfolded assms(6)]] assms(7) by simp_all
      then show ?thesis using False r Inr s2 readyD(1)[OF a(1)] dpc
        by (auto simp: goes_on_def jit_ready_def)
    qed
  qed
qed

lemma steps_continue:
  assumes "goes_on xs (step_at H d M c) st n s" "exact_trace (Suc m) H d M c"
    "\<And>s'. jit_ready s' \<Longrightarrow> sync_ok st (pc (jcpu s')) n \<Longrightarrow> exact_trace m H d M ((jcpu s')\<lparr>pc := cg_dpc st + 4\<rparr>) \<Longrightarrow>
       outcome_sim b (run (ys @ zs) s') (steps m H d M ((jcpu s')\<lparr>pc := cg_dpc st + 4\<rparr>))"
  shows "outcome_sim b (run ((xs @ ys) @ zs) s) (steps (Suc m) H d M c)"
proof (cases "step_at H d M c")
  case (Inl e)
  then show ?thesis using assms(1) by (simp add: goes_on_def outcome_sim_def)
next
  case (Inr c')
  then obtain s' where "run xs s = Inr s'" "jit_ready s'" "sync_ok st (pc (jcpu s')) n" "c' = (jcpu s')\<lparr>pc := cg_dpc st + 4\<rparr>"
    using assms(1) unfolding goes_on_def by auto
  then show ?thesis using Inr assms(2) assms(3)[of s'] readyD(1)[of s'] by simp
qed

lemma widen_pc_frame [simp]:
  "cg_dpc (widen_pc st) = cg_dpc st" "sync_pc (widen_pc st) = sync_pc st" "sync_pc_offset (widen_pc st) = sync_pc_offset st"
  "cg_code (widen_pc st) = cg_code st" "cg_insns (widen_pc st) = cg_insns st"
  by (simp_all add: widen_pc_def)

lemma native_sim:
  assumes "decoder_loaded d" "\<not> ignoreillegal H" "(cg_dpc st + 4) AND 3 = 0" "w = vm_read_memory_4 M (cg_dpc st + 4)"
    "translate_insn H ro entry (cg_dpc st + 4) w (ii_mnemo (decode d w)) = Native xs"
    "st1 = st\<lparr>cg_dpc := cg_dpc st + 4, cg_insns := cg_insns st + 1\<rparr>"
  shows "insn_sim H d M entry found st False (emit xs st1) xs"
  unfolding insn_sim_def Let_def if_False
proof (intro allI impI)
  fix s n
  assume a: "jit_ready s" "sync_ok st (pc (jcpu s)) (Suc n)" "exact_at H d M ((jcpu s)\<lparr>pc := cg_dpc st + 4\<rparr>)"
  from step_native(2)[OF assms(1,2) a(1) assms(3,4,5) a(3)] sync_ok_native[OF a(2), of "emit xs st1"]
  show "goes_on xs (step_at H d M ((jcpu s)\<lparr>pc := cg_dpc st + 4\<rparr>)) (emit xs st1) n s"
    by (intro continues_goes_on) (simp_all add: emit_def assms(6))
qed

lemma jump_sim:
  assumes "decoder_loaded d" "(cg_dpc st + 4) AND 3 = 0" "w = vm_read_memory_4 M (cg_dpc st + 4)"
    "translate_insn H ro entry (cg_dpc st + 4) w (ii_mnemo (decode d w)) = Const_jump xs t"
  shows "insn_sim H d M entry found st False (do_const_jump t (emit xs st1)) xs"
  unfolding insn_sim_def Let_def if_False
proof (intro allI impI)
  fix s n
  assume a: "jit_ready s" "sync_ok st (pc (jcpu s)) (Suc n)" "exact_at H d M ((jcpu s)\<lparr>pc := cg_dpc st + 4\<rparr>)"
  from step_jump[OF assms(1) a(1) assms(2-4)] sync_ok_jump[OF a(2), of "do_const_jump t (emit xs st1)"]
  show "goes_on xs (step_at H d M ((jcpu s)\<lparr>pc := cg_dpc st + 4\<rparr>)) (do_const_jump t (emit xs st1)) n s"
    by (intro continues_goes_on) (simp_all add: do_const_jump_def)
qed

lemma compile_insn_sim:
  assumes "decoder_loaded d" "\<not> ignoreillegal H" "(cg_dpc st + 4) AND 3 = 0"
    "compile_insn H d ro M entry st = Some (ended, st')"
  obtains xs where "cg_code st' = cg_code st @ xs" "ended \<or> (cg_dpc st' + 4) AND 3 = 0"
    "insn_sim H d M entry found st ended st' xs"
proof -
  define w where "w = vm_read_memory_4 M (cg_dpc st + 4)"
  define st1 where "st1 = st\<lparr>cg_dpc := cg_dpc st + 4, cg_insns := cg_insns st + 1\<rparr>"
  let ?tr = "translate_insn H ro entry (cg_dpc st + 4) w (ii_mnemo (decode d w))"
  let ?e = "ii_cflow (decode d w) AND CFLOW_END_BLOCK \<noteq> 0"
  note c = assms(4)[unfolded compile_insn_def Let_def, folded w_def, folded st1_def]
  note next4 = pc_add_4[OF assms(3)]
  show ?thesis
  proof (cases ?tr)
    case (Native xs)
    then have "ended = False" "st' = emit xs st1" using c native_continues[OF assms(1) Native] by simp_all
    then show ?thesis using that[of xs] native_sim[OF assms(1-3) w_def Native st1_def] next4
      by (simp add: emit_def st1_def)
  next
    case (Const_jump xs t)
    then have "ended = False" "st' = do_const_jump t (emit xs st1)" using c by simp_all
    moreover have "t AND 3 = 0"
      by (rule jump_aligned[OF Const_jump])
    ultimately show ?thesis using that[of xs] jump_sim[OF assms(1,3) w_def Const_jump, of found st1]
      by (simp add: do_const_jump_def emit_def st1_def)
  next
    case (Branch xs l0 l1)
    then have st': "ended = True" "st' = emit xs (if l0 = None then st1
        else st1\<lparr>use_direct_block_chaining := True, cg_li0 := l0, cg_li1 := l1\<rparr>)"
      using c branch_ends[OF assms(1) Branch] by simp_all
    have "insn_sim H d M entry found st ended st' xs"
      unfolding insn_sim_def Let_def st'(1) if_True
      by (intro allI impI, rule step_branch[OF assms(1) _ w_def Branch])
         (auto simp: st'(2) finish_translation_def emit_def Let_def)
    moreover have "cg_code st' = cg_code st @ xs" by (simp add: st'(2) emit_def st1_def)
    ultimately show ?thesis using that[of xs] st'(1) by blast
  next
    case Generic
    then have "ended = ?e" "st' = do_invoke (call_pmf H (ii_execute (decode d w))) w st1" using c by simp_all
    then show ?thesis using that generic_sim[OF assms(1-3) w_def st1_def refl, of ended] next4
      by (simp add: do_invoke_code) (simp add: do_invoke_def emit_def Let_def st1_def)
  next
    case Vector_case
    then show ?thesis using c by simp
  qed
qed


lemma compile_loop_sim:
  assumes "decoder_loaded d" "\<not> ignoreillegal H"
    "compile_loop n H d ro M entry st = Some (Compiled b)" "(cg_dpc st + 4) AND 3 = 0"
  shows "\<exists>xs m. jb_code b = cg_code st @ xs \<and> jb_insns b = cg_insns st + m \<and> jb_pc b = entry \<and> m \<le> n \<and>
    (\<forall>s. jit_ready s \<longrightarrow> sync_ok st (pc (jcpu s)) n \<longrightarrow> exact_trace m H d M ((jcpu s)\<lparr>pc := cg_dpc st + 4\<rparr>) \<longrightarrow>
      outcome_sim b (run (xs @ block_epilogue found b) s) (steps m H d M ((jcpu s)\<lparr>pc := cg_dpc st + 4\<rparr>)))"
  using assms(3,4)
proof (induction n arbitrary: st)
  case 0
  then show ?case by simp
next
  case (Suc n)
  obtain ended st' where c: "compile_insn H d ro M entry st = Some (ended, st')"
    using Suc.prems(1) by (auto split: option.splits)
  obtain xs where xs: "cg_code st' = cg_code st @ xs" "ended \<or> (cg_dpc st' + 4) AND 3 = 0"
    "insn_sim H d M entry found st ended st' xs"
    using compile_insn_sim[OF assms(1,2) Suc.prems(2) c] by metis
  note cnt = compile_insn_frame(1)[OF c]
  show ?case
  proof (cases ended)
    case True
    then have b: "b = finish_translation entry st'" using Suc.prems(1) c by simp
    have "jb_code b = cg_code st @ xs" "jb_insns b = cg_insns st + 1" "jb_pc b = entry"
      using b xs(1) cnt by (simp_all add: finish_translation_def Let_def)
    moreover have "outcome_sim b (run (xs @ block_epilogue found b) s) (steps 1 H d M ((jcpu s)\<lparr>pc := cg_dpc st + 4\<rparr>))"
      if "jit_ready s" "sync_ok st (pc (jcpu s)) (Suc n)" "exact_trace 1 H d M ((jcpu s)\<lparr>pc := cg_dpc st + 4\<rparr>)" for s
      using xs(3) that True by (simp add: insn_sim_def Let_def steps_one b del: run_append steps.simps) blast
    ultimately show ?thesis by fastforce
  next
    case False
    then have "compile_loop n H d ro M entry st' = Some (Compiled b)" using Suc.prems(1) c by simp
    then obtain ys m where ih: "jb_code b = cg_code st' @ ys" "jb_insns b = cg_insns st' + m" "jb_pc b = entry" "m \<le> n"
      "\<And>s. jit_ready s \<Longrightarrow> sync_ok st' (pc (jcpu s)) n \<Longrightarrow> exact_trace m H d M ((jcpu s)\<lparr>pc := cg_dpc st' + 4\<rparr>) \<Longrightarrow>
        outcome_sim b (run (ys @ block_epilogue found b) s) (steps m H d M ((jcpu s)\<lparr>pc := cg_dpc st' + 4\<rparr>))"
      using Suc.IH[of st'] xs(2) False by blast
    have "outcome_sim b (run ((xs @ ys) @ block_epilogue found b) s) (steps (Suc m) H d M ((jcpu s)\<lparr>pc := cg_dpc st + 4\<rparr>))"
      if "jit_ready s" "sync_ok st (pc (jcpu s)) (Suc n)" "exact_trace (Suc m) H d M ((jcpu s)\<lparr>pc := cg_dpc st + 4\<rparr>)" for s
    proof -
      have "goes_on xs (step_at H d M ((jcpu s)\<lparr>pc := cg_dpc st + 4\<rparr>)) st' n s"
        using xs(3) that False by (simp add: insn_sim_def Let_def)
      then show ?thesis using ih(5) that(3) by (intro steps_continue)
    qed
    then show ?thesis using ih(1-4) xs(1) cnt by (intro exI[of _ "xs @ ys"] exI[of _ "Suc m"]) simp
  qed
qed


lemma sync_ok_entry:
  assumes "n < 2 ^ 28"
  shows "sync_ok \<lparr>cg_dpc = entry - 4, sync_pc = entry - 4, sync_pc_offset = 0, cg_min_pc = entry, cg_max_pc = entry,
        cg_code = [], cg_li0 = None, cg_li1 = None, use_direct_block_chaining = False, cg_insns = 0\<rparr> p n"
  using assms by (simp add: sync_ok_def Let_def)

lemma compile_block_sim:
  assumes "decoder_loaded d" "\<not> ignoreillegal H" "entry AND 3 = 0" "n < 2 ^ 28"
    "compile_block n H d ro M entry = Some (Compiled b)"
  shows "jb_pc b = entry" "\<And>s. jit_ready s \<Longrightarrow> exact_trace (jb_insns b) H d M ((jcpu s)\<lparr>pc := entry\<rparr>) \<Longrightarrow>
      outcome_sim b (run (jb_code b @ block_epilogue found b) s) (steps (jb_insns b) H d M ((jcpu s)\<lparr>pc := entry\<rparr>))"
  using compile_loop_sim[OF assms(1,2) assms(5)[unfolded compile_block_def], of found] assms(3)
    sync_ok_entry[OF assms(4), of entry]
  by (auto simp del: run_append)

lemma pending_flags_outcome:
  assumes "exit s = Running" "\<not> spcflags_empty (spcflags (jcpu s))"
  shows "outcome_sim b (execute_translation found b s) (Inr ((jcpu s)\<lparr>pc := jb_pc b\<rparr>))"
  using assms
  by (simp add: execute_translation_def outcome_sim_def next_pc_def op_set_PC_im_def op_exec_return_def jit_base)

end
