(* ===== verification/JIT_Properties.thy ===== *)
theory JIT_Properties
  imports JIT_Correct
begin

unbundle bit_operations_syntax

text \<open>
  What the theories of the translator amount to: the code of a translated block does what the handlers of its
  instructions do, the code of one instruction does what its handler does, translation ends on a run of
  instructions up to a branch that is not followed, and does not on a branch to itself. An example program is
  translated and run.
\<close>

section \<open>When the translation of a block ends\<close>

text \<open>The branches that the translator follows instead of ending the block.\<close>

definition follows_jump :: "decoder \<Rightarrow> u32 \<Rightarrow> bool" where
  "follows_jump d w \<longleftrightarrow>
     (case jit_case_of (ii_mnemo (decode d w)) of
        Some case_B \<Rightarrow> \<not> field_test LK_field w
      | Some case_BC \<Rightarrow> \<not> BO_CONDITIONAL_BRANCH (field_extract BO_field w) \<and> \<not> BO_DECREMENT_CTR (field_extract BO_field w)
      | _ \<Rightarrow> False)"

definition is_vector_word :: "decoder \<Rightarrow> u32 \<Rightarrow> bool" where
  "is_vector_word d w \<longleftrightarrow> jit_case_of (ii_mnemo (decode d w)) = Some case_vector"

lemma translate_kinds:
  shows "translate_insn H ro entry dpc w (ii_mnemo (decode d w)) = Vector_case \<longleftrightarrow> is_vector_word d w"
    "(\<exists>xs t. translate_insn H ro entry dpc w (ii_mnemo (decode d w)) = Const_jump xs t) \<longleftrightarrow> follows_jump d w"
  by (auto simp: translate_insn_def translate_case_def translate_BC_def translate_B_def translate_do_branch_def Let_def
      is_vector_word_def follows_jump_def split: option.splits jit_case.splits)

lemma compile_insn_straight:
  assumes "\<not> is_vector_word d w" "\<not> follows_jump d w" "w = vm_read_memory_4 M (cg_dpc st + 4)"
  obtains st' where "compile_insn H d ro M entry st = Some (ends_block d w, st')" "cg_dpc st' = cg_dpc st + 4"
    "cg_min_pc st' = cg_min_pc st" "cg_max_pc st' = cg_max_pc st" "cg_insns st' = Suc (cg_insns st)"
  using assms(1,2) unfolding translate_kinds[symmetric, of _ _ H ro entry "cg_dpc st + 4"] assms(3)
  by (cases "translate_insn H ro entry (cg_dpc st + 4) (vm_read_memory_4 M (cg_dpc st + 4))
        (ii_mnemo (decode d (vm_read_memory_4 M (cg_dpc st + 4))))")
     (force simp: compile_insn_def Let_def ends_block_def emit_def do_invoke_def)+

lemma compile_loop_straight:
  assumes "words_at M (cg_dpc st + 4) ws" "straight d ws" "\<forall>w\<in>set ws. \<not> is_vector_word d w \<and> \<not> follows_jump d w"
  shows "\<exists>st'. compile_loop (length ws) H d ro M entry st = Some (Compiled (finish_translation entry st')) \<and>
    cg_dpc st' = cg_dpc st + 4 * of_nat (length ws) \<and> cg_min_pc st' = cg_min_pc st \<and> cg_max_pc st' = cg_max_pc st \<and>
    cg_insns st' = cg_insns st + length ws"
  using assms
proof (induction ws arbitrary: st)
  case Nil
  then show ?case by simp
next
  case (Cons w ws)
  obtain st' where st': "compile_insn H d ro M entry st = Some (ends_block d w, st')" "cg_dpc st' = cg_dpc st + 4"
    "cg_min_pc st' = cg_min_pc st" "cg_max_pc st' = cg_max_pc st" "cg_insns st' = Suc (cg_insns st)"
    using compile_insn_straight[of d w M st H ro entry] Cons.prems(1,3) by auto
  show ?case
  proof (cases ws)
    case Nil
    then show ?thesis using st' Cons.prems(2) by auto
  next
    case (Cons v vs)
    then have "\<not> ends_block d w" "straight d ws" using Cons.prems(2) by auto
    moreover have "words_at M (cg_dpc st' + 4) ws" using Cons.prems(1) st'(2) by (simp add: add.assoc)
    ultimately show ?thesis using Cons.IH[of st'] Cons.prems(3) st' by (auto simp: algebra_simps)
  qed
qed

lemma compile_loop_mono:
  "compile_loop n H d ro M entry st = Some r \<Longrightarrow> n \<le> m \<Longrightarrow> compile_loop m H d ro M entry st = Some r"
proof (induction n arbitrary: m st)
  case (Suc n)
  then show ?case by (cases m) (auto split: option.splits prod.splits if_splits)
qed simp

section \<open>Code runs to its end\<close>

text \<open>Where code and handler disagree, the code runs nevertheless.\<close>

lemma multiple_runs:
  assumes "exit s = Running" "tmp s T0 = Word a"
  shows "\<exists>s'. run (gen_lmw_T0 r) s = Inr s' \<and> exit s' = Running" "\<exists>s'. run (gen_stmw_T0 r) s = Inr s' \<and> exit s' = Running"
  using assms by (auto simp: gen_lmw_T0_def gen_stmw_T0_def op_lmw_T0_def op_lmw_T0_im_def op_stmw_T0_def op_stmw_T0_im_def
      jit_base split: prod.splits)

lemma inexact_runs:
  assumes "jit_ready s" "\<not> jit_exact H x opcode (jcpu s)" "\<not> is_branch_case x" "x \<noteq> case_vector"
  shows "\<exists>s'. run (gen_case H x opcode) s = Inr s' \<and> exit s' = Running"
proof (cases x)
  case (case_fp2 FP f)
  then show ?thesis using readyD[OF assms(1)] by (cases FP; cases f) (simp_all add: sim_defs jit_ops jit_gen gen_fp2_def op_fop_FD_F0_F1_def op_fops_FD_F0_F1_def)
next
  case (case_fp3 FP f)
  then show ?thesis using readyD[OF assms(1)] by (cases FP; cases f) (simp_all add: sim_defs jit_ops jit_gen gen_fp3_def op_fop_FD_F0_F1_F2_def op_fops_FD_F0_F1_F2_def)
next
  case case_LMW
  then show ?thesis using readyD[OF assms(1)] by (auto simp: sim_defs jit_ops jit_gen gen_multiple_ea_def intro!: multiple_runs)
next
  case case_STMW
  then show ?thesis using readyD[OF assms(1)] by (auto simp: sim_defs jit_ops jit_gen gen_multiple_ea_def intro!: multiple_runs)
next
  case case_RLWNM
  then show ?thesis using readyD[OF assms(1)] by (simp add: sim_defs jit_ops jit_gen gen_rlwnm_body_def)
qed (use assms(2-4) in \<open>simp_all add: jit_exact_def is_branch_case_def\<close>)

section \<open>An example\<close>

lemma in_table: "ii \<in> set (tl powerpc_ii_table_01) \<union> set powerpc_ii_table_04 \<Longrightarrow> ii \<in> set (tl full_ii_table)"
  unfolding tl_full_ii_table by auto

lemma decode_examples:
  assumes "decoder_loaded d"
  shows "unat w div 2 ^ 26 = 14 \<Longrightarrow> decode d w = instr_info ''addi''
      (pmf_addition operand_RA_or_0 operand_SIMM operand_NONE CA_BIT_0 OE_BIT_0 RC_BIT_0) ''ADDI'' D_form 14 0 CFLOW_NORMAL"
    "unat w div 2 ^ 26 = 18 \<Longrightarrow> decode d w = instr_info ''b''
      (pmf_branch operand_PC (immediate_value (uint (BO_MAKE False False False False))) operand_LI AA_BIT_G LK_BIT_G)
      ''B'' I_form 18 0 CFLOW_BRANCH"
    "decode d 0x4E800020 = instr_info ''bclr''
      (pmf_branch operand_LR operand_BO operand_ZERO AA_BIT_0 LK_BIT_G) ''BCLR'' XL_form 19 16 CFLOW_BRANCH"
    "decode d 0x7CA000A6 = instr_info ''mfmsr'' pmf_mfmsr ''MFMSR'' X_form 31 83 CFLOW_NORMAL"
  by (rule decode_entry[OF assms], rule in_table,
      simp add: powerpc_ii_table_01_def powerpc_ii_table_04_def, simp add: ii_matches_def opcode_fields)+

lemma case_of_examples:
  "jit_case_of ''ADDI'' = Some case_ADDI" "jit_case_of ''B'' = Some case_B" "jit_case_of ''BCLR'' = Some case_BCLR"
  "jit_case_of ''MFMSR'' = None" "jit_case_of ''FADD'' = Some (case_fp2 FP_double op_fadd)"
  by (simp_all only: jit_lookup string_eval)



lemma compile_examples:
  assumes "decoder_loaded d" "vm_read_memory_4 M (cg_dpc st + 4) = w"
    "st1 = st\<lparr>cg_dpc := cg_dpc st + 4, cg_insns := cg_insns st + 1\<rparr>"
  shows "w = 0x38600005 \<Longrightarrow> compile_insn H d ro M entry st = Some (False, emit (gen_case H case_ADDI w) st1)"
    "unat w div 2 ^ 26 = 18 \<Longrightarrow> \<not> field_test LK_field w \<Longrightarrow> \<not> field_test AA_field w \<Longrightarrow>
       compile_insn H d ro M entry st = Some (False, do_const_jump ((cg_dpc st + 4 + imm operand_LI w) AND - 4) (emit [] st1))"
    "w = 0x7CA000A6 \<Longrightarrow> compile_insn H d ro M entry st = Some (False, do_invoke (call_pmf H pmf_mfmsr) w st1)"
    "w = 0x4E800020 \<Longrightarrow> compile_insn H d ro M entry st =
       Some (True, emit ([op_load_T0_LR_aligned] @ gen_LK w (cg_dpc st + 4 + 4) @
         gen_bc (field_extract BO_field w) (regno BI_field w) (- 1) (cg_dpc st + 4 + 4) False) st1)"
  using assms decode_examples[OF assms(1)]
  by (simp_all add: compile_insn_def Let_def translate_insn_def case_of_examples translate_case_def translate_B_def
      translate_do_branch_def CFLOW_NORMAL_def CFLOW_BRANCH_def CFLOW_END_BLOCK_def CFLOW_JUMP_def CFLOW_TRAP_def)

lemma self_branch: "unat (0x48000000 :: u32) div 2 ^ 26 = 18" "\<not> field_test LK_field 0x48000000"
  "\<not> field_test AA_field 0x48000000" "imm operand_LI 0x48000000 = 0"
  by (simp_all add: eval_simps imm_def op_sign_extend_LI_32_apply_def)

lemma compile_loop_self_branch:
  assumes "decoder_loaded d" "vm_read_memory_4 M (cg_dpc st + 4) = 0x48000000" "(cg_dpc st + 4) AND 3 = 0"
  shows "compile_loop n H d ro M entry st = None"
  using assms(2,3)
proof (induction n arbitrary: st)
  case (Suc n)
  let ?st = "do_const_jump (cg_dpc st + 4) (emit [] (st\<lparr>cg_dpc := cg_dpc st + 4, cg_insns := cg_insns st + 1\<rparr>))"
  have "compile_insn H d ro M entry st = Some (False, ?st)"
    using compile_examples(2)[OF assms(1) Suc.prems(1) refl self_branch(1-3), of H ro entry] self_branch(4)
      aligned_and_self[OF Suc.prems(2)] by simp
  moreover have "compile_loop n H d ro M entry ?st = None"
    using Suc.prems by (intro Suc.IH) (simp_all add: do_const_jump_def)
  ultimately show ?case by simp
qed simp

text \<open>
  \<^verbatim>\<open>li r3,5\<close> and a branch at \<open>0x1000\<close>, to \<^verbatim>\<open>mfmsr r5\<close> and \<^verbatim>\<open>blr\<close> at \<open>0x500\<close>: code of
  the translator's own, a branch that is followed, a call of the handler and a branch that ends the block.
\<close>

definition example_program :: host_mem where
  "example_program =
     vm_write_memory_4 (vm_write_memory_4 (vm_write_memory_4 (vm_write_memory_4 (\<lambda>_. 0)
       0x1000 0x38600005) 0x1004 0x4BFFF4FC) 0x500 0x7CA000A6) 0x504 0x4E800020"

lemma example_words:
  "vm_read_memory_4 example_program 0x1000 = 0x38600005" "vm_read_memory_4 example_program 0x1004 = 0x4BFFF4FC"
  "vm_read_memory_4 example_program 0x500 = 0x7CA000A6" "vm_read_memory_4 example_program 0x504 = 0x4E800020"
  by (simp_all add: example_program_def read_write_4_same read_write_4_other)

lemma example_branch: "unat (0x4BFFF4FC :: u32) div 2 ^ 26 = 18" "\<not> field_test LK_field 0x4BFFF4FC"
  "\<not> field_test AA_field 0x4BFFF4FC" "(0x1004 + imm operand_LI 0x4BFFF4FC) AND - 4 = 0x500"
  by (simp_all add: eval_simps imm_def op_sign_extend_LI_32_apply_def)

lemma example_kinds:
  assumes "decoder_loaded d" "w \<in> {0x38600005, 0x7CA000A6, 0x4E800020}"
  shows "\<not> is_vector_word d w" "\<not> follows_jump d w" "ends_block d w \<longleftrightarrow> w = 0x4E800020"
  using assms(2) decode_examples[OF assms(1)]
  by (auto simp: is_vector_word_def follows_jump_def case_of_examples ends_block_def CFLOW_NORMAL_def CFLOW_BRANCH_def
      CFLOW_END_BLOCK_def CFLOW_JUMP_def CFLOW_TRAP_def)

lemma example_insn:
  assumes "decoder_loaded d" "w \<in> {0x38600005, 0x7CA000A6, 0x4E800020}" "vm_read_memory_4 M (cg_dpc st + 4) = w"
  obtains st' where "compile_insn H d ro M entry st = Some (w = 0x4E800020, st')" "cg_dpc st' = cg_dpc st + 4"
    "cg_min_pc st' = cg_min_pc st" "cg_max_pc st' = cg_max_pc st" "cg_insns st' = Suc (cg_insns st)"
  by (rule compile_insn_straight[OF example_kinds(1,2)[OF assms(1,2)] assms(3)[symmetric], of H ro entry])
     (simp add: example_kinds(3)[OF assms(1,2)])

lemma example_compiled:
  assumes "decoder_loaded d"
  shows "\<exists>b. compile_block 4 H d ro example_program 0x1000 = Some (Compiled b) \<and>
    jb_insns b = 4 \<and> jb_min_pc b = 0x4FC \<and> jb_max_pc b = 0x1000 \<and> jb_end_pc b = 0x504"
proof -
  define st where "st = \<lparr>cg_dpc = 0x1000 - 4, sync_pc = 0x1000 - 4, sync_pc_offset = 0, cg_min_pc = 0x1000, cg_max_pc = 0x1000,
        cg_code = [], cg_li0 = None, cg_li1 = None, use_direct_block_chaining = False, cg_insns = 0\<rparr>"
  let ?c = "compile_insn H d ro example_program 0x1000"
  obtain st1 where 1: "?c st = Some (False, st1)" "cg_dpc st1 = 0x1000" "cg_min_pc st1 = 0x1000" "cg_max_pc st1 = 0x1000"
    "cg_insns st1 = 1"
    by (rule example_insn[OF assms(1), of "0x38600005" example_program st H ro "0x1000"]) (simp_all add: example_words st_def)
  obtain st2 where 2: "?c st1 = Some (False, st2)" "cg_dpc st2 = 0x4FC" "cg_min_pc st2 = 0x4FC" "cg_max_pc st2 = 0x1000"
    "cg_insns st2 = 2"
    using compile_examples(2)[OF assms(1) _ refl example_branch(1-3), of example_program st1 H ro "0x1000"] 1(2-) example_words(2)
      example_branch(4) by (simp add: emit_def do_const_jump_def widen_pc_def)
  obtain st3 where 3: "?c st2 = Some (False, st3)" "cg_dpc st3 = 0x500" "cg_min_pc st3 = 0x4FC" "cg_max_pc st3 = 0x1000"
    "cg_insns st3 = 3"
    by (rule example_insn[OF assms(1), of "0x7CA000A6" example_program st2 H ro "0x1000"]) (simp_all add: example_words 2)
  obtain st4 where 4: "?c st3 = Some (True, st4)" "cg_dpc st4 = 0x504" "cg_min_pc st4 = 0x4FC" "cg_max_pc st4 = 0x1000"
    "cg_insns st4 = 4"
    by (rule example_insn[OF assms(1), of "0x4E800020" example_program st3 H ro "0x1000"]) (simp_all add: example_words 3)
  have "compile_block 4 H d ro example_program 0x1000 = Some (Compiled (finish_translation 0x1000 st4))"
    unfolding compile_block_def st_def[symmetric] by (simp add: numeral_eq_Suc 1(1) 2(1) 3(1) 4(1))
  then show ?thesis using 4(2-) by (simp add: finish_translation_def widen_pc_def Let_def)
qed


definition example_vcpu :: vcpu where
  "example_vcpu = \<lparr>jcpu = zero_cpu\<lparr>lr := 0x2000, mem := example_program\<rparr>, tmp = \<lambda>_. Word 0, reg_F3 = 0, exit = Running\<rparr>"

lemma example_handlers:
  "call_pmf H (pmf_addition operand_RA_or_0 operand_SIMM operand_NONE CA_BIT_0 OE_BIT_0 RC_BIT_0) 0x38600005 c =
     Inr (increment_pc 4 (set_gpr 3 5 c))"
  "call_pmf H pmf_mfmsr 0x7CA000A6 c = Inr (increment_pc 4 (set_gpr 5 0xf072 c))"
  by (simp_all add: eval_simps execute_mfmsr_def execute_addition_def upd_if_def op_sign_extend_16_32_apply_def)

lemma example_fields:
  "operand_get operand_BO c 0x4E800020 = 20" "\<not> BO_DECREMENT_CTR 20" "\<not> BO_CONDITIONAL_BRANCH 20"
  "\<not> field_test LK_field 0x4E800020" "operand_get operand_ZERO c w = 0" "operand_get operand_LR c w = lr c"
  "operand_get operand_PC c w = pc c" "operand_get operand_LI c 0x4BFFF4FC = - 0xB04"
  "operand_get (immediate_value (uint (BO_MAKE False False False False))) c w = BO_MAKE False False False False"
  by (simp_all add: eval_simps BO_DECREMENT_CTR_def BO_CONDITIONAL_BRANCH_def op_sign_extend_LI_32_apply_def BO_MAKE_def)

lemma example_jumps:
  "pc c = 0x1004 \<Longrightarrow> call_pmf H (pmf_branch operand_PC (immediate_value (uint (BO_MAKE False False False False))) operand_LI AA_BIT_G LK_BIT_G)
     0x4BFFF4FC c = Inr (c\<lparr>pc := 0x500\<rparr>)"
  "lr c = 0x2000 \<Longrightarrow> call_pmf H (pmf_branch operand_LR operand_BO operand_ZERO AA_BIT_0 LK_BIT_G) 0x4E800020 c = Inr (c\<lparr>pc := 0x2000\<rparr>)"
  by (simp_all add: execute_branch_def branch_condition_def branch_decrement_def Let_def example_fields BO_MAKE_decodes
      example_branch(2,3) del: operand_get.simps)

lemma example_steps:
  assumes "decoder_loaded d"
  shows "pc c = 0x1000 \<Longrightarrow> step_at H d example_program c = Inr (increment_pc 4 (set_gpr 3 5 c))"
    "pc c = 0x1004 \<Longrightarrow> step_at H d example_program c = Inr (c\<lparr>pc := 0x500\<rparr>)"
    "pc c = 0x500 \<Longrightarrow> step_at H d example_program c = Inr (increment_pc 4 (set_gpr 5 0xf072 c))"
    "pc c = 0x504 \<Longrightarrow> lr c = 0x2000 \<Longrightarrow> step_at H d example_program c = Inr (c\<lparr>pc := 0x2000\<rparr>)"
  using decode_examples[OF assms]
  by (simp_all add: step_at_def Let_def example_words example_handlers example_jumps del: call_pmf.simps)

lemma example_exact:
  assumes "decoder_loaded d"
  shows "pc c \<in> {0x1000, 0x1004, 0x500, 0x504} \<Longrightarrow> exact_at H d example_program c"
     using decode_examples[OF assms]
     by (auto simp: exact_at_def Let_def example_words case_of_examples jit_exact_def)

lemma example_run:
  assumes "decoder_loaded d" "c = (jcpu example_vcpu)\<lparr>pc := 0x1000\<rparr>"
  shows "exact_trace 4 H d example_program c"
    "steps 4 H d example_program c = Inr (set_gpr 5 0xf072 (set_gpr 3 5 (jcpu example_vcpu))\<lparr>pc := 0x2000\<rparr>)"
proof -
  have pc: "pc c = 0x1000" "lr c = 0x2000" by (simp_all add: assms(2) example_vcpu_def)
  let ?c1 = "increment_pc 4 (set_gpr 3 5 c)"
  let ?c2 = "?c1\<lparr>pc := 0x500\<rparr>"
  let ?c3 = "increment_pc 4 (set_gpr 5 0xf072 ?c2)"
  note s1 = example_steps(1)[OF assms(1) pc(1), of H]
  have s2: "step_at H d example_program ?c1 = Inr ?c2" by (rule example_steps(2)[OF assms(1)]) (simp add: pc)
  have s3: "step_at H d example_program ?c2 = Inr ?c3" by (rule example_steps(3)[OF assms(1)]) simp
  have s4: "step_at H d example_program ?c3 = Inr (?c3\<lparr>pc := 0x2000\<rparr>)"
    by (rule example_steps(4)[OF assms(1)]) (simp_all add: pc)
  have e: "exact_at H d example_program c" "exact_at H d example_program ?c1" "exact_at H d example_program ?c2"
    "exact_at H d example_program ?c3"
    by (rule example_exact[OF assms(1)], simp add: pc)+
  have four: "(4 :: nat) = Suc (Suc (Suc (Suc 0)))" by simp
  show "exact_trace 4 H d example_program c"
    unfolding four exact_trace.simps s1 s2 s3 s4 sum.case using e by blast
  have "steps 4 H d example_program c = Inr (?c3\<lparr>pc := 0x2000\<rparr>)"
    unfolding four steps.simps by (simp only: s1 s2 s3 s4 and_then.simps)
  also have "?c3\<lparr>pc := 0x2000\<rparr> = set_gpr 5 0xf072 (set_gpr 3 5 (jcpu example_vcpu))\<lparr>pc := 0x2000\<rparr>"
    by (simp add: assms(2) set_gpr_def increment_pc_def)
  finally show "steps 4 H d example_program c = Inr (set_gpr 5 0xf072 (set_gpr 3 5 (jcpu example_vcpu))\<lparr>pc := 0x2000\<rparr>)" .
qed

lemma example_vcpu_ready: "jit_ready example_vcpu" "spcflags_empty (spcflags (jcpu example_vcpu))"
  by (simp_all add: jit_ready_def example_vcpu_def wf_cpu_def zero_cpu_def wf_xer_init spcflags_empty_def)

lemma example_compiles: "\<exists>d b. load_decoder empty_decoder = Some d \<and> decoder_loaded d \<and>
    compile_block 4 H d ro example_program 0x1000 = Some (Compiled b) \<and>
    jb_insns b = 4 \<and> jb_min_pc b = 0x4FC \<and> jb_max_pc b = 0x1000 \<and> jb_end_pc b = 0x504"
  using loaded_decoder example_compiled by metis

section \<open>Properties of the translator\<close>





text \<open>
  C22: Code that the translator emits itself is well typed: in every ready state it runs to its end without taking a
  temporary that holds an address for a word or the reverse, also for the instructions on which it disagrees with the handler.
\<close>

theorem native_code_well_typed:
  assumes "jit_ready s" "translate_insn H ro entry dpc w m = Native xs"
  shows "\<exists>s'. run xs s = Inr s' \<and> exit s' = Running"
proof -
  obtain x where x: "\<not> is_branch_case x" "x \<noteq> case_vector" "xs = gen_case H x w"
    using translate_native[OF assms(2)] by metis
  show ?thesis
  proof (cases "jit_exact H x w (jcpu s)")
    case True
    then have "sim_case H x w dpc s" using sim_native[OF assms(1) _ x(1)] by blast
    then show ?thesis using x(3) by (auto simp: sim_case_def simulates_def)
  next
    case False
    then show ?thesis using inexact_runs[OF assms(1) _ x(1,2)] x(3) by blast
  qed
qed

theorem native_code_well_typed_witness:
  "\<exists>s'. run (gen_case example_sheep_host (case_fp2 FP_double op_fadd) 0xFC22182A) example_vcpu = Inr s' \<and> exit s' = Running"
  using native_code_well_typed[OF example_vcpu_ready(1), of example_sheep_host "\<lambda>_. False" 0 0 "0xFC22182A" "''FADD''"]
  by (simp add: translate_insn_def translate_case_def case_of_examples del: gen_case.simps)



text \<open>
  C37: The translator follows a branch to itself forever: no amount of fuel is enough.
\<close>

theorem self_branch_never_translated:
  assumes "decoder_loaded d" "vm_read_memory_4 M entry = 0x48000000" "entry AND 3 = 0"
  shows "compile_block n H d ro M entry = None"
  unfolding compile_block_def using assms by (intro compile_loop_self_branch) simp_all

theorem self_branch_never_translated_witness:
  "\<exists>d. load_decoder empty_decoder = Some d \<and>
     compile_block 1000 example_sheep_host d (\<lambda>_. False) (vm_write_memory_4 (\<lambda>_. 0) 0x1000 0x48000000) 0x1000 = None"
proof -
  obtain d where d: "load_decoder empty_decoder = Some d" "decoder_loaded d" by (rule loaded_decoder)
  show ?thesis
    using self_branch_never_translated[OF d(2) read_write_4_same[of "\<lambda>_. 0" "0x1000" "0x48000000"]] d(1)
    by auto
qed


end
