(* ===== verification/Mac_Memory.thy ===== *)
theory Mac_Memory
  imports PPC_Memory
begin

text \<open>
  The accessors by which the emulator's own routines read and write Mac memory
  (\<^verbatim>\<open>cpu_emulation.h\<close>), and the facts on separate fields that the Time Manager, the SCSI
  Manager and the other clients use.
\<close>

definition ReadMacInt8 :: "host_mem \<Rightarrow> u32 \<Rightarrow> u32" where
  "ReadMacInt8 m addr = vm_read_memory_1 m addr"

definition WriteMacInt8 :: "host_mem \<Rightarrow> u32 \<Rightarrow> u32 \<Rightarrow> host_mem" where
  "WriteMacInt8 m addr v = vm_write_memory_1 m addr v"

definition ReadMacInt16 :: "host_mem \<Rightarrow> u32 \<Rightarrow> u32" where
  "ReadMacInt16 m addr = vm_read_memory_2 m addr"

definition WriteMacInt16 :: "host_mem \<Rightarrow> u32 \<Rightarrow> u32 \<Rightarrow> host_mem" where
  "WriteMacInt16 m addr v = vm_write_memory_2 m addr v"

definition ReadMacInt32 :: "host_mem \<Rightarrow> u32 \<Rightarrow> u32" where
  "ReadMacInt32 m addr = vm_read_memory_4 m addr"

definition WriteMacInt32 :: "host_mem \<Rightarrow> u32 \<Rightarrow> u32 \<Rightarrow> host_mem" where
  "WriteMacInt32 m addr v = vm_write_memory_4 m addr v"

definition Mac2HostAddr :: "u32 \<Rightarrow> u64" where
  "Mac2HostAddr addr = vm_do_get_real_address addr"

section \<open>Separate fields\<close>

text \<open>The \<open>n\<close> bytes from \<open>a\<close> on, and fields that do not overlap.\<close>

definition mac_span :: "u32 \<Rightarrow> nat \<Rightarrow> u64 set" where
  "mac_span a n = {ucast a + of_nat i | i. i < n}"

definition apart :: "u32 \<Rightarrow> nat \<Rightarrow> u32 \<Rightarrow> nat \<Rightarrow> bool" where
  "apart a n b k \<longleftrightarrow> unat a + n \<le> unat b \<or> unat b + k \<le> unat a"

lemma apart_sym: "apart a n b k \<longleftrightarrow> apart b k a n"
  by (auto simp: apart_def)

lemma unat_host_addr: "n \<le> 0x1000 \<Longrightarrow> unat (ucast (a :: u32) + of_nat n :: u64) = unat a + n"
proof -
  have "unat (ucast a :: u64) = unat a"
    using unsigned_less[of a, where ?'a = nat] by (simp add: unsigned_ucast_eq take_bit_nat_eq_self_iff)
  moreover assume "n \<le> 0x1000"
  ultimately show ?thesis
    using unsigned_less[of a, where ?'a = nat] by (subst unat_add_lem[THEN iffD1]) (simp_all add: unat_of_nat)
qed

lemma apart_disjoint:
  assumes "apart a n b k" "n \<le> 0x1000" "k \<le> 0x1000"
  shows "mac_span a n \<inter> mac_span b k = {}"
proof (rule ccontr)
  assume "mac_span a n \<inter> mac_span b k \<noteq> {}"
  then obtain i j where "i < n" "j < k" "(ucast a + of_nat i :: u64) = ucast b + of_nat j"
    by (auto simp: mac_span_def)
  then have "unat a + i = unat b + j"
    using assms unat_host_addr[of i a] unat_host_addr[of j b] by simp
  then show False using assms(1) \<open>i < n\<close> \<open>j < k\<close> by (auto simp: apart_def)
qed

lemma mac_spanI: "x = ucast a + of_nat i \<Longrightarrow> i < n \<Longrightarrow> x \<in> mac_span a n"
  by (auto simp: mac_span_def)

lemmas mac_access_defs = ReadMacInt8_def ReadMacInt16_def ReadMacInt32_def
  WriteMacInt8_def WriteMacInt16_def WriteMacInt32_def
  vm_read_memory_1_def vm_read_memory_2_def vm_read_memory_4_def
  vm_write_memory_1_def vm_write_memory_2_def vm_write_memory_4_def vm_do_get_real_address_def

lemma mac_write_frame:
  "x \<notin> mac_span a 1 \<Longrightarrow> WriteMacInt8 m a v x = m x"
  "x \<notin> mac_span a 2 \<Longrightarrow> WriteMacInt16 m a v x = m x"
  "x \<notin> mac_span a 4 \<Longrightarrow> WriteMacInt32 m a v x = m x"
  unfolding mac_access_defs
  using cell1.wr_outside[of x "ucast a" m v] cell2.wr_outside[of x "ucast a" m v] cell4.wr_outside[of x "ucast a" m v]
  by (auto simp: mac_span_def)

lemma mac_read_local:
  "(\<And>x. x \<in> mac_span a 1 \<Longrightarrow> m x = m' x) \<Longrightarrow> ReadMacInt8 m a = ReadMacInt8 m' a"
  "(\<And>x. x \<in> mac_span a 2 \<Longrightarrow> m x = m' x) \<Longrightarrow> ReadMacInt16 m a = ReadMacInt16 m' a"
  "(\<And>x. x \<in> mac_span a 4 \<Longrightarrow> m x = m' x) \<Longrightarrow> ReadMacInt32 m a = ReadMacInt32 m' a"
  unfolding mac_access_defs
  by ((rule cell1.rd_local, blast intro: mac_spanI), (rule cell2.rd_local, blast intro: mac_spanI),
      (rule cell4.rd_local, blast intro: mac_spanI))

lemma mac_read_frame:
  "apart a 2 b 2 \<Longrightarrow> ReadMacInt16 (WriteMacInt16 m b v) a = ReadMacInt16 m a"
  "apart a 2 b 4 \<Longrightarrow> ReadMacInt16 (WriteMacInt32 m b v) a = ReadMacInt16 m a"
  "apart a 4 b 2 \<Longrightarrow> ReadMacInt32 (WriteMacInt16 m b v) a = ReadMacInt32 m a"
  "apart a 4 b 4 \<Longrightarrow> ReadMacInt32 (WriteMacInt32 m b v) a = ReadMacInt32 m a"
  "apart a 1 b 1 \<Longrightarrow> ReadMacInt8 (WriteMacInt8 m b v) a = ReadMacInt8 m a"
  using apart_disjoint[of a 2 b 2] apart_disjoint[of a 2 b 4] apart_disjoint[of a 4 b 2] apart_disjoint[of a 4 b 4]
    apart_disjoint[of a 1 b 1]
  by (auto intro!: mac_read_local mac_write_frame)

lemma mac_read_write [simp]:
  "ReadMacInt8 (WriteMacInt8 m a v) a = take_bit 8 v"
  "ReadMacInt16 (WriteMacInt16 m a v) a = take_bit 16 v"
  "ReadMacInt32 (WriteMacInt32 m a v) a = v"
  unfolding mac_access_defs by (simp_all add: cell1.rd_wr cell2.rd_wr cell4.rd_wr take_bit_by_bytes)

lemma mac_write_write [simp]:
  "WriteMacInt16 (WriteMacInt16 m a v) a w = WriteMacInt16 m a w"
  "WriteMacInt32 (WriteMacInt32 m a v) a w = WriteMacInt32 m a w"
  unfolding mac_access_defs by (simp_all add: cell2.wr_wr cell4.wr_wr)

lemma ReadMacInt16_take_bit [simp]: "take_bit 16 (ReadMacInt16 m a) = ReadMacInt16 m a"
  unfolding mac_access_defs vm_do_read_defs
  by (intro word_eq_by_bits) (auto simp: bit_rules dest: bit_imp_le_length)

text \<open>Fields of a structure that lies below the end of the address space.\<close>

lemma unat_field: "unat a + k < 0x100000000 \<Longrightarrow> unat (a + of_nat k :: u32) = unat a + k"
  by (subst unat_add_lem[THEN iffD1]) (simp_all add: unat_of_nat)

lemma apart_fields:
  assumes "unat a + i + n \<le> 0x100000000" "unat a + j + k \<le> 0x100000000" "i + n \<le> j \<or> j + k \<le> i" "0 < n" "0 < k"
  shows "apart (a + of_nat i) n (a + of_nat j) k"
  using assms unat_field[of a i] unat_field[of a j] by (auto simp: apart_def)

end
