(* ===== verification/Mac_Time.thy ===== *)
theory Mac_Time
  imports Mac_Memory "HOL-Library.Signed_Division"
begin

text \<open>
  The time arithmetic of \<^verbatim>\<open>timer_unix.cpp\<close>, with \<^verbatim>\<open>timespec\<close> as the time type. A Mac time is a
  32-bit integer: milliseconds when positive, negated microseconds otherwise. The
  64-bit members of a time are integers; the conversions to narrower types are written out.
\<close>

record tm_time_t =
  tv_sec :: int
  tv_nsec :: int

definition timer_add_time :: "tm_time_t \<Rightarrow> tm_time_t \<Rightarrow> tm_time_t" where
  "timer_add_time a b =
     (let res = \<lparr>tv_sec = tv_sec a + tv_sec b, tv_nsec = tv_nsec a + tv_nsec b\<rparr>
      in if 1000000000 \<le> tv_nsec res
         then \<lparr>tv_sec = tv_sec res + 1, tv_nsec = tv_nsec res - 1000000000\<rparr> else res)"

definition timer_sub_time :: "tm_time_t \<Rightarrow> tm_time_t \<Rightarrow> tm_time_t" where
  "timer_sub_time a b =
     (let res = \<lparr>tv_sec = tv_sec a - tv_sec b, tv_nsec = tv_nsec a - tv_nsec b\<rparr>
      in if tv_nsec res < 0
         then \<lparr>tv_sec = tv_sec res - 1, tv_nsec = tv_nsec res + 1000000000\<rparr> else res)"

text \<open>The result is converted to \<^verbatim>\<open>int\<close>.\<close>

definition timer_cmp_time :: "tm_time_t \<Rightarrow> tm_time_t \<Rightarrow> int" where
  "timer_cmp_time a b =
     signed_take_bit 31
       (if tv_sec a = tv_sec b then tv_nsec a - tv_nsec b else tv_sec a - tv_sec b)"

definition timer_mac2host_time :: "u32 \<Rightarrow> tm_time_t" where
  "timer_mac2host_time mactime =
     (if 0 < sint mactime
      then \<lparr>tv_sec = sint mactime sdiv 1000, tv_nsec = (sint mactime smod 1000) * 1000000\<rparr>
      else \<lparr>tv_sec = sint (- mactime) sdiv 1000000, tv_nsec = (sint (- mactime) smod 1000000) * 1000\<rparr>)"

definition timer_host2mac_time :: "tm_time_t \<Rightarrow> u32" where
  "timer_host2mac_time hosttime =
     (if tv_sec hosttime < 0 then 0
      else let t = (of_int (tv_sec hosttime) :: u64) * 1000000 + of_int (tv_nsec hosttime sdiv 1000)
           in if 0x7fffffff < t then ucast (t div 1000) else ucast (- t))"

section \<open>Times as numbers\<close>

text \<open>A time in nanoseconds, and the normal form that the operations keep.\<close>

definition time_ns :: "tm_time_t \<Rightarrow> int" where
  "time_ns t = tv_sec t * 1000000000 + tv_nsec t"

definition normal_time :: "tm_time_t \<Rightarrow> bool" where
  "normal_time t \<longleftrightarrow> 0 \<le> tv_nsec t \<and> tv_nsec t < 1000000000"

lemma timer_add_time_ns:
  "time_ns (timer_add_time a b) = time_ns a + time_ns b"
  "normal_time a \<Longrightarrow> normal_time b \<Longrightarrow> normal_time (timer_add_time a b)"
  by (auto simp: timer_add_time_def time_ns_def normal_time_def Let_def)

lemma timer_sub_time_ns:
  "time_ns (timer_sub_time a b) = time_ns a - time_ns b"
  "normal_time a \<Longrightarrow> normal_time b \<Longrightarrow> normal_time (timer_sub_time a b)"
  by (auto simp: timer_sub_time_def time_ns_def normal_time_def Let_def)

lemma normal_time_eq: "normal_time a \<Longrightarrow> normal_time b \<Longrightarrow> time_ns a = time_ns b \<Longrightarrow> a = b"
  proof (intro tm_time_t.equality)
  assume a: "normal_time a" "normal_time b" "time_ns a = time_ns b"
  have "tv_nsec a = time_ns a mod 1000000000" "tv_nsec b = time_ns b mod 1000000000"
    using a(1,2) by (simp_all add: normal_time_def time_ns_def)
  then show "tv_nsec a = tv_nsec b" using a by simp
  then show "tv_sec a = tv_sec b" using a by (simp add: time_ns_def)
qed simp

text \<open>Times of which the seconds are 32-bit integers, as far as the comparison is exact.\<close>

definition near_time :: "tm_time_t \<Rightarrow> bool" where
  "near_time t \<longleftrightarrow> normal_time t \<and> 0 \<le> tv_sec t \<and> tv_sec t \<le> 0x7fffffff"

lemma signed_take_bit_31: "- (2 ^ 31) \<le> x \<Longrightarrow> x < 2 ^ 31 \<Longrightarrow> signed_take_bit 31 x = (x :: int)"
  by (rule signed_take_bit_int_eq_self) auto

lemma timer_cmp_time_sign:
  assumes "near_time a" "near_time b"
  shows "timer_cmp_time a b < 0 \<longleftrightarrow> time_ns a < time_ns b" "timer_cmp_time a b \<le> 0 \<longleftrightarrow> time_ns a \<le> time_ns b"
proof -
  have *: "timer_cmp_time a b = (if tv_sec a = tv_sec b then tv_nsec a - tv_nsec b else tv_sec a - tv_sec b)"
    unfolding timer_cmp_time_def
    by (rule signed_take_bit_31) (use assms in \<open>auto simp: near_time_def normal_time_def\<close>)
  show "timer_cmp_time a b < 0 \<longleftrightarrow> time_ns a < time_ns b" "timer_cmp_time a b \<le> 0 \<longleftrightarrow> time_ns a \<le> time_ns b"
    unfolding * using assms by (auto simp: near_time_def normal_time_def time_ns_def split: if_splits)
qed

section \<open>Conversion of Mac times\<close>

text \<open>The duration of a Mac time in microseconds.\<close>

definition mac_usec :: "u32 \<Rightarrow> int" where
  "mac_usec t = (if 0 < sint t then 1000 * sint t else - sint t)"

lemma sint32_bounds: "- (2 ^ 31) \<le> sint (t :: u32)" "sint (t :: u32) < 2 ^ 31"
  using sint_range_size[of t] by (auto simp: word_size)

lemma sint_gt_min: "t \<noteq> 0x80000000 \<Longrightarrow> - (2 ^ 31) < sint (t :: u32)"
proof (rule ccontr)
  assume t: "t \<noteq> 0x80000000" "\<not> - (2 ^ 31) < sint t"
  then have "sint t = - (2 ^ 31)" using sint32_bounds(1)[of t] by simp
  then have "of_int (sint t) = (of_int (- (2 ^ 31)) :: u32)" by (rule arg_cong)
  then show False using t(1) by simp
qed

lemma sint_neg32: "t \<noteq> 0x80000000 \<Longrightarrow> sint (- t :: u32) = - sint t"
  using sint_gt_min[of t] sint32_bounds[of t] by (simp add: sint_word_ariths signed_take_bit_31)


lemma sdiv_smod_nonneg: "0 \<le> (a :: int) \<Longrightarrow> 0 < b \<Longrightarrow> a sdiv b = a div b" "0 \<le> a \<Longrightarrow> 0 < b \<Longrightarrow> a smod b = a mod b"
  by (auto simp: signed_divide_int_def signed_modulo_int_def sgn_if minus_div_mult_eq_mod)

lemma time_parts:
  fixes q r c :: int
  assumes "0 \<le> q" "q \<le> 0x7fffffff" "0 \<le> r" "r * c < 1000000000" "0 < c"
  shows "time_ns \<lparr>tv_sec = q, tv_nsec = r * c\<rparr> = 1000000000 * q + r * c" "near_time \<lparr>tv_sec = q, tv_nsec = r * c\<rparr>"
  using assms by (auto simp: time_ns_def near_time_def normal_time_def)

lemma timer_mac2host_time_ns:
  assumes "t \<noteq> 0x80000000"
  shows "time_ns (timer_mac2host_time t) = 1000 * mac_usec t" "near_time (timer_mac2host_time t)"
proof -
  define n where "n = (if 0 < sint t then sint t else - sint t)"
  have n: "0 \<le> n" "n \<le> 2 ^ 31" using sint32_bounds[of t] by (auto simp: n_def)
  define k c :: int where "k = (if 0 < sint t then 1000 else 1000000)" and "c = (if 0 < sint t then 1000000 else 1000)"
  define q r where "q = n div k" and "r = n mod k"
  have "timer_mac2host_time t = \<lparr>tv_sec = q, tv_nsec = r * c\<rparr>"
    unfolding q_def r_def k_def c_def n_def timer_mac2host_time_def sint_neg32[OF assms]
    using sdiv_smod_nonneg[of "sint t" 1000] sdiv_smod_nonneg[of "- sint t" 1000000] by auto
  note m = this
  have u: "1000 * mac_usec t = c * n" by (simp add: mac_usec_def n_def c_def)
  have kc: "k = 1000 \<and> c = 1000000 \<or> k = 1000000 \<and> c = 1000" by (simp add: k_def c_def)
  then have k: "0 < k" by auto
  have nq: "n = k * q + r" by (simp add: q_def r_def)
  have r: "0 \<le> r" "r < k" using k by (simp_all add: r_def)
  have q: "0 \<le> q" using k n(1) by (simp add: q_def pos_imp_zdiv_nonneg_iff)
  have "q \<le> 0x7fffffff" using kc nq r q n(2) by auto
  then show "time_ns (timer_mac2host_time t) = 1000 * mac_usec t" "near_time (timer_mac2host_time t)"
    unfolding m u using time_parts[of q r c] kc nq r q by auto
qed

lemma low_word32: "(ucast (of_int v :: u64) :: u32) = of_int v"
  by (rule bit_word_eqI) (simp add: bit_unsigned_iff bit_word_of_int_iff)

lemma timer_host2mac_time_usec:
  assumes "normal_time t" "0 \<le> tv_sec t" "time_ns t div 1000 < 0x7fffffff * 1000"
  shows "timer_host2mac_time t =
    (if time_ns t div 1000 \<le> 0x7fffffff then - of_int (time_ns t div 1000) else of_int (time_ns t div 1000 div 1000))"
proof -
  define us where "us = time_ns t div 1000"
  have us: "us = tv_sec t * 1000000 + tv_nsec t div 1000" "0 \<le> us" "us < 0x7fffffff * 1000"
    using assms by (auto simp: us_def time_ns_def normal_time_def)
  have w: "(of_int (tv_sec t) :: u64) * 1000000 + of_int (tv_nsec t sdiv 1000) = of_int us"
    using assms by (simp add: us(1) normal_time_def sdiv_smod_nonneg)
  have u: "uint (of_int us :: u64) = us" using us(2,3) by (simp add: uint_word_of_int take_bit_int_eq_self_iff)
  have "(0x7fffffff < (of_int us :: u64)) \<longleftrightarrow> 0x7fffffff < us" by (simp add: word_less_def u)
  moreover have "(ucast (- of_int us :: u64) :: u32) = - of_int us"
    by (metis (no_types) low_word32 of_int_minus)
  moreover have "(of_int us :: u64) div 1000 = of_int (us div 1000)"
    by (simp add: word_div_def u)
  moreover have "(ucast (of_int (us div 1000) :: u64) :: u32) = of_int (us div 1000)" by (rule low_word32)
  ultimately show ?thesis using assms(2) w by (simp add: timer_host2mac_time_def Let_def us_def[symmetric] not_le)
qed



lemma mac_usec_bound: "t \<noteq> 0x7fffffff \<Longrightarrow> t \<noteq> 0x80000000 \<Longrightarrow> mac_usec t < 0x7fffffff * 1000"
proof -
  assume t: "t \<noteq> 0x7fffffff" "t \<noteq> 0x80000000"
  have "sint t \<noteq> 0x7fffffff"
  proof
    assume "sint t = 0x7fffffff"
    then have "of_int (sint t) = (of_int 0x7fffffff :: u32)" by (rule arg_cong)
    then show False using t(1) by simp
  qed
  then show ?thesis using sint32_bounds[of t] by (simp add: mac_usec_def)
qed

lemma host2mac_max: "timer_host2mac_time (timer_mac2host_time 0x7fffffff) = 0x7fffffff"
proof -
  have "timer_mac2host_time 0x7fffffff = \<lparr>tv_sec = 2147483, tv_nsec = 647000000\<rparr>"
    unfolding timer_mac2host_time_def by (simp add: sdiv_smod_nonneg)
  moreover have "(647000000 :: int) sdiv 1000 = 647000" by (simp add: sdiv_smod_nonneg)
  ultimately show ?thesis by (simp add: timer_host2mac_time_def)
qed

lemma host2mac_mac2host:
  assumes "t \<noteq> 0x80000000"
  shows "timer_host2mac_time (timer_mac2host_time t) = (if 0 < sint t \<and> sint t \<le> 2147483 then - 1000 * t else t)"
proof (cases "t = 0x7fffffff")
  case True
  then show ?thesis using host2mac_max by simp
next
  case False
  let ?h = "timer_mac2host_time t"
  note h = timer_mac2host_time_ns[OF assms]
  have us: "time_ns ?h div 1000 = mac_usec t" unfolding h(1) by simp
  have "timer_host2mac_time ?h =
      (if mac_usec t \<le> 0x7fffffff then - of_int (mac_usec t) else of_int (mac_usec t div 1000))"
    using timer_host2mac_time_usec[of ?h] h(2) mac_usec_bound[OF False assms] by (simp add: near_time_def us)
  moreover have "of_int (sint t) = t" by simp
  ultimately show ?thesis using sint_gt_min[OF assms] by (simp add: mac_usec_def)
qed

lemma mac_usec_rescale:
  assumes "0 < sint t" "sint t \<le> 2147483"
  shows "mac_usec (- 1000 * t) = mac_usec t" "- 1000 * t \<noteq> 0x80000000"
proof -
  have s: "sint (- 1000 * t) = - 1000 * sint t"
    using assms by (simp add: sint_word_ariths signed_take_bit_31)
  then show "mac_usec (- 1000 * t) = mac_usec t" unfolding mac_usec_def s using assms by simp
  show "- 1000 * t \<noteq> 0x80000000"
  proof
    assume "- 1000 * t = 0x80000000"
    then show False using s assms by simp
  qed
qed

text \<open>
  A Mac time survives the conversion to a host time and back: the negated microseconds come
  back as they were, and milliseconds as the same duration, in microseconds as long as that fits
  32 bits. The most negative value is the only exception: its negation overflows.
\<close>

theorem mac_time_roundtrip:
  assumes "t \<noteq> 0x80000000"
  shows "timer_mac2host_time (timer_host2mac_time (timer_mac2host_time t)) = timer_mac2host_time t \<and>
    timer_host2mac_time (timer_mac2host_time t) = (if 0 < sint t \<and> sint t \<le> 2147483 then - 1000 * t else t)"
proof (cases "0 < sint t \<and> sint t \<le> 2147483")
  case True
  then have "timer_mac2host_time (- 1000 * t) = timer_mac2host_time t"
    using timer_mac2host_time_ns[of "- 1000 * t"] timer_mac2host_time_ns[OF assms] mac_usec_rescale[of t] normal_time_eq
    by (simp add: near_time_def)
  then show ?thesis using host2mac_mac2host[OF assms] True by simp
next
  case False
  then show ?thesis using host2mac_mac2host[OF assms] by auto
qed

theorem mac_time_roundtrip_witness:
  "timer_mac2host_time (timer_host2mac_time (timer_mac2host_time 250)) = \<lparr>tv_sec = 0, tv_nsec = 250000000\<rparr> \<and>
   timer_host2mac_time (timer_mac2host_time 250) = - 250000"
  using mac_time_roundtrip[of 250] by (simp add: timer_mac2host_time_def sdiv_smod_nonneg)

end
