(* ===== verification/Mac_Time_Manager.thy ===== *)
theory Mac_Time_Manager
  imports Mac_Time
begin

unbundle bit_operations_syntax

text \<open>
  The Time Manager of \<^verbatim>\<open>timer.cpp\<close>: the list of descriptors of the installed tasks, the
  operations on it and the interrupt routine that runs the expired tasks. The configuration is
  \<^verbatim>\<open>PRECISE_TIMING_POSIX\<close> with \<^verbatim>\<open>TM_QUEUE\<close> off, so \<^verbatim>\<open>enqueue_tm\<close> and \<^verbatim>\<open>dequeue_tm\<close> are empty;
  the synchronisation with the timer thread is in the theory of the thread.

  A descriptor has an address of its own. Addresses are not used again, so a pointer to a
  freed descriptor is one that is not in the list. The wake-up time of a new
  descriptor is indeterminate (\<open>None\<close>) until the task is primed.
\<close>

definition qType :: u32 where "qType = 4"
definition tmAddr :: u32 where "tmAddr = 6"
definition tmCount :: u32 where "tmCount = 10"
definition tmWakeUp :: u32 where "tmWakeUp = 14"

record TMDesc =
  td_addr :: nat
  task :: u32
  wakeup :: "tm_time_t option"

record time_manager =
  tmDescList :: "TMDesc list"
  td_fresh :: nat
  wakeup_time :: tm_time_t
  mac_mem :: host_mem

datatype tm_error = Uninitialised_wakeup | Freed_descriptor

definition wakeup_time_max :: tm_time_t where
  "wakeup_time_max = \<lparr>tv_sec = 0x7fffffff, tv_nsec = 999999999\<rparr>"

fun free_desc :: "nat \<Rightarrow> TMDesc list \<Rightarrow> TMDesc list" where
  "free_desc a [] = []"
| "free_desc a (d # ds) = (if td_addr d = a then ds else d # free_desc a ds)"

fun find_desc :: "u32 \<Rightarrow> TMDesc list \<Rightarrow> TMDesc option" where
  "find_desc tm [] = None"
| "find_desc tm (d # ds) = (if task d = tm then Some d else find_desc tm ds)"

definition TimerReset :: "time_manager \<Rightarrow> time_manager" where
  "TimerReset st = st\<lparr>tmDescList := []\<rparr>"

definition InsTime :: "u32 \<Rightarrow> u16 \<Rightarrow> time_manager \<Rightarrow> u32 \<times> time_manager" where
  "InsTime tm trap st =
     (let m = mac_mem st;
          st = st\<lparr>mac_mem := WriteMacInt16 m (tm + qType)
                    ((ReadMacInt16 m (tm + qType) AND 0x1fff) OR (push_bit 4 (ucast trap) AND 0x6000))\<rparr>
      in (0, if find_desc tm (tmDescList st) \<noteq> None then st
             else st\<lparr>tmDescList := \<lparr>td_addr = td_fresh st, task = tm, wakeup = None\<rparr> # tmDescList st,
                     td_fresh := td_fresh st + 1\<rparr>))"

text \<open>The loop that looks for the next task to be called.\<close>

definition tm_active :: "host_mem \<Rightarrow> u32 \<Rightarrow> bool" where
  "tm_active m tm \<longleftrightarrow> ReadMacInt16 m (tm + qType) AND 0x8000 \<noteq> 0"

fun next_wakeup :: "host_mem \<Rightarrow> tm_time_t \<Rightarrow> TMDesc list \<Rightarrow> tm_error + tm_time_t" where
  "next_wakeup m t [] = Inr t"
| "next_wakeup m t (d # ds) =
     (if tm_active m (task d)
      then case wakeup d of None \<Rightarrow> Inl Uninitialised_wakeup
           | Some w \<Rightarrow> next_wakeup m (if timer_cmp_time w t < 0 then w else t) ds
      else next_wakeup m t ds)"

definition set_next_wakeup :: "time_manager \<Rightarrow> tm_error + time_manager" where
  "set_next_wakeup st =
     (case next_wakeup (mac_mem st) wakeup_time_max (tmDescList st) of
        Inl e \<Rightarrow> Inl e | Inr t \<Rightarrow> Inr (st\<lparr>wakeup_time := t\<rparr>))"

definition set_active :: "u32 \<Rightarrow> bool \<Rightarrow> time_manager \<Rightarrow> time_manager" where
  "set_active tm b st =
     (let q = ReadMacInt16 (mac_mem st) (tm + qType)
      in st\<lparr>mac_mem := WriteMacInt16 (mac_mem st) (tm + qType) (if b then q OR 0x8000 else q AND 0x7fff)\<rparr>)"

definition RmvTime :: "tm_time_t \<Rightarrow> u32 \<Rightarrow> time_manager \<Rightarrow> tm_error + (u32 \<times> time_manager)" where
  "RmvTime current tm st =
     (case find_desc tm (tmDescList st) of
        None \<Rightarrow> Inr (0, st)
      | Some desc \<Rightarrow>
          (let r = (if tm_active (mac_mem st) tm
                    then case set_next_wakeup (set_active tm False st) of
                           Inl e \<Rightarrow> Inl e
                         | Inr st \<Rightarrow>
                             (case wakeup desc of
                                None \<Rightarrow> Inl Uninitialised_wakeup
                              | Some w \<Rightarrow>
                                  (let remaining = timer_sub_time w current
                                   in Inr (st\<lparr>mac_mem := WriteMacInt32 (mac_mem st) (tm + tmCount)
                                                           (timer_host2mac_time remaining)\<rparr>)))
                    else Inr (st\<lparr>mac_mem := WriteMacInt32 (mac_mem st) (tm + tmCount) 0\<rparr>))
           in case r of Inl e \<Rightarrow> Inl e
              | Inr st \<Rightarrow> Inr (0, st\<lparr>tmDescList := free_desc (td_addr desc) (tmDescList st)\<rparr>)))"

definition set_wakeup :: "nat \<Rightarrow> tm_time_t \<Rightarrow> time_manager \<Rightarrow> time_manager" where
  "set_wakeup a w st =
     st\<lparr>tmDescList := map (\<lambda>d. if td_addr d = a then d\<lparr>wakeup := Some w\<rparr> else d) (tmDescList st)\<rparr>"

definition PrimeTime :: "tm_time_t \<Rightarrow> u32 \<Rightarrow> u32 \<Rightarrow> time_manager \<Rightarrow> tm_error + (u32 \<times> time_manager)" where
  "PrimeTime now tm time st =
     (case find_desc tm (tmDescList st) of
        None \<Rightarrow> Inr (0, st)
      | Some desc \<Rightarrow>
          (let m = mac_mem st;
               delay = timer_mac2host_time time;
               r = (if ReadMacInt16 m (tm + qType) AND 0x4000 \<noteq> 0
                    then let r = (if ReadMacInt32 m (tm + tmWakeUp) \<noteq> 0
                                  then let delay = (if time = 0 then timer_mac2host_time (ReadMacInt16 m (tm + tmCount))
                                                    else delay)
                                       in case wakeup desc of
                                            None \<Rightarrow> Inl Uninitialised_wakeup
                                          | Some w \<Rightarrow> Inr (set_wakeup (td_addr desc) (timer_add_time w delay) st)
                                  else Inr (set_wakeup (td_addr desc) (timer_add_time now delay) st))
                         in case r of Inl e \<Rightarrow> Inl e
                            | Inr st \<Rightarrow> Inr (st\<lparr>mac_mem := WriteMacInt32 (mac_mem st) (tm + tmWakeUp) 0x12345678\<rparr>)
                    else Inr (set_wakeup (td_addr desc) (timer_add_time now delay) st))
           in case r of Inl e \<Rightarrow> Inl e
              | Inr st \<Rightarrow>
                  (case set_next_wakeup (set_active tm True st) of Inl e \<Rightarrow> Inl e | Inr st \<Rightarrow> Inr (0, st))))"

section \<open>The timer interrupt\<close>

text \<open>
  \<open>Execute68k\<close> stands for the 68k routine at an address, called with the task in A1: it may use
  the Time Manager and memory. The loop follows the pointer to the next descriptor that
  it took before the call.
\<close>

fun desc_at :: "nat \<Rightarrow> TMDesc list \<Rightarrow> (TMDesc \<times> nat option) option" where
  "desc_at a [] = None"
| "desc_at a (d # ds) =
     (if td_addr d = a then Some (d, case ds of [] \<Rightarrow> None | d' # _ \<Rightarrow> Some (td_addr d')) else desc_at a ds)"

definition call_task :: "(u32 \<Rightarrow> u32 \<Rightarrow> time_manager \<Rightarrow> time_manager) \<Rightarrow> u32 \<Rightarrow> time_manager \<Rightarrow> time_manager" where
  "call_task Execute68k tm st =
     (let st = set_active tm False st;
          addr = ReadMacInt32 (mac_mem st) (tm + tmAddr)
      in if addr \<noteq> 0 then Execute68k addr tm st else st)"

partial_function (option) interrupt_loop ::
    "(u32 \<Rightarrow> u32 \<Rightarrow> time_manager \<Rightarrow> time_manager) \<Rightarrow> tm_time_t \<Rightarrow> nat option \<Rightarrow> time_manager \<Rightarrow>
     (tm_error + time_manager) option" where
  "interrupt_loop Execute68k now p st =
     (case p of
        None \<Rightarrow> Some (Inr st)
      | Some a \<Rightarrow>
          (case desc_at a (tmDescList st) of
             None \<Rightarrow> Some (Inl Freed_descriptor)
           | Some (d, next) \<Rightarrow>
               if tm_active (mac_mem st) (task d)
               then case wakeup d of
                      None \<Rightarrow> Some (Inl Uninitialised_wakeup)
                    | Some w \<Rightarrow>
                        interrupt_loop Execute68k now next
                          (if timer_cmp_time w now \<le> 0 then call_task Execute68k (task d) st else st)
               else interrupt_loop Execute68k now next st))"

definition list_head :: "TMDesc list \<Rightarrow> nat option" where
  "list_head ds = (case ds of [] \<Rightarrow> None | d # _ \<Rightarrow> Some (td_addr d))"

definition TimerInterrupt ::
    "(u32 \<Rightarrow> u32 \<Rightarrow> time_manager \<Rightarrow> time_manager) \<Rightarrow> tm_time_t \<Rightarrow> time_manager \<Rightarrow> (tm_error + time_manager) option" where
  "TimerInterrupt Execute68k now st =
     (case interrupt_loop Execute68k now (list_head (tmDescList st)) st of
        None \<Rightarrow> None
      | Some (Inl e) \<Rightarrow> Some (Inl e)
      | Some (Inr st) \<Rightarrow> Some (set_next_wakeup st))"


section \<open>Tasks in memory\<close>

text \<open>A task record has 22 bytes. The records of two tasks do not overlap.\<close>

definition task_ok :: "u32 \<Rightarrow> bool" where
  "task_ok tm \<longleftrightarrow> unat tm + 22 \<le> 0x100000000"

lemma field_apart:
  assumes "task_ok a" "task_ok b" "apart a 22 b 22" "i + n \<le> 22" "j + k \<le> 22" "0 < n" "0 < k"
  shows "apart (a + of_nat i) n (b + of_nat j) k"
  using assms unat_field[of a i] unat_field[of b j] by (auto simp: apart_def task_ok_def)

lemmas tm_fields = qType_def tmAddr_def tmCount_def tmWakeUp_def

lemma tm_fields_apart:
  assumes "task_ok tm"
  shows "apart (tm + qType) 2 (tm + tmCount) 4" "apart (tm + qType) 2 (tm + tmWakeUp) 4"
    "apart (tm + tmAddr) 4 (tm + qType) 2" "apart (tm + tmWakeUp) 4 (tm + tmCount) 4"
    "apart (tm + tmWakeUp) 4 (tm + qType) 2" "apart (tm + tmCount) 4 (tm + qType) 2"
  using apart_fields[of tm 4 2 10 4] apart_fields[of tm 4 2 14 4] apart_fields[of tm 6 4 4 2]
    apart_fields[of tm 14 4 10 4] apart_fields[of tm 14 4 4 2] apart_fields[of tm 10 4 4 2] assms
  by (simp_all add: task_ok_def tm_fields)

lemma tm_other_apart:
  assumes "task_ok tm" "task_ok tm'" "apart tm 22 tm' 22"
  shows "apart (tm + qType) 2 (tm' + qType) 2" "apart (tm + qType) 2 (tm' + tmCount) 4"
    "apart (tm + qType) 2 (tm' + tmWakeUp) 4" "apart (tm + tmAddr) 4 (tm' + qType) 2"
  using field_apart[OF assms, of 4 2 4 2] field_apart[OF assms, of 4 2 10 4]
    field_apart[OF assms, of 4 2 14 4] field_apart[OF assms, of 6 4 4 2]
  by (simp_all add: tm_fields)

lemma and_8000: "x AND 0x8000 \<noteq> 0 \<longleftrightarrow> bit (x :: u32) 15"
  using bit_iff_and_push_bit_not_eq_0[of x 15] by (simp add: push_bit_eq_mult)

lemma and_4000: "x AND 0x4000 \<noteq> 0 \<longleftrightarrow> bit (x :: u32) 14"
  using bit_iff_and_push_bit_not_eq_0[of x 14] by (simp add: push_bit_eq_mult)

lemma bit_mask_const: "x = mask k \<Longrightarrow> k \<le> 32 \<Longrightarrow> bit (x :: u32) n \<longleftrightarrow> n < k"
  by (auto simp: bit_mask_iff)

lemma bit_exp_const: "x = 2 ^ k \<Longrightarrow> k < 32 \<Longrightarrow> bit (x :: u32) n \<longleftrightarrow> n = k"
  by (auto simp: bit_exp_iff)

lemma bit_or_const: "x = 2 ^ k OR 2 ^ l \<Longrightarrow> k < 32 \<Longrightarrow> l < 32 \<Longrightarrow> bit (x :: u32) n \<longleftrightarrow> n = k \<or> n = l"
  by (auto simp: bit_exp_iff bit_or_iff)

lemma bit_qtype_masks:
  "bit (0x1fff :: u32) n \<longleftrightarrow> n < 13" "bit (0x7fff :: u32) n \<longleftrightarrow> n < 15" "bit (0x8000 :: u32) n \<longleftrightarrow> n = 15"
  "bit (0x6000 :: u32) n \<longleftrightarrow> n = 13 \<or> n = 14"
  using bit_mask_const[of "0x1fff" 13 n] bit_mask_const[of "0x7fff" 15 n] bit_exp_const[of "0x8000" 15 n]
    bit_or_const[of "0x6000" 13 14 n]
  by (simp_all add: mask_eq_exp_minus_1)

lemma tm_active_set_active [simp]: "tm_active (mac_mem (set_active tm b st)) tm \<longleftrightarrow> b"
  by (auto simp: tm_active_def set_active_def Let_def and_8000 bit_rules bit_qtype_masks)


section \<open>The schedule\<close>

text \<open>
  What a client of the Time Manager sees: the installed tasks, and for each the time at which
  it is due if it is active.
\<close>

definition sched :: "time_manager \<Rightarrow> u32 \<rightharpoonup> tm_time_t option" where
  "sched st tm = map_option (\<lambda>d. if tm_active (mac_mem st) tm then wakeup d else None) (find_desc tm (tmDescList st))"

definition earliest :: "(u32 \<rightharpoonup> tm_time_t option) \<Rightarrow> tm_time_t \<Rightarrow> bool" where
  "earliest S w \<longleftrightarrow> (w = wakeup_time_max \<or> (\<exists>tm. S tm = Some (Some w))) \<and>
     (\<forall>tm v. S tm = Some (Some v) \<longrightarrow> time_ns w \<le> time_ns v)"

definition task_fits :: "u32 \<Rightarrow> time_manager \<Rightarrow> bool" where
  "task_fits tm st \<longleftrightarrow> task_ok tm \<and> (\<forall>d \<in> set (tmDescList st). task d \<noteq> tm \<longrightarrow> apart tm 22 (task d) 22)"

definition tm_ok :: "time_manager \<Rightarrow> bool" where
  "tm_ok st \<longleftrightarrow>
     distinct (map td_addr (tmDescList st)) \<and> distinct (map task (tmDescList st)) \<and>
     (\<forall>d \<in> set (tmDescList st). td_addr d < td_fresh st \<and> task_fits (task d) st \<and>
        (tm_active (mac_mem st) (task d) \<longrightarrow> (\<exists>w. wakeup d = Some w \<and> near_time w)))"

lemma find_desc_None: "find_desc tm ds = None \<longleftrightarrow> tm \<notin> task ` set ds"
  by (induction ds) auto

lemma find_desc_Some: "find_desc tm ds = Some d \<Longrightarrow> d \<in> set ds \<and> task d = tm"
  by (induction ds) (auto split: if_splits)

lemma find_desc_in: "distinct (map task ds) \<Longrightarrow> d \<in> set ds \<Longrightarrow> find_desc (task d) ds = Some d"
  by (induction ds) (auto simp: rev_image_eqI)

lemma find_desc_map: "(\<And>d. task (f d) = task d) \<Longrightarrow> find_desc tm (map f ds) = map_option f (find_desc tm ds)"
  by (induction ds) auto

lemma free_desc_filter: "distinct (map td_addr ds) \<Longrightarrow> free_desc a ds = filter (\<lambda>d. td_addr d \<noteq> a) ds"
  by (induction ds) (auto intro!: filter_True[symmetric] simp: rev_image_eqI)

lemma find_desc_free:
  assumes "distinct (map td_addr ds)" "distinct (map task ds)" "find_desc tm ds = Some d"
  shows "find_desc t (free_desc (td_addr d) ds) = (if t = tm then None else find_desc t ds)"
proof -
  have d: "d \<in> set ds" "task d = tm" using find_desc_Some[OF assms(3)] by auto
  have "td_addr e \<noteq> td_addr d \<longleftrightarrow> task e \<noteq> tm" if "e \<in> set ds" for e
    using that d assms(1,2) by (auto simp: distinct_map inj_on_def)
  then have "free_desc (td_addr d) ds = filter (\<lambda>e. task e \<noteq> tm) ds"
    unfolding free_desc_filter[OF assms(1)] by (auto intro: filter_cong)
  moreover have "find_desc t (filter (\<lambda>e. task e \<noteq> tm) xs) = (if t = tm then None else find_desc t xs)" for xs
    by (induction xs) auto
  ultimately show ?thesis by simp
qed

lemma near_time_max: "near_time wakeup_time_max" "near_time w \<Longrightarrow> time_ns w \<le> time_ns wakeup_time_max"
  by (auto simp: near_time_def normal_time_def wakeup_time_max_def time_ns_def)

lemma next_wakeup_earliest:
  assumes "\<forall>d \<in> set ds. tm_active m (task d) \<longrightarrow> (\<exists>w. wakeup d = Some w \<and> near_time w)" "near_time t"
  shows "\<exists>w. next_wakeup m t ds = Inr w \<and> near_time w \<and> time_ns w \<le> time_ns t \<and>
    (w = t \<or> (\<exists>d \<in> set ds. tm_active m (task d) \<and> wakeup d = Some w)) \<and>
    (\<forall>d \<in> set ds. \<forall>v. tm_active m (task d) \<longrightarrow> wakeup d = Some v \<longrightarrow> time_ns w \<le> time_ns v)"
  using assms
proof (induction ds arbitrary: t)
  case Nil
  then show ?case by simp
next
  case (Cons d ds)
  show ?case
  proof (cases "tm_active m (task d)")
    case False
    then show ?thesis using Cons.IH[OF _ Cons.prems(2)] Cons.prems(1) by simp
  next
    case True
    then obtain v where v: "wakeup d = Some v" "near_time v" using Cons.prems(1) by auto
    define t' where "t' = (if timer_cmp_time v t < 0 then v else t)"
    have t': "near_time t'" "time_ns t' \<le> time_ns t" "time_ns t' \<le> time_ns v" "t' = v \<or> t' = t"
      using v(2) Cons.prems(2) timer_cmp_time_sign(1)[of v t] by (simp_all add: t'_def)
    obtain w where w: "next_wakeup m t' ds = Inr w" "near_time w" "time_ns w \<le> time_ns t'"
      "w = t' \<or> (\<exists>d \<in> set ds. tm_active m (task d) \<and> wakeup d = Some w)"
      "\<forall>d \<in> set ds. \<forall>v. tm_active m (task d) \<longrightarrow> wakeup d = Some v \<longrightarrow> time_ns w \<le> time_ns v"
      using Cons.IH[OF _ t'(1)] Cons.prems(1) by auto
    have "time_ns w \<le> time_ns t" "time_ns w \<le> time_ns v" using w(3) t'(2,3) by linarith+
    moreover have "w = t \<or> (\<exists>d' \<in> set (d # ds). tm_active m (task d') \<and> wakeup d' = Some w)"
      using w(4) t'(4) True v(1) by auto
    moreover have "next_wakeup m t (d # ds) = Inr w" using w(1) True v(1) by (simp add: t'_def)
    ultimately show ?thesis using w(2,5) v(1) by (intro exI[of _ w]) simp
  qed
qed

lemma sched_in:
  assumes "tm_ok st"
  shows "sched st tm = Some (Some w) \<longleftrightarrow>
    (\<exists>d \<in> set (tmDescList st). task d = tm \<and> tm_active (mac_mem st) tm \<and> wakeup d = Some w)"
  using assms find_desc_in[of "tmDescList st"] find_desc_Some[of tm "tmDescList st"]
  by (auto simp: sched_def tm_ok_def split: if_splits)

lemma set_next_wakeup_earliest:
  assumes "tm_ok st"
  shows "\<exists>w. set_next_wakeup st = Inr (st\<lparr>wakeup_time := w\<rparr>) \<and> earliest (sched st) w"
proof -
  obtain w where w: "next_wakeup (mac_mem st) wakeup_time_max (tmDescList st) = Inr w"
    "w = wakeup_time_max \<or> (\<exists>d \<in> set (tmDescList st). tm_active (mac_mem st) (task d) \<and> wakeup d = Some w)"
    "\<forall>d \<in> set (tmDescList st). \<forall>v. tm_active (mac_mem st) (task d) \<longrightarrow> wakeup d = Some v \<longrightarrow> time_ns w \<le> time_ns v"
    using next_wakeup_earliest[of "tmDescList st" "mac_mem st" wakeup_time_max] assms near_time_max(1)
    unfolding tm_ok_def by blast
  then have "earliest (sched st) w" unfolding earliest_def sched_in[OF assms] by blast
  then show ?thesis using w(1) by (intro exI[of _ w]) (simp add: set_next_wakeup_def)
qed


section \<open>The operations on the schedule\<close>

text \<open>Memory that has changed in the record of the task \<open>tm\<close> only, as far as activity goes.\<close>

definition same_others :: "u32 \<Rightarrow> host_mem \<Rightarrow> host_mem \<Rightarrow> bool" where
  "same_others tm m m' \<longleftrightarrow> (\<forall>t. task_ok t \<longrightarrow> apart t 22 tm 22 \<longrightarrow> tm_active m' t = tm_active m t)"

lemma same_others_writes [intro]:
  assumes "task_ok tm"
  shows "same_others tm m (WriteMacInt16 m (tm + qType) v)" "same_others tm m (WriteMacInt32 m (tm + tmCount) v)"
    "same_others tm m (WriteMacInt32 m (tm + tmWakeUp) v)"
  using assms by (auto simp: same_others_def tm_active_def mac_read_frame tm_other_apart)

lemma same_others_trans [trans]: "same_others tm m m' \<Longrightarrow> same_others tm m' m'' \<Longrightarrow> same_others tm m m''"
  by (simp add: same_others_def)

lemma same_others_refl [simp]: "same_others tm m m"
  by (simp add: same_others_def)

lemma tm_active_own [simp]:
  assumes "task_ok tm"
  shows "tm_active (WriteMacInt32 m (tm + tmCount) v) tm = tm_active m tm"
    "tm_active (WriteMacInt32 m (tm + tmWakeUp) v) tm = tm_active m tm"
  using assms by (simp_all add: tm_active_def mac_read_frame tm_fields_apart)

lemma task_fits_others: "task_fits tm st \<Longrightarrow> d \<in> set (tmDescList st) \<Longrightarrow> task d \<noteq> tm \<Longrightarrow> apart (task d) 22 tm 22"
  by (subst apart_sym) (simp add: task_fits_def)

lemma sched_upd:
  assumes "tm_ok st" "task_fits tm st" "\<forall>t. t \<noteq> tm \<longrightarrow> find_desc t (tmDescList st') = find_desc t (tmDescList st)"
    and "same_others tm (mac_mem st) (mac_mem st')"
  shows "sched st' = (sched st)(tm := sched st' tm)"
proof
  fix t
  have "tm_active (mac_mem st') t = tm_active (mac_mem st) t" if "t \<noteq> tm" "find_desc t (tmDescList st) = Some d" for d
    using that(1) find_desc_Some[OF that(2)] assms(1,2,4) task_fits_others[OF assms(2), of d]
    by (auto simp: same_others_def tm_ok_def task_fits_def)
  then show "sched st' t = ((sched st)(tm := sched st' tm)) t"
    using assms(3) by (cases "find_desc t (tmDescList st)") (auto simp: sched_def)
qed

lemma tm_ok_upd:
  assumes "tm_ok st" "task_fits tm st" "same_others tm (mac_mem st) (mac_mem st')"
    and "distinct (map td_addr (tmDescList st'))" "distinct (map task (tmDescList st'))"
    and "\<forall>d \<in> set (tmDescList st'). td_addr d < td_fresh st'"
    and "\<forall>d \<in> set (tmDescList st'). task d \<noteq> tm \<longrightarrow> d \<in> set (tmDescList st)"
    and "\<forall>d \<in> set (tmDescList st'). task d = tm \<longrightarrow> tm_active (mac_mem st') tm \<longrightarrow> (\<exists>w. wakeup d = Some w \<and> near_time w)"
  shows "tm_ok st'"
proof -
  have fits: "task_fits (task d) st'" if d: "d \<in> set (tmDescList st')" for d
  proof (cases "task d = tm")
    case True
    then show ?thesis using assms(2,7) by (auto simp: task_fits_def)
  next
    case False
    then have "d \<in> set (tmDescList st)" using assms(7) d by simp
    then show ?thesis using assms(1,7) task_fits_others[OF assms(2), of d] False by (auto simp: tm_ok_def task_fits_def)
  qed
  have "tm_active (mac_mem st') (task d) \<longrightarrow> (\<exists>w. wakeup d = Some w \<and> near_time w)"
    if d: "d \<in> set (tmDescList st')" for d
  proof (cases "task d = tm")
    case True
    then show ?thesis using assms(8) d by auto
  next
    case False
    then have "d \<in> set (tmDescList st)" using assms(7) d by simp
    then show ?thesis
      using assms(1,3) task_fits_others[OF assms(2), of d] False by (auto simp: tm_ok_def same_others_def task_fits_def)
  qed
  then show ?thesis using assms(4-6) fits by (simp add: tm_ok_def)
qed

lemma earliest_cong: "(\<And>tm v. S tm = Some (Some v) \<longleftrightarrow> S' tm = Some (Some v)) \<Longrightarrow> earliest S w = earliest S' w"
  by (simp add: earliest_def)

lemma InsTime_sched:
  assumes "tm_ok st" "task_fits tm st"
  shows "tm_ok (snd (InsTime tm trap st))" "sched (snd (InsTime tm trap st)) = (sched st)(tm \<mapsto> None)"
    "wakeup_time (snd (InsTime tm trap st)) = wakeup_time st"
proof -
  let ?st = "snd (InsTime tm trap st)"
  have tm: "task_ok tm" using assms(2) by (simp add: task_fits_def)
  have m: "same_others tm (mac_mem st) (mac_mem ?st)" using tm by (auto simp: InsTime_def Let_def)
  have a: "\<not> tm_active (mac_mem ?st) tm"
    by (simp add: InsTime_def Let_def tm_active_def and_8000[unfolded not_not] bit_rules bit_qtype_masks)
  note defs = InsTime_def Let_def
  have l: "tmDescList ?st = tmDescList st \<and> td_fresh ?st = td_fresh st \<and> tm \<in> task ` set (tmDescList st) \<or>
      tmDescList ?st = \<lparr>td_addr = td_fresh st, task = tm, wakeup = None\<rparr> # tmDescList st \<and>
      td_fresh ?st = td_fresh st + 1 \<and> tm \<notin> task ` set (tmDescList st)"
    by (auto simp: defs find_desc_None)
  have "td_fresh st \<notin> td_addr ` set (tmDescList st)" using assms(1) by (auto simp: tm_ok_def)
  with l show "tm_ok ?st"
    by (intro tm_ok_upd[OF assms m]) (use assms(1) a in \<open>auto simp: tm_ok_def less_Suc_eq\<close>)
  have "find_desc tm (tmDescList ?st) \<noteq> None" using l by (auto simp: find_desc_None)
  then have "sched ?st tm = Some None" using a by (auto simp: sched_def)
  then show "sched ?st = (sched st)(tm \<mapsto> None)"
    using sched_upd[OF assms _ m] l by auto
  show "wakeup_time ?st = wakeup_time st" by (simp add: defs)
qed


lemma tm_ok_fits: "tm_ok st \<Longrightarrow> find_desc tm (tmDescList st) = Some d \<Longrightarrow> task_fits tm st"
  using find_desc_Some[of tm "tmDescList st" d] by (auto simp: tm_ok_def)

lemma set_active_frame:
  assumes "task_ok tm" shows "same_others tm (mac_mem st) (mac_mem (set_active tm b st))"
  using assms by (auto simp: set_active_def Let_def)

lemma set_active_simps [simp]:
  "tmDescList (set_active tm b st) = tmDescList st" "td_fresh (set_active tm b st) = td_fresh st"
  "wakeup_time (set_active tm b st) = wakeup_time st"
  by (simp_all add: set_active_def Let_def)

lemma set_inactive_sched:
  assumes "tm_ok st" "find_desc tm (tmDescList st) = Some d"
  shows "tm_ok (set_active tm False st)" "sched (set_active tm False st) = (sched st)(tm \<mapsto> None)"
proof -
  note fits = tm_ok_fits[OF assms]
  have m: "same_others tm (mac_mem st) (mac_mem (set_active tm False st))"
    by (rule set_active_frame) (use fits in \<open>simp add: task_fits_def\<close>)
  show "tm_ok (set_active tm False st)"
    by (rule tm_ok_upd[OF assms(1) fits m]) (use assms(1) in \<open>auto simp: tm_ok_def\<close>)
  have "sched (set_active tm False st) tm = Some None" using assms(2) by (simp add: sched_def)
  then show "sched (set_active tm False st) = (sched st)(tm \<mapsto> None)"
    using sched_upd[OF assms(1) fits _ m] by simp
qed

lemma remove_desc_sched:
  fixes v :: u32 and w :: tm_time_t
  assumes "tm_ok st" "find_desc tm (tmDescList st) = Some d"
  defines "st' \<equiv> st\<lparr>wakeup_time := w, mac_mem := WriteMacInt32 (mac_mem st) (tm + tmCount) v,
      tmDescList := free_desc (td_addr d) (tmDescList st)\<rparr>"
  shows "tm_ok st'" "sched st' = (sched st)(tm := None)"
proof -
  note fits = tm_ok_fits[OF assms(1,2)]
  have m: "same_others tm (mac_mem st) (mac_mem st')" using fits by (auto simp: st'_def task_fits_def)
  have ok: "distinct (map td_addr (tmDescList st))" "distinct (map task (tmDescList st))"
    using assms(1) by (simp_all add: tm_ok_def)
  note find = find_desc_free[OF ok assms(2)]
  have l: "tmDescList st' = filter (\<lambda>e. td_addr e \<noteq> td_addr d) (tmDescList st)"
    by (simp add: st'_def free_desc_filter[OF ok(1)])
  have f: "td_fresh st' = td_fresh st" by (simp add: st'_def)
  have "task e \<noteq> tm" if "e \<in> set (tmDescList st')" for e
    using find[of tm] that by (auto simp: find_desc_None st'_def)
  then show "tm_ok st'"
    by (intro tm_ok_upd[OF assms(1) fits m])
      (use assms(1) in \<open>auto simp: l f tm_ok_def distinct_map_filter\<close>)
  have "sched st' tm = None" using find[of tm] by (simp add: sched_def st'_def)
  then show "sched st' = (sched st)(tm := None)"
    using sched_upd[OF assms(1) fits _ m] find by (simp add: st'_def)
qed

lemma RmvTime_sched:
  assumes "tm_ok st"
  shows "\<exists>st'. RmvTime now tm st = Inr (0, st') \<and> tm_ok st' \<and> sched st' = (sched st)(tm := None) \<and>
    (case sched st tm of
       None \<Rightarrow> st' = st
     | Some None \<Rightarrow> wakeup_time st' = wakeup_time st \<and> ReadMacInt32 (mac_mem st') (tm + tmCount) = 0
     | Some (Some w) \<Rightarrow> earliest (sched st') (wakeup_time st') \<and>
         ReadMacInt32 (mac_mem st') (tm + tmCount) = timer_host2mac_time (timer_sub_time w now))"
proof (cases "find_desc tm (tmDescList st)")
  case None
  then show ?thesis using assms by (auto simp: RmvTime_def sched_def fun_upd_idem)
next
  case (Some d)
  show ?thesis
  proof (cases "tm_active (mac_mem st) tm")
    case False
    then show ?thesis
      using remove_desc_sched[OF assms Some, where v = 0 and w = "wakeup_time st"] Some by (simp add: RmvTime_def sched_def)
  next
    case True
    then obtain w where w: "wakeup d = Some w" using assms find_desc_Some[OF Some] by (auto simp: tm_ok_def)
    let ?st = "set_active tm False st"
    note in1 = set_inactive_sched[OF assms Some]
    obtain e where e: "set_next_wakeup ?st = Inr (?st\<lparr>wakeup_time := e\<rparr>)" "earliest (sched ?st) e"
      using set_next_wakeup_earliest[OF in1(1)] by blast
    have "find_desc tm (tmDescList ?st) = Some d" using Some by simp
    note rm = remove_desc_sched[OF in1(1) this, where v = "timer_host2mac_time (timer_sub_time w now)" and w = e]
    have "earliest ((sched st)(tm := None)) e"
      using e(2) earliest_cong[of "sched ?st" "(sched st)(tm := None)"] by (simp add: in1(2))
    moreover have "sched st tm = Some (Some w)" using Some True w by (simp add: sched_def)
    ultimately show ?thesis using rm in1(2) Some True e(1) w by (simp add: RmvTime_def Let_def)
  qed
qed


text \<open>
  The time from which the delay of an extended task counts is the time that it was last due, if
  it was scheduled before, and the current time otherwise.
\<close>

definition prime_resumes :: "u32 \<Rightarrow> time_manager \<Rightarrow> bool" where
  "prime_resumes tm st \<longleftrightarrow> ReadMacInt16 (mac_mem st) (tm + qType) AND 0x4000 \<noteq> 0 \<and> ReadMacInt32 (mac_mem st) (tm + tmWakeUp) \<noteq> 0"

definition prime_delay :: "u32 \<Rightarrow> u32 \<Rightarrow> time_manager \<Rightarrow> tm_time_t" where
  "prime_delay tm time st =
     (if prime_resumes tm st \<and> time = 0 then timer_mac2host_time (ReadMacInt16 (mac_mem st) (tm + tmCount))
      else timer_mac2host_time time)"

lemma activate_sched:
  fixes e :: tm_time_t and m :: host_mem
  assumes "tm_ok st" "find_desc tm (tmDescList st) = Some d" "near_time w" "same_others tm (mac_mem st) m"
  defines "st' \<equiv> set_active tm True ((set_wakeup (td_addr d) w st)\<lparr>mac_mem := m\<rparr>)"
  shows "tm_ok st'" "sched st' = (sched st)(tm \<mapsto> Some w)"
proof -
  note fits = tm_ok_fits[OF assms(1,2)]
  have fs: "same_others tm (mac_mem st) (mac_mem st')"
    using assms(4) set_active_frame[of tm "(set_wakeup (td_addr d) w st)\<lparr>mac_mem := m\<rparr>" True] fits
    by (auto simp: st'_def task_fits_def intro: same_others_trans)
  let ?f = "\<lambda>x. if td_addr x = td_addr d then x\<lparr>wakeup := Some w\<rparr> else x"
  have l: "tmDescList st' = map ?f (tmDescList st)" "td_fresh st' = td_fresh st"
    by (simp_all add: st'_def set_wakeup_def)
  have d: "d \<in> set (tmDescList st)" "task d = tm" using find_desc_Some[OF assms(2)] by auto
  have same: "task e = tm \<longleftrightarrow> td_addr e = td_addr d" if "e \<in> set (tmDescList st)" for e
    using that d assms(1) by (auto simp: tm_ok_def distinct_map inj_on_def)
  have m: "map td_addr (tmDescList st') = map td_addr (tmDescList st)" "map task (tmDescList st') = map task (tmDescList st)"
    by (auto simp: l)
  have "distinct (map td_addr (tmDescList st'))" "distinct (map task (tmDescList st'))"
    using assms(1) by (simp_all only: m tm_ok_def)
  then show "tm_ok st'"
    by (rule tm_ok_upd[OF assms(1) fits fs])
      (use assms(1,3) same in \<open>auto simp: l tm_ok_def split: if_splits\<close>)
  have f: "find_desc t (tmDescList st') = map_option ?f (find_desc t (tmDescList st))" for t
    unfolding l by (rule find_desc_map) simp
  have "sched st' tm = Some (Some w)" using f[of tm] assms(2) by (simp add: sched_def st'_def)
  moreover have "find_desc t (tmDescList st') = find_desc t (tmDescList st)" if "t \<noteq> tm" for t
    using f[of t] that same find_desc_Some[of t "tmDescList st"] by (cases "find_desc t (tmDescList st)") auto
  ultimately show "sched st' = (sched st)(tm \<mapsto> Some w)"
    using sched_upd[OF assms(1) fits _ fs] by simp
qed


lemma PrimeTime_sched:
  assumes "tm_ok st" "find_desc tm (tmDescList st) = Some d"
    and "prime_resumes tm st \<longrightarrow> wakeup d \<noteq> None"
    and "w = timer_add_time (if prime_resumes tm st then the (wakeup d) else now) (prime_delay tm time st)" "near_time w"
  shows "\<exists>st'. PrimeTime now tm time st = Inr (0, st') \<and> tm_ok st' \<and> sched st' = (sched st)(tm \<mapsto> Some w) \<and>
    earliest (sched st') (wakeup_time st')"
proof -
  have tm: "task_ok tm" using tm_ok_fits[OF assms(1,2)] by (simp add: task_fits_def)
  let ?ext = "ReadMacInt16 (mac_mem st) (tm + qType) AND 0x4000 \<noteq> 0"
  define m where "m = (if ?ext then WriteMacInt32 (mac_mem st) (tm + tmWakeUp) 0x12345678 else mac_mem st)"
  have "same_others tm (mac_mem st) m" using tm by (auto simp: m_def)
  note a = activate_sched[OF assms(1,2,5) this]
  obtain e where e: "set_next_wakeup (set_active tm True ((set_wakeup (td_addr d) w st)\<lparr>mac_mem := m\<rparr>)) =
      Inr ((set_active tm True ((set_wakeup (td_addr d) w st)\<lparr>mac_mem := m\<rparr>))\<lparr>wakeup_time := e\<rparr>)"
    "earliest ((sched st)(tm \<mapsto> Some w)) e"
    using set_next_wakeup_earliest[OF a(1)] unfolding a(2) by blast
  have u: "(set_wakeup x y st)\<lparr>mac_mem := mac_mem st\<rparr> = set_wakeup x y st" for x y by (simp add: set_wakeup_def)
  have sw: "mac_mem (set_wakeup x y st) = mac_mem st" for x y st by (simp add: set_wakeup_def)
  have p: "PrimeTime now tm time st = Inr (0, (set_active tm True ((set_wakeup (td_addr d) w st)\<lparr>mac_mem := m\<rparr>))\<lparr>wakeup_time := e\<rparr>)"
    using assms(2-4) e(1)
    by (auto simp: PrimeTime_def Let_def prime_resumes_def prime_delay_def m_def sw u split: if_splits option.splits)
  have "tm_ok (st\<lparr>wakeup_time := e\<rparr>) = tm_ok st" "sched (st\<lparr>wakeup_time := e\<rparr>) = sched st" for st
    by (auto simp: tm_ok_def task_fits_def sched_def fun_eq_iff)
  then show ?thesis using p a e(2) by simp
qed



definition no_tasks :: time_manager where
  "no_tasks = \<lparr>tmDescList = [], td_fresh = 0, wakeup_time = wakeup_time_max, mac_mem = \<lambda>_. 0\<rparr>"

lemma no_tasks_ok: "tm_ok no_tasks" "task_fits 0x1000 no_tasks"
  by (simp_all add: no_tasks_def tm_ok_def task_fits_def task_ok_def)

lemma plain_task_extended: "trap = 0 \<Longrightarrow> \<not> prime_resumes tm (snd (InsTime tm trap st))"
  by (simp add: prime_resumes_def InsTime_def Let_def and_4000[unfolded not_not] bit_rules bit_qtype_masks)


section \<open>The timer interrupt runs the expired tasks\<close>

definition expired :: "host_mem \<Rightarrow> tm_time_t \<Rightarrow> TMDesc \<Rightarrow> bool" where
  "expired m now d \<longleftrightarrow> tm_active m (task d) \<and> (\<exists>w. wakeup d = Some w \<and> timer_cmp_time w now \<le> 0)"

text \<open>
  A task that leaves the descriptors behind its own alone: it may install tasks, remove or prime itself
  and the tasks before it, and write memory.
\<close>

definition keeps_later :: "(u32 \<Rightarrow> u32 \<Rightarrow> time_manager \<Rightarrow> time_manager) \<Rightarrow> bool" where
  "keeps_later f \<longleftrightarrow> (\<forall>addr st xs d ys. tm_ok st \<longrightarrow> tmDescList st = xs @ d # ys \<longrightarrow>
     (let st' = f addr (task d) st
      in tm_ok st' \<and> (\<exists>zs. tmDescList st' = zs @ ys) \<and>
         (\<forall>d' \<in> set ys. tm_active (mac_mem st') (task d') = tm_active (mac_mem st) (task d'))))"

lemma call_task_later:
  assumes "keeps_later f" "tm_ok st" "tmDescList st = xs @ d # ys"
  shows "tm_ok (call_task f (task d) st)" "\<exists>zs. tmDescList (call_task f (task d) st) = zs @ ys"
    "\<forall>d' \<in> set ys. tm_active (mac_mem (call_task f (task d) st)) (task d') = tm_active (mac_mem st) (task d')"
proof -
  let ?st = "set_active (task d) False st"
  have f: "find_desc (task d) (tmDescList st) = Some d"
    using assms(2,3) by (intro find_desc_in) (simp_all add: tm_ok_def)
  have ok: "tm_ok ?st" by (rule set_inactive_sched[OF assms(2) f])
  have fits: "task_fits (task d) st" by (rule tm_ok_fits[OF assms(2) f])
  have act: "tm_active (mac_mem ?st) (task d') = tm_active (mac_mem st) (task d')" if "d' \<in> set ys" for d'
  proof -
    have "d' \<in> set (tmDescList st)" "task d' \<noteq> task d" using that assms(2,3) by (auto simp: tm_ok_def rev_image_eqI)
    then show ?thesis
      using set_active_frame[of "task d" st False] fits task_fits_others[OF fits, of d'] assms(2)
      by (auto simp: same_others_def tm_ok_def task_fits_def)
  qed
  have k: "tm_ok (f addr (task d) ?st) \<and> (\<exists>zs. tmDescList (f addr (task d) ?st) = zs @ ys) \<and>
      (\<forall>d' \<in> set ys. tm_active (mac_mem (f addr (task d) ?st)) (task d') = tm_active (mac_mem ?st) (task d'))" for addr
    using assms(1,3) ok unfolding keeps_later_def Let_def by (metis set_active_simps(1))
  show "tm_ok (call_task f (task d) st)" using k ok by (simp add: call_task_def Let_def)
  show "\<exists>zs. tmDescList (call_task f (task d) st) = zs @ ys"
    using k assms(3) by (auto simp: call_task_def Let_def intro: exI[of _ "xs @ [d]"])
  show "\<forall>d' \<in> set ys. tm_active (mac_mem (call_task f (task d) st)) (task d') = tm_active (mac_mem st) (task d')"
    using k act by (simp add: call_task_def Let_def)
qed

lemma desc_at_split: "distinct (map td_addr (xs @ d # ys)) \<Longrightarrow> desc_at (td_addr d) (xs @ d # ys) = Some (d, list_head ys)"
  by (induction xs) (auto simp: list_head_def)

lemma interrupt_loop_runs:
  assumes "keeps_later f" "tm_ok st" "tmDescList st = xs @ ys"
  shows "interrupt_loop f now (list_head ys) st =
      Some (Inr (fold (call_task f) (map task (filter (expired (mac_mem st) now) ys)) st)) \<and>
    tm_ok (fold (call_task f) (map task (filter (expired (mac_mem st) now) ys)) st)"
  using assms(2,3)
proof (induction ys arbitrary: st xs)
  case Nil
  then show ?case by (simp add: list_head_def interrupt_loop.simps)
next
  case (Cons d ys)
  let ?st = "if expired (mac_mem st) now d then call_task f (task d) st else st"
  note later = call_task_later[OF assms(1) Cons.prems]
  have "\<exists>zs. tmDescList ?st = zs @ ys" using later(2) Cons.prems(2) by (auto intro: exI[of _ "xs @ [d]"])
  then obtain zs where zs: "tmDescList ?st = zs @ ys" by blast
  have ok: "tm_ok ?st" using later(1) Cons.prems(1) by simp
  have "\<forall>d' \<in> set ys. tm_active (mac_mem ?st) (task d') = tm_active (mac_mem st) (task d')" using later by simp
  then have e: "filter (expired (mac_mem ?st) now) ys = filter (expired (mac_mem st) now) ys"
    by (intro filter_cong) (auto simp: expired_def)
  have da: "desc_at (td_addr d) (tmDescList st) = Some (d, list_head ys)"
    using Cons.prems desc_at_split by (auto simp: tm_ok_def)
  have h: "list_head (d # ys) = Some (td_addr d)" by (simp add: list_head_def)
  have w: "tm_active (mac_mem st) (task d) \<Longrightarrow> \<exists>w. wakeup d = Some w" using Cons.prems by (auto simp: tm_ok_def)
  have "interrupt_loop f now (list_head (d # ys)) st = interrupt_loop f now (list_head ys) ?st"
    unfolding h using da w by (subst interrupt_loop.simps) (auto simp: expired_def)
  moreover have "fold (call_task f) (map task (filter (expired (mac_mem st) now) (d # ys))) st =
      fold (call_task f) (map task (filter (expired (mac_mem st) now) ys)) ?st"
    by simp
  ultimately show ?case using Cons.IH[OF ok zs] unfolding e by (simp only:)
qed



text \<open>A task that removes itself when it runs.\<close>

definition removes :: "tm_time_t \<Rightarrow> (u32 \<Rightarrow> u32) \<Rightarrow> u32 \<Rightarrow> u32 \<Rightarrow> time_manager \<Rightarrow> time_manager" where
  "removes now victim addr tm st = (case RmvTime now (victim tm) st of Inr (_, st') \<Rightarrow> st' | Inl _ \<Rightarrow> st)"

lemma RmvTime_list:
  assumes "RmvTime now tm st = Inr (r, st')" "find_desc tm (tmDescList st) = Some d"
  shows "tmDescList st' = free_desc (td_addr d) (tmDescList st)"
  using assms by (auto simp: RmvTime_def Let_def set_next_wakeup_def split: if_splits option.splits sum.splits)

lemma tm_active_sched:
  assumes "tm_ok st" "d \<in> set (tmDescList st)"
  shows "tm_active (mac_mem st) (task d) \<longleftrightarrow> (\<exists>w. sched st (task d) = Some (Some w))"
  using assms find_desc_in[of "tmDescList st" d] by (auto simp: sched_def tm_ok_def)

lemma free_desc_split:
  "distinct (map td_addr (xs @ d # ys)) \<Longrightarrow> free_desc (td_addr d) (xs @ d # ys) = xs @ ys"
  by (induction xs) auto

lemma self_removal_keeps_later: "keeps_later (removes now id)"
  unfolding keeps_later_def Let_def
proof (intro allI impI)
  fix addr st xs d ys assume st: "tm_ok st" "tmDescList st = xs @ d # ys"
  obtain st' where r: "RmvTime now (task d) st = Inr (0, st')" "tm_ok st'" "sched st' = (sched st)(task d := None)"
    using RmvTime_sched[OF st(1), of now "task d"] by blast
  have f: "find_desc (task d) (tmDescList st) = Some d" using st by (intro find_desc_in) (simp_all add: tm_ok_def)
  have l: "tmDescList st' = xs @ ys"
    using RmvTime_list[OF r(1) f] st free_desc_split[of xs d ys] by (simp add: tm_ok_def)
  have "tm_active (mac_mem st') (task d') = tm_active (mac_mem st) (task d')" if "d' \<in> set ys" for d'
  proof -
    have "task d' \<noteq> task d" using that st by (auto simp: tm_ok_def rev_image_eqI)
    then show ?thesis using tm_active_sched[OF r(2), of d'] tm_active_sched[OF st(1), of d'] that l st(2) r(3) by simp
  qed
  then show "tm_ok (removes now id addr (task d) st) \<and> (\<exists>zs. tmDescList (removes now id addr (task d) st) = zs @ ys) \<and>
      (\<forall>d' \<in> set ys. tm_active (mac_mem (removes now id addr (task d) st)) (task d') = tm_active (mac_mem st) (task d'))"
    using r l by (auto simp: removes_def)
qed

text \<open>Two tasks that are due, the second one behind the first in the list.\<close>

definition two_tasks :: time_manager where
  "two_tasks =
     \<lparr>tmDescList = [\<lparr>td_addr = 1, task = 0x1000, wakeup = Some \<lparr>tv_sec = 5, tv_nsec = 0\<rparr>\<rparr>,
                   \<lparr>td_addr = 0, task = 0x2000, wakeup = Some \<lparr>tv_sec = 5, tv_nsec = 0\<rparr>\<rparr>],
      td_fresh = 2, wakeup_time = \<lparr>tv_sec = 5, tv_nsec = 0\<rparr>, mac_mem = \<lambda>a. if a = 0x1004 \<or> a = 0x2004 then 0x80 else 1\<rparr>"

lemma two_tasks_ok: "tm_ok two_tasks" "tm_active (mac_mem two_tasks) 0x1000" "tm_active (mac_mem two_tasks) 0x2000"
  by (simp_all add: two_tasks_def tm_ok_def task_fits_def task_ok_def apart_def near_time_def normal_time_def
      tm_active_def mac_access_defs vm_do_read_defs qType_def)


text \<open>
  A task that removes the task behind its own makes the interrupt routine use a freed
  descriptor: it goes on with the pointer that it took before the call.
\<close>

theorem timer_interrupt_uses_freed:
  assumes "tm_ok st" "tmDescList st = d1 # d2 # ds" "expired (mac_mem st) now d1"
    and "ReadMacInt32 (mac_mem (set_active (task d1) False st)) (task d1 + tmAddr) \<noteq> 0"
    and "\<forall>addr st'. Execute68k addr (task d1) st' = removes now (\<lambda>_. task d2) addr (task d1) st'"
  shows "TimerInterrupt Execute68k now st = Some (Inl Freed_descriptor)"
proof -
  let ?st = "set_active (task d1) False st"
  have f: "find_desc (task d1) (tmDescList st) = Some d1" using assms(2) by simp
  note ok = set_inactive_sched(1)[OF assms(1) f]
  have "task d1 \<noteq> task d2" using assms(1,2) by (auto simp: tm_ok_def)
  then have f2: "find_desc (task d2) (tmDescList ?st) = Some d2" using assms(2) by simp
  obtain st' where r: "RmvTime now (task d2) ?st = Inr (0, st')" using RmvTime_sched[OF ok, of now "task d2"] by blast
  have c: "call_task Execute68k (task d1) st = st'" using assms(4,5) r by (simp add: call_task_def Let_def removes_def)
  have "td_addr d2 \<notin> td_addr ` set (tmDescList st')"
    using RmvTime_list[OF r f2] assms(1,2) by (auto simp: tm_ok_def)
  moreover have "desc_at a xs = None" if "a \<notin> td_addr ` set xs" for a xs
    using that by (induction xs) auto
  ultimately have d: "desc_at (td_addr d2) (tmDescList st') = None" by blast
  obtain w where w: "tm_active (mac_mem st) (task d1)" "wakeup d1 = Some w" "timer_cmp_time w now \<le> 0"
    using assms(3) by (auto simp: expired_def)
  have "interrupt_loop Execute68k now (list_head (tmDescList st)) st = interrupt_loop Execute68k now (Some (td_addr d2)) st'"
    using assms(2) w c by (subst interrupt_loop.simps) (simp add: list_head_def)
  also have "\<dots> = Some (Inl Freed_descriptor)" using d by (subst interrupt_loop.simps) simp
  finally show ?thesis by (simp add: TimerInterrupt_def)
qed

theorem timer_interrupt_uses_freed_witness:
  "TimerInterrupt (removes \<lparr>tv_sec = 9, tv_nsec = 0\<rparr> (\<lambda>_. 0x2000)) \<lparr>tv_sec = 9, tv_nsec = 0\<rparr> two_tasks =
     Some (Inl Freed_descriptor)"
proof (rule timer_interrupt_uses_freed[OF two_tasks_ok(1)])
  let ?d1 = "\<lparr>td_addr = 1, task = 0x1000, wakeup = Some \<lparr>tv_sec = 5, tv_nsec = 0\<rparr>\<rparr>"
  show "tmDescList two_tasks = ?d1 # \<lparr>td_addr = 0, task = 0x2000, wakeup = Some \<lparr>tv_sec = 5, tv_nsec = 0\<rparr>\<rparr> # []"
    by (simp add: two_tasks_def)
  show "expired (mac_mem two_tasks) \<lparr>tv_sec = 9, tv_nsec = 0\<rparr> ?d1"
    using two_tasks_ok(2) by (simp add: expired_def timer_cmp_time_def)
  have "ReadMacInt32 (mac_mem (set_active 0x1000 False two_tasks)) (0x1000 + tmAddr) = ReadMacInt32 (mac_mem two_tasks) (0x1000 + tmAddr)"
    using tm_fields_apart(3)[of "0x1000"] by (simp add: set_active_def Let_def mac_read_frame task_ok_def)
  then show "ReadMacInt32 (mac_mem (set_active (task ?d1) False two_tasks)) (task ?d1 + tmAddr) \<noteq> 0"
    by (simp add: two_tasks_def mac_access_defs vm_do_read_defs tmAddr_def)
qed simp


section \<open>A task that is stopped and installed again\<close>

lemma RmvTime_keeps_tmWakeUp:
  assumes "RmvTime now tm st = Inr (r, st')" "task_ok tm"
  shows "ReadMacInt32 (mac_mem st') (tm + tmWakeUp) = ReadMacInt32 (mac_mem st) (tm + tmWakeUp)"
  using assms tm_fields_apart[OF assms(2)]
  by (auto simp: RmvTime_def Let_def set_next_wakeup_def set_active_def mac_read_frame split: if_splits option.splits sum.splits)

text \<open>
  Priming an extended task that was stopped by \<^verbatim>\<open>RmvTime\<close> and installed again with
  \<^verbatim>\<open>InsXTime\<close> adds the delay to the wake-up time of the new descriptor, which nothing has set: the
  time that the task was last due went with the old descriptor.
\<close>

theorem reinstalled_task_reads_uninitialised:
  assumes "tm_ok st" "find_desc tm (tmDescList st) = Some d" "ReadMacInt32 (mac_mem st) (tm + tmWakeUp) \<noteq> 0"
    and "RmvTime now tm st = Inr (r, st1)" "bit trap 10"
  shows "PrimeTime now' tm time (snd (InsTime tm trap st1)) = Inl Uninitialised_wakeup"
proof -
  have tm: "task_ok tm" "task_fits tm st" using tm_ok_fits[OF assms(1,2)] by (simp_all add: task_fits_def)
  let ?st = "snd (InsTime tm trap st1)"
  have "sched st1 = (sched st)(tm := None)" using RmvTime_sched[OF assms(1), of now tm] assms(4) by auto
  then have n: "find_desc tm (tmDescList st1) = None" by (simp add: sched_def fun_eq_iff) (metis option.map_disc_iff)
  then have "find_desc tm (tmDescList ?st) = Some \<lparr>td_addr = td_fresh st1, task = tm, wakeup = None\<rparr>"
    by (simp add: InsTime_def Let_def)
  moreover have "ReadMacInt32 (mac_mem ?st) (tm + tmWakeUp) \<noteq> 0"
    using RmvTime_keeps_tmWakeUp[OF assms(4) tm(1)] assms(3) tm_fields_apart(5)[OF tm(1)]
    by (simp add: InsTime_def Let_def mac_read_frame)
  moreover have "ReadMacInt16 (mac_mem ?st) (tm + qType) AND 0x4000 \<noteq> 0"
    using assms(5) by (simp add: InsTime_def Let_def and_4000 bit_rules bit_qtype_masks)
  ultimately show ?thesis by (simp add: PrimeTime_def Let_def)
qed

theorem reinstalled_task_reads_uninitialised_witness:
  "\<exists>r st1. RmvTime \<lparr>tv_sec = 3, tv_nsec = 0\<rparr> 0x2000 two_tasks = Inr (r, st1) \<and>
     PrimeTime \<lparr>tv_sec = 4, tv_nsec = 0\<rparr> 0x2000 0 (snd (InsTime 0x2000 0xa458 st1)) = Inl Uninitialised_wakeup"
proof -
  obtain st1 where r: "RmvTime \<lparr>tv_sec = 3, tv_nsec = 0\<rparr> 0x2000 two_tasks = Inr (0, st1)"
    using RmvTime_sched[OF two_tasks_ok(1)] by blast
  have "find_desc 0x2000 (tmDescList two_tasks) = Some \<lparr>td_addr = 0, task = 0x2000, wakeup = Some \<lparr>tv_sec = 5, tv_nsec = 0\<rparr>\<rparr>"
    "ReadMacInt32 (mac_mem two_tasks) (0x2000 + tmWakeUp) \<noteq> 0"
    by (simp_all add: two_tasks_def mac_access_defs vm_do_read_defs tmWakeUp_def)
  from reinstalled_task_reads_uninitialised[OF two_tasks_ok(1) this r] show ?thesis using r by (simp add: bit_iff_odd)
qed

end
