(* ===== verification/Mac_Timer_Thread.thy ===== *)
theory Mac_Timer_Thread
  imports Mac_Time_Manager
begin

text \<open>
  The Time Manager and the timer thread of \<^verbatim>\<open>timer.cpp\<close> side by side. The emulator thread executes
  \<^verbatim>\<open>InsTime\<close>, \<^verbatim>\<open>PrimeTime\<close>, \<^verbatim>\<open>RmvTime\<close> and the interrupt routine; before it looks for the next task it
  suspends the timer thread with a signal, waits for the handler's acknowledgement, and takes
  \<^verbatim>\<open>wakeup_time_lock\<close>. The timer thread sleeps until \<^verbatim>\<open>wakeup_time\<close>, takes the lock to clear it and
  raises the interrupt flag. Each rule below is one step of one of the threads; the signal may reach the timer
  thread between any two of its steps.
\<close>

datatype tm_op = Op_Rmv u32 | Op_Prime tm_time_t u32 u32 | Op_Irq_end

datatype emulator_pc = E_run | E_wait_ack tm_op | E_lock tm_op | E_critical tm_op | E_unlock | E_resume

datatype timer_pc = T_sleep | T_expired | T_locked | T_cleared | T_signal

datatype lock_owner = Emulator | Timer_thread

record tm_machine =
  mgr :: time_manager
  clock :: tm_time_t
  irq_flag :: bool
  in_irq :: bool
  epc :: emulator_pc
  tpc :: timer_pc
  wakeup_time_lock :: "lock_owner option"
  suspend_pending :: bool
  suspended :: bool
  suspend_ack :: nat
  suspend_count :: nat

text \<open>The work of an operation between the lock and its release.\<close>

definition critical :: "tm_op \<Rightarrow> tm_machine \<Rightarrow> tm_error + tm_machine" where
  "critical op S =
     (case op of
        Op_Rmv tm \<Rightarrow> (case RmvTime (clock S) tm (mgr S) of Inl e \<Rightarrow> Inl e | Inr (_, m) \<Rightarrow> Inr (S\<lparr>mgr := m\<rparr>))
      | Op_Prime now tm time \<Rightarrow>
          (case PrimeTime now tm time (mgr S) of Inl e \<Rightarrow> Inl e | Inr (_, m) \<Rightarrow> Inr (S\<lparr>mgr := m\<rparr>))
      | Op_Irq_end \<Rightarrow>
          (case set_next_wakeup (mgr S) of Inl e \<Rightarrow> Inl e | Inr m \<Rightarrow> Inr (S\<lparr>mgr := m, in_irq := False\<rparr>)))"

definition op_enabled :: "tm_op \<Rightarrow> tm_machine \<Rightarrow> bool" where
  "op_enabled op S =
     (case op of
        Op_Rmv tm \<Rightarrow> find_desc tm (tmDescList (mgr S)) \<noteq> None
      | Op_Prime now tm time \<Rightarrow>
          (case find_desc tm (tmDescList (mgr S)) of None \<Rightarrow> False
           | Some d \<Rightarrow>
               (prime_resumes tm (mgr S) \<longrightarrow> wakeup d \<noteq> None) \<and>
               near_time (timer_add_time (if prime_resumes tm (mgr S) then the (wakeup d) else now)
                           (prime_delay tm time (mgr S))))
      | Op_Irq_end \<Rightarrow> in_irq S)"

definition timer_thread_suspend :: "tm_op \<Rightarrow> tm_machine \<Rightarrow> tm_machine" where
  "timer_thread_suspend op S =
     (if suspend_count S = 0 then S\<lparr>suspend_count := 1, suspend_pending := True, epc := E_wait_ack op\<rparr>
      else S\<lparr>epc := E_lock op\<rparr>)"

definition timer_thread_resume :: "tm_machine \<Rightarrow> tm_machine" where
  "timer_thread_resume S =
     (if suspend_count S = 1 then S\<lparr>suspend_count := 0, suspended := False\<rparr> else S)"

inductive tm_step :: "tm_machine \<Rightarrow> tm_machine \<Rightarrow> bool" where
  clock_advances: "near_time t \<Longrightarrow> time_ns (clock S) \<le> time_ns t \<Longrightarrow> tm_step S (S\<lparr>clock := t\<rparr>)"
| timer_wakes: "tpc S = T_sleep \<Longrightarrow> \<not> suspended S \<Longrightarrow> timer_cmp_time (wakeup_time (mgr S)) (clock S) < 0 \<Longrightarrow>
    tm_step S (S\<lparr>tpc := T_expired\<rparr>)"
| timer_locks: "tpc S = T_expired \<Longrightarrow> \<not> suspended S \<Longrightarrow> wakeup_time_lock S = None \<Longrightarrow>
    tm_step S (S\<lparr>tpc := T_locked, wakeup_time_lock := Some Timer_thread\<rparr>)"
| timer_clears: "tpc S = T_locked \<Longrightarrow> \<not> suspended S \<Longrightarrow>
    tm_step S (S\<lparr>mgr := (mgr S)\<lparr>wakeup_time := wakeup_time_max\<rparr>, tpc := T_cleared\<rparr>)"
| timer_unlocks: "tpc S = T_cleared \<Longrightarrow> \<not> suspended S \<Longrightarrow>
    tm_step S (S\<lparr>tpc := T_signal, wakeup_time_lock := None\<rparr>)"
| timer_raises: "tpc S = T_signal \<Longrightarrow> \<not> suspended S \<Longrightarrow> tm_step S (S\<lparr>tpc := T_sleep, irq_flag := True\<rparr>)"
| timer_suspends: "suspend_pending S \<Longrightarrow> \<not> suspended S \<Longrightarrow>
    tm_step S (S\<lparr>suspend_pending := False, suspended := True, suspend_ack := suspend_ack S + 1\<rparr>)"
| emulator_inserts: "epc S = E_run \<Longrightarrow> task_fits tm (mgr S) \<Longrightarrow>
    tm_step S (S\<lparr>mgr := snd (InsTime tm trap (mgr S))\<rparr>)"
| emulator_timer_irq: "epc S = E_run \<Longrightarrow> irq_flag S \<Longrightarrow> \<not> in_irq S \<Longrightarrow>
    tm_step S (S\<lparr>irq_flag := False, in_irq := True\<rparr>)"
| emulator_via_irq: "epc S = E_run \<Longrightarrow> \<not> in_irq S \<Longrightarrow> tm_step S (S\<lparr>in_irq := True\<rparr>)"
| emulator_runs_task: "epc S = E_run \<Longrightarrow> in_irq S \<Longrightarrow> d \<in> set (tmDescList (mgr S)) \<Longrightarrow>
    expired (mac_mem (mgr S)) (clock S) d \<Longrightarrow> tm_step S (S\<lparr>mgr := set_active (task d) False (mgr S)\<rparr>)"
| emulator_suspends: "epc S = E_run \<Longrightarrow> op_enabled op S \<Longrightarrow> tm_step S (timer_thread_suspend op S)"
| emulator_acked: "epc S = E_wait_ack op \<Longrightarrow> 0 < suspend_ack S \<Longrightarrow>
    tm_step S (S\<lparr>epc := E_lock op, suspend_ack := suspend_ack S - 1\<rparr>)"
| emulator_locks: "epc S = E_lock op \<Longrightarrow> wakeup_time_lock S = None \<Longrightarrow>
    tm_step S (S\<lparr>epc := E_critical op, wakeup_time_lock := Some Emulator\<rparr>)"
| emulator_works: "epc S = E_critical op \<Longrightarrow> critical op S = Inr S' \<Longrightarrow> tm_step S (S'\<lparr>epc := E_unlock\<rparr>)"
| emulator_unlocks: "epc S = E_unlock \<Longrightarrow> tm_step S (S\<lparr>epc := E_resume, wakeup_time_lock := None\<rparr>)"
| emulator_resumes: "epc S = E_resume \<Longrightarrow> tm_step S ((timer_thread_resume S)\<lparr>epc := E_run\<rparr>)"

abbreviation tm_steps :: "tm_machine \<Rightarrow> tm_machine \<Rightarrow> bool" where
  "tm_steps \<equiv> tm_step\<^sup>*\<^sup>*"

text \<open>The machine after \<^verbatim>\<open>TimerInit\<close>, with the given tasks.\<close>

definition tm_started :: "time_manager \<Rightarrow> tm_time_t \<Rightarrow> tm_machine" where
  "tm_started m t =
     \<lparr>mgr = m, clock = t, irq_flag = False, in_irq = False, epc = E_run, tpc = T_sleep, wakeup_time_lock = None,
      suspend_pending = False, suspended = False, suspend_ack = 0, suspend_count = 0\<rparr>"

section \<open>The protocol of the two threads\<close>

definition protocol_ok :: "tm_machine \<Rightarrow> bool" where
  "protocol_ok S \<longleftrightarrow>
     (wakeup_time_lock S = Some Timer_thread \<longleftrightarrow> tpc S = T_locked \<or> tpc S = T_cleared) \<and>
     (wakeup_time_lock S = Some Emulator \<longleftrightarrow> (\<exists>op. epc S = E_critical op) \<or> epc S = E_unlock) \<and>
     (case epc S of
        E_run \<Rightarrow> suspend_count S = 0 \<and> \<not> suspend_pending S \<and> \<not> suspended S \<and> suspend_ack S = 0
      | E_wait_ack op \<Rightarrow> suspend_count S = 1 \<and> suspend_pending S = (suspend_ack S = 0) \<and>
          suspended S = (suspend_ack S = 1) \<and> suspend_ack S \<le> 1
      | _ \<Rightarrow> suspend_count S = 1 \<and> \<not> suspend_pending S \<and> suspended S \<and> suspend_ack S = 0)"

lemma critical_frame:
  assumes "critical op S = Inr S'"
  shows "epc S' = epc S" "tpc S' = tpc S" "wakeup_time_lock S' = wakeup_time_lock S" "suspend_pending S' = suspend_pending S"
    "suspended S' = suspended S" "suspend_ack S' = suspend_ack S" "suspend_count S' = suspend_count S"
    "irq_flag S' = irq_flag S" "clock S' = clock S"
  using assms by (auto simp: critical_def split: tm_op.splits sum.splits)

lemma protocol_step: "tm_step S S' \<Longrightarrow> protocol_ok S \<Longrightarrow> protocol_ok S'"
proof (induction rule: tm_step.induct)
  case (emulator_works S op S')
  then show ?case by (auto simp: protocol_ok_def critical_frame[OF emulator_works(2)])
qed (auto simp: protocol_ok_def timer_thread_suspend_def timer_thread_resume_def split: emulator_pc.splits)


section \<open>No wake-up is lost\<close>

text \<open>
  A task that is due at \<open>v\<close> is accounted for: the timer thread is set to a time not later than \<open>v\<close>, or
  it is about to raise the interrupt, or the interrupt is raised or being handled.
\<close>

definition accounted :: "tm_machine \<Rightarrow> bool" where
  "accounted S \<longleftrightarrow>
     (\<forall>tm v. sched (mgr S) tm = Some (Some v) \<longrightarrow>
        time_ns (wakeup_time (mgr S)) \<le> time_ns v \<or> irq_flag S \<or> in_irq S \<or> tpc S \<noteq> T_sleep)"

definition machine_ok :: "tm_machine \<Rightarrow> bool" where
  "machine_ok S \<longleftrightarrow> tm_ok (mgr S) \<and> accounted S \<and> near_time (clock S) \<and> near_time (wakeup_time (mgr S)) \<and>
     (\<forall>op. epc S = E_wait_ack op \<or> epc S = E_lock op \<or> epc S = E_critical op \<longrightarrow> op_enabled op S)"

lemma sched_wakeup_time [simp]: "sched (m\<lparr>wakeup_time := t\<rparr>) = sched m" "tm_ok (m\<lparr>wakeup_time := t\<rparr>) = tm_ok m"
  by (auto simp: tm_ok_def task_fits_def sched_def fun_eq_iff)

lemma earliest_near: "tm_ok m \<Longrightarrow> earliest (sched m) t \<Longrightarrow> near_time t"
  unfolding earliest_def using near_time_max(1) by (fastforce simp: sched_in tm_ok_def)

lemma RmvTime_wakeup:
  assumes "tm_ok m"
  shows "\<exists>m'. RmvTime now tm m = Inr (0, m') \<and> tm_ok m' \<and> sched m' = (sched m)(tm := None) \<and>
    (wakeup_time m' = wakeup_time m \<or> earliest (sched m') (wakeup_time m'))"
proof -
  obtain m' where m': "RmvTime now tm m = Inr (0, m')" "tm_ok m'" "sched m' = (sched m)(tm := None)"
    "case sched m tm of None \<Rightarrow> m' = m
     | Some None \<Rightarrow> wakeup_time m' = wakeup_time m \<and> ReadMacInt32 (mac_mem m') (tm + tmCount) = 0
     | Some (Some w) \<Rightarrow> earliest (sched m') (wakeup_time m') \<and>
         ReadMacInt32 (mac_mem m') (tm + tmCount) = timer_host2mac_time (timer_sub_time w now)"
    using RmvTime_sched[OF assms, of now tm] by blast
  have "wakeup_time m' = wakeup_time m \<or> earliest (sched m') (wakeup_time m')"
    using m'(4) by (cases "sched m tm"; cases "the (sched m tm)") auto
  with m' show ?thesis by blast
qed

lemma critical_ok:
  assumes "machine_ok S" "epc S = E_critical op"
  shows "\<exists>S'. critical op S = Inr S' \<and> tm_ok (mgr S') \<and> accounted S' \<and> near_time (wakeup_time (mgr S'))"
proof (cases op)
  case (Op_Rmv tm)
  have ok: "tm_ok (mgr S)" "near_time (wakeup_time (mgr S))" "accounted S" using assms(1) by (auto simp: machine_ok_def)
  obtain m where m: "RmvTime (clock S) tm (mgr S) = Inr (0, m)" "tm_ok m" "sched m = (sched (mgr S))(tm := None)"
    "wakeup_time m = wakeup_time (mgr S) \<or> earliest (sched m) (wakeup_time m)"
    using RmvTime_wakeup[OF ok(1)] by blast
  have "near_time (wakeup_time m)" using m(4) ok(2) earliest_near[OF m(2)] by auto
  moreover have "accounted (S\<lparr>mgr := m\<rparr>)"
    using m(4) ok(3) by (auto simp: accounted_def earliest_def m(3) split: if_splits)
  ultimately show ?thesis using Op_Rmv m(1,2) by (simp add: critical_def)
next
  case (Op_Prime now tm time)
  have en: "op_enabled op S" "tm_ok (mgr S)" using assms by (auto simp: machine_ok_def)
  then obtain d where "find_desc tm (tmDescList (mgr S)) = Some d" using Op_Prime by (auto simp: op_enabled_def split: option.splits)
  then obtain m where m: "PrimeTime now tm time (mgr S) = Inr (0, m)" "tm_ok m" "earliest (sched m) (wakeup_time m)"
    using PrimeTime_sched[OF en(2) _ _ refl, of tm d now time] en(1) Op_Prime by (auto simp: op_enabled_def)
  then have "accounted (S\<lparr>mgr := m\<rparr>)" by (simp add: accounted_def earliest_def)
  then show ?thesis using Op_Prime m earliest_near[OF m(2,3)] by (simp add: critical_def)
next
  case Op_Irq_end
  have ok: "tm_ok (mgr S)" using assms(1) by (simp add: machine_ok_def)
  obtain t where t: "set_next_wakeup (mgr S) = Inr ((mgr S)\<lparr>wakeup_time := t\<rparr>)" "earliest (sched (mgr S)) t"
    using set_next_wakeup_earliest[OF ok] by blast
  then have "accounted (S\<lparr>mgr := (mgr S)\<lparr>wakeup_time := t\<rparr>, in_irq := False\<rparr>)" by (simp add: accounted_def earliest_def)
  then show ?thesis using Op_Irq_end t ok earliest_near[OF ok t(2)] by (simp add: critical_def)
qed


lemma op_enabled_upd [simp]:
  "op_enabled op (S\<lparr>clock := a\<rparr>) = op_enabled op S" "op_enabled op (S\<lparr>irq_flag := b\<rparr>) = op_enabled op S"
  "op_enabled op (S\<lparr>epc := c\<rparr>) = op_enabled op S" "op_enabled op (S\<lparr>tpc := d\<rparr>) = op_enabled op S"
  "op_enabled op (S\<lparr>wakeup_time_lock := e\<rparr>) = op_enabled op S" "op_enabled op (S\<lparr>suspend_pending := b\<rparr>) = op_enabled op S"
  "op_enabled op (S\<lparr>suspended := b\<rparr>) = op_enabled op S" "op_enabled op (S\<lparr>suspend_ack := n\<rparr>) = op_enabled op S"
  "op_enabled op (S\<lparr>suspend_count := n\<rparr>) = op_enabled op S"
  "op_enabled op (S\<lparr>mgr := (mgr S)\<lparr>wakeup_time := t\<rparr>\<rparr>) = op_enabled op S"
  by (cases op; simp add: op_enabled_def prime_resumes_def prime_delay_def cong: option.case_cong)+

lemma machine_step: "tm_step S S' \<Longrightarrow> machine_ok S \<Longrightarrow> machine_ok S'"
proof (induction rule: tm_step.induct)
  case (emulator_inserts S tm trap)
  then have "tm_ok (mgr S)" by (simp add: machine_ok_def)
  note i = InsTime_sched[OF this emulator_inserts(2), of trap]
  show ?case using emulator_inserts i by (auto simp: machine_ok_def accounted_def split: if_splits)
next
  case (emulator_runs_task S d)
  then have "find_desc (task d) (tmDescList (mgr S)) = Some d" "tm_ok (mgr S)"
    by (auto simp: machine_ok_def tm_ok_def intro: find_desc_in)
  note i = set_inactive_sched[OF this(2,1)]
  show ?case using emulator_runs_task i by (auto simp: machine_ok_def accounted_def split: if_splits)
next
  case (emulator_works S op S')
  then show ?case using critical_ok[OF emulator_works(3,1)] critical_frame[OF emulator_works(2)]
    by (auto simp: machine_ok_def accounted_def)
qed (auto simp: machine_ok_def accounted_def timer_thread_suspend_def timer_thread_resume_def near_time_max)

lemma machine_steps:
  assumes "tm_steps S S'" "machine_ok S" "protocol_ok S"
  shows "machine_ok S' \<and> protocol_ok S'"
  using assms by (induction rule: rtranclp_induct) (auto intro: machine_step protocol_step)

lemma tm_started_ok:
  assumes "tm_ok m" "near_time t" "near_time (wakeup_time m)" "\<forall>tm v. sched m tm = Some (Some v) \<longrightarrow> time_ns (wakeup_time m) \<le> time_ns v"
  shows "machine_ok (tm_started m t)" "protocol_ok (tm_started m t)"
  using assms by (simp_all add: tm_started_def machine_ok_def accounted_def protocol_ok_def)


definition same_tasks :: "tm_machine \<Rightarrow> tm_machine \<Rightarrow> bool" where
  "same_tasks S S' \<longleftrightarrow> sched (mgr S') = sched (mgr S) \<and> epc S' = epc S \<and> in_irq S' = in_irq S"

lemma timer_finishes:
  assumes "\<not> suspended S" "tpc S \<noteq> T_sleep" "tpc S = T_expired \<longrightarrow> wakeup_time_lock S = None"
  shows "\<exists>S'. tm_steps S S' \<and> irq_flag S' \<and> same_tasks S S'"
proof -
  have signal: "\<exists>S'. tm_steps S S' \<and> irq_flag S' \<and> same_tasks S S'" if "\<not> suspended S" "tpc S = T_signal" for S
    using timer_raises[OF that(2,1)] by (intro exI[of _ "S\<lparr>tpc := T_sleep, irq_flag := True\<rparr>"]) (auto simp: same_tasks_def)
  have cleared: "\<exists>S'. tm_steps S S' \<and> irq_flag S' \<and> same_tasks S S'" if "\<not> suspended S" "tpc S = T_cleared" for S
    using converse_rtranclp_into_rtranclp[of tm_step, OF timer_unlocks[OF that(2,1)]]
      signal[of "S\<lparr>tpc := T_signal, wakeup_time_lock := None\<rparr>"] that(1) by (auto simp: same_tasks_def)
  have locked: "\<exists>S'. tm_steps S S' \<and> irq_flag S' \<and> same_tasks S S'" if "\<not> suspended S" "tpc S = T_locked" for S
    using converse_rtranclp_into_rtranclp[of tm_step, OF timer_clears[OF that(2,1)]]
      cleared[of "S\<lparr>mgr := (mgr S)\<lparr>wakeup_time := wakeup_time_max\<rparr>, tpc := T_cleared\<rparr>"] that(1) by (auto simp: same_tasks_def)
  have expired: "\<exists>S'. tm_steps S S' \<and> irq_flag S' \<and> same_tasks S S'" if "tpc S = T_expired"
    using converse_rtranclp_into_rtranclp[of tm_step, OF timer_locks[OF that assms(1)]] assms that
      locked[of "S\<lparr>tpc := T_locked, wakeup_time_lock := Some Timer_thread\<rparr>"] by (auto simp: same_tasks_def)
  show ?thesis using assms(1,2) signal cleared locked expired by (cases "tpc S") auto
qed

lemma overdue_raises:
  assumes "machine_ok S" "protocol_ok S" "epc S = E_run" "\<not> in_irq S"
    and "sched (mgr S) tm = Some (Some v)" "time_ns v < time_ns (clock S)"
  shows "\<exists>S'. tm_steps S S' \<and> irq_flag S' \<and> same_tasks S S'"
proof -
  have run: "\<not> suspended S" "wakeup_time_lock S \<noteq> Some Emulator" using assms(2,3) by (auto simp: protocol_ok_def)
  have free: "wakeup_time_lock S = None" if "tpc S \<noteq> T_locked" "tpc S \<noteq> T_cleared"
  proof (cases "wakeup_time_lock S")
    case (Some x)
    then show ?thesis using that run(2) assms(2) by (cases x) (auto simp: protocol_ok_def)
  qed
  show ?thesis
  proof (cases "tpc S = T_sleep")
    case False
    then show ?thesis using timer_finishes[OF run(1)] free by simp
  next
    case True
    then have free: "wakeup_time_lock S = None" using free by simp
    show ?thesis
    proof (cases "irq_flag S")
      case True
      then show ?thesis by (intro exI[of _ S]) (simp add: same_tasks_def)
    next
      case False
      then have "time_ns (wakeup_time (mgr S)) \<le> time_ns v" using assms(1,4,5) True by (auto simp: machine_ok_def accounted_def)
      then have "timer_cmp_time (wakeup_time (mgr S)) (clock S) < 0"
        using timer_cmp_time_sign(1) assms(1,6) by (simp add: machine_ok_def)
      from timer_wakes[OF True run(1) this] obtain S' where "tm_step S S'" "tpc S' = T_expired" "\<not> suspended S'"
        "wakeup_time_lock S' = None" "same_tasks S S'" using run(1) free by (simp add: same_tasks_def)
      with timer_finishes[of S'] show ?thesis
        by (auto simp: same_tasks_def intro: converse_rtranclp_into_rtranclp)
    qed
  qed
qed



lemma two_tasks_list: "d \<in> set (tmDescList two_tasks) \<Longrightarrow> wakeup d = Some (wakeup_time two_tasks)"
  "find_desc 0x1000 (tmDescList two_tasks) \<noteq> None" "wakeup_time two_tasks = \<lparr>tv_sec = 5, tv_nsec = 0\<rparr>"
  by (auto simp: two_tasks_def)

lemma two_tasks_earliest: "sched two_tasks 0x1000 = Some (Some (wakeup_time two_tasks))" "earliest (sched two_tasks) (wakeup_time two_tasks)"
proof -
  have v: "v = wakeup_time two_tasks" if "sched two_tasks tm = Some (Some v)" for tm v
    using that two_tasks_list(1) unfolding sched_in[OF two_tasks_ok(1)] by fastforce
  obtain d where "find_desc 0x1000 (tmDescList two_tasks) = Some d" using two_tasks_list(2) by blast
  then show s: "sched two_tasks 0x1000 = Some (Some (wakeup_time two_tasks))"
    using find_desc_Some[of "0x1000" "tmDescList two_tasks" d] two_tasks_list(1)[of d] two_tasks_ok(2) by (simp add: sched_def)
  show "earliest (sched two_tasks) (wakeup_time two_tasks)" unfolding earliest_def using s v by blast
qed


section \<open>The two threads can block each other\<close>

definition stuck :: "tm_op \<Rightarrow> tm_machine \<Rightarrow> bool" where
  "stuck op S \<longleftrightarrow> epc S = E_lock op \<and> wakeup_time_lock S = Some Timer_thread \<and> suspended S \<and> \<not> suspend_pending S"

lemma stuck_step: "tm_step S S' \<Longrightarrow> stuck op S \<Longrightarrow> stuck op S'"
  by (induction rule: tm_step.induct) (auto simp: stuck_def)

lemma stuck_steps: "tm_steps S S' \<Longrightarrow> stuck op S \<Longrightarrow> stuck op S'"
  by (induction rule: rtranclp_induct) (auto intro: stuck_step)

text \<open>
  C36: The timer thread may be suspended while it holds \<^verbatim>\<open>wakeup_time_lock\<close>. The emulator thread, which has
  suspended it, then waits for the lock and nothing can wake either thread: if the wake-up time has passed, a call of
  \<^verbatim>\<open>RmvTime\<close> for an installed task may never return.
\<close>

theorem timer_thread_deadlock:
  assumes "find_desc tm (tmDescList m) \<noteq> None" "timer_cmp_time (wakeup_time m) t < 0"
  shows "\<exists>S. tm_steps (tm_started m t) S \<and> (\<forall>S'. tm_steps S S' \<longrightarrow> epc S' = E_lock (Op_Rmv tm) \<and> suspended S')"
proof -
  define S0 S1 S2 S3 S4 S5 where "S0 = tm_started m t" and "S1 = S0\<lparr>tpc := T_expired\<rparr>"
    and "S2 = S1\<lparr>tpc := T_locked, wakeup_time_lock := Some Timer_thread\<rparr>"
    and "S3 = timer_thread_suspend (Op_Rmv tm) S2"
    and "S4 = S3\<lparr>suspend_pending := False, suspended := True, suspend_ack := suspend_ack S3 + 1\<rparr>"
    and "S5 = S4\<lparr>epc := E_lock (Op_Rmv tm), suspend_ack := suspend_ack S4 - 1\<rparr>"
  note defs = this tm_started_def timer_thread_suspend_def
  have s: "tm_step S0 S1" unfolding S1_def by (rule timer_wakes) (use assms(2) in \<open>simp_all add: defs\<close>)
  have "tm_step S1 S2" unfolding S2_def by (rule timer_locks) (simp_all add: defs)
  note s = s this
  have "tm_step S2 S3" unfolding S3_def by (rule emulator_suspends) (use assms(1) in \<open>simp_all add: defs op_enabled_def\<close>)
  note s = s this
  have "tm_step S3 S4" unfolding S4_def by (rule timer_suspends) (simp_all add: defs)
  note s = s this
  have "tm_step S4 S5" unfolding S5_def by (rule emulator_acked) (simp_all add: defs)
  note s = s this
  have "tm_steps S0 S5" using s by (blast intro: converse_rtranclp_into_rtranclp)
  moreover have "stuck (Op_Rmv tm) S5" by (simp add: stuck_def defs)
  then have "\<forall>S'. tm_steps S5 S' \<longrightarrow> epc S' = E_lock (Op_Rmv tm) \<and> suspended S'"
    using stuck_steps by (auto simp: stuck_def)
  ultimately show ?thesis unfolding S0_def by blast
qed

theorem timer_thread_deadlock_witness:
  "\<exists>S. tm_steps (tm_started two_tasks \<lparr>tv_sec = 9, tv_nsec = 0\<rparr>) S \<and>
     (\<forall>S'. tm_steps S S' \<longrightarrow> epc S' = E_lock (Op_Rmv 0x1000) \<and> suspended S')"
  by (rule timer_thread_deadlock) (simp_all add: two_tasks_def timer_cmp_time_def)

end
