(* ===== verification/Mac_SCSI.thy ===== *)
theory Mac_SCSI
  imports Mac_Memory
begin

unbundle bit_operations_syntax

text \<open>
  The SCSI Manager of \<^verbatim>\<open>scsi.cpp\<close>: the phases of a transaction, the interpreter of transfer
  instruction blocks (TIBs), which builds the scatter/gather table, and the calls that the Mac
  OS routines reach. The system-specific functions that it calls are those of \<^verbatim>\<open>scsi_linux.cpp\<close>,
  with the generic SCSI driver of the kernel as a parameter.
\<close>

datatype scsi_phase = PH_FREE | PH_ARBITRATED | PH_SELECTED | PH_TRANSFER

definition scCommErr :: int where "scCommErr = 2"
definition scBadParmsErr :: int where "scBadParmsErr = 4"
definition scPhaseErr :: int where "scPhaseErr = 5"
definition scCompareErr :: int where "scCompareErr = 6"
definition scMgrBusyErr :: int where "scMgrBusyErr = 7"
definition scSequenceErr :: int where "scSequenceErr = 8"

definition SG_TABLE_SIZE :: nat where "SG_TABLE_SIZE = 1024"

record scsi =
  target_id :: int
  phase :: scsi_phase
  fake_status :: u16
  reading :: bool
  sg_index :: nat
  sg_ptr :: "nat \<Rightarrow> u64"
  sg_len :: "nat \<Rightarrow> u32"
  sg_total_length :: u32

section \<open>Transfer instruction blocks\<close>

text \<open>The case of a transfer: merge with the previous entry or create a new one.\<close>

definition add_sg :: "u32 \<Rightarrow> u32 \<Rightarrow> scsi \<Rightarrow> scsi option" where
  "add_sg p len s =
     (if 0 < sg_index s \<and> Mac2HostAddr p = sg_ptr s (sg_index s - 1) + ucast (sg_len s (sg_index s - 1))
      then Some (s\<lparr>sg_len := (sg_len s)(sg_index s - 1 := sg_len s (sg_index s - 1) + len),
                   sg_total_length := sg_total_length s + len\<rparr>)
      else if sg_index s = SG_TABLE_SIZE then None
      else Some (s\<lparr>sg_ptr := (sg_ptr s)(sg_index s := Mac2HostAddr p), sg_len := (sg_len s)(sg_index s := len),
                   sg_index := sg_index s + 1, sg_total_length := sg_total_length s + len\<rparr>))"

partial_function (option) exec_tib :: "u32 \<Rightarrow> scsi \<Rightarrow> host_mem \<Rightarrow> (int \<times> scsi \<times> host_mem) option" where
  "exec_tib tib s m =
     (let cmd = ReadMacInt16 m tib;
          p = ReadMacInt32 m (tib + 2);
          len = ReadMacInt32 m (tib + 6);
          tib = tib + 10
      in if cmd = 1
         then let m = WriteMacInt32 m (tib - 8) (p + len)
              in (case add_sg p len s of None \<Rightarrow> Some (- 108, s, m) | Some s \<Rightarrow> exec_tib tib s m)
         else if cmd = 2
         then (case add_sg p len s of None \<Rightarrow> Some (- 108, s, m) | Some s \<Rightarrow> exec_tib tib s m)
         else if cmd = 3 then exec_tib tib s (WriteMacInt32 m p (ReadMacInt32 m p + len))
         else if cmd = 4 then exec_tib tib s (WriteMacInt32 m len (ReadMacInt32 m p))
         else if cmd = 5
         then exec_tib (if 0 < len - 1 then tib + (p - 10) else tib) s (WriteMacInt32 m (tib - 4) (len - 1))
         else if cmd = 6 then exec_tib tib s m
         else if cmd = 7 then Some (0, s, m)
         else if cmd = 8 then Some (scCompareErr, s, m)
         else Some (scBadParmsErr, s, m))"

section \<open>The system-specific functions\<close>

text \<open>
  \<^verbatim>\<open>sg_header\<close> is the header of the driver, of which the code uses the fields below; \<open>sg_reply\<close> is
  what a request and the read of its reply return. New memory has the contents \<open>fresh\<close>.
\<close>

record sg_reply =
  rp_write :: int
  rp_read :: int
  rp_result :: int
  rp_target_status :: u8
  rp_sense :: "u8 list"
  rp_data :: "u8 list"

record sg_driver =
  sizeof_sg_header :: u32
  malloc_ok :: "u32 \<Rightarrow> bool"
  fresh_buffer :: "nat \<Rightarrow> u8"
  fresh_result :: int
  fresh_status :: u8
  sg_request :: "int \<Rightarrow> u8 list \<Rightarrow> u32 \<Rightarrow> sg_reply"

record scsi_linux =
  fds :: "nat \<Rightarrow> int"
  active_fd :: int
  buffer_size :: u32
  buffer :: "nat \<Rightarrow> u8"
  the_cmd :: "u8 list"
  h_result :: int
  h_target_status :: u8
  h_driver_status :: u8
  h_sense_buffer :: "u8 list"

definition DRIVER_SENSE :: u8 where "DRIVER_SENSE = 8"

definition try_buffer :: "sg_driver \<Rightarrow> u32 \<Rightarrow> scsi_linux \<Rightarrow> scsi_linux option" where
  "try_buffer D len l =
     (let sz = len + (sizeof_sg_header D + 12)
      in if sz \<le> buffer_size l then Some l
         else if \<not> malloc_ok D sz then None
         else Some (l\<lparr>buffer_size := sz, buffer := fresh_buffer D, h_result := fresh_result D,
                      h_target_status := fresh_status D, h_driver_status := fresh_status D\<rparr>))"

definition scsi_set_cmd :: "nat \<Rightarrow> u64 \<Rightarrow> host_mem \<Rightarrow> scsi_linux \<Rightarrow> scsi_linux" where
  "scsi_set_cmd n cmd m l = l\<lparr>the_cmd := map (\<lambda>i. m (cmd + of_nat i)) [0..<n]\<rparr>"

definition scsi_is_target_present :: "int \<Rightarrow> scsi_linux \<Rightarrow> bool" where
  "scsi_is_target_present i l \<longleftrightarrow> 0 < fds l (nat i)"

definition scsi_set_target :: "int \<Rightarrow> u8 \<Rightarrow> scsi_linux \<Rightarrow> scsi_linux option" where
  "scsi_set_target i lun l =
     (if fds l (nat i) < 0 then None
      else Some ((if fds l (nat i) \<noteq> active_fd l
                  then l\<lparr>h_driver_status := h_driver_status l AND NOT DRIVER_SENSE\<rparr> else l)\<lparr>active_fd := fds l (nat i)\<rparr>))"

text \<open>
  The buffer is its bytes behind the header. The loops over the scatter/gather table copy from
  and to host memory; a copy beyond the end of the buffer has no result.
\<close>

definition copy_in :: "nat \<Rightarrow> nat \<Rightarrow> u64 \<Rightarrow> host_mem \<Rightarrow> (nat \<Rightarrow> u8) \<Rightarrow> nat \<Rightarrow> u8" where
  "copy_in off n p m b = (\<lambda>i. if off \<le> i \<and> i < off + n then m (p + of_nat (i - off)) else b i)"

definition copy_out :: "nat \<Rightarrow> nat \<Rightarrow> u64 \<Rightarrow> (nat \<Rightarrow> u8) \<Rightarrow> host_mem \<Rightarrow> host_mem" where
  "copy_out off n p b m = (\<lambda>a. if unat (a - p) < n then b (off + unat (a - p)) else m a)"

fun gather :: "nat list \<Rightarrow> nat \<Rightarrow> nat \<Rightarrow> scsi \<Rightarrow> host_mem \<Rightarrow> (nat \<Rightarrow> u8) \<Rightarrow> (nat \<Rightarrow> u8) option" where
  "gather [] cap off s m b = Some b"
| "gather (i # is) cap off s m b =
     (let len = unat (sg_len s i)
      in if cap < off + len then None else gather is cap (off + len) s m (copy_in off len (sg_ptr s i) m b))"

fun scatter :: "nat list \<Rightarrow> nat \<Rightarrow> nat \<Rightarrow> scsi \<Rightarrow> (nat \<Rightarrow> u8) \<Rightarrow> host_mem \<Rightarrow> host_mem option" where
  "scatter [] cap off s b m = Some m"
| "scatter (i # is) cap off s b m =
     (let len = unat (sg_len s i)
      in if cap < off + len then None else scatter is cap (off + len) s b (copy_out off len (sg_ptr s i) b m))"

definition put_list :: "nat \<Rightarrow> u8 list \<Rightarrow> (nat \<Rightarrow> u8) \<Rightarrow> nat \<Rightarrow> u8" where
  "put_list off xs b = (\<lambda>i. if off \<le> i \<and> i < off + length xs then xs ! (i - off) else b i)"

text \<open>Send the regular command: the request, the reply and the header that it leaves.\<close>

definition send_regular :: "sg_driver \<Rightarrow> scsi \<Rightarrow> scsi_linux \<Rightarrow> bool \<times> u16 \<times> scsi_linux" where
  "send_regular D s l =
     (let n = length (the_cmd l);
          b = put_list 0 (the_cmd l) (buffer l);
          request = map b [0..<if reading s then n else n + unat (sg_total_length s)];
          r = sg_request D (active_fd l) request (if reading s then sg_total_length s else 0);
          l = l\<lparr>buffer := b, h_result := 0, h_target_status := 0, h_driver_status := 0\<rparr>;
          l = (if 0 \<le> rp_write r
               then l\<lparr>buffer := put_list 0 (rp_data r) b, h_result := rp_result r,
                      h_target_status := rp_target_status r, h_sense_buffer := rp_sense r\<rparr>
               else l)
      in (0 \<le> rp_write r \<and> 0 \<le> rp_read r, push_bit 1 (ucast (h_target_status l)), l))"

definition scsi_send_cmd :: "sg_driver \<Rightarrow> scsi \<Rightarrow> scsi_linux \<Rightarrow> host_mem \<Rightarrow> (bool \<times> u16 \<times> scsi_linux \<times> host_mem) option" where
  "scsi_send_cmd D s l m =
     (case try_buffer D (sg_total_length s) l of
        None \<Rightarrow> Some (False, 0, l, m)
      | Some l \<Rightarrow>
          (let cap = unat (buffer_size l) - unat (sizeof_sg_header D)
           in case (if reading s then Some (buffer l)
                    else gather [0..<sg_index s] cap (length (the_cmd l)) s m (buffer l)) of
                None \<Rightarrow> None
              | Some b \<Rightarrow>
                  (let l = l\<lparr>buffer := b\<rparr>;
                       (success, stat, l) =
                         (if reading s \<and> the_cmd l ! 0 = 0x03 \<and> h_target_status l AND DRIVER_SENSE \<noteq> 0
                          then (True, 0, l\<lparr>buffer := put_list 0 (take 16 (h_sense_buffer l)) (buffer l),
                                           h_target_status := h_target_status l AND NOT DRIVER_SENSE\<rparr>)
                          else send_regular D s l)
                   in case (if reading s \<and> h_result l = 0 then scatter [0..<sg_index s] cap 0 s (buffer l) m else Some m) of
                        None \<Rightarrow> None | Some m \<Rightarrow> Some (success, stat, l, m))))"

section \<open>The calls of the SCSI Manager\<close>

definition SCSIReset :: "scsi \<Rightarrow> int \<times> scsi" where
  "SCSIReset s = (0, s\<lparr>phase := PH_FREE, fake_status := 0, sg_index := 0, target_id := 8\<rparr>)"

definition SCSIGet :: "scsi \<Rightarrow> int \<times> scsi" where
  "SCSIGet s =
     (if phase s \<noteq> PH_FREE then (scMgrBusyErr, s)
      else (0, s\<lparr>phase := PH_ARBITRATED, fake_status := 0x0040, reading := False, sg_index := 0, sg_total_length := 0\<rparr>))"

definition SCSISelect :: "int \<Rightarrow> scsi \<Rightarrow> scsi_linux \<Rightarrow> int \<times> scsi" where
  "SCSISelect i s l =
     (if phase s \<noteq> PH_ARBITRATED then (scSequenceErr, s)
      else let s = (if 0 \<le> i \<and> i \<le> 7 then s\<lparr>target_id := i\<rparr> else s)
           in if 0 \<le> i \<and> i \<le> 7 \<and> scsi_is_target_present (target_id s) l
              then (0, s\<lparr>phase := PH_SELECTED, fake_status := 0x006a\<rparr>)
              else (scCommErr, s\<lparr>phase := PH_FREE, fake_status := 0\<rparr>))"

definition SCSICmd :: "int \<Rightarrow> u64 \<Rightarrow> host_mem \<Rightarrow> scsi \<Rightarrow> scsi_linux \<Rightarrow> int \<times> scsi \<times> scsi_linux" where
  "SCSICmd cmd_length cmd m s l =
     (if phase s \<noteq> PH_SELECTED then (scPhaseErr, s, l)
      else if cmd_length \<noteq> 6 \<and> cmd_length \<noteq> 10 \<and> cmd_length \<noteq> 12 then (scBadParmsErr, s, l)
      else let l = scsi_set_cmd (nat cmd_length) cmd m l
           in case scsi_set_target (target_id s) (drop_bit 5 (m (cmd + 1)) AND 7) l of
                None \<Rightarrow> (scCommErr, s\<lparr>phase := PH_FREE, fake_status := 0\<rparr>, l)
              | Some l \<Rightarrow> (0, s\<lparr>phase := PH_TRANSFER, fake_status := 0x006e\<rparr>, l))"

definition SCSIRead :: "u32 \<Rightarrow> scsi \<Rightarrow> host_mem \<Rightarrow> (int \<times> scsi \<times> host_mem) option" where
  "SCSIRead tib s m =
     (if phase s \<noteq> PH_TRANSFER then Some (scPhaseErr, s, m) else exec_tib tib (s\<lparr>reading := True\<rparr>) m)"

definition SCSIWrite :: "u32 \<Rightarrow> scsi \<Rightarrow> host_mem \<Rightarrow> (int \<times> scsi \<times> host_mem) option" where
  "SCSIWrite tib s m = (if phase s \<noteq> PH_TRANSFER then Some (scPhaseErr, s, m) else exec_tib tib s m)"

definition SCSIComplete ::
    "sg_driver \<Rightarrow> u32 \<Rightarrow> u32 \<Rightarrow> scsi \<Rightarrow> scsi_linux \<Rightarrow> host_mem \<Rightarrow> (int \<times> scsi \<times> scsi_linux \<times> host_mem) option" where
  "SCSIComplete D message stat s l m =
     (let m = WriteMacInt16 m message 0
      in if phase s \<noteq> PH_TRANSFER then Some (scPhaseErr, s, l, m)
         else case scsi_send_cmd D s l m of
                None \<Rightarrow> None
              | Some (success, scsi_stat, l, m) \<Rightarrow>
                  Some (if success then 0 else scCommErr, s\<lparr>phase := PH_FREE, fake_status := 0\<rparr>, l,
                        WriteMacInt16 m stat (ucast scsi_stat)))"

definition SCSIStat :: "scsi \<Rightarrow> u16" where
  "SCSIStat s = fake_status s"

definition SCSIMgrBusy :: "scsi \<Rightarrow> int" where
  "SCSIMgrBusy s = (if phase s \<noteq> PH_FREE then 1 else 0)"


section \<open>The scatter/gather table\<close>

text \<open>The addresses that a transfer and the whole table cover, in order.\<close>

definition span_addrs :: "u64 \<Rightarrow> nat \<Rightarrow> u64 list" where
  "span_addrs p n = map (\<lambda>k. p + of_nat k) [0..<n]"

definition sg_bytes :: "scsi \<Rightarrow> u64 list" where
  "sg_bytes s = concat (map (\<lambda>i. span_addrs (sg_ptr s i) (unat (sg_len s i))) [0..<sg_index s])"

definition sg_ok :: "scsi \<Rightarrow> bool" where
  "sg_ok s \<longleftrightarrow> sg_index s \<le> SG_TABLE_SIZE \<and> of_nat (length (sg_bytes s)) = sg_total_length s"

lemma span_addrs_append: "span_addrs p (n + k) = span_addrs p n @ span_addrs (p + of_nat n) k"
proof -
  have "[n..<n + k] = map (\<lambda>i. i + n) [0..<k]" by (simp add: map_add_upt ac_simps)
  then show ?thesis unfolding span_addrs_def upt_add_eq_append[OF le0] by (simp add: ac_simps)
qed

lemma length_span_addrs [simp]: "length (span_addrs p n) = n"
  by (simp add: span_addrs_def)

lemma sg_bytes_snoc:
  "0 < sg_index s \<Longrightarrow> sg_bytes s =
     concat (map (\<lambda>i. span_addrs (sg_ptr s i) (unat (sg_len s i))) [0..<sg_index s - 1]) @
     span_addrs (sg_ptr s (sg_index s - 1)) (unat (sg_len s (sg_index s - 1)))"
  by (cases "sg_index s") (simp_all add: sg_bytes_def)

lemma sg_bytes_len_upd:
  assumes "0 < sg_index s" "sg_ptr s' = sg_ptr s" "sg_len s' = (sg_len s)(sg_index s - 1 := l)" "sg_index s' = sg_index s"
  shows "sg_bytes s' = concat (map (\<lambda>i. span_addrs (sg_ptr s i) (unat (sg_len s i))) [0..<sg_index s - 1]) @
     span_addrs (sg_ptr s (sg_index s - 1)) (unat l)"
proof -
  have "map (\<lambda>i. span_addrs (sg_ptr s' i) (unat (sg_len s' i))) [0..<sg_index s - 1] =
      map (\<lambda>i. span_addrs (sg_ptr s i) (unat (sg_len s i))) [0..<sg_index s - 1]"
    using assms(2,3) by (intro map_cong) auto
  moreover have "sg_bytes s' = concat (map (\<lambda>i. span_addrs (sg_ptr s' i) (unat (sg_len s' i))) [0..<sg_index s - 1]) @
      span_addrs (sg_ptr s' (sg_index s - 1)) (unat (sg_len s' (sg_index s - 1)))"
    using sg_bytes_snoc[of s'] assms(1) unfolding assms(4) by blast
  ultimately show ?thesis by (simp only: assms(2,3) fun_upd_same)
qed

lemma sg_bytes_new:
  assumes "sg_ptr s' = (sg_ptr s)(sg_index s := p)" "sg_len s' = (sg_len s)(sg_index s := l)" "sg_index s' = sg_index s + 1"
  shows "sg_bytes s' = sg_bytes s @ span_addrs p (unat l)"
proof -
  have "map (\<lambda>i. span_addrs (sg_ptr s' i) (unat (sg_len s' i))) [0..<sg_index s] =
      map (\<lambda>i. span_addrs (sg_ptr s i) (unat (sg_len s i))) [0..<sg_index s]"
    using assms by (intro map_cong) auto
  moreover have "sg_bytes s' = concat (map (\<lambda>i. span_addrs (sg_ptr s' i) (unat (sg_len s' i))) [0..<sg_index s]) @
      span_addrs (sg_ptr s' (sg_index s)) (unat (sg_len s' (sg_index s)))"
    by (simp add: sg_bytes_def assms(3))
  ultimately show ?thesis unfolding sg_bytes_def[of s] by (simp only: assms(1,2) fun_upd_same)
qed

lemma ucast_len: "(ucast (n :: u32) :: u64) = of_nat (unat n)"
  by simp

lemma ucast_add_len: "unat (a + b) = unat a + unat b \<Longrightarrow> (ucast (a + b :: u32) :: u64) = ucast a + ucast b"
  by (metis of_nat_add ucast_len)

definition scsi_frame :: "scsi \<Rightarrow> scsi \<Rightarrow> bool" where
  "scsi_frame s s' \<longleftrightarrow> phase s' = phase s \<and> fake_status s' = fake_status s \<and> target_id s' = target_id s \<and> reading s' = reading s"

lemma add_sg_ok:
  assumes "add_sg p len s = Some s'" "sg_ok s"
  shows "scsi_frame s s'" "sg_index s' \<le> SG_TABLE_SIZE" "sg_total_length s' = sg_total_length s + len"
    "of_nat (length (sg_bytes s')) = sg_total_length s'"
proof -
  consider (merge) "0 < sg_index s" "s' = s\<lparr>sg_len := (sg_len s)(sg_index s - 1 := sg_len s (sg_index s - 1) + len),
      sg_total_length := sg_total_length s + len\<rparr>"
    | (new) "sg_index s < SG_TABLE_SIZE" "s' = s\<lparr>sg_ptr := (sg_ptr s)(sg_index s := Mac2HostAddr p),
      sg_len := (sg_len s)(sg_index s := len), sg_index := sg_index s + 1, sg_total_length := sg_total_length s + len\<rparr>"
    using assms by (auto simp: add_sg_def sg_ok_def split: if_splits)
  then have "scsi_frame s s' \<and> sg_index s' \<le> SG_TABLE_SIZE \<and> sg_total_length s' = sg_total_length s + len \<and>
      of_nat (length (sg_bytes s')) = sg_total_length s'"
  proof cases
    case merge
    then have "of_nat (length (sg_bytes s')) = (of_nat (length (sg_bytes s)) :: u32) + len"
      using sg_bytes_len_upd[of s s'] by (simp add: sg_bytes_snoc)
    then show ?thesis using merge assms(2) by (simp add: scsi_frame_def sg_ok_def)
  next
    case new
    then have "of_nat (length (sg_bytes s')) = (of_nat (length (sg_bytes s)) :: u32) + len"
      using sg_bytes_new[of s' s] by simp
    then show ?thesis using new assms(2) by (simp add: scsi_frame_def sg_ok_def)
  qed
  then show "scsi_frame s s'" "sg_index s' \<le> SG_TABLE_SIZE" "sg_total_length s' = sg_total_length s + len"
    "of_nat (length (sg_bytes s')) = sg_total_length s'" by auto
qed

lemma add_sg_bytes:
  assumes "add_sg p len s = Some s'" "length (sg_bytes s) + unat len < 2 ^ 32"
  shows "sg_bytes s' = sg_bytes s @ span_addrs (ucast p) (unat len)" "0 < sg_index s'" "sg_index s' \<le> sg_index s + 1"
    "sg_ptr s' (sg_index s' - 1) + ucast (sg_len s' (sg_index s' - 1)) = ucast p + ucast len"
proof -
  have "sg_bytes s' = sg_bytes s @ span_addrs (ucast p) (unat len) \<and> 0 < sg_index s' \<and> sg_index s' \<le> sg_index s + 1 \<and>
    sg_ptr s' (sg_index s' - 1) + ucast (sg_len s' (sg_index s' - 1)) = ucast p + ucast len"
  proof (cases "0 < sg_index s \<and> Mac2HostAddr p = sg_ptr s (sg_index s - 1) + ucast (sg_len s (sg_index s - 1))")
    case True
    let ?j = "sg_index s - 1"
    have s': "s' = s\<lparr>sg_len := (sg_len s)(?j := sg_len s ?j + len), sg_total_length := sg_total_length s + len\<rparr>"
      using assms(1) True by (simp add: add_sg_def)
    have "unat (sg_len s ?j) \<le> length (sg_bytes s)" using True by (simp add: sg_bytes_snoc)
    then have u: "unat (sg_len s ?j + len) = unat (sg_len s ?j) + unat len"
      using assms(2) by (subst unat_add_lem[THEN iffD1]) auto
    have "ucast p = sg_ptr s ?j + of_nat (unat (sg_len s ?j))"
      using True by (simp add: Mac2HostAddr_def vm_do_get_real_address_def)
    then show ?thesis using True u sg_bytes_len_upd[of s s'] by (simp add: s' sg_bytes_snoc span_addrs_append ucast_add_len)
  next
    case False
    then show ?thesis using assms(1) sg_bytes_new[of s' s]
      by (auto simp: add_sg_def Mac2HostAddr_def vm_do_get_real_address_def split: if_splits)
  qed
  then show "sg_bytes s' = sg_bytes s @ span_addrs (ucast p) (unat len)" "0 < sg_index s'" "sg_index s' \<le> sg_index s + 1"
    "sg_ptr s' (sg_index s' - 1) + ucast (sg_len s' (sg_index s' - 1)) = ucast p + ucast len" by auto
qed


lemma add_sg_room: "sg_index s < SG_TABLE_SIZE \<Longrightarrow> \<exists>s'. add_sg p len s = Some s'"
  by (simp add: add_sg_def)

section \<open>Transfer programs\<close>

definition tib_entry :: "host_mem \<Rightarrow> u32 \<Rightarrow> u32 \<Rightarrow> u32 \<Rightarrow> u32 \<Rightarrow> bool" where
  "tib_entry m tib cmd p len \<longleftrightarrow>
     ReadMacInt16 m tib = cmd \<and> ReadMacInt32 m (tib + 2) = p \<and> ReadMacInt32 m (tib + 6) = len"

text \<open>A block of transfers with (\<^verbatim>\<open>scInc\<close>) or without (\<^verbatim>\<open>scNoInc\<close>) update, ended by \<^verbatim>\<open>scStop\<close>.\<close>

fun tib_program :: "host_mem \<Rightarrow> u32 \<Rightarrow> (bool \<times> u32 \<times> u32) list \<Rightarrow> bool" where
  "tib_program m tib [] \<longleftrightarrow> ReadMacInt16 m tib = 7"
| "tib_program m tib ((inc, p, len) # xs) \<longleftrightarrow>
     tib_entry m tib (if inc then 1 else 2) p len \<and> tib_program m (tib + 10) xs"

lemma exec_tib_transfer:
  assumes "tib_entry m tib (if inc then 1 else 2) p len" "add_sg p len s = Some s'"
  shows "exec_tib tib s m = exec_tib (tib + 10) s' (if inc then WriteMacInt32 m (tib + 2) (p + len) else m)"
  using assms by (subst exec_tib.simps) (cases inc; simp add: tib_entry_def Let_def add.commute[of tib])

lemma exec_tib_stop: "ReadMacInt16 m tib = 7 \<Longrightarrow> exec_tib tib s m = Some (0, s, m)"
  by (subst exec_tib.simps) (simp add: Let_def)

lemma exec_tib_loop:
  "tib_entry m tib 5 p len \<Longrightarrow>
   exec_tib tib s m = exec_tib (if len \<noteq> 1 then tib + p else tib + 10) s (WriteMacInt32 m (tib + 6) (len - 1))"
proof -
  assume e: "tib_entry m tib 5 p len"
  have "0 < len - 1 \<longleftrightarrow> len \<noteq> 1" by (simp add: word_greater_zero_iff)
  moreover have "tib + 10 + (p - 10) = tib + p" by simp
  ultimately show ?thesis using e by (subst exec_tib.simps) (simp add: tib_entry_def Let_def add.commute[of tib])
qed

lemma unat_tib: "unat tib + k < 2 ^ 32 \<Longrightarrow> unat (tib + of_nat k :: u32) = unat tib + k"
  by (rule unat_field) simp

lemma tib_entry_frame:
  assumes "unat a + 4 \<le> unat tib \<or> unat tib + 10 \<le> unat a" "unat tib + 10 \<le> 2 ^ 32"
  shows "tib_entry (WriteMacInt32 m a v) tib cmd p len = tib_entry m tib cmd p len"
  using assms unat_tib[of tib 2] unat_tib[of tib 6] by (auto simp: tib_entry_def mac_read_frame apart_def)

lemma tib_program_frame:
  assumes "unat a + 4 \<le> unat tib" "unat tib + 10 * length xs + 10 \<le> 2 ^ 32"
  shows "tib_program (WriteMacInt32 m a v) tib xs = tib_program m tib xs"
  using assms
proof (induction xs arbitrary: tib)
  case Nil
  then show ?case by (simp add: mac_read_frame apart_def)
next
  case (Cons x xs)
  then show ?case
    using unat_tib[of tib 10] tib_entry_frame[of a tib m v] by (cases x) simp
qed

lemma mac_span_sub:
  assumes "unat (a + of_nat k :: u32) = unat a + k" "k + n \<le> n'" "k < 2 ^ 32"
  shows "mac_span (a + of_nat k) n \<subseteq> mac_span a n'"
proof -
  have "unat (of_nat k :: u32) = k" using assms(3) by (simp add: unat_of_nat)
  then have "(ucast (a + of_nat k) :: u64) = ucast a + of_nat k"
    using ucast_add_len[of a "of_nat k"] assms(1) by (metis ucast_len)
  then show ?thesis using assms(2) by (auto simp: mac_span_def) (metis add.assoc add_less_cancel_left less_le_trans of_nat_add)
qed

lemma tib_program_runs:
  assumes "tib_program m tib xs" "unat tib + 10 * length xs + 10 \<le> 2 ^ 32"
    and "sg_ok s" "sg_index s + length xs \<le> SG_TABLE_SIZE"
    and "length (sg_bytes s) + (\<Sum>(inc, p, len) \<leftarrow> xs. unat len) < 2 ^ 32"
  shows "\<exists>s' m'. exec_tib tib s m = Some (0, s', m') \<and> sg_ok s' \<and> scsi_frame s s' \<and>
    sg_bytes s' = sg_bytes s @ concat (map (\<lambda>(inc, p, len). span_addrs (ucast p) (unat len)) xs) \<and>
    (\<forall>x. x \<notin> mac_span tib (10 * length xs) \<longrightarrow> m' x = m x)"
  using assms
proof (induction xs arbitrary: m tib s)
  case Nil
  then show ?case by (auto simp: exec_tib_stop scsi_frame_def)
next
  case (Cons x xs)
  obtain inc p len where x: "x = (inc, p, len)" by (cases x)
  obtain s1 where s1: "add_sg p len s = Some s1" using add_sg_room[of s p len] Cons.prems(4) by auto
  have b: "length (sg_bytes s) + unat len < 2 ^ 32" using Cons.prems(5) x by simp
  note ok = add_sg_ok[OF s1 Cons.prems(3)] and bytes = add_sg_bytes[OF s1 b]
  define m1 where "m1 = (if inc then WriteMacInt32 m (tib + 2) (p + len) else m)"
  have u: "unat (tib + 10) = unat tib + 10" "unat (tib + 2) = unat tib + 2"
    using Cons.prems(2) unat_tib[of tib 10] unat_tib[of tib 2] by simp_all
  have "tib_program m1 (tib + 10) xs"
    using Cons.prems(1,2) x u tib_program_frame[of "tib + 2" "tib + 10" xs m "p + len"] by (simp add: m1_def)
  moreover have "sg_ok s1" using ok by (simp add: sg_ok_def)
  moreover have "sg_index s1 + length xs \<le> SG_TABLE_SIZE" using bytes(3) Cons.prems(4) by simp
  moreover have "length (sg_bytes s1) + (\<Sum>(inc, p, len) \<leftarrow> xs. unat len) < 2 ^ 32"
    using Cons.prems(5) x bytes(1) by simp
  moreover have "unat (tib + 10) + 10 * length xs + 10 \<le> 2 ^ 32" using u(1) Cons.prems(2) by simp
  ultimately have pre: "tib_program m1 (tib + 10) xs" "sg_ok s1" "sg_index s1 + length xs \<le> SG_TABLE_SIZE"
    "length (sg_bytes s1) + (\<Sum>(inc, p, len) \<leftarrow> xs. unat len) < 2 ^ 32" "unat (tib + 10) + 10 * length xs + 10 \<le> 2 ^ 32"
    by blast+
  then obtain s' m' where r: "exec_tib (tib + 10) s1 m1 = Some (0, s', m')" "sg_ok s'" "scsi_frame s1 s'"
    "sg_bytes s' = sg_bytes s1 @ concat (map (\<lambda>(inc, p, len). span_addrs (ucast p) (unat len)) xs)"
    "\<forall>x. x \<notin> mac_span (tib + 10) (10 * length xs) \<longrightarrow> m' x = m1 x"
    using Cons.IH[of m1 "tib + 10" s1] pre by blast
  have "exec_tib tib s m = Some (0, s', m')"
    using exec_tib_transfer[of m tib inc p len s s1] Cons.prems(1) x s1 r(1) by (simp add: m1_def)
  moreover have "scsi_frame s s'" using ok(1) r(3) by (simp add: scsi_frame_def)
  moreover have "sg_bytes s' = sg_bytes s @ concat (map (\<lambda>(inc, p, len). span_addrs (ucast p) (unat len)) (x # xs))"
    using r(4) bytes(1) x by simp
  moreover have "m' y = m y" if y: "y \<notin> mac_span tib (10 * length (x # xs))" for y
  proof -
    have "y \<notin> mac_span (tib + 10) (10 * length xs)" "y \<notin> mac_span (tib + 2) 4"
      using y u mac_span_sub[of tib 10 "10 * length xs" "10 * length (x # xs)"]
        mac_span_sub[of tib 2 4 "10 * length (x # xs)"] by auto
    then show ?thesis using r(5) mac_write_frame(3) by (simp add: m1_def)
  qed
  ultimately show ?case using r(2) by blast
qed


text \<open>The idiom for blocks of a device: a transfer with update, repeated by a loop.\<close>

definition tib_loop :: "host_mem \<Rightarrow> u32 \<Rightarrow> u32 \<Rightarrow> u32 \<Rightarrow> u32 \<Rightarrow> bool" where
  "tib_loop m tib p len n \<longleftrightarrow>
     tib_entry m tib 1 p len \<and> tib_entry m (tib + 10) 5 (- 10) n \<and> ReadMacInt16 m (tib + 20) = 7"

lemma tib_loop_pass:
  assumes "tib_loop m tib p len n" "unat tib + 30 \<le> 2 ^ 32" "add_sg p len s = Some s'"
  shows "\<exists>m'. exec_tib tib s m = exec_tib (if n \<noteq> 1 then tib else tib + 20) s' m' \<and> tib_loop m' tib (p + len) len (n - 1)"
proof -
  have u: "unat (tib + 2) = unat tib + 2" "unat (tib + 6) = unat tib + 6" "unat (tib + 10) = unat tib + 10"
    "unat (tib + 12) = unat tib + 12" "unat (tib + 16) = unat tib + 16" "unat (tib + 20) = unat tib + 20"
    using assms(2) unat_tib[of tib 2] unat_tib[of tib 6] unat_tib[of tib 10] unat_tib[of tib 12] unat_tib[of tib 16]
      unat_tib[of tib 20] by simp_all
  let ?m1 = "WriteMacInt32 m (tib + 2) (p + len)"
  let ?m2 = "WriteMacInt32 ?m1 (tib + 16) (n - 1)"
  have e: "tib_entry m tib 1 p len" "tib_entry m (tib + 10) 5 (- 10) n" "ReadMacInt16 m (tib + 20) = 7"
    using assms(1) by (simp_all add: tib_loop_def)
  have e1: "tib_entry ?m1 (tib + 10) 5 (- 10) n"
    using tib_entry_frame[of "tib + 2" "tib + 10" m] e(2) u assms(2) by simp
  have "exec_tib tib s m = exec_tib (tib + 10) s' ?m1" using exec_tib_transfer[of m tib True p len s s'] e(1) assms(3) by simp
  also have "\<dots> = exec_tib (if n \<noteq> 1 then tib else tib + 20) s' ?m2"
    using exec_tib_loop[OF e1, of s'] by (simp add: add.assoc)
  finally have x: "exec_tib tib s m = exec_tib (if n \<noteq> 1 then tib else tib + 20) s' ?m2" .
  have "tib_entry ?m1 tib 1 (p + len) len"
    using e(1) u by (simp add: tib_entry_def mac_read_frame apart_def)
  then have "tib_entry ?m2 tib 1 (p + len) len" using tib_entry_frame[of "tib + 16" tib ?m1] u assms(2) by simp
  moreover have "tib_entry ?m2 (tib + 10) 5 (- 10) (n - 1)"
    using e1 u by (simp add: tib_entry_def mac_read_frame apart_def add.assoc)
  moreover have "ReadMacInt16 ?m2 (tib + 20) = 7" using e(3) u by (simp add: mac_read_frame apart_def)
  ultimately show ?thesis using x by (auto simp: tib_loop_def)
qed

lemma add_sg_again:
  assumes "add_sg p len s = Some s'" "length (sg_bytes s) + unat len < 2 ^ 32" "unat p + unat len < 2 ^ 32"
  shows "\<exists>s2. add_sg (p + len) len' s' = Some s2"
proof -
  have "unat (p + len) = unat p + unat len" using assms(3) by (subst unat_add_lem[THEN iffD1]) auto
  then have "Mac2HostAddr (p + len) = sg_ptr s' (sg_index s' - 1) + ucast (sg_len s' (sg_index s' - 1))"
    using add_sg_bytes(4)[OF assms(1,2)] ucast_add_len[of p len] by (simp add: Mac2HostAddr_def vm_do_get_real_address_def)
  then show ?thesis using add_sg_bytes(2)[OF assms(1,2)] by (simp add: add_sg_def)
qed

lemma tib_loop_runs:
  assumes "tib_loop m tib p len n" "unat tib + 30 \<le> 2 ^ 32" "unat n = Suc k" "add_sg p len s = Some s1" "sg_ok s"
    and "length (sg_bytes s) + Suc k * unat len < 2 ^ 32" "unat p + Suc k * unat len < 2 ^ 32"
  shows "\<exists>s' m'. exec_tib tib s m = Some (0, s', m') \<and> sg_ok s' \<and> scsi_frame s s' \<and>
    sg_bytes s' = sg_bytes s @ span_addrs (ucast p) (Suc k * unat len) \<and> tib_loop m' tib (p + n * len) len 0"
  using assms
proof (induction k arbitrary: m p n s s1)
  case 0
  have n: "n = 1" using 0(3) by (metis One_nat_def unat_1 unsigned_word_eqI)
  have b: "length (sg_bytes s) + unat len < 2 ^ 32" using 0 by simp
  obtain m' where m': "exec_tib tib s m = exec_tib (tib + 20) s1 m'" "tib_loop m' tib (p + len) len 0"
    using tib_loop_pass[OF 0(1,2,4)] n by auto
  have "exec_tib (tib + 20) s1 m' = Some (0, s1, m')" by (rule exec_tib_stop) (use m'(2) in \<open>simp add: tib_loop_def\<close>)
  then show ?case using m' n add_sg_ok[OF 0(4,5)] add_sg_bytes(1)[OF 0(4) b] by (simp add: sg_ok_def)
next
  case (Suc k)
  have n: "n \<noteq> 1" using Suc.prems(3) by auto
  have n1: "unat (n - 1) = Suc k" using Suc.prems(3) by (metis diff_Suc_1 unat_minus_one unat_0 nat.distinct(1))
  have b: "length (sg_bytes s) + unat len < 2 ^ 32" "unat p + unat len < 2 ^ 32" using Suc.prems(6,7) by simp_all
  obtain m1 where m1: "exec_tib tib s m = exec_tib tib s1 m1" "tib_loop m1 tib (p + len) len (n - 1)"
    using tib_loop_pass[OF Suc.prems(1,2,4)] n by auto
  obtain s2 where s2: "add_sg (p + len) len s1 = Some s2" using add_sg_again[OF Suc.prems(4) b] by blast
  note ok = add_sg_ok[OF Suc.prems(4,5)] and bytes = add_sg_bytes(1)[OF Suc.prems(4) b(1)]
  have up: "unat (p + len) = unat p + unat len" using b(2) by (subst unat_add_lem[THEN iffD1]) auto
  have "sg_ok s1" using ok by (simp add: sg_ok_def)
  moreover have "length (sg_bytes s1) + Suc k * unat len < 2 ^ 32" using Suc.prems(6) bytes by simp
  moreover have "unat (p + len) + Suc k * unat len < 2 ^ 32" using Suc.prems(7) up by simp
  ultimately obtain s' m' where r: "exec_tib tib s1 m1 = Some (0, s', m')" "sg_ok s'" "scsi_frame s1 s'"
    "sg_bytes s' = sg_bytes s1 @ span_addrs (ucast (p + len)) (Suc k * unat len)"
    "tib_loop m' tib (p + len + (n - 1) * len) len 0"
    using Suc.IH[OF m1(2) Suc.prems(2) n1 s2] by blast
  have "sg_bytes s' = sg_bytes s @ span_addrs (ucast p) (Suc (Suc k) * unat len)"
    using r(4) bytes span_addrs_append[of "ucast p" "unat len" "Suc k * unat len"] ucast_add_len[OF up] by simp
  moreover have e: "p + len + (n - 1) * len = p + n * len" by (simp add: algebra_simps)
  moreover have "tib_loop m' tib (p + n * len) len 0" using r(5) unfolding e .
  moreover have "scsi_frame s s'" using ok(1) r(3) by (simp add: scsi_frame_def)
  ultimately show ?case using r m1(1) by auto
qed


text \<open>
  C19: A transfer program builds the scatter/gather table of its transfers: a block of at most as many
  transfers as the table has free entries runs to its end without an error, and the table then
  covers the bytes of the transfers in order behind those that it covered before, whichever
  entries were merged; nothing outside the block is written. The loop idiom, a transfer
  with update repeated \<open>n\<close> times, covers \<open>n\<close> blocks in a row, needs one entry of the table
  however large \<open>n\<close> is, and leaves the pointer behind the last block and the count at zero.
\<close>

theorem tib_builds_table:
  assumes "sg_ok s"
  shows "(tib_program m tib xs \<and> unat tib + 10 * length xs + 10 \<le> 2 ^ 32 \<and> sg_index s + length xs \<le> SG_TABLE_SIZE \<and>
      length (sg_bytes s) + (\<Sum>(inc, p, len) \<leftarrow> xs. unat len) < 2 ^ 32 \<longrightarrow>
      (\<exists>s' m'. exec_tib tib s m = Some (0, s', m') \<and> sg_ok s' \<and>
         sg_bytes s' = sg_bytes s @ concat (map (\<lambda>(inc, p, len). span_addrs (ucast p) (unat len)) xs) \<and>
         (\<forall>x. x \<notin> mac_span tib (10 * length xs) \<longrightarrow> m' x = m x))) \<and>
    (tib_loop m tib p len n \<and> unat tib + 30 \<le> 2 ^ 32 \<and> 0 < unat n \<and> sg_index s < SG_TABLE_SIZE \<and>
      length (sg_bytes s) + unat n * unat len < 2 ^ 32 \<and> unat p + unat n * unat len < 2 ^ 32 \<longrightarrow>
      (\<exists>s' m'. exec_tib tib s m = Some (0, s', m') \<and> sg_ok s' \<and>
         sg_bytes s' = sg_bytes s @ span_addrs (ucast p) (unat n * unat len) \<and> tib_loop m' tib (p + n * len) len 0))"
proof (intro conjI impI)
  assume a: "tib_loop m tib p len n \<and> unat tib + 30 \<le> 2 ^ 32 \<and> 0 < unat n \<and> sg_index s < SG_TABLE_SIZE \<and>
      length (sg_bytes s) + unat n * unat len < 2 ^ 32 \<and> unat p + unat n * unat len < 2 ^ 32"
  then obtain k s1 where "unat n = Suc k" "add_sg p len s = Some s1" using add_sg_room[of s p len] by (metis gr0_implies_Suc)
  with a show "\<exists>s' m'. exec_tib tib s m = Some (0, s', m') \<and> sg_ok s' \<and>
      sg_bytes s' = sg_bytes s @ span_addrs (ucast p) (unat n * unat len) \<and> tib_loop m' tib (p + n * len) len 0"
    using tib_loop_runs[OF _ _ _ _ assms, of m tib p len n k s1] by auto
qed (use tib_program_runs[OF _ _ assms] in blast)

text \<open>A memory with a block of two transfers, the second one behind the first in memory.\<close>

definition tib_memory :: host_mem where
  "tib_memory =
     (let m = (\<lambda>_. 0);
          m = WriteMacInt16 m 0x1000 1; m = WriteMacInt32 m 0x1002 0x4000; m = WriteMacInt32 m 0x1006 0x200;
          m = WriteMacInt16 m 0x100a 2; m = WriteMacInt32 m 0x100c 0x4200; m = WriteMacInt32 m 0x1010 0x100
      in WriteMacInt16 m 0x1014 7)"

definition scsi_idle :: scsi where
  "scsi_idle = \<lparr>target_id = 8, phase = PH_FREE, fake_status = 0, reading = False, sg_index = 0, sg_ptr = \<lambda>_. 0,
     sg_len = \<lambda>_. 0, sg_total_length = 0\<rparr>"

lemma scsi_idle_ok: "sg_ok scsi_idle" "sg_bytes scsi_idle = []"
  by (simp_all add: scsi_idle_def sg_ok_def sg_bytes_def)

lemma tib_memory_program: "tib_program tib_memory 0x1000 [(True, 0x4000, 0x200), (False, 0x4200, 0x100)]"
  by (simp add: tib_memory_def Let_def tib_entry_def mac_read_frame apart_def take_bit_eq_mod)

theorem tib_builds_table_witness:
  "\<exists>s' m'. exec_tib 0x1000 scsi_idle tib_memory = Some (0, s', m') \<and> sg_bytes s' = span_addrs 0x4000 0x200 @ span_addrs 0x4200 0x100"
  using tib_builds_table[OF scsi_idle_ok(1), of tib_memory "0x1000" "[(True, 0x4000, 0x200), (False, 0x4200, 0x100)]" 0 0 0]
    tib_memory_program scsi_idle_ok(2)
  by (auto simp: scsi_idle_def SG_TABLE_SIZE_def)


section \<open>The data of a command\<close>

definition table_addrs :: "nat list \<Rightarrow> scsi \<Rightarrow> u64 list" where
  "table_addrs is s = concat (map (\<lambda>i. span_addrs (sg_ptr s i) (unat (sg_len s i))) is)"

lemma sg_bytes_table: "sg_bytes s = table_addrs [0..<sg_index s] s"
  by (simp add: sg_bytes_def table_addrs_def)

lemma table_addrs_simps [simp]:
  "table_addrs [] s = []" "table_addrs (i # is) s = span_addrs (sg_ptr s i) (unat (sg_len s i)) @ table_addrs is s"
  by (simp_all add: table_addrs_def)

lemma copy_in_put: "copy_in off n p m b = put_list off (map m (span_addrs p n)) b"
  by (auto simp: copy_in_def put_list_def span_addrs_def fun_eq_iff)

lemma put_list_append: "put_list (off + length xs) ys (put_list off xs b) = put_list off (xs @ ys) b"
  by (auto simp: put_list_def fun_eq_iff nth_append)

lemma put_list_Nil [simp]: "put_list off [] b = b"
  by (auto simp: put_list_def fun_eq_iff)

lemma gather_table:
  "gather is cap off s m b =
     (if is = [] \<or> off + length (table_addrs is s) \<le> cap then Some (put_list off (map m (table_addrs is s)) b) else None)"
proof (induction "is" arbitrary: off b)
  case (Cons i "is")
  have "put_list (off + unat (sg_len s i)) ys (copy_in off (unat (sg_len s i)) p m b) =
      put_list off (map m (span_addrs p (unat (sg_len s i))) @ ys) b" for p ys
    unfolding copy_in_put using put_list_append[of off "map m (span_addrs p (unat (sg_len s i)))" ys b] by simp
  then show ?case using Cons.IH by (auto simp: Let_def)
qed simp

lemma copy_out_span:
  assumes "n \<le> 2 ^ 32"
  shows "a \<notin> set (span_addrs p n) \<Longrightarrow> copy_out off n p b m a = m a"
    "k < n \<Longrightarrow> copy_out off n p b m (p + of_nat k) = b (off + k)"
proof -
  show "copy_out off n p b m a = m a" if "a \<notin> set (span_addrs p n)"
  proof (cases "unat (a - p) < n")
    case True
    then have "(\<lambda>k. p + of_nat k) (unat (a - p)) \<in> set (span_addrs p n)" unfolding span_addrs_def by (simp del: of_nat_unat)
    then show ?thesis using that by simp
  qed (simp add: copy_out_def)
  assume "k < n"
  then have "unat (of_nat k :: u64) = k" using assms by (simp add: unat_of_nat)
  then show "copy_out off n p b m (p + of_nat k) = b (off + k)" using \<open>k < n\<close> by (simp add: copy_out_def)
qed

lemma scatter_table:
  assumes "off + length (table_addrs is s) \<le> cap" "distinct (table_addrs is s)"
  shows "\<exists>m'. scatter is cap off s b m = Some m' \<and> (\<forall>x. x \<notin> set (table_addrs is s) \<longrightarrow> m' x = m x) \<and>
    (\<forall>k < length (table_addrs is s). m' (table_addrs is s ! k) = b (off + k))"
  using assms
proof (induction "is" arbitrary: off m)
  case (Cons i "is")
  define n where "n = unat (sg_len s i)"
  define sp where "sp = span_addrs (sg_ptr s i) n"
  let ?m = "copy_out off n (sg_ptr s i) b m"
  have n: "n \<le> 2 ^ 32" using unsigned_less[of "sg_len s i", where ?'a = nat] by (simp add: n_def)
  have ta: "table_addrs (i # is) s = sp @ table_addrs is s" "length sp = n" by (simp_all add: sp_def n_def)
  have sp: "sp ! k = sg_ptr s i + of_nat k" if "k < n" for k using that by (simp add: sp_def span_addrs_def)
  have "off + n + length (table_addrs is s) \<le> cap" "distinct (table_addrs is s)"
    using Cons.prems ta(2) by (simp_all add: n_def sp_def)
  from Cons.IH[OF this, of ?m] obtain m' where m': "scatter is cap (off + n) s b ?m = Some m'"
    "\<forall>x. x \<notin> set (table_addrs is s) \<longrightarrow> m' x = ?m x"
    "\<forall>k < length (table_addrs is s). m' (table_addrs is s ! k) = b (off + n + k)" by blast
  have "m' ((sp @ table_addrs is s) ! k) = b (off + k)" if k: "k < n + length (table_addrs is s)" for k
  proof (cases "k < n")
    case True
    then have "sp ! k \<in> set sp" using ta(2) by simp
    then have "sp ! k \<notin> set (table_addrs is s)" using Cons.prems(2) ta(1) by auto
    then show ?thesis using m'(2) True copy_out_span(2)[OF n True] ta(2) sp by (simp add: nth_append)
  next
    case False
    then show ?thesis using m'(3) k ta(2) by (auto simp: nth_append)
  qed
  moreover have "m' x = m x" if "x \<notin> set (sp @ table_addrs is s)" for x
    using that m'(2) copy_out_span(1)[OF n, of x "sg_ptr s i"] by (simp add: sp_def)
  moreover have "scatter (i # is) cap off s b m = Some m'" using m'(1) Cons.prems(1) ta by (simp add: Let_def n_def)
  ultimately show ?case unfolding ta(1) using ta(2) by (intro exI[of _ m']) simp
qed simp

lemma try_buffer_fits:
  assumes "try_buffer D len l = Some l'" "unat len + unat (sizeof_sg_header D) + 12 < 2 ^ 32"
  shows "unat len + unat (sizeof_sg_header D) + 12 \<le> unat (buffer_size l')" "the_cmd l' = the_cmd l" "active_fd l' = active_fd l"
proof -
  have "unat (len + (sizeof_sg_header D + 12)) = unat len + unat (sizeof_sg_header D) + 12"
    using assms(2) by (simp add: unat_word_ariths)
  then show "unat len + unat (sizeof_sg_header D) + 12 \<le> unat (buffer_size l')" "the_cmd l' = the_cmd l" "active_fd l' = active_fd l"
    using assms(1) by (auto simp: try_buffer_def Let_def word_le_nat_alt split: if_splits)
qed


lemma put_list_map: "map (put_list 0 xs b) [0..<length xs + n] = xs @ map b [length xs..<length xs + n]"
  by (rule nth_equalityI) (auto simp: put_list_def nth_append)

lemma request_bytes:
  "map (put_list 0 cmd (put_list (length cmd) xs b)) [0..<length cmd + length xs] = cmd @ xs"
  by (rule nth_equalityI) (auto simp: put_list_def nth_append)

lemma send_write:
  assumes "\<not> reading s" "length (the_cmd l) \<le> 12" "length (sg_bytes s) = unat (sg_total_length s)"
    and "unat (sg_total_length s) + unat (sizeof_sg_header D) + 12 < 2 ^ 32"
    and "try_buffer D (sg_total_length s) l = Some l'" "r = sg_request D (active_fd l) (the_cmd l @ map m (sg_bytes s)) 0"
  shows "\<exists>l''. scsi_send_cmd D s l m =
    Some (0 \<le> rp_write r \<and> 0 \<le> rp_read r, push_bit 1 (ucast (if 0 \<le> rp_write r then rp_target_status r else 0)), l'', m)"
proof -
  note fit = try_buffer_fits[OF assms(5,4)]
  let ?cap = "unat (buffer_size l') - unat (sizeof_sg_header D)"
  have "gather [0..<sg_index s] ?cap (length (the_cmd l')) s m (buffer l') =
      Some (put_list (length (the_cmd l)) (map m (sg_bytes s)) (buffer l'))"
    using fit assms(2,3) by (subst gather_table) (auto simp: sg_bytes_table)
  moreover have "map (put_list 0 (the_cmd l) (put_list (length (the_cmd l)) (map m (sg_bytes s)) (buffer l')))
      [0..<length (the_cmd l) + unat (sg_total_length s)] = the_cmd l @ map m (sg_bytes s)"
    using request_bytes[of "the_cmd l" "map m (sg_bytes s)"] assms(3) by simp
  ultimately show ?thesis
    using assms(1,5,6) fit(2,3) by (simp add: scsi_send_cmd_def send_regular_def Let_def)
qed

lemma send_read:
  assumes "reading s" "length (sg_bytes s) = unat (sg_total_length s)" "distinct (sg_bytes s)"
    and "unat (sg_total_length s) + unat (sizeof_sg_header D) + 12 < 2 ^ 32" "try_buffer D (sg_total_length s) l = Some l'"
    and "\<not> (the_cmd l ! 0 = 0x03 \<and> h_target_status l' AND DRIVER_SENSE \<noteq> 0)"
    and "r = sg_request D (active_fd l) (the_cmd l) (sg_total_length s)" "0 \<le> rp_write r" "rp_result r = 0"
    and "length (rp_data r) = unat (sg_total_length s)"
  shows "\<exists>l'' m'. scsi_send_cmd D s l m = Some (0 \<le> rp_read r, push_bit 1 (ucast (rp_target_status r)), l'', m') \<and>
    map m' (sg_bytes s) = rp_data r \<and> (\<forall>x. x \<notin> set (sg_bytes s) \<longrightarrow> m' x = m x)"
proof -
  note fit = try_buffer_fits[OF assms(5,4)]
  let ?cap = "unat (buffer_size l') - unat (sizeof_sg_header D)"
  define b where "b = put_list 0 (rp_data r) (put_list 0 (the_cmd l) (buffer l'))"
  have "0 + length (table_addrs [0..<sg_index s] s) \<le> ?cap" using fit(1) assms(2) by (simp add: sg_bytes_table)
  from scatter_table[OF this, of b m] obtain m' where m': "scatter [0..<sg_index s] ?cap 0 s b m = Some m'"
    "\<forall>x. x \<notin> set (sg_bytes s) \<longrightarrow> m' x = m x" "\<forall>k < length (sg_bytes s). m' (sg_bytes s ! k) = b k"
    using assms(3) by (auto simp: sg_bytes_table)
  have "map m' (sg_bytes s) = rp_data r"
    using m'(3) assms(2,10) by (intro nth_equalityI) (auto simp: b_def put_list_def)
  moreover have "map (put_list 0 (the_cmd l) (buffer l')) [0..<length (the_cmd l)] = the_cmd l"
    using put_list_map[of "the_cmd l" "buffer l'" 0] by simp
  ultimately show ?thesis
    using assms(1,5-9) fit(2,3) m'(1,2) by (auto simp: scsi_send_cmd_def send_regular_def Let_def b_def)
qed


definition echo_driver :: sg_driver where
  "echo_driver = \<lparr>sizeof_sg_header = 36, malloc_ok = \<lambda>_. True, fresh_buffer = \<lambda>_. 0, fresh_result = 0, fresh_status = 0,
     sg_request = \<lambda>fd request n. \<lparr>rp_write = 0, rp_read = 0, rp_result = 0, rp_target_status = 0, rp_sense = [],
       rp_data = replicate (unat n) 0xe5\<rparr>\<rparr>"

definition linux_ready :: scsi_linux where
  "linux_ready = \<lparr>fds = (\<lambda>_. 7), active_fd = 7, buffer_size = 0x10000, buffer = \<lambda>_. 0, the_cmd = [8, 0, 0, 0, 1, 0],
     h_result = 0, h_target_status = 0, h_driver_status = 0, h_sense_buffer = []\<rparr>"

definition one_entry :: "bool \<Rightarrow> u32 \<Rightarrow> scsi" where
  "one_entry rd n = scsi_idle\<lparr>phase := PH_TRANSFER, reading := rd, sg_index := 1, sg_ptr := \<lambda>_. 0x4000, sg_len := \<lambda>_. n,
     sg_total_length := n\<rparr>"

lemma one_entry_bytes: "sg_bytes (one_entry rd n) = span_addrs 0x4000 (unat n)"
  by (simp add: one_entry_def sg_bytes_def)


text \<open>
  C39: The sum of the header and the data length is not checked for overflow: a transfer of nearly 4 GB makes the
  buffer too small and the copy of the data writes beyond its end.
\<close>

theorem scsi_buffer_overrun:
  assumes "\<not> reading s" "sg_index s \<noteq> 0" "length (sg_bytes s) = unat (sg_total_length s)"
    and "2 ^ 32 \<le> unat (sg_total_length s) + unat (sizeof_sg_header D + 12)"
    and "unat (buffer_size l) < unat (sg_total_length s)" "try_buffer D (sg_total_length s) l = Some l'"
  shows "scsi_send_cmd D s l m = None"
proof -
  let ?sz = "sg_total_length s + (sizeof_sg_header D + 12)"
  have "unat ?sz < unat (sg_total_length s)"
    using assms(4) unsigned_less[of "sizeof_sg_header D + 12", where ?'a = nat] unsigned_less[of "sg_total_length s", where ?'a = nat]
    unfolding unat_word_ariths(1)[of "sg_total_length s"] by (simp add: mod_if) linarith
  then have "unat (buffer_size l') < unat (sg_total_length s)"
    using assms(5,6) by (auto simp: try_buffer_def Let_def split: if_splits)
  then have "gather [0..<sg_index s] (unat (buffer_size l') - unat (sizeof_sg_header D)) (length (the_cmd l')) s m (buffer l') = None"
    using assms(2,3) by (subst gather_table) (auto simp: sg_bytes_table)
  then show ?thesis using assms(1,6) by (simp add: scsi_send_cmd_def Let_def)
qed


theorem scsi_buffer_overrun_witness: "scsi_send_cmd echo_driver (one_entry False 0xfffffff0) linux_ready (\<lambda>_. 0) = None"
proof (rule scsi_buffer_overrun[where l' = linux_ready])
  show "length (sg_bytes (one_entry False 0xfffffff0)) = unat (sg_total_length (one_entry False 0xfffffff0))"
    unfolding one_entry_bytes by (simp add: one_entry_def)
qed (simp_all add: echo_driver_def linux_ready_def one_entry_def try_buffer_def)


section \<open>The phases of the bus\<close>

lemma exec_tib_keeps:
  assumes "exec_tib tib s m = Some r" "sg_ok s"
  shows "sg_ok (fst (snd r)) \<and> scsi_frame s (fst (snd r))"
proof -
  let ?P = "\<lambda>(tib :: u32) s (m :: host_mem) (r :: int \<times> scsi \<times> host_mem).
      sg_ok s \<longrightarrow> sg_ok (fst (snd r)) \<and> scsi_frame s (fst (snd r))"
  have "?P tib s m r"
  proof (rule exec_tib.raw_induct[of ?P, OF _ assms(1)], goal_cases)
    case (1 rec tib s m r)
    have refl: "scsi_frame s s" for s by (simp add: scsi_frame_def)
    have trans: "scsi_frame a b \<Longrightarrow> scsi_frame b c \<Longrightarrow> scsi_frame a c" for a b c by (simp add: scsi_frame_def)
    have add: "sg_ok s' \<and> scsi_frame s s'" if "add_sg p len s = Some s'" "sg_ok s" for p len s'
      using add_sg_ok[OF that] by (simp add: sg_ok_def)
    consider "fst (snd r) = s" | tib' m' where "rec tib' s m' = Some r"
      | tib' m' s' p len where "add_sg p len s = Some s'" "rec tib' s' m' = Some r"
      using 1(2) unfolding Let_def by (auto split: if_splits option.splits)
    then show ?case
    proof cases
      case 2
      then show ?thesis by (rule 1(1))
    next
      case 3
      then show ?thesis using 1(1)[OF 3(2)] add[OF 3(1)] trans by blast
    qed (use refl in simp)
  qed
  with assms(2) show ?thesis by blast
qed

text \<open>
  The calls of the emulated program in any order, with any arguments. Between them the program may
  write memory.
\<close>

inductive scsi_call :: "sg_driver \<Rightarrow> scsi \<times> scsi_linux \<times> host_mem \<Rightarrow> scsi \<times> scsi_linux \<times> host_mem \<Rightarrow> bool" for D where
  call_program: "scsi_call D (s, l, m) (s, l, m')"
| call_reset: "scsi_call D (s, l, m) (snd (SCSIReset s), l, m)"
| call_get: "scsi_call D (s, l, m) (snd (SCSIGet s), l, m)"
| call_select: "scsi_call D (s, l, m) (snd (SCSISelect i s l), l, m)"
| call_cmd: "SCSICmd n c m s l = (r, s', l') \<Longrightarrow> scsi_call D (s, l, m) (s', l', m)"
| call_read: "SCSIRead tib s m = Some (r, s', m') \<Longrightarrow> scsi_call D (s, l, m) (s', l, m')"
| call_write: "SCSIWrite tib s m = Some (r, s', m') \<Longrightarrow> scsi_call D (s, l, m) (s', l, m')"
| call_complete: "SCSIComplete D message stat s l m = Some (r, s', l', m') \<Longrightarrow> scsi_call D (s, l, m) (s', l', m')"

fun phase_status :: "scsi_phase \<Rightarrow> u16" where
  "phase_status PH_FREE = 0" | "phase_status PH_ARBITRATED = 0x0040"
| "phase_status PH_SELECTED = 0x006a" | "phase_status PH_TRANSFER = 0x006e"

definition bus_ok :: "scsi \<times> scsi_linux \<times> host_mem \<Rightarrow> bool" where
  "bus_ok = (\<lambda>(s, l, m). SCSIStat s = phase_status (phase s) \<and> (phase s \<noteq> PH_FREE \<longrightarrow> sg_ok s) \<and>
     (phase s = PH_SELECTED \<or> phase s = PH_TRANSFER \<longrightarrow> 0 \<le> target_id s \<and> target_id s \<le> 7 \<and> 0 < fds l (nat (target_id s))) \<and>
     (phase s = PH_TRANSFER \<longrightarrow> active_fd l = fds l (nat (target_id s)) \<and>
        (length (the_cmd l) = 6 \<or> length (the_cmd l) = 10 \<or> length (the_cmd l) = 12)))"

lemma empty_table: "sg_ok (s\<lparr>phase := p, fake_status := f, reading := r, sg_index := 0, sg_total_length := 0\<rparr>)"
  by (simp add: sg_ok_def sg_bytes_def)

lemma sg_ok_cong: "sg_index s = sg_index s' \<Longrightarrow> sg_ptr s = sg_ptr s' \<Longrightarrow> sg_len s = sg_len s' \<Longrightarrow>
    sg_total_length s = sg_total_length s' \<Longrightarrow> sg_ok s = sg_ok s'"
  by (simp add: sg_ok_def sg_bytes_def)

lemma scsi_set_target_fd:
  "scsi_set_target i lun l = Some l' \<Longrightarrow> fds l' = fds l \<and> active_fd l' = fds l (nat i) \<and> the_cmd l' = the_cmd l"
  by (auto simp: scsi_set_target_def split: if_splits)

lemma bus_ok_call: "scsi_call D x y \<Longrightarrow> bus_ok x \<Longrightarrow> bus_ok y"
proof (induction rule: scsi_call.induct)
  case (call_select s l m i)
  then show ?case
    by (auto simp: SCSISelect_def bus_ok_def SCSIStat_def Let_def scsi_is_target_present_def
        sg_ok_cong[of "s\<lparr>target_id := i, phase := PH_SELECTED, fake_status := 0x006a\<rparr>" s])
next
  case (call_cmd n c m s l r s' l')
  then show ?case
    by (auto simp: SCSICmd_def bus_ok_def SCSIStat_def Let_def scsi_set_cmd_def split: if_splits option.splits
        dest!: scsi_set_target_fd simp: sg_ok_cong[of "s\<lparr>phase := PH_TRANSFER, fake_status := 0x006e\<rparr>" s])
next
  case (call_read tib s m r s' m' l)
  have "sg_ok (s\<lparr>reading := True\<rparr>) = sg_ok s" by (rule sg_ok_cong) simp_all
  with call_read show ?case
    using exec_tib_keeps[of tib "s\<lparr>reading := True\<rparr>" m "(r, s', m')"]
    by (auto simp: SCSIRead_def bus_ok_def SCSIStat_def scsi_frame_def split: if_splits)
next
  case (call_write tib s m r s' m' l)
  then show ?case
    using exec_tib_keeps[of tib s m "(r, s', m')"]
    by (auto simp: SCSIWrite_def bus_ok_def SCSIStat_def scsi_frame_def split: if_splits)
next
  case (call_complete message stat s l m r s' l' m')
  then show ?case by (auto simp: SCSIComplete_def bus_ok_def SCSIStat_def Let_def split: if_splits option.splits)
qed (auto simp: bus_ok_def SCSIReset_def SCSIGet_def SCSIStat_def empty_table)

text \<open>
  C28: The state of the bus after any sequence of calls: the status word is that of the phase, a selected target
  has an identifier below eight and an open device, the scatter/gather table is within bounds and its entries have the
  total length modulo \<open>2 ^ 32\<close>, and a command that is ready to be sent is for the
  selected device and has 6, 10 or 12 bytes. The manager reports itself busy exactly in the other phases than the free
  one, and \<^verbatim>\<open>SCSIComplete\<close> frees the bus.
\<close>

theorem scsi_bus_invariant:
  assumes "(scsi_call D)\<^sup>*\<^sup>* (snd (SCSIReset s0), l0, m0) (s, l, m)"
  shows "bus_ok (s, l, m) \<and> (SCSIMgrBusy s = 1 \<longleftrightarrow> phase s \<noteq> PH_FREE) \<and>
    (phase s \<noteq> PH_FREE \<longrightarrow> sg_index s \<le> SG_TABLE_SIZE) \<and>
    (\<forall>message stat r s' l' m'. SCSIComplete D message stat s l m = Some (r, s', l', m') \<longrightarrow>
       (r = scPhaseErr \<and> phase s \<noteq> PH_TRANSFER \<and> s' = s \<or> phase s = PH_TRANSFER \<and> SCSIMgrBusy s' = 0))"
proof -
  have "bus_ok (snd (SCSIReset s0), l0, m0)" by (simp add: SCSIReset_def bus_ok_def SCSIStat_def)
  with assms have "bus_ok (s, l, m)" by (induction rule: rtranclp_induct) (auto intro: bus_ok_call)
  then show ?thesis
    by (auto simp: SCSIMgrBusy_def bus_ok_def sg_ok_def SCSIComplete_def Let_def split: if_splits option.splits)
qed

theorem scsi_bus_invariant_witness:
  "bus_ok (snd (SCSISelect 2 (snd (SCSIGet (snd (SCSIReset scsi_idle)))) linux_ready), linux_ready, \<lambda>_. 0)"
proof -
  have "(scsi_call echo_driver)\<^sup>*\<^sup>* (snd (SCSIReset scsi_idle), linux_ready, \<lambda>_. 0)
      (snd (SCSISelect 2 (snd (SCSIGet (snd (SCSIReset scsi_idle)))) linux_ready), linux_ready, \<lambda>_. 0)"
    by (meson call_get call_select converse_rtranclp_into_rtranclp r_into_rtranclp)
  then show ?thesis using scsi_bus_invariant by blast
qed

end
