(* ===== verification/Mac_Prefs.thy ===== *)
theory Mac_Prefs
  imports PPC_Prelude
begin

text \<open>
  The preferences of \<^verbatim>\<open>prefs.cpp\<close>: the list of typed items, its operations, the command line, and
  the text file that they are saved to and loaded from. The linked list of nodes is a list; the item data
  carries its type. The line buffer of the loader is modelled with its contents, because the loader
  reads beyond the end of the line in it.
\<close>

datatype prefs_type = TYPE_STRING | TYPE_BOOLEAN | TYPE_INT32 | TYPE_ANY

datatype prefs_data = PString string | PBool bool | PInt32 u32

record prefs_node =
  pn_name :: string
  pn_data :: prefs_data

record prefs_desc =
  pd_name :: string
  pd_type :: prefs_type
  multiple :: bool

fun data_type :: "prefs_data \<Rightarrow> prefs_type" where
  "data_type (PString _) = TYPE_STRING" | "data_type (PBool _) = TYPE_BOOLEAN" | "data_type (PInt32 _) = TYPE_INT32"

section \<open>The items\<close>

abbreviation desc :: "string \<Rightarrow> prefs_type \<Rightarrow> bool \<Rightarrow> prefs_desc" where
  "desc n t m \<equiv> \<lparr>pd_name = n, pd_type = t, multiple = m\<rparr>"

definition common_prefs_items :: "prefs_desc list" where
  "common_prefs_items =
    [desc ''disk'' TYPE_STRING True, desc ''floppy'' TYPE_STRING True, desc ''cdrom'' TYPE_STRING True,
     desc ''extfs'' TYPE_STRING False, desc ''scsi0'' TYPE_STRING False, desc ''scsi1'' TYPE_STRING False,
     desc ''scsi2'' TYPE_STRING False, desc ''scsi3'' TYPE_STRING False, desc ''scsi4'' TYPE_STRING False,
     desc ''scsi5'' TYPE_STRING False, desc ''scsi6'' TYPE_STRING False, desc ''screen'' TYPE_STRING False,
     desc ''windowmodes'' TYPE_INT32 False, desc ''screenmodes'' TYPE_INT32 False, desc ''seriala'' TYPE_STRING False,
     desc ''serialb'' TYPE_STRING False, desc ''rom'' TYPE_STRING False, desc ''bootdrive'' TYPE_INT32 False,
     desc ''bootdriver'' TYPE_INT32 False, desc ''ramsize'' TYPE_INT32 False, desc ''frameskip'' TYPE_INT32 False,
     desc ''gfxaccel'' TYPE_BOOLEAN False, desc ''nocdrom'' TYPE_BOOLEAN False, desc ''nonet'' TYPE_BOOLEAN False,
     desc ''nosound'' TYPE_BOOLEAN False, desc ''nogui'' TYPE_BOOLEAN False, desc ''noclipconversion'' TYPE_BOOLEAN False,
     desc ''ignoresegv'' TYPE_BOOLEAN False, desc ''ignoreillegal'' TYPE_BOOLEAN False, desc ''jit'' TYPE_BOOLEAN False,
     desc ''jit68k'' TYPE_BOOLEAN False, desc ''keyboardtype'' TYPE_INT32 False]"

definition platform_prefs_items :: "prefs_desc list" where
  "platform_prefs_items =
    [desc ''ether'' TYPE_STRING False, desc ''etherconfig'' TYPE_STRING False, desc ''keycodes'' TYPE_BOOLEAN False,
     desc ''keycodefile'' TYPE_STRING False, desc ''mousewheelmode'' TYPE_INT32 False,
     desc ''mousewheellines'' TYPE_INT32 False, desc ''dsp'' TYPE_STRING False, desc ''mixer'' TYPE_STRING False,
     desc ''ignoresegv'' TYPE_BOOLEAN False, desc ''idlewait'' TYPE_BOOLEAN False]"

fun find_prefs_desc_in :: "string \<Rightarrow> prefs_desc list \<Rightarrow> prefs_desc option" where
  "find_prefs_desc_in name [] = None"
| "find_prefs_desc_in name (d # ds) = (if pd_name d = name then Some d else find_prefs_desc_in name ds)"

definition find_prefs_desc :: "string \<Rightarrow> prefs_desc option" where
  "find_prefs_desc name =
     (case find_prefs_desc_in name common_prefs_items of
        None \<Rightarrow> find_prefs_desc_in name platform_prefs_items | Some d \<Rightarrow> Some d)"

section \<open>Operations on the list\<close>

type_synonym prefs = "prefs_node list"

definition add_data :: "string \<Rightarrow> prefs_data \<Rightarrow> prefs \<Rightarrow> prefs" where
  "add_data name d ps = ps @ [\<lparr>pn_name = name, pn_data = d\<rparr>]"

definition PrefsAddString :: "string \<Rightarrow> string \<Rightarrow> prefs \<Rightarrow> prefs" where
  "PrefsAddString name s ps = add_data name (PString s) ps"

definition PrefsAddBool :: "string \<Rightarrow> bool \<Rightarrow> prefs \<Rightarrow> prefs" where
  "PrefsAddBool name b ps = add_data name (PBool b) ps"

definition PrefsAddInt32 :: "string \<Rightarrow> u32 \<Rightarrow> prefs \<Rightarrow> prefs" where
  "PrefsAddInt32 name v ps = add_data name (PInt32 v) ps"

text \<open>The position of a node, which stands for the pointer to it.\<close>

fun find_node :: "prefs \<Rightarrow> string \<Rightarrow> prefs_type \<Rightarrow> nat \<Rightarrow> nat option" where
  "find_node [] name t index = None"
| "find_node (p # ps) name t index =
     (if (t = TYPE_ANY \<or> data_type (pn_data p) = t) \<and> pn_name p = name
      then if index = 0 then Some 0 else map_option Suc (find_node ps name t (index - 1))
      else map_option Suc (find_node ps name t index))"

definition replace_data :: "string \<Rightarrow> prefs_data \<Rightarrow> nat \<Rightarrow> prefs \<Rightarrow> prefs" where
  "replace_data name d index ps =
     (case find_node ps name (data_type d) index of
        Some i \<Rightarrow> ps[i := (ps ! i)\<lparr>pn_data := d\<rparr>] | None \<Rightarrow> add_data name d ps)"

definition PrefsReplaceString :: "string \<Rightarrow> string \<Rightarrow> nat \<Rightarrow> prefs \<Rightarrow> prefs" where
  "PrefsReplaceString name s index ps = replace_data name (PString s) index ps"

definition PrefsReplaceBool :: "string \<Rightarrow> bool \<Rightarrow> prefs \<Rightarrow> prefs" where
  "PrefsReplaceBool name b ps = replace_data name (PBool b) 0 ps"

definition PrefsReplaceInt32 :: "string \<Rightarrow> u32 \<Rightarrow> prefs \<Rightarrow> prefs" where
  "PrefsReplaceInt32 name v ps = replace_data name (PInt32 v) 0 ps"

definition PrefsFindString :: "prefs \<Rightarrow> string \<Rightarrow> nat \<Rightarrow> string option" where
  "PrefsFindString ps name index =
     (case find_node ps name TYPE_STRING index of
        Some i \<Rightarrow> (case pn_data (ps ! i) of PString s \<Rightarrow> Some s | _ \<Rightarrow> None) | None \<Rightarrow> None)"

definition PrefsFindBool :: "prefs \<Rightarrow> string \<Rightarrow> bool" where
  "PrefsFindBool ps name =
     (case find_node ps name TYPE_BOOLEAN 0 of
        Some i \<Rightarrow> (case pn_data (ps ! i) of PBool b \<Rightarrow> b | _ \<Rightarrow> False) | None \<Rightarrow> False)"

definition PrefsFindInt32 :: "prefs \<Rightarrow> string \<Rightarrow> u32" where
  "PrefsFindInt32 ps name =
     (case find_node ps name TYPE_INT32 0 of
        Some i \<Rightarrow> (case pn_data (ps ! i) of PInt32 v \<Rightarrow> v | _ \<Rightarrow> 0) | None \<Rightarrow> 0)"

text \<open>When the node is the first one, the code sets the whole list to \<^verbatim>\<open>NULL\<close>.\<close>

definition PrefsRemoveItem :: "string \<Rightarrow> nat \<Rightarrow> prefs \<Rightarrow> prefs" where
  "PrefsRemoveItem name index ps =
     (case find_node ps name TYPE_ANY index of
        None \<Rightarrow> ps | Some i \<Rightarrow> if i = 0 then [] else take i ps @ drop (Suc i) ps)"

section \<open>Numbers\<close>

definition isspace :: "char \<Rightarrow> bool" where
  "isspace c \<longleftrightarrow> c = CHR '' '' \<or> c = CHR 0x09 \<or> c = CHR 0x0A \<or> c = CHR 0x0B \<or> c = CHR 0x0C \<or> c = CHR 0x0D"

definition digit :: "nat \<Rightarrow> char" where "digit n = char_of (48 + n)"

definition is_digit :: "char \<Rightarrow> bool" where
  "is_digit c \<longleftrightarrow> 48 \<le> (of_char c :: nat) \<and> (of_char c :: nat) \<le> 57"

definition digits_value :: "string \<Rightarrow> int" where
  "digits_value s = fold (\<lambda>c v. 10 * v + (of_char c - 48)) (takeWhile is_digit s) 0"

text \<open>\<^verbatim>\<open>atol\<close>, with the saturation of \<^verbatim>\<open>strtol\<close>, and the conversion to \<^verbatim>\<open>int32\<close>.\<close>

definition atol :: "string \<Rightarrow> int" where
  "atol s =
     (let s = dropWhile isspace s
      in if take 1 s = ''-'' then max (- (2 ^ 63)) (- digits_value (drop 1 s))
         else if take 1 s = ''+'' then min (2 ^ 63 - 1) (digits_value (drop 1 s))
         else min (2 ^ 63 - 1) (digits_value s))"

fun show_nat :: "nat \<Rightarrow> string" where
  "show_nat n = (if n < 10 then [digit n] else show_nat (n div 10) @ [digit (n mod 10)])"

definition show_int :: "int \<Rightarrow> string" where
  "show_int i = (if i < 0 then ''-'' @ show_nat (nat (- i)) else show_nat (nat i))"

section \<open>Saving\<close>

definition newline :: char where "newline = CHR 0x0A"

fun all_strings :: "prefs \<Rightarrow> string \<Rightarrow> nat \<Rightarrow> nat \<Rightarrow> string list" where
  "all_strings ps name index 0 = []"
| "all_strings ps name index (Suc k) =
     (case PrefsFindString ps name index of
        None \<Rightarrow> [] | Some s \<Rightarrow> s # all_strings ps name (index + 1) k)"

definition pref_line :: "string \<Rightarrow> string \<Rightarrow> string" where
  "pref_line name v = name @ '' '' @ v @ [newline]"

text \<open>The loop over the strings of an item ends after at most as many steps as the list has nodes.\<close>

definition desc_values :: "prefs \<Rightarrow> prefs_desc \<Rightarrow> string list" where
  "desc_values ps d =
     (case pd_type d of
        TYPE_STRING \<Rightarrow> all_strings ps (pd_name d) 0 (length ps + 1)
      | TYPE_BOOLEAN \<Rightarrow> [if PrefsFindBool ps (pd_name d) then ''true'' else ''false'']
      | TYPE_INT32 \<Rightarrow> [show_int (sint (PrefsFindInt32 ps (pd_name d)))]
      | TYPE_ANY \<Rightarrow> [])"

definition write_prefs :: "prefs \<Rightarrow> prefs_desc list \<Rightarrow> string" where
  "write_prefs ps ds = concat (map (\<lambda>d. concat (map (pref_line (pd_name d)) (desc_values ps d))) ds)"

definition SavePrefsToStream :: "prefs \<Rightarrow> string" where
  "SavePrefsToStream ps = write_prefs ps common_prefs_items @ write_prefs ps platform_prefs_items"

section \<open>Loading\<close>

text \<open>\<^verbatim>\<open>fgets\<close> reads up to \<open>n\<close> characters, through the first newline.\<close>

fun fgets :: "nat \<Rightarrow> string \<Rightarrow> string \<times> string" where
  "fgets 0 s = ([], s)"
| "fgets (Suc n) [] = ([], [])"
| "fgets (Suc n) (c # s) = (if c = newline then ([c], s) else let (a, b) = fgets n s in (c # a, b))"

lemma fgets_append: "fgets n s = (a, b) \<Longrightarrow> s = a @ b"
  by (induction n s arbitrary: a b rule: fgets.induct) (auto split: if_splits prod.splits)

lemma fgets_nonempty: "fgets (Suc n) (c # s) = (a, b) \<Longrightarrow> a \<noteq> []"
  by (auto split: if_splits prod.splits)

abbreviation nul :: char where "nul \<equiv> CHR 0x00"

definition c_string :: "string \<Rightarrow> nat \<Rightarrow> string" where
  "c_string line i = takeWhile (\<lambda>c. c \<noteq> nul) (drop i line)"

text \<open>The first position from \<open>i\<close> on at which a character class holds; \<open>None\<close> beyond the array.\<close>

fun scan :: "(char \<Rightarrow> bool) \<Rightarrow> string \<Rightarrow> nat option" where
  "scan P [] = None"
| "scan P (c # cs) = (if P c then Some 0 else map_option Suc (scan P cs))"

definition set_pref :: "string \<Rightarrow> string \<Rightarrow> prefs \<Rightarrow> prefs" where
  "set_pref keyword v ps =
     (case find_prefs_desc keyword of
        None \<Rightarrow> ps
      | Some d \<Rightarrow>
          (case pd_type d of
             TYPE_STRING \<Rightarrow> if multiple d then PrefsAddString keyword v ps else PrefsReplaceString keyword v 0 ps
           | TYPE_BOOLEAN \<Rightarrow> PrefsReplaceBool keyword (v = ''true'') ps
           | TYPE_INT32 \<Rightarrow> PrefsReplaceInt32 keyword (of_int (atol v)) ps
           | TYPE_ANY \<Rightarrow> ps))"

datatype prefs_error = Line_overrun | Null_value

definition load_line :: "string \<Rightarrow> prefs \<Rightarrow> prefs_error + (string \<times> prefs)" where
  "load_line line ps =
     (let len = length (c_string line 0)
      in if len = 0 then Inr (line, ps)
         else let line = line[len - 1 := nul]
              in if line ! 0 = CHR ''#'' \<or> line ! 0 = CHR '';'' then Inr (line, ps)
                 else case scan isspace line of
                        None \<Rightarrow> Inl Line_overrun
                      | Some p \<Rightarrow>
                          (let line = line[p := nul]
                           in case scan (\<lambda>c. \<not> isspace c) (drop (p + 1) line) of
                                None \<Rightarrow> Inl Line_overrun
                              | Some q \<Rightarrow> Inr (line, set_pref (c_string line 0) (c_string line (p + 1 + q)) ps)))"

function load_loop :: "string \<Rightarrow> string \<Rightarrow> prefs \<Rightarrow> prefs_error + prefs" where
  "load_loop line f ps =
     (if f = [] then Inr ps
      else let (a, f') = fgets 254 f
           in case load_line (a @ nul # drop (length a + 1) line) ps of
                Inl e \<Rightarrow> Inl e | Inr (line, ps) \<Rightarrow> load_loop line f' ps)"
  by pat_completeness auto
termination
proof (relation "measure (\<lambda>(line, f, ps). length f)")
  fix line f ps x a f' b y z
  assume a: "f \<noteq> []" "x = fgets 254 f" "(a, f') = x"
  obtain c s where f: "f = c # s" using a(1) by (cases f) auto
  have e: "(254 :: nat) = Suc 253" by simp
  have x: "fgets 254 f = (a, f')" using a by simp
  have "a \<noteq> []" using x unfolding f e by (rule fgets_nonempty)
  then show "((b, f', z), line, f, ps) \<in> measure (\<lambda>(line, f, ps). length f)"
    using fgets_append[OF x] by simp
qed simp

definition LoadPrefsFromStream :: "string \<Rightarrow> string \<Rightarrow> prefs \<Rightarrow> prefs_error + prefs" where
  "LoadPrefsFromStream line f ps = load_loop line f ps"


section \<open>Defaults and command line\<close>

text \<open>What the code asks the host about device files is a parameter.\<close>

definition SysAddSerialPrefs :: "bool \<Rightarrow> prefs \<Rightarrow> prefs" where
  "SysAddSerialPrefs devfs ps =
     (if \<not> devfs then PrefsAddString ''serialb'' ''/dev/ttyS1'' (PrefsAddString ''seriala'' ''/dev/ttyS0'' ps)
      else PrefsAddString ''serialb'' ''/dev/tts/1'' (PrefsAddString ''seriala'' ''/dev/tts/0'' ps))"

definition AddPrefsDefaults :: "bool \<Rightarrow> bool \<Rightarrow> prefs \<Rightarrow> prefs" where
  "AddPrefsDefaults devfs use_jit ps =
    (PrefsAddInt32 ''keyboardtype'' 5 \<circ> PrefsAddBool ''jit68k'' False \<circ> PrefsAddBool ''jit'' use_jit \<circ>
     PrefsAddBool ''ignoreillegal'' False \<circ> PrefsAddBool ''ignoresegv'' False \<circ> PrefsAddBool ''noclipconversion'' False \<circ>
     PrefsAddBool ''nogui'' False \<circ> PrefsAddBool ''nosound'' False \<circ> PrefsAddBool ''nonet'' False \<circ>
     PrefsAddBool ''nocdrom'' False \<circ> PrefsAddBool ''gfxaccel'' True \<circ> PrefsAddInt32 ''frameskip'' 8 \<circ>
     PrefsAddInt32 ''ramsize'' (16 * 1024 * 1024) \<circ> PrefsAddInt32 ''bootdrive'' 0 \<circ> PrefsAddInt32 ''bootdriver'' 0 \<circ>
     SysAddSerialPrefs devfs) ps"

definition AddPlatformPrefsDefaults :: "bool \<Rightarrow> bool \<Rightarrow> prefs \<Rightarrow> prefs" where
  "AddPlatformPrefsDefaults sound_dsp sound_mixer ps =
    (PrefsAddBool ''idlewait'' True \<circ> PrefsAddBool ''ignoresegv'' False \<circ>
     PrefsReplaceString ''mixer'' (if sound_mixer then ''/dev/sound/mixer'' else ''/dev/mixer'') 0 \<circ>
     PrefsReplaceString ''dsp'' (if sound_dsp then ''/dev/sound/dsp'' else ''/dev/dsp'') 0 \<circ>
     PrefsReplaceInt32 ''mousewheellines'' 3 \<circ> PrefsReplaceInt32 ''mousewheelmode'' 1 \<circ>
     PrefsReplaceString ''extfs'' ''/'' 0 \<circ> PrefsAddBool ''keycodes'' False) ps"

text \<open>
  The arguments after the program name, with \<open>None\<close> for a \<^verbatim>\<open>NULL\<close> entry. An option whose value is
  \<^verbatim>\<open>NULL\<close> makes the code use a null string.
\<close>

definition apply_option :: "prefs_desc \<Rightarrow> string \<Rightarrow> string \<Rightarrow> prefs \<Rightarrow> prefs" where
  "apply_option d keyword v ps =
     (case pd_type d of
        TYPE_STRING \<Rightarrow> if multiple d then PrefsAddString keyword v ps else PrefsReplaceString keyword v 0 ps
      | TYPE_BOOLEAN \<Rightarrow>
          if v = ''true'' \<or> v = ''on'' \<or> v = ''yes'' then PrefsReplaceBool keyword True ps
          else if v = ''false'' \<or> v = ''off'' \<or> v = ''no'' then PrefsReplaceBool keyword False ps
          else ps
      | TYPE_INT32 \<Rightarrow> PrefsReplaceInt32 keyword (of_int (atol v)) ps
      | TYPE_ANY \<Rightarrow> ps)"

definition option_desc :: "string option \<Rightarrow> (string \<times> prefs_desc) option" where
  "option_desc arg =
     (case arg of
        None \<Rightarrow> None
      | Some opt \<Rightarrow>
          if length opt < 3 \<or> opt ! 0 \<noteq> CHR ''-'' \<or> opt ! 1 \<noteq> CHR ''-'' then None
          else map_option (Pair (drop 2 opt)) (find_prefs_desc (drop 2 opt)))"

fun parse_args :: "string option list \<Rightarrow> prefs \<Rightarrow> prefs_error + (string option list \<times> prefs)" where
  "parse_args [] ps = Inr ([], ps)"
| "parse_args [arg] ps = Inr ([if option_desc arg = None then arg else None], ps)"
| "parse_args (arg # v # args) ps =
     (case option_desc arg of
        None \<Rightarrow> map_sum id (map_prod ((#) arg) id) (parse_args (v # args) ps)
      | Some (keyword, d) \<Rightarrow>
          (case v of
             None \<Rightarrow> Inl Null_value
           | Some value \<Rightarrow> map_sum id (map_prod (\<lambda>as. None # None # as) id) (parse_args args (apply_option d keyword value ps))))"

text \<open>The removal of the processed arguments: at each position, the next argument that is left is moved there.\<close>

fun next_arg :: "string option list \<Rightarrow> nat \<Rightarrow> nat \<Rightarrow> nat" where
  "next_arg argv k 0 = k"
| "next_arg argv k (Suc n) = (if argv ! k \<noteq> None then k else next_arg argv (k + 1) n)"

definition shift_args :: "nat \<Rightarrow> nat \<Rightarrow> nat \<Rightarrow> string option list \<Rightarrow> string option list" where
  "shift_args i k argc argv = fold (\<lambda>j argv. argv[j - k := argv ! j]) [i + k..<argc] argv"

function remove_args :: "nat \<Rightarrow> nat \<Rightarrow> string option list \<Rightarrow> nat \<times> string option list" where
  "remove_args i argc argv =
     (if i < argc
      then let k = next_arg argv i (argc - i)
           in if k > i then remove_args (i + 1) (argc - (k - i)) (shift_args i (k - i) argc argv)
              else remove_args (i + 1) argc argv
      else (argc, argv))"
  by pat_completeness auto
termination by (relation "measure (\<lambda>(i, argc, argv). argc - i)") auto

declare remove_args.simps [simp del]

text \<open>
  \<^verbatim>\<open>PrefsInit\<close>: defaults, the settings file (\<open>None\<close>: there is none, and the defaults are saved), the
  command line, and the arguments that remain.
\<close>

record host_files =
  devfs :: bool
  use_jit :: bool
  sound_dsp :: bool
  sound_mixer :: bool
  prefs_file :: "string option"

definition PrefsInit :: "host_files \<Rightarrow> string \<Rightarrow> string option list \<Rightarrow> prefs \<Rightarrow>
    prefs_error + (prefs \<times> string \<times> nat \<times> string option list)" where
  "PrefsInit h line argv ps =
     (let ps = AddPlatformPrefsDefaults (sound_dsp h) (sound_mixer h) (AddPrefsDefaults (devfs h) (use_jit h) ps);
          file = (case prefs_file h of None \<Rightarrow> SavePrefsToStream ps | Some f \<Rightarrow> f)
      in case (case prefs_file h of None \<Rightarrow> Inr ps | Some f \<Rightarrow> LoadPrefsFromStream line f ps) of
           Inl e \<Rightarrow> Inl e
         | Inr ps \<Rightarrow>
             (case parse_args (drop 1 argv) ps of
                Inl e \<Rightarrow> Inl e
              | Inr (args, ps) \<Rightarrow>
                  (let argv = take 1 argv @ args in Inr (ps, file, remove_args 1 (length argv) argv))))"

section \<open>The list as a table of values\<close>

text \<open>The values of one type that a name has, in order.\<close>

definition vals :: "prefs_type \<Rightarrow> string \<Rightarrow> prefs \<Rightarrow> prefs_data list" where
  "vals t name ps = map pn_data (filter (\<lambda>p. pn_name p = name \<and> data_type (pn_data p) = t) ps)"

lemma vals_simps [simp]:
  "vals t name [] = []"
  "vals t name (p # ps) = (if pn_name p = name \<and> data_type (pn_data p) = t then pn_data p # vals t name ps else vals t name ps)"
  "vals t name (ps @ qs) = vals t name ps @ vals t name qs"
  by (simp_all add: vals_def)

lemma find_node_vals:
  assumes "t \<noteq> TYPE_ANY"
  shows "case find_node ps name t i of
      None \<Rightarrow> length (vals t name ps) \<le> i
    | Some k \<Rightarrow> i < length (vals t name ps) \<and> k < length ps \<and> pn_data (ps ! k) = vals t name ps ! i"
proof (induction ps arbitrary: i)
  case (Cons p ps)
  show ?case
  proof (cases "data_type (pn_data p) = t \<and> pn_name p = name")
    case True
    then show ?thesis using Cons.IH[of "i - 1"] by (cases i) (auto split: option.splits)
  next
    case False
    then show ?thesis using Cons.IH[of i] assms by (auto split: option.splits)
  qed
qed simp

lemma PrefsFindString_vals:
  "PrefsFindString ps name i =
     (if i < length (vals TYPE_STRING name ps)
      then case vals TYPE_STRING name ps ! i of PString s \<Rightarrow> Some s | _ \<Rightarrow> None else None)"
  using find_node_vals[of TYPE_STRING name ps i] by (auto simp: PrefsFindString_def split: option.splits)

lemma PrefsFindBool_vals:
  "PrefsFindBool ps name = (case vals TYPE_BOOLEAN name ps of PBool b # _ \<Rightarrow> b | _ \<Rightarrow> False)"
  using find_node_vals[of TYPE_BOOLEAN name ps 0]
  by (cases "vals TYPE_BOOLEAN name ps") (auto simp: PrefsFindBool_def split: option.splits)

lemma PrefsFindInt32_vals:
  "PrefsFindInt32 ps name = (case vals TYPE_INT32 name ps of PInt32 v # _ \<Rightarrow> v | _ \<Rightarrow> 0)"
  using find_node_vals[of TYPE_INT32 name ps 0]
  by (cases "vals TYPE_INT32 name ps") (auto simp: PrefsFindInt32_def split: option.splits)

lemma data_type_not_any [simp]: "data_type d \<noteq> TYPE_ANY"
  by (cases d) simp_all

lemma vals_update:
  assumes "find_node ps name (data_type d) i = Some k"
  shows "vals t name' (ps[k := (ps ! k)\<lparr>pn_data := d\<rparr>]) =
    (if t = data_type d \<and> name' = name then (vals t name' ps)[i := d] else vals t name' ps)"
  using assms
proof (induction ps arbitrary: i k)
  case (Cons p ps)
  show ?case
  proof (cases "data_type (pn_data p) = data_type d \<and> pn_name p = name")
    case True
    then show ?thesis using Cons by (cases i) auto
  next
    case False
    then obtain k' where "k = Suc k'" "find_node ps name (data_type d) i = Some k'" using Cons.prems by auto
    then show ?thesis using Cons.IH[of i k'] False by auto
  qed
qed simp

lemma vals_replace_data:
  "vals t name' (replace_data name d i ps) =
    (if t = data_type d \<and> name' = name
     then if i < length (vals t name ps) then (vals t name ps)[i := d] else vals t name ps @ [d]
     else vals t name' ps)"
proof (cases "find_node ps name (data_type d) i")
  case None
  then show ?thesis
    using find_node_vals[of "data_type d" name ps i] by (auto simp: replace_data_def add_data_def)
next
  case (Some k)
  then show ?thesis
    using find_node_vals[of "data_type d" name ps i] vals_update[OF Some] by (auto simp: replace_data_def)
qed

lemma vals_add_data:
  "vals t name' (add_data name d ps) = (if t = data_type d \<and> name' = name then vals t name ps @ [d] else vals t name' ps)"
  by (auto simp: add_data_def)

lemma vals_type: "x \<in> set (vals t name ps) \<Longrightarrow> data_type x = t"
  by (auto simp: vals_def)

lemma data_type_cases:
  "data_type x = TYPE_STRING \<longleftrightarrow> (\<exists>s. x = PString s)" "data_type x = TYPE_BOOLEAN \<longleftrightarrow> (\<exists>b. x = PBool b)"
  "data_type x = TYPE_INT32 \<longleftrightarrow> (\<exists>v. x = PInt32 v)"
  by (cases x; simp)+

text \<open>
  What an access sees of the operations on the list: an added string comes behind those of its name, a
  replaced item takes the place of the one with its index or is added when there is none, and every other
  item is as before.
\<close>

theorem prefs_access:
  shows "PrefsFindString (PrefsReplaceString name s i ps) name' j =
      (if name' = name \<and> j = min i (length (vals TYPE_STRING name ps)) then Some s else PrefsFindString ps name' j) \<and>
    PrefsFindString (PrefsAddString name s ps) name' j =
      (if name' = name \<and> j = length (vals TYPE_STRING name ps) then Some s else PrefsFindString ps name' j) \<and>
    PrefsFindBool (PrefsReplaceBool name b ps) name' = (if name' = name then b else PrefsFindBool ps name') \<and>
    PrefsFindInt32 (PrefsReplaceInt32 name v ps) name' = (if name' = name then v else PrefsFindInt32 ps name') \<and>
    PrefsFindBool (PrefsReplaceString name s i ps) name' = PrefsFindBool ps name' \<and>
    PrefsFindInt32 (PrefsReplaceString name s i ps) name' = PrefsFindInt32 ps name'"
proof (intro conjI)
  show "PrefsFindString (PrefsReplaceString name s i ps) name' j =
      (if name' = name \<and> j = min i (length (vals TYPE_STRING name ps)) then Some s else PrefsFindString ps name' j)"
    by (auto simp: PrefsFindString_vals PrefsReplaceString_def vals_replace_data nth_append nth_list_update min_def)
  show "PrefsFindString (PrefsAddString name s ps) name' j =
      (if name' = name \<and> j = length (vals TYPE_STRING name ps) then Some s else PrefsFindString ps name' j)"
    by (auto simp: PrefsFindString_vals PrefsAddString_def vals_add_data nth_append)
  show "PrefsFindBool (PrefsReplaceBool name b ps) name' = (if name' = name then b else PrefsFindBool ps name')"
    by (cases "vals TYPE_BOOLEAN name ps") (auto simp: PrefsFindBool_vals PrefsReplaceBool_def vals_replace_data)
  show "PrefsFindInt32 (PrefsReplaceInt32 name v ps) name' = (if name' = name then v else PrefsFindInt32 ps name')"
    by (cases "vals TYPE_INT32 name ps") (auto simp: PrefsFindInt32_vals PrefsReplaceInt32_def vals_replace_data)
qed (simp_all add: PrefsFindBool_vals PrefsFindInt32_vals PrefsReplaceString_def vals_replace_data)

lemma find_node_any:
  "find_node ps name TYPE_ANY i = Some k \<Longrightarrow> k < length ps \<and> pn_name (ps ! k) = name"
proof (induction ps arbitrary: i k)
  case (Cons p ps)
  then show ?case by (cases i) (fastforce split: if_splits)+
qed simp

lemma vals_remove:
  assumes "k < length ps" "pn_name (ps ! k) \<noteq> name"
  shows "vals t name (take k ps @ drop (Suc k) ps) = vals t name ps"
proof -
  have "ps = take k ps @ ps ! k # drop (Suc k) ps" using assms(1) by (rule id_take_nth_drop)
  then have "vals t name ps = vals t name (take k ps @ ps ! k # drop (Suc k) ps)" by (rule arg_cong)
  then show ?thesis using assms(2) by simp
qed

text \<open>
  Removing an item keeps the strings of every other name, unless it is the first item of the
  list: then all items are lost.
\<close>

theorem prefs_remove:
  assumes "find_node ps name TYPE_ANY i = Some k" "name' \<noteq> name"
  shows "PrefsFindString (PrefsRemoveItem name i ps) name' j = (if k = 0 then None else PrefsFindString ps name' j)"
  using assms find_node_any[OF assms(1)] vals_remove[of k ps name' TYPE_STRING]
  by (auto simp: PrefsRemoveItem_def PrefsFindString_vals)

theorem prefs_remove_witness:
  "PrefsFindString (PrefsRemoveItem ''rom'' 0 (PrefsAddString ''disk'' ''b'' (PrefsAddString ''rom'' ''a'' []))) ''disk'' 0 = None"
  using prefs_remove[of "PrefsAddString ''disk'' ''b'' (PrefsAddString ''rom'' ''a'' [])" "''rom''" 0 0 "''disk''" 0]
  by (simp add: PrefsAddString_def add_data_def)

section \<open>Reading what was written\<close>

text \<open>A keyword and a value that survive on a line of the file.\<close>

definition good_line :: "string \<Rightarrow> string \<Rightarrow> bool" where
  "good_line name v \<longleftrightarrow> name \<noteq> [] \<and> (\<forall>c \<in> set name. \<not> isspace c \<and> c \<noteq> nul) \<and> hd name \<noteq> CHR ''#'' \<and> hd name \<noteq> CHR '';'' \<and>
     newline \<notin> set v \<and> nul \<notin> set v \<and> (v = [] \<or> \<not> isspace (hd v)) \<and> length name + length v + 2 \<le> 254"

lemma fgets_line:
  "newline \<notin> set s \<Longrightarrow> length s < n \<Longrightarrow> fgets n (s @ newline # rest) = (s @ [newline], rest)"
proof (induction s arbitrary: n)
  case Nil
  then show ?case by (cases n) simp_all
next
  case (Cons c s)
  then obtain n' where "n = Suc n'" by (cases n) auto
  then show ?case using Cons by auto
qed

lemma scan_append: "(\<forall>c \<in> set xs. \<not> P c) \<Longrightarrow> P c \<Longrightarrow> scan P (xs @ c # ys) = Some (length xs)"
  by (induction xs) auto

lemma c_string_append: "nul \<notin> set xs \<Longrightarrow> c_string (xs @ nul # ys) 0 = xs"
  by (auto simp: c_string_def takeWhile_append)

lemma isspace_nul [simp]: "\<not> isspace nul" "isspace CHR '' ''" "isspace newline"
  by (simp_all add: isspace_def newline_def)

lemma load_good_line:
  assumes "good_line name v"
  shows "load_line (pref_line name v @ nul # rest) ps = Inr (name @ nul # v @ nul # nul # rest, set_pref name v ps)"
proof -
  let ?b1 = "name @ CHR '' '' # v @ nul # nul # rest"
  let ?b2 = "name @ nul # v @ nul # nul # rest"
  have g: "name \<noteq> []" "\<forall>c \<in> set name. \<not> isspace c" "nul \<notin> set name" "nul \<notin> set v" "v = [] \<or> \<not> isspace (hd v)"
    using assms by (auto simp: good_line_def)
  have c: "c_string (pref_line name v @ nul # rest) 0 = pref_line name v"
    using g(3,4) by (intro c_string_append) (auto simp: pref_line_def newline_def)
  have n: "length (pref_line name v) \<noteq> 0" by (simp add: pref_line_def)
  have u: "(pref_line name v @ nul # rest)[length (pref_line name v) - 1 := nul] = ?b1"
    by (simp add: pref_line_def list_update_append)
  have h: "\<not> (?b1 ! 0 = CHR ''#'' \<or> ?b1 ! 0 = CHR '';'')" using assms by (cases name) (auto simp: good_line_def)
  have s1: "scan isspace ?b1 = Some (length name)" using g(2) by (intro scan_append) simp_all
  have u2: "?b1[length name := nul] = ?b2" by (simp add: list_update_append)
  have d: "drop (length name + 1) ?b2 = v @ nul # nul # rest" by simp
  have s2: "scan (\<lambda>c. \<not> isspace c) (v @ nul # nul # rest) = Some 0" using g(5) by (cases v) auto
  have k: "c_string ?b2 0 = name" using c_string_append[OF g(3)] by simp
  have k2: "c_string ?b2 (length name + 1 + 0) = v"
    using c_string_append[OF g(4), of "nul # rest"] by (simp add: c_string_def)
  show ?thesis unfolding load_line_def Let_def c u by (simp only: n h s1 u2 d s2 k k2 if_False option.case)
qed

lemma load_loop_Nil: "load_loop line [] ps = Inr ps"
  by simp

lemma load_loop_step:
  assumes "fgets 254 f = (a, f')" "f \<noteq> []" "load_line (a @ nul # drop (length a + 1) line) ps = Inr (line', ps')"
  shows "load_loop line f ps = load_loop line' f' ps'"
  using assms by (subst load_loop.simps) (simp del: load_loop.simps)

declare load_loop.simps [simp del] show_nat.simps [simp del]

lemma load_lines:
  assumes "\<forall>(name, v) \<in> set L. good_line name v"
  shows "load_loop line (concat (map (\<lambda>(name, v). pref_line name v) L)) ps = Inr (fold (\<lambda>(name, v). set_pref name v) L ps)"
  using assms
proof (induction L arbitrary: line ps)
  case (Cons x L)
  obtain name v where x: "x = (name, v)" by (cases x)
  let ?f = "concat (map (\<lambda>(name, v). pref_line name v) L)"
  have g: "good_line name v" using Cons.prems(1) x by simp
  have "newline \<notin> set (name @ '' '' @ v)" using g by (auto simp: good_line_def newline_def isspace_def)
  moreover have "length (name @ '' '' @ v) < 254" using g by (simp add: good_line_def)
  ultimately have "fgets 254 (pref_line name v @ ?f) = (pref_line name v, ?f)"
    using fgets_line[of "name @ '' '' @ v" 254 ?f] by (simp add: pref_line_def)
  moreover have "pref_line name v @ ?f \<noteq> []" by (simp add: pref_line_def)
  ultimately show ?case using load_loop_step[OF _ _ load_good_line[OF g]] Cons.IH Cons.prems x by simp
qed (simp add: load_loop_Nil)

section \<open>Numbers come back\<close>

lemma of_char_digit: "n < 10 \<Longrightarrow> (of_char (digit n) :: nat) = 48 + n"
  by (simp add: digit_def)

lemma is_digit_digit: "n < 10 \<Longrightarrow> is_digit (digit n)"
  by (simp add: is_digit_def of_char_digit)

lemma digit_int: "n < 10 \<Longrightarrow> (of_char (digit n) :: int) = 48 + int n"
  using of_char_digit[of n] by (metis of_nat_add of_nat_numeral of_nat_of_char)

lemma show_nat_digits: "\<forall>c \<in> set (show_nat n). is_digit c"
proof (induction n rule: show_nat.induct)
  case (1 n)
  then show ?case by (subst show_nat.simps) (auto simp: is_digit_digit)
qed

lemma show_nat_value: "fold (\<lambda>c v. 10 * v + (of_char c - 48)) (show_nat n) 0 = int n"
proof (induction n rule: show_nat.induct)
  case (1 n)
  show ?case
  proof (cases "n < 10")
    case True
    then show ?thesis by (subst show_nat.simps) (simp add: digit_int)
  next
    case False
    have "fold (\<lambda>c v. 10 * v + (of_char c - 48)) (show_nat n) 0 = 10 * int (n div 10) + int (n mod 10)"
      using False 1 by (subst show_nat.simps) (simp add: digit_int)
    also have "\<dots> = int (10 * (n div 10) + n mod 10)" by (simp only: of_nat_add of_nat_mult of_nat_numeral)
    finally show ?thesis by (simp only: mult_div_mod_eq)
  qed
qed

lemma digits_value_show_nat: "digits_value (show_nat n) = int n"
proof -
  have "takeWhile is_digit (show_nat n) = show_nat n" using show_nat_digits[of n] by (auto simp: takeWhile_eq_all_conv)
  then show ?thesis unfolding digits_value_def by (simp only: show_nat_value)
qed

lemma digit_not_special:
  assumes "is_digit c" shows "\<not> isspace c" "c \<noteq> CHR ''-''" "c \<noteq> CHR ''+''" "c \<noteq> nul" "c \<noteq> newline"
  using assms by (auto simp: is_digit_def isspace_def newline_def)

lemma show_nat_not_Nil [simp]: "show_nat n \<noteq> []"
  by (subst show_nat.simps) simp

lemma show_int_chars: "c \<in> set (show_int i) \<Longrightarrow> c = CHR ''-'' \<or> is_digit c" "show_int i \<noteq> []"
  using show_nat_digits by (auto simp: show_int_def split: if_splits)

lemma atol_show_int:
  assumes "- (2 ^ 63) \<le> i" "i < 2 ^ 63"
  shows "atol (show_int i) = i"
proof -
  have hd_digit: "\<exists>c cs. show_nat n = c # cs \<and> is_digit c" for n
    using show_nat_digits[of n] by (cases "show_nat n") auto
  show ?thesis
  proof (cases "i < 0")
    case True
    then show ?thesis using assms by (simp add: atol_def show_int_def isspace_def digits_value_show_nat)
  next
    case False
    obtain c cs where c: "show_nat (nat i) = c # cs" "is_digit c" using hd_digit by blast
    then show ?thesis
      using False assms digit_not_special[OF c(2)] digits_value_show_nat[of "nat i"] by (simp add: atol_def show_int_def)
  qed
qed

lemma atol_show_sint: "word_of_int (atol (show_int (sint (v :: u32)))) = v"
proof -
  have "- (2 ^ 31) \<le> sint v" "sint v < 2 ^ 31" using sint_range_size[of v] by (auto simp: word_size)
  then have "atol (show_int (sint v)) = sint v" by (intro atol_show_int) simp_all
  then show ?thesis by simp
qed


section \<open>Saving and loading\<close>

abbreviation all_items :: "prefs_desc list" where
  "all_items \<equiv> common_prefs_items @ platform_prefs_items"

definition saved_lines :: "prefs \<Rightarrow> (string \<times> string) list" where
  "saved_lines ps = concat (map (\<lambda>d. map (Pair (pd_name d)) (desc_values ps d)) all_items)"

lemma concat_map_concat: "concat (map (\<lambda>d. concat (g d)) ds) = concat (concat (map g ds))"
  by (induction ds) simp_all

lemma SavePrefs_lines: "SavePrefsToStream ps = concat (map (\<lambda>(name, v). pref_line name v) (saved_lines ps))"
  by (simp add: SavePrefsToStream_def write_prefs_def saved_lines_def map_concat comp_def concat_map_concat)

lemma items_keywords: "\<forall>d \<in> set all_items. pd_name d \<noteq> [] \<and> (\<forall>c \<in> set (pd_name d). \<not> isspace c \<and> c \<noteq> nul) \<and>
    hd (pd_name d) \<noteq> CHR ''#'' \<and> hd (pd_name d) \<noteq> CHR '';'' \<and> length (pd_name d) \<le> 16"
  by (simp add: common_prefs_items_def platform_prefs_items_def isspace_def)

lemma find_prefs_desc_filter:
  "find_prefs_desc name = (case filter (\<lambda>x. pd_name x = name) all_items of [] \<Rightarrow> None | d # _ \<Rightarrow> Some d)"
proof -
  have f: "find_prefs_desc_in name ds = (case filter (\<lambda>x. pd_name x = name) ds of [] \<Rightarrow> None | d # _ \<Rightarrow> Some d)" for ds
    by (induction ds) auto
  show ?thesis unfolding find_prefs_desc_def f by (auto split: list.splits)
qed

lemma items_types: "\<forall>d \<in> set all_items. pd_type d \<noteq> TYPE_ANY"
  by (simp add: common_prefs_items_def platform_prefs_items_def)

text \<open>The keywords are distinct, but for \<^verbatim>\<open>ignoresegv\<close>, which both lists have.\<close>

definition item_names :: "string list" where
  "item_names =
    [''disk'', ''floppy'', ''cdrom'', ''extfs'', ''scsi0'', ''scsi1'', ''scsi2'', ''scsi3'', ''scsi4'',
     ''scsi5'', ''scsi6'', ''screen'', ''windowmodes'', ''screenmodes'', ''seriala'', ''serialb'', ''rom'',
     ''bootdrive'', ''bootdriver'', ''ramsize'', ''frameskip'', ''gfxaccel'', ''nocdrom'', ''nonet'',
     ''nosound'', ''nogui'', ''noclipconversion'', ''ignoreillegal'', ''jit'', ''jit68k'', ''keyboardtype'',
     ''ether'', ''etherconfig'', ''keycodes'', ''keycodefile'', ''mousewheelmode'', ''mousewheellines'',
     ''dsp'', ''mixer'', ''idlewait'']"

lemma item_names_distinct: "distinct item_names"
  by code_simp

lemma items_distinct:
  "distinct (map pd_name (filter (\<lambda>d. pd_name d \<noteq> ''ignoresegv'') all_items))"
  "filter (\<lambda>d. pd_name d = ''ignoresegv'') all_items = replicate 2 (desc ''ignoresegv'' TYPE_BOOLEAN False)"
proof -
  have "map pd_name (filter (\<lambda>d. pd_name d \<noteq> ''ignoresegv'') all_items) = item_names"
    by (simp add: common_prefs_items_def platform_prefs_items_def item_names_def)
  then show "distinct (map pd_name (filter (\<lambda>d. pd_name d \<noteq> ''ignoresegv'') all_items))"
    using item_names_distinct by simp
qed (simp add: common_prefs_items_def platform_prefs_items_def eval_nat_numeral)

lemma filter_distinct_key: "distinct (map f xs) \<Longrightarrow> d \<in> set xs \<Longrightarrow> filter (\<lambda>x. f x = f d) xs = [d]"
  by (induction xs) (auto simp: filter_empty_conv rev_image_eqI)

lemma items_once:
  assumes "d \<in> set all_items"
  shows "filter (\<lambda>x. pd_name x = pd_name d) all_items = [d] \<or>
     pd_type d \<noteq> TYPE_STRING \<and> filter (\<lambda>x. pd_name x = pd_name d) all_items = [d, d]"
proof -
  define L where "L = all_items"
  define n where "n = ''ignoresegv''"
  note I = items_distinct[folded L_def n_def]
  have d: "d \<in> set L" using assms by (simp only: L_def)
  have "filter (\<lambda>x. pd_name x = pd_name d) L = [d] \<or>
     pd_type d \<noteq> TYPE_STRING \<and> filter (\<lambda>x. pd_name x = pd_name d) L = [d, d]"
  proof (cases "pd_name d = n")
    case True
    then have "d \<in> set (filter (\<lambda>d. pd_name d = n) L)" using d by simp
    then have "d = desc n TYPE_BOOLEAN False" unfolding I(2) by simp
    then show ?thesis using I(2) by (simp add: eval_nat_numeral)
  next
    case False
    then have "d \<in> set (filter (\<lambda>d. pd_name d \<noteq> n) L)" using d by simp
    from filter_distinct_key[OF I(1) this]
    have "filter (\<lambda>x. pd_name x \<noteq> n \<and> pd_name x = pd_name d) L = [d]" by (simp add: filter_filter)
    moreover have "filter (\<lambda>x. pd_name x = pd_name d) L = filter (\<lambda>x. pd_name x \<noteq> n \<and> pd_name x = pd_name d) L"
      using False by (intro filter_cong) auto
    ultimately show ?thesis by (intro disjI1) (rule trans)
  qed
  then show ?thesis by (simp only: L_def)
qed

lemma items_found: "d \<in> set all_items \<Longrightarrow> find_prefs_desc (pd_name d) = Some d"
  unfolding find_prefs_desc_filter using items_once[of d] by auto

text \<open>The effect of one line on the values of its name.\<close>

fun put_first :: "prefs_data \<Rightarrow> prefs_data list \<Rightarrow> prefs_data list" where
  "put_first d [] = [d]" | "put_first d (_ # xs) = d # xs"

definition line_effect :: "prefs_desc \<Rightarrow> string \<Rightarrow> prefs_data list \<Rightarrow> prefs_data list" where
  "line_effect d v xs =
     (case pd_type d of
        TYPE_STRING \<Rightarrow> if multiple d then xs @ [PString v] else put_first (PString v) xs
      | TYPE_BOOLEAN \<Rightarrow> put_first (PBool (v = ''true'')) xs
      | TYPE_INT32 \<Rightarrow> put_first (PInt32 (of_int (atol v))) xs
      | TYPE_ANY \<Rightarrow> xs)"

lemma put_first_update: "xs \<noteq> [] \<Longrightarrow> xs[0 := d] = put_first d xs"
  by (cases xs) simp_all

lemma vals_set_pref:
  assumes "find_prefs_desc name = Some d" "pd_type d \<noteq> TYPE_ANY"
  shows "vals (pd_type d) name (set_pref name v ps) = line_effect d v (vals (pd_type d) name ps)"
  using assms
  by (cases "pd_type d")
    (simp_all add: set_pref_def line_effect_def PrefsAddString_def PrefsReplaceString_def PrefsReplaceBool_def
      PrefsReplaceInt32_def vals_add_data vals_replace_data put_first_update)

lemma vals_set_pref_other: "m \<noteq> name \<Longrightarrow> vals t name (set_pref m v ps) = vals t name ps"
  by (auto simp: set_pref_def PrefsAddString_def PrefsReplaceString_def PrefsReplaceBool_def PrefsReplaceInt32_def
      vals_add_data vals_replace_data split: option.splits prefs_type.splits)

lemma vals_fold:
  assumes "find_prefs_desc name = Some d" "pd_type d \<noteq> TYPE_ANY"
  shows "vals (pd_type d) name (fold (\<lambda>(name, v). set_pref name v) L ps) =
    fold (line_effect d) (map snd (filter (\<lambda>x. fst x = name) L)) (vals (pd_type d) name ps)"
  using vals_set_pref[OF assms] vals_set_pref_other
  by (induction L arbitrary: ps) auto

lemma filter_saved_lines:
  "map snd (filter (\<lambda>x. fst x = name) (concat (map (\<lambda>d. map (Pair (pd_name d)) (f d)) ds))) =
   concat (map f (filter (\<lambda>d. pd_name d = name) ds))"
  by (induction ds) (auto simp: filter_map comp_def)

definition string_of :: "prefs_data \<Rightarrow> string" where
  "string_of x = (case x of PString s \<Rightarrow> s | _ \<Rightarrow> [])"

lemma all_strings_vals:
  "all_strings ps name i k = map string_of (take k (drop i (vals TYPE_STRING name ps)))"
proof (induction k arbitrary: i)
  case (Suc k)
  show ?case
  proof (cases "i < length (vals TYPE_STRING name ps)")
    case True
    then obtain s where "vals TYPE_STRING name ps ! i = PString s"
      using vals_type[OF nth_mem[OF True]] by (auto simp: data_type_cases)
    moreover have "take (Suc k) (drop i xs) = xs ! i # take k (drop (Suc i) xs)" if "i < length xs" for xs :: "prefs_data list"
      using that by (simp add: Cons_nth_drop_Suc[symmetric])
    ultimately show ?thesis using True Suc by (simp add: PrefsFindString_vals string_of_def)
  qed (simp add: PrefsFindString_vals)
qed simp

lemma desc_values_string:
  assumes "pd_type d = TYPE_STRING"
  shows "map PString (desc_values ps d) = vals TYPE_STRING (pd_name d) ps"
proof -
  have "length (vals TYPE_STRING (pd_name d) ps) \<le> length ps" unfolding vals_def by simp
  moreover have "map (PString \<circ> string_of) (vals TYPE_STRING (pd_name d) ps) = vals TYPE_STRING (pd_name d) ps"
    by (rule map_idI) (auto dest!: vals_type simp: data_type_cases string_of_def)
  ultimately show ?thesis using assms by (simp add: desc_values_def all_strings_vals)
qed

text \<open>Strings that a line of the file can hold.\<close>

definition storable :: "prefs \<Rightarrow> bool" where
  "storable ps \<longleftrightarrow> (\<forall>d \<in> set all_items. pd_type d = TYPE_STRING \<longrightarrow>
     (\<not> multiple d \<longrightarrow> length (vals TYPE_STRING (pd_name d) ps) \<le> 1) \<and>
     (\<forall>s. PString s \<in> set (vals TYPE_STRING (pd_name d) ps) \<longrightarrow>
        newline \<notin> set s \<and> nul \<notin> set s \<and> (s = [] \<or> \<not> isspace (hd s)) \<and> length s \<le> 236))"

lemma show_int_length: "length (show_int (sint (v :: u32))) \<le> 11"
proof -
  have len: "n < 10 ^ k \<Longrightarrow> 0 < k \<Longrightarrow> length (show_nat n) \<le> k" for n k
  proof (induction n arbitrary: k rule: show_nat.induct)
    case (1 n)
    show ?case
    proof (cases "n < 10")
      case True
      then show ?thesis using 1(3) by (subst show_nat.simps) simp
    next
      case False
      then obtain k' where k: "k = Suc k'" "0 < k'" using 1(2,3) by (cases k; cases "k - 1") auto
      then have "n div 10 < 10 ^ k'" using 1(2) by (simp add: less_mult_imp_div_less mult.commute)
      then show ?thesis using 1(1)[OF False _ k(2)] False k by (subst show_nat.simps) simp
    qed
  qed
  have "\<bar>sint v\<bar> \<le> 2 ^ 31" using sint_range_size[of v] by (auto simp: word_size)
  then have "nat \<bar>sint v\<bar> < 10 ^ 10" by simp
  from len[OF this] show ?thesis by (auto simp: show_int_def abs_if split: if_splits)
qed

definition good_value :: "string \<Rightarrow> bool" where
  "good_value v \<longleftrightarrow> newline \<notin> set v \<and> nul \<notin> set v \<and> (v = [] \<or> \<not> isspace (hd v)) \<and> length v \<le> 236"

lemma good_value_int: "good_value (show_int (sint (i :: u32)))"
proof -
  let ?v = "show_int (sint i)"
  have "\<not> isspace c \<and> c \<noteq> nul \<and> c \<noteq> newline" if "c \<in> set ?v" for c
    using show_int_chars(1)[OF that] digit_not_special[of c] by (auto simp: isspace_def newline_def)
  moreover from this have "\<not> isspace (hd ?v)" using show_int_chars(2)[of "sint i"] by simp
  ultimately show ?thesis using show_int_length[of i] unfolding good_value_def by auto
qed

lemma good_value_bool: "good_value ''true''" "good_value ''false''"
  by (simp_all add: good_value_def newline_def isspace_def)

lemma good_value_desc:
  assumes "storable ps" "d \<in> set all_items" "v \<in> set (desc_values ps d)"
  shows "good_value v"
proof (cases "pd_type d")
  case TYPE_STRING
  have "PString v \<in> set (map PString (desc_values ps d))" using assms(3) by simp
  then have "PString v \<in> set (vals TYPE_STRING (pd_name d) ps)" unfolding desc_values_string[OF TYPE_STRING] .
  then show ?thesis using bspec[OF assms(1)[unfolded storable_def] assms(2)] TYPE_STRING by (simp add: good_value_def)
qed (use assms(3) good_value_int good_value_bool in \<open>simp_all add: desc_values_def split: if_splits\<close>)

lemma saved_lines_good:
  assumes "storable ps" "(name, v) \<in> set (saved_lines ps)"
  shows "good_line name v"
proof -
  obtain d where d: "d \<in> set all_items" "name = pd_name d" "v \<in> set (desc_values ps d)"
    using assms(2) unfolding saved_lines_def set_concat set_map UN_iff image_iff bex_simps prod.inject by (elim bexE conjE) (rule that, simp_all only:)
  have "good_value v" by (rule good_value_desc[OF assms(1) d(1,3)])
  moreover have "pd_name d \<noteq> [] \<and> (\<forall>c \<in> set (pd_name d). \<not> isspace c \<and> c \<noteq> nul) \<and>
        hd (pd_name d) \<noteq> CHR ''#'' \<and> hd (pd_name d) \<noteq> CHR '';'' \<and> length (pd_name d) \<le> 16"
    using items_keywords d(1) by (rule bspec)
  ultimately show ?thesis unfolding d(2) good_line_def good_value_def by (simp only: simp_thms) simp
qed

lemma fold_add_strings: "fold (\<lambda>v xs. xs @ [PString v]) vs xs = xs @ map PString vs"
  by (induction vs arbitrary: xs) simp_all

text \<open>
  What the settings loaded before (the defaults) may hold so that the file decides every string: nothing for
  an item with several values, and for the others a value only when the file has one too.
\<close>

definition decided_by :: "prefs \<Rightarrow> prefs \<Rightarrow> bool" where
  "decided_by ps0 ps \<longleftrightarrow> (\<forall>d \<in> set all_items. pd_type d = TYPE_STRING \<longrightarrow>
     (if multiple d then vals TYPE_STRING (pd_name d) ps0 = []
      else length (vals TYPE_STRING (pd_name d) ps0) \<le> length (vals TYPE_STRING (pd_name d) ps)))"

definition same_prefs :: "prefs \<Rightarrow> prefs \<Rightarrow> bool" where
  "same_prefs ps' ps \<longleftrightarrow> (\<forall>d \<in> set (common_prefs_items @ platform_prefs_items). case pd_type d of
        TYPE_STRING \<Rightarrow> \<forall>i. PrefsFindString ps' (pd_name d) i = PrefsFindString ps (pd_name d) i
      | TYPE_BOOLEAN \<Rightarrow> PrefsFindBool ps' (pd_name d) = PrefsFindBool ps (pd_name d)
      | TYPE_INT32 \<Rightarrow> PrefsFindInt32 ps' (pd_name d) = PrefsFindInt32 ps (pd_name d)
      | TYPE_ANY \<Rightarrow> False)"

lemma put_first_twice [simp]: "put_first x (put_first y xs) = put_first x xs"
  by (cases xs) simp_all

text \<open>The values of a string item after its own lines have been read.\<close>

lemma reload_strings:
  assumes "pd_type d = TYPE_STRING" "\<not> multiple d \<Longrightarrow> length (vals TYPE_STRING (pd_name d) ps) \<le> 1"
    "if multiple d then xs = [] else length xs \<le> length (vals TYPE_STRING (pd_name d) ps)"
  shows "fold (line_effect d) (desc_values ps d) xs = vals TYPE_STRING (pd_name d) ps"
proof -
  have v: "map PString (desc_values ps d) = vals TYPE_STRING (pd_name d) ps" using desc_values_string[OF assms(1)] .
  show ?thesis
  proof (cases "multiple d")
    case True
    then have "line_effect d = (\<lambda>v xs. xs @ [PString v])" using assms(1) by (simp add: fun_eq_iff line_effect_def)
    then show ?thesis using assms(3) True v by (simp add: fold_add_strings)
  next
    case False
    then have "length (desc_values ps d) \<le> 1" "length xs \<le> length (desc_values ps d)"
      using assms(2,3) unfolding v[symmetric] by simp_all
    then show ?thesis using assms(1) v[symmetric] False
      by (cases "desc_values ps d"; cases xs) (simp_all add: line_effect_def)
  qed
qed

lemma reload_values:
  assumes "storable ps" "decided_by ps0 ps" "d \<in> set all_items"
  shows "fold (line_effect d) (concat (map (desc_values ps) (filter (\<lambda>x. pd_name x = pd_name d) all_items)))
      (vals (pd_type d) (pd_name d) ps0) =
    (case pd_type d of
       TYPE_STRING \<Rightarrow> vals TYPE_STRING (pd_name d) ps
     | TYPE_BOOLEAN \<Rightarrow> put_first (PBool (PrefsFindBool ps (pd_name d))) (vals TYPE_BOOLEAN (pd_name d) ps0)
     | TYPE_INT32 \<Rightarrow> put_first (PInt32 (PrefsFindInt32 ps (pd_name d))) (vals TYPE_INT32 (pd_name d) ps0)
     | TYPE_ANY \<Rightarrow> [])" (is "fold _ (concat (map _ ?F)) ?xs = ?r")
proof -
  define F where "F = ?F"
  have e: "F = [d] \<or> pd_type d \<noteq> TYPE_STRING \<and> F = [d, d]" unfolding F_def by (rule items_once[OF assms(3)])
  note st = bspec[OF assms(1)[unfolded storable_def] assms(3)] bspec[OF assms(2)[unfolded decided_by_def] assms(3)]
  have "fold (line_effect d) (concat (map (desc_values ps) F)) ?xs = ?r"
  proof (cases "pd_type d")
    case TYPE_STRING
    then have "F = [d]" using e by simp
    then show ?thesis using reload_strings[OF TYPE_STRING, of ps ?xs] TYPE_STRING st by simp
  next
    case TYPE_ANY
    then show ?thesis using bspec[OF items_types assms(3)] by (rule notE[rotated])
  next
    case TYPE_BOOLEAN
    then show ?thesis using e by (elim disjE conjE) (simp_all add: line_effect_def desc_values_def)
  next
    case TYPE_INT32
    then show ?thesis using e by (elim disjE conjE) (simp_all add: line_effect_def desc_values_def atol_show_sint)
  qed
  then show ?thesis unfolding F_def .
qed

lemma put_first_hd: "put_first x xs = x # tl xs"
  by (cases xs) simp_all

lemma save_load:
  assumes "storable ps" "decided_by ps0 ps"
  shows "\<exists>ps'. LoadPrefsFromStream line (SavePrefsToStream ps) ps0 = Inr ps' \<and> same_prefs ps' ps"
proof -
  define ps' where "ps' = fold (\<lambda>(name, v). set_pref name v) (saved_lines ps) ps0"
  have "\<forall>(name, v) \<in> set (saved_lines ps). good_line name v" using saved_lines_good[OF assms(1)] by blast
  from load_lines[OF this] have l: "LoadPrefsFromStream line (SavePrefsToStream ps) ps0 = Inr ps'"
    unfolding LoadPrefsFromStream_def SavePrefs_lines ps'_def .
  have "case pd_type d of
        TYPE_STRING \<Rightarrow> \<forall>i. PrefsFindString ps' (pd_name d) i = PrefsFindString ps (pd_name d) i
      | TYPE_BOOLEAN \<Rightarrow> PrefsFindBool ps' (pd_name d) = PrefsFindBool ps (pd_name d)
      | TYPE_INT32 \<Rightarrow> PrefsFindInt32 ps' (pd_name d) = PrefsFindInt32 ps (pd_name d)
      | TYPE_ANY \<Rightarrow> False" if d: "d \<in> set all_items" for d
  proof -
    note v = vals_fold[OF items_found[OF d] bspec[OF items_types d], of "saved_lines ps" ps0,
        folded ps'_def, unfolded saved_lines_def filter_saved_lines reload_values[OF assms d]]
    show ?thesis using v bspec[OF items_types d]
      by (cases "pd_type d") (simp_all add: put_first_hd PrefsFindString_vals PrefsFindBool_vals[of ps'] PrefsFindInt32_vals[of ps'])
  qed
  with l show ?thesis unfolding same_prefs_def by blast
qed

text \<open>
  C15: Preferences that are saved and loaded again are the same preferences: when every string can stand on a
  line of the file (no newline, no leading blank, short enough, one value unless the item allows several),
  \<^verbatim>\<open>LoadPrefsFromStream\<close> reads what \<^verbatim>\<open>SavePrefsToStream\<close> wrote without leaving its line
  buffer, whatever the buffer held before and over whatever defaults \<open>ps0\<close> leave the strings to the file, and
  every item of both tables has the value it had, string items with all their values in order.
\<close>

theorem prefs_save_load:
  assumes "storable ps" "decided_by ps0 ps"
  shows "\<exists>ps'. LoadPrefsFromStream line (SavePrefsToStream ps) ps0 = Inr ps' \<and> same_prefs ps' ps"
  using assms by (rule save_load)

theorem prefs_save_load_witness:
  "\<exists>ps'. LoadPrefsFromStream [] (SavePrefsToStream (PrefsAddString ''disk'' ''a'' [])) (PrefsAddInt32 ''ramsize'' 8 []) = Inr ps' \<and>
     same_prefs ps' (PrefsAddString ''disk'' ''a'' [])"
proof -
  have "storable (PrefsAddString ''disk'' ''a'' [])"
    unfolding storable_def PrefsAddString_def add_data_def
    by (intro ballI impI conjI allI) (auto simp: newline_def isspace_def split: if_splits)
  moreover have "decided_by (PrefsAddInt32 ''ramsize'' 8 []) (PrefsAddString ''disk'' ''a'' [])"
    unfolding decided_by_def PrefsAddInt32_def add_data_def by (intro ballI impI) simp
  ultimately show ?thesis by (rule prefs_save_load)
qed

section \<open>Starting twice\<close>

lemma vals_distinct:
  "distinct (map pn_name (filter (\<lambda>p. data_type (pn_data p) = TYPE_STRING) ps)) \<Longrightarrow> length (vals TYPE_STRING n ps) \<le> 1"
proof (induction ps)
  case (Cons p ps)
  have "vals TYPE_STRING n ps = []" if "n \<notin> pn_name ` set (filter (\<lambda>p. data_type (pn_data p) = TYPE_STRING) ps)" for ps
    using that by (auto simp: vals_def filter_empty_conv)
  then show ?case using Cons by (auto split: if_splits)
qed simp

lemma multiple_items: "\<forall>d \<in> set all_items. multiple d \<longrightarrow> pd_name d \<in> {''disk'', ''floppy'', ''cdrom''}"
  by (simp add: common_prefs_items_def platform_prefs_items_def)

definition plain_strings :: "prefs \<Rightarrow> bool" where
  "plain_strings ps \<longleftrightarrow> distinct (map pn_name (filter (\<lambda>p. data_type (pn_data p) = TYPE_STRING) ps)) \<and>
     (\<forall>p \<in> set ps. case pn_data p of
        PString s \<Rightarrow> good_value s \<and> pn_name p \<notin> {''disk'', ''floppy'', ''cdrom''} | _ \<Rightarrow> True)"

lemma in_vals: "x \<in> set (vals t n ps) \<Longrightarrow> \<exists>p \<in> set ps. pn_name p = n \<and> pn_data p = x"
  by (auto simp: vals_def)

lemma plain_storable:
  assumes "plain_strings ps"
  shows "storable ps"
  unfolding storable_def
proof (intro ballI impI conjI allI)
  fix d s
  show "length (vals TYPE_STRING (pd_name d) ps) \<le> 1" using assms vals_distinct by (simp add: plain_strings_def)
  assume "PString s \<in> set (vals TYPE_STRING (pd_name d) ps)"
  then have "good_value s" using assms in_vals by (fastforce simp: plain_strings_def)
  then show "newline \<notin> set s" "nul \<notin> set s" "s = [] \<or> \<not> isspace (hd s)" "length s \<le> 236" by (simp_all add: good_value_def)
qed

lemma plain_decided:
  assumes "plain_strings ps"
  shows "decided_by ps ps"
  unfolding decided_by_def
proof (intro ballI impI)
  fix d assume d: "d \<in> set all_items" "pd_type d = TYPE_STRING"
  have "vals TYPE_STRING (pd_name d) ps = []" if "multiple d"
  proof (rule ccontr)
    assume "vals TYPE_STRING (pd_name d) ps \<noteq> []"
    then obtain x xs where "vals TYPE_STRING (pd_name d) ps = x # xs" by (cases "vals TYPE_STRING (pd_name d) ps") auto
    then have x: "x \<in> set (vals TYPE_STRING (pd_name d) ps)" by simp
    obtain s where "x = PString s" using vals_type[OF x] by (auto simp: data_type_cases)
    moreover have "pd_name d \<in> {''disk'', ''floppy'', ''cdrom''}" using bspec[OF multiple_items d(1)] that by (rule mp)
    moreover obtain p where "p \<in> set ps" "pn_name p = pd_name d" "pn_data p = x" using in_vals[OF x] by blast
    ultimately show False using assms by (auto simp: plain_strings_def)
  qed
  then show "if multiple d then vals TYPE_STRING (pd_name d) ps = []
      else length (vals TYPE_STRING (pd_name d) ps) \<le> length (vals TYPE_STRING (pd_name d) ps)" by simp
qed

definition default_prefs :: "host_files \<Rightarrow> prefs" where
  "default_prefs h = AddPlatformPrefsDefaults (sound_dsp h) (sound_mixer h) (AddPrefsDefaults (devfs h) (use_jit h) [])"

lemmas prefs_add_defs = PrefsAddString_def PrefsAddBool_def PrefsAddInt32_def add_data_def

lemma AddPrefsDefaults_list:
  "AddPrefsDefaults dv jit [] =
    [\<lparr>pn_name = ''seriala'', pn_data = PString (if dv then ''/dev/tts/0'' else ''/dev/ttyS0'')\<rparr>,
     \<lparr>pn_name = ''serialb'', pn_data = PString (if dv then ''/dev/tts/1'' else ''/dev/ttyS1'')\<rparr>,
     \<lparr>pn_name = ''bootdriver'', pn_data = PInt32 0\<rparr>, \<lparr>pn_name = ''bootdrive'', pn_data = PInt32 0\<rparr>,
     \<lparr>pn_name = ''ramsize'', pn_data = PInt32 0x1000000\<rparr>, \<lparr>pn_name = ''frameskip'', pn_data = PInt32 8\<rparr>,
     \<lparr>pn_name = ''gfxaccel'', pn_data = PBool True\<rparr>, \<lparr>pn_name = ''nocdrom'', pn_data = PBool False\<rparr>,
     \<lparr>pn_name = ''nonet'', pn_data = PBool False\<rparr>, \<lparr>pn_name = ''nosound'', pn_data = PBool False\<rparr>,
     \<lparr>pn_name = ''nogui'', pn_data = PBool False\<rparr>, \<lparr>pn_name = ''noclipconversion'', pn_data = PBool False\<rparr>,
     \<lparr>pn_name = ''ignoresegv'', pn_data = PBool False\<rparr>, \<lparr>pn_name = ''ignoreillegal'', pn_data = PBool False\<rparr>,
     \<lparr>pn_name = ''jit'', pn_data = PBool jit\<rparr>, \<lparr>pn_name = ''jit68k'', pn_data = PBool False\<rparr>,
     \<lparr>pn_name = ''keyboardtype'', pn_data = PInt32 5\<rparr>]"
  by (simp add: AddPrefsDefaults_def SysAddSerialPrefs_def prefs_add_defs)

lemma replace_data_new:
  "find_node ps name (data_type d) i = None \<Longrightarrow> replace_data name d i ps = ps @ [\<lparr>pn_name = name, pn_data = d\<rparr>]"
  by (simp add: replace_data_def add_data_def)

lemma find_node_append_None:
  "find_node (ps @ qs) name t 0 = None \<longleftrightarrow> find_node ps name t 0 = None \<and> find_node qs name t 0 = None"
  by (induction ps) auto

lemma AddPlatformPrefsDefaults_list:
  assumes "\<forall>p \<in> set ps. pn_name p \<notin> {''mixer'', ''dsp'', ''mousewheellines'', ''mousewheelmode'', ''extfs''}"
  shows "AddPlatformPrefsDefaults dsp mixer ps = ps @
    [\<lparr>pn_name = ''keycodes'', pn_data = PBool False\<rparr>, \<lparr>pn_name = ''extfs'', pn_data = PString ''/''\<rparr>,
     \<lparr>pn_name = ''mousewheelmode'', pn_data = PInt32 1\<rparr>, \<lparr>pn_name = ''mousewheellines'', pn_data = PInt32 3\<rparr>,
     \<lparr>pn_name = ''dsp'', pn_data = PString (if dsp then ''/dev/sound/dsp'' else ''/dev/dsp'')\<rparr>,
     \<lparr>pn_name = ''mixer'', pn_data = PString (if mixer then ''/dev/sound/mixer'' else ''/dev/mixer'')\<rparr>,
     \<lparr>pn_name = ''ignoresegv'', pn_data = PBool False\<rparr>, \<lparr>pn_name = ''idlewait'', pn_data = PBool True\<rparr>]"
proof -
  have n: "find_node ps name t 0 = None" if "name \<in> {''mixer'', ''dsp'', ''mousewheellines'', ''mousewheelmode'', ''extfs''}" for name t
    using assms that by (induction ps) auto
  show ?thesis
    by (simp add: AddPlatformPrefsDefaults_def prefs_add_defs PrefsReplaceString_def PrefsReplaceInt32_def
        replace_data_new find_node_append_None n)
qed

lemma default_prefs_plain: "plain_strings (default_prefs h)"
  unfolding plain_strings_def default_prefs_def AddPrefsDefaults_list
  by (subst (1 2) AddPlatformPrefsDefaults_list) (simp_all add: good_value_def newline_def isspace_def)

text \<open>
  The settings survive the first start: where there is no settings file, \<^verbatim>\<open>PrefsInit\<close> writes one with
  the defaults, and the next \<^verbatim>\<open>PrefsInit\<close>, which loads it over the same defaults, ends without reading
  beyond its line buffer and with every item as it was, whatever the host answers about its devices.
\<close>

theorem prefs_restart:
  assumes "prefs_file h = None" "PrefsInit h line [a] [] = Inr (ps, file, n, args)"
  shows "\<exists>ps' file'. PrefsInit (h\<lparr>prefs_file := Some file\<rparr>) line' [a] [] = Inr (ps', file', n, args) \<and> same_prefs ps' ps"
proof -
  have h: "ps = default_prefs h" "file = SavePrefsToStream ps" "(n, args) = remove_args 1 1 [a]"
    using assms by (auto simp: PrefsInit_def Let_def default_prefs_def)
  obtain ps' where "LoadPrefsFromStream line' (SavePrefsToStream ps) ps = Inr ps'" "same_prefs ps' ps"
    using save_load[OF plain_storable plain_decided, of ps line'] default_prefs_plain h(1) by blast
  then show ?thesis using h by (auto simp: PrefsInit_def Let_def default_prefs_def)
qed

theorem prefs_restart_witness:
  "\<exists>h ps file n args ps' file'. prefs_file h = None \<and> PrefsInit h [] [None] [] = Inr (ps, file, n, args) \<and>
     PrefsInit (h\<lparr>prefs_file := Some file\<rparr>) [] [None] [] = Inr (ps', file', n, args) \<and> same_prefs ps' ps"
proof -
  let ?h = "\<lparr>devfs = False, use_jit = True, sound_dsp = False, sound_mixer = False, prefs_file = None\<rparr>"
  obtain ps f n args where i: "PrefsInit ?h [] [None] [] = Inr (ps, f, n, args)"
    by (simp add: PrefsInit_def Let_def) (metis surj_pair)
  have h: "prefs_file ?h = None" by simp
  from prefs_restart[OF h i, of "[]"] show ?thesis using h i by blast
qed

section \<open>The command line\<close>

lemma next_arg_spec:
  "k \<le> next_arg argv k n \<and> next_arg argv k n \<le> k + n \<and> (\<forall>j. k \<le> j \<and> j < next_arg argv k n \<longrightarrow> argv ! j = None) \<and>
   (next_arg argv k n < k + n \<longrightarrow> argv ! next_arg argv k n \<noteq> None)"
proof (induction argv k n rule: next_arg.induct)
  case (2 argv k n)
  then show ?case by (cases "argv ! k = None") (auto simp: Suc_le_eq dest: le_neq_implies_less)
qed auto

lemma shift_nth:
  assumes "i + k + m \<le> length argv"
  shows "length (fold (\<lambda>j argv. argv[j - k := argv ! j]) [i + k..<i + k + m] argv) = length argv \<and>
    (\<forall>p < length argv. fold (\<lambda>j argv. argv[j - k := argv ! j]) [i + k..<i + k + m] argv ! p =
       (if i \<le> p \<and> p < i + m then argv ! (p + k) else argv ! p))"
  using assms
proof (induction m)
  case (Suc m)
  define r where "r = fold (\<lambda>j argv. argv[j - k := argv ! j]) [i + k..<i + k + m] argv"
  have IH: "length r = length argv" "\<forall>p < length argv. r ! p = (if i \<le> p \<and> p < i + m then argv ! (p + k) else argv ! p)"
    using Suc unfolding r_def by simp_all
  have "fold (\<lambda>j argv. argv[j - k := argv ! j]) [i + k..<i + k + Suc m] argv = r[i + m := argv ! (i + m + k)]"
  proof -
    have "[i + k..<i + k + Suc m] = [i + k..<i + k + m] @ [i + k + m]" by simp
    moreover have "i + k + m - k = i + m" "r ! (i + k + m) = argv ! (i + m + k)"
      using Suc.prems IH(2) by (simp_all add: add.commute add.left_commute)
    ultimately show ?thesis by (simp only: fold_append comp_apply fold.simps id_apply r_def)
  qed
  then show ?case using IH Suc.prems by (auto simp: nth_list_update)
qed auto

lemma shift_args_take:
  assumes "i + k \<le> argc" "argc \<le> length argv"
  shows "length (shift_args i k argc argv) = length argv"
    and "take (argc - k) (shift_args i k argc argv) = take i argv @ drop (i + k) (take argc argv)"
proof -
  obtain m where m: "argc = i + k + m" using assms(1) by (auto simp: le_iff_add)
  note n = shift_nth[of i k m argv, folded m] assms(2)
  show "length (shift_args i k argc argv) = length argv" using n by (simp add: shift_args_def)
  show "take (argc - k) (shift_args i k argc argv) = take i argv @ drop (i + k) (take argc argv)"
    using n m by (intro nth_equalityI) (auto simp: shift_args_def nth_append add.commute add.left_commute)
qed

abbreviation left :: "string option list \<Rightarrow> string option list" where
  "left \<equiv> filter (\<lambda>a. a \<noteq> None)"

lemma left_skip:
  assumes "i \<le> k" "k \<le> length xs" "\<forall>j. i \<le> j \<and> j < k \<longrightarrow> xs ! j = None"
  shows "left (drop i xs) = left (drop k xs)"
  using assms
proof (induction k)
  case (Suc k)
  show ?case
  proof (cases "i = Suc k")
    case False
    then have "left (drop i xs) = left (drop k xs)" "xs ! k = None" using Suc by auto
    then show ?thesis using Suc.prems(2) by (simp add: Cons_nth_drop_Suc[symmetric])
  qed simp
qed simp

lemma remove_args_left:
  "argc \<le> length argv \<Longrightarrow> i \<le> argc \<Longrightarrow> remove_args i argc argv = (c, v) \<Longrightarrow>
   take c v = take i argv @ left (drop i (take argc argv))"
proof (induction i argc argv rule: remove_args.induct)
  case (1 i argc argv)
  define k where "k = next_arg argv i (argc - i)"
  show ?case
  proof (cases "i < argc")
    case False
    then show ?thesis using 1(3-5) remove_args.simps[of i argc argv] by simp
  next
    case i: True
    have ks: "i \<le> k" "k \<le> argc" "\<forall>j. i \<le> j \<and> j < k \<longrightarrow> argv ! j = None" "k < argc \<Longrightarrow> argv ! k \<noteq> None"
      using next_arg_spec[of i argv "argc - i"] i by (simp_all add: k_def)
    have skip: "left (drop i (take argc argv)) = left (drop k (take argc argv))"
      using ks 1(3) by (intro left_skip) auto
    have here: "left (drop k (take argc argv)) = argv ! k # left (drop (k + 1) (take argc argv))" if "k < argc"
      using that ks(4) 1(3) Cons_nth_drop_Suc[of k "take argc argv", symmetric] by simp
    show ?thesis
    proof (cases "k > i")
      case False
      then have "k = i" using ks(1) by simp
      then show ?thesis
        using 1(2)[OF i k_def False] remove_args.simps[of i argc argv] False i here 1(3-5)
        by (simp add: Let_def take_Suc_conv_app_nth k_def)
    next
      case True
      let ?v = "shift_args i (k - i) argc argv" and ?c = "argc - (k - i)"
      have t: "length ?v = length argv" "take ?c ?v = take i argv @ drop k (take argc argv)"
        using shift_args_take[of i "k - i" argc argv] ks 1(3) i by simp_all
      have r: "remove_args (i + 1) ?c ?v = (c, v)"
        using 1(5) i True remove_args.simps[of i argc argv] by (simp add: Let_def k_def)
      show ?thesis
      proof (cases "k = argc")
        case True
        then have "c = i \<and> v = ?v" using r i remove_args.simps[of "i + 1" ?c ?v] by simp
        then show ?thesis using t skip True i by simp
      next
        case False
        then have kc: "k < argc" using ks(2) by simp
        have "take c v = take (i + 1) ?v @ left (drop (i + 1) (take ?c ?v))"
          using 1(1)[OF i k_def True] r t(1) 1(3) kc True by simp
        moreover have "take (i + 1) ?v = take (i + 1) (take ?c ?v)" 
        proof -
          have "i + 1 \<le> ?c" using kc True by simp
          then show ?thesis by (simp only: take_take min_absorb1)
        qed
        moreover have "drop k (take argc argv) = argv ! k # drop (k + 1) (take argc argv)"
          using kc 1(3) Cons_nth_drop_Suc[of k "take argc argv", symmetric] by simp
        ultimately show ?thesis using t skip here[OF kc] i 1(3) by simp
      qed
    qed
  qed
qed

text \<open>What a command line asks for: its options with their values, and the arguments that are none.\<close>

fun split_options :: "string list \<Rightarrow> (prefs_desc \<times> string \<times> string) list \<times> string list" where
  "split_options [] = ([], [])"
| "split_options [a] = ([], if option_desc (Some a) = None then [a] else [])"
| "split_options (a # v # as) =
     (case option_desc (Some a) of
        None \<Rightarrow> map_prod id ((#) a) (split_options (v # as))
      | Some (keyword, d) \<Rightarrow> map_prod ((#) (d, keyword, v)) id (split_options as))"

lemma parse_args_split:
  "\<exists>args. parse_args (map Some as) ps = Inr (args, fold (\<lambda>(d, keyword, v). apply_option d keyword v) (fst (split_options as)) ps) \<and>
     left args = map Some (snd (split_options as))"
proof (induction as arbitrary: ps rule: split_options.induct)
  case (3 a v as)
  show ?case
  proof (cases "option_desc (Some a)")
    case None
    then show ?thesis using "3.IH"(1)[OF None, of ps] by (auto simp: option_desc_def split: prod.splits)
  next
    case (Some x)
    obtain keyword d where x: "x = (keyword, d)" by (cases x)
    then show ?thesis using "3.IH"(2)[OF Some x[symmetric], of "apply_option d keyword v ps"] Some by auto
  qed
qed auto

text \<open>
  C32: The command line overrides the settings: on arguments that are all strings, \<^verbatim>\<open>PrefsInit\<close> applies
  each option \<^verbatim>\<open>--keyword value\<close> in order to the loaded settings, and leaves in \<^verbatim>\<open>argv\<close>, up to the
  new \<^verbatim>\<open>argc\<close>, the program name and exactly the arguments that belong to no option, in their order.
\<close>

theorem prefs_command_line:
  assumes "prefs_file h = Some f" "LoadPrefsFromStream line f (default_prefs h) = Inr ps"
  shows "\<exists>argc argv. PrefsInit h line (map Some (name # as)) [] =
      Inr (fold (\<lambda>(d, keyword, v). apply_option d keyword v) (fst (split_options as)) ps, f, argc, argv) \<and>
    take argc argv = map Some (name # snd (split_options as))"
proof -
  obtain args where a: "parse_args (map Some as) ps =
      Inr (args, fold (\<lambda>(d, keyword, v). apply_option d keyword v) (fst (split_options as)) ps)"
    "left args = map Some (snd (split_options as))" using parse_args_split by blast
  obtain argc argv where r: "remove_args 1 (Suc (length args)) (Some name # args) = (argc, argv)" by fastforce
  have "take argc argv = Some name # left args" using remove_args_left[OF _ _ r] by simp
  then show ?thesis using assms a r by (simp add: PrefsInit_def default_prefs_def Let_def)
qed

theorem prefs_command_line_witness:
  "\<exists>h argc argv ps. PrefsInit h [] (map Some [''ss'', ''x'', ''--rom'', ''r'', ''y'']) [] = Inr (ps, [], argc, argv) \<and>
     PrefsFindString ps ''rom'' 0 = Some ''r'' \<and> take argc argv = map Some [''ss'', ''x'', ''y'']"
proof -
  let ?h = "\<lparr>devfs = False, use_jit = True, sound_dsp = False, sound_mixer = False, prefs_file = Some []\<rparr>"
  have h: "prefs_file ?h = Some []" by simp
  have l: "LoadPrefsFromStream [] [] (default_prefs ?h) = Inr (default_prefs ?h)"
    by (simp add: LoadPrefsFromStream_def load_loop_Nil)
  have s: "split_options [''x'', ''--rom'', ''r'', ''y''] = ([(desc ''rom'' TYPE_STRING False, ''rom'', ''r'')], [''x'', ''y''])"
    by (simp add: option_desc_def find_prefs_desc_def common_prefs_items_def platform_prefs_items_def)
  have "PrefsFindString (apply_option (desc ''rom'' TYPE_STRING False) ''rom'' ''r'' ps) ''rom'' 0 = Some ''r''" for ps
    by (simp add: apply_option_def PrefsReplaceString_def PrefsFindString_vals vals_replace_data)
  then show ?thesis using prefs_command_line[OF h l, of "''ss''" "[''x'', ''--rom'', ''r'', ''y'']"] unfolding s
    by simp blast
qed

text \<open>
  A line that is blank, or that has a keyword only, makes the loader search for the end of the keyword
  beyond the end of the line: the newline has been overwritten, so the search goes on into whatever the line
  buffer holds from earlier lines, and out of the buffer when no blank follows.
\<close>

theorem keyword_line_overruns:
  assumes "nul \<notin> set name" "\<forall>c \<in> set (name @ rest). \<not> isspace c" "take 1 name \<noteq> ''#''" "take 1 name \<noteq> '';''"
  shows "load_line (name @ newline # nul # rest) ps = Inl Line_overrun"
proof -
  have c: "c_string (name @ newline # nul # rest) 0 = name @ [newline]"
    using c_string_append[of "name @ [newline]" rest] assms(1) by (simp add: newline_def)
  have n: "scan P xs = None" if "\<forall>c \<in> set xs. \<not> P c" for P xs using that by (induction xs) auto
  have "scan isspace (name @ nul # nul # rest) = None" using assms(2) by (intro n) auto
  then show ?thesis using assms(3,4) unfolding load_line_def c
    by (cases name) (simp_all add: Let_def list_update_append)
qed

theorem keyword_line_overruns_witness: "load_line (''nogui'' @ newline # nul # replicate 249 nul) [] = Inl Line_overrun"
  by (rule keyword_line_overruns) (simp_all add: isspace_def)

end
